(* ===== verification/Prelude.thy ===== *)
theory Prelude
  imports Complex_Main "HOL-Library.Multiset"
begin

text \<open>
  Shared vocabulary of the development: results of fallible code, the string
  operations of JavaScript that the program uses, instants, safe integers,
  comparator-based stable sorting, and the lemmas about them that the
  component theories rely on.

  A JavaScript string is a \<^typ>\<open>string\<close>: each character stands for one
  UTF-16 code unit of the range 0 to 255, so \<^const>\<open>length\<close> is the
  program's \<open>length\<close>. An instant is its number of milliseconds since the
  epoch.
\<close>

section \<open>Results\<close>

text \<open>Code that may throw returns \<open>Inl\<close> of the error or \<open>Inr\<close> of the value.\<close>

definition and_then :: "'e + 'a \<Rightarrow> ('a \<Rightarrow> 'e + 'b) \<Rightarrow> 'e + 'b" where
  "and_then r f = (case r of Inl e \<Rightarrow> Inl e | Inr x \<Rightarrow> f x)"

definition check :: "bool \<Rightarrow> 'e \<Rightarrow> 'e + unit" where
  "check b e = (if b then Inr () else Inl e)"

definition parse_as :: "('a \<Rightarrow> bool) \<Rightarrow> 'e \<Rightarrow> 'a \<Rightarrow> 'e + 'a" where
  "parse_as P e x = (if P x then Inr x else Inl e)"

lemma and_then_simps [simp]:
  "and_then (Inl e) f = Inl e"
  "and_then (Inr x) f = f x"
  by (simp_all add: and_then_def)

lemma and_then_Inr_iff:
  "and_then r f = Inr y \<longleftrightarrow> (\<exists>x. r = Inr x \<and> f x = Inr y)"
  by (cases r) auto

lemma and_then_Inl_iff:
  "and_then r f = Inl e \<longleftrightarrow> r = Inl e \<or> (\<exists>x. r = Inr x \<and> f x = Inl e)"
  by (cases r) auto

lemma check_simps [simp]:
  "check b e = Inr u \<longleftrightarrow> b"
  "check b e = Inl e' \<longleftrightarrow> \<not> b \<and> e' = e"
  by (auto simp: check_def)

lemma parse_as_simps [simp]:
  "parse_as P e x = Inr y \<longleftrightarrow> P x \<and> y = x"
  "parse_as P e x = Inl e' \<longleftrightarrow> \<not> P x \<and> e' = e"
  by (auto simp: parse_as_def)

lemma parse_as_True [simp]: "P x \<Longrightarrow> parse_as P e x = Inr x"
  by (simp add: parse_as_def)

lemma parse_as_False [simp]: "\<not> P x \<Longrightarrow> parse_as P e x = Inl e"
  by (simp add: parse_as_def)

fun collect :: "('a \<Rightarrow> 'e + 'b) \<Rightarrow> 'a list \<Rightarrow> 'e + 'b list" where
  "collect f [] = Inr []"
| "collect f (x # xs) =
     and_then (f x) (\<lambda>y. and_then (collect f xs) (\<lambda>ys. Inr (y # ys)))"

lemma collect_Inr_all2:
  "collect f xs = Inr ys \<Longrightarrow> list_all2 (\<lambda>x y. f x = Inr y) xs ys"
  by (induction xs arbitrary: ys) (auto simp: and_then_Inr_iff)

lemma collect_length: "collect f xs = Inr ys \<Longrightarrow> length ys = length xs"
  by (drule collect_Inr_all2) (simp add: list_all2_lengthD)

lemma collect_total:
  "(\<And>x. x \<in> set xs \<Longrightarrow> f x = Inr (g x)) \<Longrightarrow> collect f xs = Inr (map g xs)"
  by (induction xs) auto

section \<open>Numbers and instants\<close>

definition max_safe_integer :: int where
  "max_safe_integer = 9007199254740991"

definition safe_int :: "int \<Rightarrow> bool" where
  "safe_int i \<longleftrightarrow> - max_safe_integer \<le> i \<and> i \<le> max_safe_integer"

text \<open>
  \<open>Date.prototype.toISOString\<close> throws outside the range of a Date, and the
  datetime schema takes years 0000 to 9999 only.
\<close>

definition date_range :: "int \<Rightarrow> bool" where
  "date_range t \<longleftrightarrow> - 8640000000000000 \<le> t \<and> t \<le> 8640000000000000"

definition valid_instant :: "int \<Rightarrow> bool" where
  "valid_instant t \<longleftrightarrow> - 62167219200000 \<le> t \<and> t \<le> 253402300799999"

definition to_iso :: "'e \<Rightarrow> int \<Rightarrow> 'e + int" where
  "to_iso e t = parse_as date_range e t"

lemma to_iso_Inr_iff [simp]: "to_iso e t = Inr u \<longleftrightarrow> date_range t \<and> u = t"
  by (auto simp: to_iso_def)

lemma to_iso_valid [simp]: "date_range t \<Longrightarrow> to_iso e t = Inr t"
  by (simp add: to_iso_def)

lemma valid_instant_date_range: "valid_instant t \<Longrightarrow> date_range t"
  by (simp add: valid_instant_def date_range_def)

section \<open>Characters and strings\<close>

definition code_unit :: "char \<Rightarrow> nat" where
  "code_unit c = of_char c"

lemma code_unit_bound: "code_unit c < 256"
  by (simp add: code_unit_def)

lemma char_of_code_unit [simp]: "char_of (code_unit c) = c"
  by (simp add: code_unit_def)

lemma code_unit_char_of: "n < 256 \<Longrightarrow> code_unit (char_of n) = n"
  by (simp add: code_unit_def)

lemma code_unit_eqD: "code_unit c = n \<Longrightarrow> c = char_of n"
  using char_of_code_unit [of c] by simp

lemma of_char_eqD: "of_char c = (n :: nat) \<Longrightarrow> char_of n = c"
  using char_of_code_unit [of c] by (simp add: code_unit_def)

definition control_char :: "char \<Rightarrow> bool" where
  "control_char c \<longleftrightarrow> code_unit c < 32 \<or> code_unit c = 127"

definition digit_char :: "char \<Rightarrow> bool" where
  "digit_char c \<longleftrightarrow> 48 \<le> code_unit c \<and> code_unit c \<le> 57"

definition upper_char :: "char \<Rightarrow> bool" where
  "upper_char c \<longleftrightarrow> 65 \<le> code_unit c \<and> code_unit c \<le> 90"

definition lower_char :: "char \<Rightarrow> bool" where
  "lower_char c \<longleftrightarrow> 97 \<le> code_unit c \<and> code_unit c \<le> 122"

definition alnum_char :: "char \<Rightarrow> bool" where
  "alnum_char c \<longleftrightarrow> digit_char c \<or> upper_char c \<or> lower_char c"

definition hex_char :: "char \<Rightarrow> bool" where
  "hex_char c \<longleftrightarrow> digit_char c \<or> 97 \<le> code_unit c \<and> code_unit c \<le> 102"

definition hex_string :: "nat \<Rightarrow> string \<Rightarrow> bool" where
  "hex_string n s \<longleftrightarrow> length s = n \<and> list_all hex_char s"

definition sha256_string :: "string \<Rightarrow> bool" where
  "sha256_string s \<longleftrightarrow> hex_string 64 s"

definition commit_string :: "string \<Rightarrow> bool" where
  "commit_string s \<longleftrightarrow> hex_string 40 s"

definition len_in :: "nat \<Rightarrow> nat \<Rightarrow> string \<Rightarrow> bool" where
  "len_in lo hi s \<longleftrightarrow> lo \<le> length s \<and> length s \<le> hi"

fun starts_with :: "string \<Rightarrow> string \<Rightarrow> bool" where
  "starts_with [] s = True"
| "starts_with (c # cs) [] = False"
| "starts_with (c # cs) (d # ds) = (c = d \<and> starts_with cs ds)"

fun has_substring :: "string \<Rightarrow> string \<Rightarrow> bool" where
  "has_substring p [] = (p = [])"
| "has_substring p (c # cs) = (starts_with p (c # cs) \<or> has_substring p cs)"

fun split_on :: "char \<Rightarrow> string \<Rightarrow> string list" where
  "split_on d [] = [[]]"
| "split_on d (c # cs) =
     (if c = d then [] # split_on d cs
      else (case split_on d cs of [] \<Rightarrow> [[c]] | w # ws \<Rightarrow> (c # w) # ws))"

fun join :: "string \<Rightarrow> string list \<Rightarrow> string" where
  "join sep [] = []"
| "join sep [w] = w"
| "join sep (w # v # vs) = w @ sep @ join sep (v # vs)"

lemma starts_with_append [simp]: "starts_with p (p @ s)"
  by (induction p) auto

lemma starts_with_iff: "starts_with p s \<longleftrightarrow> (\<exists>t. s = p @ t)"
  by (induction p s rule: starts_with.induct) auto

lemma has_substring_iff: "has_substring p s \<longleftrightarrow> (\<exists>u v. s = u @ p @ v)"
proof (induction s)
  case Nil
  then show ?case by auto
next
  case (Cons c cs)
  have "(\<exists>u v. c # cs = u @ p @ v) \<longleftrightarrow>
      (\<exists>v. c # cs = p @ v) \<or> (\<exists>u v. cs = u @ p @ v)"
    (is "?l = ?r")
  proof
    assume ?l
    then obtain u v where "c # cs = u @ p @ v" by blast
    then show ?r by (cases u) auto
  next
    assume ?r
    then show ?l
      by (metis append_Cons append_Nil)
  qed
  then show ?case using Cons.IH by (simp add: starts_with_iff)
qed

lemma split_on_not_Nil [simp]: "split_on d s \<noteq> []"
  by (cases s) (auto split: list.splits)

lemma split_on_Cons_other:
  "c \<noteq> d \<Longrightarrow> split_on d (c # cs) = (c # hd (split_on d cs)) # tl (split_on d cs)"
  by (auto split: list.splits)

lemma join_Cons: "ws \<noteq> [] \<Longrightarrow> join sep (w # ws) = w @ sep @ join sep ws"
  by (cases ws) auto

lemma join_split_on: "join [d] (split_on d s) = s"
proof (induction s)
  case Nil
  then show ?case by simp
next
  case (Cons c cs)
  show ?case
  proof (cases "c = d")
    case True
    then show ?thesis using Cons.IH by (simp add: join_Cons)
  next
    case False
    obtain w ws where w: "split_on d cs = w # ws" by (cases "split_on d cs") auto
    with Cons.IH False show ?thesis by (cases ws) auto
  qed
qed

lemma split_on_no_sep: "w \<in> set (split_on d s) \<Longrightarrow> d \<notin> set w"
proof (induction s arbitrary: w)
  case Nil
  then show ?case by simp
next
  case (Cons c cs)
  then show ?case
    by (cases "split_on d cs") (auto split: if_splits)
qed

lemma split_on_word: "d \<notin> set w \<Longrightarrow> split_on d w = [w]"
  by (induction w) auto

lemma split_on_append:
  "d \<notin> set w \<Longrightarrow> split_on d (w @ d # s) = w # split_on d s"
  by (induction w) auto

lemma split_on_join:
  "ws \<noteq> [] \<Longrightarrow> (\<And>w. w \<in> set ws \<Longrightarrow> d \<notin> set w) \<Longrightarrow> split_on d (join [d] ws) = ws"
proof (induction ws)
  case Nil
  then show ?case by simp
next
  case (Cons w ws)
  then show ?case
    by (cases "ws = []") (simp_all add: split_on_word join_Cons split_on_append)
qed

text \<open>Decimal text of an integer, as \<open>String\<close> and template literals print it.\<close>

fun nat_text :: "nat \<Rightarrow> string" where
  "nat_text n =
     (if n < 10 then [char_of (48 + n)] else nat_text (n div 10) @ [char_of (48 + n mod 10)])"

declare nat_text.simps [simp del]

definition int_text :: "int \<Rightarrow> string" where
  "int_text i = (if i < 0 then ''-'' @ nat_text (nat (- i)) else nat_text (nat i))"

lemma nat_text_nonempty [simp]: "nat_text n \<noteq> []"
  by (subst nat_text.simps) simp

lemma nat_text_digits: "c \<in> set (nat_text n) \<Longrightarrow> digit_char c"
proof (induction n rule: nat_text.induct)
  case (1 n)
  show ?case
  proof (cases "n < 10")
    case True
    with "1.prems" show ?thesis
      by (subst (asm) nat_text.simps) (simp add: digit_char_def code_unit_def)
  next
    case False
    have "n mod 10 < 10" by simp
    then have "digit_char (char_of (48 + n mod 10))"
      by (simp add: digit_char_def code_unit_def)
    with False "1.prems" "1.IH" show ?thesis
      by (subst (asm) nat_text.simps) auto
  qed
qed

section \<open>Stable sorting by a comparator\<close>

text \<open>
  \<open>Array.prototype.sort\<close> is stable, so with a comparator whose sign is a total
  preorder its result is the one of insertion sort. The argument \<open>le x y\<close> is
  "the comparator of \<open>x\<close> and \<open>y\<close> is not positive".
\<close>

fun insert_by :: "('a \<Rightarrow> 'a \<Rightarrow> bool) \<Rightarrow> 'a \<Rightarrow> 'a list \<Rightarrow> 'a list" where
  "insert_by le x [] = [x]"
| "insert_by le x (y # ys) = (if le x y then x # y # ys else y # insert_by le x ys)"

definition sort_by :: "('a \<Rightarrow> 'a \<Rightarrow> bool) \<Rightarrow> 'a list \<Rightarrow> 'a list" where
  "sort_by le xs = foldr (insert_by le) xs []"

lemma sort_by_simps [simp]:
  "sort_by le [] = []"
  "sort_by le (x # xs) = insert_by le x (sort_by le xs)"
  by (simp_all add: sort_by_def)

lemma mset_insert_by [simp]: "mset (insert_by le x xs) = add_mset x (mset xs)"
  by (induction xs) auto

lemma mset_sort_by [simp]: "mset (sort_by le xs) = mset xs"
  by (induction xs) auto

lemma set_sort_by [simp]: "set (sort_by le xs) = set xs"
  by (metis mset_sort_by set_mset_mset)

lemma length_sort_by [simp]: "length (sort_by le xs) = length xs"
  by (metis mset_sort_by size_mset)

lemma sort_by_Nil_iff [simp]: "sort_by le xs = [] \<longleftrightarrow> xs = []"
  by (metis length_0_conv length_sort_by)

lemma sort_by_Cons_in: "sort_by le xs = y # ys \<Longrightarrow> y \<in> set xs"
  by (metis list.set_intros(1) set_sort_by)

lemma distinct_map_sort_by [simp]:
  "distinct (map f (sort_by le xs)) = distinct (map f xs)"
  by (metis mset_map mset_sort_by mset_eq_imp_distinct_iff)

locale comparator_order =
  fixes le :: "'a \<Rightarrow> 'a \<Rightarrow> bool"
  assumes total: "le x y \<or> le y x"
    and trans: "le x y \<Longrightarrow> le y z \<Longrightarrow> le x z"
begin

lemma refl: "le x x"
  using total by blast

lemma sorted_insert_by: "sorted_wrt le ys \<Longrightarrow> sorted_wrt le (insert_by le x ys)"
proof (induction ys)
  case Nil
  then show ?case by simp
next
  case (Cons y ys)
  show ?case
  proof (cases "le x y")
    case True
    with Cons.prems show ?thesis by (auto intro: trans)
  next
    case False
    then have "le y x" using total by blast
    moreover have "set (insert_by le x ys) = insert x (set ys)"
      by (metis mset_insert_by set_mset_add_mset_insert set_mset_mset)
    ultimately show ?thesis using Cons False by auto
  qed
qed

lemma sorted_sort_by: "sorted_wrt le (sort_by le xs)"
  by (induction xs) (simp_all add: sorted_insert_by)

lemma first_is_least: "sort_by le xs = y # ys \<Longrightarrow> x \<in> set xs \<Longrightarrow> le y x"
proof -
  assume eq: "sort_by le xs = y # ys" and x: "x \<in> set xs"
  have "x \<in> set (sort_by le xs)" using x by simp
  then have "x = y \<or> x \<in> set ys" by (simp add: eq)
  moreover have "sorted_wrt le (y # ys)" using sorted_sort_by [of xs] by (simp add: eq)
  ultimately show "le y x" using refl by auto
qed

lemma insert_by_sorted: "sorted_wrt le (x # xs) \<Longrightarrow> insert_by le x xs = x # xs"
  by (cases xs) auto

lemma sort_by_sorted: "sorted_wrt le xs \<Longrightarrow> sort_by le xs = xs"
proof (induction xs)
  case Nil
  then show ?case by simp
next
  case (Cons x xs)
  then have "sort_by le (x # xs) = insert_by le x xs" by simp
  also have "\<dots> = x # xs" using Cons.prems by (rule insert_by_sorted)
  finally show ?case .
qed

lemma sorted_unique:
  assumes "sorted_wrt le xs" and "sorted_wrt le ys" and "mset xs = mset ys"
    and anti: "\<And>x y. x \<in> set xs \<Longrightarrow> y \<in> set xs \<Longrightarrow> le x y \<Longrightarrow> le y x \<Longrightarrow> x = y"
  shows "xs = ys"
  using assms
proof (induction xs arbitrary: ys)
  case Nil
  then show ?case by simp
next
  case (Cons x xs)
  then obtain y ys' where ys: "ys = y # ys'" by (cases ys) auto
  have sets: "set (x # xs) = set (y # ys')"
    using Cons.prems(3) ys by (metis set_mset_mset)
  have xy: "x = y"
  proof (rule ccontr)
    assume ne: "x \<noteq> y"
    with sets have "x \<in> set ys'" and "y \<in> set xs" by auto
    then have "le y x" and "le x y" using Cons.prems(1,2) ys by auto
    then have "x = y" using Cons.prems(4) \<open>y \<in> set xs\<close> by auto
    with ne show False by simp
  qed
  have "xs = ys'"
    using Cons.prems ys xy by (intro Cons.IH) auto
  with ys xy show ?case by simp
qed

lemma sort_by_permutation:
  assumes "mset xs = mset ys"
    and "\<And>x y. x \<in> set xs \<Longrightarrow> y \<in> set xs \<Longrightarrow> le x y \<Longrightarrow> le y x \<Longrightarrow> x = y"
  shows "sort_by le xs = sort_by le ys"
  by (rule sorted_unique) (use assms in \<open>auto simp: sorted_sort_by\<close>)

end

section \<open>What the host provides\<close>

text \<open>
  The UTF-8 encoding of a string of the model, whose code units are below 256.
\<close>

definition utf8_unit :: "char \<Rightarrow> string" where
  "utf8_unit c =
     (if code_unit c < 128 then [c]
      else [char_of (192 + code_unit c div 64), char_of (128 + code_unit c mod 64)])"

definition utf8_encode :: "string \<Rightarrow> string" where
  "utf8_encode s = concat (map utf8_unit s)"

lemma code_unit_eq_iff: "code_unit c = code_unit d \<longleftrightarrow> c = d"
  by (simp add: code_unit_def)

lemma utf8_unit_prefix:
  assumes "utf8_unit c @ s = utf8_unit d @ t"
  shows "c = d \<and> s = t"
proof -
  have lead: "code_unit (char_of (192 + code_unit e div 64)) = 192 + code_unit e div 64" for e
    using code_unit_bound [of e] by (intro code_unit_char_of) simp
  have trail: "code_unit (char_of (128 + code_unit e mod 64)) = 128 + code_unit e mod 64" for e
    using mod_less_divisor [of 64 "code_unit e"] by (intro code_unit_char_of) simp
  show ?thesis
  proof (cases "code_unit c < 128"; cases "code_unit d < 128")
    assume "code_unit c < 128" "code_unit d < 128"
    then show ?thesis using assms by (simp add: utf8_unit_def)
  next
    assume "code_unit c < 128" "\<not> code_unit d < 128"
    then show ?thesis using assms lead [of d] by (auto simp: utf8_unit_def)
  next
    assume "\<not> code_unit c < 128" "code_unit d < 128"
    then show ?thesis using assms lead [of c] by (auto simp: utf8_unit_def)
  next
    assume h: "\<not> code_unit c < 128" "\<not> code_unit d < 128"
    then have eq: "char_of (192 + code_unit c div 64) = (char_of (192 + code_unit d div 64) :: char)"
      "char_of (128 + code_unit c mod 64) = (char_of (128 + code_unit d mod 64) :: char)" "s = t"
      using assms by (simp_all add: utf8_unit_def)
    have "code_unit c div 64 = code_unit d div 64" "code_unit c mod 64 = code_unit d mod 64"
      using arg_cong [OF eq(1), of code_unit] arg_cong [OF eq(2), of code_unit] lead trail by simp_all
    then have "code_unit c = code_unit d" by (metis div_mult_mod_eq)
    with eq(3) show ?thesis by (simp add: code_unit_eq_iff)
  qed
qed

lemma utf8_encode_inject: "utf8_encode s = utf8_encode t \<longleftrightarrow> s = t"
proof
  have ne: "utf8_unit c \<noteq> []" for c by (simp add: utf8_unit_def)
  show "utf8_encode s = utf8_encode t \<Longrightarrow> s = t"
  proof (induction s arbitrary: t)
    case Nil
    then show ?case using ne by (cases t) (auto simp: utf8_encode_def)
  next
    case (Cons c s)
    then obtain d t' where t: "t = d # t'" using ne by (cases t) (auto simp: utf8_encode_def)
    have "utf8_unit c @ utf8_encode s = utf8_unit d @ utf8_encode t'"
      using Cons.prems by (simp add: t utf8_encode_def)
    from utf8_unit_prefix [OF this] Cons.IH [of t'] show ?case by (simp add: t)
  qed
qed simp

text \<open>
  Functions of the JavaScript engine and of Node that the program calls and that
  are not under src/: the regular-expression engine, the rounding of a numeral to
  a double (as its canonical text), the collation behind \<open>localeCompare\<close>
  (\<open>collate x y\<close> is "not positive"), SHA-256 of a byte sequence as lowercase
  hexadecimal, fatal UTF-8 decoding (\<open>None\<close> when it throws), Unicode
  normalization form C, and the WHATWG URL parser. A byte sequence is a string whose
  characters are the bytes.
\<close>

record url =
  url_protocol :: string
  url_hostname :: string
  url_port :: string
  url_username :: string
  url_password :: string
  url_pathname :: string
  url_search :: string
  url_hash :: string

record js_host =
  regex_ok :: "string \<Rightarrow> bool"
  regex_test :: "string \<Rightarrow> string \<Rightarrow> bool"
  num_canon :: "string \<Rightarrow> string"
  collate :: "string \<Rightarrow> string \<Rightarrow> bool"
  sha256_hex :: "string \<Rightarrow> string"
  utf8_decode :: "string \<Rightarrow> string option"
  nfc :: "string \<Rightarrow> string"
  parse_url :: "string \<Rightarrow> url option"

end
