(* ===== verification/Transitions.thy ===== *)
theory Transitions
  imports Prelude
begin

text \<open>
  The contract that the case and the job state machines share: a table of allowed
  successors in which every transition makes progress. Paths over such a table
  never repeat a state and are bounded by the rank of their first state.
\<close>

fun legal_path :: "('s \<Rightarrow> 's list) \<Rightarrow> 's \<Rightarrow> 's list \<Rightarrow> bool" where
  "legal_path allowed s [] = True"
| "legal_path allowed s (t # ts) = (t \<in> set (allowed s) \<and> legal_path allowed t ts)"

lemma legal_path_snoc:
  "legal_path allowed s (ts @ [t]) \<longleftrightarrow>
     legal_path allowed s ts \<and> t \<in> set (allowed (last (s # ts)))"
  by (induction ts arbitrary: s) auto

locale transition_table =
  fixes allowed :: "'s \<Rightarrow> 's list"
    and rank :: "'s \<Rightarrow> nat"
  assumes progress: "t \<in> set (allowed s) \<Longrightarrow> rank t < rank s"
begin

lemma path_bounded: "legal_path allowed s ts \<Longrightarrow> length ts \<le> rank s"
proof (induction ts arbitrary: s)
  case Nil
  then show ?case by simp
next
  case (Cons t ts)
  then have "rank t < rank s" and "length ts \<le> rank t"
    using progress by auto
  then show ?case by simp
qed

lemma path_below: "legal_path allowed s ts \<Longrightarrow> t \<in> set ts \<Longrightarrow> rank t < rank s"
proof (induction ts arbitrary: s)
  case Nil
  then show ?case by simp
next
  case (Cons u us)
  then have "rank u < rank s" using progress by auto
  with Cons show ?case by fastforce
qed

lemma path_distinct: "legal_path allowed s ts \<Longrightarrow> distinct (s # ts)"
proof (induction ts arbitrary: s)
  case Nil
  then show ?case by simp
next
  case (Cons t ts)
  have "s \<notin> set (t # ts)" using path_below [OF Cons.prems] by fastforce
  moreover have "distinct (t # ts)" using Cons by auto
  ultimately show ?case by simp
qed

lemma no_self_loop: "s \<notin> set (allowed s)"
  using progress by blast

lemma rank_zero_terminal: "rank s = 0 \<Longrightarrow> allowed s = []"
  using progress by (metis list.set_intros(1) neq_Nil_conv not_less_zero)

end

end
