(* ===== verification/CaseLifecycle.thy ===== *)
theory CaseLifecycle
  imports Transitions
begin

text \<open>
  The case state machine of src/src/domain/case.ts: the thirteen case states, the
  table of allowed transitions, the persisted case with its transition history,
  \<open>createCase\<close> and \<open>transitionCase\<close> with every error they throw.
\<close>

datatype case_state =
    Draft | Ingesting | Inspecting | Hypothesizing | Experimenting | Verifying
  | Minimizing | Packaging | Verified | Unstable | NotReproduced | Blocked | Cancelled

definition active_case_states :: "case_state list" where
  "active_case_states =
     [Draft, Ingesting, Inspecting, Hypothesizing, Experimenting, Verifying, Minimizing, Packaging]"

definition terminal_case_states :: "case_state list" where
  "terminal_case_states = [Verified, Unstable, NotReproduced, Blocked, Cancelled]"

definition case_states :: "case_state list" where
  "case_states =
     [Draft, Ingesting, Inspecting, Hypothesizing, Experimenting, Verifying, Minimizing, Packaging,
      Verified, Unstable, NotReproduced, Blocked, Cancelled]"

record transition_entry =
  entry_at :: int
  entry_from :: case_state
  entry_reason :: string
  entry_to :: case_state

record repro_case =
  case_created_at :: int
  case_history :: "transition_entry list"
  case_id :: string
  case_st :: case_state
  case_updated_at :: int

definition transition_entry_ok :: "transition_entry \<Rightarrow> bool" where
  "transition_entry_ok e \<longleftrightarrow> valid_instant (entry_at e) \<and> entry_reason e \<noteq> []"

definition repro_case_ok :: "repro_case \<Rightarrow> bool" where
  "repro_case_ok c \<longleftrightarrow>
     valid_instant (case_created_at c) \<and> list_all transition_entry_ok (case_history c) \<and>
     case_id c \<noteq> [] \<and> valid_instant (case_updated_at c)"

fun allowed_case_transitions :: "case_state \<Rightarrow> case_state list" where
  "allowed_case_transitions Draft = [Ingesting, Cancelled]"
| "allowed_case_transitions Ingesting = [Inspecting, Blocked, Cancelled]"
| "allowed_case_transitions Inspecting = [Hypothesizing, Blocked, Cancelled]"
| "allowed_case_transitions Hypothesizing = [Experimenting, Blocked, Cancelled]"
| "allowed_case_transitions Experimenting = [Verifying, Blocked, Cancelled]"
| "allowed_case_transitions Verifying =
     [Minimizing, Unstable, NotReproduced, Blocked, Cancelled]"
| "allowed_case_transitions Minimizing = [Packaging, Blocked, Cancelled]"
| "allowed_case_transitions Packaging = [Verified, Blocked, Cancelled]"
| "allowed_case_transitions Verified = []"
| "allowed_case_transitions Unstable = []"
| "allowed_case_transitions NotReproduced = []"
| "allowed_case_transitions Blocked = []"
| "allowed_case_transitions Cancelled = []"

datatype case_error =
    InvalidCaseTransition case_state case_state
  | CaseDateRange
  | CaseSchema

definition create_case :: "string \<Rightarrow> int \<Rightarrow> case_error + repro_case" where
  "create_case cid instant =
     and_then (to_iso CaseDateRange instant) (\<lambda>timestamp.
       parse_as repro_case_ok CaseSchema
         \<lparr>case_created_at = timestamp, case_history = [], case_id = cid, case_st = Draft,
          case_updated_at = timestamp\<rparr>)"

definition can_transition :: "case_state \<Rightarrow> case_state \<Rightarrow> bool" where
  "can_transition from_st to_st \<longleftrightarrow> List.member (allowed_case_transitions from_st) to_st"

definition transition_case ::
  "repro_case \<Rightarrow> case_state \<Rightarrow> string \<Rightarrow> int \<Rightarrow> case_error + repro_case" where
  "transition_case current to_st reason instant =
     (if \<not> can_transition (case_st current) to_st
      then Inl (InvalidCaseTransition (case_st current) to_st)
      else and_then (to_iso CaseDateRange instant) (\<lambda>timestamp.
        parse_as repro_case_ok CaseSchema
          (current\<lparr>
            case_history := case_history current @
              [\<lparr>entry_at = timestamp, entry_from = case_st current, entry_reason = reason,
                entry_to = to_st\<rparr>],
            case_st := to_st,
            case_updated_at := timestamp\<rparr>)))"

section \<open>The transition table makes progress\<close>

fun case_rank :: "case_state \<Rightarrow> nat" where
  "case_rank Draft = 8"
| "case_rank Ingesting = 7"
| "case_rank Inspecting = 6"
| "case_rank Hypothesizing = 5"
| "case_rank Experimenting = 4"
| "case_rank Verifying = 3"
| "case_rank Minimizing = 2"
| "case_rank Packaging = 1"
| "case_rank _ = 0"

interpretation case_table: transition_table allowed_case_transitions case_rank
proof
  fix s t
  assume "t \<in> set (allowed_case_transitions s)"
  then show "case_rank t < case_rank s" by (cases s) auto
qed

lemma can_transition_iff [simp]:
  "can_transition s t \<longleftrightarrow> t \<in> set (allowed_case_transitions s)"
  by (simp add: can_transition_def)

lemma terminal_iff_no_transition:
  "s \<in> set terminal_case_states \<longleftrightarrow> allowed_case_transitions s = []"
  by (cases s) (simp_all add: terminal_case_states_def)

section \<open>Cases that the operations produce\<close>

inductive reachable_case :: "repro_case \<Rightarrow> bool" where
  created: "create_case cid instant = Inr c \<Longrightarrow> reachable_case c"
| moved: "reachable_case c \<Longrightarrow> transition_case c to_st reason instant = Inr c' \<Longrightarrow> reachable_case c'"

definition case_route :: "repro_case \<Rightarrow> case_state list" where
  "case_route c = map entry_to (case_history c)"

definition history_consistent :: "repro_case \<Rightarrow> bool" where
  "history_consistent c \<longleftrightarrow>
     legal_path allowed_case_transitions Draft (case_route c) \<and>
     case_st c = last (Draft # case_route c) \<and>
     map entry_from (case_history c) = butlast (Draft # case_route c) \<and>
     case_updated_at c = last (case_created_at c # map entry_at (case_history c))"

lemma create_case_Inr:
  "create_case cid instant = Inr c \<longleftrightarrow>
     cid \<noteq> [] \<and> valid_instant instant \<and>
     c = \<lparr>case_created_at = instant, case_history = [], case_id = cid, case_st = Draft,
          case_updated_at = instant\<rparr>"
  using valid_instant_date_range
  by (auto simp: create_case_def and_then_Inr_iff repro_case_ok_def)

lemma create_case_consistent: "create_case cid instant = Inr c \<Longrightarrow> history_consistent c"
  by (auto simp: create_case_Inr history_consistent_def case_route_def)

lemma transition_case_Inr:
  "transition_case c to_st reason instant = Inr c' \<Longrightarrow>
     to_st \<in> set (allowed_case_transitions (case_st c)) \<and> repro_case_ok c' \<and>
     c' = c\<lparr>case_history := case_history c @
              [\<lparr>entry_at = instant, entry_from = case_st c, entry_reason = reason, entry_to = to_st\<rparr>],
            case_st := to_st, case_updated_at := instant\<rparr>"
  by (auto simp: transition_case_def and_then_Inr_iff split: if_splits)

lemma transition_case_consistent:
  assumes "transition_case c to_st reason instant = Inr c'" and "history_consistent c"
  shows "history_consistent c'"
proof -
  from transition_case_Inr [OF assms(1)]
  have allowed: "to_st \<in> set (allowed_case_transitions (case_st c))"
    and c': "c' = c\<lparr>case_history := case_history c @
      [\<lparr>entry_at = instant, entry_from = case_st c, entry_reason = reason, entry_to = to_st\<rparr>],
      case_st := to_st, case_updated_at := instant\<rparr>" by auto
  have route: "case_route c' = case_route c @ [to_st]" by (simp add: c' case_route_def)
  show ?thesis
    using assms(2) allowed
    unfolding history_consistent_def route legal_path_snoc
    by (simp add: c' butlast_append butlast_snoc append_butlast_last_id)
qed

lemma reachable_case_consistent: "reachable_case c \<Longrightarrow> history_consistent c"
  by (induction rule: reachable_case.induct)
     (auto intro: create_case_consistent transition_case_consistent)

lemma reachable_case_ok: "reachable_case c \<Longrightarrow> repro_case_ok c"
  by (induction rule: reachable_case.induct)
     (auto simp: create_case_Inr repro_case_ok_def dest: transition_case_Inr)

section \<open>The route to a verified case\<close>

fun verified_route :: "case_state \<Rightarrow> case_state list option" where
  "verified_route Draft =
     Some [Ingesting, Inspecting, Hypothesizing, Experimenting, Verifying, Minimizing, Packaging,
       Verified]"
| "verified_route Ingesting =
     Some [Inspecting, Hypothesizing, Experimenting, Verifying, Minimizing, Packaging, Verified]"
| "verified_route Inspecting =
     Some [Hypothesizing, Experimenting, Verifying, Minimizing, Packaging, Verified]"
| "verified_route Hypothesizing =
     Some [Experimenting, Verifying, Minimizing, Packaging, Verified]"
| "verified_route Experimenting = Some [Verifying, Minimizing, Packaging, Verified]"
| "verified_route Verifying = Some [Minimizing, Packaging, Verified]"
| "verified_route Minimizing = Some [Packaging, Verified]"
| "verified_route Packaging = Some [Verified]"
| "verified_route Verified = Some []"
| "verified_route _ = None"

lemma path_to_verified:
  "legal_path allowed_case_transitions s ts \<Longrightarrow> last (s # ts) = Verified \<Longrightarrow>
     verified_route s = Some ts"
proof (induction ts arbitrary: s)
  case Nil
  then show ?case by simp
next
  case (Cons t ts)
  then have "verified_route t = Some ts" and "t \<in> set (allowed_case_transitions s)"
    by auto
  then show ?case by (cases s) auto
qed

text \<open>
  C30. The only way to the state VERIFIED is the full pipeline: a case that
  \<open>createCase\<close> and \<open>transitionCase\<close> produced and whose state is VERIFIED
  has passed, in this order and nothing else, INGESTING, INSPECTING, HYPOTHESIZING,
  EXPERIMENTING, VERIFYING, MINIMIZING, PACKAGING and VERIFIED, and the \<open>from\<close>
  fields of its history are the states before.
\<close>

theorem verified_case_took_full_pipeline:
  assumes "reachable_case c" and "case_st c = Verified"
  shows "case_route c =
      [Ingesting, Inspecting, Hypothesizing, Experimenting, Verifying, Minimizing, Packaging,
       Verified] \<and>
    map entry_from (case_history c) =
      [Draft, Ingesting, Inspecting, Hypothesizing, Experimenting, Verifying, Minimizing,
       Packaging]"
proof -
  have h: "history_consistent c" using assms(1) by (rule reachable_case_consistent)
  then have "verified_route Draft = Some (case_route c)"
    using assms(2) by (intro path_to_verified) (auto simp: history_consistent_def)
  then have route: "case_route c =
      [Ingesting, Inspecting, Hypothesizing, Experimenting, Verifying, Minimizing, Packaging,
       Verified]" by simp
  have "map entry_from (case_history c) = butlast (Draft # case_route c)"
    using h by (simp add: history_consistent_def)
  with route show ?thesis by simp
qed

fun run_case :: "repro_case \<Rightarrow> (case_state \<times> string \<times> int) list \<Rightarrow> case_error + repro_case" where
  "run_case c [] = Inr c"
| "run_case c ((s, reason, instant) # moves) =
     and_then (transition_case c s reason instant) (\<lambda>c'. run_case c' moves)"

lemma run_case_reachable: "reachable_case c \<Longrightarrow> run_case c moves = Inr c' \<Longrightarrow> reachable_case c'"
  by (induction c moves rule: run_case.induct)
     (auto simp: and_then_Inr_iff intro: reachable_case.moved)

definition sample_verified_case :: repro_case where
  "sample_verified_case =
     \<lparr>case_created_at = 0,
      case_history = map (\<lambda>(f, t, n). \<lparr>entry_at = n, entry_from = f, entry_reason = ''ok'',
          entry_to = t\<rparr>)
        [(Draft, Ingesting, 1), (Ingesting, Inspecting, 2), (Inspecting, Hypothesizing, 3),
         (Hypothesizing, Experimenting, 4), (Experimenting, Verifying, 5),
         (Verifying, Minimizing, 6), (Minimizing, Packaging, 7), (Packaging, Verified, 8)],
      case_id = ''c'', case_st = Verified, case_updated_at = 8\<rparr>"

lemma sample_verified_case_reachable: "reachable_case sample_verified_case"
proof -
  have c: "create_case ''c'' 0 = Inr \<lparr>case_created_at = 0, case_history = [], case_id = ''c'',
      case_st = Draft, case_updated_at = 0\<rparr>" (is "_ = Inr ?c")
    by (simp add: create_case_Inr valid_instant_def)
  have "run_case ?c (map (\<lambda>(s, n). (s, ''ok'', n))
      [(Ingesting, 1), (Inspecting, 2), (Hypothesizing, 3), (Experimenting, 4), (Verifying, 5),
       (Minimizing, 6), (Packaging, 7), (Verified, 8)]) = Inr sample_verified_case"
    by (simp add: transition_case_def parse_as_def repro_case_ok_def transition_entry_ok_def
        date_range_def valid_instant_def sample_verified_case_def)
  with reachable_case.created [OF c] show ?thesis by (rule run_case_reachable)
qed

theorem verified_case_took_full_pipeline_witness:
  "case_route sample_verified_case =
     [Ingesting, Inspecting, Hypothesizing, Experimenting, Verifying, Minimizing, Packaging,
      Verified]"
  using verified_case_took_full_pipeline [OF sample_verified_case_reachable]
  by (simp add: sample_verified_case_def)

text \<open>
  A case never leaves a terminal state, never repeats a state and takes at
  most eight transitions; \<open>transitionCase\<close> refuses exactly the moves that
  the table does not list with \<open>InvalidCaseTransitionError\<close>, whatever the
  reason and the time.
\<close>

theorem case_runs_are_bounded_and_final:
  assumes "reachable_case c"
  shows "length (case_history c) \<le> 8 \<and> distinct (Draft # case_route c) \<and>
    (\<forall>to_st reason instant.
      transition_case c to_st reason instant = Inl (InvalidCaseTransition (case_st c) to_st) \<longleftrightarrow>
        to_st \<notin> set (allowed_case_transitions (case_st c))) \<and>
    (case_st c \<in> set terminal_case_states \<longleftrightarrow>
      (\<forall>to_st reason instant. \<exists>e. transition_case c to_st reason instant = Inl e \<and>
        e = InvalidCaseTransition (case_st c) to_st))"
proof -
  have path: "legal_path allowed_case_transitions Draft (case_route c)"
    using reachable_case_consistent [OF assms] by (simp add: history_consistent_def)
  have refused: "transition_case c to_st reason instant = Inl (InvalidCaseTransition (case_st c) to_st)
      \<longleftrightarrow> to_st \<notin> set (allowed_case_transitions (case_st c))" for to_st reason instant
    by (auto simp: transition_case_def and_then_Inl_iff to_iso_def)
  have terminal: "case_st c \<in> set terminal_case_states \<longleftrightarrow>
      (\<forall>to_st. to_st \<notin> set (allowed_case_transitions (case_st c)))"
    unfolding terminal_iff_no_transition by (metis list.set_intros(1) neq_Nil_conv set_empty empty_iff)
  show ?thesis
    using case_table.path_bounded [OF path] case_table.path_distinct [OF path] refused terminal
    by (simp add: case_route_def)
qed

theorem case_runs_are_bounded_and_final_witness:
  "length (case_history sample_verified_case) \<le> 8 \<and>
   transition_case sample_verified_case Draft ''again'' 9 =
     Inl (InvalidCaseTransition Verified Draft)"
  using case_runs_are_bounded_and_final [OF sample_verified_case_reachable]
  by (simp add: sample_verified_case_def)

end
