(* ===== verification/JobLifecycle.thy ===== *)
theory JobLifecycle
  imports CaseLifecycle
begin

text \<open>
  The job state machine of src/src/domain/job.ts: states, the failure record, the
  schema that ties attempts and failures to the state, \<open>createJob\<close> and
  \<open>transitionJob\<close>, and the progress view of src/src/application/progress.ts.
\<close>

datatype job_state = Queued | Running | Succeeded | Failed | JobCancelled

definition job_terminal_states :: "job_state list" where
  "job_terminal_states = [Succeeded, Failed, JobCancelled]"

record job_failure =
  failure_code :: string
  failure_message :: string
  failure_retryable :: bool

definition job_failure_ok :: "job_failure \<Rightarrow> bool" where
  "job_failure_ok f \<longleftrightarrow> failure_code f \<noteq> [] \<and> failure_message f \<noteq> []"

record reproduction_job =
  job_attempt :: int
  job_case_id :: string
  job_created_at :: int
  job_failure :: "job_failure option"
  job_id :: string
  job_phase :: case_state
  job_st :: job_state
  job_updated_at :: int

definition reproduction_job_ok :: "reproduction_job \<Rightarrow> bool" where
  "reproduction_job_ok j \<longleftrightarrow>
     0 \<le> job_attempt j \<and> job_attempt j \<le> 100 \<and> job_case_id j \<noteq> [] \<and>
     valid_instant (job_created_at j) \<and> pred_option job_failure_ok (job_failure j) \<and>
     job_id j \<noteq> [] \<and> valid_instant (job_updated_at j) \<and>
     \<not> (job_st j \<noteq> Queued \<and> job_st j \<noteq> JobCancelled \<and> job_attempt j < 1) \<and>
     \<not> (job_st j = Failed \<and> job_failure j = None) \<and>
     \<not> (job_st j \<noteq> Failed \<and> job_failure j \<noteq> None)"

fun allowed_job_transitions :: "job_state \<Rightarrow> job_state list" where
  "allowed_job_transitions Queued = [Running, JobCancelled]"
| "allowed_job_transitions Running = [Succeeded, Failed, JobCancelled]"
| "allowed_job_transitions Succeeded = []"
| "allowed_job_transitions Failed = []"
| "allowed_job_transitions JobCancelled = []"

datatype job_error =
    InvalidJobTransition job_state job_state
  | JobDateRange
  | JobSchema

definition create_job :: "string \<Rightarrow> string \<Rightarrow> int \<Rightarrow> job_error + reproduction_job" where
  "create_job jid cid instant =
     and_then (to_iso JobDateRange instant) (\<lambda>timestamp.
       parse_as reproduction_job_ok JobSchema
         \<lparr>job_attempt = 0, job_case_id = cid, job_created_at = timestamp, job_failure = None,
          job_id = jid, job_phase = Draft, job_st = Queued, job_updated_at = timestamp\<rparr>)"

definition can_transition_job :: "job_state \<Rightarrow> job_state \<Rightarrow> bool" where
  "can_transition_job from_st to_st \<longleftrightarrow> List.member (allowed_job_transitions from_st) to_st"

definition transition_job ::
  "reproduction_job \<Rightarrow> job_state \<Rightarrow> int \<Rightarrow> job_failure option \<Rightarrow> case_state
     \<Rightarrow> job_error + reproduction_job" where
  "transition_job current to_st instant failure phase =
     (if \<not> can_transition_job (job_st current) to_st
      then Inl (InvalidJobTransition (job_st current) to_st)
      else and_then (to_iso JobDateRange instant) (\<lambda>timestamp.
        parse_as reproduction_job_ok JobSchema
          (current\<lparr>
            job_attempt := (if job_st current = Queued \<and> to_st = Running
              then job_attempt current + 1 else job_attempt current),
            job_failure := failure,
            job_phase := phase,
            job_st := to_st,
            job_updated_at := timestamp\<rparr>)))"

fun job_rank :: "job_state \<Rightarrow> nat" where
  "job_rank Queued = 2"
| "job_rank Running = 1"
| "job_rank _ = 0"

interpretation job_table: transition_table allowed_job_transitions job_rank
proof
  fix s t
  assume "t \<in> set (allowed_job_transitions s)"
  then show "job_rank t < job_rank s" by (cases s) auto
qed

lemma can_transition_job_iff [simp]:
  "can_transition_job s t \<longleftrightarrow> t \<in> set (allowed_job_transitions s)"
  by (simp add: can_transition_job_def)

lemma transition_job_Inr:
  "transition_job j to_st instant failure phase = Inr j' \<longleftrightarrow>
     to_st \<in> set (allowed_job_transitions (job_st j)) \<and> date_range instant \<and>
     reproduction_job_ok j' \<and>
     j' = j\<lparr>job_attempt := (if job_st j = Queued \<and> to_st = Running
              then job_attempt j + 1 else job_attempt j),
            job_failure := failure, job_phase := phase, job_st := to_st,
            job_updated_at := instant\<rparr>"
  by (auto simp: transition_job_def and_then_Inr_iff)

inductive reachable_job :: "reproduction_job \<Rightarrow> bool" where
  created: "create_job jid cid instant = Inr j \<Longrightarrow> reachable_job j"
| moved: "reachable_job j \<Longrightarrow> transition_job j to_st instant failure phase = Inr j'
     \<Longrightarrow> reachable_job j'"

definition job_invariant :: "reproduction_job \<Rightarrow> bool" where
  "job_invariant j \<longleftrightarrow>
     reproduction_job_ok j \<and>
     (job_st j = Queued \<longrightarrow> job_attempt j = 0) \<and>
     (job_st j \<in> {Running, Succeeded, Failed} \<longrightarrow> job_attempt j = 1) \<and>
     job_attempt j \<le> 1 \<and> (job_failure j \<noteq> None \<longleftrightarrow> job_st j = Failed)"

lemma create_job_invariant: "create_job jid cid instant = Inr j \<Longrightarrow> job_invariant j"
  by (auto simp: create_job_def and_then_Inr_iff job_invariant_def)

lemma transition_job_invariant:
  assumes "transition_job j to_st instant failure phase = Inr j'" and "job_invariant j"
  shows "job_invariant j'"
  using assms unfolding transition_job_Inr
  by (cases "job_st j") (auto simp: job_invariant_def reproduction_job_ok_def)

text \<open>
  C36. Every job that \<open>createJob\<close> and \<open>transitionJob\<close> produce carries failure
  details exactly in the state FAILED, has attempt 0 while queued and attempt 1
  once running, succeeded or failed, and never more than one attempt: the domain
  machine has no way back to the queue.
\<close>

theorem reachable_job_invariant: "reachable_job j \<Longrightarrow> job_invariant j"
  by (induction rule: reachable_job.induct)
     (auto intro: create_job_invariant transition_job_invariant)

definition sample_failed_job :: reproduction_job where
  "sample_failed_job =
     \<lparr>job_attempt = 1, job_case_id = ''c'', job_created_at = 0,
      job_failure = Some \<lparr>failure_code = ''E'', failure_message = ''m'',
        failure_retryable = True\<rparr>,
      job_id = ''j'', job_phase = Draft, job_st = Failed, job_updated_at = 2\<rparr>"

theorem reachable_job_invariant_witness: "job_invariant sample_failed_job"
proof (rule reachable_job_invariant)
  let ?q = "\<lparr>job_attempt = 0, job_case_id = ''c'', job_created_at = 0, job_failure = None,
    job_id = ''j'', job_phase = Draft, job_st = Queued, job_updated_at = 0\<rparr>"
  let ?r = "?q\<lparr>job_attempt := 1, job_phase := Ingesting, job_st := Running, job_updated_at := 1\<rparr>"
  have "create_job ''j'' ''c'' 0 = Inr ?q"
    by (simp add: create_job_def reproduction_job_ok_def valid_instant_def date_range_def)
  then have "reachable_job ?q" by (rule reachable_job.created)
  moreover have "transition_job ?q Running 1 None Ingesting = Inr ?r"
    by (simp add: transition_job_Inr reproduction_job_ok_def valid_instant_def date_range_def)
  ultimately have "reachable_job ?r" by (rule reachable_job.moved)
  moreover have "transition_job ?r Failed 2 (job_failure sample_failed_job) Draft =
      Inr sample_failed_job"
    by (simp add: transition_job_Inr reproduction_job_ok_def valid_instant_def date_range_def
        sample_failed_job_def job_failure_ok_def)
  ultimately show "reachable_job sample_failed_job" by (rule reachable_job.moved)
qed

text \<open>
  \<open>transitionJob\<close> on a schema-valid running job, at a valid time: it reaches
  FAILED exactly when a well-formed failure is given, SUCCEEDED and CANCELLED
  exactly when none is given, and never QUEUED or RUNNING; the attempt counter
  stays.
\<close>

theorem running_job_outcomes:
  assumes "reproduction_job_ok j" and "job_st j = Running" and "valid_instant instant"
  shows "(\<exists>j'. transition_job j to_st instant failure phase = Inr j' \<and>
        job_attempt j' = job_attempt j \<and> job_st j' = to_st \<and> job_failure j' = failure) \<longleftrightarrow>
      (to_st = Failed \<and> (\<exists>f. failure = Some f \<and> job_failure_ok f)) \<or>
      (to_st \<in> {Succeeded, JobCancelled} \<and> failure = None)"
proof -
  note ok = assms(1)[unfolded reproduction_job_ok_def] and vi = assms(3)
  show ?thesis
    using ok vi assms(2) valid_instant_date_range [OF vi]
    by (cases to_st; cases failure)
       (auto simp: transition_job_Inr reproduction_job_ok_def)
qed

theorem running_job_outcomes_witness:
  "\<exists>j'. transition_job
      \<lparr>job_attempt = 1, job_case_id = ''c'', job_created_at = 0, job_failure = None, job_id = ''j'',
       job_phase = Ingesting, job_st = Running, job_updated_at = 0\<rparr>
      Succeeded 5 None Verified = Inr j' \<and> job_attempt j' = 1 \<and> job_st j' = Succeeded"
  using running_job_outcomes [of "\<lparr>job_attempt = 1, job_case_id = ''c'', job_created_at = 0,
      job_failure = None, job_id = ''j'', job_phase = Ingesting, job_st = Running,
      job_updated_at = 0\<rparr>" 5 Succeeded None Verified]
  by (auto simp: reproduction_job_ok_def valid_instant_def)

section \<open>The progress view\<close>

record progress_view =
  view_attempt :: int
  view_cancellable :: bool
  view_failure :: "job_failure option"
  view_phase :: case_state
  view_state :: job_state
  view_terminal :: bool
  view_updated_at :: int

definition progress_view_ok :: "progress_view \<Rightarrow> bool" where
  "progress_view_ok v \<longleftrightarrow>
     0 \<le> view_attempt v \<and> safe_int (view_attempt v) \<and> pred_option job_failure_ok (view_failure v) \<and>
     valid_instant (view_updated_at v)"

definition to_reproduction_progress :: "reproduction_job \<Rightarrow> unit + progress_view" where
  "to_reproduction_progress job =
     parse_as progress_view_ok ()
       \<lparr>view_attempt = job_attempt job,
        view_cancellable = (job_st job = Queued \<or> job_st job = Running),
        view_failure = job_failure job,
        view_phase = job_phase job,
        view_state = job_st job,
        view_terminal = List.member job_terminal_states (job_st job),
        view_updated_at = job_updated_at job\<rparr>"

text \<open>
  The progress view exists for every schema-valid job, and it offers
  cancellation exactly when the state machine still allows the job to be cancelled
  and exactly when the job is not terminal.
\<close>

theorem progress_cancellable_iff_can_cancel:
  assumes "reproduction_job_ok j"
  shows "\<exists>v. to_reproduction_progress j = Inr v \<and>
    (view_cancellable v \<longleftrightarrow> can_transition_job (job_st j) JobCancelled) \<and>
    (view_terminal v \<longleftrightarrow> \<not> view_cancellable v) \<and>
    (view_terminal v \<longleftrightarrow> allowed_job_transitions (job_st j) = [])"
  using assms
  by (cases "job_st j")
     (auto simp: to_reproduction_progress_def progress_view_ok_def reproduction_job_ok_def
       job_terminal_states_def safe_int_def max_safe_integer_def)

theorem progress_cancellable_iff_can_cancel_witness:
  "\<exists>v. to_reproduction_progress sample_failed_job = Inr v \<and> view_terminal v"
  using progress_cancellable_iff_can_cancel [of sample_failed_job]
  by (auto simp: sample_failed_job_def reproduction_job_ok_def job_failure_ok_def
      valid_instant_def)

end
