(* ===== verification/Json.thy ===== *)
theory Json
  imports Prelude
begin

text \<open>
  JSON text as the program uses it: \<open>JSON.stringify\<close> (compact),
  \<open>JSON.parse\<close>, the order of own properties of a JavaScript object, and the
  canonical form of src/src/domain/bundle.ts (\<open>normalizeJson\<close>,
  \<open>canonicalJson\<close>, \<open>hashCanonical\<close>).

  A number is represented by the text that \<open>JSON.stringify\<close> gives it; the
  rounding of a numeral in a JSON text to that canonical text is the host's
  \<open>num_canon\<close>. Escapes of code units above 255 lie outside the string model.
\<close>

datatype json =
    JNull
  | JBool bool
  | JNum string
  | JStr string
  | JArr "json list"
  | JObj "(string \<times> json) list"

section \<open>Texts\<close>

definition hex_digit :: "nat \<Rightarrow> char" where
  "hex_digit n = (if n < 10 then char_of (48 + n) else char_of (87 + n))"

definition quote_char :: "char \<Rightarrow> string" where
  "quote_char c =
     (if c = CHR 0x22 then [CHR 0x5C, CHR 0x22]
      else if c = CHR 0x5C then [CHR 0x5C, CHR 0x5C]
      else if code_unit c = 8 then [CHR 0x5C, CHR ''b'']
      else if code_unit c = 9 then [CHR 0x5C, CHR ''t'']
      else if code_unit c = 10 then [CHR 0x5C, CHR ''n'']
      else if code_unit c = 12 then [CHR 0x5C, CHR ''f'']
      else if code_unit c = 13 then [CHR 0x5C, CHR ''r'']
      else if code_unit c < 32
      then [CHR 0x5C, CHR ''u'', CHR ''0'', CHR ''0'', hex_digit (code_unit c div 16),
            hex_digit (code_unit c mod 16)]
      else [c])"

definition json_quote :: "string \<Rightarrow> string" where
  "json_quote s = CHR 0x22 # concat (map quote_char s) @ [CHR 0x22]"

fun json_text :: "json \<Rightarrow> string"
  and element_texts :: "json list \<Rightarrow> string list"
  and member_texts :: "(string \<times> json) list \<Rightarrow> string list" where
  "json_text JNull = ''null''"
| "json_text (JBool b) = (if b then ''true'' else ''false'')"
| "json_text (JNum t) = t"
| "json_text (JStr s) = json_quote s"
| "json_text (JArr vs) = ''['' @ join '','' (element_texts vs) @ '']''"
| "json_text (JObj kvs) = CHR 0x7B # join '','' (member_texts kvs) @ [CHR 0x7D]"
| "element_texts [] = []"
| "element_texts (v # vs) = json_text v # element_texts vs"
| "member_texts [] = []"
| "member_texts ((k, v) # kvs) = (json_quote k @ '':'' @ json_text v) # member_texts kvs"

section \<open>Own properties of an object\<close>

text \<open>
  Array indices come first in ascending order, then the other keys in the order of
  their first insertion; a repeated key keeps its place and takes the last value.
\<close>

fun digits_value :: "nat \<Rightarrow> string \<Rightarrow> nat" where
  "digits_value acc [] = acc"
| "digits_value acc (c # cs) = digits_value (10 * acc + (code_unit c - 48)) cs"

definition array_index :: "string \<Rightarrow> bool" where
  "array_index k \<longleftrightarrow>
     k \<noteq> [] \<and> list_all digit_char k \<and> (length k = 1 \<or> hd k \<noteq> CHR ''0'') \<and>
     digits_value 0 k < 4294967295"

fun put_property :: "string \<Rightarrow> 'v \<Rightarrow> (string \<times> 'v) list \<Rightarrow> (string \<times> 'v) list" where
  "put_property k v [] = [(k, v)]"
| "put_property k v ((k', v') # kvs) =
     (if k = k' then (k, v) # kvs else (k', v') # put_property k v kvs)"

definition index_before :: "string \<times> 'v \<Rightarrow> string \<times> 'v \<Rightarrow> bool" where
  "index_before a b \<longleftrightarrow> digits_value 0 (fst a) \<le> digits_value 0 (fst b)"

definition property_order :: "(string \<times> 'v) list \<Rightarrow> (string \<times> 'v) list" where
  "property_order kvs =
     sort_by index_before (filter (\<lambda>kv. array_index (fst kv)) kvs) @
     filter (\<lambda>kv. \<not> array_index (fst kv)) kvs"

definition own_properties :: "(string \<times> 'v) list \<Rightarrow> (string \<times> 'v) list" where
  "own_properties kvs = property_order (fold (\<lambda>(k, v). put_property k v) kvs [])"

section \<open>Parsing\<close>

definition json_space :: "char \<Rightarrow> bool" where
  "json_space c \<longleftrightarrow> code_unit c \<in> {9, 10, 13, 32}"

definition skip_ws :: "string \<Rightarrow> string" where
  "skip_ws s = dropWhile json_space s"

definition hex_value :: "char \<Rightarrow> nat option" where
  "hex_value c =
     (if digit_char c then Some (code_unit c - 48)
      else if 97 \<le> code_unit c \<and> code_unit c \<le> 102 then Some (code_unit c - 87)
      else if 65 \<le> code_unit c \<and> code_unit c \<le> 70 then Some (code_unit c - 55)
      else None)"

definition unescape :: "char \<Rightarrow> char option" where
  "unescape c =
     (if c = CHR 0x22 \<or> c = CHR 0x5C \<or> c = CHR ''/'' then Some c
      else if c = CHR ''b'' then Some (char_of (8 :: nat))
      else if c = CHR ''f'' then Some (char_of (12 :: nat))
      else if c = CHR ''n'' then Some (char_of (10 :: nat))
      else if c = CHR ''r'' then Some (char_of (13 :: nat))
      else if c = CHR ''t'' then Some (char_of (9 :: nat))
      else None)"

definition unicode_escape :: "char \<Rightarrow> char \<Rightarrow> char \<Rightarrow> char \<Rightarrow> char option" where
  "unicode_escape a b c d =
     (case (hex_value a, hex_value b, hex_value c, hex_value d) of
        (Some w, Some x, Some y, Some z) \<Rightarrow>
          (if w = 0 \<and> x = 0 then Some (char_of (16 * y + z)) else None)
      | _ \<Rightarrow> None)"

fun parse_chars :: "string \<Rightarrow> (string \<times> string) option" where
  "parse_chars [] = None"
| "parse_chars (c # cs) =
     (if c = CHR 0x22 then Some ([], cs)
      else if c = CHR 0x5C then
        (case cs of
           [] \<Rightarrow> None
         | e # es \<Rightarrow>
             (if e = CHR ''u'' then
                (case es of
                   w # x # y # z # rest \<Rightarrow>
                     (case unicode_escape w x y z of
                        None \<Rightarrow> None
                      | Some u \<Rightarrow> map_option (\<lambda>(s, r). (u # s, r)) (parse_chars rest))
                 | _ \<Rightarrow> None)
              else
                (case unescape e of
                   None \<Rightarrow> None
                 | Some u \<Rightarrow> map_option (\<lambda>(s, r). (u # s, r)) (parse_chars es))))
      else if code_unit c < 32 then None
      else map_option (\<lambda>(s, r). (c # s, r)) (parse_chars cs))"

definition num_char :: "char \<Rightarrow> bool" where
  "num_char c \<longleftrightarrow> digit_char c \<or> c \<in> set ''+-.eE''"

definition json_exponent :: "string \<Rightarrow> bool" where
  "json_exponent s =
     (case s of
        [] \<Rightarrow> True
      | c # cs \<Rightarrow> c \<in> set ''eE'' \<and>
          (let ds = (case cs of d # ds \<Rightarrow> if d \<in> set ''+-'' then ds else cs | [] \<Rightarrow> [])
           in ds \<noteq> [] \<and> list_all digit_char ds))"

definition json_fraction :: "string \<Rightarrow> bool" where
  "json_fraction s =
     (case s of
        [] \<Rightarrow> True
      | c # cs \<Rightarrow>
          (if c = CHR ''.''
           then takeWhile digit_char cs \<noteq> [] \<and> json_exponent (dropWhile digit_char cs)
           else json_exponent s))"

definition json_number :: "string \<Rightarrow> bool" where
  "json_number s =
     (let t = (case s of c # cs \<Rightarrow> if c = CHR ''-'' then cs else s | [] \<Rightarrow> []);
          ds = takeWhile digit_char t
      in ds \<noteq> [] \<and> (length ds = 1 \<or> hd ds \<noteq> CHR ''0'') \<and>
         json_fraction (dropWhile digit_char t))"

fun parse_value :: "js_host \<Rightarrow> nat \<Rightarrow> string \<Rightarrow> (json \<times> string) option"
  and parse_elements :: "js_host \<Rightarrow> nat \<Rightarrow> string \<Rightarrow> (json list \<times> string) option"
  and parse_members :: "js_host \<Rightarrow> nat \<Rightarrow> string \<Rightarrow> ((string \<times> json) list \<times> string) option"
where
  "parse_value h 0 s = None"
| "parse_value h (Suc n) s =
     (case skip_ws s of
        [] \<Rightarrow> None
      | c # cs \<Rightarrow>
          (if c = CHR 0x22 then map_option (\<lambda>(t, r). (JStr t, r)) (parse_chars cs)
           else if c = CHR ''['' then
             (case skip_ws cs of
                [] \<Rightarrow> None
              | d # ds \<Rightarrow>
                  (if d = CHR '']'' then Some (JArr [], ds)
                   else map_option (\<lambda>(vs, r). (JArr vs, r)) (parse_elements h n cs)))
           else if c = CHR 0x7B then
             (case skip_ws cs of
                [] \<Rightarrow> None
              | d # ds \<Rightarrow>
                  (if d = CHR 0x7D then Some (JObj [], ds)
                   else map_option (\<lambda>(kvs, r). (JObj (own_properties kvs), r))
                     (parse_members h n cs)))
           else if starts_with ''null'' (c # cs) then Some (JNull, drop 3 cs)
           else if starts_with ''true'' (c # cs) then Some (JBool True, drop 3 cs)
           else if starts_with ''false'' (c # cs) then Some (JBool False, drop 4 cs)
           else if json_number (takeWhile num_char (c # cs))
           then Some (JNum (num_canon h (takeWhile num_char (c # cs))), dropWhile num_char (c # cs))
           else None))"
| "parse_elements h 0 s = None"
| "parse_elements h (Suc n) s =
     (case parse_value h n s of
        None \<Rightarrow> None
      | Some (v, r) \<Rightarrow>
          (case skip_ws r of
             [] \<Rightarrow> None
           | c # cs \<Rightarrow>
               (if c = CHR '','' then map_option (\<lambda>(vs, r'). (v # vs, r')) (parse_elements h n cs)
                else if c = CHR '']'' then Some ([v], cs)
                else None)))"
| "parse_members h 0 s = None"
| "parse_members h (Suc n) s =
     (case skip_ws s of
        [] \<Rightarrow> None
      | q # qs \<Rightarrow>
          (if q \<noteq> CHR 0x22 then None
           else
             (case parse_chars qs of
                None \<Rightarrow> None
              | Some (k, r) \<Rightarrow>
                  (case skip_ws r of
                     [] \<Rightarrow> None
                   | d # ds \<Rightarrow>
                       (if d \<noteq> CHR '':'' then None
                        else
                          (case parse_value h n ds of
                             None \<Rightarrow> None
                           | Some (v, r') \<Rightarrow>
                               (case skip_ws r' of
                                  [] \<Rightarrow> None
                                | c # cs \<Rightarrow>
                                    (if c = CHR '','' then
                                       map_option (\<lambda>(kvs, r''). ((k, v) # kvs, r''))
                                         (parse_members h n cs)
                                     else if c = CHR 0x7D then Some ([(k, v)], cs)
                                     else None))))))))"

text \<open>Twice the length of the text, plus one, is enough fuel: see \<open>parse_value_fuel\<close>.\<close>

definition json_parse :: "js_host \<Rightarrow> string \<Rightarrow> json option" where
  "json_parse h s =
     (case parse_value h (Suc (2 * length s)) s of
        None \<Rightarrow> None
      | Some (v, r) \<Rightarrow> if skip_ws r = [] then Some v else None)"

section \<open>Canonical JSON\<close>

text \<open>
  What the program passes to \<open>canonicalJson\<close>: JSON data that may hold
  \<open>undefined\<close>, or a value of another type (\<open>VOther\<close>: a function, a symbol or a
  bigint). Such data are finite trees, so the check for cycles never fires.
\<close>

datatype js_value =
    VUndefined
  | VOther
  | VNull
  | VBool bool
  | VNum string
  | VStr string
  | VArr "js_value list"
  | VObj "(string \<times> js_value) list"

datatype canonical_error = UnsupportedCanonicalValue

definition key_before :: "js_host \<Rightarrow> string \<times> 'v \<Rightarrow> string \<times> 'v \<Rightarrow> bool" where
  "key_before h a b \<longleftrightarrow> collate h (fst a) (fst b)"

fun normalize_json :: "js_host \<Rightarrow> js_value \<Rightarrow> canonical_error + json"
  and normalize_items :: "js_host \<Rightarrow> js_value list \<Rightarrow> canonical_error + json list"
  and normalize_entries ::
    "js_host \<Rightarrow> (string \<times> js_value) list \<Rightarrow> canonical_error + (string \<times> json) list" where
  "normalize_json h VUndefined = Inl UnsupportedCanonicalValue"
| "normalize_json h VOther = Inl UnsupportedCanonicalValue"
| "normalize_json h VNull = Inr JNull"
| "normalize_json h (VBool b) = Inr (JBool b)"
| "normalize_json h (VNum t) = Inr (JNum t)"
| "normalize_json h (VStr s) = Inr (JStr s)"
| "normalize_json h (VArr vs) = and_then (normalize_items h vs) (\<lambda>ws. Inr (JArr ws))"
| "normalize_json h (VObj kvs) =
     and_then (normalize_entries h kvs) (\<lambda>es.
       Inr (JObj (own_properties (sort_by (key_before h) es))))"
| "normalize_items h [] = Inr []"
| "normalize_items h (v # vs) =
     and_then (normalize_json h v) (\<lambda>w.
       and_then (normalize_items h vs) (\<lambda>ws. Inr (w # ws)))"
| "normalize_entries h [] = Inr []"
| "normalize_entries h ((k, v) # kvs) =
     (if v = VUndefined then normalize_entries h kvs
      else and_then (normalize_json h v) (\<lambda>w.
        and_then (normalize_entries h kvs) (\<lambda>ws. Inr ((k, w) # ws))))"

definition canonical_json :: "js_host \<Rightarrow> js_value \<Rightarrow> canonical_error + string" where
  "canonical_json h v = and_then (normalize_json h v) (\<lambda>w. Inr (json_text w))"

definition hash_canonical :: "js_host \<Rightarrow> js_value \<Rightarrow> canonical_error + string" where
  "hash_canonical h v = and_then (canonical_json h v) (\<lambda>t. Inr (sha256_hex h (utf8_encode t)))"

end
