(* ===== verification/JsonLaws.thy ===== *)
theory JsonLaws
  imports Json
begin

text \<open>
  Laws of the JSON model: more fuel than the parser gets never changes its answer,
  \<open>JSON.parse\<close> inverts \<open>JSON.stringify\<close>, compact texts have no raw control
  characters, and the canonical form of src/src/domain/bundle.ts does not depend on
  the order of keys.
\<close>

section \<open>Characters\<close>

lemma hex_value_hex_digit: "n < 16 \<Longrightarrow> hex_value (hex_digit n) = Some n"
  by (auto simp: hex_digit_def hex_value_def digit_char_def code_unit_char_of)

lemma hex_digit_printable: "n < 16 \<Longrightarrow> 32 \<le> code_unit (hex_digit n)"
  by (auto simp: hex_digit_def code_unit_char_of)

lemma quote_char_printable: "d \<in> set (quote_char c) \<Longrightarrow> 32 \<le> code_unit d"
proof -
  assume d: "d \<in> set (quote_char c)"
  have "code_unit c div 16 < 16" using code_unit_bound [of c] by simp
  then show ?thesis
    using d hex_digit_printable [of "code_unit c div 16"] hex_digit_printable [of "code_unit c mod 16"]
    by (auto simp: quote_char_def code_unit_def split: if_splits)
qed

section \<open>Strings\<close>

lemma parse_chars_quote_char:
  "parse_chars (quote_char c @ t) = map_option (\<lambda>(s, r). (c # s, r)) (parse_chars t)"
proof -
  consider "c = CHR 0x22" | "c = CHR 0x5C" | "code_unit c = 8" | "code_unit c = 9"
    | "code_unit c = 10" | "code_unit c = 12" | "code_unit c = 13"
    | "code_unit c < 32" "code_unit c \<notin> {8, 9, 10, 12, 13}"
    | "32 \<le> code_unit c" "c \<noteq> CHR 0x22" "c \<noteq> CHR 0x5C"
    by fastforce
  then show ?thesis
  proof cases
    case 8
    then have "c \<noteq> CHR 0x22" and "c \<noteq> CHR 0x5C" by (auto simp: code_unit_def)
    moreover have "unicode_escape (CHR ''0'') (CHR ''0'') (hex_digit (code_unit c div 16))
        (hex_digit (code_unit c mod 16)) = Some c"
    proof -
      have "code_unit c div 16 < 16" and "code_unit c mod 16 < 16"
        using code_unit_bound [of c] by auto
      moreover have "hex_value (CHR ''0'') = Some 0"
        by (simp add: hex_value_def digit_char_def code_unit_def)
      ultimately show ?thesis
        by (simp add: unicode_escape_def hex_value_hex_digit)
    qed
    ultimately show ?thesis using 8 by (simp add: quote_char_def)
  qed (auto simp: quote_char_def unescape_def code_unit_def dest!: of_char_eqD)
qed

lemma parse_chars_quoted:
  "parse_chars (concat (map quote_char s) @ CHR 0x22 # r) = Some (s, r)"
  by (induction s) (simp_all add: parse_chars_quote_char)

lemma parse_chars_shorter: "parse_chars s = Some (t, r) \<Longrightarrow> length r < length s"
proof (induction s arbitrary: t r rule: parse_chars.induct)
  case 1
  then show ?case by simp
next
  case (2 c cs)
  then show ?case
    by (fastforce split: if_splits list.splits option.splits)
qed

section \<open>Fuel\<close>

lemma skip_ws_length: "length (skip_ws s) \<le> length s"
  by (simp add: skip_ws_def length_dropWhile_le)

text \<open>One step of each parser, with the recursive calls abstracted.\<close>

lemma parse_value_cong:
  assumes "\<And>c cs. skip_ws s = c # cs \<Longrightarrow>
      parse_elements h n cs = parse_elements h m cs \<and> parse_members h n cs = parse_members h m cs"
  shows "parse_value h (Suc n) s = parse_value h (Suc m) s"
  using assms by (auto split: list.split)

lemma parse_elements_cong:
  assumes "parse_value h n s = parse_value h m s"
    and "\<And>v r c cs. parse_value h m s = Some (v, r) \<Longrightarrow> skip_ws r = c # cs \<Longrightarrow>
      parse_elements h n cs = parse_elements h m cs"
  shows "parse_elements h (Suc n) s = parse_elements h (Suc m) s"
  using assms by (auto split: list.split option.split)

lemma parse_members_cong:
  assumes "\<And>ds. length ds < length s \<Longrightarrow> parse_value h n ds = parse_value h m ds"
    and "\<And>ds v r c cs. length ds < length s \<Longrightarrow> parse_value h m ds = Some (v, r) \<Longrightarrow>
      skip_ws r = c # cs \<Longrightarrow> parse_members h n cs = parse_members h m cs"
  shows "parse_members h (Suc n) s = parse_members h (Suc m) s"
proof -
  have shorter: "length ds < length s"
    if "skip_ws s = q # qs" "parse_chars qs = Some (k, r)" "skip_ws r = d # ds" for q qs k r d ds
    using skip_ws_length [of s] skip_ws_length [of r] parse_chars_shorter [OF that(2)] that by simp
  have val: "parse_value h n ds = parse_value h m ds"
    if "skip_ws s = q # qs" "parse_chars qs = Some (k, r)" "skip_ws r = d # ds" for q qs k r d ds
    using assms(1) shorter [OF that] by blast
  have mem: "parse_members h n cs = parse_members h m cs"
    if "skip_ws s = q # qs" "parse_chars qs = Some (k, r)" "skip_ws r = d # ds"
      "parse_value h m ds = Some (v, r')" "skip_ws r' = c # cs" for q qs k r d ds v r' c cs
    using assms(2) shorter [OF that(1-3)] that(4,5) by blast
  show ?thesis by (auto simp: val mem split: list.split option.split)
qed

lemma length_drop_less: "0 < length s \<Longrightarrow> 0 < k \<Longrightarrow> length (drop k s) < length s"
  by simp

lemma parse_shorter:
  "(\<forall>s v r. parse_value h n s = Some (v, r) \<longrightarrow> length r < length s) \<and>
   (\<forall>s vs r. parse_elements h n s = Some (vs, r) \<longrightarrow> length r < length s) \<and>
   (\<forall>s kvs r. parse_members h n s = Some (kvs, r) \<longrightarrow> length r < length s)"
proof (induction n)
  case 0
  then show ?case by simp
next
  case (Suc n)
  have tail: "length cs < length s" if "skip_ws s = c # cs" for c cs and s :: string
    using skip_ws_length [of s] that by simp
  have num: "length (dropWhile num_char (c # cs)) < length s"
    if "json_number (takeWhile num_char (c # cs))" "skip_ws s = c # cs" for c cs and s :: string
  proof -
    have "num_char c" using that(1) by (auto simp: json_number_def split: if_splits)
    then have "length (dropWhile num_char (c # cs)) \<le> length cs"
      by (simp add: length_dropWhile_le)
    then show ?thesis using tail [OF that(2)] by simp
  qed
  have val: "length r < length s" if p: "parse_value h (Suc n) s = Some (v, r)" for s v r
  proof (cases "skip_ws s")
    case Nil
    with p show ?thesis by simp
  next
    case (Cons c cs)
    note t = tail [OF Cons]
    have e: "length r < length cs" if "parse_elements h n cs = Some (vs, r)" for vs
      using Suc that by blast
    have m: "length r < length cs" if "parse_members h n cs = Some (kvs, r)" for kvs
      using Suc that by blast
    have "(\<exists>t. parse_chars cs = Some (t, r)) \<or> (\<exists>d. skip_ws cs = d # r) \<or>
        (\<exists>vs. parse_elements h n cs = Some (vs, r)) \<or>
        (\<exists>kvs. parse_members h n cs = Some (kvs, r)) \<or> r = drop 3 cs \<or> r = drop 4 cs \<or>
        json_number (takeWhile num_char (c # cs)) \<and> r = dropWhile num_char (c # cs)"
      using p Cons
      by (auto simp del: starts_with.simps takeWhile.simps dropWhile.simps
          split: if_split_asm list.split_asm)
    then show ?thesis
      using t num [OF _ Cons] e m parse_chars_shorter [of cs] tail [of cs] by fastforce
  qed
  have elements: "length r < length s" if "parse_elements h (Suc n) s = Some (vs, r)" for s vs r
    using that Suc tail by (fastforce split: option.splits list.splits if_splits)
  have members: "length r < length s" if p: "parse_members h (Suc n) s = Some (kvs, r)" for s kvs r
  proof -
    from p obtain q qs k r1 d ds v r2 c cs where
      1: "skip_ws s = q # qs" "parse_chars qs = Some (k, r1)" "skip_ws r1 = d # ds"
        "parse_value h n ds = Some (v, r2)" "skip_ws r2 = c # cs"
      and 2: "r = cs \<or> (\<exists>kvs'. parse_members h n cs = Some (kvs', r))"
      by (fastforce split: option.splits list.splits if_splits)
    have "length r \<le> length cs" using 2 Suc by fastforce
    moreover have "length r2 < length ds" using 1(4) Suc by blast
    ultimately show ?thesis
      using tail [OF 1(1)] tail [OF 1(3)] tail [OF 1(5)] parse_chars_shorter [OF 1(2)] by simp
  qed
  from val elements members show ?case by blast
qed

lemma parse_fuel_step:
  "(\<forall>s. Suc (2 * length s) \<le> n \<longrightarrow> parse_value h (Suc n) s = parse_value h n s) \<and>
   (\<forall>s. Suc (Suc (2 * length s)) \<le> n \<longrightarrow> parse_elements h (Suc n) s = parse_elements h n s) \<and>
   (\<forall>s. Suc (Suc (2 * length s)) \<le> n \<longrightarrow> parse_members h (Suc n) s = parse_members h n s)"
proof (induction n)
  case 0
  then show ?case by simp
next
  case (Suc n)
  have val: "parse_value h (Suc (Suc n)) s = parse_value h (Suc n) s"
    if "Suc (2 * length s) \<le> Suc n" for s
  proof (rule parse_value_cong)
    fix c cs assume "skip_ws s = c # cs"
    then have "length cs < length s" using skip_ws_length [of s] by simp
    then show "parse_elements h (Suc n) cs = parse_elements h n cs \<and>
        parse_members h (Suc n) cs = parse_members h n cs"
      using Suc that by simp
  qed
  have elements: "parse_elements h (Suc (Suc n)) s = parse_elements h (Suc n) s"
    if "Suc (Suc (2 * length s)) \<le> Suc n" for s
  proof (rule parse_elements_cong)
    show "parse_value h (Suc n) s = parse_value h n s" using Suc that by simp
    fix v r c cs assume "parse_value h n s = Some (v, r)" and "skip_ws r = c # cs"
    then have "length cs < length s"
      using parse_shorter [of h n] skip_ws_length [of r] by fastforce
    then show "parse_elements h (Suc n) cs = parse_elements h n cs" using Suc that by simp
  qed
  have members: "parse_members h (Suc (Suc n)) s = parse_members h (Suc n) s"
    if "Suc (Suc (2 * length s)) \<le> Suc n" for s
  proof (rule parse_members_cong)
    fix ds :: string assume ds: "length ds < length s"
    then show "parse_value h (Suc n) ds = parse_value h n ds" using Suc that by simp
    fix v r c cs assume "parse_value h n ds = Some (v, r)" and "skip_ws r = c # cs"
    then have "length cs < length s"
      using parse_shorter [of h n] skip_ws_length [of r] ds by fastforce
    then show "parse_members h (Suc n) cs = parse_members h n cs" using Suc that by simp
  qed
  from val elements members show ?case by blast
qed

lemma parse_value_fuel:
  "Suc (2 * length s) \<le> n \<Longrightarrow> parse_value h n s = parse_value h (Suc (2 * length s)) s"
proof (induction n rule: dec_induct)
  case base
  then show ?case by simp
next
  case (step n)
  then show ?case using parse_fuel_step [of n h] by simp
qed

section \<open>Parsing a text that stringify produced\<close>

lemma digits_value_append:
  "digits_value acc (s @ t) = digits_value (digits_value acc s) t"
  by (induction s arbitrary: acc) simp_all

lemma digits_value_nat_text: "digits_value 0 (nat_text n) = n"
proof (induction n rule: nat_text.induct)
  case (1 n)
  show ?case
  proof (cases "n < 10")
    case True
    then show ?thesis by (subst nat_text.simps) (simp add: code_unit_char_of)
  next
    case False
    have "n mod 10 < 10" by simp
    with False 1 show ?thesis
      by (subst nat_text.simps) (simp add: digits_value_append code_unit_char_of)
  qed
qed

text \<open>
  The values that \<open>JSON.parse\<close> can yield: numbers in their canonical text and
  objects whose properties are in property order without repetition.
\<close>

definition number_text_ok :: "js_host \<Rightarrow> string \<Rightarrow> bool" where
  "number_text_ok h t \<longleftrightarrow> json_number t \<and> list_all num_char t \<and> num_canon h t = t"

fun wf_json :: "js_host \<Rightarrow> json \<Rightarrow> bool"
  and wf_elements :: "js_host \<Rightarrow> json list \<Rightarrow> bool"
  and wf_members :: "js_host \<Rightarrow> (string \<times> json) list \<Rightarrow> bool" where
  "wf_json h (JNum t) = number_text_ok h t"
| "wf_json h (JArr vs) = wf_elements h vs"
| "wf_json h (JObj kvs) = (own_properties kvs = kvs \<and> wf_members h kvs)"
| "wf_json h _ = True"
| "wf_elements h [] = True"
| "wf_elements h (v # vs) = (wf_json h v \<and> wf_elements h vs)"
| "wf_members h [] = True"
| "wf_members h ((k, v) # kvs) = (wf_json h v \<and> wf_members h kvs)"

definition delimited :: "string \<Rightarrow> bool" where
  "delimited rest \<longleftrightarrow> rest = [] \<or> hd rest \<in> {CHR '','', CHR '']'', CHR 0x7D}"

lemma skip_ws_Cons [simp]: "\<not> json_space c \<Longrightarrow> skip_ws (c # cs) = c # cs"
  by (simp add: skip_ws_def)

lemma skip_ws_Nil [simp]: "skip_ws [] = []"
  by (simp add: skip_ws_def)

lemma not_json_space [simp]:
  "\<not> json_space (CHR 0x22)" "\<not> json_space (CHR ''['')" "\<not> json_space (CHR 0x7B)"
  "\<not> json_space (CHR '']'')" "\<not> json_space (CHR 0x7D)" "\<not> json_space (CHR '','')"
  "\<not> json_space (CHR '':'')" "\<not> json_space (CHR ''n'')" "\<not> json_space (CHR ''t'')"
  "\<not> json_space (CHR ''f'')"
  by (simp_all add: json_space_def code_unit_def)

lemma num_char_cases:
  "num_char c \<Longrightarrow> \<not> json_space c \<and> c \<notin> {CHR 0x22, CHR ''['', CHR 0x7B, CHR ''n'', CHR ''t'', CHR ''f'',
     CHR '','', CHR '']'', CHR 0x7D}"
  by (auto simp: num_char_def json_space_def digit_char_def code_unit_def)

lemma number_first: "number_text_ok h t \<Longrightarrow> \<exists>c cs. t = c # cs \<and> num_char c"
  by (cases t) (auto simp: number_text_ok_def json_number_def)

lemma delimited_num:
  assumes "list_all num_char t" and "delimited rest"
  shows "takeWhile num_char (t @ rest) = t" and "dropWhile num_char (t @ rest) = rest"
proof -
  have "rest = [] \<or> \<not> num_char (hd rest)"
    using assms(2) num_char_cases by (auto simp: delimited_def)
  then have 1: "takeWhile num_char rest = []" "dropWhile num_char rest = rest"
    by (cases rest; auto)+
  have 2: "\<And>x. x \<in> set t \<Longrightarrow> num_char x" using assms(1) by (simp add: list_all_iff)
  show "takeWhile num_char (t @ rest) = t" using 1 2 by (simp add: takeWhile_append2)
  show "dropWhile num_char (t @ rest) = rest" using 1 2 by (simp add: dropWhile_append2)
qed

lemma parse_number:
  assumes "number_text_ok h t" and "delimited rest"
  shows "parse_value h (Suc n) (t @ rest) = Some (JNum t, rest)"
proof -
  from number_first [OF assms(1)] obtain c cs where t: "t = c # cs" and c: "num_char c" by blast
  have ok: "json_number t" "list_all num_char t" "num_canon h t = t"
    using assms(1) by (auto simp: number_text_ok_def)
  have tw: "takeWhile num_char (c # cs @ rest) = t" "dropWhile num_char (c # cs @ rest) = rest"
    using delimited_num [OF ok(2) assms(2)] t by simp_all
  have ne: "c \<noteq> CHR 0x22" "c \<noteq> CHR ''[''" "c \<noteq> CHR 0x7B" "c \<noteq> CHR ''n''" "c \<noteq> CHR ''t''"
    "c \<noteq> CHR ''f''" "\<not> json_space c"
    using num_char_cases [OF c] by auto
  show ?thesis
    unfolding t append_Cons
    using ne ok tw by (simp del: takeWhile.simps dropWhile.simps add: t [symmetric])
qed

lemma json_text_nonspace: "wf_json h v \<Longrightarrow> \<exists>c cs. json_text v = c # cs \<and> \<not> json_space c \<and> c \<noteq> CHR '']''"
proof (cases v)
  case (JNum t)
  assume "wf_json h v"
  with JNum obtain c cs where "t = c # cs" "num_char c" using number_first [of h t] by auto
  with JNum num_char_cases [of c] show ?thesis by auto
qed (auto simp: json_quote_def)

lemma element_texts_Nil_iff [simp]: "element_texts vs = [] \<longleftrightarrow> vs = []"
  by (cases vs) auto

lemma member_texts_Nil_iff [simp]: "member_texts kvs = [] \<longleftrightarrow> kvs = []"
  by (cases kvs) auto

lemma parse_string_text:
  "parse_value h (Suc n) (json_quote s @ rest) = Some (JStr s, rest)"
  by (simp add: json_quote_def parse_chars_quoted)

lemma parse_array_step:
  assumes "wf_elements h vs"
    and "vs \<noteq> [] \<Longrightarrow> parse_elements h n (join '','' (element_texts vs) @ '']'' @ rest) = Some (vs, rest)"
  shows "parse_value h (Suc n) (json_text (JArr vs) @ rest) = Some (JArr vs, rest)"
proof (cases vs)
  case Nil
  then show ?thesis by simp
next
  case (Cons v ws)
  then obtain c cs where c: "json_text v = c # cs" "\<not> json_space c" "c \<noteq> CHR '']''"
    using assms(1) json_text_nonspace [of h v] by auto
  have "\<exists>ds. join '','' (element_texts vs) = c # ds"
    using c Cons by (cases ws) auto
  then obtain ds where ds: "join '','' (element_texts vs) = c # ds" by blast
  show ?thesis using assms(2) Cons c(2,3) ds by simp
qed

lemma parse_object_step:
  assumes "own_properties kvs = kvs"
    and "kvs \<noteq> [] \<Longrightarrow>
      parse_members h n (join '','' (member_texts kvs) @ CHR 0x7D # rest) = Some (kvs, rest)"
  shows "parse_value h (Suc n) (json_text (JObj kvs) @ rest) = Some (JObj kvs, rest)"
proof (cases kvs)
  case Nil
  then show ?thesis by simp
next
  case (Cons kv ws)
  obtain k v where kv: "kv = (k, v)" by (cases kv)
  have "\<exists>ds. join '','' (member_texts kvs) = CHR 0x22 # ds"
    using Cons kv by (cases ws) (auto simp: json_quote_def)
  then obtain ds where ds: "join '','' (member_texts kvs) = CHR 0x22 # ds" by blast
  show ?thesis using assms Cons ds by simp
qed

lemma parse_member_step:
  assumes "parse_value h n (json_text v @ c # rest) = Some (v, c # rest)"
    and "\<not> json_space c"
  shows "parse_members h (Suc n) ((json_quote k @ '':'' @ json_text v) @ c # rest) =
     (if c = CHR '','' then map_option (\<lambda>(kvs, r). ((k, v) # kvs, r)) (parse_members h n rest)
      else if c = CHR 0x7D then Some ([(k, v)], rest) else None)"
  using assms by (simp add: json_quote_def parse_chars_quoted)

lemma parse_json_text:
  "wf_json h v \<Longrightarrow> (\<forall>rest n. delimited rest \<longrightarrow> Suc (2 * length (json_text v)) \<le> n \<longrightarrow>
     parse_value h n (json_text v @ rest) = Some (v, rest))"
  "wf_elements h vs \<Longrightarrow> vs \<noteq> [] \<longrightarrow> (\<forall>rest n.
     Suc (Suc (2 * length (join '','' (element_texts vs)))) \<le> n \<longrightarrow>
     parse_elements h n (join '','' (element_texts vs) @ '']'' @ rest) = Some (vs, rest))"
  "wf_members h kvs \<Longrightarrow> kvs \<noteq> [] \<longrightarrow> (\<forall>rest n.
     Suc (Suc (2 * length (join '','' (member_texts kvs)))) \<le> n \<longrightarrow>
     parse_members h n (join '','' (member_texts kvs) @ CHR 0x7D # rest) = Some (kvs, rest))"
proof (induction v and vs and kvs rule: json_text_element_texts_member_texts.induct)
  case 1
  show ?case
  proof (intro allI impI)
    fix rest n assume "Suc (2 * length (json_text JNull)) \<le> n"
    then show "parse_value h n (json_text JNull @ rest) = Some (JNull, rest)" by (cases n) auto
  qed
next
  case (2 b)
  show ?case
  proof (intro allI impI)
    fix rest n assume "Suc (2 * length (json_text (JBool b))) \<le> n"
    then show "parse_value h n (json_text (JBool b) @ rest) = Some (JBool b, rest)"
      by (cases n) auto
  qed
next
  case (3 t)
  then show ?case using parse_number [of h t] by (auto dest!: Suc_le_D)
next
  case (4 s)
  show ?case using parse_string_text [of h _ s] by (auto dest!: Suc_le_D simp del: parse_value.simps)
next
  case (5 vs)
  show ?case
  proof (intro allI impI)
    fix rest n assume n: "Suc (2 * length (json_text (JArr vs))) \<le> n"
    then obtain m where m: "n = Suc m" by (auto dest!: Suc_le_D)
    show "parse_value h n (json_text (JArr vs) @ rest) = Some (JArr vs, rest)"
      unfolding m
    proof (rule parse_array_step)
      show "wf_elements h vs" using 5 by simp
      assume "vs \<noteq> []"
      moreover have "Suc (Suc (2 * length (join '','' (element_texts vs)))) \<le> m"
        using n m by simp
      ultimately show "parse_elements h m (join '','' (element_texts vs) @ '']'' @ rest) = Some (vs, rest)"
        using 5 by simp
    qed
  qed
next
  case (6 kvs)
  show ?case
  proof (intro allI impI)
    fix rest n assume n: "Suc (2 * length (json_text (JObj kvs))) \<le> n"
    then obtain m where m: "n = Suc m" by (auto dest!: Suc_le_D)
    show "parse_value h n (json_text (JObj kvs) @ rest) = Some (JObj kvs, rest)"
      unfolding m
    proof (rule parse_object_step)
      show "own_properties kvs = kvs" using 6 by simp
      assume "kvs \<noteq> []"
      moreover have "Suc (Suc (2 * length (join '','' (member_texts kvs)))) \<le> m"
        using n m by simp
      ultimately show "parse_members h m (join '','' (member_texts kvs) @ CHR 0x7D # rest) = Some (kvs, rest)"
        using 6 by simp
    qed
  qed
next
  case 7
  show ?case by simp
next
  case (8 v vs)
  show ?case
  proof (intro impI allI)
    fix rest n assume n: "Suc (Suc (2 * length (join '','' (element_texts (v # vs))))) \<le> n"
    then obtain m where m: "n = Suc m" by (auto dest!: Suc_le_D)
    have v: "parse_value h m (json_text v @ rest') = Some (v, rest')"
      if "delimited rest'" for rest'
      using 8 n m that by (cases vs) auto
    show "parse_elements h n (join '','' (element_texts (v # vs)) @ '']'' @ rest) = Some (v # vs, rest)"
    proof (cases "vs = []")
      case True
      then show ?thesis using v [of "'']'' @ rest"] by (simp add: m delimited_def)
    next
      case False
      have "parse_elements h m (join '','' (element_texts vs) @ '']'' @ rest) = Some (vs, rest)"
        using 8 n m False by (simp add: join_Cons)
      then show ?thesis
        using v [of "'','' @ join '','' (element_texts vs) @ '']'' @ rest"] False
        by (simp add: m delimited_def join_Cons)
    qed
  qed
next
  case 9
  show ?case by simp
next
  case (10 k v kvs)
  show ?case
  proof (intro impI allI)
    fix rest n assume n: "Suc (Suc (2 * length (join '','' (member_texts ((k, v) # kvs))))) \<le> n"
    then obtain m where m: "n = Suc m" by (auto dest!: Suc_le_D)
    have v: "parse_value h m (json_text v @ rest') = Some (v, rest')"
      if "delimited rest'" for rest'
      using 10 n m that by (cases kvs) auto
    show "parse_members h n (join '','' (member_texts ((k, v) # kvs)) @ CHR 0x7D # rest) =
        Some ((k, v) # kvs, rest)"
    proof (cases "kvs = []")
      case True
      then show ?thesis
        using parse_member_step [OF v [of "CHR 0x7D # rest"], of k] by (simp add: m delimited_def)
    next
      case False
      have "parse_members h m (join '','' (member_texts kvs) @ CHR 0x7D # rest) = Some (kvs, rest)"
        using 10 n m False by (simp add: join_Cons)
      then show ?thesis
        using parse_member_step
          [OF v [of "CHR '','' # join '','' (member_texts kvs) @ CHR 0x7D # rest"], of k] False
        by (simp add: m delimited_def join_Cons)
    qed
  qed
qed

text \<open>
  \<open>JSON.parse\<close> inverts \<open>JSON.stringify\<close>: for every JSON value whose numbers
  are canonical and whose objects are in property order, parsing its compact text
  yields the value again, and the fuel the model gives the parser suffices.
\<close>

lemma json_parse_wf: "wf_json h v \<Longrightarrow> json_parse h (json_text v) = Some v"
  using parse_json_text(1) [of h v] by (simp add: json_parse_def delimited_def del: parse_value.simps)

lemma set_join: "c \<in> set (join sep ws) \<Longrightarrow> c \<in> set sep \<or> (\<exists>w \<in> set ws. c \<in> set w)"
  by (induction sep ws rule: join.induct) auto

lemma json_quote_printable: "c \<in> set (json_quote s) \<Longrightarrow> 32 \<le> code_unit c"
  by (auto simp: json_quote_def quote_char_printable) (simp_all add: code_unit_def)

lemma num_char_printable: "num_char c \<Longrightarrow> 32 \<le> code_unit c"
  by (auto simp: num_char_def digit_char_def code_unit_def)

lemma json_text_printable:
  "wf_json h v \<Longrightarrow> c \<in> set (json_text v) \<Longrightarrow> 32 \<le> code_unit c"
  "wf_elements h vs \<Longrightarrow> t \<in> set (element_texts vs) \<Longrightarrow> c \<in> set t \<Longrightarrow> 32 \<le> code_unit c"
  "wf_members h kvs \<Longrightarrow> t \<in> set (member_texts kvs) \<Longrightarrow> c \<in> set t \<Longrightarrow> 32 \<le> code_unit c"
proof (induction v and vs and kvs arbitrary: c and c t and c t
    rule: json_text_element_texts_member_texts.induct)
  case (3 t)
  then show ?case
    by (auto simp: number_text_ok_def list_all_iff intro: num_char_printable)
next
  case (4 s)
  then show ?case by (simp add: json_quote_printable)
next
  case (5 vs)
  then show ?case by (auto simp: code_unit_def dest!: set_join)
next
  case (6 kvs)
  then show ?case by (auto simp: code_unit_def dest!: set_join)
next
  case (10 k v kvs)
  then show ?case
    by (auto simp: code_unit_def dest: json_quote_printable [unfolded code_unit_def])
qed (auto simp: code_unit_def split: if_splits)

section \<open>The canonical form\<close>

lemma collect_Inr_iff:
  "collect f xs = Inr ys \<longleftrightarrow> (\<forall>x \<in> set xs. \<exists>y. f x = Inr y) \<and> ys = map (projr \<circ> f) xs"
  by (induction xs arbitrary: ys) (auto simp: and_then_Inr_iff)

lemma canonical_error_unique: "(e :: canonical_error) = e'"
  by (cases e; cases e') simp

lemma normalize_items_collect: "normalize_items h vs = collect (normalize_json h) vs"
  by (induction vs) auto

definition normalize_entry :: "js_host \<Rightarrow> string \<times> js_value \<Rightarrow> canonical_error + (string \<times> json)" where
  "normalize_entry h kv = and_then (normalize_json h (snd kv)) (\<lambda>w. Inr (fst kv, w))"

lemma normalize_entry_Inr:
  "normalize_entry h kv = Inr kw \<longleftrightarrow> fst kw = fst kv \<and> normalize_json h (snd kv) = Inr (snd kw)"
  by (cases kw) (auto simp: normalize_entry_def and_then_Inr_iff)

lemma normalize_entries_collect:
  "normalize_entries h kvs =
     collect (normalize_entry h) (filter (\<lambda>kv. snd kv \<noteq> VUndefined) kvs)"
proof (induction kvs)
  case Nil
  then show ?case by simp
next
  case (Cons kv kvs)
  obtain k v where kv: "kv = (k, v)" by (cases kv)
  show ?case
    using Cons by (cases "normalize_json h v") (auto simp: kv normalize_entry_def)
qed

lemma normalize_entries_keys:
  assumes "normalize_entries h kvs = Inr es"
  shows "map fst es = map fst (filter (\<lambda>kv. snd kv \<noteq> VUndefined) kvs)"
  using assms unfolding normalize_entries_collect
  by (induction kvs arbitrary: es) (auto simp: and_then_Inr_iff normalize_entry_Inr split: if_splits)

lemma normalize_entries_permutation:
  assumes "mset kvs = mset kvs'" and "normalize_entries h kvs = Inr es"
  obtains es' where "normalize_entries h kvs' = Inr es'" and "mset es' = mset es"
proof -
  let ?P = "\<lambda>kv :: string \<times> js_value. snd kv \<noteq> VUndefined"
  let ?es' = "map (projr \<circ> normalize_entry h) (filter ?P kvs')"
  have m: "mset (filter ?P kvs) = mset (filter ?P kvs')" using assms(1) by simp
  then have s: "set (filter ?P kvs) = set (filter ?P kvs')" by (metis set_mset_mset)
  have ok: "\<forall>x \<in> set (filter ?P kvs). \<exists>y. normalize_entry h x = Inr y"
    and es: "es = map (projr \<circ> normalize_entry h) (filter ?P kvs)"
    using assms(2) unfolding normalize_entries_collect collect_Inr_iff by auto
  show ?thesis
  proof (rule that)
    show "normalize_entries h kvs' = Inr ?es'"
      unfolding normalize_entries_collect collect_Inr_iff s [symmetric] using ok by simp
    show "mset ?es' = mset es" unfolding es mset_map using m by simp
  qed
qed

lemma comparator_key_before:
  "comparator_order (collate h) \<Longrightarrow> comparator_order (key_before h)"
  unfolding comparator_order_def key_before_def by blast

interpretation index_order: comparator_order "index_before :: string \<times> 'v \<Rightarrow> _"
  by unfold_locales (auto simp: index_before_def)

fun separable :: "js_host \<Rightarrow> js_value \<Rightarrow> bool"
  and separable_items :: "js_host \<Rightarrow> js_value list \<Rightarrow> bool"
  and separable_entries :: "js_host \<Rightarrow> (string \<times> js_value) list \<Rightarrow> bool" where
  "separable h (VArr vs) = separable_items h vs"
| "separable h (VObj kvs) =
     (distinct (map fst kvs) \<and>
      (\<forall>k \<in> fst ` set kvs. \<forall>k' \<in> fst ` set kvs.
         collate h k k' \<longrightarrow> collate h k' k \<longrightarrow> k = k') \<and>
      separable_entries h kvs)"
| "separable h _ = True"
| "separable_items h [] = True"
| "separable_items h (v # vs) = (separable h v \<and> separable_items h vs)"
| "separable_entries h [] = True"
| "separable_entries h ((k, v) # kvs) = (separable h v \<and> separable_entries h kvs)"

lemma separable_items_iff: "separable_items h vs \<longleftrightarrow> (\<forall>v \<in> set vs. separable h v)"
  by (induction vs) auto

lemma separable_entries_iff: "separable_entries h kvs \<longleftrightarrow> (\<forall>kv \<in> set kvs. separable h (snd kv))"
  by (induction kvs) auto

text \<open>Data that differ only in the order in which objects list their keys.\<close>

inductive reordered :: "js_value \<Rightarrow> js_value \<Rightarrow> bool" where
  same: "reordered v v"
| items: "list_all2 reordered vs ws \<Longrightarrow> reordered (VArr vs) (VArr ws)"
| entries: "list_all2 (\<lambda>a b. fst a = fst b \<and> reordered (snd a) (snd b)) kvs kws \<Longrightarrow>
     mset kws = mset kws' \<Longrightarrow> reordered (VObj kvs) (VObj kws')"

lemma reordered_undefined: "reordered v w \<Longrightarrow> v = VUndefined \<longleftrightarrow> w = VUndefined"
  by (auto elim: reordered.cases)

lemma sort_entries_permutation:
  assumes "comparator_order (collate h)" and "mset es = mset es'" and "distinct (map fst es)"
    and anti: "\<And>k k'. k \<in> fst ` set es \<Longrightarrow> k' \<in> fst ` set es \<Longrightarrow> collate h k k' \<Longrightarrow> collate h k' k
      \<Longrightarrow> k = k'"
  shows "sort_by (key_before h) es = sort_by (key_before h) es'"
proof (rule comparator_order.sort_by_permutation [OF comparator_key_before [OF assms(1)] assms(2)])
  fix a b assume ab: "a \<in> set es" "b \<in> set es" "key_before h a b" "key_before h b a"
  then have "fst a = fst b" using anti by (simp add: key_before_def)
  then show "a = b" using assms(3) ab(1,2) by (metis distinct_map inj_onD)
qed

lemma normalize_entries_related:
  assumes "list_all2 (\<lambda>a b. fst a = fst b \<and> (snd a = VUndefined \<longleftrightarrow> snd b = VUndefined) \<and>
      normalize_json h (snd a) = normalize_json h (snd b)) kvs kws"
  shows "normalize_entries h kvs = normalize_entries h kws"
  using assms
proof (induction rule: list_all2_induct)
  case Nil
  show ?case by simp
next
  case (Cons a as b bs)
  then show ?case by (cases a; cases b) auto
qed

lemma normalize_json_reordered:
  assumes "comparator_order (collate h)"
  shows "reordered v w \<Longrightarrow> separable h v \<Longrightarrow> normalize_json h v = normalize_json h w"
proof (induction rule: reordered.induct)
  case (same v)
  show ?case by simp
next
  case (items vs ws)
  have "normalize_items h vs = normalize_items h ws"
    using items by (induction rule: list_all2_induct) auto
  then show ?case by simp
next
  case (entries kvs kws kws')
  have related: "normalize_entries h kvs = normalize_entries h kws"
    using entries.IH entries.prems
    by (intro normalize_entries_related, elim list.rel_mono_strong)
       (auto simp: separable_entries_iff reordered_undefined)
  have keys: "map fst kvs = map fst kws"
    using entries.IH by (induction rule: list_all2_induct) auto
  show ?case
  proof (cases "normalize_entries h kws")
    case (Inl e)
    then have "\<exists>e'. normalize_entries h kws' = Inl e'"
      using normalize_entries_permutation [of kws' kws h] entries.hyps(1)
      by (cases "normalize_entries h kws'") auto
    then show ?thesis using Inl related canonical_error_unique by auto
  next
    case (Inr es)
    from normalize_entries_permutation [OF entries.hyps(1) Inr] obtain es' where
      es': "normalize_entries h kws' = Inr es'" "mset es' = mset es" .
    have sub: "fst ` set es \<subseteq> fst ` set kvs"
      using normalize_entries_keys [OF Inr] keys by (metis filter_is_subset image_mono set_map)
    have "distinct (map fst es)"
      using normalize_entries_keys [OF Inr] entries.prems keys
      by (simp add: distinct_map_filter)
    moreover have "k = k'" if "k \<in> fst ` set es" "k' \<in> fst ` set es" "collate h k k'"
        "collate h k' k" for k k'
      using entries.prems that sub by (meson separable.simps(2) subsetD)
    ultimately have "sort_by (key_before h) es = sort_by (key_before h) es'"
      using es'(2) by (intro sort_entries_permutation [OF assms]) auto
    then show ?thesis using related Inr es'(1) by simp
  qed
qed


definition length_host :: js_host where
  "length_host = \<lparr>regex_ok = (\<lambda>_. True), regex_test = (\<lambda>p s. has_substring p s),
     num_canon = (\<lambda>t. t), collate = (\<lambda>a b. length a \<le> length b),
     sha256_hex = (\<lambda>s. replicate 64 (CHR ''0'')),
     utf8_decode = Some, nfc = (\<lambda>s. s), parse_url = (\<lambda>_. None)\<rparr>"

lemma length_host_comparator: "comparator_order (collate length_host)"
  by unfold_locales (auto simp: length_host_def)


section \<open>Canonical texts parse back\<close>

fun numbers_ok :: "js_host \<Rightarrow> js_value \<Rightarrow> bool"
  and numbers_ok_items :: "js_host \<Rightarrow> js_value list \<Rightarrow> bool"
  and numbers_ok_entries :: "js_host \<Rightarrow> (string \<times> js_value) list \<Rightarrow> bool" where
  "numbers_ok h (VNum t) = number_text_ok h t"
| "numbers_ok h (VArr vs) = numbers_ok_items h vs"
| "numbers_ok h (VObj kvs) = numbers_ok_entries h kvs"
| "numbers_ok h _ = True"
| "numbers_ok_items h [] = True"
| "numbers_ok_items h (v # vs) = (numbers_ok h v \<and> numbers_ok_items h vs)"
| "numbers_ok_entries h [] = True"
| "numbers_ok_entries h ((k, v) # kvs) = (numbers_ok h v \<and> numbers_ok_entries h kvs)"

lemma put_property_keys: "fst ` set (put_property k v kvs) = insert k (fst ` set kvs)"
  by (induction k v kvs rule: put_property.induct) auto

lemma put_property_fresh: "k \<notin> fst ` set kvs \<Longrightarrow> put_property k v kvs = kvs @ [(k, v)]"
  by (induction k v kvs rule: put_property.induct) auto

lemma fold_put_distinct:
  "distinct (map fst (acc @ kvs)) \<Longrightarrow> fold (\<lambda>(k, v). put_property k v) kvs acc = acc @ kvs"
proof (induction kvs arbitrary: acc)
  case Nil
  then show ?case by simp
next
  case (Cons kv kvs)
  obtain k v where kv: "kv = (k, v)" by (cases kv)
  then have "k \<notin> fst ` set acc" using Cons.prems by auto
  then have "fold (\<lambda>(k, v). put_property k v) (kv # kvs) acc =
      fold (\<lambda>(k, v). put_property k v) kvs (acc @ [kv])"
    by (simp add: kv put_property_fresh)
  also have "\<dots> = (acc @ [kv]) @ kvs" using Cons.prems by (intro Cons.IH) simp
  finally show ?case by simp
qed

lemma put_property_distinct: "distinct (map fst kvs) \<Longrightarrow> distinct (map fst (put_property k v kvs))"
proof (induction k v kvs rule: put_property.induct)
  case (1 k v)
  then show ?case by simp
next
  case (2 k v k' v' kvs)
  then show ?case using put_property_keys [of k v kvs] by (auto simp: image_iff) 
qed

lemma fold_put_property_distinct:
  "distinct (map fst acc) \<Longrightarrow> distinct (map fst (fold (\<lambda>(k, v). put_property k v) kvs acc))"
  by (induction kvs arbitrary: acc) (auto simp: put_property_distinct)

lemma mset_property_order [simp]: "mset (property_order kvs) = mset kvs"
  by (simp add: property_order_def)

lemma set_property_order [simp]: "set (property_order kvs) = set kvs"
  by (metis mset_property_order set_mset_mset)

lemma distinct_property_order: "distinct (map fst (property_order kvs)) = distinct (map fst kvs)"
  by (metis mset_map mset_property_order mset_eq_imp_distinct_iff)

lemma filter_none: "(\<And>x. x \<in> set xs \<Longrightarrow> \<not> P x) \<Longrightarrow> filter P xs = []"
  by (induction xs) auto

lemma property_order_idem: "property_order (property_order kvs) = property_order kvs"
proof -
  let ?I = "\<lambda>kv. array_index (fst kv)"
  have 1: "filter ?I (property_order kvs) = sort_by index_before (filter ?I kvs)"
    by (auto simp: property_order_def filter_none intro: filter_True)
  have 2: "filter (\<lambda>kv. \<not> ?I kv) (property_order kvs) = filter (\<lambda>kv. \<not> ?I kv) kvs"
    by (auto simp: property_order_def filter_none)
  show ?thesis
    unfolding property_order_def [of "property_order kvs"] 1 2
    using index_order.sort_by_sorted [OF index_order.sorted_sort_by]
    by (simp add: property_order_def)
qed

lemma own_properties_distinct: "distinct (map fst kvs) \<Longrightarrow> own_properties kvs = property_order kvs"
  using fold_put_distinct [of "[]" kvs] by (simp add: own_properties_def)

text \<open>Records are objects with fixed distinct names, none of them an array index.\<close>

lemma own_properties_named:
  assumes "distinct (map fst kvs)" and "list_all (\<lambda>k. k = [] \<or> \<not> digit_char (hd k)) (map fst kvs)"
  shows "own_properties kvs = kvs"
proof -
  have "\<not> array_index k" if "k = [] \<or> \<not> digit_char (hd k)" for k
    using that by (cases k) (auto simp: array_index_def)
  then have "\<not> array_index (fst kv)" if "kv \<in> set kvs" for kv
    using assms(2) that by (auto simp: list_all_iff)
  then have "filter (\<lambda>kv. array_index (fst kv)) kvs = []" "filter (\<lambda>kv. \<not> array_index (fst kv)) kvs = kvs"
    by (auto simp: filter_empty_conv)
  then show ?thesis
    using own_properties_distinct [OF assms(1)] by (simp add: property_order_def)
qed

lemma own_properties_keys_distinct: "distinct (map fst (own_properties kvs))"
  unfolding own_properties_def distinct_property_order
  by (rule fold_put_property_distinct) simp

lemma own_properties_idem: "own_properties (own_properties kvs) = own_properties kvs"
  using own_properties_distinct [OF own_properties_keys_distinct [of kvs]]
  by (simp add: own_properties_def property_order_idem)

lemma wf_members_iff: "wf_members h kvs \<longleftrightarrow> (\<forall>kv \<in> set kvs. wf_json h (snd kv))"
  by (induction kvs) auto

lemma set_fold_put: "set (fold (\<lambda>(k, v). put_property k v) kvs acc) \<subseteq> set acc \<union> set kvs"
proof (induction kvs arbitrary: acc)
  case Nil
  then show ?case by simp
next
  case (Cons kv kvs)
  have "set (put_property k v acc) \<subseteq> insert (k, v) (set acc)" for k and v :: 'a
    by (induction k v acc rule: put_property.induct) auto
  then show ?case using Cons [of "put_property (fst kv) (snd kv) acc"]
    by (cases kv) fastforce
qed

lemma set_own_properties: "set (own_properties kvs) \<subseteq> set kvs"
  using set_fold_put [of kvs "[]"] by (simp add: own_properties_def)

lemma normalize_json_wf:
  "numbers_ok h v \<Longrightarrow> normalize_json h v = Inr w \<Longrightarrow> wf_json h w"
  "numbers_ok_items h vs \<Longrightarrow> normalize_items h vs = Inr ws \<Longrightarrow> wf_elements h ws"
  "numbers_ok_entries h kvs \<Longrightarrow> normalize_entries h kvs = Inr kws \<Longrightarrow> wf_members h kws"
proof (induction h v and h vs and h kvs arbitrary: w and ws and kws
    rule: normalize_json_normalize_items_normalize_entries.induct)
  case (8 h kvs)
  then obtain es where es: "normalize_entries h kvs = Inr es" "wf_members h es"
    and w: "w = JObj (own_properties (sort_by (key_before h) es))"
    by (auto simp: and_then_Inr_iff)
  have "wf_members h (own_properties (sort_by (key_before h) es))"
    using es(2) set_own_properties [of "sort_by (key_before h) es"] unfolding wf_members_iff by auto
  then show ?case by (simp add: w own_properties_idem)
qed (auto simp: and_then_Inr_iff split: if_splits)

text \<open>
  A canonical text is valid JSON for exactly the normalised data: when
  \<open>canonicalJson\<close> does not throw, parsing its result yields the normalised value,
  and the text holds no raw control character (so no line break).
\<close>

theorem canonical_json_parses:
  assumes "numbers_ok h v" and "canonical_json h v = Inr t"
  shows "(\<exists>w. normalize_json h v = Inr w \<and> json_parse h t = Some w) \<and>
    (\<forall>c \<in> set t. 32 \<le> code_unit c)"
proof -
  from assms(2) obtain w where w: "normalize_json h v = Inr w" and t: "t = json_text w"
    by (auto simp: canonical_json_def and_then_Inr_iff)
  have wf: "wf_json h w" using normalize_json_wf(1) [OF assms(1) w] .
  have "json_parse h t = Some w"
    using parse_json_text(1) [OF wf] by (simp add: t json_parse_def delimited_def del: parse_value.simps)
  with w json_text_printable(1) [OF wf] show ?thesis by (auto simp: t)
qed

theorem canonical_json_parses_witness:
  "json_parse length_host ''{\"a\":[null],\"bb\":1}'' = Some (JObj [(''a'', JArr [JNull]), (''bb'', JNum ''1'')])"
proof -
  let ?v = "VObj [(''bb'', VNum ''1''), (''a'', VArr [VNull])]"
  have n: "normalize_json length_host ?v = Inr (JObj [(''a'', JArr [JNull]), (''bb'', JNum ''1'')])"
    by (simp add: length_host_def key_before_def own_properties_def property_order_def
        array_index_def digit_char_def code_unit_def)
  then have c: "canonical_json length_host ?v = Inr ''{\"a\":[null],\"bb\":1}''"
    by (simp add: canonical_json_def json_quote_def quote_char_def code_unit_def)
  have "numbers_ok length_host ?v"
    by (simp add: number_text_ok_def json_number_def json_fraction_def num_char_def digit_char_def
        code_unit_def length_host_def)
  from canonical_json_parses [OF this c] n show ?thesis by simp
qed

end
