(* ===== verification/Oracle.thy ===== *)
theory Oracle
  imports Json
begin

text \<open>
  Machine evidence and the failure oracle: the run record of
  src/src/domain/run.ts, and the oracle expressions of src/src/domain/oracle.ts
  with their schema and their evaluation.
\<close>

section \<open>Run results\<close>

record run_output_capture =
  original_bytes :: int
  capture_sha256 :: string
  capture_truncated :: bool

definition run_output_capture_ok :: "run_output_capture \<Rightarrow> bool" where
  "run_output_capture_ok c \<longleftrightarrow>
     0 \<le> original_bytes c \<and> safe_int (original_bytes c) \<and> sha256_string (capture_sha256 c)"

record run_capture =
  capture_stderr :: run_output_capture
  capture_stdout :: run_output_capture

record run_result =
  run_capture :: "run_capture option"
  run_id :: string
  run_command :: string
  run_duration_ms :: int
  run_environment_hash :: string
  run_exit_code :: int
  run_stderr :: string
  run_stdout :: string

definition run_result_ok :: "run_result \<Rightarrow> bool" where
  "run_result_ok r \<longleftrightarrow>
     pred_option (\<lambda>c. run_output_capture_ok (capture_stderr c) \<and>
       run_output_capture_ok (capture_stdout c)) (run_capture r) \<and>
     run_id r \<noteq> [] \<and> run_command r \<noteq> [] \<and> 0 \<le> run_duration_ms r \<and> safe_int (run_duration_ms r) \<and>
     run_environment_hash r \<noteq> [] \<and> safe_int (run_exit_code r)"

section \<open>Oracle expressions\<close>

datatype stream_name = Stdout | Stderr

text \<open>\<open>equals: unknown\<close> is JSON data, or absent (\<open>None\<close>).\<close>

datatype oracle_expression =
    ExitCode int
  | OutputContains stream_name string
  | OutputRegex stream_name string
  | JsonField stream_name "string list" "json option"
  | AllOf "oracle_expression list"
  | AnyOf "oracle_expression list"
  | NotOf oracle_expression

fun oracle_expression_ok :: "js_host \<Rightarrow> oracle_expression \<Rightarrow> bool" where
  "oracle_expression_ok h (ExitCode n) = safe_int n"
| "oracle_expression_ok h (OutputContains s v) = True"
| "oracle_expression_ok h (OutputRegex s p) = (length p \<le> 256 \<and> regex_ok h p)"
| "oracle_expression_ok h (JsonField s path e) = (path \<noteq> [])"
| "oracle_expression_ok h (AllOf es) = (es \<noteq> [] \<and> list_all (oracle_expression_ok h) es)"
| "oracle_expression_ok h (AnyOf es) = (es \<noteq> [] \<and> list_all (oracle_expression_ok h) es)"
| "oracle_expression_ok h (NotOf e) = oracle_expression_ok h e"

record failure_oracle =
  oracle_id :: string
  oracle_root :: oracle_expression
  oracle_version :: int

definition failure_oracle_ok :: "js_host \<Rightarrow> failure_oracle \<Rightarrow> bool" where
  "failure_oracle_ok h orc \<longleftrightarrow>
     oracle_id orc \<noteq> [] \<and> oracle_expression_ok h (oracle_root orc) \<and>
     0 < oracle_version orc \<and> safe_int (oracle_version orc)"

section \<open>Evaluation\<close>

record oracle_evaluation =
  evidence :: "string list"
  matched :: bool

definition stream_value :: "run_result \<Rightarrow> stream_name \<Rightarrow> string" where
  "stream_value r s = (if s = Stdout then run_stdout r else run_stderr r)"

text \<open>
  What a property read can see on the way along a path: undefined (or a function of
  a prototype, which behaves like it here), JSON data, or one of the two prototype
  objects that the key \<open>__proto__\<close> reaches.
\<close>

datatype js_read = ReadUndefined | ReadJson json | ReadObjectPrototype | ReadArrayPrototype

fun read_property :: "js_read \<Rightarrow> string \<Rightarrow> js_read" where
  "read_property (ReadJson (JObj kvs)) k =
     (case map_of kvs k of
        Some v \<Rightarrow> ReadJson v
      | None \<Rightarrow> if k = ''__proto__'' then ReadObjectPrototype else ReadUndefined)"
| "read_property (ReadJson (JArr vs)) k =
     (if array_index k \<and> digits_value 0 k < length vs then ReadJson (vs ! digits_value 0 k)
      else if k = ''length'' then ReadJson (JNum (nat_text (length vs)))
      else if k = ''__proto__'' then ReadArrayPrototype else ReadUndefined)"
| "read_property ReadObjectPrototype k =
     (if k = ''__proto__'' then ReadJson JNull else ReadUndefined)"
| "read_property ReadArrayPrototype k =
     (if k = ''length'' then ReadJson (JNum ''0'')
      else if k = ''__proto__'' then ReadObjectPrototype else ReadUndefined)"
| "read_property _ k = ReadUndefined"

definition json_at_path :: "json \<Rightarrow> string list \<Rightarrow> js_read" where
  "json_at_path v path = foldl read_property (ReadJson v) path"

text \<open>\<open>JSON.stringify\<close>, which yields undefined for undefined.\<close>

fun read_text :: "js_read \<Rightarrow> string option" where
  "read_text ReadUndefined = None"
| "read_text (ReadJson v) = Some (json_text v)"
| "read_text ReadObjectPrototype = Some [CHR 0x7B, CHR 0x7D]"
| "read_text ReadArrayPrototype = Some ''[]''"

definition stream_text :: "stream_name \<Rightarrow> string" where
  "stream_text s = (if s = Stdout then ''stdout'' else ''stderr'')"

fun evaluate_expression ::
  "js_host \<Rightarrow> run_result \<Rightarrow> oracle_expression \<Rightarrow> oracle_evaluation" where
  "evaluate_expression h r (ExitCode expected) =
     (let m = (run_exit_code r = expected) in
      \<lparr>evidence = [''exit code '' @ int_text (run_exit_code r) @
         (if m then '' matched '' else '' did not match '') @ int_text expected],
       matched = m\<rparr>)"
| "evaluate_expression h r (OutputContains s v) =
     (let m = has_substring v (stream_value r s) in
      \<lparr>evidence = [stream_text s @ (if m then '' contained '' else '' did not contain '') @
         json_quote v],
       matched = m\<rparr>)"
| "evaluate_expression h r (OutputRegex s p) =
     (let m = regex_test h p (stream_value r s) in
      \<lparr>evidence = [stream_text s @ (if m then '' matched /'' else '' did not match /'') @ p @ ''/''],
       matched = m\<rparr>)"
| "evaluate_expression h r (JsonField s path e) =
     (case json_parse h (stream_value r s) of
        Some parsed \<Rightarrow>
          (let m = (read_text (json_at_path parsed path) = map_option json_text e) in
           \<lparr>evidence = [stream_text s @ ''.'' @ join ''.'' path @
              (if m then '' matched'' else '' did not match'') @ '' expected value''],
            matched = m\<rparr>)
      | None \<Rightarrow> \<lparr>evidence = [stream_text s @ '' was not valid JSON''], matched = False\<rparr>)"
| "evaluate_expression h r (AllOf es) =
     (let cs = map (evaluate_expression h r) es in
      \<lparr>evidence = concat (map evidence cs), matched = list_all matched cs\<rparr>)"
| "evaluate_expression h r (AnyOf es) =
     (let cs = map (evaluate_expression h r) es in
      \<lparr>evidence = concat (map evidence cs), matched = list_ex matched cs\<rparr>)"
| "evaluate_expression h r (NotOf e) =
     (let c = evaluate_expression h r e in
      \<lparr>evidence = map (\<lambda>item. ''not ('' @ item @ '')'') (evidence c), matched = \<not> matched c\<rparr>)"

datatype oracle_error = OracleSchema

definition evaluate_oracle ::
  "js_host \<Rightarrow> failure_oracle \<Rightarrow> run_result \<Rightarrow> oracle_error + oracle_evaluation" where
  "evaluate_oracle h orc r =
     and_then (parse_as (failure_oracle_ok h) OracleSchema orc) (\<lambda>parsed.
       Inr (evaluate_expression h r (oracle_root parsed)))"

section \<open>Meaning of an expression\<close>

text \<open>
  The specification of evaluation: when an expression holds of a run, written
  without evidence.
\<close>

fun holds :: "js_host \<Rightarrow> run_result \<Rightarrow> oracle_expression \<Rightarrow> bool" where
  "holds h r (ExitCode n) \<longleftrightarrow> run_exit_code r = n"
| "holds h r (OutputContains s v) \<longleftrightarrow> (\<exists>a b. stream_value r s = a @ v @ b)"
| "holds h r (OutputRegex s p) \<longleftrightarrow> regex_test h p (stream_value r s)"
| "holds h r (JsonField s path e) \<longleftrightarrow>
     (\<exists>v. json_parse h (stream_value r s) = Some v \<and>
        read_text (json_at_path v path) = map_option json_text e)"
| "holds h r (AllOf es) \<longleftrightarrow> (\<forall>e \<in> set es. holds h r e)"
| "holds h r (AnyOf es) \<longleftrightarrow> (\<exists>e \<in> set es. holds h r e)"
| "holds h r (NotOf e) \<longleftrightarrow> \<not> holds h r e"

fun leaves :: "oracle_expression \<Rightarrow> nat" where
  "leaves (AllOf es) = sum_list (map leaves es)"
| "leaves (AnyOf es) = sum_list (map leaves es)"
| "leaves (NotOf e) = leaves e"
| "leaves _ = 1"

lemma matched_iff_holds: "matched (evaluate_expression h r e) \<longleftrightarrow> holds h r e"
  by (induction h r e rule: evaluate_expression.induct)
     (auto simp: Let_def has_substring_iff list_all_iff list_ex_iff split: option.splits)

lemma evidence_length: "length (evidence (evaluate_expression h r e)) = leaves e"
  by (induction h r e rule: evaluate_expression.induct)
     (auto simp: Let_def length_concat comp_def split: option.splits
       intro!: arg_cong [where f = sum_list])

lemma leaves_positive: "oracle_expression_ok h e \<Longrightarrow> 0 < leaves e"
proof (induction e)
  case (AllOf es)
  then show ?case by (cases es) auto
next
  case (AnyOf es)
  then show ?case by (cases es) auto
qed auto

text \<open>
  C37. Evaluation decides the meaning of the oracle: on a schema-valid oracle it
  never throws, it matches exactly when the expression holds of the run, and it
  gives one line of evidence per leaf, so never none. An invalid oracle is refused.
\<close>

theorem evaluate_oracle_decides:
  "(failure_oracle_ok h orc \<longrightarrow>
     (\<exists>ev. evaluate_oracle h orc r = Inr ev \<and> (matched ev \<longleftrightarrow> holds h r (oracle_root orc)) \<and>
        length (evidence ev) = leaves (oracle_root orc) \<and> evidence ev \<noteq> [])) \<and>
   (\<not> failure_oracle_ok h orc \<longrightarrow> evaluate_oracle h orc r = Inl OracleSchema)"
proof -
  have "evidence (evaluate_expression h r (oracle_root orc)) \<noteq> []"
    if "failure_oracle_ok h orc"
    using that leaves_positive [of h "oracle_root orc"] evidence_length [of h r "oracle_root orc"]
    by (auto simp: failure_oracle_ok_def)
  then show ?thesis
    by (auto simp: evaluate_oracle_def matched_iff_holds evidence_length)
qed

text \<open>
  The trusted sample's oracle on its failing run. The regular-expression engine is
  instantiated by substring search.
\<close>

definition plain_host :: js_host where
  "plain_host = \<lparr>regex_ok = (\<lambda>_. True), regex_test = (\<lambda>p s. has_substring p s),
     num_canon = (\<lambda>t. t), collate = (\<lambda>a b. length a \<le> length b),
     sha256_hex = (\<lambda>s. replicate 64 (CHR ''0'')),
     utf8_decode = Some, nfc = (\<lambda>s. s), parse_url = (\<lambda>_. None)\<rparr>"

definition cli_spaces_oracle :: failure_oracle where
  "cli_spaces_oracle =
     \<lparr>oracle_id = ''oracle-cli-spaces'',
      oracle_root = AllOf [ExitCode 1, OutputContains Stderr ''ENOENT''],
      oracle_version = 1\<rparr>"

definition cli_spaces_reproduce :: run_result where
  "cli_spaces_reproduce =
     \<lparr>run_capture = None, run_id = ''fixture-reproduce'', run_command = ''reproduce'',
      run_duration_ms = 12, run_environment_hash = ''fixture-cli-spaces-v1'', run_exit_code = 1,
      run_stderr = ''Error: ENOENT: config path contains spaces'', run_stdout = ''''\<rparr>"

definition cli_spaces_control :: run_result where
  "cli_spaces_control =
     \<lparr>run_capture = None, run_id = ''fixture-control'', run_command = ''control'',
      run_duration_ms = 8, run_environment_hash = ''fixture-cli-spaces-v1'', run_exit_code = 0,
      run_stderr = '''', run_stdout = ''Loaded config from ./fixtures/config.json''\<rparr>"

lemma cli_spaces_oracle_ok: "failure_oracle_ok h cli_spaces_oracle"
  by (simp add: failure_oracle_ok_def cli_spaces_oracle_def safe_int_def max_safe_integer_def)

lemma cli_spaces_runs_ok: "run_result_ok cli_spaces_reproduce" "run_result_ok cli_spaces_control"
  by (simp_all add: run_result_ok_def cli_spaces_reproduce_def cli_spaces_control_def safe_int_def
      max_safe_integer_def)

lemma cli_spaces_reproduce_matches:
  "matched (evaluate_expression h cli_spaces_reproduce (oracle_root cli_spaces_oracle))"
  by (simp add: cli_spaces_oracle_def cli_spaces_reproduce_def stream_value_def)

lemma cli_spaces_control_clear:
  "\<not> matched (evaluate_expression h cli_spaces_control (oracle_root cli_spaces_oracle))"
  by (simp add: cli_spaces_oracle_def cli_spaces_control_def)

theorem evaluate_oracle_decides_witness:
  "\<exists>ev. evaluate_oracle plain_host cli_spaces_oracle cli_spaces_reproduce = Inr ev \<and> matched ev \<and>
     length (evidence ev) = 2"
proof -
  have "failure_oracle_ok plain_host cli_spaces_oracle" by (rule cli_spaces_oracle_ok)
  moreover have "holds plain_host cli_spaces_reproduce (oracle_root cli_spaces_oracle)"
    using cli_spaces_reproduce_matches matched_iff_holds by blast
  moreover have "leaves (oracle_root cli_spaces_oracle) = 2"
    by (simp add: cli_spaces_oracle_def)
  ultimately show ?thesis
    using evaluate_oracle_decides [of plain_host cli_spaces_oracle cli_spaces_reproduce] by auto
qed

end
