(* ===== verification/Verification.thy ===== *)
theory Verification
  imports Oracle
begin

text \<open>
  The verdict of src/src/domain/verification.ts: how a control run and candidate
  runs under one oracle become VERIFIED, UNSTABLE, NOT_REPRODUCED or BLOCKED.
  The ratio \<open>repeatability\<close> is the exact quotient; the program's double equals 0
  or 1 in exactly the same cases.
\<close>

datatype verification_status = StatusVerified | StatusUnstable | StatusNotReproduced | StatusBlocked

record verification_summary =
  candidate_matches :: int
  control_matched :: bool
  summary_oracle_id :: string
  summary_oracle_version :: int
  summary_reason :: string
  repeatability :: rat
  required_runs :: int
  summary_status :: verification_status
  total_candidate_runs :: int

definition verification_summary_ok :: "verification_summary \<Rightarrow> bool" where
  "verification_summary_ok s \<longleftrightarrow>
     0 \<le> candidate_matches s \<and> safe_int (candidate_matches s) \<and> summary_oracle_id s \<noteq> [] \<and>
     0 < summary_oracle_version s \<and> safe_int (summary_oracle_version s) \<and>
     summary_reason s \<noteq> [] \<and> 0 \<le> repeatability s \<and> repeatability s \<le> 1 \<and>
     0 < required_runs s \<and> safe_int (required_runs s) \<and>
     0 \<le> total_candidate_runs s \<and> safe_int (total_candidate_runs s)"

text \<open>\<open>requiredRuns\<close> may be absent; the schema's default is 3.\<close>

record verification_input =
  input_oracle :: failure_oracle
  input_control :: run_result
  input_candidates :: "run_result list"
  input_required_runs :: "int option"

definition required_or_default :: "verification_input \<Rightarrow> int" where
  "required_or_default i = (case input_required_runs i of None \<Rightarrow> 3 | Some n \<Rightarrow> n)"

definition verification_input_ok :: "js_host \<Rightarrow> verification_input \<Rightarrow> bool" where
  "verification_input_ok h i \<longleftrightarrow>
     failure_oracle_ok h (input_oracle i) \<and> run_result_ok (input_control i) \<and>
     list_all run_result_ok (input_candidates i) \<and>
     0 < required_or_default i \<and> safe_int (required_or_default i)"

datatype verification_error = VerificationInputSchema | VerificationOracle | VerificationSummarySchema

definition oracle_matched ::
  "js_host \<Rightarrow> failure_oracle \<Rightarrow> run_result \<Rightarrow> verification_error + bool" where
  "oracle_matched h orc r =
     (case evaluate_oracle h orc r of
        Inl _ \<Rightarrow> Inl VerificationOracle
      | Inr ev \<Rightarrow> Inr (matched ev))"

definition verdict ::
  "bool \<Rightarrow> string list \<Rightarrow> int \<Rightarrow> int \<Rightarrow> int \<Rightarrow> verification_status \<times> string" where
  "verdict ctl environment_hashes runs required matches =
     (if ctl
      then (StatusBlocked, ''The failure oracle also matched the negative control.'')
      else if card (set environment_hashes) \<noteq> 1
      then (StatusBlocked, ''Verification runs did not use one pinned environment.'')
      else if runs \<ge> required \<and> matches = runs
      then (StatusVerified, ''The oracle matched all '' @ int_text runs @
        '' clean candidate runs and did not match the control.'')
      else if matches > 0
      then (StatusUnstable, ''The oracle matched '' @ int_text matches @ '' of '' @ int_text runs @
        '' candidate runs.'')
      else (StatusNotReproduced, ''The oracle matched none of '' @ int_text runs @
        '' candidate runs.''))"

definition verify_reproduction ::
  "js_host \<Rightarrow> verification_input \<Rightarrow> verification_error + verification_summary" where
  "verify_reproduction h input =
     and_then (parse_as (verification_input_ok h) VerificationInputSchema input) (\<lambda>parsed.
     and_then (oracle_matched h (input_oracle parsed) (input_control parsed)) (\<lambda>ctl.
     and_then (collect (oracle_matched h (input_oracle parsed)) (input_candidates parsed)) (\<lambda>ms.
       let matches = int (length (filter (\<lambda>m. m) ms));
           runs = int (length (input_candidates parsed));
           hashes = run_environment_hash (input_control parsed) #
             map run_environment_hash (input_candidates parsed);
           (status, reason) = verdict ctl hashes runs (required_or_default parsed) matches
       in parse_as verification_summary_ok VerificationSummarySchema
            \<lparr>candidate_matches = matches,
             control_matched = ctl,
             summary_oracle_id = oracle_id (input_oracle parsed),
             summary_oracle_version = oracle_version (input_oracle parsed),
             summary_reason = reason,
             repeatability = (if runs = 0 then 0 else of_int matches / of_int runs),
             required_runs = required_or_default parsed,
             summary_status = status,
             total_candidate_runs = runs\<rparr>)))"

section \<open>The result in closed form\<close>

definition run_matches :: "js_host \<Rightarrow> failure_oracle \<Rightarrow> run_result \<Rightarrow> bool" where
  "run_matches h orc r \<longleftrightarrow> holds h r (oracle_root orc)"

definition pinned_environment :: "verification_input \<Rightarrow> bool" where
  "pinned_environment i \<longleftrightarrow>
     (\<forall>r \<in> set (input_candidates i).
        run_environment_hash r = run_environment_hash (input_control i))"

lemma oracle_matched_ok:
  "failure_oracle_ok h orc \<Longrightarrow> oracle_matched h orc r = Inr (run_matches h orc r)"
  by (simp add: oracle_matched_def evaluate_oracle_def matched_iff_holds run_matches_def)

lemma card_environment:
  "card (set (a # as)) = 1 \<longleftrightarrow> (\<forall>x \<in> set as. x = a)"
proof -
  have "card (insert a (set as)) = 1 \<longleftrightarrow> insert a (set as) = {a}"
    by (auto simp: card_1_singleton_iff)
  then show ?thesis by auto
qed

lemma pinned_environment_card:
  "card (set (run_environment_hash (input_control i) #
     map run_environment_hash (input_candidates i))) = 1 \<longleftrightarrow> pinned_environment i"
  unfolding card_environment by (auto simp: pinned_environment_def)

definition matching_candidates :: "js_host \<Rightarrow> verification_input \<Rightarrow> run_result list" where
  "matching_candidates h i = filter (run_matches h (input_oracle i)) (input_candidates i)"

definition expected_summary :: "js_host \<Rightarrow> verification_input \<Rightarrow> verification_summary" where
  "expected_summary h i =
     (let matches = int (length (matching_candidates h i));
          runs = int (length (input_candidates i));
          v = verdict (run_matches h (input_oracle i) (input_control i))
                (run_environment_hash (input_control i) #
                   map run_environment_hash (input_candidates i))
                runs (required_or_default i) matches
      in \<lparr>candidate_matches = matches,
          control_matched = run_matches h (input_oracle i) (input_control i),
          summary_oracle_id = oracle_id (input_oracle i),
          summary_oracle_version = oracle_version (input_oracle i),
          summary_reason = snd v,
          repeatability = (if runs = 0 then 0 else of_int matches / of_int runs),
          required_runs = required_or_default i,
          summary_status = fst v,
          total_candidate_runs = runs\<rparr>)"

definition small_input :: "verification_input \<Rightarrow> bool" where
  "small_input i \<longleftrightarrow> safe_int (int (length (input_candidates i)))"

lemma verdict_reason [simp]: "snd (verdict c hs t r m) \<noteq> []"
  by (simp add: verdict_def)

lemma expected_summary_ok:
  assumes "verification_input_ok h i" and "small_input i"
  shows "verification_summary_ok (expected_summary h i)"
proof -
  let ?m = "length (matching_candidates h i)" and ?t = "length (input_candidates i)"
  have le: "?m \<le> ?t" by (simp add: matching_candidates_def)
  have frac: "(of_nat ?m :: rat) / of_nat ?t \<le> 1"
    using le by (simp add: divide_le_eq_1)
  show ?thesis
    using assms le frac
    by (simp add: verification_summary_ok_def expected_summary_def Let_def verification_input_ok_def
        failure_oracle_ok_def small_input_def safe_int_def)
qed

lemma verify_reproduction_valid:
  assumes "verification_input_ok h i"
  shows "verify_reproduction h i =
     parse_as verification_summary_ok VerificationSummarySchema (expected_summary h i)"
proof -
  have orc: "failure_oracle_ok h (input_oracle i)" using assms by (simp add: verification_input_ok_def)
  have "collect (oracle_matched h (input_oracle i)) (input_candidates i) =
      Inr (map (run_matches h (input_oracle i)) (input_candidates i))"
    using orc by (intro collect_total) (simp add: oracle_matched_ok)
  moreover have "length (filter (\<lambda>m. m) (map (run_matches h (input_oracle i)) (input_candidates i))) =
      length (matching_candidates h i)"
    by (simp add: matching_candidates_def filter_map comp_def)
  ultimately show ?thesis
    using assms orc
    by (simp add: verify_reproduction_def oracle_matched_ok expected_summary_def Let_def
        case_prod_unfold)
qed

lemma verify_reproduction_eq:
  assumes "verification_input_ok h i" and "small_input i"
  shows "verify_reproduction h i = Inr (expected_summary h i)"
  using verify_reproduction_valid [OF assms(1)] expected_summary_ok [OF assms] by simp

lemma verify_reproduction_invalid:
  "\<not> verification_input_ok h i \<Longrightarrow> verify_reproduction h i = Inl VerificationInputSchema"
  by (simp add: verify_reproduction_def)

lemma length_filter_all: "length (filter P xs) = length xs \<longleftrightarrow> (\<forall>x \<in> set xs. P x)"
  by (metis filter_id_conv length_filter_less less_irrefl)

lemma expected_status:
  "summary_status (expected_summary h i) =
     (if run_matches h (input_oracle i) (input_control i) \<or> \<not> pinned_environment i
      then StatusBlocked
      else if required_or_default i \<le> int (length (input_candidates i)) \<and>
        (\<forall>r \<in> set (input_candidates i). run_matches h (input_oracle i) r)
      then StatusVerified
      else if \<exists>r \<in> set (input_candidates i). run_matches h (input_oracle i) r
      then StatusUnstable
      else StatusNotReproduced)"
proof -
  have all: "int (length (matching_candidates h i)) = int (length (input_candidates i)) \<longleftrightarrow>
      (\<forall>r \<in> set (input_candidates i). run_matches h (input_oracle i) r)"
    by (simp add: matching_candidates_def length_filter_all)
  have some: "0 < int (length (matching_candidates h i)) \<longleftrightarrow>
      (\<exists>r \<in> set (input_candidates i). run_matches h (input_oracle i) r)"
    by (simp add: matching_candidates_def filter_empty_conv)
  have "fst (verdict c hs t r m) =
      (if c \<or> card (set hs) \<noteq> 1 then StatusBlocked
       else if r \<le> t \<and> m = t then StatusVerified
       else if 0 < m then StatusUnstable else StatusNotReproduced)" for c hs t r m
    by (simp add: verdict_def)
  then show ?thesis
    by (simp only: expected_summary_def Let_def verification_summary.simps pinned_environment_card
        all some)
qed

text \<open>
  C1. The verdict is VERIFIED exactly when the oracle does not hold of the control,
  every run has the control's environment hash, there are at least the required
  number of candidates, and the oracle holds of every candidate. A schema-valid
  input with a representable number of candidates always gets a schema-valid
  summary: the function does not throw.
\<close>

theorem verified_iff_all_candidates_match:
  assumes "verification_input_ok h i" and "small_input i"
  shows "\<exists>s. verify_reproduction h i = Inr s \<and> verification_summary_ok s \<and>
    (summary_status s = StatusVerified \<longleftrightarrow>
      \<not> holds h (input_control i) (oracle_root (input_oracle i)) \<and>
      (\<forall>r \<in> set (input_candidates i).
         run_environment_hash r = run_environment_hash (input_control i)) \<and>
      required_or_default i \<le> int (length (input_candidates i)) \<and>
      (\<forall>r \<in> set (input_candidates i). holds h r (oracle_root (input_oracle i))))"
  using verify_reproduction_eq [OF assms] expected_summary_ok [OF assms]
  by (auto simp: expected_status run_matches_def pinned_environment_def)

definition cli_spaces_input :: verification_input where
  "cli_spaces_input =
     \<lparr>input_oracle = cli_spaces_oracle, input_control = cli_spaces_control,
      input_candidates = replicate 3 cli_spaces_reproduce, input_required_runs = None\<rparr>"

lemma cli_spaces_input_ok: "verification_input_ok h cli_spaces_input"
  using cli_spaces_runs_ok
  by (simp add: verification_input_ok_def cli_spaces_input_def cli_spaces_oracle_ok
      required_or_default_def safe_int_def max_safe_integer_def list_all_iff)

lemma cli_spaces_input_small: "small_input cli_spaces_input"
  by (simp add: small_input_def cli_spaces_input_def safe_int_def max_safe_integer_def)

lemma cli_spaces_holds:
  "holds h cli_spaces_reproduce (oracle_root cli_spaces_oracle)"
  "\<not> holds h cli_spaces_control (oracle_root cli_spaces_oracle)"
  using cli_spaces_reproduce_matches [of h] cli_spaces_control_clear [of h]
  by (simp_all add: matched_iff_holds)

theorem verified_iff_all_candidates_match_witness:
  "\<exists>s. verify_reproduction plain_host cli_spaces_input = Inr s \<and> summary_status s = StatusVerified"
proof -
  obtain s where "verify_reproduction plain_host cli_spaces_input = Inr s"
    and "summary_status s = StatusVerified \<longleftrightarrow>
      \<not> holds plain_host (input_control cli_spaces_input) (oracle_root (input_oracle cli_spaces_input)) \<and>
      (\<forall>r \<in> set (input_candidates cli_spaces_input).
         run_environment_hash r = run_environment_hash (input_control cli_spaces_input)) \<and>
      required_or_default cli_spaces_input \<le> int (length (input_candidates cli_spaces_input)) \<and>
      (\<forall>r \<in> set (input_candidates cli_spaces_input).
         holds plain_host r (oracle_root (input_oracle cli_spaces_input)))"
    using verified_iff_all_candidates_match [OF cli_spaces_input_ok [of plain_host] cli_spaces_input_small]
    by blast
  moreover have "input_oracle cli_spaces_input = cli_spaces_oracle"
    "input_control cli_spaces_input = cli_spaces_control"
    "set (input_candidates cli_spaces_input) = {cli_spaces_reproduce}"
    "length (input_candidates cli_spaces_input) = 3" "required_or_default cli_spaces_input = 3"
    "run_environment_hash cli_spaces_reproduce = run_environment_hash cli_spaces_control"
    by (simp_all add: cli_spaces_input_def required_or_default_def cli_spaces_reproduce_def
        cli_spaces_control_def)
  ultimately show ?thesis using cli_spaces_holds by auto
qed

text \<open>
  The verdicts partition the inputs: BLOCKED exactly when the control matches or
  the environments differ; otherwise NOT_REPRODUCED when no candidate matches, and
  UNSTABLE when some match but not all of at least the required number. The ratio is
  the share of matching candidates, 0 when there are none.
\<close>

theorem verdicts_partition:
  assumes "verification_input_ok h i" and "small_input i"
  shows "\<exists>s. verify_reproduction h i = Inr s \<and>
    (summary_status s = StatusBlocked \<longleftrightarrow>
       run_matches h (input_oracle i) (input_control i) \<or> \<not> pinned_environment i) \<and>
    (summary_status s = StatusNotReproduced \<longleftrightarrow>
       summary_status s \<noteq> StatusBlocked \<and> matching_candidates h i = []) \<and>
    (summary_status s = StatusUnstable \<longleftrightarrow>
       summary_status s \<noteq> StatusBlocked \<and> matching_candidates h i \<noteq> [] \<and>
       (length (matching_candidates h i) < length (input_candidates i) \<or>
        int (length (input_candidates i)) < required_or_default i)) \<and>
    repeatability s * of_int (total_candidate_runs s) = of_int (candidate_matches s)"
proof -
  let ?s = "expected_summary h i"
  have req: "0 < required_or_default i" using assms(1) by (simp add: verification_input_ok_def)
  have none: "matching_candidates h i = [] \<longleftrightarrow>
      (\<forall>r \<in> set (input_candidates i). \<not> run_matches h (input_oracle i) r)"
    by (auto simp: matching_candidates_def filter_empty_conv)
  have all: "length (matching_candidates h i) < length (input_candidates i) \<longleftrightarrow>
      \<not> (\<forall>r \<in> set (input_candidates i). run_matches h (input_oracle i) r)"
    using length_filter_all [of "run_matches h (input_oracle i)" "input_candidates i"]
      length_filter_le [of "run_matches h (input_oracle i)" "input_candidates i"]
    by (simp add: matching_candidates_def nat_less_le)
  have empty: "matching_candidates h i = []" if "input_candidates i = []"
    using that by (simp add: matching_candidates_def)
  have ratio: "repeatability ?s * of_int (total_candidate_runs ?s) = of_int (candidate_matches ?s)"
    using empty by (simp add: expected_summary_def Let_def)
  have "input_candidates i \<noteq> []" if "required_or_default i \<le> int (length (input_candidates i))"
    using that req by auto
  then show ?thesis
    unfolding verify_reproduction_eq [OF assms]
    by (intro exI [of _ ?s]) (auto simp: expected_status none all ratio not_le neq_Nil_conv)
qed

theorem verdicts_partition_witness:
  "\<exists>s. verify_reproduction plain_host cli_spaces_input = Inr s \<and>
     summary_status s \<noteq> StatusBlocked \<and> summary_status s \<noteq> StatusNotReproduced"
proof -
  have "\<not> run_matches plain_host (input_oracle cli_spaces_input) (input_control cli_spaces_input)"
    "pinned_environment cli_spaces_input" "matching_candidates plain_host cli_spaces_input \<noteq> []"
    using cli_spaces_holds
    by (auto simp: run_matches_def cli_spaces_input_def pinned_environment_def
        matching_candidates_def cli_spaces_reproduce_def cli_spaces_control_def)
  then show ?thesis
    using verdicts_partition [OF cli_spaces_input_ok [of plain_host] cli_spaces_input_small] by blast
qed

text \<open>
  The summary does not depend on the order in which the candidates ran.
\<close>

theorem verdict_ignores_candidate_order:
  assumes "mset candidates = mset (input_candidates i)"
  shows "verify_reproduction h (i\<lparr>input_candidates := candidates\<rparr>) = verify_reproduction h i"
proof -
  let ?j = "i\<lparr>input_candidates := candidates\<rparr>"
  have set_eq: "set candidates = set (input_candidates i)" using assms by (metis set_mset_mset)
  have len: "length candidates = length (input_candidates i)" using assms by (metis size_mset)
  have req: "required_or_default ?j = required_or_default i" by (simp add: required_or_default_def)
  have ok: "verification_input_ok h ?j \<longleftrightarrow> verification_input_ok h i"
    by (simp add: verification_input_ok_def req list_all_iff set_eq)
  show ?thesis
  proof (cases "verification_input_ok h i")
    case False
    then show ?thesis using ok by (simp add: verify_reproduction_invalid)
  next
    case True
    have "length (filter (run_matches h (input_oracle i)) candidates) =
        length (filter (run_matches h (input_oracle i)) (input_candidates i))"
      using assms by (metis mset_filter size_mset)
    moreover have "candidates = [] \<longleftrightarrow> input_candidates i = []"
      using len by auto
    moreover have "verdict c (e # map run_environment_hash candidates) =
        verdict c (e # map run_environment_hash (input_candidates i))" for c e
      by (simp add: verdict_def set_eq fun_eq_iff)
    ultimately have "expected_summary h ?j = expected_summary h i"
      by (simp add: expected_summary_def matching_candidates_def Let_def len req)
    then show ?thesis
      using True ok by (simp add: verify_reproduction_valid)
  qed
qed

theorem verdict_ignores_candidate_order_witness:
  "verify_reproduction plain_host
     (cli_spaces_input\<lparr>input_candidates := [cli_spaces_control, cli_spaces_reproduce]\<rparr>) =
   verify_reproduction plain_host
     (cli_spaces_input\<lparr>input_candidates := [cli_spaces_reproduce, cli_spaces_control]\<rparr>)"
  using verdict_ignores_candidate_order
    [of "[cli_spaces_control, cli_spaces_reproduce]"
      "cli_spaces_input\<lparr>input_candidates := [cli_spaces_reproduce, cli_spaces_control]\<rparr>"
      plain_host]
  by simp

end
