(* ===== verification/Minimization.thy ===== *)
theory Minimization
  imports Verification
begin

text \<open>
  src/src/domain/minimization.ts: proposals to drop inputs from a verified
  reproduction, their evaluation on fresh runs, and the choice of the accepted
  reduction.
\<close>

record minimization_proposal =
  proposal_candidates :: "run_result list"
  proposal_control :: run_result
  proposal_description :: string
  proposal_id :: string
  proposal_removed :: "string list"

definition minimization_proposal_ok :: "minimization_proposal \<Rightarrow> bool" where
  "minimization_proposal_ok p \<longleftrightarrow>
     list_all run_result_ok (proposal_candidates p) \<and> run_result_ok (proposal_control p) \<and>
     proposal_description p \<noteq> [] \<and> proposal_id p \<noteq> [] \<and>
     list_all (\<lambda>s. s \<noteq> []) (proposal_removed p) \<and> proposal_removed p \<noteq> [] \<and>
     card (set (proposal_removed p)) = length (proposal_removed p)"

record minimization_evaluation =
  evaluation_id :: string
  evaluation_removed :: "string list"
  evaluation_summary :: verification_summary

definition minimization_evaluation_ok :: "minimization_evaluation \<Rightarrow> bool" where
  "minimization_evaluation_ok e \<longleftrightarrow>
     evaluation_id e \<noteq> [] \<and> list_all (\<lambda>s. s \<noteq> []) (evaluation_removed e) \<and>
     evaluation_removed e \<noteq> [] \<and> verification_summary_ok (evaluation_summary e)"

datatype minimization_claim = LocallyMinimized | BaselineRetained

record minimization_result =
  accepted_reduction_id :: "string option"
  accepted_removed_inputs :: "string list"
  minimization_claim :: minimization_claim
  evaluations :: "minimization_evaluation list"

text \<open>The refinement of the result schema, on a result whose fields are well-formed.\<close>

definition minimization_result_refined :: "minimization_result \<Rightarrow> bool" where
  "minimization_result_refined r \<longleftrightarrow>
     (case accepted_reduction_id r of
        None \<Rightarrow> minimization_claim r = BaselineRetained \<and> accepted_removed_inputs r = []
      | Some rid \<Rightarrow>
          (case find (\<lambda>e. evaluation_id e = rid) (evaluations r) of
             None \<Rightarrow> False
           | Some e \<Rightarrow> summary_status (evaluation_summary e) = StatusVerified) \<and>
          minimization_claim r = LocallyMinimized)"

definition minimization_result_ok :: "minimization_result \<Rightarrow> bool" where
  "minimization_result_ok r \<longleftrightarrow>
     pred_option (\<lambda>i. i \<noteq> []) (accepted_reduction_id r) \<and>
     list_all (\<lambda>s. s \<noteq> []) (accepted_removed_inputs r) \<and>
     list_all minimization_evaluation_ok (evaluations r) \<and>
     minimization_result_refined r"

record minimization_input =
  baseline_candidates :: "run_result list"
  baseline_control :: run_result
  min_oracle :: failure_oracle
  min_proposals :: "minimization_proposal list"
  min_required_runs :: "int option"

definition min_required :: "minimization_input \<Rightarrow> int" where
  "min_required i = (case min_required_runs i of None \<Rightarrow> 3 | Some n \<Rightarrow> n)"

definition minimization_input_ok :: "js_host \<Rightarrow> minimization_input \<Rightarrow> bool" where
  "minimization_input_ok h i \<longleftrightarrow>
     list_all run_result_ok (baseline_candidates i) \<and> run_result_ok (baseline_control i) \<and>
     failure_oracle_ok h (min_oracle i) \<and> list_all minimization_proposal_ok (min_proposals i) \<and>
     0 < min_required i \<and> safe_int (min_required i)"

datatype minimization_error =
    MinimizationInputSchema
  | MinimizationVerification verification_error
  | MinimizationUnverifiedBaseline
  | MinimizationResultSchema

definition verify_for ::
  "js_host \<Rightarrow> minimization_input \<Rightarrow> run_result \<Rightarrow> run_result list
     \<Rightarrow> minimization_error + verification_summary" where
  "verify_for h i ctl cs =
     (case verify_reproduction h
        \<lparr>input_oracle = min_oracle i, input_control = ctl, input_candidates = cs,
         input_required_runs = Some (min_required i)\<rparr> of
        Inl e \<Rightarrow> Inl (MinimizationVerification e)
      | Inr s \<Rightarrow> Inr s)"

definition evaluate_proposal ::
  "js_host \<Rightarrow> minimization_input \<Rightarrow> minimization_proposal
     \<Rightarrow> minimization_error + minimization_evaluation" where
  "evaluate_proposal h i p =
     and_then (verify_for h i (proposal_control p) (proposal_candidates p)) (\<lambda>s.
       Inr \<lparr>evaluation_id = proposal_id p, evaluation_removed = proposal_removed p,
            evaluation_summary = s\<rparr>)"

text \<open>More removed inputs first, then the collation of the identifiers.\<close>

definition reduction_before ::
  "js_host \<Rightarrow> minimization_evaluation \<Rightarrow> minimization_evaluation \<Rightarrow> bool" where
  "reduction_before h l r \<longleftrightarrow>
     length (evaluation_removed r) < length (evaluation_removed l) \<or>
     length (evaluation_removed r) = length (evaluation_removed l) \<and>
       collate h (evaluation_id l) (evaluation_id r)"

definition accepted_evaluation ::
  "js_host \<Rightarrow> minimization_evaluation list \<Rightarrow> minimization_evaluation option" where
  "accepted_evaluation h es =
     (case sort_by (reduction_before h)
        (filter (\<lambda>e. summary_status (evaluation_summary e) = StatusVerified) es) of
        [] \<Rightarrow> None
      | e # _ \<Rightarrow> Some e)"

definition minimize_reproduction ::
  "js_host \<Rightarrow> minimization_input \<Rightarrow> minimization_error + minimization_result" where
  "minimize_reproduction h raw =
     and_then (parse_as (minimization_input_ok h) MinimizationInputSchema raw) (\<lambda>i.
     and_then (verify_for h i (baseline_control i) (baseline_candidates i)) (\<lambda>b.
     and_then (check (summary_status b = StatusVerified) MinimizationUnverifiedBaseline) (\<lambda>_.
     and_then (collect (evaluate_proposal h i) (min_proposals i)) (\<lambda>es.
       let acc = accepted_evaluation h es in
       parse_as minimization_result_ok MinimizationResultSchema
         \<lparr>accepted_reduction_id = map_option evaluation_id acc,
          accepted_removed_inputs = (case acc of None \<Rightarrow> [] | Some e \<Rightarrow> evaluation_removed e),
          minimization_claim = (if acc = None then BaselineRetained else LocallyMinimized),
          evaluations = es\<rparr>))))"

section \<open>The accepted reduction\<close>

lemma reduction_before_comparator:
  assumes "comparator_order (collate h)"
  shows "comparator_order (reduction_before h)"
proof -
  from assms have t: "collate h a b \<or> collate h b a" and tr: "collate h a b \<Longrightarrow> collate h b c
      \<Longrightarrow> collate h a c" for a b c
    unfolding comparator_order_def by blast+
  show ?thesis
  proof
    fix x y show "reduction_before h x y \<or> reduction_before h y x"
      using t by (auto simp: reduction_before_def)
  next
    fix x y z assume "reduction_before h x y" "reduction_before h y z"
    then show "reduction_before h x z"
      using tr by (fastforce simp: reduction_before_def)
  qed
qed

lemma accepted_None_iff:
  "accepted_evaluation h es = None \<longleftrightarrow>
     (\<forall>e \<in> set es. summary_status (evaluation_summary e) \<noteq> StatusVerified)"
proof -
  let ?vs = "filter (\<lambda>e. summary_status (evaluation_summary e) = StatusVerified) es"
  have "accepted_evaluation h es = None \<longleftrightarrow> sort_by (reduction_before h) ?vs = []"
    by (simp add: accepted_evaluation_def split: list.split del: sort_by_Nil_iff)
  then show ?thesis by (simp add: filter_empty_conv)
qed

lemma accepted_first:
  assumes "accepted_evaluation h es = Some e"
  obtains rest where "sort_by (reduction_before h)
    (filter (\<lambda>e. summary_status (evaluation_summary e) = StatusVerified) es) = e # rest"
  using assms by (simp add: accepted_evaluation_def split: list.splits)

lemma accepted_Some:
  assumes "accepted_evaluation h es = Some e"
  shows "e \<in> set es" and "summary_status (evaluation_summary e) = StatusVerified"
proof -
  obtain rest where "sort_by (reduction_before h)
    (filter (\<lambda>e. summary_status (evaluation_summary e) = StatusVerified) es) = e # rest"
    using assms by (rule accepted_first)
  from sort_by_Cons_in [OF this]
  show "e \<in> set es" and "summary_status (evaluation_summary e) = StatusVerified" by simp_all
qed

lemma accepted_maximal:
  assumes "comparator_order (collate h)" and "accepted_evaluation h es = Some e"
    and "e' \<in> set es" and "summary_status (evaluation_summary e') = StatusVerified"
  shows "length (evaluation_removed e') \<le> length (evaluation_removed e)"
proof -
  obtain rest where first: "sort_by (reduction_before h)
    (filter (\<lambda>e. summary_status (evaluation_summary e) = StatusVerified) es) = e # rest"
    using assms(2) by (rule accepted_first)
  have "reduction_before h e e'"
    using assms(3,4)
    by (intro comparator_order.first_is_least [OF reduction_before_comparator [OF assms(1)] first])
       simp
  then show ?thesis by (auto simp: reduction_before_def)
qed

lemma find_by_id:
  "distinct (map evaluation_id es) \<Longrightarrow> e \<in> set es \<Longrightarrow>
     find (\<lambda>x. evaluation_id x = evaluation_id e) es = Some e"
  by (induction es) (auto simp: image_iff)

definition small_runs :: "minimization_input \<Rightarrow> bool" where
  "small_runs i \<longleftrightarrow>
     safe_int (int (length (baseline_candidates i))) \<and>
     (\<forall>p \<in> set (min_proposals i). safe_int (int (length (proposal_candidates p))))"

definition proposal_input ::
  "minimization_input \<Rightarrow> run_result \<Rightarrow> run_result list \<Rightarrow> verification_input" where
  "proposal_input i ctl cs =
     \<lparr>input_oracle = min_oracle i, input_control = ctl, input_candidates = cs,
      input_required_runs = Some (min_required i)\<rparr>"

lemma verify_for_ok:
  assumes "minimization_input_ok h i" and "run_result_ok ctl" and "list_all run_result_ok cs"
    and "safe_int (int (length cs))"
  shows "verify_for h i ctl cs = Inr (expected_summary h (proposal_input i ctl cs))"
    and "verification_summary_ok (expected_summary h (proposal_input i ctl cs))"
proof -
  have "verification_input_ok h (proposal_input i ctl cs)" and "small_input (proposal_input i ctl cs)"
    using assms
    by (auto simp: verification_input_ok_def proposal_input_def minimization_input_ok_def
        required_or_default_def small_input_def)
  from verify_reproduction_eq [OF this] expected_summary_ok [OF this]
  show "verify_for h i ctl cs = Inr (expected_summary h (proposal_input i ctl cs))"
    and "verification_summary_ok (expected_summary h (proposal_input i ctl cs))"
    by (simp_all add: verify_for_def proposal_input_def)
qed

definition proposal_evaluation ::
  "js_host \<Rightarrow> minimization_input \<Rightarrow> minimization_proposal \<Rightarrow> minimization_evaluation" where
  "proposal_evaluation h i p =
     \<lparr>evaluation_id = proposal_id p, evaluation_removed = proposal_removed p,
      evaluation_summary =
        expected_summary h (proposal_input i (proposal_control p) (proposal_candidates p))\<rparr>"

lemma evaluate_proposals:
  assumes "minimization_input_ok h i" and "small_runs i"
  shows "collect (evaluate_proposal h i) (min_proposals i) =
      Inr (map (proposal_evaluation h i) (min_proposals i))"
    and "list_all minimization_evaluation_ok (map (proposal_evaluation h i) (min_proposals i))"
proof -
  have ok: "minimization_proposal_ok p" "safe_int (int (length (proposal_candidates p)))"
    if "p \<in> set (min_proposals i)" for p
    using assms that by (auto simp: minimization_input_ok_def small_runs_def list_all_iff)
  show "collect (evaluate_proposal h i) (min_proposals i) =
      Inr (map (proposal_evaluation h i) (min_proposals i))"
    using verify_for_ok(1) [OF assms(1)] ok
    by (intro collect_total)
       (auto simp: evaluate_proposal_def proposal_evaluation_def minimization_proposal_ok_def)
  show "list_all minimization_evaluation_ok (map (proposal_evaluation h i) (min_proposals i))"
    using verify_for_ok(2) [OF assms(1)] ok
    by (auto simp: list_all_iff minimization_evaluation_ok_def proposal_evaluation_def
        minimization_proposal_ok_def)
qed

definition proposal_verified :: "js_host \<Rightarrow> minimization_input \<Rightarrow> minimization_proposal \<Rightarrow> bool" where
  "proposal_verified h i p \<longleftrightarrow>
     summary_status (evaluation_summary (proposal_evaluation h i p)) = StatusVerified"

lemma accepted_result_ok:
  assumes "list_all minimization_evaluation_ok es" and "distinct (map evaluation_id es)"
    and "acc = accepted_evaluation h es"
  shows "minimization_result_ok
     \<lparr>accepted_reduction_id = map_option evaluation_id acc,
      accepted_removed_inputs = (case acc of None \<Rightarrow> [] | Some e \<Rightarrow> evaluation_removed e),
      minimization_claim = (if acc = None then BaselineRetained else LocallyMinimized),
      evaluations = es\<rparr>"
proof (cases acc)
  case None
  with assms(1) show ?thesis
    by (simp add: minimization_result_ok_def minimization_result_refined_def)
next
  case (Some e)
  then have e: "e \<in> set es" "summary_status (evaluation_summary e) = StatusVerified"
    using accepted_Some assms(3) by metis+
  then have "minimization_evaluation_ok e" using assms(1) by (simp add: list_all_iff)
  with Some e assms(1) find_by_id [OF assms(2) e(1)] show ?thesis
    by (simp add: minimization_result_ok_def minimization_result_refined_def
        minimization_evaluation_ok_def)
qed


definition cli_spaces_minimization :: "minimization_proposal list \<Rightarrow> minimization_input" where
  "cli_spaces_minimization ps =
     \<lparr>baseline_candidates = replicate 3 cli_spaces_reproduce,
      baseline_control = cli_spaces_control, min_oracle = cli_spaces_oracle, min_proposals = ps,
      min_required_runs = Some 3\<rparr>"

definition proposal_of :: "string \<Rightarrow> run_result list \<Rightarrow> string list \<Rightarrow> minimization_proposal" where
  "proposal_of pid cs rem =
     \<lparr>proposal_candidates = cs, proposal_control = cli_spaces_control,
      proposal_description = ''d'', proposal_id = pid, proposal_removed = rem\<rparr>"

lemma cli_spaces_minimization_ok:
  "list_all minimization_proposal_ok ps \<Longrightarrow> minimization_input_ok h (cli_spaces_minimization ps)"
  using cli_spaces_runs_ok
  by (simp add: minimization_input_ok_def cli_spaces_minimization_def min_required_def
      cli_spaces_oracle_ok safe_int_def max_safe_integer_def list_all_iff)

lemma proposal_of_ok:
  "pid \<noteq> [] \<Longrightarrow> set cs \<subseteq> {cli_spaces_reproduce, cli_spaces_control} \<Longrightarrow>
     rem \<noteq> [] \<Longrightarrow> distinct rem \<Longrightarrow> [] \<notin> set rem \<Longrightarrow> minimization_proposal_ok (proposal_of pid cs rem)"
  using cli_spaces_runs_ok
  by (auto simp: minimization_proposal_ok_def proposal_of_def list_all_iff distinct_card)

lemma cli_spaces_status:
  "summary_status (expected_summary h (proposal_input (cli_spaces_minimization ps)
     cli_spaces_control cs)) =
   (if 3 \<le> length cs \<and> set cs \<subseteq> {cli_spaces_reproduce} then StatusVerified
    else if cli_spaces_reproduce \<in> set cs \<and> set cs \<subseteq> {cli_spaces_reproduce, cli_spaces_control}
    then StatusUnstable
    else summary_status (expected_summary h (proposal_input (cli_spaces_minimization ps)
      cli_spaces_control cs)))"
proof -
  have env: "run_environment_hash cli_spaces_reproduce = run_environment_hash cli_spaces_control"
    by (simp add: cli_spaces_reproduce_def cli_spaces_control_def)
  have m: "run_matches h cli_spaces_oracle cli_spaces_reproduce"
    "\<not> run_matches h cli_spaces_oracle cli_spaces_control"
    using cli_spaces_holds by (simp_all add: run_matches_def)
  have ne: "cli_spaces_reproduce \<noteq> cli_spaces_control"
    by (simp add: cli_spaces_reproduce_def cli_spaces_control_def)
  have fields: "input_oracle (proposal_input (cli_spaces_minimization ps) cli_spaces_control cs) =
      cli_spaces_oracle"
    "input_control (proposal_input (cli_spaces_minimization ps) cli_spaces_control cs) =
      cli_spaces_control"
    "input_candidates (proposal_input (cli_spaces_minimization ps) cli_spaces_control cs) = cs"
    "required_or_default (proposal_input (cli_spaces_minimization ps) cli_spaces_control cs) = 3"
    by (simp_all add: proposal_input_def cli_spaces_minimization_def required_or_default_def
        min_required_def)
  show ?thesis
    unfolding expected_status fields pinned_environment_def
    using env m ne by (auto simp: subset_iff)
qed


text \<open>
  Two proposals may carry one identifier: the input schema accepts them. When
  the first of them is not verified and a later one is the accepted reduction, the
  result schema looks the identifier up, finds the unverified evaluation and
  \<open>minimizeReproduction\<close> throws although a verified reduction exists.
\<close>

theorem shadowed_reduction_is_rejected:
  assumes "minimization_input_ok h i" and "small_runs i"
    and "summary_status (expected_summary h
           (proposal_input i (baseline_control i) (baseline_candidates i))) = StatusVerified"
    and "accepted_evaluation h (map (proposal_evaluation h i) (min_proposals i)) = Some e"
    and "find (\<lambda>p. proposal_id p = evaluation_id e) (min_proposals i) = Some p"
    and "\<not> proposal_verified h i p"
  shows "minimize_reproduction h i = Inl MinimizationResultSchema"
proof -
  have base: "verify_for h i (baseline_control i) (baseline_candidates i) = Inr
      (expected_summary h (proposal_input i (baseline_control i) (baseline_candidates i)))"
    using assms(1,2)
    by (intro verify_for_ok(1)) (auto simp: minimization_input_ok_def small_runs_def)
  have "find (\<lambda>e'. evaluation_id e' = evaluation_id e) (map (proposal_evaluation h i) ps) =
      map_option (proposal_evaluation h i) (find (\<lambda>p. proposal_id p = evaluation_id e) ps)" for ps
    by (induction ps) (simp_all add: proposal_evaluation_def)
  then have "find (\<lambda>e'. evaluation_id e' = evaluation_id e)
      (map (proposal_evaluation h i) (min_proposals i)) = Some (proposal_evaluation h i p)"
    using assms(5) by simp
  then show ?thesis
    using assms(1,3,4,6) base evaluate_proposals(1) [OF assms(1,2)]
    by (simp add: minimize_reproduction_def Let_def check_def proposal_verified_def
        minimization_result_ok_def minimization_result_refined_def)
qed

theorem shadowed_reduction_is_rejected_witness:
  "minimize_reproduction plain_host (cli_spaces_minimization
      [proposal_of ''a'' [cli_spaces_reproduce, cli_spaces_control] [''x''],
       proposal_of ''a'' (replicate 3 cli_spaces_reproduce) [''y'']]) =
     Inl MinimizationResultSchema"
proof -
  let ?pa = "proposal_of ''a'' [cli_spaces_reproduce, cli_spaces_control] [''x'']"
  let ?pb = "proposal_of ''a'' (replicate 3 cli_spaces_reproduce) [''y'']"
  let ?i = "cli_spaces_minimization [?pa, ?pb]"
  have ok: "minimization_input_ok plain_host ?i"
    by (rule cli_spaces_minimization_ok) (simp add: proposal_of_ok)
  have small: "small_runs ?i"
    by (simp add: small_runs_def cli_spaces_minimization_def proposal_of_def safe_int_def
        max_safe_integer_def)
  have base: "summary_status (expected_summary plain_host
      (proposal_input ?i (baseline_control ?i) (baseline_candidates ?i))) = StatusVerified"
    using cli_spaces_status [of plain_host "[?pa, ?pb]" "replicate 3 cli_spaces_reproduce"]
    by (simp add: cli_spaces_minimization_def)
  have first: "\<not> proposal_verified plain_host ?i ?pa"
    using cli_spaces_status [of plain_host "[?pa, ?pb]" "[cli_spaces_reproduce, cli_spaces_control]"]
    by (simp add: proposal_verified_def proposal_evaluation_def proposal_of_def)
  have second: "proposal_verified plain_host ?i ?pb"
    using cli_spaces_status [of plain_host "[?pa, ?pb]" "replicate 3 cli_spaces_reproduce"]
    by (simp add: proposal_verified_def proposal_evaluation_def proposal_of_def)
  have ps: "min_proposals ?i = [?pa, ?pb]" by (simp add: cli_spaces_minimization_def)
  have acc: "accepted_evaluation plain_host (map (proposal_evaluation plain_host ?i)
      (min_proposals ?i)) = Some (proposal_evaluation plain_host ?i ?pb)"
    using first second unfolding ps by (simp add: accepted_evaluation_def proposal_verified_def)
  have "find (\<lambda>p. proposal_id p = evaluation_id (proposal_evaluation plain_host ?i ?pb))
      (min_proposals ?i) = Some ?pa"
    unfolding ps by (simp add: proposal_evaluation_def proposal_of_def)
  from shadowed_reduction_is_rejected [OF ok small base acc this first] show ?thesis .
qed

end
