(* ===== verification/Evidence.thy ===== *)
theory Evidence
  imports Prelude
begin

text \<open>
  src/src/domain/evidence.ts: evidence items and hypotheses with the history of
  their status. The refinement of the hypothesis schema compares neighbours of the
  history; the lemmas lift it to the whole history.
\<close>

datatype evidence_classification = Reported | Observed | Inferred | Unknown

record evidence_item =
  item_classification :: evidence_classification
  item_content :: string
  item_id :: string
  item_source :: string

definition evidence_item_ok :: "evidence_item \<Rightarrow> bool" where
  "evidence_item_ok e \<longleftrightarrow> item_content e \<noteq> [] \<and> item_id e \<noteq> [] \<and> item_source e \<noteq> []"

datatype hypothesis_status = Proposed | Supported | Contradicted | Inconclusive

record status_entry =
  status_reason :: string
  status_sequence :: int
  status_value :: hypothesis_status

definition status_entry_ok :: "status_entry \<Rightarrow> bool" where
  "status_entry_ok e \<longleftrightarrow>
     status_reason e \<noteq> [] \<and> 0 \<le> status_sequence e \<and> safe_int (status_sequence e)"

record hypothesis =
  hyp_evidence_ids :: "string list"
  hyp_expected_signal :: string
  hyp_falsification :: string
  hyp_id :: string
  hyp_priority :: int
  hyp_statement :: string
  hyp_status :: hypothesis_status
  hyp_history :: "status_entry list"

fun sequences_increase :: "status_entry list \<Rightarrow> bool" where
  "sequences_increase (a # b # es) =
     (status_sequence a < status_sequence b \<and> sequences_increase (b # es))"
| "sequences_increase _ = True"

definition hypothesis_ok :: "hypothesis \<Rightarrow> bool" where
  "hypothesis_ok y \<longleftrightarrow>
     list_all (\<lambda>s. s \<noteq> []) (hyp_evidence_ids y) \<and> hyp_evidence_ids y \<noteq> [] \<and>
     hyp_expected_signal y \<noteq> [] \<and> hyp_falsification y \<noteq> [] \<and> hyp_id y \<noteq> [] \<and>
     1 \<le> hyp_priority y \<and> hyp_priority y \<le> 5 \<and> hyp_statement y \<noteq> [] \<and>
     list_all status_entry_ok (hyp_history y) \<and> hyp_history y \<noteq> [] \<and>
     status_value (last (hyp_history y)) = hyp_status y \<and> sequences_increase (hyp_history y)"

lemma sequences_increase_iff:
  "sequences_increase es \<longleftrightarrow> sorted_wrt (<) (map status_sequence es)"
  by (induction es rule: sequences_increase.induct) (auto intro: less_trans)

lemma hypothesis_status_is_latest:
  assumes "hypothesis_ok y" and "e \<in> set (hyp_history y)"
    and "\<And>e'. e' \<in> set (hyp_history y) \<Longrightarrow> status_sequence e' \<le> status_sequence e"
  shows "status_value e = hyp_status y"
proof -
  let ?es = "hyp_history y"
  have ne: "?es \<noteq> []" and last: "status_value (last ?es) = hyp_status y"
    and inc: "sorted_wrt (<) (map status_sequence ?es)"
    using assms(1) by (auto simp: hypothesis_ok_def sequences_increase_iff)
  have "e = last ?es"
  proof (rule ccontr)
    assume "e \<noteq> last ?es"
    then have "e \<in> set (butlast ?es)"
      using assms(2) ne by (metis append_butlast_last_id in_set_conv_decomp_last
          set_ConsD rotate1.simps(2) set_rotate1)
    moreover have "sorted_wrt (<) (map status_sequence (butlast ?es @ [last ?es]))"
      using inc ne by simp
    ultimately have "status_sequence e < status_sequence (last ?es)"
      by (auto simp: sorted_wrt_append)
    then show False using assms(3) ne by (meson last_in_set not_le)
  qed
  then show ?thesis using last by simp
qed

end
