(* ===== verification/Contracts.thy ===== *)
theory Contracts
  imports Oracle
begin

text \<open>
  The contracts of the execution layer, src/src/execution/contracts.ts: path
  rules, repository profiles and sources, sandbox requests, network policies,
  commands and execution plans, each with the predicate of its schema. A field
  whose schema is a literal carries no information and is left out of the record.
\<close>

section \<open>Paths\<close>

definition sandbox_root :: string where
  "sandbox_root = ''/vercel/sandbox''"

definition sandbox_workspace_root :: string where
  "sandbox_workspace_root = sandbox_root @ ''/workspaces''"

definition snapshot_min_expiration_ms :: int where
  "snapshot_min_expiration_ms = 86400000"

definition snapshot_max_expiration_ms :: int where
  "snapshot_max_expiration_ms = 7 * 86400000"

definition no_control_characters :: "string \<Rightarrow> bool" where
  "no_control_characters s \<longleftrightarrow> list_all (\<lambda>c. \<not> control_char c) s"

definition safe_segment :: "string \<Rightarrow> bool" where
  "safe_segment w \<longleftrightarrow> 0 < length w \<and> w \<noteq> ''.'' \<and> w \<noteq> ''..''"

definition is_safe_relative_path :: "string \<Rightarrow> bool" where
  "is_safe_relative_path v \<longleftrightarrow>
     (if length v = 0 \<or> starts_with ''/'' v \<or> List.member v (CHR 0x5C) \<or> \<not> no_control_characters v
      then False
      else list_all safe_segment (split_on (CHR ''/'') v))"

definition is_sandbox_workspace_path :: "string \<Rightarrow> bool" where
  "is_sandbox_workspace_path v \<longleftrightarrow>
     (if \<not> starts_with (sandbox_workspace_root @ ''/'') v then False
      else is_safe_relative_path (drop (length sandbox_workspace_root + 1) v))"

section \<open>Repository profiles and sources\<close>

definition script_char :: "char \<Rightarrow> bool" where
  "script_char c \<longleftrightarrow> alnum_char c \<or> c \<in> set '':._/-''"

definition script_name_ok :: "string \<Rightarrow> bool" where
  "script_name_ok s \<longleftrightarrow>
     len_in 1 128 s \<and> alnum_char (hd s) \<and> list_all script_char s \<and> no_control_characters s"

definition workspace_ok :: "string \<Rightarrow> bool" where
  "workspace_ok s \<longleftrightarrow> len_in 1 512 s \<and> is_safe_relative_path s"

datatype node_version = Node22 | Node24

fun node_version_text :: "node_version \<Rightarrow> string" where
  "node_version_text Node22 = ''22''"
| "node_version_text Node24 = ''24''"

record node_profile =
  control_script :: string
  node_ver :: node_version
  reproduction_script :: string
  test_name_pattern :: "string option"
  profile_workspace :: "string option"

definition node_profile_ok :: "node_profile \<Rightarrow> bool" where
  "node_profile_ok p \<longleftrightarrow>
     script_name_ok (control_script p) \<and> script_name_ok (reproduction_script p) \<and>
     pred_option (\<lambda>s. len_in 1 256 s \<and> no_control_characters s) (test_name_pattern p) \<and>
     pred_option workspace_ok (profile_workspace p)"

definition space_char :: "char \<Rightarrow> bool" where
  "space_char c \<longleftrightarrow> code_unit c \<in> {9, 10, 11, 12, 13, 32, 160}"

definition identifier_ok :: "string \<Rightarrow> string \<Rightarrow> bool" where
  "identifier_ok extra s \<longleftrightarrow>
     len_in 1 128 s \<and> alnum_char (hd s) \<and> list_all (\<lambda>c. alnum_char c \<or> List.member extra c) s"

definition full_name_ok :: "string \<Rightarrow> bool" where
  "full_name_ok s \<longleftrightarrow> len_in 3 255 s \<and>
     (case split_on (CHR ''/'') s of
        [owner, name] \<Rightarrow> owner \<noteq> [] \<and> name \<noteq> [] \<and> list_all (\<lambda>c. \<not> space_char c) (owner @ name)
      | _ \<Rightarrow> False)"

record repository_source =
  source_commit :: string
  source_full_name :: string
  source_private :: bool
  source_repository_id :: string

definition repository_source_ok :: "repository_source \<Rightarrow> bool" where
  "repository_source_ok s \<longleftrightarrow>
     commit_string (source_commit s) \<and> full_name_ok (source_full_name s) \<and>
     identifier_ok ''._:-'' (source_repository_id s)"

record issue_evidence =
  issue_number :: int
  issue_title :: "string option"

definition issue_evidence_ok :: "issue_evidence \<Rightarrow> bool" where
  "issue_evidence_ok e \<longleftrightarrow>
     0 < issue_number e \<and> issue_number e \<le> 2147483647 \<and>
     pred_option (len_in 1 256) (issue_title e)"

record execution_request =
  request_issue :: "issue_evidence option"
  request_oracle :: failure_oracle
  request_profile :: node_profile
  request_source :: repository_source

definition execution_request_ok :: "js_host \<Rightarrow> execution_request \<Rightarrow> bool" where
  "execution_request_ok h r \<longleftrightarrow>
     pred_option issue_evidence_ok (request_issue r) \<and> failure_oracle_ok h (request_oracle r) \<and>
     node_profile_ok (request_profile r) \<and> repository_source_ok (request_source r)"

section \<open>Sandbox requests and network policies\<close>

record create_request =
  create_runtime :: node_version
  create_timeout_ms :: int

definition create_request_ok :: "create_request \<Rightarrow> bool" where
  "create_request_ok r \<longleftrightarrow> 1000 \<le> create_timeout_ms r \<and> create_timeout_ms r \<le> 900000"

record snapshot_request =
  snapshot_ref :: string
  snapshot_timeout_ms :: int

definition snapshot_request_ok :: "snapshot_request \<Rightarrow> bool" where
  "snapshot_request_ok r \<longleftrightarrow>
     len_in 1 128 (snapshot_ref r) \<and>
     list_all (\<lambda>c. alnum_char c \<or> c \<in> set ''_-'') (snapshot_ref r) \<and>
     1000 \<le> snapshot_timeout_ms r \<and> snapshot_timeout_ms r \<le> 900000"

definition host_body_ok :: "string \<Rightarrow> bool" where
  "host_body_ok s \<longleftrightarrow>
     s \<noteq> [] \<and> alnum_char (hd s) \<and> alnum_char (last s) \<and>
     list_all (\<lambda>c. alnum_char c \<or> c \<in> set ''.-'') s"

definition network_host_ok :: "string \<Rightarrow> bool" where
  "network_host_ok s \<longleftrightarrow>
     len_in 1 253 s \<and> host_body_ok (if starts_with ''*.'' s then drop 2 s else s)"

datatype acquisition_phase = GithubAcquisition | NpmAcquisition

record credential_injection =
  injected_header :: string
  injection_host :: string
  injection_path :: string

definition name_char :: "char \<Rightarrow> bool" where
  "name_char c \<longleftrightarrow> alnum_char c \<or> c \<in> set ''_.-''"

definition injection_path_ok :: "string \<Rightarrow> bool" where
  "injection_path_ok p \<longleftrightarrow> length p \<le> 1024 \<and>
     (case split_on (CHR ''/'') p of
        [e, repos, owner, name, tarball, sha] \<Rightarrow>
          e = [] \<and> repos = ''repos'' \<and> owner \<noteq> [] \<and> list_all name_char owner \<and>
          name \<noteq> [] \<and> list_all name_char name \<and> tarball = ''tarball'' \<and> commit_string sha
      | _ \<Rightarrow> False)"

definition credential_injection_ok :: "credential_injection \<Rightarrow> bool" where
  "credential_injection_ok i \<longleftrightarrow>
     len_in 8 4096 (injected_header i) \<and> starts_with ''Bearer '' (injected_header i) \<and>
     list_all (\<lambda>c. 33 \<le> code_unit c \<and> code_unit c \<le> 126) (drop 7 (injected_header i)) \<and>
     network_host_ok (injection_host i) \<and> \<not> starts_with ''*.'' (injection_host i) \<and>
     injection_path_ok (injection_path i)"

datatype network_policy =
    DenyAll
  | AllowHosts "string list" acquisition_phase
  | BrokeredAllowHosts "string list" credential_injection

definition allowed_hosts_ok :: "string list \<Rightarrow> bool" where
  "allowed_hosts_ok hs \<longleftrightarrow> list_all network_host_ok hs \<and> 1 \<le> length hs \<and> length hs \<le> 16"

fun network_policy_ok :: "network_policy \<Rightarrow> bool" where
  "network_policy_ok DenyAll = True"
| "network_policy_ok (AllowHosts hs ph) = allowed_hosts_ok hs"
| "network_policy_ok (BrokeredAllowHosts hs i) =
     (allowed_hosts_ok hs \<and> credential_injection_ok i \<and> List.member hs (injection_host i))"

section \<open>Commands and plans\<close>

datatype tool = Cp | Curl | Find | Git | Mkdir | NodeTool | Npm | Rm | Sha256sum | Tar

fun tool_text :: "tool \<Rightarrow> string" where
  "tool_text Cp = ''cp''"
| "tool_text Curl = ''curl''"
| "tool_text Find = ''find''"
| "tool_text Git = ''git''"
| "tool_text Mkdir = ''mkdir''"
| "tool_text NodeTool = ''node''"
| "tool_text Npm = ''npm''"
| "tool_text Rm = ''rm''"
| "tool_text Sha256sum = ''sha256sum''"
| "tool_text Tar = ''tar''"

datatype phase =
    SourceAcquisition | DependencyAcquisition | OfflineInstall | ControlPhase | CandidatePhase
  | ArtifactExport | CleanupPhase

record sandbox_command =
  cmd_args :: "string list"
  cmd_cwd :: string
  cmd_executable :: tool
  cmd_phase :: phase
  cmd_timeout_ms :: int

definition sandbox_command_ok :: "sandbox_command \<Rightarrow> bool" where
  "sandbox_command_ok c \<longleftrightarrow>
     list_all (\<lambda>a. length a \<le> 4096 \<and> no_control_characters a) (cmd_args c) \<and>
     length (cmd_args c) \<le> 256 \<and> length (cmd_cwd c) \<le> 1024 \<and>
     is_sandbox_workspace_path (cmd_cwd c) \<and> 1 \<le> cmd_timeout_ms c \<and> cmd_timeout_ms c \<le> 125000"

record execution_plan =
  plan_commands :: "sandbox_command list"
  plan_profile :: node_profile
  plan_required_runs :: int
  plan_source :: repository_source
  plan_total_timeout_ms :: int

definition phase_indices :: "phase \<Rightarrow> phase list \<Rightarrow> nat list" where
  "phase_indices ph phs = map fst (filter (\<lambda>(i, p). p = ph) (enumerate 0 phs))"

fun first_of :: "'a list \<Rightarrow> 'a option" where
  "first_of [] = None"
| "first_of (x # xs) = Some x"

definition plan_refined :: "execution_plan \<Rightarrow> bool" where
  "plan_refined p \<longleftrightarrow>
     (let phases = map cmd_phase (plan_commands p);
          dependencies = phase_indices DependencyAcquisition phases;
          installs = phase_indices OfflineInstall phases;
          controls = phase_indices ControlPhase phases;
          candidates = phase_indices CandidatePhase phases
      in length dependencies \<noteq> 0 \<and> length installs = 1 \<and> length controls = 1 \<and>
         int (length candidates) = plan_required_runs p \<and>
         (case (first_of dependencies, first_of installs, first_of controls, first_of candidates) of
            (Some d, Some i, Some c, Some n) \<Rightarrow> d < i \<and> i < c \<and> c < n
          | _ \<Rightarrow> True))"

definition execution_plan_ok :: "execution_plan \<Rightarrow> bool" where
  "execution_plan_ok p \<longleftrightarrow>
     list_all sandbox_command_ok (plan_commands p) \<and>
     4 \<le> length (plan_commands p) \<and> length (plan_commands p) \<le> 12 \<and>
     node_profile_ok (plan_profile p) \<and> 3 \<le> plan_required_runs p \<and> plan_required_runs p \<le> 5 \<and>
     repository_source_ok (plan_source p) \<and>
     1000 \<le> plan_total_timeout_ms p \<and> plan_total_timeout_ms p \<le> 900000 \<and> plan_refined p"

section \<open>Paths stay below the workspace root\<close>

text \<open>
  How the sandbox's POSIX shell resolves an absolute path: empty and \<open>.\<close>
  segments are skipped and \<open>..\<close> removes the segment before.
\<close>

definition resolve_step :: "string list \<Rightarrow> string \<Rightarrow> string list" where
  "resolve_step stack w =
     (if w = [] \<or> w = ''.'' then stack
      else if w = ''..'' then butlast stack else stack @ [w])"

definition resolve_path :: "string list \<Rightarrow> string \<Rightarrow> string list" where
  "resolve_path base p = foldl resolve_step base (split_on (CHR ''/'') p)"

lemma resolve_safe_segments:
  "list_all safe_segment ws \<Longrightarrow> foldl resolve_step base ws = base @ ws"
  by (induction ws arbitrary: base) (auto simp: resolve_step_def safe_segment_def)

lemma safe_relative_path_iff:
  "is_safe_relative_path v \<longleftrightarrow>
     v \<noteq> [] \<and> CHR 0x5C \<notin> set v \<and> no_control_characters v \<and>
     list_all safe_segment (split_on (CHR ''/'') v)"
proof -
  have "\<not> list_all safe_segment (split_on (CHR ''/'') v)" if "starts_with ''/'' v"
    using that by (cases v) (auto simp: safe_segment_def)
  then show ?thesis by (auto simp: is_safe_relative_path_def)
qed

lemma safe_relative_path_resolves:
  "is_safe_relative_path v \<Longrightarrow> resolve_path base v = base @ split_on (CHR ''/'') v"
  by (simp add: resolve_path_def safe_relative_path_iff resolve_safe_segments)

lemma workspace_path_iff:
  "is_sandbox_workspace_path v \<longleftrightarrow>
     (\<exists>rel. v = sandbox_workspace_root @ ''/'' @ rel \<and> is_safe_relative_path rel)"
  by (auto simp: is_sandbox_workspace_path_def starts_with_iff)

lemma split_on_sep_append:
  "split_on d (u @ d # v) = split_on d u @ split_on d v"
proof (induction u)
  case Nil
  then show ?case by simp
next
  case (Cons c u)
  obtain w ws where w: "split_on d u = w # ws" by (cases "split_on d u") auto
  then show ?case using Cons.IH by simp
qed

lemma safe_relative_path_append:
  assumes "is_safe_relative_path u" and "is_safe_relative_path v"
  shows "is_safe_relative_path (u @ ''/'' @ v)"
  using assms split_on_sep_append [of "CHR ''/''" u v]
  by (auto simp: safe_relative_path_iff no_control_characters_def control_char_def code_unit_def)

lemma workspace_path_append:
  "is_sandbox_workspace_path u \<Longrightarrow> is_safe_relative_path v \<Longrightarrow>
     is_sandbox_workspace_path (u @ ''/'' @ v)"
  unfolding workspace_path_iff
  using safe_relative_path_append by (metis append.assoc)

lemma workspace_root_segments:
  "split_on (CHR ''/'') sandbox_workspace_root = ['''', ''vercel'', ''sandbox'', ''workspaces'']"
  by (simp add: sandbox_workspace_root_def sandbox_root_def)

text \<open>
  A path that the contract accepts resolves to a proper descendant of the
  workspace root: nothing in it can climb out.
\<close>

theorem workspace_path_stays_inside:
  assumes "is_sandbox_workspace_path v"
  shows "\<exists>segs. segs \<noteq> [] \<and> resolve_path [] v = [''vercel'', ''sandbox'', ''workspaces''] @ segs \<and>
    v = sandbox_workspace_root @ ''/'' @ join ''/'' segs"
proof -
  obtain rel where v: "v = sandbox_workspace_root @ ''/'' @ rel" and rel: "is_safe_relative_path rel"
    using assms by (auto simp: workspace_path_iff)
  let ?segs = "split_on (CHR ''/'') rel"
  have "split_on (CHR ''/'') v = ['''', ''vercel'', ''sandbox'', ''workspaces''] @ ?segs"
    using split_on_sep_append [of "CHR ''/''" sandbox_workspace_root rel]
    by (simp add: v workspace_root_segments)
  then have "resolve_path [] v = foldl resolve_step [''vercel'', ''sandbox'', ''workspaces''] ?segs"
    by (simp add: resolve_path_def resolve_step_def)
  also have "\<dots> = [''vercel'', ''sandbox'', ''workspaces''] @ ?segs"
    using rel by (intro resolve_safe_segments) (simp add: safe_relative_path_iff)
  finally show ?thesis
    using v join_split_on [of "CHR ''/''" rel] by (intro exI [of _ ?segs]) simp
qed

theorem workspace_path_stays_inside_witness:
  "\<exists>segs. resolve_path [] ''/vercel/sandbox/workspaces/control/app'' =
     [''vercel'', ''sandbox'', ''workspaces''] @ segs \<and> segs \<noteq> []"
proof -
  have "is_sandbox_workspace_path ''/vercel/sandbox/workspaces/control/app''"
    by (simp add: is_sandbox_workspace_path_def sandbox_workspace_root_def sandbox_root_def
        is_safe_relative_path_def no_control_characters_def control_char_def code_unit_def
        safe_segment_def)
  from workspace_path_stays_inside [OF this] show ?thesis by blast
qed

end
