(* ===== verification/Sandbox.thy ===== *)
theory Sandbox
  imports Contracts
begin

text \<open>
  What the execution layer does to its sandboxes: the interfaces
  \<open>IsolatedSandboxProvider\<close>, \<open>IsolatedSandboxSession\<close> and
  \<open>IsolatedSandboxSnapshot\<close> of src/src/execution/contracts.ts as calls that
  are appended to a trace, and a world that answers each call. The provider lies
  outside src/, so the world is a parameter: any function of the whole trace, the
  call included. Programs of the layer are functions from the trace to a value or a
  thrown error and the extended trace. The rules for weakest preconditions compute
  what a program does step by step.
\<close>

section \<open>Errors of the execution layer\<close>

datatype cleanup_status = Clean | Quarantined

datatype lifecycle_code =
    LifecycleTimeout | LifecycleBudget | LifecycleCancelled | LifecycleFailed
  | LifecycleInterrupted

datatype limit_code =
    ArtifactLimit | AttemptTimeoutLimit | CommandTimeout | MemoryLimit | OutputInvalid
  | ProcessLimit | ProviderInterrupted | WorkspaceLimit

datatype dependency_code =
    DependencyAcquisitionFailed | DependencyLockdownFailed | OfflineInstallFailed
  | DependencyUnsupported

datatype acquisition_code =
    ArchiveDownloadFailed | ArchiveLimitExceeded | ArchiveInspectionFailed
  | CredentialUnavailable | ExtractionFailed | AcquisitionLockdownFailed | UnsafeArchive

datatype validation_code =
    SourceArchiveLimit | DuplicatePath | EmptyArchive | ExtractedLimit | InvalidManifest
  | InvalidRoot | MultipleRoots | PathEscape | RevisionMismatch | UnsafeEntryType

datatype execution_code =
    ExecBudgetExhausted | ExecCancelled | ExecFailed | ExecInterrupted
  | ExecUnsupportedSource

datatype execution_stage =
    StageAcquisition | StageDependencies | StageEnvironment | StageExperiments | StageProof
  | StageProvisioning | StageWorkspaces

text \<open>\<open>Foreign\<close> is an error of a provider; its argument is its \<open>code\<close> property, or empty.\<close>

datatype thrown =
    SchemaError
  | Foreign string
  | WorkspacePreparationFailed
  | DependencyError dependency_code
  | AcquisitionError acquisition_code
  | ValidationError validation_code
  | LimitError limit_code
  | LifecycleError lifecycle_code cleanup_status
  | ExecutionError execution_code execution_stage
  | ProofInputError

section \<open>Calls, traces and the world\<close>

text \<open>A session handle is the identity of the session object.\<close>

type_synonym session = nat

datatype quarantined_resource = SandboxResource | SnapshotResource

record quarantine_record =
  quarantine_actor :: "string option"
  quarantine_attempt :: string
  quarantine_resource_id :: string
  quarantine_resource :: quarantined_resource
  quarantine_tenant :: "string option"

record command_result =
  result_exit_code :: int
  result_stderr :: string
  result_stdout :: string

record http_response =
  response_status :: int
  response_location :: "string option"
  response_length :: "string option"
  response_chunks :: "string list option"
  response_broken :: bool

datatype sandbox_call =
    CreateSandbox create_request
  | CreateFromSnapshot snapshot_request
  | MakeDirectory session string
  | ReadFile session string
  | RunCommand session sandbox_command
  | SetNetworkPolicy session network_policy
  | TakeSnapshot session int
  | StopSession session
  | WriteFiles session "(string \<times> string) list"
  | DeleteSnapshot string
  | RecordQuarantine quarantine_record
  | BorrowCredential repository_source
  | HttpGet string "string option" bool

type_synonym trace = "sandbox_call list"

text \<open>
  An answer is an error or the value that the promise resolves to. \<open>HttpGet\<close>
  carries the URL, the authorization header and whether redirects are left to the
  caller; the body of a response is the chunks that arrive, after which the stream may
  fail (\<open>response_broken\<close>); \<open>BorrowCredential\<close> is answered by the authorization header and the
  instant at which it expires.
\<close>

record world =
  unit_reply :: "trace \<Rightarrow> thrown + unit"
  file_reply :: "trace \<Rightarrow> thrown + string option"
  run_reply :: "trace \<Rightarrow> thrown + command_result"
  session_reply :: "trace \<Rightarrow> thrown + session"
  snapshot_reply :: "trace \<Rightarrow> thrown + string"
  credential_reply :: "trace \<Rightarrow> thrown + (string \<times> int option)"
  http_reply :: "trace \<Rightarrow> thrown + http_response"
  sandbox_id :: "session \<Rightarrow> string"
  clock_now :: "trace \<Rightarrow> int"
  random_uuid :: "trace \<Rightarrow> string"

section \<open>Programs\<close>

type_synonym 'a prog = "trace \<Rightarrow> (thrown + 'a) \<times> trace"

definition ret :: "'a \<Rightarrow> 'a prog" where
  "ret v t = (Inr v, t)"

definition raise :: "thrown \<Rightarrow> 'a prog" where
  "raise e t = (Inl e, t)"

definition bind :: "'a prog \<Rightarrow> ('a \<Rightarrow> 'b prog) \<Rightarrow> 'b prog" where
  "bind m f t = (case m t of (Inl e, t') \<Rightarrow> (Inl e, t') | (Inr v, t') \<Rightarrow> f v t')"

definition catch :: "'a prog \<Rightarrow> (thrown \<Rightarrow> 'a prog) \<Rightarrow> 'a prog" where
  "catch m f t = (case m t of (Inl e, t') \<Rightarrow> f e t' | (Inr v, t') \<Rightarrow> (Inr v, t'))"

text \<open>\<open>try m finally f\<close>: an error of \<open>f\<close> replaces the outcome of \<open>m\<close>.\<close>

definition finally_do :: "'a prog \<Rightarrow> unit prog \<Rightarrow> 'a prog" where
  "finally_do m f t =
     (case m t of (r, t') \<Rightarrow> (case f t' of (Inl e, t'') \<Rightarrow> (Inl e, t'') | (Inr _, t'') \<Rightarrow> (r, t'')))"

definition perform :: "sandbox_call \<Rightarrow> (trace \<Rightarrow> thrown + 'a) \<Rightarrow> 'a prog" where
  "perform c reply t = (reply (t @ [c]), t @ [c])"

definition lift_result :: "thrown + 'a \<Rightarrow> 'a prog" where
  "lift_result r t = (r, t)"

definition require :: "bool \<Rightarrow> thrown \<Rightarrow> unit prog" where
  "require b e t = (if b then Inr () else Inl e, t)"

definition parsed :: "('a \<Rightarrow> bool) \<Rightarrow> 'a \<Rightarrow> 'a prog" where
  "parsed P x t = (parse_as P SchemaError x, t)"

fun for_each :: "('a \<Rightarrow> 'b prog) \<Rightarrow> 'a list \<Rightarrow> 'b list prog" where
  "for_each f [] = ret []"
| "for_each f (x # xs) = bind (f x) (\<lambda>y. bind (for_each f xs) (\<lambda>ys. ret (y # ys)))"

text \<open>The session interface.\<close>

definition make_directory :: "world \<Rightarrow> session \<Rightarrow> string \<Rightarrow> unit prog" where
  "make_directory w s p = perform (MakeDirectory s p) (unit_reply w)"

definition read_file :: "world \<Rightarrow> session \<Rightarrow> string \<Rightarrow> string option prog" where
  "read_file w s p = perform (ReadFile s p) (file_reply w)"

definition run_command :: "world \<Rightarrow> session \<Rightarrow> sandbox_command \<Rightarrow> command_result prog" where
  "run_command w s c = bind (parsed sandbox_command_ok c) (\<lambda>c'. perform (RunCommand s c') (run_reply w))"

definition set_network_policy :: "world \<Rightarrow> session \<Rightarrow> network_policy \<Rightarrow> unit prog" where
  "set_network_policy w s p = perform (SetNetworkPolicy s p) (unit_reply w)"

definition write_files :: "world \<Rightarrow> session \<Rightarrow> (string \<times> string) list \<Rightarrow> unit prog" where
  "write_files w s fs = perform (WriteFiles s fs) (unit_reply w)"

section \<open>Values of programs\<close>

lemma bind_Inr_iff: "bind m f t = (Inr v, t') \<longleftrightarrow> (\<exists>x u. m t = (Inr x, u) \<and> f x u = (Inr v, t'))"
  by (auto simp: bind_def split: prod.splits sum.splits)

lemma require_Inr_iff [simp]: "require b e t = (Inr u, t') \<longleftrightarrow> b \<and> t' = t"
  by (auto simp: require_def)

lemma parsed_Inr_iff [simp]: "parsed P x t = (Inr y, t') \<longleftrightarrow> P x \<and> y = x \<and> t' = t"
  by (auto simp: parsed_def)

lemma catch_Inr_iff:
  "catch m f t = (Inr v, t') \<longleftrightarrow> m t = (Inr v, t') \<or> (\<exists>e u. m t = (Inl e, u) \<and> f e u = (Inr v, t'))"
  by (auto simp: catch_def split: prod.splits sum.splits)

lemma raise_Inr [simp]: "\<not> raise e t = (Inr v, t')"
  by (simp add: raise_def)

lemma ret_Inr_iff [simp]: "ret x t = (Inr v, t') \<longleftrightarrow> v = x \<and> t' = t"
  by (auto simp: ret_def)

lemma lift_Inr_iff [simp]: "lift_result r t = (Inr v, t') \<longleftrightarrow> r = Inr v \<and> t' = t"
  by (auto simp: lift_result_def)

section \<open>Weakest preconditions\<close>

definition wp :: "'a prog \<Rightarrow> ('a \<Rightarrow> trace \<Rightarrow> bool) \<Rightarrow> (thrown \<Rightarrow> trace \<Rightarrow> bool) \<Rightarrow> trace \<Rightarrow> bool" where
  "wp m Q E t = (case m t of (Inl e, t') \<Rightarrow> E e t' | (Inr v, t') \<Rightarrow> Q v t')"

named_theorems wp_rules

lemma wp_ret [wp_rules]: "wp (ret v) Q E t = Q v t"
  by (simp add: wp_def ret_def)

lemma wp_raise [wp_rules]: "wp (raise e) Q E t = E e t"
  by (simp add: wp_def raise_def)

lemma wp_bind [wp_rules]: "wp (bind m f) Q E t = wp m (\<lambda>v. wp (f v) Q E) E t"
  by (simp add: wp_def bind_def split: prod.split sum.split)

lemma wp_catch [wp_rules]: "wp (catch m f) Q E t = wp m Q (\<lambda>e. wp (f e) Q E) t"
  by (simp add: wp_def catch_def split: prod.split sum.split)

lemma wp_finally [wp_rules]:
  "wp (finally_do m f) Q E t =
     wp m (\<lambda>v. wp f (\<lambda>_. Q v) E) (\<lambda>e. wp f (\<lambda>_. E e) E) t"
  by (auto simp: wp_def finally_do_def split: prod.split sum.split)

lemma wp_perform [wp_rules]:
  "wp (perform c reply) Q E t =
     (case reply (t @ [c]) of Inl e \<Rightarrow> E e (t @ [c]) | Inr v \<Rightarrow> Q v (t @ [c]))"
  by (simp add: wp_def perform_def split: sum.split)

lemma wp_lift [wp_rules]:
  "wp (lift_result r) Q E t = (case r of Inl e \<Rightarrow> E e t | Inr v \<Rightarrow> Q v t)"
  by (simp add: wp_def lift_result_def)

lemma wp_require [wp_rules]: "wp (require b e) Q E t = (if b then Q () t else E e t)"
  by (simp add: wp_def require_def)

lemma wp_parsed [wp_rules]: "wp (parsed P x) Q E t = (if P x then Q x t else E SchemaError t)"
  by (simp add: wp_def parsed_def parse_as_def)

lemma wp_mono:
  assumes "wp m Q E t" and "\<And>v t'. Q v t' \<Longrightarrow> Q' v t'" and "\<And>e t'. E e t' \<Longrightarrow> E' e t'"
  shows "wp m Q' E' t"
  using assms by (auto simp: wp_def split: prod.splits sum.splits)

lemma wp_result:
  "wp m Q E t \<longleftrightarrow> (case m t of (Inl e, t') \<Rightarrow> E e t' | (Inr v, t') \<Rightarrow> Q v t')"
  by (simp add: wp_def)

lemma wpD_Inr: "wp m Q E t \<Longrightarrow> m t = (Inr v, t') \<Longrightarrow> Q v t'"
  by (simp add: wp_def)

lemma wpD_Inl: "wp m Q E t \<Longrightarrow> m t = (Inl e, t') \<Longrightarrow> E e t'"
  by (simp add: wp_def)

section \<open>Programs that only append certain calls\<close>

text \<open>
  \<open>emits P m\<close>: whatever happens, \<open>m\<close> extends the trace by calls that satisfy
  \<open>P\<close>. The collection of introduction rules follows the program text.
\<close>

definition emits :: "(sandbox_call \<Rightarrow> bool) \<Rightarrow> 'a prog \<Rightarrow> bool" where
  "emits P m \<longleftrightarrow> (\<forall>t. \<exists>cs. snd (m t) = t @ cs \<and> list_all P cs)"

named_theorems emits_rules

lemma emitsE:
  assumes "emits P m" and "m t = (r, t')"
  obtains cs where "t' = t @ cs" and "list_all P cs"
  using assms by (metis emits_def snd_conv)

lemma emits_silent: "(\<And>t. snd (m t) = t) \<Longrightarrow> emits P m"
  unfolding emits_def by (intro allI exI [of _ "[]"]) simp

lemma emits_ret [emits_rules]: "emits P (ret v)"
  by (rule emits_silent) (simp add: ret_def)

lemma emits_raise [emits_rules]: "emits P (raise e)"
  by (rule emits_silent) (simp add: raise_def)

lemma emits_lift [emits_rules]: "emits P (lift_result r)"
  by (rule emits_silent) (simp add: lift_result_def)

lemma emits_require [emits_rules]: "emits P (require b e)"
  by (rule emits_silent) (simp add: require_def)

lemma emits_parsed [emits_rules]: "emits P (parsed Q x)"
  by (rule emits_silent) (simp add: parsed_def)

lemma emits_perform [emits_rules]: "P c \<Longrightarrow> emits P (perform c reply)"
  by (auto simp: emits_def perform_def)

lemma emits_then:
  assumes "emits P m" and "\<And>r t. m t = (r, t') \<Longrightarrow> \<exists>cs. t'' = t' @ cs \<and> list_all P cs"
    and "m t = (r, t')"
  shows "\<exists>cs. t'' = t @ cs \<and> list_all P cs"
proof -
  from assms(1,3) obtain cs where cs: "t' = t @ cs" "list_all P cs" by (rule emitsE)
  from assms(2) [OF assms(3)] obtain ds where "t'' = t' @ ds" "list_all P ds" by blast
  with cs show ?thesis by auto
qed

lemma emits_bind [emits_rules]:
  assumes m: "emits P m" and f: "\<And>v. emits P (f v)"
  shows "emits P (bind m f)"
  unfolding emits_def
proof
  fix t
  obtain r t' where r: "m t = (r, t')" by (cases "m t")
  from m r obtain cs where cs: "t' = t @ cs" "list_all P cs" by (rule emitsE)
  show "\<exists>cs. snd (bind m f t) = t @ cs \<and> list_all P cs"
  proof (cases r)
    case (Inl e)
    with r cs show ?thesis by (simp add: bind_def)
  next
    case (Inr v)
    obtain r' t'' where r': "f v t' = (r', t'')" by (cases "f v t'")
    from f r' obtain ds where "t'' = t' @ ds" "list_all P ds" by (rule emitsE)
    with r r' cs Inr show ?thesis by (simp add: bind_def)
  qed
qed

text \<open>A continuation only runs on the values that the program before it returns.\<close>

lemma emits_bind_value:
  assumes m: "emits P m" and f: "\<And>v t t'. m t = (Inr v, t') \<Longrightarrow> emits P (f v)"
  shows "emits P (bind m f)"
  unfolding emits_def
proof
  fix t
  obtain r t' where r: "m t = (r, t')" by (cases "m t")
  from m r obtain cs where cs: "t' = t @ cs" "list_all P cs" by (rule emitsE)
  show "\<exists>cs. snd (bind m f t) = t @ cs \<and> list_all P cs"
  proof (cases r)
    case (Inl e)
    with r cs show ?thesis by (simp add: bind_def)
  next
    case (Inr v)
    obtain r' t'' where r': "f v t' = (r', t'')" by (cases "f v t'")
    from f r Inr have "emits P (f v)" by blast
    from this r' obtain ds where "t'' = t' @ ds" "list_all P ds" by (rule emitsE)
    with r r' cs Inr show ?thesis by (simp add: bind_def)
  qed
qed

lemma emits_catch [emits_rules]:
  assumes m: "emits P m" and f: "\<And>e. emits P (f e)"
  shows "emits P (catch m f)"
  unfolding emits_def
proof
  fix t
  obtain r t' where r: "m t = (r, t')" by (cases "m t")
  from m r obtain cs where cs: "t' = t @ cs" "list_all P cs" by (rule emitsE)
  show "\<exists>cs. snd (catch m f t) = t @ cs \<and> list_all P cs"
  proof (cases r)
    case (Inr v)
    with r cs show ?thesis by (simp add: catch_def)
  next
    case (Inl e)
    obtain r' t'' where r': "f e t' = (r', t'')" by (cases "f e t'")
    from f r' obtain ds where "t'' = t' @ ds" "list_all P ds" by (rule emitsE)
    with r r' cs Inl show ?thesis by (simp add: catch_def)
  qed
qed

lemma emits_finally [emits_rules]:
  assumes m: "emits P m" and f: "emits P f"
  shows "emits P (finally_do m f)"
  unfolding emits_def
proof
  fix t
  obtain r t' r' t'' where r: "m t = (r, t')" and r': "f t' = (r', t'')"
    by (cases "m t", cases "f (snd (m t))") simp
  from m r obtain cs where cs: "t' = t @ cs" "list_all P cs" by (rule emitsE)
  from f r' obtain ds where "t'' = t' @ ds" "list_all P ds" by (rule emitsE)
  with r r' cs show "\<exists>cs. snd (finally_do m f t) = t @ cs \<and> list_all P cs"
    by (simp add: finally_do_def split: sum.split)
qed

lemma emits_for_each [emits_rules]:
  "(\<And>x. x \<in> set xs \<Longrightarrow> emits P (f x)) \<Longrightarrow> emits P (for_each f xs)"
  by (induction xs) (auto intro!: emits_rules)

lemma emits_make_directory [emits_rules]: "P (MakeDirectory s p) \<Longrightarrow> emits P (make_directory w s p)"
  by (simp add: make_directory_def emits_perform)

lemma emits_read_file [emits_rules]: "P (ReadFile s p) \<Longrightarrow> emits P (read_file w s p)"
  by (simp add: read_file_def emits_perform)

lemma emits_write_files [emits_rules]: "P (WriteFiles s fs) \<Longrightarrow> emits P (write_files w s fs)"
  by (simp add: write_files_def emits_perform)

lemma emits_set_network_policy [emits_rules]:
  "P (SetNetworkPolicy s p) \<Longrightarrow> emits P (set_network_policy w s p)"
  by (simp add: set_network_policy_def emits_perform)

lemma emits_run_command [emits_rules]:
  "(sandbox_command_ok c \<Longrightarrow> P (RunCommand s c)) \<Longrightarrow> emits P (run_command w s c)"
  by (cases "sandbox_command_ok c")
     (auto simp: emits_def run_command_def bind_def parsed_def perform_def)

lemma emits_mono: "emits P m \<Longrightarrow> (\<And>c. P c \<Longrightarrow> Q c) \<Longrightarrow> emits Q m"
  unfolding emits_def by (meson list.pred_mono_strong)

lemma wp_make_directory [wp_rules]:
  "wp (make_directory w s p) Q E t =
     (let t' = t @ [MakeDirectory s p] in case unit_reply w t' of Inl e \<Rightarrow> E e t' | Inr v \<Rightarrow> Q v t')"
  by (simp add: make_directory_def wp_perform Let_def)

lemma wp_read_file [wp_rules]:
  "wp (read_file w s p) Q E t =
     (let t' = t @ [ReadFile s p] in case file_reply w t' of Inl e \<Rightarrow> E e t' | Inr v \<Rightarrow> Q v t')"
  by (simp add: read_file_def wp_perform Let_def)

lemma wp_write_files [wp_rules]:
  "wp (write_files w s fs) Q E t =
     (let t' = t @ [WriteFiles s fs] in case unit_reply w t' of Inl e \<Rightarrow> E e t' | Inr v \<Rightarrow> Q v t')"
  by (simp add: write_files_def wp_perform Let_def)

lemma wp_set_network_policy [wp_rules]:
  "wp (set_network_policy w s p) Q E t =
     (let t' = t @ [SetNetworkPolicy s p]
      in case unit_reply w t' of Inl e \<Rightarrow> E e t' | Inr v \<Rightarrow> Q v t')"
  by (simp add: set_network_policy_def wp_perform Let_def)

lemma wp_run_command [wp_rules]:
  "wp (run_command w s c) Q E t =
     (if sandbox_command_ok c
      then let t' = t @ [RunCommand s c]
           in case run_reply w t' of Inl e \<Rightarrow> E e t' | Inr v \<Rightarrow> Q v t'
      else E SchemaError t)"
  by (simp add: run_command_def wp_bind wp_parsed wp_perform Let_def)

section \<open>The network policy in force\<close>

text \<open>
  The policies that may be in force in a session after a trace: a call that was
  rejected may or may not have taken effect, so the policy before it stays possible.
\<close>

fun network_after :: "world \<Rightarrow> session \<Rightarrow> trace \<Rightarrow> trace \<Rightarrow> network_policy set \<Rightarrow> network_policy set" where
  "network_after w s done [] N = N"
| "network_after w s done (c # cs) N =
     network_after w s (done @ [c]) cs
       (case c of
          SetNetworkPolicy s' p \<Rightarrow>
            (if s' = s then
               (case unit_reply w (done @ [c]) of Inr _ \<Rightarrow> {p} | Inl _ \<Rightarrow> insert p N)
             else N)
        | _ \<Rightarrow> N)"

lemma network_after_append:
  "network_after w s pre (cs @ ds) N =
     network_after w s (pre @ cs) ds (network_after w s pre cs N)"
  by (induction cs arbitrary: pre N) (simp_all split: sandbox_call.split)

lemma network_after_other:
  "list_all (\<lambda>c. \<forall>p. c \<noteq> SetNetworkPolicy s p) cs \<Longrightarrow> network_after w s pre cs N = N"
  by (induction cs arbitrary: pre) (auto split: sandbox_call.split)

end
