(* ===== verification/SourceProvenance.thy ===== *)
theory SourceProvenance
  imports Sandbox
begin

text \<open>
  src/src/execution/source-provenance.ts: validation of the manifest of a source
  archive, resolution of an immutable revision, and the provenance record whose
  manifest hash identifies the validated tree.
\<close>

definition max_archive_bytes :: int where
  "max_archive_bytes = 100 * 1024 * 1024"

definition max_entries :: nat where
  "max_entries = 25000"

definition max_extracted_bytes :: int where
  "max_extracted_bytes = 500 * 1024 * 1024"

section \<open>Archive manifests\<close>

datatype entry_type =
    FileEntry | DirectoryEntry | SymlinkEntry | HardlinkEntry | DeviceEntry | FifoEntry
  | SocketEntry

record archive_entry =
  archive_path :: string
  archive_size :: int
  archive_type :: entry_type

record archive_input =
  input_bytes :: int
  input_sha256 :: string
  input_entries :: "archive_entry list"

definition archive_input_ok :: "archive_input \<Rightarrow> bool" where
  "archive_input_ok i \<longleftrightarrow>
     0 \<le> input_bytes i \<and> safe_int (input_bytes i) \<and> sha256_string (input_sha256 i) \<and>
     list_all (\<lambda>e. len_in 1 4096 (archive_path e) \<and> 0 \<le> archive_size e \<and>
       safe_int (archive_size e)) (input_entries i)"

record archive_manifest =
  manifest_bytes :: int
  manifest_archive_sha256 :: string
  manifest_extracted_bytes :: int
  manifest_file_count :: int
  manifest_files :: "(string \<times> int) list"
  manifest_root :: string

definition drive_path :: "string \<Rightarrow> bool" where
  "drive_path p \<longleftrightarrow>
     (case p of
        c # d # e # rest \<Rightarrow> (upper_char c \<or> lower_char c) \<and> d = CHR '':'' \<and>
          (e = CHR 0x5C \<or> e = CHR ''/'')
      | _ \<Rightarrow> False)"

definition is_safe_archive_path :: "string \<Rightarrow> bool" where
  "is_safe_archive_path p \<longleftrightarrow>
     (if starts_with ''/'' p \<or> starts_with [CHR 0x5C] p \<or> drive_path p \<or>
         List.member p (CHR 0x5C) \<or> list_ex control_char p
      then False
      else list_all safe_segment (split_on (CHR ''/'') p))"

record archive_scan =
  scan_root :: "string option"
  scan_bytes :: int
  scan_files :: "(string \<times> int) list"
  scan_seen :: "string list"

definition scan_entry :: "js_host \<Rightarrow> archive_entry \<Rightarrow> archive_scan \<Rightarrow> thrown + archive_scan" where
  "scan_entry h e st =
     (let normalized = nfc h (archive_path e);
          segments = split_on (CHR ''/'') normalized;
          top_dir = hd segments;
          relative = tl segments
      in if \<not> is_safe_archive_path normalized then Inl (ValidationError PathEscape)
         else if top_dir = [] \<or> top_dir = ''.'' \<or> top_dir = ''..'' then Inl (ValidationError InvalidRoot)
         else let st1 = (if scan_root st = None then st\<lparr>scan_root := Some top_dir\<rparr> else st) in
           if scan_root st1 \<noteq> Some top_dir then Inl (ValidationError MultipleRoots)
           else if relative = [] then
             (if archive_type e \<noteq> DirectoryEntry then Inl (ValidationError InvalidRoot) else Inr st1)
           else if archive_type e \<noteq> FileEntry \<and> archive_type e \<noteq> DirectoryEntry
           then Inl (ValidationError UnsafeEntryType)
           else let path = join ''/'' relative in
             if List.member (scan_seen st1) path then Inl (ValidationError DuplicatePath)
             else let st2 = st1\<lparr>scan_seen := path # scan_seen st1\<rparr> in
               if archive_type e = DirectoryEntry then Inr st2
               else let bytes = scan_bytes st2 + archive_size e in
                 if \<not> safe_int bytes \<or> max_extracted_bytes < bytes
                 then Inl (ValidationError ExtractedLimit)
                 else Inr (st2\<lparr>scan_bytes := bytes,
                   scan_files := scan_files st2 @ [(path, archive_size e)]\<rparr>))"

fun scan_entries :: "js_host \<Rightarrow> archive_entry list \<Rightarrow> archive_scan \<Rightarrow> thrown + archive_scan" where
  "scan_entries h [] st = Inr st"
| "scan_entries h (e # es) st = and_then (scan_entry h e st) (scan_entries h es)"

definition path_before :: "js_host \<Rightarrow> string \<times> int \<Rightarrow> string \<times> int \<Rightarrow> bool" where
  "path_before h a b \<longleftrightarrow> collate h (fst a) (fst b)"

definition validate_archive_manifest :: "js_host \<Rightarrow> archive_input \<Rightarrow> thrown + archive_manifest" where
  "validate_archive_manifest h raw =
     and_then (parse_as archive_input_ok (ValidationError InvalidManifest) raw) (\<lambda>i.
       if max_archive_bytes < input_bytes i \<or> max_entries < length (input_entries i)
       then Inl (ValidationError SourceArchiveLimit)
       else and_then (scan_entries h (input_entries i)
           \<lparr>scan_root = None, scan_bytes = 0, scan_files = [], scan_seen = []\<rparr>) (\<lambda>st.
         case scan_root st of
           None \<Rightarrow> Inl (ValidationError EmptyArchive)
         | Some top_dir \<Rightarrow>
             if length (scan_files st) = 0 then Inl (ValidationError EmptyArchive)
             else Inr \<lparr>manifest_bytes = input_bytes i, manifest_archive_sha256 = input_sha256 i,
               manifest_extracted_bytes = scan_bytes st,
               manifest_file_count = int (length (scan_files st)),
               manifest_files = sort_by (path_before h) (scan_files st),
               manifest_root = top_dir\<rparr>))"

section \<open>Revisions\<close>

record resolved_revision =
  resolved_commit :: string
  resolved_full_name :: string
  resolved_private :: bool
  resolved_repository_id :: string

record source_request =
  requested_commit :: string
  requested_repository_id :: string

definition source_request_ok :: "source_request \<Rightarrow> bool" where
  "source_request_ok r \<longleftrightarrow>
     commit_string (requested_commit r) \<and> identifier_ok ''._:-'' (requested_repository_id r)"

text \<open>The provider's answer to \<open>resolveRevision\<close> is the argument \<open>resolve\<close>.\<close>

definition resolve_immutable_source ::
  "(source_request \<Rightarrow> thrown + resolved_revision) \<Rightarrow> source_request
     \<Rightarrow> thrown + repository_source" where
  "resolve_immutable_source resolve raw =
     and_then (parse_as source_request_ok SchemaError raw) (\<lambda>i.
     and_then (resolve i) (\<lambda>r.
       if resolved_commit r \<noteq> requested_commit i \<or>
          resolved_repository_id r \<noteq> requested_repository_id i
       then Inl (ValidationError RevisionMismatch)
       else parse_as repository_source_ok SchemaError
         \<lparr>source_commit = resolved_commit r, source_full_name = resolved_full_name r,
          source_private = resolved_private r,
          source_repository_id = resolved_repository_id r\<rparr>))"

section \<open>Provenance\<close>

record source_provenance =
  prov_acquired_at :: int
  prov_archive_bytes :: int
  prov_archive_sha256 :: string
  prov_commit :: string
  prov_extracted_bytes :: int
  prov_file_count :: int
  prov_manifest_sha256 :: string
  prov_repository_id :: string

definition source_provenance_ok :: "source_provenance \<Rightarrow> bool" where
  "source_provenance_ok p \<longleftrightarrow>
     valid_instant (prov_acquired_at p) \<and> 0 \<le> prov_archive_bytes p \<and>
     safe_int (prov_archive_bytes p) \<and> sha256_string (prov_archive_sha256 p) \<and>
     commit_string (prov_commit p) \<and> 0 \<le> prov_extracted_bytes p \<and>
     safe_int (prov_extracted_bytes p) \<and> 0 < prov_file_count p \<and>
     prov_file_count p \<le> int max_entries \<and> sha256_string (prov_manifest_sha256 p) \<and>
     len_in 1 128 (prov_repository_id p)"

definition json_number_of :: "int \<Rightarrow> json" where
  "json_number_of n = JNum (int_text n)"

definition canonical_manifest_json :: "js_host \<Rightarrow> archive_manifest \<Rightarrow> string" where
  "canonical_manifest_json h m = json_text (JObj
     [(''archiveBytes'', json_number_of (manifest_bytes m)),
      (''archiveSha256'', JStr (manifest_archive_sha256 m)),
      (''extractedBytes'', json_number_of (manifest_extracted_bytes m)),
      (''fileCount'', json_number_of (manifest_file_count m)),
      (''files'', JArr (map (\<lambda>(p, n). JObj [(''path'', JStr p), (''size'', json_number_of n)])
         (sort_by (path_before h) (manifest_files m)))),
      (''rootDirectory'', JStr (manifest_root m))])"

definition create_source_provenance ::
  "js_host \<Rightarrow> int \<Rightarrow> archive_manifest \<Rightarrow> repository_source \<Rightarrow> thrown + source_provenance" where
  "create_source_provenance h acquired_at m raw =
     and_then (parse_as repository_source_ok SchemaError raw) (\<lambda>s.
       parse_as source_provenance_ok SchemaError
         \<lparr>prov_acquired_at = acquired_at, prov_archive_bytes = manifest_bytes m,
          prov_archive_sha256 = manifest_archive_sha256 m, prov_commit = source_commit s,
          prov_extracted_bytes = manifest_extracted_bytes m,
          prov_file_count = manifest_file_count m,
          prov_manifest_sha256 = sha256_hex h (utf8_encode (canonical_manifest_json h m)),
          prov_repository_id = source_repository_id s\<rparr>)"

section \<open>What a validated manifest guarantees\<close>

definition entry_segments :: "js_host \<Rightarrow> archive_entry \<Rightarrow> string list" where
  "entry_segments h e = split_on (CHR ''/'') (nfc h (archive_path e))"

text \<open>The files of the archive below its root, in the order of the archive.\<close>

definition archive_files :: "js_host \<Rightarrow> archive_entry list \<Rightarrow> (string \<times> int) list" where
  "archive_files h es =
     map (\<lambda>e. (join ''/'' (tl (entry_segments h e)), archive_size e))
       (filter (\<lambda>e. archive_type e = FileEntry) es)"

definition entry_safe :: "js_host \<Rightarrow> string \<Rightarrow> archive_entry \<Rightarrow> bool" where
  "entry_safe h top_dir e \<longleftrightarrow>
     hd (entry_segments h e) = top_dir \<and> list_all safe_segment (entry_segments h e) \<and>
     CHR 0x5C \<notin> set (nfc h (archive_path e)) \<and> \<not> list_ex control_char (nfc h (archive_path e)) \<and>
     (archive_type e = DirectoryEntry \<or>
      archive_type e = FileEntry \<and> tl (entry_segments h e) \<noteq> [])"

definition relative_paths :: "js_host \<Rightarrow> archive_entry list \<Rightarrow> string list" where
  "relative_paths h es =
     map (\<lambda>e. join ''/'' (tl (entry_segments h e)))
       (filter (\<lambda>e. tl (entry_segments h e) \<noteq> []) es)"

text \<open>The state of the scan after the entries \<open>es\<close>.\<close>

definition scan_invariant :: "js_host \<Rightarrow> archive_entry list \<Rightarrow> archive_scan \<Rightarrow> bool" where
  "scan_invariant h es st \<longleftrightarrow>
     (case scan_root st of None \<Rightarrow> es = [] | Some top_dir \<Rightarrow> \<forall>e \<in> set es. entry_safe h top_dir e) \<and>
     scan_files st = archive_files h es \<and>
     scan_bytes st = sum_list (map snd (archive_files h es)) \<and>
     scan_bytes st \<le> max_extracted_bytes \<and>
     scan_seen st = rev (relative_paths h es) \<and> distinct (scan_seen st)"

lemma safe_archive_path_segments:
  "is_safe_archive_path p \<Longrightarrow>
     list_all safe_segment (split_on (CHR ''/'') p) \<and> CHR 0x5C \<notin> set p \<and> \<not> list_ex control_char p"
  by (auto simp: is_safe_archive_path_def split: if_splits)

lemma scan_entry_step:
  assumes inv: "scan_invariant h es st" and step: "scan_entry h e st = Inr st'"
  shows "scan_invariant h (es @ [e]) st'"
proof -
  let ?top_dir = "hd (entry_segments h e)" and ?rel = "tl (entry_segments h e)"
  let ?path = "join ''/'' ?rel"
  have safe: "is_safe_archive_path (nfc h (archive_path e))"
    using step by (auto simp: scan_entry_def Let_def split: if_splits)
  note segs = safe_archive_path_segments [OF safe, folded entry_segments_def]
  have top_dir: "scan_root st' = Some ?top_dir" "scan_root st = None \<or> scan_root st = Some ?top_dir"
    using step by (auto simp: scan_entry_def Let_def entry_segments_def split: if_splits)
  have kind: "archive_type e = DirectoryEntry \<or> archive_type e = FileEntry \<and> ?rel \<noteq> []"
    using step by (auto simp: scan_entry_def Let_def entry_segments_def split: if_splits)
  have before: "\<forall>e' \<in> set es. entry_safe h ?top_dir e'"
    using inv top_dir(2) by (auto simp: scan_invariant_def)
  have one: "entry_safe h ?top_dir e" using segs kind by (simp add: entry_safe_def)
  have rest: "scan_files st' = archive_files h (es @ [e]) \<and>
      scan_bytes st' = sum_list (map snd (archive_files h (es @ [e]))) \<and>
      scan_bytes st' \<le> max_extracted_bytes \<and>
      scan_seen st' = rev (relative_paths h (es @ [e])) \<and> distinct (scan_seen st')"
    using step inv kind
    by (auto simp: scan_entry_def Let_def entry_segments_def archive_files_def relative_paths_def
        scan_invariant_def split: if_splits)
  show ?thesis
    unfolding scan_invariant_def top_dir(1) using before one rest by auto
qed

lemma scan_entries_invariant:
  "scan_invariant h pre st \<Longrightarrow> scan_entries h es st = Inr st' \<Longrightarrow> scan_invariant h (pre @ es) st'"
proof (induction es arbitrary: pre st)
  case Nil
  then show ?case by simp
next
  case (Cons e es)
  then obtain st1 where "scan_entry h e st = Inr st1" and "scan_entries h es st1 = Inr st'"
    by (auto simp: and_then_Inr_iff)
  then have "scan_invariant h ((pre @ [e]) @ es) st'"
    using Cons.prems(1) by (intro Cons.IH [of _ st1] scan_entry_step)
  then show ?case by simp
qed

lemma archive_files_paths:
  "\<forall>e \<in> set es. entry_safe h top_dir e \<Longrightarrow>
     set (map fst (archive_files h es)) \<subseteq> set (relative_paths h es)"
  by (auto simp: archive_files_def relative_paths_def entry_safe_def)

lemma archive_files_distinct:
  "\<forall>e \<in> set es. entry_safe h top_dir e \<Longrightarrow> distinct (relative_paths h es) \<Longrightarrow>
     distinct (map fst (archive_files h es))"
proof (induction es)
  case Nil
  then show ?case by (simp add: archive_files_def)
next
  case (Cons e es)
  then show ?case
    using archive_files_paths [of es h top_dir]
    by (auto simp: archive_files_def relative_paths_def entry_safe_def split: if_splits)
qed

lemma entry_safe_path:
  assumes "entry_safe h top_dir e" and "tl (entry_segments h e) \<noteq> []"
  shows "is_safe_relative_path (join ''/'' (tl (entry_segments h e)))"
proof -
  let ?p = "nfc h (archive_path e)" and ?ws = "tl (entry_segments h e)"
  have ne: "entry_segments h e \<noteq> []" by (simp add: entry_segments_def)
  have p: "?p = hd (entry_segments h e) @ ''/'' @ join ''/'' ?ws"
    using join_split_on [of "CHR ''/''" ?p] assms(2) ne
    by (metis entry_segments_def join_Cons list.collapse)
  have chars: "set (join ''/'' ?ws) \<subseteq> set ?p" by (subst p) auto
  have sep: "split_on (CHR ''/'') (join ''/'' ?ws) = ?ws"
    using assms(2) by (intro split_on_join)
      (auto simp: entry_segments_def dest: list.set_sel(2) [OF split_on_not_Nil] split_on_no_sep)
  have segs: "list_all safe_segment ?ws"
    using assms(1) ne by (cases "entry_segments h e") (auto simp: entry_safe_def)
  have "join ''/'' ?ws \<noteq> []"
  proof
    assume "join ''/'' ?ws = []"
    with sep have "?ws = [[]]" by simp
    with segs have "list_all safe_segment [[]]" by metis
    then show False by (simp add: safe_segment_def)
  qed
  then show ?thesis
    unfolding safe_relative_path_iff sep
    using assms(1) chars segs
    by (auto simp: entry_safe_def no_control_characters_def list_all_iff list_ex_iff)
qed

text \<open>
  C33. A manifest that passes validation lists exactly the regular files of the archive
  below its single root, each once and under a path that stays below the
  extraction directory; its byte count is the sum of the sizes and within the limit;
  every other entry is a directory.
\<close>

theorem validated_manifest_is_faithful:
  assumes "validate_archive_manifest h i = Inr m"
  shows "mset (manifest_files m) = mset (archive_files h (input_entries i)) \<and>
    distinct (map fst (manifest_files m)) \<and>
    (\<forall>(p, n) \<in> set (manifest_files m). is_safe_relative_path p \<and> 0 \<le> n) \<and>
    manifest_extracted_bytes m = sum_list (map snd (manifest_files m)) \<and>
    manifest_extracted_bytes m \<le> max_extracted_bytes \<and>
    manifest_file_count m = int (length (manifest_files m)) \<and>
    0 < manifest_file_count m \<and> manifest_file_count m \<le> int max_entries \<and>
    (\<forall>e \<in> set (input_entries i). entry_safe h (manifest_root m) e)"
proof -
  let ?es = "input_entries i"
  obtain st where ok: "archive_input_ok i" and len: "length ?es \<le> max_entries"
    and scan: "scan_entries h ?es \<lparr>scan_root = None, scan_bytes = 0, scan_files = [], scan_seen = []\<rparr> =
      Inr st"
    and top_dir: "scan_root st = Some (manifest_root m)" and ne: "scan_files st \<noteq> []"
    and m: "manifest_extracted_bytes m = scan_bytes st"
      "manifest_file_count m = int (length (scan_files st))"
      "manifest_files m = sort_by (path_before h) (scan_files st)"
    using assms
    by (auto simp: validate_archive_manifest_def and_then_Inr_iff split: if_splits option.splits)
  have "scan_invariant h [] \<lparr>scan_root = None, scan_bytes = 0, scan_files = [], scan_seen = []\<rparr>"
    by (simp add: scan_invariant_def archive_files_def relative_paths_def max_extracted_bytes_def)
  from scan_entries_invariant [OF this scan] have inv: "scan_invariant h ?es st" by simp
  have files: "scan_files st = archive_files h ?es" and seen: "distinct (relative_paths h ?es)"
    and safe: "\<forall>e \<in> set ?es. entry_safe h (manifest_root m) e"
    using inv top_dir by (auto simp: scan_invariant_def)
  have each: "is_safe_relative_path p \<and> 0 \<le> n" if pn: "(p, n) \<in> set (archive_files h ?es)" for p n
  proof -
    obtain e where e: "e \<in> set ?es" "archive_type e = FileEntry" "n = archive_size e"
      "p = join ''/'' (tl (entry_segments h e))"
      using pn by (auto simp: archive_files_def)
    then have "entry_safe h (manifest_root m) e" "tl (entry_segments h e) \<noteq> []"
      using safe by (auto simp: entry_safe_def)
    moreover have "0 \<le> archive_size e" using ok e(1) by (auto simp: archive_input_ok_def list_all_iff)
    ultimately show ?thesis using e entry_safe_path by simp
  qed
  have "length (archive_files h ?es) \<le> length ?es" by (simp add: archive_files_def)
  moreover have "sum_list (map snd (manifest_files m)) = sum_list (map snd (archive_files h ?es))"
    using files m(3) by (metis mset_map mset_sort_by sum_mset_sum_list)
  moreover have "distinct (map fst (manifest_files m))"
    unfolding m(3) files using archive_files_distinct [OF safe seen] by simp
  ultimately show ?thesis
    using inv files ne len each safe m
    by (auto simp: scan_invariant_def)
qed

definition sample_archive :: archive_input where
  "sample_archive =
     \<lparr>input_bytes = 10, input_sha256 = replicate 64 (CHR ''a''),
      input_entries =
        [\<lparr>archive_path = ''r'', archive_size = 0, archive_type = DirectoryEntry\<rparr>,
         \<lparr>archive_path = ''r/b'', archive_size = 2, archive_type = FileEntry\<rparr>,
         \<lparr>archive_path = ''r/a/c'', archive_size = 3, archive_type = FileEntry\<rparr>]\<rparr>"

lemma sample_archive_validates:
  "validate_archive_manifest plain_host sample_archive = Inr
     \<lparr>manifest_bytes = 10, manifest_archive_sha256 = replicate 64 (CHR ''a''),
      manifest_extracted_bytes = 5, manifest_file_count = 2,
      manifest_files = [(''b'', 2), (''a/c'', 3)], manifest_root = ''r''\<rparr>"
proof -
  have "archive_input_ok sample_archive"
    by (simp add: archive_input_ok_def sample_archive_def safe_int_def max_safe_integer_def
        sha256_string_def hex_string_def hex_char_def code_unit_def len_in_def list_all_iff)
  then show ?thesis
    by (simp add: validate_archive_manifest_def sample_archive_def max_archive_bytes_def
        max_entries_def scan_entry_def is_safe_archive_path_def drive_path_def control_char_def
        code_unit_def safe_segment_def safe_int_def max_safe_integer_def max_extracted_bytes_def
        path_before_def plain_host_def Let_def)
qed

theorem validated_manifest_is_faithful_witness:
  "distinct (map fst [(''b'', 2 :: int), (''a/c'', 3)]) \<and>
   is_safe_relative_path ''a/c'' \<and> (5 :: int) \<le> max_extracted_bytes"
  using validated_manifest_is_faithful [OF sample_archive_validates] by simp

text \<open>
  The provenance hash identifies the tree, not the order of the listing: manifests
  that list the same files in another order get the same hash, if the collation
  separates different paths.
\<close>

theorem manifest_hash_ignores_file_order:
  assumes "comparator_order (collate h)"
    and "\<And>p q. p \<in> set (map fst (manifest_files m)) \<Longrightarrow> q \<in> set (map fst (manifest_files m)) \<Longrightarrow>
      collate h p q \<Longrightarrow> collate h q p \<Longrightarrow> p = q"
    and "distinct (map fst (manifest_files m))"
    and "mset files = mset (manifest_files m)"
  shows "create_source_provenance h instant (m\<lparr>manifest_files := files\<rparr>) s =
    create_source_provenance h instant m s"
proof -
  have comp: "comparator_order (path_before h)"
  proof -
    from assms(1) have t: "collate h a b \<or> collate h b a"
      and tr: "collate h a b \<Longrightarrow> collate h b c \<Longrightarrow> collate h a c" for a b c
      unfolding comparator_order_def by blast+
    show ?thesis by unfold_locales (use t tr in \<open>auto simp: path_before_def\<close>)
  qed
  have same: "x = y" if "x \<in> set files" "y \<in> set files" "path_before h x y" "path_before h y x"
    for x y
  proof -
    have in_m: "x \<in> set (manifest_files m)" "y \<in> set (manifest_files m)"
      using that assms(4) by (metis set_mset_mset)+
    then have "fst x = fst y" using assms(2) that(3,4) by (simp add: path_before_def)
    then show ?thesis using in_m assms(3) by (metis eq_key_imp_eq_value prod.collapse)
  qed
  have "sort_by (path_before h) files = sort_by (path_before h) (manifest_files m)"
    using comparator_order.sort_by_permutation [OF comp assms(4)] same by blast
  then show ?thesis
    by (simp add: create_source_provenance_def canonical_manifest_json_def)
qed

definition sample_source :: repository_source where
  "sample_source =
     \<lparr>source_commit = replicate 40 (CHR ''c''), source_full_name = ''o/r'', source_private = False,
      source_repository_id = ''1''\<rparr>"

definition sample_manifest :: "(string \<times> int) list \<Rightarrow> archive_manifest" where
  "sample_manifest files =
     \<lparr>manifest_bytes = 10, manifest_archive_sha256 = replicate 64 (CHR ''a''),
      manifest_extracted_bytes = 5, manifest_file_count = 2, manifest_files = files,
      manifest_root = ''r''\<rparr>"

theorem manifest_hash_ignores_file_order_witness:
  "create_source_provenance plain_host 0 (sample_manifest [(''a/c'', 3), (''b'', 2)]) sample_source =
   create_source_provenance plain_host 0 (sample_manifest [(''b'', 2), (''a/c'', 3)]) sample_source"
proof -
  let ?m = "sample_manifest [(''b'', 2), (''a/c'', 3)]" and ?fs = "[(''a/c'', 3 :: int), (''b'', 2)]"
  have comp: "comparator_order (collate plain_host)" by unfold_locales (auto simp: plain_host_def)
  have anti: "p = q" if "p \<in> set (map fst (manifest_files ?m))" "q \<in> set (map fst (manifest_files ?m))"
    "collate plain_host p q" "collate plain_host q p" for p q
    using that by (auto simp: sample_manifest_def plain_host_def)
  have "distinct (map fst (manifest_files ?m))" "mset ?fs = mset (manifest_files ?m)"
    by (simp_all add: sample_manifest_def)
  from manifest_hash_ignores_file_order [OF comp anti this, of 0 sample_source]
  show ?thesis by (simp add: sample_manifest_def)
qed

text \<open>A resolved source is pinned to the requested commit of the requested repository.\<close>

lemma resolved_source_is_pinned:
  assumes "resolve_immutable_source resolve r = Inr s"
  shows "source_commit s = requested_commit r \<and> source_repository_id s = requested_repository_id r \<and>
    repository_source_ok s"
  using assms by (auto simp: resolve_immutable_source_def and_then_Inr_iff split: if_splits)

end
