(* ===== verification/Dependency.thy ===== *)
theory Dependency
  imports SourceProvenance JsonLaws
begin

text \<open>
  src/src/execution/dependency-preparation.ts: the checks on package.json and
  package-lock.json, and the preparation of the dependencies of a session: copy,
  open the network to the npm registry, fetch into the cache, lock the network
  again whatever happened, and install offline.
\<close>

definition dependency_workspace :: string where
  "dependency_workspace = sandbox_workspace_root @ ''/dependency-acquisition''"

definition cache_path :: string where
  "cache_path = sandbox_root @ ''/npm-cache''"

definition package_json_limit :: nat where
  "package_json_limit = 1024 * 1024"

definition lockfile_limit :: nat where
  "lockfile_limit = 20 * 1024 * 1024"

definition dependency_limit :: nat where
  "dependency_limit = 10000"

definition disallowed_config_names :: "string list" where
  "disallowed_config_names =
     [''.npmrc'', ''.yarnrc'', ''.yarnrc.yml'', ''bun.lock'', ''bun.lockb'',
      ''npm-shrinkwrap.json'', ''pnpm-lock.yaml'', ''pnpm-workspace.yaml'', ''yarn.lock'']"

record dependency_metadata =
  dependency_count :: int
  lockfile_sha256 :: string
  lockfile_version :: nat
  package_json_sha256 :: string

definition dependency_metadata_ok :: "dependency_metadata \<Rightarrow> bool" where
  "dependency_metadata_ok d \<longleftrightarrow>
     0 \<le> dependency_count d \<and> dependency_count d \<le> int dependency_limit \<and>
     sha256_string (lockfile_sha256 d) \<and> (lockfile_version d = 2 \<or> lockfile_version d = 3) \<and>
     sha256_string (package_json_sha256 d)"

section \<open>The metadata checks\<close>

abbreviation unsupported :: thrown where
  "unsupported \<equiv> DependencyError DependencyUnsupported"

definition decode_json :: "js_host \<Rightarrow> string \<Rightarrow> nat \<Rightarrow> thrown + json" where
  "decode_json h bytes limit =
     (if length bytes = 0 \<or> limit < length bytes then Inl unsupported
      else case utf8_decode h bytes of
        None \<Rightarrow> Inl unsupported
      | Some text \<Rightarrow> (case json_parse h text of None \<Rightarrow> Inl unsupported | Some v \<Rightarrow> Inr v))"

definition json_record :: "json option \<Rightarrow> thrown + (string \<times> json) list" where
  "json_record v = (case v of Some (JObj kvs) \<Rightarrow> Inr kvs | _ \<Rightarrow> Inl unsupported)"

definition ascii_lower :: "char \<Rightarrow> char" where
  "ascii_lower c = (if upper_char c then char_of (code_unit c + 32) else c)"

text \<open>\<open>String.prototype.toLowerCase\<close> on code units below 256.\<close>

definition lower_unit :: "char \<Rightarrow> char" where
  "lower_unit c =
     (if upper_char c \<or> (192 \<le> code_unit c \<and> code_unit c \<le> 222 \<and> code_unit c \<noteq> 215)
      then char_of (code_unit c + 32) else c)"

definition remote_specifier :: "string \<Rightarrow> bool" where
  "remote_specifier s \<longleftrightarrow>
     list_ex (\<lambda>p. starts_with p (map ascii_lower s))
       [''http:'', ''https:'', ''git+'', ''git:'', ''github:'', ''file:'', ''link:'', ''/'', ''./'',
        ''../'']"

definition specifier_ok :: "node_profile \<Rightarrow> string \<times> json \<Rightarrow> bool" where
  "specifier_ok p kv \<longleftrightarrow>
     length (fst kv) \<noteq> 0 \<and> length (fst kv) \<le> 214 \<and>
     (case snd kv of
        JStr s \<Rightarrow> length s \<noteq> 0 \<and> length s \<le> 512 \<and> \<not> list_ex control_char s \<and>
          \<not> remote_specifier s \<and>
          \<not> (starts_with ''workspace:'' s \<and> profile_workspace p = None)
      | _ \<Rightarrow> False)"

definition dependency_fields :: "string list" where
  "dependency_fields =
     [''dependencies'', ''devDependencies'', ''optionalDependencies'', ''peerDependencies'']"

fun validate_specifiers ::
  "node_profile \<Rightarrow> (string \<times> json) list \<Rightarrow> string list \<Rightarrow> thrown + unit" where
  "validate_specifiers p pkg [] = Inr ()"
| "validate_specifiers p pkg (fld # flds) =
     (case map_of pkg fld of
        None \<Rightarrow> validate_specifiers p pkg flds
      | Some v \<Rightarrow>
          and_then (json_record (Some v)) (\<lambda>deps.
            if list_all (specifier_ok p) deps then validate_specifiers p pkg flds
            else Inl unsupported))"

definition base64_char :: "char \<Rightarrow> bool" where
  "base64_char c \<longleftrightarrow> alnum_char c \<or> c = CHR ''+'' \<or> c = CHR ''/''"

definition valid_integrity :: "json option \<Rightarrow> bool" where
  "valid_integrity v =
     (case v of
        Some (JStr s) \<Rightarrow>
          starts_with ''sha512-'' s \<and>
          (let body = takeWhile base64_char (drop 7 s); padding = dropWhile base64_char (drop 7 s)
           in body \<noteq> [] \<and> padding \<in> {'''', ''='', ''==''} \<and> 3 * length body div 4 = 64)
      | _ \<Rightarrow> False)"

definition valid_registry_resolution :: "js_host \<Rightarrow> json option \<Rightarrow> bool" where
  "valid_registry_resolution h v =
     (case v of
        Some (JStr s) \<Rightarrow> length s \<le> 2048 \<and>
          (case parse_url h s of
             None \<Rightarrow> False
           | Some u \<Rightarrow>
               url_protocol u = ''https:'' \<and> url_hostname u = ''registry.npmjs.org'' \<and>
               url_username u = [] \<and> url_password u = [] \<and> url_search u = [] \<and> url_hash u = [] \<and>
               starts_with ''/'' (url_pathname u))
      | _ \<Rightarrow> False)"

definition validate_manifest :: "archive_manifest \<Rightarrow> node_profile \<Rightarrow> thrown + unit" where
  "validate_manifest m p =
     (if list_ex (\<lambda>f. List.member disallowed_config_names
           (map lower_unit (last (split_on (CHR ''/'') (fst f))))) (manifest_files m)
      then Inl unsupported
      else
        let paths = map fst (manifest_files m) in
        if \<not> List.member paths ''package-lock.json'' \<or>
           \<not> List.member paths
             (case profile_workspace p of
                Some ws \<Rightarrow> ws @ ''/package.json'' | None \<Rightarrow> ''package.json'')
        then Inl unsupported else Inr ())"

definition script_ok :: "(string \<times> json) list \<Rightarrow> string \<Rightarrow> bool" where
  "script_ok scripts name =
     (case map_of scripts name of
        Some (JStr s) \<Rightarrow>
          length s \<noteq> 0 \<and> length s \<le> 10000 \<and> \<not> List.member s (CHR 0x00)
      | _ \<Rightarrow> False)"

text \<open>\<open>[0-9]+\.[0-9]+\.[0-9]+(?:-[A-Za-z0-9.-]+)?\<close>, the whole text.\<close>

definition semver_text :: "string \<Rightarrow> bool" where
  "semver_text s \<longleftrightarrow>
     (let major = takeWhile digit_char s; r1 = dropWhile digit_char s;
          minor = takeWhile digit_char (drop 1 r1); r2 = dropWhile digit_char (drop 1 r1);
          patch = takeWhile digit_char (drop 1 r2); r3 = dropWhile digit_char (drop 1 r2)
      in major \<noteq> [] \<and> starts_with ''.'' r1 \<and> minor \<noteq> [] \<and> starts_with ''.'' r2 \<and> patch \<noteq> [] \<and>
         (r3 = [] \<or> starts_with ''-'' r3 \<and> drop 1 r3 \<noteq> [] \<and>
            list_all (\<lambda>c. alnum_char c \<or> c = CHR ''.'' \<or> c = CHR ''-'') (drop 1 r3)))"

definition npm_package_manager :: "string \<Rightarrow> bool" where
  "npm_package_manager s \<longleftrightarrow> starts_with ''npm@'' s \<and> semver_text (drop 4 s)"

text \<open>One entry of \<open>packages\<close>: an error, a skipped entry, or a counted dependency.\<close>

definition lock_entry :: "js_host \<Rightarrow> node_profile \<Rightarrow> string \<times> json \<Rightarrow> thrown + nat" where
  "lock_entry h p kv =
     and_then (json_record (Some (snd kv))) (\<lambda>entry.
       if fst kv = [] \<or> Some (fst kv) = profile_workspace p then Inr 0
       else if \<not> is_safe_relative_path (fst kv) then Inl unsupported
       else if \<not> List.member (split_on (CHR ''/'') (fst kv)) ''node_modules'' then Inl unsupported
       else if map_of entry ''link'' = Some (JBool True) then
         (case profile_workspace p of
            None \<Rightarrow> Inl unsupported
          | Some ws \<Rightarrow>
              if map_of entry ''resolved'' \<noteq> Some (JStr ws) \<or> \<not> is_safe_relative_path ws
              then Inl unsupported else Inr 0)
       else if \<not> valid_registry_resolution h (map_of entry ''resolved'') \<or>
               \<not> valid_integrity (map_of entry ''integrity'')
       then Inl unsupported
       else Inr 1)"

definition lock_version :: "json option \<Rightarrow> thrown + nat" where
  "lock_version v =
     (if v = Some (JNum ''2'') then Inr 2
      else if v = Some (JNum ''3'') then Inr 3 else Inl unsupported)"

definition validate_dependency_metadata ::
  "js_host \<Rightarrow> string \<Rightarrow> archive_manifest \<Rightarrow> string \<Rightarrow> node_profile
     \<Rightarrow> thrown + dependency_metadata" where
  "validate_dependency_metadata h lock_bytes m package_bytes raw =
     and_then (parse_as node_profile_ok SchemaError raw) (\<lambda>p.
     and_then (validate_manifest m p) (\<lambda>_.
     and_then (decode_json h package_bytes package_json_limit) (\<lambda>pkg_json.
     and_then (json_record (Some pkg_json)) (\<lambda>pkg.
     and_then (decode_json h lock_bytes lockfile_limit) (\<lambda>lock_json.
     and_then (json_record (Some lock_json)) (\<lambda>lock.
     and_then (json_record (map_of pkg ''scripts'')) (\<lambda>scripts.
     and_then (check (script_ok scripts (control_script p) \<and>
         script_ok scripts (reproduction_script p)) unsupported) (\<lambda>_.
     and_then (check
         (case map_of pkg ''packageManager'' of
            None \<Rightarrow> True | Some (JStr s) \<Rightarrow> npm_package_manager s | _ \<Rightarrow> False) unsupported) (\<lambda>_.
     and_then (validate_specifiers p pkg dependency_fields) (\<lambda>_.
     and_then (lock_version (map_of lock ''lockfileVersion'')) (\<lambda>version.
     and_then (json_record (map_of lock ''packages'')) (\<lambda>entries.
     and_then (check (length entries \<noteq> 0 \<and> length entries \<le> dependency_limit + 1) unsupported) (\<lambda>_.
     and_then (collect (lock_entry h p) entries) (\<lambda>counts.
     and_then (check (sum_list counts \<le> dependency_limit) unsupported) (\<lambda>_.
       parse_as dependency_metadata_ok SchemaError
         \<lparr>dependency_count = int (sum_list counts),
          lockfile_sha256 = sha256_hex h lock_bytes,
          lockfile_version = version,
          package_json_sha256 = sha256_hex h package_bytes\<rparr>)))))))))))))))"

section \<open>Preparation in a session\<close>

record prepared_dependencies =
  prepared_metadata :: dependency_metadata
  install_workspace :: string

definition assert_source_workspace :: "string \<Rightarrow> unit prog" where
  "assert_source_workspace path =
     require (starts_with (sandbox_workspace_root @ ''/'') path \<and>
       is_safe_relative_path (drop (length sandbox_workspace_root + 1) path)) unsupported"

text \<open>
  \<open>Promise.all\<close> of two session calls: both are made; the first rejection in
  argument order is reported.
\<close>

definition both :: "'a prog \<Rightarrow> 'b prog \<Rightarrow> ('a \<times> 'b) prog" where
  "both m n t =
     (case m t of (r1, t1) \<Rightarrow> (case n t1 of (r2, t2) \<Rightarrow>
        (and_then r1 (\<lambda>a. and_then r2 (\<lambda>b. Inr (a, b))), t2)))"

definition copy_source_command :: "string \<Rightarrow> sandbox_command" where
  "copy_source_command ws =
     \<lparr>cmd_args = [''-a'', ws @ ''/.'', dependency_workspace], cmd_cwd = ws, cmd_executable = Cp,
      cmd_phase = DependencyAcquisition, cmd_timeout_ms = 120000\<rparr>"

definition npm_fetch_command :: sandbox_command where
  "npm_fetch_command =
     \<lparr>cmd_args = [''ci'', ''--ignore-scripts'', ''--no-audit'', ''--no-fund'', ''--cache'', cache_path,
        ''--prefer-online''],
      cmd_cwd = dependency_workspace, cmd_executable = Npm, cmd_phase = DependencyAcquisition,
      cmd_timeout_ms = 120000\<rparr>"

definition npm_install_command :: "string \<Rightarrow> sandbox_command" where
  "npm_install_command ws =
     \<lparr>cmd_args = [''ci'', ''--ignore-scripts'', ''--offline'', ''--no-audit'', ''--no-fund'',
        ''--cache'', cache_path],
      cmd_cwd = ws, cmd_executable = Npm, cmd_phase = OfflineInstall, cmd_timeout_ms = 120000\<rparr>"

definition npm_registry_policy :: network_policy where
  "npm_registry_policy = AllowHosts [''registry.npmjs.org''] NpmAcquisition"

definition is_dependency_error :: "thrown \<Rightarrow> bool" where
  "is_dependency_error e = (case e of DependencyError _ \<Rightarrow> True | _ \<Rightarrow> False)"

definition fetch_online :: "world \<Rightarrow> session \<Rightarrow> unit prog" where
  "fetch_online w s =
     finally_do
       (catch
         (bind (set_network_policy w s npm_registry_policy) (\<lambda>_.
          bind (run_command w s npm_fetch_command) (\<lambda>acquired.
            require (result_exit_code acquired = 0) (DependencyError DependencyAcquisitionFailed))))
         (\<lambda>e. if is_dependency_error e then raise e
              else raise (DependencyError DependencyAcquisitionFailed)))
       (catch (set_network_policy w s DenyAll)
         (\<lambda>_. raise (DependencyError DependencyLockdownFailed)))"

definition prepare_dependencies ::
  "js_host \<Rightarrow> world \<Rightarrow> archive_manifest \<Rightarrow> node_profile \<Rightarrow> session \<Rightarrow> string
     \<Rightarrow> prepared_dependencies prog" where
  "prepare_dependencies h w m raw s ws =
     bind (parsed node_profile_ok raw) (\<lambda>p.
     bind (assert_source_workspace ws) (\<lambda>_.
     bind (both
       (read_file w s
         (case profile_workspace p of
            Some sub \<Rightarrow> ws @ ''/'' @ sub @ ''/package.json'' | None \<Rightarrow> ws @ ''/package.json''))
       (read_file w s (ws @ ''/package-lock.json''))) (\<lambda>(package_bytes, lock_bytes).
     bind (lift_result (case (package_bytes, lock_bytes) of
         (Some pb, Some lb) \<Rightarrow> validate_dependency_metadata h lb m pb p
       | _ \<Rightarrow> Inl unsupported)) (\<lambda>metadata.
     bind (make_directory w s dependency_workspace) (\<lambda>_.
     bind (make_directory w s cache_path) (\<lambda>_.
     bind (run_command w s (copy_source_command ws)) (\<lambda>copied.
     bind (require (result_exit_code copied = 0)
       (DependencyError DependencyAcquisitionFailed)) (\<lambda>_.
     bind (fetch_online w s) (\<lambda>_.
     bind (run_command w s (npm_install_command ws)) (\<lambda>installed.
     bind (require (result_exit_code installed = 0) (DependencyError OfflineInstallFailed)) (\<lambda>_.
       ret \<lparr>prepared_metadata = metadata, install_workspace = ws\<rparr>)))))))))))"

section \<open>Accepted lockfiles are pinned to the registry\<close>

definition third_party :: "node_profile \<Rightarrow> string \<times> json \<Rightarrow> bool" where
  "third_party p kv \<longleftrightarrow>
     fst kv \<noteq> [] \<and> Some (fst kv) \<noteq> profile_workspace p \<and>
     (\<exists>entry. snd kv = JObj entry \<and> map_of entry ''link'' \<noteq> Some (JBool True))"

definition registry_pinned :: "js_host \<Rightarrow> json \<Rightarrow> bool" where
  "registry_pinned h v \<longleftrightarrow>
     (\<exists>entry. v = JObj entry \<and> valid_registry_resolution h (map_of entry ''resolved'') \<and>
        valid_integrity (map_of entry ''integrity''))"

definition workspace_link :: "node_profile \<Rightarrow> json \<Rightarrow> bool" where
  "workspace_link p v \<longleftrightarrow>
     (\<exists>entry ws. v = JObj entry \<and> map_of entry ''link'' = Some (JBool True) \<and>
        profile_workspace p = Some ws \<and> map_of entry ''resolved'' = Some (JStr ws))"

lemma json_record_Inr: "json_record v = Inr kvs \<longleftrightarrow> v = Some (JObj kvs)"
  by (auto simp: json_record_def split: option.splits json.splits)

lemma decode_json_Inr:
  "decode_json h bytes limit = Inr v \<Longrightarrow>
     length bytes \<le> limit \<and> (\<exists>text. utf8_decode h bytes = Some text \<and> json_parse h text = Some v)"
  by (auto simp: decode_json_def split: if_splits option.splits)

lemma lock_entry_Inr:
  assumes "lock_entry h p kv = Inr n"
  shows "n = (if third_party p kv then 1 else 0) \<and>
    (third_party p kv \<longrightarrow> registry_pinned h (snd kv)) \<and>
    (fst kv \<noteq> [] \<and> Some (fst kv) \<noteq> profile_workspace p \<longrightarrow>
       is_safe_relative_path (fst kv) \<and> ''node_modules'' \<in> set (split_on (CHR ''/'') (fst kv)) \<and>
       (third_party p kv \<or> workspace_link p (snd kv)))"
  using assms
  by (auto simp: lock_entry_def and_then_Inr_iff json_record_Inr third_party_def registry_pinned_def
      workspace_link_def split: if_splits option.splits)

lemma lock_entries_Inr:
  "collect (lock_entry h p) entries = Inr counts \<Longrightarrow>
     sum_list counts = length (filter (third_party p) entries) \<and>
     (\<forall>kv \<in> set entries. \<exists>n. lock_entry h p kv = Inr n)"
proof (induction entries arbitrary: counts)
  case Nil
  then show ?case by simp
next
  case (Cons kv entries)
  then obtain n ns where "lock_entry h p kv = Inr n" "collect (lock_entry h p) entries = Inr ns"
    "counts = n # ns" by (auto simp: and_then_Inr_iff)
  then show ?case using Cons.IH [of ns] lock_entry_Inr [of h p kv n] by auto
qed

text \<open>
  C34. Every third-party package of an accepted lockfile is resolved from the npm
  registry over https, without credentials, and carries a SHA-512 integrity value;
  its path is a safe path below a \<open>node_modules\<close> directory; the only other entries
  are the root, the declared workspace and links to that workspace. The metadata
  counts exactly the third-party packages, at most 10,000, and hashes the bytes that
  were checked.
\<close>

theorem accepted_lockfile_is_registry_pinned:
  assumes "validate_dependency_metadata h lock_bytes m package_bytes p = Inr d"
  shows "\<exists>text lock entries. utf8_decode h lock_bytes = Some text \<and>
    json_parse h text = Some (JObj lock) \<and> map_of lock ''packages'' = Some (JObj entries) \<and>
    (\<forall>kv \<in> set entries. fst kv \<noteq> [] \<and> Some (fst kv) \<noteq> profile_workspace p \<longrightarrow>
       is_safe_relative_path (fst kv) \<and> ''node_modules'' \<in> set (split_on (CHR ''/'') (fst kv)) \<and>
       (registry_pinned h (snd kv) \<or> workspace_link p (snd kv))) \<and>
    dependency_count d = int (length (filter (third_party p) entries)) \<and>
    dependency_count d \<le> 10000 \<and>
    lockfile_sha256 d = sha256_hex h lock_bytes \<and>
    package_json_sha256 d = sha256_hex h package_bytes"
proof -
  obtain lock_json lock entries counts where
    dec: "decode_json h lock_bytes lockfile_limit = Inr lock_json"
    and lock: "lock_json = JObj lock" "map_of lock ''packages'' = Some (JObj entries)"
    and counts: "collect (lock_entry h p) entries = Inr counts"
    and d: "dependency_metadata_ok d" "dependency_count d = int (sum_list counts)"
      "lockfile_sha256 d = sha256_hex h lock_bytes" "package_json_sha256 d = sha256_hex h package_bytes"
    using assms
    by (auto simp: validate_dependency_metadata_def and_then_Inr_iff json_record_Inr)
  from decode_json_Inr [OF dec] obtain src where src: "utf8_decode h lock_bytes = Some src"
    "json_parse h src = Some (JObj lock)" using lock by blast
  have each: "is_safe_relative_path (fst kv) \<and> ''node_modules'' \<in> set (split_on (CHR ''/'') (fst kv)) \<and>
       (registry_pinned h (snd kv) \<or> workspace_link p (snd kv))"
    if "kv \<in> set entries" "fst kv \<noteq> [] \<and> Some (fst kv) \<noteq> profile_workspace p" for kv
    using lock_entries_Inr [OF counts] lock_entry_Inr [of h p kv] that by blast
  show ?thesis
    using src lock(2) each d lock_entries_Inr [OF counts]
    by (intro exI [of _ src] exI [of _ lock] exI [of _ entries])
       (auto simp: dependency_metadata_ok_def dependency_limit_def)
qed

section \<open>The network is locked again\<close>

text \<open>Each command of a trace with the policies that may have been in force when it ran.\<close>

fun commands_under ::
  "world \<Rightarrow> session \<Rightarrow> trace \<Rightarrow> trace \<Rightarrow> network_policy set
     \<Rightarrow> (sandbox_command \<times> network_policy set) list" where
  "commands_under w s done [] N = []"
| "commands_under w s done (c # cs) N =
     (case c of RunCommand s' cmd \<Rightarrow> (if s' = s then [(cmd, N)] else []) | _ \<Rightarrow> []) @
     commands_under w s (done @ [c]) cs (network_after w s done [c] N)"

definition locked_commands :: "(sandbox_command \<times> network_policy set) list \<Rightarrow> bool" where
  "locked_commands xs \<longleftrightarrow>
     (\<forall>(c, N) \<in> set xs. N = {DenyAll} \<or> c = npm_fetch_command \<and> N \<subseteq> {npm_registry_policy})"

lemma wp_both [wp_rules]:
  "wp (both m n) Q E t =
     wp m (\<lambda>a. wp n (\<lambda>b. Q (a, b)) E) (\<lambda>e. wp n (\<lambda>_. E e) (\<lambda>_. E e)) t"
  by (auto simp: wp_def both_def split: prod.split sum.split)

text \<open>
  \<open>net_state w s t N t'\<close>: the trace \<open>t'\<close> extends \<open>t\<close>, where the network was
  denied; the commands in between were locked down, and \<open>N\<close> are the policies that
  may be in force now.
\<close>

definition net_state ::
  "world \<Rightarrow> session \<Rightarrow> trace \<Rightarrow> network_policy set \<Rightarrow> trace \<Rightarrow> bool" where
  "net_state w s t N t' \<longleftrightarrow>
     (\<exists>cs. t' = t @ cs \<and> locked_commands (commands_under w s t cs {DenyAll}) \<and>
        network_after w s t cs {DenyAll} = N)"

lemma net_state_start: "net_state w s t {DenyAll} t"
  by (simp add: net_state_def locked_commands_def)

lemma commands_under_append:
  "commands_under w s pre (cs @ ds) N =
     commands_under w s pre cs N @
     commands_under w s (pre @ cs) ds (network_after w s pre cs N)"
  by (induction cs arbitrary: pre N) simp_all

lemma net_state_step:
  assumes "net_state w s t N t'"
    and "\<And>cmd. c = RunCommand s cmd \<Longrightarrow>
      N = {DenyAll} \<or> cmd = npm_fetch_command \<and> N \<subseteq> {npm_registry_policy}"
  shows "net_state w s t (network_after w s t' [c] N) (t' @ [c])"
proof -
  obtain cs where cs: "t' = t @ cs" "locked_commands (commands_under w s t cs {DenyAll})"
    "network_after w s t cs {DenyAll} = N"
    using assms(1) by (auto simp: net_state_def)
  have "locked_commands (commands_under w s (t @ cs) [c] N)"
    using assms(2) by (auto simp: locked_commands_def split: sandbox_call.split)
  then have "locked_commands (commands_under w s t (cs @ [c]) {DenyAll})"
    using cs(2,3) by (auto simp: locked_commands_def commands_under_append)
  then show ?thesis
    unfolding net_state_def
    using cs by (intro exI [of _ "cs @ [c]"]) (simp add: network_after_append)
qed

lemma net_state_quiet:
  assumes "net_state w s t {DenyAll} t'" and "\<And>p. c \<noteq> SetNetworkPolicy s p"
  shows "net_state w s t {DenyAll} (t' @ [c])"
proof -
  have "network_after w s t' [c] {DenyAll} = {DenyAll}"
    using assms(2) by (simp split: sandbox_call.split)
  then show ?thesis using net_state_step [OF assms(1), of c] by simp
qed

lemma net_state_policy:
  assumes "net_state w s t N t'"
  shows "net_state w s t (case unit_reply w (t' @ [SetNetworkPolicy s p]) of
      Inr _ \<Rightarrow> {p} | Inl _ \<Rightarrow> insert p N) (t' @ [SetNetworkPolicy s p])"
  using net_state_step [OF assms, of "SetNetworkPolicy s p"] by (simp split: sum.split)

definition locked_unless_failed ::
  "world \<Rightarrow> session \<Rightarrow> trace \<Rightarrow> thrown \<Rightarrow> trace \<Rightarrow> bool" where
  "locked_unless_failed w s t e t' \<longleftrightarrow>
     (\<exists>N. net_state w s t N t' \<and>
        (e = DependencyError DependencyLockdownFailed \<or> N = {DenyAll}))"

lemma net_state_locked: "net_state w s t {DenyAll} t' \<Longrightarrow> locked_unless_failed w s t e t'"
  by (auto simp: locked_unless_failed_def)

lemma lockdown_step:
  assumes "net_state w s t N t'"
    and "\<And>t''. net_state w s t {DenyAll} t'' \<Longrightarrow> Q () t''"
  shows "wp (catch (set_network_policy w s DenyAll)
      (\<lambda>_. raise (DependencyError DependencyLockdownFailed))) Q (locked_unless_failed w s t) t'"
  using net_state_policy [OF assms(1), of DenyAll] assms(2)
  by (auto simp: wp_rules Let_def locked_unless_failed_def split: sum.splits)

lemma fetch_online_locks:
  assumes "net_state w s t {DenyAll} t'"
  shows "wp (fetch_online w s) (\<lambda>_. net_state w s t {DenyAll}) (locked_unless_failed w s t) t'"
proof -
  let ?t1 = "t' @ [SetNetworkPolicy s npm_registry_policy]"
  let ?t2 = "?t1 @ [RunCommand s npm_fetch_command]"
  let ?lock = "catch (set_network_policy w s DenyAll)
      (\<lambda>_. raise (DependencyError DependencyLockdownFailed))"
  note opened = net_state_policy [OF assms, of npm_registry_policy]
  have ok: "wp ?lock (\<lambda>_. net_state w s t {DenyAll}) (locked_unless_failed w s t) t''"
    if "net_state w s t N t''" for N t'' by (rule lockdown_step [OF that])
  have fail: "wp ?lock (\<lambda>_. locked_unless_failed w s t e) (locked_unless_failed w s t) t''"
    if "net_state w s t N t''" for N t'' e by (rule lockdown_step [OF that]) (rule net_state_locked)
  have fetched: "\<exists>N. net_state w s t N ?t2" if "unit_reply w ?t1 = Inr u" for u
  proof -
    have "net_state w s t {npm_registry_policy} ?t1" using opened that by simp
    from net_state_step [OF this, of "RunCommand s npm_fetch_command"] show ?thesis by auto
  qed
  have opened': "\<exists>N. net_state w s t N ?t1" using opened by blast
  show ?thesis
    unfolding fetch_online_def wp_finally wp_catch [of "bind _ _"] wp_bind
      wp_set_network_policy [of w s npm_registry_policy] wp_run_command Let_def wp_require
    using ok fail fetched opened'
    by (auto simp: wp_raise split: sum.split)
qed

text \<open>Programs that start with the network denied and leave it denied.\<close>

definition keeps_locked :: "world \<Rightarrow> session \<Rightarrow> trace \<Rightarrow> 'a prog \<Rightarrow> bool" where
  "keeps_locked w s t m \<longleftrightarrow>
     (\<forall>t'. net_state w s t {DenyAll} t' \<longrightarrow>
        wp m (\<lambda>_. net_state w s t {DenyAll}) (locked_unless_failed w s t) t')"

lemma keeps_locked_silent:
  assumes "\<And>t. snd (m t) = t"
  shows "keeps_locked w s t m"
proof -
  have "wp m (\<lambda>_. net_state w s t {DenyAll}) (locked_unless_failed w s t) t'"
    if "net_state w s t {DenyAll} t'" for t'
  proof -
    obtain r where r: "m t' = (r, t')" using assms [of t'] by (cases "m t'") auto
    show ?thesis
      using that net_state_locked [OF that]
      by (cases r) (simp_all add: wp_result r)
  qed
  then show ?thesis by (simp add: keeps_locked_def)
qed

lemma keeps_locked_bind:
  "keeps_locked w s t m \<Longrightarrow> (\<And>v. keeps_locked w s t (f v)) \<Longrightarrow> keeps_locked w s t (bind m f)"
  by (auto simp: keeps_locked_def wp_bind intro: wp_mono)

lemma keeps_locked_perform:
  assumes "\<And>p. c \<noteq> SetNetworkPolicy s p"
  shows "keeps_locked w s t (perform c reply)"
  using net_state_quiet [OF _ assms] net_state_locked
  by (auto simp: keeps_locked_def wp_perform split: sum.split)

lemma keeps_locked_run: "keeps_locked w s t (run_command w s c)"
  unfolding run_command_def
  by (intro keeps_locked_bind keeps_locked_perform keeps_locked_silent) (simp_all add: parsed_def)

lemma keeps_locked_both:
  assumes "\<And>p. c \<noteq> SetNetworkPolicy s p" and "\<And>p. d \<noteq> SetNetworkPolicy s p"
  shows "keeps_locked w s t (both (perform c reply) (perform d reply'))"
proof -
  have two: "net_state w s t {DenyAll} (t' @ [c, d])" if "net_state w s t {DenyAll} t'" for t'
    using net_state_quiet [OF net_state_quiet [OF that assms(1)] assms(2)] by simp
  then show ?thesis
    using net_state_locked by (auto simp: keeps_locked_def wp_both wp_perform split: sum.split)
qed

lemma keeps_locked_fetch: "keeps_locked w s t (fetch_online w s)"
  using fetch_online_locks by (simp add: keeps_locked_def)

lemma keeps_locked_prepare: "keeps_locked w s t (prepare_dependencies h w m p s ws)"
  unfolding prepare_dependencies_def assert_source_workspace_def make_directory_def read_file_def
    case_prod_unfold
  by (intro keeps_locked_bind keeps_locked_run keeps_locked_fetch keeps_locked_both
      keeps_locked_perform)
     (auto intro!: keeps_locked_silent simp: parsed_def require_def lift_result_def ret_def)

text \<open>
  C8. Whatever the provider answers, preparation that starts with the network denied
  runs every command under denied network, except the one \<open>npm ci --ignore-scripts\<close>
  that fills the cache, which runs under no policy other than "registry.npmjs.org
  only"; in particular the offline installation runs with the network denied. When
  preparation returns, or throws anything but NETWORK_LOCKDOWN_FAILED, the network
  is denied again.
\<close>

theorem dependency_preparation_locks_network:
  "case prepare_dependencies h w m p s ws t of (r, t') \<Rightarrow>
     \<exists>cs. t' = t @ cs \<and>
       (\<forall>(c, N) \<in> set (commands_under w s t cs {DenyAll}).
          N = {DenyAll} \<or> c = npm_fetch_command \<and> N \<subseteq> {npm_registry_policy}) \<and>
       (network_after w s t cs {DenyAll} = {DenyAll} \<or>
        r = Inl (DependencyError DependencyLockdownFailed))"
proof -
  have "wp (prepare_dependencies h w m p s ws) (\<lambda>_. net_state w s t {DenyAll})
      (locked_unless_failed w s t) t"
    using keeps_locked_prepare net_state_start unfolding keeps_locked_def by blast
  then show ?thesis
    by (auto simp: wp_result net_state_def locked_unless_failed_def locked_commands_def
        split: prod.splits sum.splits)
qed

section \<open>A sample repository\<close>

definition sample_profile :: node_profile where
  "sample_profile =
     \<lparr>control_script = ''control'', node_ver = Node22, reproduction_script = ''reproduce'',
      test_name_pattern = None, profile_workspace = None\<rparr>"

definition sample_package :: json where
  "sample_package =
     JObj [(''scripts'', JObj [(''control'', JStr ''node a''), (''reproduce'', JStr ''node b'')])]"

definition sample_entry :: json where
  "sample_entry =
     JObj [(''resolved'', JStr ''https://registry.npmjs.org/a''),
       (''integrity'', JStr (''sha512-'' @ replicate 86 (CHR ''A'') @ ''==''))]"

definition sample_lock :: json where
  "sample_lock =
     JObj [(''lockfileVersion'', JNum ''3''),
       (''packages'', JObj [([], JObj []), (''node_modules/a'', sample_entry)])]"

text \<open>A host whose URL parser knows the npm registry.\<close>

definition npm_host :: js_host where
  "npm_host = plain_host\<lparr>parse_url := (\<lambda>s.
     if starts_with ''https://registry.npmjs.org/'' s
     then Some \<lparr>url_protocol = ''https:'', url_hostname = ''registry.npmjs.org'', url_port = [],
       url_username = [], url_password = [], url_pathname = drop 26 s, url_search = [],
       url_hash = []\<rparr>
     else None)\<rparr>"

lemma sample_profile_ok: "node_profile_ok sample_profile"
  by (simp add: node_profile_ok_def sample_profile_def script_name_ok_def len_in_def alnum_char_def
      lower_char_def code_unit_def script_char_def no_control_characters_def control_char_def)

lemma npm_host_simps [simp]:
  "utf8_decode npm_host = Some" "sha256_hex npm_host = (\<lambda>s. replicate 64 (CHR ''0''))"
  "num_canon npm_host = (\<lambda>t. t)"
  by (simp_all add: npm_host_def plain_host_def)

lemma sample_texts_wf: "wf_json npm_host sample_package" "wf_json npm_host sample_lock"
  by (simp_all add: sample_package_def sample_lock_def sample_entry_def own_properties_def
      property_order_def array_index_def digit_char_def code_unit_def number_text_ok_def
      json_number_def json_fraction_def num_char_def)

lemma sample_entry_counted: "lock_entry npm_host sample_profile (''node_modules/a'', sample_entry) = Inr 1"
proof -
  have "valid_registry_resolution npm_host (Some (JStr ''https://registry.npmjs.org/a''))"
    by (simp add: valid_registry_resolution_def npm_host_def)
  moreover have "valid_integrity (Some (JStr (''sha512-'' @ replicate 86 (CHR ''A'') @ ''==''))) "
    by (simp add: valid_integrity_def base64_char_def alnum_char_def upper_char_def lower_char_def
        digit_char_def code_unit_def takeWhile_append dropWhile_append Let_def)
  moreover have "is_safe_relative_path ''node_modules/a''"
    by (simp add: is_safe_relative_path_def no_control_characters_def control_char_def code_unit_def
        safe_segment_def)
  ultimately show ?thesis
    by (simp add: lock_entry_def sample_entry_def json_record_def sample_profile_def)
qed

definition sample_files :: "(string \<times> int) list" where
  "sample_files = [(''package.json'', 100), (''package-lock.json'', 300)]"

definition sample_metadata :: dependency_metadata where
  "sample_metadata =
     \<lparr>dependency_count = 1, lockfile_sha256 = replicate 64 (CHR ''0''), lockfile_version = 3,
      package_json_sha256 = replicate 64 (CHR ''0'')\<rparr>"

lemma sample_metadata_ok: "dependency_metadata_ok sample_metadata"
  by (simp add: dependency_metadata_ok_def sample_metadata_def dependency_limit_def
      sha256_string_def hex_string_def hex_char_def digit_char_def code_unit_def list_all_iff)

lemma sample_decode:
  "decode_json npm_host (json_text sample_package) package_json_limit = Inr sample_package"
  "decode_json npm_host (json_text sample_lock) lockfile_limit = Inr sample_lock"
proof -
  have "0 < length (json_text sample_package)" "length (json_text sample_package) \<le> package_json_limit"
    "0 < length (json_text sample_lock)" "length (json_text sample_lock) \<le> lockfile_limit"
    by (simp_all add: sample_package_def sample_lock_def sample_entry_def json_quote_def
        quote_char_def code_unit_def package_json_limit_def lockfile_limit_def)
  then show "decode_json npm_host (json_text sample_package) package_json_limit = Inr sample_package"
    "decode_json npm_host (json_text sample_lock) lockfile_limit = Inr sample_lock"
    using json_parse_wf [OF sample_texts_wf(1)] json_parse_wf [OF sample_texts_wf(2)]
    by (simp_all add: decode_json_def)
qed

lemma sample_validates:
  "validate_dependency_metadata npm_host (json_text sample_lock) (sample_manifest sample_files)
     (json_text sample_package) sample_profile = Inr sample_metadata"
proof -
  have manifest: "validate_manifest (sample_manifest sample_files) sample_profile = Inr ()"
    by (simp add: validate_manifest_def sample_manifest_def sample_files_def sample_profile_def
        disallowed_config_names_def lower_unit_def upper_char_def code_unit_def)
  have first: "lock_entry npm_host sample_profile ([], JObj []) = Inr 0"
    by (simp add: lock_entry_def json_record_def)
  have "sample_metadata = \<lparr>dependency_count = 1, lockfile_sha256 = replicate 64 (CHR ''0''),
      lockfile_version = 3, package_json_sha256 = replicate 64 (CHR ''0'')\<rparr>"
    by (simp add: sample_metadata_def)
  note meta = sample_metadata_ok [unfolded this]
  show ?thesis
    unfolding validate_dependency_metadata_def and_then_simps
      parse_as_True [of node_profile_ok, OF sample_profile_ok]
      manifest sample_decode
    using meta first sample_entry_counted
    by (simp add: sample_package_def sample_lock_def json_record_def script_ok_def
        sample_profile_def [THEN arg_cong, of control_script]
        sample_profile_def [THEN arg_cong, of reproduction_script]
        check_def dependency_fields_def lock_version_def dependency_limit_def sample_metadata_def)
qed

theorem accepted_lockfile_is_registry_pinned_witness:
  "\<exists>entries. dependency_count sample_metadata =
     int (length (filter (third_party sample_profile) entries)) \<and> entries \<noteq> []"
proof -
  obtain entries where "dependency_count sample_metadata =
     int (length (filter (third_party sample_profile) entries))"
    using accepted_lockfile_is_registry_pinned [OF sample_validates] by blast
  then show ?thesis by (intro exI [of _ entries]) (auto simp: sample_metadata_def)
qed

text \<open>A world in which every call succeeds and the sample repository is present.\<close>

definition steady_run :: "sandbox_command \<Rightarrow> command_result" where
  "steady_run c =
     \<lparr>result_exit_code = 0, result_stderr = [],
      result_stdout =
        (if cmd_args c = [''--version''] then
           (if cmd_executable c = NodeTool then ''v22.11.0'' else ''10.9.0'') else [])\<rparr>"

definition steady_file :: "string \<Rightarrow> string option" where
  "steady_file path =
     (if last (split_on (CHR ''/'') path) = ''package.json'' then Some (json_text sample_package)
      else if last (split_on (CHR ''/'') path) = ''package-lock.json''
      then Some (json_text sample_lock) else None)"

definition steady_world :: world where
  "steady_world =
     \<lparr>unit_reply = (\<lambda>_. Inr ()),
      file_reply = (\<lambda>t. case last t of ReadFile s p \<Rightarrow> Inr (steady_file p) | _ \<Rightarrow> Inl (Foreign [])),
      run_reply = (\<lambda>t. case last t of RunCommand s c \<Rightarrow> Inr (steady_run c) | _ \<Rightarrow> Inl (Foreign [])),
      session_reply = (\<lambda>t. Inr (length t)), snapshot_reply = (\<lambda>_. Inr ''snap''),
      credential_reply = (\<lambda>_. Inl (Foreign [])), http_reply = (\<lambda>_. Inl (Foreign [])),
      sandbox_id = (\<lambda>s. ''sbx-'' @ nat_text s), clock_now = (\<lambda>_. 0), random_uuid = (\<lambda>_. ''uuid'')\<rparr>"

definition source_workspace :: string where
  "source_workspace = sandbox_workspace_root @ ''/source''"

lemma steady_preparation:
  "fst (prepare_dependencies npm_host steady_world (sample_manifest sample_files) sample_profile 0
     source_workspace []) =
   Inr \<lparr>prepared_metadata = sample_metadata, install_workspace = source_workspace\<rparr>"
proof -
  have cmds: "sandbox_command_ok (copy_source_command source_workspace)"
    "sandbox_command_ok npm_fetch_command" "sandbox_command_ok (npm_install_command source_workspace)"
    by (simp_all add: sandbox_command_ok_def copy_source_command_def npm_fetch_command_def
        npm_install_command_def source_workspace_def dependency_workspace_def cache_path_def
        sandbox_workspace_root_def sandbox_root_def no_control_characters_def control_char_def
        code_unit_def is_sandbox_workspace_path_def is_safe_relative_path_def safe_segment_def)
  have files: "steady_file (source_workspace @ ''/package.json'') = Some (json_text sample_package)"
    "steady_file (source_workspace @ ''/package-lock.json'') = Some (json_text sample_lock)"
    by (simp_all add: steady_file_def source_workspace_def sandbox_workspace_root_def sandbox_root_def)
  have safe: "starts_with (sandbox_workspace_root @ ''/'') source_workspace"
    "is_safe_relative_path (drop (length sandbox_workspace_root + 1) source_workspace)"
    by (simp_all add: source_workspace_def sandbox_workspace_root_def sandbox_root_def
        is_safe_relative_path_def no_control_characters_def control_char_def code_unit_def
        safe_segment_def)
  have none: "profile_workspace sample_profile = None" by (simp add: sample_profile_def)
  show ?thesis
    using cmds files safe none sample_validates
    by (simp add: prepare_dependencies_def bind_def parsed_def sample_profile_ok
        assert_source_workspace_def require_def both_def read_file_def perform_def
        lift_result_def make_directory_def run_command_def fetch_online_def finally_do_def
        catch_def set_network_policy_def ret_def steady_world_def steady_run_def)
qed

theorem dependency_preparation_locks_network_witness:
  "\<exists>cs. snd (prepare_dependencies npm_host steady_world (sample_manifest sample_files) sample_profile
       0 source_workspace []) = cs \<and>
     network_after steady_world 0 [] cs {DenyAll} = {DenyAll}"
  using dependency_preparation_locks_network
    [where h = npm_host and w = steady_world and m = "sample_manifest sample_files"
       and p = sample_profile and s = 0 and ws = source_workspace and t = "[]"]
    steady_preparation
  by (auto split: prod.splits)

end
