(* ===== verification/Planning.thy ===== *)
theory Planning
  imports Dependency
begin

text \<open>
  src/src/execution/execution-planning.ts: the execution plan of a Node repository,
  the clean workspaces of the control and the candidates, and the provenance of the
  execution environment with its hash.
\<close>

section \<open>The plan\<close>

definition npm_experiment_args :: "string \<Rightarrow> string option \<Rightarrow> string list" where
  "npm_experiment_args script pattern =
     [''run'', script] @
     (case pattern of None \<Rightarrow> [] | Some p \<Rightarrow> [''--'', ''--testNamePattern'', p])"

definition experiment_cwd :: "string \<Rightarrow> node_profile \<Rightarrow> string" where
  "experiment_cwd base p =
     (case profile_workspace p of Some ws \<Rightarrow> base @ ''/'' @ ws | None \<Rightarrow> base)"

definition control_workspace :: string where
  "control_workspace = sandbox_workspace_root @ ''/control''"

definition candidate_workspace :: "nat \<Rightarrow> string" where
  "candidate_workspace index = sandbox_workspace_root @ ''/candidate-'' @ nat_text (index + 1)"

definition control_command :: "node_profile \<Rightarrow> sandbox_command" where
  "control_command p =
     \<lparr>cmd_args = npm_experiment_args (control_script p) (test_name_pattern p),
      cmd_cwd = experiment_cwd control_workspace p, cmd_executable = Npm,
      cmd_phase = ControlPhase, cmd_timeout_ms = 120000\<rparr>"

definition candidate_command :: "node_profile \<Rightarrow> nat \<Rightarrow> sandbox_command" where
  "candidate_command p index =
     \<lparr>cmd_args = npm_experiment_args (reproduction_script p) (test_name_pattern p),
      cmd_cwd = experiment_cwd (candidate_workspace index) p, cmd_executable = Npm,
      cmd_phase = CandidatePhase, cmd_timeout_ms = 120000\<rparr>"

definition build_node_execution_plan ::
  "node_profile \<Rightarrow> int \<Rightarrow> repository_source \<Rightarrow> thrown + execution_plan" where
  "build_node_execution_plan raw_profile raw_runs raw_source =
     and_then (parse_as node_profile_ok SchemaError raw_profile) (\<lambda>p.
     and_then (parse_as repository_source_ok SchemaError raw_source) (\<lambda>src.
     and_then (parse_as (\<lambda>n. 3 \<le> n \<and> n \<le> 5) SchemaError raw_runs) (\<lambda>runs.
     and_then (collect (parse_as sandbox_command_ok SchemaError)
       ([npm_fetch_command, npm_install_command source_workspace, control_command p] @
        map (candidate_command p) [0..<nat runs])) (\<lambda>commands.
       parse_as execution_plan_ok SchemaError
         \<lparr>plan_commands = commands, plan_profile = p, plan_required_runs = runs,
          plan_source = src, plan_total_timeout_ms = 900000\<rparr>))))"

section \<open>Clean workspaces\<close>

definition copy_workspace_command :: "string \<Rightarrow> nat \<times> string \<Rightarrow> sandbox_command" where
  "copy_workspace_command src iw =
     \<lparr>cmd_args = [''-a'', ''--reflink=auto'', src @ ''/.'', snd iw], cmd_cwd = src,
      cmd_executable = Cp, cmd_phase = (if fst iw = 0 then ControlPhase else CandidatePhase),
      cmd_timeout_ms = 120000\<rparr>"

definition prepare_workspace :: "world \<Rightarrow> session \<Rightarrow> string \<Rightarrow> nat \<times> string \<Rightarrow> unit prog" where
  "prepare_workspace w s src iw =
     catch
       (bind (make_directory w s (snd iw)) (\<lambda>_.
        bind (run_command w s (copy_workspace_command src iw)) (\<lambda>copied.
          require (result_exit_code copied = 0) WorkspacePreparationFailed)))
       (\<lambda>_. raise WorkspacePreparationFailed)"

text \<open>The argument \<open>denied\<close> says that the caller passes the policy "deny-all".\<close>

definition prepare_experiment_workspaces ::
  "world \<Rightarrow> bool \<Rightarrow> execution_plan \<Rightarrow> session \<Rightarrow> string \<Rightarrow> (string list \<times> string) prog" where
  "prepare_experiment_workspaces w denied raw_plan s src =
     bind (require (denied \<and> src = source_workspace) WorkspacePreparationFailed) (\<lambda>_.
     bind (parsed execution_plan_ok raw_plan) (\<lambda>plan.
       let candidates = map candidate_workspace [0..<nat (plan_required_runs plan)];
           workspaces = control_workspace # candidates
       in bind (for_each (prepare_workspace w s src) (enumerate 0 workspaces)) (\<lambda>_.
            ret (candidates, control_workspace))))"

section \<open>The execution environment\<close>

record execution_environment =
  env_archive_sha256 :: string
  env_hash :: string
  env_lockfile_sha256 :: string
  env_manifest_sha256 :: string
  env_node_version :: string
  env_npm_version :: string
  env_package_json_sha256 :: string
  env_runtime :: node_version
  env_source_commit :: string

definition node_release :: "string \<Rightarrow> string option" where
  "node_release v =
     (case split_on (CHR ''.'') v of
        [major, minor, patch] \<Rightarrow>
          if (major = ''22'' \<or> major = ''24'') \<and> minor \<noteq> [] \<and> list_all digit_char minor \<and>
             patch \<noteq> [] \<and> list_all digit_char patch
          then Some major else None
      | _ \<Rightarrow> None)"

definition execution_environment_ok :: "execution_environment \<Rightarrow> bool" where
  "execution_environment_ok e \<longleftrightarrow>
     sha256_string (env_archive_sha256 e) \<and> sha256_string (env_hash e) \<and>
     sha256_string (env_lockfile_sha256 e) \<and> sha256_string (env_manifest_sha256 e) \<and>
     node_release (env_node_version e) \<noteq> None \<and> semver_text (env_npm_version e) \<and>
     sha256_string (env_package_json_sha256 e) \<and> commit_string (env_source_commit e)"

definition js_trim :: "string \<Rightarrow> string" where
  "js_trim s = rev (dropWhile space_char (rev (dropWhile space_char s)))"

definition read_version :: "js_host \<Rightarrow> string \<Rightarrow> thrown + string" where
  "read_version h bytes =
     (case utf8_decode h bytes of
        None \<Rightarrow> Inl WorkspacePreparationFailed
      | Some text \<Rightarrow> Inr (js_trim text))"

definition version_command :: "tool \<Rightarrow> sandbox_command" where
  "version_command exe =
     \<lparr>cmd_args = [''--version''], cmd_cwd = source_workspace, cmd_executable = exe,
      cmd_phase = OfflineInstall, cmd_timeout_ms = 10000\<rparr>"

text \<open>The text whose hash names the environment.\<close>

definition environment_json :: "execution_environment \<Rightarrow> json" where
  "environment_json e = JObj
     [(''archiveSha256'', JStr (env_archive_sha256 e)),
      (''dependencyPolicyVersion'', JStr ''node-lock-v1''),
      (''executionPolicyVersion'', JStr ''node-npm-v1''),
      (''lockfileSha256'', JStr (env_lockfile_sha256 e)),
      (''manifestSha256'', JStr (env_manifest_sha256 e)),
      (''networkPolicy'', JStr ''deny-all''),
      (''nodeVersion'', JStr (env_node_version e)),
      (''npmVersion'', JStr (env_npm_version e)),
      (''packageJsonSha256'', JStr (env_package_json_sha256 e)),
      (''provider'', JStr ''vercel-sandbox''),
      (''runtime'', JStr (''node'' @ node_version_text (env_runtime e))),
      (''sourceCommitSha'', JStr (env_source_commit e)),
      (''sourcePolicyVersion'', JStr ''source-archive-v1''),
      (''vcpus'', JNum ''2'')]"

definition environment_hash :: "js_host \<Rightarrow> execution_environment \<Rightarrow> string" where
  "environment_hash h e = sha256_hex h (utf8_encode (json_text (environment_json e)))"

definition assemble_environment ::
  "js_host \<Rightarrow> node_profile \<Rightarrow> dependency_metadata \<Rightarrow> source_provenance
     \<Rightarrow> command_result \<Rightarrow> command_result \<Rightarrow> thrown + execution_environment" where
  "assemble_environment h p d prov node npm =
     and_then (check (result_exit_code node = 0 \<and> result_exit_code npm = 0)
       WorkspacePreparationFailed) (\<lambda>_.
     and_then (read_version h (result_stdout node)) (\<lambda>raw_node.
     and_then (read_version h (result_stdout npm)) (\<lambda>npm_version.
     and_then (check (starts_with ''v'' raw_node \<and>
         node_release (drop 1 raw_node) = Some (node_version_text (node_ver p)) \<and>
         semver_text npm_version) WorkspacePreparationFailed) (\<lambda>_.
     and_then (check (commit_string (prov_commit prov)) SchemaError) (\<lambda>_.
     and_then (check (sha256_string (prov_archive_sha256 prov) \<and>
         sha256_string (lockfile_sha256 d) \<and> sha256_string (prov_manifest_sha256 prov) \<and>
         sha256_string (package_json_sha256 d)) SchemaError) (\<lambda>_.
       let base = \<lparr>env_archive_sha256 = prov_archive_sha256 prov, env_hash = [],
             env_lockfile_sha256 = lockfile_sha256 d,
             env_manifest_sha256 = prov_manifest_sha256 prov,
             env_node_version = drop 1 raw_node, env_npm_version = npm_version,
             env_package_json_sha256 = package_json_sha256 d, env_runtime = node_ver p,
             env_source_commit = prov_commit prov\<rparr>
       in parse_as execution_environment_ok SchemaError
            (base\<lparr>env_hash := environment_hash h base\<rparr>)))))))"

definition collect_execution_environment ::
  "js_host \<Rightarrow> world \<Rightarrow> dependency_metadata \<Rightarrow> bool \<Rightarrow> node_profile \<Rightarrow> session
     \<Rightarrow> source_provenance \<Rightarrow> execution_environment prog" where
  "collect_execution_environment h w d denied raw s prov =
     bind (parsed node_profile_ok raw) (\<lambda>p.
     bind (require denied WorkspacePreparationFailed) (\<lambda>_.
     bind (both (run_command w s (version_command NodeTool)) (run_command w s (version_command Npm)))
       (\<lambda>(node, npm). lift_result (assemble_environment h p d prov node npm))))"

section \<open>A plan for every valid request\<close>

lemma no_control_append [simp]:
  "no_control_characters (u @ v) \<longleftrightarrow> no_control_characters u \<and> no_control_characters v"
  by (simp add: no_control_characters_def)

lemma root_paths_ok:
  "is_safe_relative_path p \<Longrightarrow> is_sandbox_workspace_path (sandbox_workspace_root @ ''/'' @ p)"
  by (auto simp: workspace_path_iff)

lemma literal_segment_ok:
  "p \<in> {''control'', ''source'', ''dependency-acquisition'', ''candidate-1'', ''candidate-2'',
     ''candidate-3'', ''candidate-4'', ''candidate-5''} \<Longrightarrow> is_safe_relative_path p"
  by (auto simp: is_safe_relative_path_def no_control_characters_def control_char_def code_unit_def
      safe_segment_def)

lemma candidate_workspace_cases:
  "i < 5 \<Longrightarrow> \<exists>seg \<in> {''candidate-1'', ''candidate-2'', ''candidate-3'', ''candidate-4'', ''candidate-5''}.
     candidate_workspace i = sandbox_workspace_root @ ''/'' @ seg"
proof -
  assume "i < 5"
  then consider "i = 0" | "i = 1" | "i = 2" | "i = 3" | "i = 4" by linarith
  then show ?thesis by cases (simp_all add: candidate_workspace_def nat_text.simps char_of_def bit_0)
qed

lemma experiment_cwd_ok:
  assumes "node_profile_ok p" and "is_safe_relative_path seg" and "length seg \<le> 32"
  shows "is_sandbox_workspace_path (experiment_cwd (sandbox_workspace_root @ ''/'' @ seg) p) \<and>
    length (experiment_cwd (sandbox_workspace_root @ ''/'' @ seg) p) \<le> 1024"
proof (cases "profile_workspace p")
  case None
  then show ?thesis
    using assms root_paths_ok by (simp add: experiment_cwd_def sandbox_workspace_root_def sandbox_root_def)
next
  case (Some ws)
  then have "len_in 1 512 ws" and "is_safe_relative_path ws"
    using assms(1) by (auto simp: node_profile_ok_def workspace_ok_def)
  then show ?thesis
    using workspace_path_append [OF root_paths_ok [OF assms(2)], of ws] Some assms(3)
    by (simp add: experiment_cwd_def len_in_def sandbox_workspace_root_def sandbox_root_def)
qed

lemma npm_experiment_args_ok:
  assumes "node_profile_ok p" and "script_name_ok script"
  shows "list_all (\<lambda>a. length a \<le> 4096 \<and> no_control_characters a)
      (npm_experiment_args script (test_name_pattern p)) \<and>
    length (npm_experiment_args script (test_name_pattern p)) \<le> 256"
proof -
  have literals: "no_control_characters ''run''" "no_control_characters ''--''"
    "no_control_characters ''--testNamePattern''"
    by (simp_all add: no_control_characters_def control_char_def code_unit_def)
  show ?thesis
    using assms literals
    by (cases "test_name_pattern p")
       (auto simp: npm_experiment_args_def script_name_ok_def node_profile_ok_def len_in_def)
qed

lemma plan_commands_ok:
  assumes "node_profile_ok p"
  shows "sandbox_command_ok npm_fetch_command"
    and "sandbox_command_ok (npm_install_command source_workspace)"
    and "sandbox_command_ok (control_command p)"
    and "i < 5 \<Longrightarrow> sandbox_command_ok (candidate_command p i)"
proof -
  show "sandbox_command_ok npm_fetch_command"
    "sandbox_command_ok (npm_install_command source_workspace)"
    using root_paths_ok [OF literal_segment_ok, of "''dependency-acquisition''"]
      root_paths_ok [OF literal_segment_ok, of "''source''"]
    by (simp_all add: sandbox_command_ok_def npm_fetch_command_def npm_install_command_def
        source_workspace_def dependency_workspace_def cache_path_def sandbox_workspace_root_def
        sandbox_root_def no_control_characters_def control_char_def code_unit_def)
  have scripts: "script_name_ok (control_script p)" "script_name_ok (reproduction_script p)"
    using assms by (simp_all add: node_profile_ok_def)
  show "sandbox_command_ok (control_command p)"
    using experiment_cwd_ok [OF assms literal_segment_ok, of "''control''"]
      npm_experiment_args_ok [OF assms scripts(1)]
    by (simp add: sandbox_command_ok_def control_command_def control_workspace_def)
  assume "i < 5"
  from candidate_workspace_cases [OF this] obtain seg where
    seg: "seg \<in> {''candidate-1'', ''candidate-2'', ''candidate-3'', ''candidate-4'', ''candidate-5''}"
    and ws: "candidate_workspace i = sandbox_workspace_root @ ''/'' @ seg" by blast
  have safe: "is_safe_relative_path seg" using seg by (intro literal_segment_ok) blast
  have short: "length seg \<le> 32" using seg by (elim insertE) simp_all
  from experiment_cwd_ok [OF assms safe short] npm_experiment_args_ok [OF assms scripts(2)]
  show "sandbox_command_ok (candidate_command p i)"
    by (simp add: sandbox_command_ok_def candidate_command_def ws)
qed

definition planned_commands :: "node_profile \<Rightarrow> nat \<Rightarrow> sandbox_command list" where
  "planned_commands p runs =
     [npm_fetch_command, npm_install_command source_workspace, control_command p] @
     map (candidate_command p) [0..<runs]"

lemma planned_phases:
  "map cmd_phase (planned_commands p runs) =
     [DependencyAcquisition, OfflineInstall, ControlPhase] @ replicate runs CandidatePhase"
  by (simp add: planned_commands_def npm_fetch_command_def npm_install_command_def
      control_command_def candidate_command_def map_replicate_const comp_def)

lemma phase_indices_replicate:
  "map fst (filter (\<lambda>(i, p). p = ph) (enumerate n (replicate k ph))) = [n..<n + k]"
  "ph' \<noteq> ph \<Longrightarrow> map fst (filter (\<lambda>(i, p). p = ph') (enumerate n (replicate k ph))) = []"
proof (induction k arbitrary: n)
  case (Suc k)
  { case 1 show ?case using Suc(1) [of "Suc n"] by (simp add: upt_conv_Cons del: upt_Suc) }
  { case 2 then show ?case using Suc(2) [of "Suc n"] by simp }
qed simp_all

lemma planned_commands_refined:
  assumes "plan_commands pl = planned_commands p runs" and "plan_required_runs pl = int runs"
    and "runs \<in> {3, 4, 5}"
  shows "plan_refined pl"
proof -
  have indices: "phase_indices DependencyAcquisition (map cmd_phase (plan_commands pl)) = [0]"
    "phase_indices OfflineInstall (map cmd_phase (plan_commands pl)) = [1]"
    "phase_indices ControlPhase (map cmd_phase (plan_commands pl)) = [2]"
    "phase_indices CandidatePhase (map cmd_phase (plan_commands pl)) = [3..<3 + runs]"
    using phase_indices_replicate [where ph = CandidatePhase and k = runs and n = 3]
    by (simp_all add: assms(1) planned_phases phase_indices_def numeral_3_eq_3
        del: upt_Suc)
  have "[3..<3 + runs] = 3 # [4..<3 + runs]" using assms(3) by (auto simp: upt_rec)
  then show ?thesis
    unfolding plan_refined_def Let_def indices assms(2) using assms(3) by auto
qed

lemma plan_exists_for_valid_request':
  "build_node_execution_plan p runs src =
     (if node_profile_ok p \<and> repository_source_ok src \<and> 3 \<le> runs \<and> runs \<le> 5
      then Inr \<lparr>plan_commands = planned_commands p (nat runs), plan_profile = p,
        plan_required_runs = runs, plan_source = src, plan_total_timeout_ms = 900000\<rparr>
      else Inl SchemaError) \<and>
   (\<forall>plan. build_node_execution_plan p runs src = Inr plan \<longrightarrow> execution_plan_ok plan)"
proof -
  let ?plan = "\<lparr>plan_commands = planned_commands p (nat runs), plan_profile = p,
        plan_required_runs = runs, plan_source = src, plan_total_timeout_ms = 900000\<rparr>"
  have built: "build_node_execution_plan p runs src = Inr ?plan" and ok: "execution_plan_ok ?plan"
    if valid: "node_profile_ok p" "repository_source_ok src" "3 \<le> runs" "runs \<le> 5"
  proof -
    have cmds: "\<forall>c \<in> set (planned_commands p (nat runs)). sandbox_command_ok c"
      using plan_commands_ok [OF valid(1)] valid(3,4) by (auto simp: planned_commands_def)
    have "nat runs = 3 \<or> nat runs = 4 \<or> nat runs = 5" using valid(3,4) by arith
    then have "plan_refined ?plan"
      using valid(3) by (intro planned_commands_refined [of _ p "nat runs"]) auto
    then show ok: "execution_plan_ok ?plan"
      using valid cmds
      by (simp add: execution_plan_ok_def list_all_iff) (auto simp: planned_commands_def)
    have "collect (parse_as sandbox_command_ok SchemaError) (planned_commands p (nat runs)) =
        Inr (map (\<lambda>c. c) (planned_commands p (nat runs)))"
      using cmds by (intro collect_total) simp
    then show "build_node_execution_plan p runs src = Inr ?plan"
      using valid ok by (simp add: build_node_execution_plan_def planned_commands_def)
  qed
  have "build_node_execution_plan p runs src = Inl SchemaError"
    if "\<not> (node_profile_ok p \<and> repository_source_ok src \<and> 3 \<le> runs \<and> runs \<le> 5)"
    using that by (auto simp: build_node_execution_plan_def parse_as_def)
  then show ?thesis using built ok by auto
qed

text \<open>
  Planning succeeds exactly on a valid profile, a valid source and three to five
  runs; the plan then satisfies its schema and consists of the dependency fetch, the
  offline installation, one control and one candidate per run, in this order.
\<close>

theorem plan_exists_for_valid_request:
  "build_node_execution_plan p runs src =
     (if node_profile_ok p \<and> repository_source_ok src \<and> 3 \<le> runs \<and> runs \<le> 5
      then Inr \<lparr>plan_commands = planned_commands p (nat runs), plan_profile = p,
        plan_required_runs = runs, plan_source = src, plan_total_timeout_ms = 900000\<rparr>
      else Inl SchemaError) \<and>
   (\<forall>plan. build_node_execution_plan p runs src = Inr plan \<longrightarrow> execution_plan_ok plan)"
  by (rule plan_exists_for_valid_request')

theorem plan_exists_for_valid_request_witness:
  "execution_plan_ok \<lparr>plan_commands = planned_commands sample_profile 3, plan_profile = sample_profile,
     plan_required_runs = 3, plan_source = sample_source, plan_total_timeout_ms = 900000\<rparr>"
proof -
  have "repository_source_ok sample_source"
    by (simp add: repository_source_ok_def sample_source_def commit_string_def hex_string_def
        hex_char_def code_unit_def full_name_ok_def len_in_def space_char_def identifier_ok_def
        alnum_char_def digit_char_def list_all_iff)
  then show ?thesis
    using plan_exists_for_valid_request [of sample_profile 3 sample_source]
    by (simp add: sample_profile_ok)
qed

section \<open>Every experiment has its own copy\<close>

lemma nat_text_inject [simp]: "nat_text m = nat_text n \<longleftrightarrow> m = n"
  by (metis digits_value_nat_text)

lemma experiment_workspaces_distinct:
  "distinct (control_workspace # map candidate_workspace [0..<n])"
  by (auto simp: control_workspace_def candidate_workspace_def distinct_map inj_on_def)

lemma prepare_workspace_Inr:
  assumes "prepare_workspace w s src iw t = (Inr u, t')"
  shows "t' = t @ [MakeDirectory s (snd iw), RunCommand s (copy_workspace_command src iw)]"
  using assms
  by (auto simp: prepare_workspace_def catch_def bind_def make_directory_def perform_def
      run_command_def parsed_def parse_as_def require_def raise_def
      split: prod.splits sum.splits if_splits)

lemma prepare_workspace_Inl:
  "prepare_workspace w s src iw t = (Inl e, t') \<Longrightarrow> e = WorkspacePreparationFailed"
  by (auto simp: prepare_workspace_def catch_def raise_def split: prod.splits sum.splits)

lemma prepare_workspaces_trace:
  "for_each (prepare_workspace w s src) iws t = (Inr us, t') \<Longrightarrow>
     t' = t @ concat (map (\<lambda>iw. [MakeDirectory s (snd iw),
       RunCommand s (copy_workspace_command src iw)]) iws)"
proof (induction iws arbitrary: t us)
  case Nil
  then show ?case by (simp add: ret_def)
next
  case (Cons iw iws)
  obtain u t1 where 1: "prepare_workspace w s src iw t = (Inr u, t1)"
    using Cons.prems by (auto simp: bind_def split: prod.splits sum.splits)
  obtain us' where 2: "for_each (prepare_workspace w s src) iws t1 = (Inr us', t')"
    using Cons.prems 1 by (auto simp: bind_def ret_def split: prod.splits sum.splits)
  show ?case using prepare_workspace_Inr [OF 1] Cons.IH [OF 2] by simp
qed

lemma prepare_workspaces_error:
  "for_each (prepare_workspace w s src) iws t = (Inl e, t') \<Longrightarrow> e = WorkspacePreparationFailed"
  by (induction iws arbitrary: t)
     (auto simp: ret_def bind_def dest: prepare_workspace_Inl split: prod.splits sum.splits)

text \<open>
  When the workspaces of a planned attempt are prepared, the source was copied once
  into each of them, control first; the workspaces are different, one per planned
  experiment, and each experiment of the plan runs inside its own workspace. Any
  failure of the sandbox is reported as WORKSPACE_PREPARATION_FAILED.
\<close>

theorem experiments_run_in_fresh_copies:
  assumes "build_node_execution_plan p runs src = Inr plan"
  shows "case prepare_experiment_workspaces w denied plan s source_workspace t of
      (Inl e, t') \<Rightarrow> e = WorkspacePreparationFailed
    | (Inr (candidates, control), t') \<Rightarrow>
        denied \<and> length candidates = nat runs \<and> distinct (control # candidates) \<and>
        t' = t @ concat (map (\<lambda>iw. [MakeDirectory s (snd iw),
          RunCommand s (copy_workspace_command source_workspace iw)])
            (enumerate 0 (control # candidates))) \<and>
        map cmd_cwd (filter (\<lambda>c. cmd_phase c \<in> {ControlPhase, CandidatePhase}) (plan_commands plan)) =
          map (\<lambda>ws. experiment_cwd ws p) (control # candidates)"
proof -
  have plan: "plan = \<lparr>plan_commands = planned_commands p (nat runs), plan_profile = p,
        plan_required_runs = runs, plan_source = src, plan_total_timeout_ms = 900000\<rparr>"
    and ok: "execution_plan_ok plan"
    using plan_exists_for_valid_request' [of p runs src] assms by (auto split: if_splits)
  have cwds: "map cmd_cwd (filter (\<lambda>c. cmd_phase c \<in> {ControlPhase, CandidatePhase})
      (planned_commands p (nat runs))) =
    map (\<lambda>ws. experiment_cwd ws p) (control_workspace # map candidate_workspace [0..<nat runs])"
    by (simp add: planned_commands_def npm_fetch_command_def npm_install_command_def
        control_command_def candidate_command_def comp_def filter_map)
  let ?wss = "control_workspace # map candidate_workspace [0..<nat runs]"
  obtain r t' where run: "for_each (prepare_workspace w s source_workspace) (enumerate 0 ?wss) t = (r, t')"
    by fastforce
  show ?thesis
  proof (cases r)
    case (Inl e)
    from prepare_workspaces_error [OF run [unfolded Inl]] have "e = WorkspacePreparationFailed" .
    with run Inl ok show ?thesis
      by (simp add: prepare_experiment_workspaces_def bind_def require_def parsed_def plan Let_def
          del: enumerate_simps for_each.simps)
  next
    case (Inr us)
    from prepare_workspaces_trace [OF run [unfolded Inr]]
    have "t' = t @ concat (map (\<lambda>iw. [MakeDirectory s (snd iw),
          RunCommand s (copy_workspace_command source_workspace iw)]) (enumerate 0 ?wss))" .
    with run Inr ok cwds experiment_workspaces_distinct [of "nat runs"] show ?thesis
      by (simp add: prepare_experiment_workspaces_def bind_def require_def parsed_def plan ret_def Let_def
          del: enumerate_simps for_each.simps)
  qed
qed

lemma sample_source_ok: "repository_source_ok sample_source"
  by (simp add: repository_source_ok_def sample_source_def commit_string_def hex_string_def
      hex_char_def code_unit_def full_name_ok_def len_in_def space_char_def identifier_ok_def
      alnum_char_def digit_char_def list_all_iff)

definition sample_plan :: execution_plan where
  "sample_plan =
     \<lparr>plan_commands = planned_commands sample_profile 3, plan_profile = sample_profile,
      plan_required_runs = 3, plan_source = sample_source, plan_total_timeout_ms = 900000\<rparr>"

lemma sample_plan_built: "build_node_execution_plan sample_profile 3 sample_source = Inr sample_plan"
  using plan_exists_for_valid_request' [of sample_profile 3 sample_source]
  by (simp add: sample_profile_ok sample_source_ok sample_plan_def)

theorem experiments_run_in_fresh_copies_witness:
  "case prepare_experiment_workspaces steady_world False sample_plan 0 source_workspace [] of
     (Inl e, t') \<Rightarrow> e = WorkspacePreparationFailed | (Inr _, _) \<Rightarrow> False"
  using experiments_run_in_fresh_copies
    [OF sample_plan_built, where w = steady_world and denied = False and s = 0 and t = "[]"]
  by (auto split: prod.splits sum.splits)

section \<open>The environment hash\<close>

lemma environment_json_wf: "wf_json plain_host (environment_json e)"
proof -
  have two: "number_text_ok plain_host ''2''"
    by (simp add: number_text_ok_def json_number_def json_fraction_def num_char_def digit_char_def
        code_unit_def plain_host_def)
  show ?thesis
    unfolding environment_json_def wf_json.simps
    by (intro conjI, rule own_properties_named)
       (simp_all add: digit_char_def code_unit_def two)
qed

lemma environment_text_inject:
  assumes "json_text (environment_json e) = json_text (environment_json e')"
  shows "e\<lparr>env_hash := x\<rparr> = e'\<lparr>env_hash := x\<rparr>"
proof -
  have "environment_json e = environment_json e'"
    using json_parse_wf [OF environment_json_wf [of e]] json_parse_wf [OF environment_json_wf [of e']]
      assms by (metis option.inject)
  moreover have "node_version_text v = node_version_text v' \<Longrightarrow> v = v'" for v v'
    by (cases v; cases v') simp_all
  ultimately show ?thesis
    by (cases e; cases e') (simp add: environment_json_def)
qed

lemma collected_environment_fields:
  assumes "assemble_environment h p d prov node npm = Inr e"
  shows "execution_environment_ok e \<and> env_source_commit e = prov_commit prov \<and>
    env_archive_sha256 e = prov_archive_sha256 prov \<and>
    env_manifest_sha256 e = prov_manifest_sha256 prov \<and>
    env_lockfile_sha256 e = lockfile_sha256 d \<and>
    env_package_json_sha256 e = package_json_sha256 d \<and>
    env_runtime e = node_ver p \<and>
    node_release (env_node_version e) = Some (node_version_text (node_ver p)) \<and>
    env_hash e = environment_hash h e"
  using assms
  by (auto simp: assemble_environment_def and_then_Inr_iff Let_def environment_hash_def
      environment_json_def)

lemma collect_environment_Inr:
  assumes "collect_execution_environment h w d denied p s prov t = (Inr e, t')"
  shows "\<exists>node npm. assemble_environment h p d prov node npm = Inr e"
  using assms
  by (auto simp: collect_execution_environment_def bind_def lift_result_def parsed_def require_def
      split: prod.splits sum.splits if_splits)

text \<open>
  A collected environment satisfies its schema, carries the hashes and the commit of
  the acquired source and the checked dependencies and the requested Node release,
  and its hash is the SHA-256 of exactly those fields. So two collected environments
  with one hash are equal in every field, unless SHA-256 collides on their texts.
\<close>

theorem equal_environment_hash_equal_environment:
  assumes "collect_execution_environment h w d denied p s prov t = (Inr e, t1)"
    and "collect_execution_environment h w' d' denied' p' s' prov' t' = (Inr e', t1')"
    and "sha256_hex h (utf8_encode (json_text (environment_json e))) =
        sha256_hex h (utf8_encode (json_text (environment_json e'))) \<Longrightarrow>
      utf8_encode (json_text (environment_json e)) = utf8_encode (json_text (environment_json e'))"
  shows "(env_hash e = env_hash e' \<longleftrightarrow> e = e') \<and> execution_environment_ok e \<and>
    env_source_commit e = prov_commit prov \<and> env_runtime e = node_ver p \<and>
    env_manifest_sha256 e = prov_manifest_sha256 prov \<and>
    env_lockfile_sha256 e = lockfile_sha256 d"
proof -
  obtain node npm node' npm' where
    "assemble_environment h p d prov node npm = Inr e"
    "assemble_environment h p' d' prov' node' npm' = Inr e'"
    using collect_environment_Inr [OF assms(1)] collect_environment_Inr [OF assms(2)] by blast
  note e = collected_environment_fields [OF this(1)] and e' = collected_environment_fields [OF this(2)]
  have "e = e'" if "env_hash e = env_hash e'"
  proof -
    have "json_text (environment_json e) = json_text (environment_json e')"
      using that e e' assms(3) by (simp add: environment_hash_def utf8_encode_inject)
    from environment_text_inject [OF this, of "env_hash e"] that show ?thesis
      by (cases e; cases e') simp
  qed
  with e show ?thesis by auto
qed

definition sample_provenance :: source_provenance where
  "sample_provenance =
     \<lparr>prov_acquired_at = 0, prov_archive_bytes = 10, prov_archive_sha256 = replicate 64 (CHR ''a''),
      prov_commit = replicate 40 (CHR ''c''), prov_extracted_bytes = 5, prov_file_count = 2,
      prov_manifest_sha256 = replicate 64 (CHR ''0''), prov_repository_id = ''1''\<rparr>"

definition sample_environment :: execution_environment where
  "sample_environment =
     \<lparr>env_archive_sha256 = replicate 64 (CHR ''a''), env_hash = replicate 64 (CHR ''0''),
      env_lockfile_sha256 = replicate 64 (CHR ''0''), env_manifest_sha256 = replicate 64 (CHR ''0''),
      env_node_version = ''22.11.0'', env_npm_version = ''10.9.0'',
      env_package_json_sha256 = replicate 64 (CHR ''0''), env_runtime = Node22,
      env_source_commit = replicate 40 (CHR ''c'')\<rparr>"

lemma sample_strings_ok:
  "sha256_string (replicate 64 (CHR ''a''))" "sha256_string (replicate 64 (CHR ''0''))"
  "commit_string (replicate 40 (CHR ''c''))"
  by (simp_all add: sha256_string_def commit_string_def hex_string_def hex_char_def digit_char_def
      code_unit_def list_all_iff)

lemma sample_environment_collected:
  "fst (collect_execution_environment npm_host steady_world sample_metadata True sample_profile 0
     sample_provenance []) = Inr sample_environment"
proof -
  have cmds: "sandbox_command_ok (version_command NodeTool)" "sandbox_command_ok (version_command Npm)"
    using root_paths_ok [OF literal_segment_ok, of "''source''"]
    by (simp_all add: sandbox_command_ok_def version_command_def source_workspace_def
        sandbox_workspace_root_def sandbox_root_def no_control_characters_def control_char_def
        code_unit_def)
  have versions: "node_release ''22.11.0'' = Some ''22''" "semver_text ''10.9.0''"
    by (simp_all add: node_release_def semver_text_def digit_char_def code_unit_def)
  have trims: "js_trim ''v22.11.0'' = ''v22.11.0''" "js_trim ''10.9.0'' = ''10.9.0''"
    by (simp_all add: js_trim_def space_char_def code_unit_def)
  have "assemble_environment npm_host sample_profile sample_metadata sample_provenance
      (steady_run (version_command NodeTool)) (steady_run (version_command Npm)) = Inr sample_environment"
    using versions trims sample_strings_ok
    by (simp add: assemble_environment_def steady_run_def version_command_def read_version_def
        check_def sample_profile_def sample_provenance_def sample_metadata_def environment_hash_def
        sample_environment_def execution_environment_ok_def parse_as_def)
  then show ?thesis
    using cmds sample_profile_ok
    by (simp add: collect_execution_environment_def bind_def parsed_def require_def both_def
        run_command_def perform_def steady_world_def lift_result_def)
qed

theorem equal_environment_hash_equal_environment_witness:
  "execution_environment_ok sample_environment \<and> env_runtime sample_environment = Node22"
proof -
  obtain t1 where collected: "collect_execution_environment npm_host steady_world sample_metadata
      True sample_profile 0 sample_provenance [] = (Inr sample_environment, t1)"
    using sample_environment_collected by (metis prod.collapse)
  from equal_environment_hash_equal_environment [OF collected collected] show ?thesis
    by (simp add: sample_profile_def)
qed

end
