(* ===== verification/Lifecycle.thy ===== *)
theory Lifecycle
  imports Sandbox
begin

text \<open>
  The \<open>SnapshotRunCoordinator\<close> of src/src/execution/sandbox-lifecycle.ts: it
  snapshots a prepared session, runs each experiment in a fresh session restored from
  the snapshot, retries provider interruptions a bounded number of times, and releases
  every resource on every path.

  Abort signals and timers are the functions \<open>coord_aborted\<close> and
  \<open>coord_timed_out\<close> of the trace, sampled where the code samples them. The abort
  listener stops the active session while the experiment is running; the trace records
  that stop when the experiment has settled, which is where an experiment without
  abort stops its session.
\<close>

section \<open>The coordinator\<close>

record 'r coordinator =
  coord_world :: world
  coord_quarantine :: "quarantine_record \<Rightarrow> unit prog"
  coord_max_retries :: nat
  coord_expiration_ms :: int
  coord_timeout_ms :: int
  coord_aborted :: "trace \<Rightarrow> bool"
  coord_timed_out :: "trace \<Rightarrow> bool"
  coord_run :: "nat \<Rightarrow> session \<Rightarrow> 'r prog"

text \<open>What the constructor accepts.\<close>

definition coordinator_ok :: "'r coordinator \<Rightarrow> bool" where
  "coordinator_ok c \<longleftrightarrow>
     1 \<le> coord_timeout_ms c \<and> coord_timeout_ms c \<le> 900000 \<and> coord_max_retries c \<le> 1 \<and>
     snapshot_min_expiration_ms \<le> coord_expiration_ms c \<and>
     coord_expiration_ms c \<le> snapshot_max_expiration_ms"

record 'r life_state =
  life_calls :: trace
  life_stopped :: "session set"
  life_cleanup :: cleanup_status
  life_retries :: nat
  life_values :: "'r list"

record 'r lifecycle_result =
  lifecycle_cleanup :: cleanup_status
  lifecycle_retries :: nat
  lifecycle_values :: "'r list"

definition is_provider_interruption :: "thrown \<Rightarrow> bool" where
  "is_provider_interruption e \<longleftrightarrow> e = LimitError ProviderInterrupted"

definition is_budget_exhaustion :: "thrown \<Rightarrow> bool" where
  "is_budget_exhaustion e \<longleftrightarrow>
     (case e of LimitError code \<Rightarrow> code \<noteq> ProviderInterrupted | _ \<Rightarrow> False)"

definition quarantine_resource ::
  "'r coordinator \<Rightarrow> quarantine_record \<Rightarrow> 'r life_state \<Rightarrow> 'r life_state" where
  "quarantine_resource c q st =
     st\<lparr>life_cleanup := Quarantined, life_calls := snd (coord_quarantine c q (life_calls st))\<rparr>"

definition quarantine_entry ::
  "string \<Rightarrow> string \<Rightarrow> quarantined_resource \<Rightarrow> quarantine_record" where
  "quarantine_entry attempt rid kind =
     \<lparr>quarantine_actor = None, quarantine_attempt = attempt, quarantine_resource_id = rid,
      quarantine_record.quarantine_resource = kind, quarantine_tenant = None\<rparr>"

definition cleanup_session ::
  "'r coordinator \<Rightarrow> string \<Rightarrow> session \<Rightarrow> 'r life_state \<Rightarrow> 'r life_state" where
  "cleanup_session c attempt s st =
     (if s \<in> life_stopped st then st
      else
        let st' = st\<lparr>life_stopped := insert s (life_stopped st),
              life_calls := life_calls st @ [StopSession s]\<rparr>
        in case unit_reply (coord_world c) (life_calls st') of
             Inr _ \<Rightarrow> st'
           | Inl _ \<Rightarrow> quarantine_resource c
               (quarantine_entry attempt (sandbox_id (coord_world c) s) SandboxResource) st')"

definition aborted_error :: "'r coordinator \<Rightarrow> 'r life_state \<Rightarrow> thrown" where
  "aborted_error c st =
     LifecycleError (if coord_timed_out c (life_calls st) then LifecycleTimeout
       else LifecycleCancelled) (life_cleanup st)"

datatype run_verdict = RunDone | RunRetry | RunThrow thrown

definition judge_run ::
  "'r coordinator \<Rightarrow> nat \<Rightarrow> thrown + 'r \<Rightarrow> 'r life_state \<Rightarrow> run_verdict \<times> 'r life_state" where
  "judge_run c retries r st =
     (if coord_aborted c (life_calls st) then (RunThrow (aborted_error c st), st)
      else case r of
        Inr v \<Rightarrow> (RunDone, st\<lparr>life_values := life_values st @ [v]\<rparr>)
      | Inl e \<Rightarrow>
          (if is_budget_exhaustion e
           then (RunThrow (LifecycleError LifecycleBudget (life_cleanup st)), st)
           else if is_provider_interruption e \<and> retries < coord_max_retries c
           then (RunRetry, st\<lparr>life_retries := life_retries st + 1\<rparr>)
           else if is_provider_interruption e
           then (RunThrow (LifecycleError LifecycleInterrupted (life_cleanup st)), st)
           else
             (case e of
                LifecycleError _ _ \<Rightarrow> (RunThrow e, st)
              | _ \<Rightarrow> (RunThrow (LifecycleError LifecycleFailed (life_cleanup st)), st))))"

definition restore_request :: "string \<Rightarrow> snapshot_request" where
  "restore_request snap = \<lparr>snapshot_ref = snap, snapshot_timeout_ms = 180000\<rparr>"

function run_experiment ::
  "'r coordinator \<Rightarrow> string \<Rightarrow> string \<Rightarrow> nat \<Rightarrow> nat \<Rightarrow> 'r life_state
     \<Rightarrow> thrown option \<times> 'r life_state" where
  "run_experiment c attempt snap index retries st =
     (if coord_aborted c (life_calls st) then (Some (aborted_error c st), st)
      else
        let t1 = life_calls st @ [CreateFromSnapshot (restore_request snap)];
            st1 = st\<lparr>life_calls := t1\<rparr>
        in case session_reply (coord_world c) t1 of
             Inl _ \<Rightarrow>
               (if coord_aborted c t1 then (Some (aborted_error c st1), st1)
                else if retries < coord_max_retries c
                then run_experiment c attempt snap index (retries + 1)
                  (st1\<lparr>life_retries := life_retries st1 + 1\<rparr>)
                else (Some (LifecycleError LifecycleInterrupted (life_cleanup st1)), st1))
           | Inr s \<Rightarrow>
               (case coord_run c index s t1 of (r, t2) \<Rightarrow>
                  (case judge_run c retries r (st1\<lparr>life_calls := t2\<rparr>) of (verdict, st2) \<Rightarrow>
                     let st3 = cleanup_session c attempt s st2 in
                     (case verdict of
                        RunDone \<Rightarrow> (None, st3)
                      | RunThrow e \<Rightarrow> (Some e, st3)
                      | RunRetry \<Rightarrow>
                          (if retries < coord_max_retries c
                           then run_experiment c attempt snap index (retries + 1) st3
                           else (None, st3))))))"
  by pat_completeness auto

termination
  by (relation "measure (\<lambda>(c, attempt, snap, index, retries, st). coord_max_retries c - retries)") auto

declare run_experiment.simps [simp del]

fun run_experiments ::
  "'r coordinator \<Rightarrow> string \<Rightarrow> string \<Rightarrow> nat list \<Rightarrow> 'r life_state
     \<Rightarrow> thrown option \<times> 'r life_state" where
  "run_experiments c attempt snap [] st = (None, st)"
| "run_experiments c attempt snap (i # is) st =
     (case run_experiment c attempt snap i 0 st of
        (Some e, st') \<Rightarrow> (Some e, st')
      | (None, st') \<Rightarrow> run_experiments c attempt snap is st')"

text \<open>The body of the try block: an error if any, the snapshot if taken, and the state.\<close>

definition coordinate_runs ::
  "'r coordinator \<Rightarrow> string \<Rightarrow> session \<Rightarrow> nat \<Rightarrow> 'r life_state
     \<Rightarrow> thrown option \<times> string option \<times> 'r life_state" where
  "coordinate_runs c attempt prepared run_count st =
     (if coord_aborted c (life_calls st) then (Some (aborted_error c st), None, st)
      else
        let t1 = life_calls st @ [TakeSnapshot prepared (coord_expiration_ms c)];
            st1 = st\<lparr>life_calls := t1\<rparr>
        in case snapshot_reply (coord_world c) t1 of
             Inl _ \<Rightarrow>
               (Some (if coord_aborted c t1 then aborted_error c st1
                  else LifecycleError LifecycleInterrupted (life_cleanup st1)), None, st1)
           | Inr snap \<Rightarrow>
               (case run_experiments c attempt snap [0..<run_count]
                    (cleanup_session c attempt prepared st1) of
                  (e, st2) \<Rightarrow> (e, Some snap, st2)))"

definition delete_snapshot ::
  "'r coordinator \<Rightarrow> string \<Rightarrow> string option \<Rightarrow> 'r life_state \<Rightarrow> 'r life_state" where
  "delete_snapshot c attempt snapshot st =
     (case snapshot of
        None \<Rightarrow> st
      | Some snap \<Rightarrow>
          let st' = st\<lparr>life_calls := life_calls st @ [DeleteSnapshot snap]\<rparr>
          in case unit_reply (coord_world c) (life_calls st') of
               Inr _ \<Rightarrow> st'
             | Inl _ \<Rightarrow> quarantine_resource c (quarantine_entry attempt snap SnapshotResource) st')"

definition as_lifecycle_code :: "thrown \<Rightarrow> lifecycle_code" where
  "as_lifecycle_code e = (case e of LifecycleError code _ \<Rightarrow> code | _ \<Rightarrow> LifecycleFailed)"

definition life_start :: "session set \<Rightarrow> trace \<Rightarrow> 'r life_state" where
  "life_start stopped t =
     \<lparr>life_calls = t, life_stopped = stopped, life_cleanup = Clean, life_retries = 0,
      life_values = []\<rparr>"

text \<open>
  \<open>execute\<close>. The set \<open>stopped\<close> holds the sessions whose cleanup this coordinator
  has already started in earlier attempts.
\<close>

definition execute_attempt ::
  "'r coordinator \<Rightarrow> session set \<Rightarrow> string \<Rightarrow> session \<Rightarrow> int \<Rightarrow> trace
     \<Rightarrow> (thrown + 'r lifecycle_result) \<times> trace" where
  "execute_attempt c stopped attempt prepared run_count t =
     (if \<not> (identifier_ok ''._:-'' attempt \<and> 1 \<le> run_count \<and> run_count \<le> 6)
      then (Inl SchemaError, t)
      else
        (case coordinate_runs c attempt prepared (nat run_count) (life_start stopped t) of
           (e, snapshot, st) \<Rightarrow>
             let st' = delete_snapshot c attempt snapshot (cleanup_session c attempt prepared st)
             in ((case e of
                    Some err \<Rightarrow> Inl (LifecycleError (as_lifecycle_code err) (life_cleanup st'))
                  | None \<Rightarrow> Inr \<lparr>lifecycle_cleanup = life_cleanup st',
                      lifecycle_retries = life_retries st', lifecycle_values = life_values st'\<rparr>),
                 life_calls st')))"

section \<open>What a trace says about resources\<close>

fun observe :: "(trace \<Rightarrow> 'b list) \<Rightarrow> trace \<Rightarrow> trace \<Rightarrow> 'b list" where
  "observe f pre [] = []"
| "observe f pre (c # cs) = f (pre @ [c]) @ observe f (pre @ [c]) cs"

lemma observe_append: "observe f pre (cs @ ds) = observe f pre cs @ observe f (pre @ cs) ds"
  by (induction cs arbitrary: pre) simp_all

lemma observe_none:
  "(\<And>t c. c \<in> set cs \<Longrightarrow> f (t @ [c]) = []) \<Longrightarrow> observe f pre cs = []"
  by (induction cs arbitrary: pre) auto

text \<open>The sessions that were created, and the releases that the provider rejected.\<close>

definition created_by :: "world \<Rightarrow> trace \<Rightarrow> session list" where
  "created_by w t =
     (case last t of
        CreateSandbox r \<Rightarrow> (case session_reply w t of Inr s \<Rightarrow> [s] | Inl _ \<Rightarrow> [])
      | CreateFromSnapshot r \<Rightarrow> (case session_reply w t of Inr s \<Rightarrow> [s] | Inl _ \<Rightarrow> [])
      | _ \<Rightarrow> [])"

definition rejected_release :: "world \<Rightarrow> trace \<Rightarrow> sandbox_call list" where
  "rejected_release w t =
     (case last t of
        StopSession s \<Rightarrow> (case unit_reply w t of Inl _ \<Rightarrow> [last t] | Inr _ \<Rightarrow> [])
      | DeleteSnapshot snap \<Rightarrow> (case unit_reply w t of Inl _ \<Rightarrow> [last t] | Inr _ \<Rightarrow> [])
      | _ \<Rightarrow> [])"

definition taken_by :: "world \<Rightarrow> trace \<Rightarrow> string list" where
  "taken_by w t =
     (case last t of
        TakeSnapshot s x \<Rightarrow> (case snapshot_reply w t of Inr snap \<Rightarrow> [snap] | Inl _ \<Rightarrow> [])
      | _ \<Rightarrow> [])"

abbreviation created_sessions :: "world \<Rightarrow> trace \<Rightarrow> trace \<Rightarrow> session list" where
  "created_sessions w \<equiv> observe (created_by w)"

abbreviation rejected_releases :: "world \<Rightarrow> trace \<Rightarrow> trace \<Rightarrow> sandbox_call list" where
  "rejected_releases w \<equiv> observe (rejected_release w)"

abbreviation taken_snapshots :: "world \<Rightarrow> trace \<Rightarrow> trace \<Rightarrow> string list" where
  "taken_snapshots w \<equiv> observe (taken_by w)"

fun resource_call :: "sandbox_call \<Rightarrow> bool" where
  "resource_call (CreateSandbox r) = True"
| "resource_call (CreateFromSnapshot r) = True"
| "resource_call (TakeSnapshot s x) = True"
| "resource_call (StopSession s) = True"
| "resource_call (DeleteSnapshot snap) = True"
| "resource_call _ = False"

fun is_restore :: "sandbox_call \<Rightarrow> bool" where
  "is_restore (CreateFromSnapshot r) = True"
| "is_restore _ = False"

lemma quiet_observations:
  assumes "list_all (\<lambda>x. \<not> resource_call x) cs"
  shows "created_sessions w pre cs = []" and "rejected_releases w pre cs = []"
    and "taken_snapshots w pre cs = []" and "StopSession s \<notin> set cs"
    and "DeleteSnapshot snap \<notin> set cs" and "CreateFromSnapshot r \<notin> set cs"
proof -
  have q: "\<not> resource_call x" if "x \<in> set cs" for x using assms that by (simp add: list_all_iff)
  then show "StopSession s \<notin> set cs" "DeleteSnapshot snap \<notin> set cs" "CreateFromSnapshot r \<notin> set cs"
    using resource_call.simps by blast+
  have "created_by w (t @ [x]) = [] \<and> rejected_release w (t @ [x]) = [] \<and> taken_by w (t @ [x]) = []"
    if "\<not> resource_call x" for t x
    using that by (cases x) (simp_all add: created_by_def rejected_release_def taken_by_def)
  with q show "created_sessions w pre cs = []" "rejected_releases w pre cs = []"
    "taken_snapshots w pre cs = []"
    by (auto intro!: observe_none)
qed

section \<open>Every resource is released once\<close>

text \<open>
  What the coordinator needs of its caller: an experiment neither creates, stops nor
  snapshots sandboxes, and recording a quarantine touches no sandbox.
\<close>

locale experiment_runner =
  fixes c :: "'r coordinator"
  assumes run_quiet: "emits (\<lambda>x. \<not> resource_call x) (coord_run c i s)"
    and sink_quiet: "emits (\<lambda>x. \<not> resource_call x) (coord_quarantine c q)"
begin

abbreviation wld :: world where
  "wld \<equiv> coord_world c"

text \<open>
  The state after the calls \<open>cs\<close> since \<open>t0\<close>, when the sessions in \<open>open_sessions\<close>
  may still wait for their release.
\<close>

definition released_except :: "session set \<Rightarrow> trace \<Rightarrow> session set \<Rightarrow> 'r life_state \<Rightarrow> bool" where
  "released_except stopped t0 open_sessions st \<longleftrightarrow>
     (\<exists>cs. life_calls st = t0 @ cs \<and>
        life_stopped st = stopped \<union> {s. StopSession s \<in> set cs} \<and>
        (\<forall>s. count_list cs (StopSession s) \<le> 1) \<and>
        (\<forall>s \<in> stopped. StopSession s \<notin> set cs) \<and>
        set (created_sessions wld t0 cs) \<subseteq> life_stopped st \<union> open_sessions \<and>
        (life_cleanup st = Quarantined \<longleftrightarrow> rejected_releases wld t0 cs \<noteq> []))"

lemma released_start: "released_except stopped t {} (life_start stopped t)"
  by (simp add: released_except_def life_start_def)

lemma released_quiet:
  assumes "released_except S t0 A st" and "list_all (\<lambda>x. \<not> resource_call x) ds"
  shows "released_except S t0 A (st\<lparr>life_calls := life_calls st @ ds\<rparr>)"
proof -
  from assms(1) obtain cs where cs: "life_calls st = t0 @ cs"
    "life_stopped st = S \<union> {s. StopSession s \<in> set cs}" "\<forall>s. count_list cs (StopSession s) \<le> 1"
    "\<forall>s \<in> S. StopSession s \<notin> set cs"
    "set (created_sessions wld t0 cs) \<subseteq> life_stopped st \<union> A"
    "life_cleanup st = Quarantined \<longleftrightarrow> rejected_releases wld t0 cs \<noteq> []"
    by (auto simp: released_except_def)
  note q = quiet_observations [OF assms(2)]
  have "count_list ds (StopSession s) = 0" for s using q(4) by (simp add: count_list_0_iff)
  then show ?thesis
    unfolding released_except_def
    using cs q by (intro exI [of _ "cs @ ds"]) (simp add: observe_append)
qed

lemma released_values [simp]:
  "released_except S t0 A (st\<lparr>life_values := vs\<rparr>) = released_except S t0 A st"
  "released_except S t0 A (st\<lparr>life_retries := n\<rparr>) = released_except S t0 A st"
  by (simp_all add: released_except_def)

lemma released_mono: "released_except S t0 A st \<Longrightarrow> A \<subseteq> B \<Longrightarrow> released_except S t0 B st"
  unfolding released_except_def by (elim exE, rule exI) auto

lemma released_quarantined:
  assumes "life_calls st = t0 @ cs" "life_stopped st = S \<union> {s. StopSession s \<in> set cs}"
    "\<forall>s. count_list cs (StopSession s) \<le> 1" "\<forall>s \<in> S. StopSession s \<notin> set cs"
    "set (created_sessions wld t0 cs) \<subseteq> life_stopped st \<union> A" "rejected_releases wld t0 cs \<noteq> []"
  shows "released_except S t0 A (quarantine_resource c q st)"
proof -
  have "released_except S t0 A (st\<lparr>life_cleanup := Quarantined\<rparr>)"
    unfolding released_except_def using assms by (intro exI [of _ cs]) simp
  moreover obtain ds where "snd (coord_quarantine c q (life_calls st)) = life_calls st @ ds"
    "list_all (\<lambda>x. \<not> resource_call x) ds"
    using sink_quiet [of q] unfolding emits_def by blast
  ultimately show ?thesis
    using released_quiet [of S t0 A "st\<lparr>life_cleanup := Quarantined\<rparr>" ds]
    by (simp add: quarantine_resource_def)
qed

lemma released_cleanup:
  assumes "released_except S t0 (insert s A) st"
  shows "released_except S t0 A (cleanup_session c attempt s st)"
    and "s \<in> life_stopped (cleanup_session c attempt s st)"
proof -
  from assms obtain cs where cs: "life_calls st = t0 @ cs"
    "life_stopped st = S \<union> {s. StopSession s \<in> set cs}" "\<forall>s. count_list cs (StopSession s) \<le> 1"
    "\<forall>s \<in> S. StopSession s \<notin> set cs"
    "set (created_sessions wld t0 cs) \<subseteq> life_stopped st \<union> insert s A"
    "life_cleanup st = Quarantined \<longleftrightarrow> rejected_releases wld t0 cs \<noteq> []"
    by (auto simp: released_except_def)
  let ?cs = "cs @ [StopSession s]"
  let ?st = "st\<lparr>life_stopped := insert s (life_stopped st), life_calls := life_calls st @ [StopSession s]\<rparr>"
  show "released_except S t0 A (cleanup_session c attempt s st)"
  proof (cases "s \<in> life_stopped st")
    case True
    then have "set (created_sessions wld t0 cs) \<subseteq> life_stopped st \<union> A" using cs(5) by auto
    with True cs show ?thesis
      unfolding released_except_def by (intro exI [of _ cs]) (simp add: cleanup_session_def)
  next
    case False
    have st: "life_calls ?st = t0 @ ?cs" "life_stopped ?st = S \<union> {s. StopSession s \<in> set ?cs}"
      "\<forall>x \<in> S. StopSession x \<notin> set ?cs"
      using cs False by auto
    have once: "\<forall>x. count_list ?cs (StopSession x) \<le> 1"
    proof
      fix x
      show "count_list ?cs (StopSession x) \<le> 1"
        using cs(3) False cs(2) by (cases "x = s") (auto simp: count_list_0_iff)
    qed
    have created: "set (created_sessions wld t0 ?cs) \<subseteq> life_stopped ?st \<union> A"
      using cs(5) by (auto simp: observe_append created_by_def)
    show ?thesis
    proof (cases "unit_reply wld (life_calls ?st)")
      case (Inr u)
      then have "rejected_releases wld t0 ?cs = rejected_releases wld t0 cs"
        using cs(1) by (simp add: observe_append rejected_release_def)
      with Inr False st once created cs(6) show ?thesis
        unfolding released_except_def by (intro exI [of _ ?cs]) (simp add: cleanup_session_def)
    next
      case (Inl e)
      then have "rejected_releases wld t0 ?cs \<noteq> []"
        using cs(1) by (simp add: observe_append rejected_release_def)
      from released_quarantined [OF st(1,2) once st(3) created this] Inl False
      show ?thesis by (simp add: cleanup_session_def Let_def)
    qed
  qed
  show "s \<in> life_stopped (cleanup_session c attempt s st)"
    by (auto simp: cleanup_session_def Let_def quarantine_resource_def split: sum.split)
qed

lemma judge_run_state:
  "judge_run c retries r st = (v, st') \<Longrightarrow>
     released_except S t0 A st' = released_except S t0 A st \<and> life_stopped st' = life_stopped st"
  by (auto simp: judge_run_def split: if_splits sum.splits thrown.splits)

lemma judge_run_retry: "judge_run c retries r st = (RunRetry, st') \<Longrightarrow> retries < coord_max_retries c"
  by (auto simp: judge_run_def split: if_splits sum.splits thrown.splits)

lemma released_create:
  assumes "released_except S t0 A st"
    and "\<And>s. session_reply wld (life_calls st @ [CreateFromSnapshot r]) = Inr s \<Longrightarrow> s \<in> B"
  shows "released_except S t0 (A \<union> B) (st\<lparr>life_calls := life_calls st @ [CreateFromSnapshot r]\<rparr>)"
proof -
  from assms(1) obtain cs where cs: "life_calls st = t0 @ cs"
    "life_stopped st = S \<union> {s. StopSession s \<in> set cs}" "\<forall>s. count_list cs (StopSession s) \<le> 1"
    "\<forall>s \<in> S. StopSession s \<notin> set cs"
    "set (created_sessions wld t0 cs) \<subseteq> life_stopped st \<union> A"
    "life_cleanup st = Quarantined \<longleftrightarrow> rejected_releases wld t0 cs \<noteq> []"
    by (auto simp: released_except_def)
  have "set (created_by wld (t0 @ cs @ [CreateFromSnapshot r])) \<subseteq> B"
    using assms(2) cs(1) by (auto simp: created_by_def split: sum.splits)
  then show ?thesis
    unfolding released_except_def
    using cs by (intro exI [of _ "cs @ [CreateFromSnapshot r]"])
      (auto simp: observe_append rejected_release_def)
qed

lemma released_experiment:
  "released_except S t0 {} st \<Longrightarrow> run_experiment c attempt snap index retries st = (e, st') \<Longrightarrow>
     released_except S t0 {} st'"
proof (induction "coord_max_retries c - retries" arbitrary: retries st rule: less_induct)
  case less
  let ?t1 = "life_calls st @ [CreateFromSnapshot (restore_request snap)]"
  let ?st1 = "st\<lparr>life_calls := ?t1\<rparr>"
  show ?case
  proof (cases "coord_aborted c (life_calls st)")
    case True
    with less.prems show ?thesis by (simp add: run_experiment.simps [of c attempt snap index retries st])
  next
    case running: False
    show ?thesis
    proof (cases "session_reply wld ?t1")
      case (Inl err)
      have inv1: "released_except S t0 {} ?st1"
        using released_create [OF less.prems(1), of "restore_request snap" "{}"] Inl by simp
      show ?thesis
        using less.prems(2) inv1 Inl running
          less.hyps [of "retries + 1" "?st1\<lparr>life_retries := life_retries ?st1 + 1\<rparr>"]
        by (auto simp: run_experiment.simps [of c attempt snap index retries st] Let_def
            split: if_splits)
    next
      case (Inr s)
      have inv1: "released_except S t0 {s} ?st1"
        using released_create [OF less.prems(1), of "restore_request snap" "{s}"] Inr by simp
      obtain r t2 where run: "coord_run c index s ?t1 = (r, t2)" by fastforce
      from emitsE [OF run_quiet run] obtain ds where "t2 = ?t1 @ ds"
        "list_all (\<lambda>x. \<not> resource_call x) ds" .
      then have inv2: "released_except S t0 {s} (?st1\<lparr>life_calls := t2\<rparr>)"
        using released_quiet [OF inv1] by simp
      obtain v st2 where judged: "judge_run c retries r (?st1\<lparr>life_calls := t2\<rparr>) = (v, st2)"
        by fastforce
      have inv3: "released_except S t0 {} (cleanup_session c attempt s st2)"
        using judge_run_state [OF judged] inv2 by (intro released_cleanup(1)) simp
      show ?thesis
        using less.prems(2) inv3 Inr running run judged
          less.hyps [of "retries + 1" "cleanup_session c attempt s st2"]
        by (auto simp: run_experiment.simps [of c attempt snap index retries st] Let_def
            split: run_verdict.splits if_splits)
    qed
  qed
qed

lemma released_experiments:
  "released_except S t0 {} st \<Longrightarrow> run_experiments c attempt snap is st = (e, st') \<Longrightarrow>
     released_except S t0 {} st'"
  by (induction "is" arbitrary: st)
     (auto split: prod.splits option.splits dest: released_experiment)

section \<open>What an attempt returns\<close>

definition restore_call :: "string \<Rightarrow> sandbox_call \<Rightarrow> bool" where
  "restore_call snap x \<longleftrightarrow> x = CreateFromSnapshot (restore_request snap)"

definition experiment_call :: "string \<Rightarrow> sandbox_call \<Rightarrow> bool" where
  "experiment_call snap x \<longleftrightarrow>
     \<not> resource_call x \<or> (\<exists>s. x = StopSession s) \<or> restore_call snap x"

lemma quiet_no_restore: "list_all (\<lambda>x. \<not> resource_call x) cs \<Longrightarrow> filter (restore_call snap) cs = []"
  by (auto simp: list_all_iff filter_empty_conv restore_call_def)

lemma quiet_experiment_calls:
  "list_all (\<lambda>x. \<not> resource_call x) cs \<Longrightarrow> list_all (experiment_call snap) cs"
  by (auto simp: list_all_iff experiment_call_def)

definition extends_by :: "string \<Rightarrow> nat \<Rightarrow> 'r life_state \<Rightarrow> 'r life_state \<Rightarrow> bool" where
  "extends_by snap n st st' \<longleftrightarrow>
     (\<exists>cs. life_calls st' = life_calls st @ cs \<and> list_all (experiment_call snap) cs \<and>
        length (filter (restore_call snap) cs) \<le> n)"

lemma extends_refl: "life_calls st' = life_calls st \<Longrightarrow> extends_by snap n st st'"
  by (auto simp: extends_by_def)

lemma extends_trans:
  assumes "extends_by snap m st st1" and "extends_by snap n st1 st2" and "m + n \<le> k"
  shows "extends_by snap k st st2"
proof -
  obtain cs ds where "life_calls st1 = life_calls st @ cs" "list_all (experiment_call snap) cs"
    "length (filter (restore_call snap) cs) \<le> m"
    "life_calls st2 = life_calls st1 @ ds" "list_all (experiment_call snap) ds"
    "length (filter (restore_call snap) ds) \<le> n"
    using assms(1,2) by (auto simp: extends_by_def)
  then show ?thesis
    unfolding extends_by_def using assms(3) by (intro exI [of _ "cs @ ds"]) simp
qed

lemma extends_quiet:
  "life_calls st' = life_calls st @ cs \<Longrightarrow> list_all (\<lambda>x. \<not> resource_call x) cs \<Longrightarrow>
     extends_by snap 0 st st'"
  unfolding extends_by_def
  using quiet_no_restore quiet_experiment_calls by (intro exI [of _ cs]) simp

lemma extends_restore:
  "life_calls st' = life_calls st @ [CreateFromSnapshot (restore_request snap)] \<Longrightarrow>
     extends_by snap 1 st st'"
  unfolding extends_by_def by (intro exI) (auto simp: experiment_call_def restore_call_def)

lemma quarantine_keeps [simp]:
  "life_values (quarantine_resource c q st) = life_values st"
  "life_retries (quarantine_resource c q st) = life_retries st"
  "life_stopped (quarantine_resource c q st) = life_stopped st"
  by (simp_all add: quarantine_resource_def)

lemma extends_quarantine: "extends_by snap 0 st (quarantine_resource c q st)"
proof -
  obtain ds where "snd (coord_quarantine c q (life_calls st)) = life_calls st @ ds"
    "list_all (\<lambda>x. \<not> resource_call x) ds"
    using sink_quiet [of q] unfolding emits_def by blast
  then show ?thesis by (intro extends_quiet [of _ _ ds]) (simp_all add: quarantine_resource_def)
qed

lemma cleanup_keeps [simp]:
  "life_values (cleanup_session c attempt s st) = life_values st"
  "life_retries (cleanup_session c attempt s st) = life_retries st"
  by (simp_all add: cleanup_session_def Let_def split: sum.split)

lemma extends_cleanup: "extends_by snap 0 st (cleanup_session c attempt s st)"
proof -
  let ?st = "st\<lparr>life_stopped := insert s (life_stopped st), life_calls := life_calls st @ [StopSession s]\<rparr>"
  have "extends_by snap 0 st ?st"
    unfolding extends_by_def
    by (intro exI [of _ "[StopSession s]"]) (simp add: experiment_call_def restore_call_def)
  then show ?thesis
    using extends_trans [OF _ extends_quarantine, of snap 0 st ?st 0] extends_refl [of st st snap 0]
    by (auto simp: cleanup_session_def Let_def split: sum.split)
qed

lemma judge_run_keeps:
  "judge_run c retries r st = (v, st') \<Longrightarrow> life_calls st' = life_calls st"
  by (auto simp: judge_run_def split: if_splits sum.splits thrown.splits)

lemma judge_run_result:
  assumes "judge_run c retries r st = (v, st')"
  shows "case v of
      RunDone \<Rightarrow> \<exists>x. r = Inr x \<and> life_values st' = life_values st @ [x] \<and> life_retries st' = life_retries st
    | RunRetry \<Rightarrow> life_values st' = life_values st \<and> life_retries st' = life_retries st + 1
    | RunThrow e \<Rightarrow> life_values st' = life_values st \<and> life_retries st' = life_retries st \<and>
        (\<exists>code k. e = LifecycleError code k)"
  using assms
  by (auto simp: judge_run_def aborted_error_def split: if_splits sum.splits thrown.splits)

definition experiment_outcome ::
  "nat \<Rightarrow> nat \<Rightarrow> 'r life_state \<Rightarrow> thrown option \<Rightarrow> 'r life_state \<Rightarrow> bool" where
  "experiment_outcome index allowed st e st' \<longleftrightarrow>
     life_retries st' \<le> life_retries st + allowed \<and>
     (case e of
        None \<Rightarrow> \<exists>v s t t'. life_values st' = life_values st @ [v] \<and> coord_run c index s t = (Inr v, t')
      | Some err \<Rightarrow> life_values st' = life_values st \<and> (\<exists>code k. err = LifecycleError code k))"

lemma experiment_effect:
  "retries \<le> coord_max_retries c \<Longrightarrow>
   run_experiment c attempt snap index retries st = (e, st') \<Longrightarrow>
     extends_by snap (Suc (coord_max_retries c - retries)) st st' \<and>
     experiment_outcome index (coord_max_retries c - retries) st e st'"
proof (induction "coord_max_retries c - retries" arbitrary: retries st rule: less_induct)
  case less
  let ?t1 = "life_calls st @ [CreateFromSnapshot (restore_request snap)]"
  let ?st1 = "st\<lparr>life_calls := ?t1\<rparr>"
  have first: "extends_by snap 1 st ?st1" by (rule extends_restore) simp
  note unfolded = run_experiment.simps [of c attempt snap index retries st]
  show ?case
  proof (cases "coord_aborted c (life_calls st)")
    case True
    with less.prems show ?thesis
      by (auto simp: unfolded aborted_error_def experiment_outcome_def intro: extends_refl)
  next
    case running: False
    show ?thesis
    proof (cases "session_reply wld ?t1")
      case (Inl err)
      let ?st2 = "?st1\<lparr>life_retries := life_retries ?st1 + 1\<rparr>"
      show ?thesis
      proof (cases "coord_aborted c ?t1 \<or> \<not> retries < coord_max_retries c")
        case True
        then have "st' = ?st1" "\<exists>err. e = Some err \<and> (\<exists>code k. err = LifecycleError code k)"
          using less.prems(2) running Inl
          by (auto simp: unfolded Let_def aborted_error_def split: if_splits)
        then show ?thesis
          using extends_trans [OF first extends_refl, of ?st1 0]
          by (auto simp: experiment_outcome_def intro: extends_trans [OF first extends_refl])
      next
        case False
        then have "run_experiment c attempt snap index (retries + 1) ?st2 = (e, st')"
          using less.prems(2) running Inl by (simp add: unfolded Let_def)
        moreover have "coord_max_retries c - (retries + 1) < coord_max_retries c - retries"
          and "retries + 1 \<le> coord_max_retries c" using False by arith+
        ultimately
        have "extends_by snap (Suc (coord_max_retries c - (retries + 1))) ?st2 st' \<and>
          experiment_outcome index (coord_max_retries c - (retries + 1)) ?st2 e st'"
          using less.hyps by blast
        moreover have "extends_by snap 1 st ?st2" by (rule extends_restore) simp
        ultimately show ?thesis
          using False by (auto simp: experiment_outcome_def split: option.splits
            intro: extends_trans)
      qed
    next
      case (Inr s)
      obtain r t2 where run: "coord_run c index s ?t1 = (r, t2)" by fastforce
      from emitsE [OF run_quiet run] obtain ds where ds: "t2 = ?t1 @ ds"
        "list_all (\<lambda>x. \<not> resource_call x) ds" .
      obtain v st2 where judged: "judge_run c retries r (?st1\<lparr>life_calls := t2\<rparr>) = (v, st2)"
        by fastforce
      let ?st3 = "cleanup_session c attempt s st2"
      have "extends_by snap 0 ?st1 st2"
        using judge_run_keeps [OF judged] ds by (intro extends_quiet [of _ _ ds]) simp_all
      then have "extends_by snap 0 ?st1 ?st3"
        by (rule extends_trans [OF _ extends_cleanup]) simp
      then have done3: "extends_by snap 1 st ?st3" by (rule extends_trans [OF first]) simp
      note result = judge_run_result [OF judged]
      show ?thesis
      proof (cases v)
        case RunDone
        then have "e = None" "st' = ?st3"
          using less.prems(2) running Inr run judged by (simp_all add: unfolded Let_def)
        then show ?thesis
          using result RunDone run extends_trans [OF done3 extends_refl, of ?st3 0]
          by (auto simp: experiment_outcome_def)
      next
        case (RunThrow err)
        then have "e = Some err" "st' = ?st3"
          using less.prems(2) running Inr run judged by (simp_all add: unfolded Let_def)
        then show ?thesis
          using result RunThrow extends_trans [OF done3 extends_refl, of ?st3 0]
          by (auto simp: experiment_outcome_def)
      next
        case RunRetry
        then have less_max: "retries < coord_max_retries c" using judge_run_retry judged by blast
        then have "run_experiment c attempt snap index (retries + 1) ?st3 = (e, st')"
          using less.prems(2) running Inr run judged RunRetry by (simp add: unfolded Let_def)
        moreover have "coord_max_retries c - (retries + 1) < coord_max_retries c - retries"
          and "retries + 1 \<le> coord_max_retries c" using less_max by arith+
        ultimately
        have "extends_by snap (Suc (coord_max_retries c - (retries + 1))) ?st3 st' \<and>
          experiment_outcome index (coord_max_retries c - (retries + 1)) ?st3 e st'"
          using less.hyps by blast
        then show ?thesis
          using less_max result RunRetry
          by (auto simp: experiment_outcome_def split: option.splits intro: extends_trans [OF done3])
      qed
    qed
  qed
qed

definition results_of :: "nat list \<Rightarrow> 'r list \<Rightarrow> bool" where
  "results_of is vs \<longleftrightarrow> list_all2 (\<lambda>i v. \<exists>s t t'. coord_run c i s t = (Inr v, t')) is vs"

lemma experiments_effect:
  "run_experiments c attempt snap is st = (e, st') \<Longrightarrow>
     extends_by snap (length is * Suc (coord_max_retries c)) st st' \<and>
     life_retries st' \<le> life_retries st + length is * coord_max_retries c \<and>
     (case e of
        None \<Rightarrow> \<exists>vs. life_values st' = life_values st @ vs \<and> results_of is vs
      | Some err \<Rightarrow> \<exists>code k. err = LifecycleError code k)"
proof (induction "is" arbitrary: st)
  case Nil
  then show ?case by (auto simp: results_of_def intro: extends_refl)
next
  case (Cons i "is")
  obtain e1 st1 where one: "run_experiment c attempt snap i 0 st = (e1, st1)" by fastforce
  have eff: "extends_by snap (Suc (coord_max_retries c)) st st1"
    "experiment_outcome i (coord_max_retries c) st e1 st1"
    using experiment_effect [OF _ one] by simp_all
  show ?case
  proof (cases e1)
    case (Some err)
    then show ?thesis
      using Cons.prems one eff
      by (auto simp: experiment_outcome_def intro: extends_trans [OF _ extends_refl])
  next
    case None
    then have rest: "run_experiments c attempt snap is st1 = (e, st')"
      using Cons.prems one by simp
    from eff(2) None obtain v s t t' where v: "life_values st1 = life_values st @ [v]"
      "coord_run c i s t = (Inr v, t')" "life_retries st1 \<le> life_retries st + coord_max_retries c"
      by (auto simp: experiment_outcome_def)
    from Cons.IH [OF rest] have
      "extends_by snap (length is * Suc (coord_max_retries c)) st1 st'"
      "life_retries st' \<le> life_retries st1 + length is * coord_max_retries c"
      and outcome: "case e of None \<Rightarrow> \<exists>vs. life_values st' = life_values st1 @ vs \<and> results_of is vs
        | Some err \<Rightarrow> \<exists>code k. err = LifecycleError code k" by auto
    then have "extends_by snap (length (i # is) * Suc (coord_max_retries c)) st st'"
      and "life_retries st' \<le> life_retries st + length (i # is) * coord_max_retries c"
      using extends_trans [OF eff(1)] v(3) by auto
    moreover have "\<exists>vs. life_values st' = life_values st @ vs \<and> results_of (i # is) vs"
      if e0: "e = None"
    proof -
      obtain vs where "life_values st' = life_values st1 @ vs" "results_of is vs"
        using outcome e0 by auto
      then show ?thesis
        using v(1,2) by (intro exI [of _ "v # vs"]) (auto simp: results_of_def)
    qed
    ultimately show ?thesis using outcome by (cases e) auto
  qed
qed

lemma coordinate_runs_effect:
  assumes "coordinate_runs c attempt prepared n st = (e, snapshot, st')"
    and "released_except S t0 {prepared} st"
  shows "released_except S t0 {prepared} st'"
    and "life_retries st' \<le> life_retries st + n * coord_max_retries c"
    and "case e of
        None \<Rightarrow> \<exists>vs. life_values st' = life_values st @ vs \<and> results_of [0..<n] vs
      | Some err \<Rightarrow> \<exists>code k. err = LifecycleError code k"
    and "case snapshot of
        None \<Rightarrow> \<exists>cs. life_calls st' = life_calls st @ cs \<and>
          taken_snapshots wld (life_calls st) cs = [] \<and> (\<forall>x \<in> set cs. \<exists>y. x = TakeSnapshot prepared y)
      | Some snap \<Rightarrow> \<exists>cs. life_calls st' = life_calls st @ TakeSnapshot prepared (coord_expiration_ms c) # cs \<and>
          snapshot_reply wld (life_calls st @ [TakeSnapshot prepared (coord_expiration_ms c)]) = Inr snap \<and>
          list_all (experiment_call snap) cs \<and>
          length (filter (restore_call snap) cs) \<le> n * Suc (coord_max_retries c)"
proof -
  let ?take = "TakeSnapshot prepared (coord_expiration_ms c)"
  let ?st1 = "st\<lparr>life_calls := life_calls st @ [?take]\<rparr>"
  from assms(2) obtain pre where pre: "life_calls st = t0 @ pre" by (auto simp: released_except_def)
  have inv1: "released_except S t0 {prepared} ?st1"
  proof -
    from assms(2) obtain cs where cs: "life_calls st = t0 @ cs"
      "life_stopped st = S \<union> {s. StopSession s \<in> set cs}" "\<forall>s. count_list cs (StopSession s) \<le> 1"
      "\<forall>s \<in> S. StopSession s \<notin> set cs"
      "set (created_sessions wld t0 cs) \<subseteq> life_stopped st \<union> {prepared}"
      "life_cleanup st = Quarantined \<longleftrightarrow> rejected_releases wld t0 cs \<noteq> []"
      unfolding released_except_def by blast
    then show ?thesis
      unfolding released_except_def
      by (intro exI [of _ "cs @ [?take]"])
         (simp add: observe_append created_by_def rejected_release_def)
  qed
  consider (aborted) "coord_aborted c (life_calls st)"
    | (failed) err where "\<not> coord_aborted c (life_calls st)"
      "snapshot_reply wld (life_calls st @ [?take]) = Inl err"
    | (taken) snap where "\<not> coord_aborted c (life_calls st)"
      "snapshot_reply wld (life_calls st @ [?take]) = Inr snap"
    by (cases "coord_aborted c (life_calls st)"; cases "snapshot_reply wld (life_calls st @ [?take])") auto
  note cases_ = this
  define goal where "goal \<longleftrightarrow> released_except S t0 {prepared} st' \<and>
    life_retries st' \<le> life_retries st + n * coord_max_retries c \<and>
    (case e of
        None \<Rightarrow> \<exists>vs. life_values st' = life_values st @ vs \<and> results_of [0..<n] vs
      | Some err \<Rightarrow> \<exists>code k. err = LifecycleError code k) \<and>
    (case snapshot of
        None \<Rightarrow> \<exists>cs. life_calls st' = life_calls st @ cs \<and>
          taken_snapshots wld (life_calls st) cs = [] \<and> (\<forall>x \<in> set cs. \<exists>y. x = TakeSnapshot prepared y)
      | Some snap \<Rightarrow> \<exists>cs. life_calls st' = life_calls st @ ?take # cs \<and>
          snapshot_reply wld (life_calls st @ [?take]) = Inr snap \<and>
          list_all (experiment_call snap) cs \<and>
          length (filter (restore_call snap) cs) \<le> n * Suc (coord_max_retries c))"
  have goal
    using cases_
  proof cases
    case aborted
    then show ?thesis
      using assms by (auto simp: goal_def coordinate_runs_def aborted_error_def)
  next
    case failed
    then have eq: "st' = ?st1" "snapshot = None" "\<exists>err. e = Some err \<and> (\<exists>code k. err = LifecycleError code k)"
      using assms(1) by (auto simp: coordinate_runs_def aborted_error_def Let_def)
    then show ?thesis
      using inv1 failed
      by (auto simp: goal_def taken_by_def intro!: exI [of _ "[?take]"])
  next
    case taken
    let ?st2 = "cleanup_session c attempt prepared ?st1"
    have exps: "run_experiments c attempt snap [0..<n] ?st2 = (e, st')" and snap: "snapshot = Some snap"
      using assms(1) taken by (auto simp: coordinate_runs_def Let_def split: prod.splits)
    have inv2: "released_except S t0 {} ?st2" using inv1 by (rule released_cleanup)
    note eff = experiments_effect [OF exps]
    have "extends_by snap (n * Suc (coord_max_retries c)) ?st2 st'" using eff by simp
    then have "extends_by snap (n * Suc (coord_max_retries c)) ?st1 st'"
      by (rule extends_trans [OF extends_cleanup]) simp
    then obtain cs where cs: "life_calls st' = (life_calls st @ [?take]) @ cs"
      "list_all (experiment_call snap) cs"
      "length (filter (restore_call snap) cs) \<le> n * Suc (coord_max_retries c)"
      unfolding extends_by_def by auto
    have "released_except S t0 {prepared} st'"
      using released_mono [OF released_experiments [OF inv2 exps], of "{prepared}"] by simp
    moreover have "life_retries st' \<le> life_retries st + n * coord_max_retries c" using eff by simp
    moreover have "case e of
        None \<Rightarrow> \<exists>vs. life_values st' = life_values st @ vs \<and> results_of [0..<n] vs
      | Some err \<Rightarrow> \<exists>code k. err = LifecycleError code k" using eff by (cases e) simp_all
    ultimately show ?thesis
      unfolding goal_def snap option.case using cs taken(2)
      by (intro conjI exI [of _ cs]) simp_all
  qed
  note parts = this [unfolded goal_def]
  show "released_except S t0 {prepared} st'" by (rule parts [THEN conjunct1])
  show "life_retries st' \<le> life_retries st + n * coord_max_retries c"
    by (rule parts [THEN conjunct2, THEN conjunct1])
  show "case e of
        None \<Rightarrow> \<exists>vs. life_values st' = life_values st @ vs \<and> results_of [0..<n] vs
      | Some err \<Rightarrow> \<exists>code k. err = LifecycleError code k"
    by (rule parts [THEN conjunct2, THEN conjunct2, THEN conjunct1])
  show "case snapshot of
        None \<Rightarrow> \<exists>cs. life_calls st' = life_calls st @ cs \<and>
          taken_snapshots wld (life_calls st) cs = [] \<and> (\<forall>x \<in> set cs. \<exists>y. x = TakeSnapshot prepared y)
      | Some snap \<Rightarrow> \<exists>cs. life_calls st' = life_calls st @ TakeSnapshot prepared (coord_expiration_ms c) # cs \<and>
          snapshot_reply wld (life_calls st @ [TakeSnapshot prepared (coord_expiration_ms c)]) = Inr snap \<and>
          list_all (experiment_call snap) cs \<and>
          length (filter (restore_call snap) cs) \<le> n * Suc (coord_max_retries c)"
    by (rule parts [THEN conjunct2, THEN conjunct2, THEN conjunct2])
qed

lemma delete_snapshot_effect:
  assumes "released_except S t0 {} st"
  shows "released_except S t0 {} (delete_snapshot c attempt snapshot st)"
    and "case snapshot of
        None \<Rightarrow> delete_snapshot c attempt snapshot st = st
      | Some snap \<Rightarrow> \<exists>ds. life_calls (delete_snapshot c attempt snapshot st) =
          life_calls st @ DeleteSnapshot snap # ds \<and> list_all (\<lambda>x. \<not> resource_call x) ds"
    and "life_values (delete_snapshot c attempt snapshot st) = life_values st"
    and "life_retries (delete_snapshot c attempt snapshot st) = life_retries st"
proof -
  show "life_values (delete_snapshot c attempt snapshot st) = life_values st"
    and "life_retries (delete_snapshot c attempt snapshot st) = life_retries st"
    by (simp_all add: delete_snapshot_def Let_def split: option.split sum.split)
  have "released_except S t0 {} (delete_snapshot c attempt snapshot st) \<and>
    (case snapshot of
        None \<Rightarrow> delete_snapshot c attempt snapshot st = st
      | Some snap \<Rightarrow> \<exists>ds. life_calls (delete_snapshot c attempt snapshot st) =
          life_calls st @ DeleteSnapshot snap # ds \<and> list_all (\<lambda>x. \<not> resource_call x) ds)"
  proof (cases snapshot)
    case None
    then show ?thesis using assms by (simp add: delete_snapshot_def)
  next
    case (Some snap)
    let ?del = "DeleteSnapshot snap"
    let ?st = "st\<lparr>life_calls := life_calls st @ [?del]\<rparr>"
    from assms obtain cs where cs: "life_calls st = t0 @ cs"
      "life_stopped st = S \<union> {s. StopSession s \<in> set cs}" "\<forall>s. count_list cs (StopSession s) \<le> 1"
      "\<forall>s \<in> S. StopSession s \<notin> set cs"
      "set (created_sessions wld t0 cs) \<subseteq> life_stopped st"
      "life_cleanup st = Quarantined \<longleftrightarrow> rejected_releases wld t0 cs \<noteq> []"
      unfolding released_except_def by auto
    have st: "life_calls ?st = t0 @ (cs @ [?del])"
      "life_stopped ?st = S \<union> {s. StopSession s \<in> set (cs @ [?del])}"
      "\<forall>s. count_list (cs @ [?del]) (StopSession s) \<le> 1"
      "\<forall>s \<in> S. StopSession s \<notin> set (cs @ [?del])"
      "set (created_sessions wld t0 (cs @ [?del])) \<subseteq> life_stopped ?st \<union> {}"
      using cs by (simp_all add: observe_append created_by_def)
    show ?thesis
    proof (cases "unit_reply wld (life_calls ?st)")
      case (Inr u)
      then have "rejected_releases wld t0 (cs @ [?del]) = rejected_releases wld t0 cs"
        using cs(1) by (simp add: observe_append rejected_release_def)
      then have "released_except S t0 {} ?st"
        unfolding released_except_def using st cs(6)
        by (intro exI [of _ "cs @ [?del]"]) simp
      with Inr Some show ?thesis by (simp add: delete_snapshot_def)
    next
      case (Inl e)
      let ?q = "quarantine_entry attempt snap SnapshotResource"
      have rej: "rejected_releases wld t0 (cs @ [?del]) \<noteq> []"
        using Inl cs(1) by (simp add: observe_append rejected_release_def)
      have eq: "delete_snapshot c attempt snapshot st = quarantine_resource c ?q ?st"
        using Inl Some by (simp add: delete_snapshot_def Let_def)
      obtain ds where "snd (coord_quarantine c ?q (life_calls ?st)) = life_calls ?st @ ds"
        "list_all (\<lambda>x. \<not> resource_call x) ds"
        using sink_quiet [of ?q] unfolding emits_def by blast
      with Some show ?thesis
        unfolding eq using released_quarantined [OF st rej, of ?q] by (simp add: quarantine_resource_def)
    qed
  qed
  then show "released_except S t0 {} (delete_snapshot c attempt snapshot st)"
    and "case snapshot of
        None \<Rightarrow> delete_snapshot c attempt snapshot st = st
      | Some snap \<Rightarrow> \<exists>ds. life_calls (delete_snapshot c attempt snapshot st) =
          life_calls st @ DeleteSnapshot snap # ds \<and> list_all (\<lambda>x. \<not> resource_call x) ds"
    by simp_all
qed

lemma experiment_calls_no_snapshot:
  assumes "list_all (experiment_call snap) cs"
  shows "taken_snapshots w pre cs = []" and "DeleteSnapshot x \<notin> set cs"
proof -
  have "taken_by w (t @ [y]) = [] \<and> y \<noteq> DeleteSnapshot x" if "experiment_call snap y" for t y
    using that by (cases y) (auto simp: experiment_call_def restore_call_def taken_by_def)
  with assms show "taken_snapshots w pre cs = []" and "DeleteSnapshot x \<notin> set cs"
    by (auto simp: list_all_iff intro!: observe_none)
qed

lemma experiment_calls_restores:
  "list_all (experiment_call snap) cs \<Longrightarrow> filter is_restore cs = filter (restore_call snap) cs"
proof (induction cs)
  case (Cons x cs)
  have "is_restore x \<longleftrightarrow> restore_call snap x" if "experiment_call snap x"
    using that by (cases x) (auto simp: experiment_call_def restore_call_def)
  with Cons show ?case by simp
qed simp

lemma quiet_restores: "list_all (\<lambda>x. \<not> resource_call x) cs \<Longrightarrow> filter is_restore cs = []"
  using experiment_calls_restores [OF quiet_experiment_calls] quiet_no_restore by metis

definition snapshots_deleted :: "trace \<Rightarrow> trace \<Rightarrow> bool" where
  "snapshots_deleted t cs \<longleftrightarrow>
     (\<forall>snap. count_list cs (DeleteSnapshot snap) = count_list (taken_snapshots wld t cs) snap)"

lemma cleanup_calls:
  "\<exists>ds. life_calls (cleanup_session c attempt s st) = life_calls st @ ds \<and>
     list_all (experiment_call snap) ds \<and> filter (restore_call snap) ds = []"
  using extends_cleanup [of snap st attempt s] by (auto simp: extends_by_def)

lemma attempt_calls:
  assumes "coordinate_runs c attempt prepared n st = (e, snapshot, st1)"
    and "released_except S t {prepared} st" and "life_calls st = t"
    and "st2 = delete_snapshot c attempt snapshot (cleanup_session c attempt prepared st1)"
  shows "\<exists>cs. life_calls st2 = t @ cs \<and> snapshots_deleted t cs \<and>
    length (filter is_restore cs) \<le> n * Suc (coord_max_retries c)"
proof -
  note eff = coordinate_runs_effect [OF assms(1,2)]
  have clean: "released_except S t {} (cleanup_session c attempt prepared st1)"
    using eff(1) by (rule released_cleanup)
  note del = delete_snapshot_effect(2) [OF clean, of attempt snapshot]
  show ?thesis
  proof (cases snapshot)
    case None
    then obtain cs where cs: "life_calls st1 = t @ cs" "taken_snapshots wld t cs = []"
      "\<forall>x \<in> set cs. \<exists>y. x = TakeSnapshot prepared y" using eff(4) assms(3) by auto
    obtain ds where ds: "life_calls (cleanup_session c attempt prepared st1) = life_calls st1 @ ds"
      "list_all (experiment_call []) ds" "filter (restore_call []) ds = []"
      using cleanup_calls [where snap = "[]"] by blast
    have "filter is_restore cs = []" and "DeleteSnapshot x \<notin> set cs" for x
      using cs(3) by (auto simp: filter_empty_conv)
    then show ?thesis
      using cs(1,2) ds del None assms(4) experiment_calls_no_snapshot [OF ds(2)]
        experiment_calls_restores [OF ds(2)]
      by (intro exI [of _ "cs @ ds"])
         (simp add: snapshots_deleted_def observe_append count_list_0_iff)
  next
    case (Some snap)
    let ?take = "TakeSnapshot prepared (coord_expiration_ms c)"
    from eff(4) Some assms(3) obtain cs where cs: "life_calls st1 = t @ ?take # cs"
      "snapshot_reply wld (t @ [?take]) = Inr snap" "list_all (experiment_call snap) cs"
      "length (filter (restore_call snap) cs) \<le> n * Suc (coord_max_retries c)" by auto
    obtain ds where ds: "life_calls (cleanup_session c attempt prepared st1) = life_calls st1 @ ds"
      "list_all (experiment_call snap) ds" "filter (restore_call snap) ds = []"
      using cleanup_calls [where snap = snap] by blast
    from del Some obtain xs where xs: "life_calls st2 =
        life_calls (cleanup_session c attempt prepared st1) @ DeleteSnapshot snap # xs"
      "list_all (\<lambda>x. \<not> resource_call x) xs" using assms(4) by auto
    let ?all = "[?take] @ cs @ ds @ [DeleteSnapshot snap] @ xs"
    have calls: "life_calls st2 = t @ ?all" using cs(1) ds(1) xs(1) by simp
    have "taken_snapshots wld t ?all = [snap]"
      unfolding observe_append
      using experiment_calls_no_snapshot(1) [OF cs(3)] experiment_calls_no_snapshot(1) [OF ds(2)]
        quiet_observations(3) [OF xs(2)] cs(2)
      by (simp add: taken_by_def)
    moreover have "count_list ?all (DeleteSnapshot x) = count_list [snap] x" for x
      using experiment_calls_no_snapshot(2) [OF cs(3), of x] experiment_calls_no_snapshot(2) [OF ds(2), of x]
        quiet_observations(5) [OF xs(2), of x] by (simp add: count_list_0_iff)
    moreover have "filter is_restore ?all = filter (restore_call snap) cs"
      using ds(3) quiet_restores [OF xs(2)] experiment_calls_restores [OF ds(2)]
        experiment_calls_restores [OF cs(3)] by simp
    ultimately show ?thesis
      using calls cs(4) unfolding snapshots_deleted_def
      by (intro exI [of _ ?all] conjI) simp_all
  qed
qed

end

section \<open>The guarantees of an attempt\<close>

definition attempt_input_ok :: "string \<Rightarrow> int \<Rightarrow> bool" where
  "attempt_input_ok attempt run_count \<longleftrightarrow>
     identifier_ok ''._:-'' attempt \<and> 1 \<le> run_count \<and> run_count \<le> 6"

fun reported_cleanup :: "thrown + 'r lifecycle_result \<Rightarrow> cleanup_status option" where
  "reported_cleanup (Inr r) = Some (lifecycle_cleanup r)"
| "reported_cleanup (Inl (LifecycleError code k)) = Some k"
| "reported_cleanup (Inl _) = None"

lemma attempt_invalid:
  "\<not> attempt_input_ok attempt n \<Longrightarrow> execute_attempt c S attempt prepared n t = (Inl SchemaError, t)"
  unfolding attempt_input_ok_def execute_attempt_def by simp

context experiment_runner
begin

lemma attempt_state:
  assumes "attempt_input_ok attempt n"
  obtains e snapshot st1 st2 where
    "coordinate_runs c attempt prepared (nat n) (life_start S t) = (e, snapshot, st1)"
    and "st2 = delete_snapshot c attempt snapshot (cleanup_session c attempt prepared st1)"
    and "execute_attempt c S attempt prepared n t =
      ((case e of
          Some err \<Rightarrow> Inl (LifecycleError (as_lifecycle_code err) (life_cleanup st2))
        | None \<Rightarrow> Inr \<lparr>lifecycle_cleanup = life_cleanup st2, lifecycle_retries = life_retries st2,
            lifecycle_values = life_values st2\<rparr>), life_calls st2)"
proof -
  obtain e snapshot st1 where
    "coordinate_runs c attempt prepared (nat n) (life_start S t) = (e, snapshot, st1)"
    by (cases "coordinate_runs c attempt prepared (nat n) (life_start S t)")
  then show ?thesis
    using assms by (intro that) (auto simp: execute_attempt_def attempt_input_ok_def Let_def)
qed

lemma cleanup_stopped_kept:
  "x \<in> life_stopped st \<Longrightarrow> x \<in> life_stopped (cleanup_session c attempt s st)"
  by (auto simp: cleanup_session_def Let_def split: sum.split)

lemma attempt_released:
  assumes "attempt_input_ok attempt n" and "execute_attempt c S attempt prepared n t = (r, t')"
    and "prepared \<notin> S"
  shows "\<exists>cs. t' = t @ cs \<and> snapshots_deleted t cs \<and>
    (\<forall>s \<in> insert prepared (set (created_sessions wld t cs) - S). count_list cs (StopSession s) = 1) \<and>
    length (filter is_restore cs) \<le> nat n * Suc (coord_max_retries c) \<and>
    (reported_cleanup r = Some Quarantined \<longleftrightarrow> rejected_releases wld t cs \<noteq> [])"
proof -
  obtain e snapshot st1 st2 where
    run: "coordinate_runs c attempt prepared (nat n) (life_start S t) = (e, snapshot, st1)"
    and st2: "st2 = delete_snapshot c attempt snapshot (cleanup_session c attempt prepared st1)"
    and out: "execute_attempt c S attempt prepared n t =
      ((case e of
          Some err \<Rightarrow> Inl (LifecycleError (as_lifecycle_code err) (life_cleanup st2))
        | None \<Rightarrow> Inr \<lparr>lifecycle_cleanup = life_cleanup st2, lifecycle_retries = life_retries st2,
            lifecycle_values = life_values st2\<rparr>), life_calls st2)"
    using attempt_state [OF assms(1)] by metis
  have start: "released_except S t {prepared} (life_start S t)"
    using released_mono [OF released_start] by blast
  note eff = coordinate_runs_effect [OF run start]
  have "released_except S t {} (cleanup_session c attempt prepared st1)"
    using eff(1) by (rule released_cleanup)
  then have final: "released_except S t {} st2" unfolding st2 by (rule delete_snapshot_effect)
  have stopped: "prepared \<in> life_stopped st2"
  proof -
    have "prepared \<in> life_stopped (cleanup_session c attempt prepared st1)"
      using eff(1) by (intro released_cleanup(2)) (simp add: insert_absorb)
    then show ?thesis
      unfolding st2 by (simp add: delete_snapshot_def Let_def split: option.split sum.split)
  qed
  have "life_calls (life_start S t) = t" by (simp add: life_start_def)
  from attempt_calls [OF run start this st2] obtain cs where
    cs: "life_calls st2 = t @ cs" "snapshots_deleted t cs"
    "length (filter is_restore cs) \<le> nat n * Suc (coord_max_retries c)" by blast
  from final cs(1) have facts: "life_stopped st2 = S \<union> {s. StopSession s \<in> set cs}"
    "\<And>s. count_list cs (StopSession s) \<le> 1" "set (created_sessions wld t cs) \<subseteq> life_stopped st2"
    "life_cleanup st2 = Quarantined \<longleftrightarrow> rejected_releases wld t cs \<noteq> []"
    unfolding released_except_def by auto
  have one: "count_list cs (StopSession s) = 1" if "s \<in> life_stopped st2" "s \<notin> S" for s
  proof -
    have "count_list cs (StopSession s) \<noteq> 0" using that facts(1) by (auto simp: count_list_0_iff)
    with facts(2) [of s] show ?thesis by simp
  qed
  have "reported_cleanup r = Some (life_cleanup st2)" and "t' = life_calls st2"
    using assms(2) out by (auto split: option.splits)
  then show ?thesis
    using cs facts(3,4) one stopped assms(3) by (intro exI [of _ cs]) auto
qed

lemma attempt_result:
  assumes "execute_attempt c S attempt prepared n t = (r, t')"
  shows "case r of
      Inr res \<Rightarrow> length (lifecycle_values res) = nat n \<and> results_of [0..<nat n] (lifecycle_values res) \<and>
        lifecycle_retries res \<le> nat n * coord_max_retries c
    | Inl e \<Rightarrow> (if attempt_input_ok attempt n then \<exists>code k. e = LifecycleError code k
        else e = SchemaError \<and> t' = t)"
proof (cases "attempt_input_ok attempt n")
  case False
  then show ?thesis using assms attempt_invalid [of attempt n c S prepared t] by auto
next
  case True
  obtain e snapshot st1 st2 where
    run: "coordinate_runs c attempt prepared (nat n) (life_start S t) = (e, snapshot, st1)"
    and st2: "st2 = delete_snapshot c attempt snapshot (cleanup_session c attempt prepared st1)"
    and out: "execute_attempt c S attempt prepared n t =
      ((case e of
          Some err \<Rightarrow> Inl (LifecycleError (as_lifecycle_code err) (life_cleanup st2))
        | None \<Rightarrow> Inr \<lparr>lifecycle_cleanup = life_cleanup st2, lifecycle_retries = life_retries st2,
            lifecycle_values = life_values st2\<rparr>), life_calls st2)"
    using attempt_state [OF True] by metis
  have start: "released_except S t {prepared} (life_start S t)"
    using released_mono [OF released_start] by blast
  note eff = coordinate_runs_effect [OF run start]
  have "released_except S t {} (cleanup_session c attempt prepared st1)"
    using eff(1) by (rule released_cleanup)
  note del = delete_snapshot_effect(3,4) [OF this]
  have kept: "life_values st2 = life_values st1" "life_retries st2 = life_retries st1"
    unfolding st2 using del by simp_all
  have zero: "life_values (life_start S t :: 'r life_state) = []"
    "life_retries (life_start S t :: 'r life_state) = 0"
    by (simp_all add: life_start_def)
  show ?thesis
  proof (cases e)
    case None
    have res: "results_of [0..<nat n] (life_values st2)"
    proof -
      obtain vs where "life_values st1 = life_values (life_start S t) @ vs" "results_of [0..<nat n] vs"
        using eff(3) None by auto
      then show ?thesis using zero kept by simp
    qed
    have len: "length (life_values st2) = nat n"
      using list_all2_lengthD [OF res [unfolded results_of_def]] by simp
    have "r = Inr \<lparr>lifecycle_cleanup = life_cleanup st2, lifecycle_retries = life_retries st2,
        lifecycle_values = life_values st2\<rparr>"
      using assms out None by simp
    moreover have "life_retries st2 \<le> nat n * coord_max_retries c" using eff(2) zero kept by simp
    ultimately show ?thesis using len res by simp
  next
    case (Some err)
    with assms out True show ?thesis by auto
  qed
qed

end

text \<open>
  C32. However an attempt ends - with results, by an error of an experiment, a rejected
  provider call, cancellation or timeout - it stops the prepared session and every
  session it created exactly once, deletes each snapshot it took exactly once, and
  creates at most \<open>runCount \<cdot> (retries + 1)\<close> sessions. It reports "quarantined"
  exactly when the provider rejected one of those releases.
\<close>

theorem attempt_releases_every_resource:
  assumes "experiment_runner c" and "attempt_input_ok attempt n" and "prepared \<notin> stopped"
    and "execute_attempt c stopped attempt prepared n t = (r, t')"
  shows "\<exists>cs. t' = t @ cs \<and>
    (\<forall>snap. count_list cs (DeleteSnapshot snap) =
       count_list (taken_snapshots (coord_world c) t cs) snap) \<and>
    (\<forall>s \<in> insert prepared (set (created_sessions (coord_world c) t cs) - stopped).
       count_list cs (StopSession s) = 1) \<and>
    length (filter is_restore cs) \<le> nat n * Suc (coord_max_retries c) \<and>
    (reported_cleanup r = Some Quarantined \<longleftrightarrow> rejected_releases (coord_world c) t cs \<noteq> [])"
  by (rule experiment_runner.attempt_released
      [OF assms(1,2,4,3), unfolded experiment_runner.snapshots_deleted_def [OF assms(1)]])

text \<open>
  A finished attempt has one value per experiment, in the order of the experiments,
  and each value was returned by a run of that experiment; it retried at most
  \<open>runCount \<cdot> retries\<close> times. Otherwise it throws an AttemptLifecycleError - or, on
  an invalid input, the schema error, without any call.
\<close>

theorem attempt_returns_every_experiment:
  assumes "experiment_runner c" and "execute_attempt c stopped attempt prepared n t = (r, t')"
  shows "case r of
      Inr res \<Rightarrow> list_all2 (\<lambda>i v. \<exists>s u u'. coord_run c i s u = (Inr v, u'))
          [0..<nat n] (lifecycle_values res) \<and>
        lifecycle_retries res \<le> nat n * coord_max_retries c
    | Inl e \<Rightarrow> (if attempt_input_ok attempt n then \<exists>code k. e = LifecycleError code k
        else e = SchemaError \<and> t' = t)"
proof (cases r)
  case (Inl e)
  then show ?thesis
    using experiment_runner.attempt_result [OF assms] by (simp only: sum.case)
next
  case (Inr res)
  then show ?thesis
    using experiment_runner.attempt_result [OF assms]
    unfolding experiment_runner.results_of_def [OF assms(1)] by (simp only: sum.case)
qed

end
