(* ===== verification/Redaction.thy ===== *)
theory Redaction
  imports Contracts
begin

text \<open>
  Removal of secrets from text: \<open>redactString\<close> and \<open>redactSecrets\<close> of
  src/src/domain/bundle.ts and \<open>redact\<close> of src/src/execution/bounded-execution.ts.
  A global \<open>String.replace\<close> scans from the left; \<open>replace_all m\<close> is that scan for
  a matcher \<open>m\<close> that gets the character before the position and the rest of the
  text, and returns the length of the match with its replacement.
\<close>

section \<open>Global replacement\<close>

function replace_all ::
  "(char option \<Rightarrow> string \<Rightarrow> (nat \<times> string) option) \<Rightarrow> char option \<Rightarrow> string \<Rightarrow> string" where
  "replace_all m prev [] = []"
| "replace_all m prev (c # cs) =
     (case m prev (c # cs) of
        None \<Rightarrow> c # replace_all m (Some c) cs
      | Some (n, r) \<Rightarrow>
          (if n = 0 then c # replace_all m (Some c) cs
           else r @ replace_all m (Some (last (take n (c # cs)))) (drop n (c # cs))))"
  by pat_completeness auto

termination
  by (relation "measure (\<lambda>(m, prev, s). length s)") auto

section \<open>Registered secrets\<close>

definition redaction_marker :: string where
  "redaction_marker = ''[REDACTED]''"

text \<open>
  The distinct nonempty secrets, longest first. The alternation of their escaped
  texts matches the first of them that is a prefix of the rest.
\<close>

definition longer_first :: "string \<Rightarrow> string \<Rightarrow> bool" where
  "longer_first l r \<longleftrightarrow> length r \<le> length l"

definition unique_secrets :: "string list \<Rightarrow> string list" where
  "unique_secrets secrets =
     sort_by longer_first (rev (remdups (rev (filter (\<lambda>s. 0 < length s) secrets))))"

definition match_secret :: "string list \<Rightarrow> char option \<Rightarrow> string \<Rightarrow> (nat \<times> string) option" where
  "match_secret known prev s =
     map_option (\<lambda>p. (length p, redaction_marker)) (find (\<lambda>p. starts_with p s) known)"

fun split_text :: "string \<Rightarrow> nat \<Rightarrow> string \<Rightarrow> string list" where
  "split_text sep 0 s = [s]"
| "split_text sep (Suc n) [] = [[]]"
| "split_text sep (Suc n) (c # cs) =
     (if starts_with sep (c # cs) then [] # split_text sep n (drop (length sep) (c # cs))
      else case split_text sep n cs of [] \<Rightarrow> [[c]] | w # ws \<Rightarrow> (c # w) # ws)"

text \<open>\<open>value.split(marker)\<close>; the length of the text is enough fuel, as each step consumes.\<close>

definition split_marker :: "string \<Rightarrow> string list" where
  "split_marker s = split_text redaction_marker (length s) s"

definition redact_string :: "string \<Rightarrow> string list \<Rightarrow> string" where
  "redact_string val secrets =
     (let unique = unique_secrets secrets in
      if length unique = 0 then val
      else join redaction_marker
        (map (replace_all (match_secret unique) None) (split_marker val)))"

fun redact_secrets :: "string list \<Rightarrow> json \<Rightarrow> json"
  and redact_items :: "string list \<Rightarrow> json list \<Rightarrow> json list"
  and redact_members :: "string list \<Rightarrow> (string \<times> json) list \<Rightarrow> (string \<times> json) list" where
  "redact_secrets secrets (JStr s) = JStr (redact_string s secrets)"
| "redact_secrets secrets (JArr vs) = JArr (redact_items secrets vs)"
| "redact_secrets secrets (JObj kvs) = JObj (own_properties (redact_members secrets kvs))"
| "redact_secrets secrets v = v"
| "redact_items secrets [] = []"
| "redact_items secrets (v # vs) = redact_secrets secrets v # redact_items secrets vs"
| "redact_members secrets [] = []"
| "redact_members secrets ((k, v) # kvs) = (k, redact_secrets secrets v) # redact_members secrets kvs"

section \<open>Captured output\<close>

definition word_char :: "char \<Rightarrow> bool" where
  "word_char c \<longleftrightarrow> alnum_char c \<or> c = CHR ''_''"

text \<open>The length of the longest run of at least 8 characters that ends at a word boundary.\<close>

definition at_boundary :: "string \<Rightarrow> nat \<Rightarrow> bool" where
  "at_boundary s n \<longleftrightarrow>
     word_char (s ! (n - 1)) \<noteq> (n < length s \<and> word_char (s ! n))"

definition boundary_run :: "(char \<Rightarrow> bool) \<Rightarrow> string \<Rightarrow> nat option" where
  "boundary_run P s =
     find (\<lambda>n. 8 \<le> n \<and> at_boundary s n) (rev [0..<Suc (length (takeWhile P s))])"

definition word_start :: "char option \<Rightarrow> bool" where
  "word_start prev \<longleftrightarrow> (case prev of None \<Rightarrow> True | Some c \<Rightarrow> \<not> word_char c)"

definition token_char :: "char \<Rightarrow> bool" where
  "token_char c \<longleftrightarrow> alnum_char c \<or> c \<in> set ''_-''"

definition token_prefix :: "string \<Rightarrow> nat option" where
  "token_prefix s =
     (if starts_with ''gh'' s \<and> 4 \<le> length s \<and> s ! 2 \<in> set ''pousr'' \<and> s ! 3 = CHR ''_'' then Some 4
      else if starts_with ''github_pat_'' s then Some 11 else None)"

definition match_token :: "char option \<Rightarrow> string \<Rightarrow> (nat \<times> string) option" where
  "match_token prev s =
     (if \<not> word_start prev then None
      else case token_prefix s of
        None \<Rightarrow> None
      | Some k \<Rightarrow> map_option (\<lambda>n. (k + n, redaction_marker)) (boundary_run token_char (drop k s)))"

definition bearer_char :: "char \<Rightarrow> bool" where
  "bearer_char c \<longleftrightarrow> alnum_char c \<or> c \<in> set ''._~+/-''"

definition match_bearer :: "char option \<Rightarrow> string \<Rightarrow> (nat \<times> string) option" where
  "match_bearer prev s =
     (if \<not> word_start prev \<or> \<not> starts_with ''Bearer'' s then None
      else
        let spaces = length (takeWhile space_char (drop 6 s)) in
        if spaces = 0 then None
        else map_option (\<lambda>n. (6 + spaces + n, ''Bearer [REDACTED]''))
          (boundary_run bearer_char (drop (6 + spaces) s)))"

definition redact_output :: "string \<Rightarrow> string list \<Rightarrow> string" where
  "redact_output val secrets =
     (let known = unique_secrets secrets;
          sanitized = (if 0 < length known then replace_all (match_secret known) None val else val)
      in replace_all match_bearer None (replace_all match_token None sanitized))"

section \<open>What redaction removes\<close>

interpretation secret_order: comparator_order longer_first
  by unfold_locales (auto simp: longer_first_def)

lemma set_unique_secrets: "set (unique_secrets secrets) = {s \<in> set secrets. s \<noteq> []}"
  by (simp add: unique_secrets_def)

text \<open>
  The texts between the replacements: the output is these pieces joined by the
  marker, and no secret occurs in a piece.
\<close>

lemma starts_with_extend: "starts_with p s \<Longrightarrow> starts_with p (s @ t)"
  unfolding starts_with_iff by auto

lemma join_append:
  "w \<noteq> [] \<Longrightarrow> v \<noteq> [] \<Longrightarrow> join sep (w @ v) = join sep w @ sep @ join sep v"
proof (induction w)
  case (Cons x w)
  then show ?case by (cases w) (auto simp: join_Cons)
qed simp

lemma replaced_pieces:
  assumes "\<And>p. p \<in> set known \<Longrightarrow> p \<noteq> []"
  shows "\<exists>pieces. pieces \<noteq> [] \<and> replace_all (match_secret known) prev s = join redaction_marker pieces \<and>
    (\<forall>w \<in> set pieces. \<forall>p \<in> set known. \<not> has_substring p w) \<and>
    (\<exists>t. s = hd pieces @ t \<and> (tl pieces = [] \<longrightarrow> t = []))"
proof (induction s arbitrary: prev rule: length_induct)
  case (1 s)
  show ?case
  proof (cases s)
    case Nil
    then show ?thesis
      using assms by (intro exI [of _ "[[]]"]) simp
  next
    case (Cons c cs)
    show ?thesis
    proof (cases "find (\<lambda>p. starts_with p s) known")
      case None
      then have no_start: "\<not> starts_with p s" if "p \<in> set known" for p
        using that by (auto simp: find_None_iff)
      obtain pieces t where pieces: "pieces \<noteq> []"
        "replace_all (match_secret known) (Some c) cs = join redaction_marker pieces"
        "\<forall>w \<in> set pieces. \<forall>p \<in> set known. \<not> has_substring p w"
        "cs = hd pieces @ t" "tl pieces = [] \<longrightarrow> t = []"
        using "1.IH" [rule_format, of cs "Some c"] Cons by auto
      let ?new = "(c # hd pieces) # tl pieces"
      have "replace_all (match_secret known) prev s = join redaction_marker ?new"
        using Cons None pieces(1,2) by (cases pieces; cases "tl pieces") (auto simp: match_secret_def)
      moreover have "\<not> has_substring p (c # hd pieces)" if "p \<in> set known" for p
      proof -
        have "\<not> starts_with p (c # hd pieces)"
          using no_start [OF that] Cons pieces(4) starts_with_extend by fastforce
        then show ?thesis using pieces(1,3) that by simp
      qed
      moreover have "\<forall>w \<in> set (tl pieces). \<forall>p \<in> set known. \<not> has_substring p w"
        using pieces(1,3) by (auto dest: list.set_sel(2))
      ultimately show ?thesis
        using Cons pieces(4,5) by (intro exI [of _ ?new]) auto
    next
      case (Some p)
      then have p: "p \<in> set known" "starts_with p s" by (auto simp: find_Some_iff)
      let ?rest = "drop (length p) s"
      have ne: "p \<noteq> []" using p(1) assms by blast
      have shorter: "length ?rest < length s" using ne Cons by (cases p) auto
      obtain pieces where pieces: "pieces \<noteq> []"
        "replace_all (match_secret known) (Some (last (take (length p) s))) ?rest = join redaction_marker pieces"
        "\<forall>w \<in> set pieces. \<forall>q \<in> set known. \<not> has_substring q w"
        using "1.IH" [rule_format, OF shorter] by blast
      have "replace_all (match_secret known) prev s = join redaction_marker ([] # pieces)"
        using Cons Some pieces(1,2) ne by (simp add: match_secret_def join_Cons)
      moreover have "\<not> has_substring q []" if "q \<in> set known" for q using assms [OF that] by simp
      ultimately show ?thesis
        using pieces by (intro exI [of _ "[] # pieces"]) auto
    qed
  qed
qed

lemma join_join:
  "ws \<noteq> [] \<Longrightarrow> (\<And>ps. ps \<in> set ws \<Longrightarrow> ps \<noteq> []) \<Longrightarrow> join sep (map (join sep) ws) = join sep (concat ws)"
proof (induction ws)
  case (Cons w ws)
  show ?case
  proof (cases "ws = []")
    case False
    have "concat ws \<noteq> []" using False Cons.prems(2) by (cases ws) auto
    then show ?thesis using Cons False by (simp add: join_Cons join_append)
  qed simp
qed simp

lemma split_text_not_Nil [simp]: "split_text sep n s \<noteq> []"
  by (induction sep n s rule: split_text.induct) (auto split: list.splits)

lemma redact_string_pieces:
  assumes "unique_secrets secrets \<noteq> []"
  shows "\<exists>pieces. pieces \<noteq> [] \<and> redact_string val secrets = join redaction_marker pieces \<and>
    (\<forall>w \<in> set pieces. \<forall>p \<in> set secrets. p \<noteq> [] \<longrightarrow> \<not> has_substring p w)"
proof -
  let ?known = "unique_secrets secrets"
  have ne: "p \<noteq> []" if "p \<in> set ?known" for p using that by (simp add: set_unique_secrets)
  have "\<exists>f. \<forall>w. f w \<noteq> [] \<and> replace_all (match_secret ?known) None w = join redaction_marker (f w) \<and>
      (\<forall>v \<in> set (f w). \<forall>p \<in> set ?known. \<not> has_substring p v)"
    using replaced_pieces [of ?known None, OF ne] by (intro choice) blast
  then obtain f where f: "\<And>w. f w \<noteq> []"
    "\<And>w. replace_all (match_secret ?known) None w = join redaction_marker (f w)"
    "\<And>w v p. v \<in> set (f w) \<Longrightarrow> p \<in> set ?known \<Longrightarrow> \<not> has_substring p v" by metis
  let ?ws = "map f (split_marker val)"
  have "redact_string val secrets = join redaction_marker (map (join redaction_marker) ?ws)"
    using assms by (simp add: redact_string_def Let_def f(2) cong: map_cong)
  also have "\<dots> = join redaction_marker (concat ?ws)"
    using f(1) by (intro join_join) (auto simp: split_marker_def)
  finally have "redact_string val secrets = join redaction_marker (concat ?ws)" .
  moreover have "concat ?ws \<noteq> []"
    using f(1) by (cases "split_marker val") (auto simp: split_marker_def)
  ultimately show ?thesis
    using f(3) set_unique_secrets by (intro exI [of _ "concat ?ws"]) auto
qed

lemma occurrence_cases:
  assumes "w @ r = u @ p @ v"
  obtains (left) x where "w = u @ p @ x"
    | (right) x where "r = x @ p @ v"
    | (cut) x y where "w = u @ x" "p = x @ y" "x \<noteq> []" "y \<noteq> []" "r = y @ v"
proof -
  from assms consider (a) x where "u = w @ x" "r = x @ p @ v" | (b) x where "w = u @ x" "x @ r = p @ v"
    unfolding append_eq_append_conv2 by blast
  then show thesis
  proof cases
    case a
    then show thesis using right by blast
  next
    case b
    then consider (c) y where "x = p @ y" | (d) y where "p = x @ y" "r = y @ v"
      unfolding append_eq_append_conv2 by blast
    then show thesis
    proof cases
      case c
      then show thesis using left b(1) by blast
    next
      case d
      then show thesis using left [of "[]"] right [of "[]"] cut [of x y] b(1)
        by (cases "x = []"; cases "y = []") auto
    qed
  qed
qed

lemma join_has_no_substring:
  assumes "p \<noteq> []" and "set p \<inter> set sep = {}" and "\<And>w. w \<in> set ws \<Longrightarrow> \<not> has_substring p w"
    and "sep \<noteq> []"
  shows "\<not> has_substring p (join sep ws)"
  using assms(3)
proof (induction ws)
  case Nil
  then show ?case using assms(1) by simp
next
  case (Cons w ws)
  show ?case
  proof (cases "ws = []")
    case True
    then show ?thesis using Cons.prems by simp
  next
    case False
    have IH: "\<not> has_substring p (join sep ws)" using Cons by simp
    show ?thesis
    proof
      assume "has_substring p (join sep (w # ws))"
      then obtain u v where "w @ sep @ join sep ws = u @ p @ v"
        using False by (auto simp: join_Cons has_substring_iff)
      then show False
      proof (cases rule: occurrence_cases)
        case (left x)
        then show False using Cons.prems by (auto simp: has_substring_iff)
      next
        case (right x)
        then show False
        proof (cases rule: occurrence_cases)
          case (left z)
          then show False using assms(1,2) by (cases p) auto
        next
          case (right z)
          then show False using IH by (auto simp: has_substring_iff)
        next
          case (cut y z)
          then show False using assms(2) by (cases y) auto
        qed
      next
        case (cut x y)
        from cut(2,4) have "hd y \<in> set p" by simp
        moreover from cut(4,5) assms(4) have "hd y = hd sep" by (cases sep; cases y) auto
        ultimately show False using assms(2,4) by (cases sep) auto
      qed
    qed
  qed
qed

lemma redacted_secret_gone:
  assumes "p \<in> set secrets" and "p \<noteq> []" and "set p \<inter> set redaction_marker = {}"
  shows "\<not> has_substring p (redact_string val secrets)"
proof -
  have "unique_secrets secrets \<noteq> []" using assms(1,2) set_unique_secrets [of secrets] by fastforce
  from redact_string_pieces [OF this, of val] obtain pieces where
    "redact_string val secrets = join redaction_marker pieces"
    "\<forall>w \<in> set pieces. \<forall>p \<in> set secrets. p \<noteq> [] \<longrightarrow> \<not> has_substring p w" by blast
  then show ?thesis
    using join_has_no_substring [OF assms(2,3), of pieces] assms(1,2)
    by (simp add: redaction_marker_def)
qed

text \<open>
  A registered secret that shares no character with the marker "[REDACTED]" does not
  occur in a redacted string, wherever and however often it occurred before, also
  where it overlapped another secret.
\<close>

theorem redaction_removes_secrets:
  assumes "p \<in> set secrets" and "p \<noteq> []" and "set p \<inter> set redaction_marker = {}"
  shows "\<not> has_substring p (redact_string val secrets)"
  using assms by (rule redacted_secret_gone)

theorem redaction_removes_secrets_witness:
  "\<not> has_substring ''s3cret'' (redact_string ''a s3cret b s3s3cret'' [''s3'', ''s3cret''])"
  by (rule redaction_removes_secrets) (auto simp: redaction_marker_def)

section \<open>What redaction of captured output removes\<close>

lemma has_substring_extend: "has_substring p x \<Longrightarrow> has_substring p (u @ x @ v)"
  unfolding has_substring_iff by (metis append.assoc)

lemma replace_keeps_absent:
  assumes "p \<noteq> []"
    and m: "\<And>prev s n r. m prev s = Some (n, r) \<Longrightarrow>
      \<exists>k mid. r = take k s @ mid \<and> mid \<noteq> [] \<and> set p \<inter> set mid = {}"
  shows "\<not> has_substring p (u @ s) \<Longrightarrow> \<not> has_substring p (u @ replace_all m prev s)"
proof (induction s arbitrary: u prev rule: length_induct)
  case (1 s)
  show ?case
  proof (cases s)
    case Nil
    then show ?thesis using "1.prems" by simp
  next
    case (Cons c cs)
    have skip: "\<not> has_substring p (u @ c # replace_all m (Some c) cs)"
      using "1.IH" [rule_format, of cs "u @ [c]" "Some c"] "1.prems" Cons by simp
    show ?thesis
    proof (cases "m prev s")
      case None
      then show ?thesis using skip Cons by simp
    next
      case (Some nr)
      obtain n r where nr: "nr = (n, r)" by force
      from m [OF Some [unfolded nr]] obtain k mid where
        r: "r = take k s @ mid" "mid \<noteq> []" "set p \<inter> set mid = {}" by blast
      show ?thesis
      proof (cases "n = 0")
        case True
        then show ?thesis using skip Cons Some nr by simp
      next
        case False
        let ?rest = "replace_all m (Some (last (take n s))) (drop n s)"
        have "\<not> has_substring p (u @ take k s)"
          using "1.prems" has_substring_extend [of p "u @ take k s" "[]" "drop k s"] by auto
        moreover have "\<not> has_substring p (drop n s)"
          using "1.prems" has_substring_extend [of p "drop n s" "u @ take n s" "[]"] by auto
        then have "\<not> has_substring p ?rest"
          using "1.IH" [rule_format, of "drop n s" "[]"] False Cons by simp
        ultimately have "\<not> has_substring p (join mid [u @ take k s, ?rest])"
          by (intro join_has_no_substring [OF assms(1) r(3) _ r(2)]) auto
        then show ?thesis using Cons Some nr False r(1) by simp
      qed
    qed
  qed
qed

text \<open>
  In captured output a registered secret is gone when it shares no character with
  " [REDACTED]": the replacements of tokens and bearer headers do not bring it back.
\<close>

theorem redact_output_removes_secrets:
  assumes "p \<in> set secrets" and "p \<noteq> []" and "set p \<inter> set '' [REDACTED]'' = {}"
  shows "\<not> has_substring p (redact_output val secrets)"
proof -
  have marker: "set p \<inter> set redaction_marker = {}" using assms(3) by (auto simp: redaction_marker_def)
  have ne: "unique_secrets secrets \<noteq> []" using assms(1,2) set_unique_secrets [of secrets] by fastforce
  obtain pieces where "replace_all (match_secret (unique_secrets secrets)) None val = join redaction_marker pieces"
    "\<forall>w \<in> set pieces. \<forall>p \<in> set (unique_secrets secrets). \<not> has_substring p w"
    using replaced_pieces [of "unique_secrets secrets" None val] set_unique_secrets by auto
  then have known: "\<not> has_substring p (replace_all (match_secret (unique_secrets secrets)) None val)"
    using join_has_no_substring [OF assms(2) marker, of pieces] assms(1,2) set_unique_secrets [of secrets]
    by (simp add: redaction_marker_def)
  have token: "\<exists>k mid. r = take k s @ mid \<and> mid \<noteq> [] \<and> set p \<inter> set mid = {}"
    if "match_token prev s = Some (n, r)" for prev s n r
  proof -
    have "r = redaction_marker" using that by (auto simp: match_token_def split: if_splits option.splits)
    then show ?thesis
      using marker by (intro exI [of _ 0] exI [of _ redaction_marker]) (simp add: redaction_marker_def)
  qed
  have bearer: "\<exists>k mid. r = take k s @ mid \<and> mid \<noteq> [] \<and> set p \<inter> set mid = {}"
    if "match_bearer prev s = Some (n, r)" for prev s n r
  proof -
    have "r = ''Bearer [REDACTED]''" "starts_with ''Bearer'' s"
      using that by (auto simp: match_bearer_def Let_def split: if_splits)
    then show ?thesis
      using assms(3)
      by (intro exI [of _ 6] exI [of _ "'' [REDACTED]''"]) (auto simp: starts_with_iff)
  qed
  have "\<not> has_substring p (replace_all match_token None
      (replace_all (match_secret (unique_secrets secrets)) None val))"
    using replace_keeps_absent [OF assms(2) token, where u = "[]"] known by simp
  from replace_keeps_absent [OF assms(2) bearer, where u = "[]"] this show ?thesis
    using ne by (simp add: redact_output_def Let_def)
qed

theorem redact_output_removes_secrets_witness:
  "\<not> has_substring ''s3cret'' (redact_output ''Bearer s3cret0123456789 s3cret'' [''s3cret''])"
  by (rule redact_output_removes_secrets) auto

end
