(* ===== verification/Decode.thy ===== *)
theory Decode
  imports JsonLaws
begin

text \<open>
  Reading JSON values against the strict object schemas of the program: the members an
  object must have, and its integers, texts and booleans. A schema that fails gives
  \<open>None\<close>.
\<close>

definition json_member :: "string \<Rightarrow> json \<Rightarrow> json option" where
  "json_member k v = (case v of JObj kvs \<Rightarrow> map_of kvs k | _ \<Rightarrow> None)"

text \<open>\<open>z.object\<close> with \<open>strict()\<close>: the keys are all known; absent members fail where they are read.\<close>

definition strict_object :: "string list \<Rightarrow> json \<Rightarrow> bool" where
  "strict_object ks v =
     (case v of JObj kvs \<Rightarrow> list_all (\<lambda>kv. fst kv \<in> set ks) kvs | _ \<Rightarrow> False)"

definition json_string :: "json \<Rightarrow> string option" where
  "json_string v = (case v of JStr s \<Rightarrow> Some s | _ \<Rightarrow> None)"

definition json_bool :: "json \<Rightarrow> bool option" where
  "json_bool v = (case v of JBool b \<Rightarrow> Some b | _ \<Rightarrow> None)"

text \<open>
  The integer that a canonical number text denotes; fractions, exponents and the
  magnitudes beyond the safe integers are no \<open>int()\<close> of the schemas.
\<close>

definition numeral_value :: "string \<Rightarrow> int option" where
  "numeral_value t = (if t \<noteq> [] \<and> list_all digit_char t then Some (int (digits_value 0 t)) else None)"

definition number_value :: "string \<Rightarrow> int option" where
  "number_value t =
     (if starts_with ''-'' t then map_option uminus (numeral_value (drop 1 t)) else numeral_value t)"

definition json_int :: "json \<Rightarrow> int option" where
  "json_int v =
     (case v of
        JNum t \<Rightarrow> Option.bind (number_value t) (\<lambda>i. if safe_int i then Some i else None)
      | _ \<Rightarrow> None)"

definition json_of_int :: "int \<Rightarrow> json" where
  "json_of_int i = JNum (int_text i)"

definition required :: "string \<Rightarrow> (json \<Rightarrow> 'a option) \<Rightarrow> json \<Rightarrow> 'a option" where
  "required k f v = Option.bind (json_member k v) f"

definition nullable :: "(json \<Rightarrow> 'a option) \<Rightarrow> json \<Rightarrow> 'a option option" where
  "nullable f v = (if v = JNull then Some None else map_option Some (f v))"

lemma json_member_simps [simp]:
  "json_member k (JObj []) = None"
  "json_member k (JObj ((k', v) # kvs)) = (if k = k' then Some v else json_member k (JObj kvs))"
  by (simp_all add: json_member_def)

lemma json_reads [simp]:
  "json_string (JStr s) = Some s"
  "json_bool (JBool b) = Some b"
  by (simp_all add: json_string_def json_bool_def)

lemma numeral_value_nat_text: "numeral_value (nat_text n) = Some (int n)"
  using nat_text_digits [of _ n] by (simp add: numeral_value_def digits_value_nat_text list_all_iff)

lemma nat_text_no_sign: "\<not> starts_with ''-'' (nat_text n)"
  using nat_text_digits [of "hd (nat_text n)" n]
  by (cases "nat_text n") (auto simp: digit_char_def code_unit_def)

lemma json_int_of_int [simp]: "json_int (json_of_int i) = (if safe_int i then Some i else None)"
  by (auto simp: json_int_def json_of_int_def int_text_def number_value_def nat_text_no_sign
      numeral_value_nat_text)

section \<open>Integers in documents\<close>

text \<open>The host reads the decimal text of a safe integer as that integer.\<close>

definition host_numbers :: "js_host \<Rightarrow> bool" where
  "host_numbers h \<longleftrightarrow> (\<forall>i. safe_int i \<longrightarrow> num_canon h (int_text i) = int_text i)"

lemma nat_text_no_leading_zero: "length (nat_text n) = 1 \<or> hd (nat_text n) \<noteq> CHR ''0''"
proof (induction n rule: nat_text.induct)
  case (1 n)
  show ?case
  proof (cases "n < 10")
    case True
    then show ?thesis by (subst nat_text.simps) simp
  next
    case False
    then have "hd (nat_text (n div 10)) \<noteq> CHR ''0''"
    proof (cases "n div 10 < 10")
      case True
      have "hd (nat_text (n div 10)) = char_of (48 + n div 10)"
        using True by (subst nat_text.simps) simp
      moreover have "code_unit (char_of (48 + n div 10)) \<noteq> code_unit (CHR ''0'')"
        using True False by (subst code_unit_char_of) (auto simp: code_unit_def)
      ultimately show ?thesis by auto
    next
      case big: False
      from 1 [OF False] show ?thesis
      proof
        assume "length (nat_text (n div 10)) = 1"
        moreover have "nat_text (n div 10) = nat_text (n div 10 div 10) @ [char_of (48 + n div 10 mod 10)]"
          using big by (subst nat_text.simps) simp
        ultimately show ?thesis by simp
      qed
    qed
    then show ?thesis using False by (subst (2) nat_text.simps) simp
  qed
qed

lemma json_number_int: "json_number (int_text i)"
proof -
  have tw: "takeWhile digit_char (nat_text n) = nat_text n"
    and dw: "dropWhile digit_char (nat_text n) = []" for n
    using nat_text_digits [of _ n] by (simp_all add: takeWhile_eq_all_conv)
  have "(case nat_text n of [] \<Rightarrow> [] | c # cs \<Rightarrow> if c = CHR ''-'' then cs else nat_text n) = nat_text n" for n
    using nat_text_no_sign [of n] by (cases "nat_text n") simp_all
  then show ?thesis
    using nat_text_no_leading_zero
    by (simp add: json_number_def int_text_def Let_def json_fraction_def tw dw)
qed

lemma number_text_int:
  assumes "host_numbers h" and "safe_int i"
  shows "number_text_ok h (int_text i)"
proof -
  have "list_all num_char (int_text i)"
    using nat_text_digits by (auto simp: int_text_def list_all_iff num_char_def)
  then show ?thesis
    using assms json_number_int by (simp add: number_text_ok_def host_numbers_def)
qed

lemma wf_json_int: "host_numbers h \<Longrightarrow> safe_int i \<Longrightarrow> wf_json h (json_of_int i)"
  by (simp add: json_of_int_def number_text_int)

end
