(* ===== verification/Bounded.thy ===== *)
theory Bounded
  imports Planning Oracle Redaction Decode
begin

text \<open>
  src/src/execution/bounded-execution.ts: the capture of output, the artifact budget,
  the reading of the supervisor's result, and \<open>BoundedExperimentExecutor\<close>.

  The environment of the model has the single network policy that its schema allows;
  that the caller passes "deny-all" is the argument \<open>denied\<close>, and the abort signal is
  a function of the trace. The text of the uploaded supervisor is the argument
  \<open>supervisor\<close>; what it computes is in theory Supervisor.
\<close>

section \<open>Limits\<close>

definition command_timeout_ms :: int where
  "command_timeout_ms = 120000"

definition max_artifact_bytes :: int where
  "max_artifact_bytes = 100 * 1024 * 1024"

definition max_memory_bytes :: int where
  "max_memory_bytes = 4 * 1024 * 1024 * 1024"

definition max_output_bytes :: int where
  "max_output_bytes = 2 * 1024 * 1024"

definition max_processes :: int where
  "max_processes = 128"

definition max_runs :: nat where
  "max_runs = 5"

definition max_tool_calls :: nat where
  "max_tool_calls = 12"

definition max_total_attempt_ms :: int where
  "max_total_attempt_ms = 900000"

definition max_workspace_bytes :: int where
  "max_workspace_bytes = 500 * 1024 * 1024"

section \<open>Captured output\<close>

record captured_output =
  out_original_bytes :: int
  out_sha256 :: string
  out_text :: string
  out_truncated :: bool

definition captured_output_ok :: "captured_output \<Rightarrow> bool" where
  "captured_output_ok c \<longleftrightarrow>
     0 \<le> out_original_bytes c \<and> safe_int (out_original_bytes c) \<and> sha256_string (out_sha256 c) \<and>
     int (length (out_text c)) \<le> max_output_bytes"

text \<open>\<open>decode\<close> is the decoder that replaces malformed sequences instead of throwing.\<close>

definition capture_bounded_output ::
  "js_host \<Rightarrow> (string \<Rightarrow> string) \<Rightarrow> string \<Rightarrow> int \<Rightarrow> string list \<Rightarrow> thrown + captured_output" where
  "capture_bounded_output h decode bytes max_bytes secrets =
     and_then (parse_as (\<lambda>n. safe_int n \<and> 0 \<le> n) SchemaError max_bytes) (\<lambda>limit.
       let retained = take (nat limit) bytes in
       Inr \<lparr>out_original_bytes = int (length bytes), out_sha256 = sha256_hex h bytes,
            out_text = redact_output (decode retained) secrets,
            out_truncated = (length bytes > length retained)\<rparr>)"

section \<open>The artifact budget\<close>

definition artifact_path_ok :: "string \<Rightarrow> bool" where
  "artifact_path_ok p \<longleftrightarrow>
     length p \<noteq> 0 \<and> length p \<le> 1024 \<and> \<not> starts_with ''/'' p \<and> CHR 0x5C \<notin> set p \<and>
     list_all (\<lambda>w. length w \<noteq> 0 \<and> w \<noteq> ''.'' \<and> w \<noteq> ''..'') (split_on (CHR ''/'') p)"

fun scan_artifacts ::
  "string set \<Rightarrow> int \<Rightarrow> (string \<times> int) list \<Rightarrow> thrown + int" where
  "scan_artifacts seen bytes [] = Inr bytes"
| "scan_artifacts seen bytes ((p, n) # rest) =
     (if \<not> artifact_path_ok p \<or> p \<in> seen \<or> \<not> safe_int n \<or> n < 0
      then Inl (LimitError ArtifactLimit)
      else
        let bytes' = bytes + n in
        if \<not> safe_int bytes' \<or> bytes' > max_artifact_bytes then Inl (LimitError ArtifactLimit)
        else scan_artifacts (insert p seen) bytes' rest)"

definition enforce_artifact_budget :: "(string \<times> int) list \<Rightarrow> thrown + (int \<times> nat)" where
  "enforce_artifact_budget artifacts =
     (if length artifacts > 1000 then Inl (LimitError ArtifactLimit)
      else and_then (scan_artifacts {} 0 artifacts) (\<lambda>bytes. Inr (bytes, length artifacts)))"

section \<open>The supervisor's result\<close>

datatype termination_reason =
  TimedOut | ProcessesExceeded | MemoryExceeded | WorkspaceExceeded | Interrupted

record supervisor_result =
  sup_duration_ms :: int
  sup_exit_code :: int
  sup_stderr :: captured_output
  sup_stdout :: captured_output
  sup_termination :: "termination_reason option"

definition bounded_capture :: "captured_output \<Rightarrow> bool" where
  "bounded_capture c \<longleftrightarrow>
     (let retained = int (length (utf8_encode (out_text c))) in
      \<not> (retained > ((max_output_bytes + 1) div 2) * 3 \<or> out_original_bytes c < retained \<or>
         (out_truncated c \<and> out_original_bytes c \<le> retained)))"

definition supervisor_result_ok :: "supervisor_result \<Rightarrow> bool" where
  "supervisor_result_ok r \<longleftrightarrow>
     0 \<le> sup_duration_ms r \<and> sup_duration_ms r \<le> command_timeout_ms + 5000 \<and>
     - 1 \<le> sup_exit_code r \<and> sup_exit_code r \<le> 255 \<and>
     captured_output_ok (sup_stderr r) \<and> captured_output_ok (sup_stdout r) \<and>
     bounded_capture (sup_stdout r) \<and> bounded_capture (sup_stderr r)"

definition read_captured_output :: "json \<Rightarrow> captured_output option" where
  "read_captured_output v =
     (if \<not> strict_object [''originalBytes'', ''sha256'', ''text'', ''truncated''] v then None
      else
        Option.bind (required ''originalBytes'' json_int v) (\<lambda>n.
        Option.bind (required ''sha256'' json_string v) (\<lambda>d.
        Option.bind (required ''text'' json_string v) (\<lambda>s.
        map_option (\<lambda>b. \<lparr>out_original_bytes = n, out_sha256 = d, out_text = s, out_truncated = b\<rparr>)
          (required ''truncated'' json_bool v)))))"

definition read_termination :: "json \<Rightarrow> termination_reason option" where
  "read_termination v =
     (if v = JStr ''timeout'' then Some TimedOut
      else if v = JStr ''process-limit'' then Some ProcessesExceeded
      else if v = JStr ''memory-limit'' then Some MemoryExceeded
      else if v = JStr ''workspace-limit'' then Some WorkspaceExceeded
      else if v = JStr ''provider-interrupted'' then Some Interrupted
      else None)"

definition read_supervisor_result :: "json \<Rightarrow> supervisor_result option" where
  "read_supervisor_result v =
     (if \<not> strict_object [''durationMs'', ''exitCode'', ''stderr'', ''stdout'', ''termination''] v
      then None
      else
        Option.bind (required ''durationMs'' json_int v) (\<lambda>d.
        Option.bind (required ''exitCode'' json_int v) (\<lambda>x.
        Option.bind (required ''stderr'' read_captured_output v) (\<lambda>err.
        Option.bind (required ''stdout'' read_captured_output v) (\<lambda>out.
        Option.bind (required ''termination'' (nullable read_termination) v) (\<lambda>k.
          let r = \<lparr>sup_duration_ms = d, sup_exit_code = x, sup_stderr = err, sup_stdout = out,
            sup_termination = k\<rparr>
          in if supervisor_result_ok r then Some r else None))))))"

fun map_termination :: "termination_reason \<Rightarrow> limit_code" where
  "map_termination TimedOut = CommandTimeout"
| "map_termination ProcessesExceeded = ProcessLimit"
| "map_termination MemoryExceeded = MemoryLimit"
| "map_termination WorkspaceExceeded = WorkspaceLimit"
| "map_termination Interrupted = ProviderInterrupted"

text \<open>The file that the supervisor writes when the command has ended.\<close>

definition captured_output_json :: "captured_output \<Rightarrow> json" where
  "captured_output_json c = JObj
     [(''originalBytes'', json_of_int (out_original_bytes c)), (''sha256'', JStr (out_sha256 c)),
      (''text'', JStr (out_text c)), (''truncated'', JBool (out_truncated c))]"

fun termination_json :: "termination_reason option \<Rightarrow> json" where
  "termination_json None = JNull"
| "termination_json (Some TimedOut) = JStr ''timeout''"
| "termination_json (Some ProcessesExceeded) = JStr ''process-limit''"
| "termination_json (Some MemoryExceeded) = JStr ''memory-limit''"
| "termination_json (Some WorkspaceExceeded) = JStr ''workspace-limit''"
| "termination_json (Some Interrupted) = JStr ''provider-interrupted''"

definition supervisor_result_json :: "supervisor_result \<Rightarrow> json" where
  "supervisor_result_json r = JObj
     [(''durationMs'', json_of_int (sup_duration_ms r)), (''exitCode'', json_of_int (sup_exit_code r)),
      (''stderr'', captured_output_json (sup_stderr r)),
      (''stdout'', captured_output_json (sup_stdout r)),
      (''termination'', termination_json (sup_termination r))]"

section \<open>One run\<close>

datatype run_role = CandidateRun | ControlRun

record bounded_run =
  bounded_stderr :: captured_output
  bounded_stdout :: captured_output
  bounded_role :: run_role
  bounded_result :: run_result

definition bounded_run_ok :: "bounded_run \<Rightarrow> bool" where
  "bounded_run_ok b \<longleftrightarrow>
     captured_output_ok (bounded_stderr b) \<and> captured_output_ok (bounded_stdout b) \<and>
     run_result_ok (bounded_result b)"

definition display_command :: "sandbox_command \<Rightarrow> string" where
  "display_command c = join '' '' (map json_quote (tool_text (cmd_executable c) # cmd_args c))"

definition sanitize_capture :: "captured_output \<Rightarrow> string list \<Rightarrow> captured_output" where
  "sanitize_capture c secrets = c\<lparr>out_text := redact_output (out_text c) secrets\<rparr>"

fun phase_text :: "phase \<Rightarrow> string" where
  "phase_text SourceAcquisition = ''source-acquisition''"
| "phase_text DependencyAcquisition = ''dependency-acquisition''"
| "phase_text OfflineInstall = ''offline-install''"
| "phase_text ControlPhase = ''control''"
| "phase_text CandidatePhase = ''candidate''"
| "phase_text ArtifactExport = ''artifact-export''"
| "phase_text CleanupPhase = ''cleanup''"

definition experiment_phase :: "phase \<Rightarrow> bool" where
  "experiment_phase p \<longleftrightarrow> p = ControlPhase \<or> p = CandidatePhase"

definition experiment_root :: "sandbox_command \<Rightarrow> string" where
  "experiment_root c = join ''/'' (take 5 (split_on (CHR ''/'') (cmd_cwd c)))"

definition supervisor_config :: "sandbox_command \<Rightarrow> json" where
  "supervisor_config c = JObj
     [(''args'', JArr (map JStr (cmd_args c))),
      (''cwd'', JStr (cmd_cwd c)),
      (''executable'', JStr (tool_text (cmd_executable c))),
      (''limits'', JObj
        [(''commandTimeoutMs'', json_of_int command_timeout_ms),
         (''maxMemoryBytes'', json_of_int max_memory_bytes),
         (''maxOutputBytes'', json_of_int max_output_bytes),
         (''maxProcesses'', json_of_int max_processes),
         (''maxWorkspaceBytes'', json_of_int max_workspace_bytes)]),
      (''phase'', JStr (phase_text (cmd_phase c))),
      (''workspaceRoot'', JStr (experiment_root c))]"

definition run_identifier_ok :: "string \<Rightarrow> bool" where
  "run_identifier_ok s \<longleftrightarrow> identifier_ok ''._-'' s"

definition supervisor_directory :: "world \<Rightarrow> trace \<Rightarrow> string" where
  "supervisor_directory w t = sandbox_root @ ''/reproforge-'' @ random_uuid w t"

definition supervisor_path :: "string \<Rightarrow> string" where
  "supervisor_path dir = dir @ ''/runner-supervisor.mjs''"

definition config_path :: "string \<Rightarrow> string \<Rightarrow> string" where
  "config_path dir rid = dir @ ''/'' @ rid @ ''.config.json''"

definition result_path :: "string \<Rightarrow> string \<Rightarrow> string" where
  "result_path dir rid = dir @ ''/'' @ rid @ ''.result.json''"

definition supervisor_files :: "string \<Rightarrow> string \<Rightarrow> sandbox_command \<Rightarrow> string \<Rightarrow> (string \<times> string) list" where
  "supervisor_files supervisor dir c rid =
     [(supervisor_path dir, utf8_encode supervisor),
      (config_path dir rid, utf8_encode (json_text (supervisor_config c)))]"

definition launch_command :: "string \<Rightarrow> sandbox_command \<Rightarrow> string \<Rightarrow> sandbox_command" where
  "launch_command dir c rid =
     \<lparr>cmd_args = [supervisor_path dir, config_path dir rid, result_path dir rid],
      cmd_cwd = cmd_cwd c, cmd_executable = NodeTool, cmd_phase = cmd_phase c,
      cmd_timeout_ms = 125000\<rparr>"

text \<open>From the bytes of the result file to the value of \<open>executeRun\<close>.\<close>

definition decode_result :: "js_host \<Rightarrow> string option \<Rightarrow> thrown + supervisor_result" where
  "decode_result h raw =
     (case raw of
        None \<Rightarrow> Inl (LimitError OutputInvalid)
      | Some bytes \<Rightarrow>
          if int (length bytes) > max_output_bytes + 64 * 1024 then Inl (LimitError OutputInvalid)
          else
            (case Option.bind (utf8_decode h bytes) (\<lambda>s. Option.bind (json_parse h s) read_supervisor_result) of
               None \<Rightarrow> Inl (LimitError OutputInvalid)
             | Some r \<Rightarrow> Inr r))"

definition finish_run ::
  "sandbox_command \<Rightarrow> execution_environment \<Rightarrow> string \<Rightarrow> string list \<Rightarrow> supervisor_result
     \<Rightarrow> thrown + bounded_run" where
  "finish_run c env rid secrets r =
     (case sup_termination r of
        Some k \<Rightarrow> Inl (LimitError (map_termination k))
      | None \<Rightarrow>
          let out = sanitize_capture (sup_stdout r) secrets;
              err = sanitize_capture (sup_stderr r) secrets
          in and_then (parse_as run_result_ok SchemaError
               \<lparr>run_capture = None, run_id = rid, run_result.run_command = display_command c,
                run_duration_ms = sup_duration_ms r, run_environment_hash = env_hash env,
                run_exit_code = sup_exit_code r, run_stderr = out_text err, run_stdout = out_text out\<rparr>)
             (\<lambda>run. parse_as bounded_run_ok SchemaError
               \<lparr>bounded_stderr = err, bounded_stdout = out,
                bounded_role = (if cmd_phase c = ControlPhase then ControlRun else CandidateRun),
                bounded_result = run\<rparr>))"

text \<open>
  \<open>executeRun\<close>: \<open>allowed\<close> is the outcome of its first guard and \<open>dir\<close> the
  fresh directory of the supervisor.
\<close>

definition run_in_directory ::
  "js_host \<Rightarrow> world \<Rightarrow> string \<Rightarrow> bool \<Rightarrow> string \<Rightarrow> sandbox_command \<Rightarrow> execution_environment
     \<Rightarrow> string \<Rightarrow> string list \<Rightarrow> session \<Rightarrow> bounded_run prog" where
  "run_in_directory h w supervisor allowed dir raw env raw_id secrets s =
     bind (require allowed (LimitError ProviderInterrupted)) (\<lambda>_.
     bind (parsed sandbox_command_ok raw) (\<lambda>c.
     bind (require (experiment_phase (cmd_phase c)) (LimitError ProviderInterrupted)) (\<lambda>_.
     bind (parsed run_identifier_ok raw_id) (\<lambda>rid.
     bind (make_directory w s dir) (\<lambda>_.
     bind (write_files w s (supervisor_files supervisor dir c rid)) (\<lambda>_.
     bind (catch (Sandbox.run_command w s (launch_command dir c rid))
       (\<lambda>_. raise (LimitError ProviderInterrupted))) (\<lambda>launched.
     bind (require (result_exit_code launched = 0) (LimitError ProviderInterrupted)) (\<lambda>_.
     bind (read_file w s (result_path dir rid)) (\<lambda>raw_result.
     lift_result (and_then (decode_result h raw_result) (finish_run c env rid secrets)))))))))))"

definition execute_run ::
  "js_host \<Rightarrow> world \<Rightarrow> string \<Rightarrow> (trace \<Rightarrow> bool) \<Rightarrow> bool \<Rightarrow> sandbox_command \<Rightarrow> execution_environment
     \<Rightarrow> string \<Rightarrow> string list \<Rightarrow> session \<Rightarrow> bounded_run prog" where
  "execute_run h w supervisor aborted denied raw env raw_id secrets s t =
     run_in_directory h w supervisor (denied \<and> \<not> aborted t) (supervisor_directory w t)
       raw env raw_id secrets s t"

section \<open>All runs in one session\<close>

record experiment_result =
  exp_candidates :: "bounded_run list"
  exp_control :: bounded_run
  exp_total_duration_ms :: int

definition experiment_result_ok :: "experiment_result \<Rightarrow> bool" where
  "experiment_result_ok e \<longleftrightarrow>
     list_all bounded_run_ok (exp_candidates e) \<and> 1 \<le> length (exp_candidates e) \<and>
     length (exp_candidates e) \<le> max_runs \<and> bounded_run_ok (exp_control e) \<and>
     0 \<le> exp_total_duration_ms e \<and> exp_total_duration_ms e \<le> max_total_attempt_ms \<and>
     bounded_role (exp_control e) = ControlRun \<and>
     list_all (\<lambda>b. bounded_role b = CandidateRun) (exp_candidates e)"

definition experiment_id :: "nat \<Rightarrow> sandbox_command \<Rightarrow> string" where
  "experiment_id index c =
     (if cmd_phase c = ControlPhase then ''control-1'' else ''candidate-'' @ nat_text index)"

fun run_commands ::
  "(nat \<Rightarrow> sandbox_command \<Rightarrow> bounded_run prog) \<Rightarrow> nat \<Rightarrow> int \<Rightarrow> sandbox_command list
     \<Rightarrow> (bounded_run list \<times> int) prog" where
  "run_commands run index duration [] = ret ([], duration)"
| "run_commands run index duration (c # cs) =
     bind (run index c) (\<lambda>b.
       let duration' = duration + run_duration_ms (bounded_result b) in
       bind (require (duration' \<le> max_total_attempt_ms) (LimitError AttemptTimeoutLimit)) (\<lambda>_.
       bind (run_commands run (index + 1) duration' cs) (\<lambda>(bs, total).
         ret (b # bs, total))))"

definition experiment_commands :: "execution_plan \<Rightarrow> sandbox_command list" where
  "experiment_commands p = filter (\<lambda>c. experiment_phase (cmd_phase c)) (plan_commands p)"

definition execute_experiments ::
  "js_host \<Rightarrow> world \<Rightarrow> string \<Rightarrow> (trace \<Rightarrow> bool) \<Rightarrow> bool \<Rightarrow> execution_environment
     \<Rightarrow> execution_plan \<Rightarrow> string list \<Rightarrow> session \<Rightarrow> experiment_result prog" where
  "execute_experiments h w supervisor aborted denied env raw_plan secrets s =
     bind (require denied (LimitError ProviderInterrupted)) (\<lambda>_.
     bind (parsed execution_plan_ok raw_plan) (\<lambda>plan.
     bind (require (length (experiment_commands plan) \<le> max_runs + 1 \<and>
         length (plan_commands plan) \<le> max_tool_calls) (LimitError ProviderInterrupted)) (\<lambda>_.
     bind (run_commands
       (\<lambda>index c. execute_run h w supervisor aborted denied c env (experiment_id index c) secrets s)
       0 0 (experiment_commands plan)) (\<lambda>(runs, total_duration).
       let candidates = filter (\<lambda>b. bounded_role b = CandidateRun) runs in
       (case find (\<lambda>b. bounded_role b = ControlRun) runs of
          None \<Rightarrow> raise (LimitError ProviderInterrupted)
        | Some control \<Rightarrow>
            bind (require (int (length candidates) = plan_required_runs plan)
              (LimitError ProviderInterrupted)) (\<lambda>_.
            parsed experiment_result_ok
              \<lparr>exp_candidates = candidates, exp_control = control,
               exp_total_duration_ms = total_duration\<rparr>))))))"

section \<open>The artifact budget is exact\<close>

definition artifact_entry_ok :: "string \<times> int \<Rightarrow> bool" where
  "artifact_entry_ok a \<longleftrightarrow> artifact_path_ok (fst a) \<and> 0 \<le> snd a"

lemma sum_sizes_nonneg: "list_all artifact_entry_ok as \<Longrightarrow> 0 \<le> sum_list (map snd as)"
  by (induction as) (auto simp: artifact_entry_ok_def)

lemma scan_artifacts_Inr_iff:
  assumes "0 \<le> n" and "n \<le> max_artifact_bytes"
  shows "scan_artifacts seen n as = Inr b \<longleftrightarrow>
    list_all artifact_entry_ok as \<and> distinct (map fst as) \<and> fst ` set as \<inter> seen = {} \<and>
    b = n + sum_list (map snd as) \<and> b \<le> max_artifact_bytes"
  using assms
proof (induction as arbitrary: seen n)
  case Nil
  then show ?case by auto
next
  case (Cons a as)
  obtain p k where a: "a = (p, k)" by force
  have entry: "artifact_entry_ok (p, k) \<longleftrightarrow> artifact_path_ok p \<and> 0 \<le> k"
    by (simp add: artifact_entry_ok_def)
  have safe: "safe_int i" if "0 \<le> i" "i \<le> max_artifact_bytes" for i
    using that by (simp add: safe_int_def max_safe_integer_def max_artifact_bytes_def)
  show ?case
  proof (cases "artifact_path_ok p \<and> p \<notin> seen \<and> 0 \<le> k \<and> n + k \<le> max_artifact_bytes")
    case True
    then have step: "scan_artifacts seen n (a # as) = scan_artifacts (insert p seen) (n + k) as"
      using safe [of k] safe [of "n + k"] Cons.prems by (simp add: a Let_def)
    show ?thesis
      unfolding step using True Cons.prems Cons.IH [of "n + k" "insert p seen"]
      by (auto simp: a entry)
  next
    case False
    then have "\<exists>e. scan_artifacts seen n (a # as) = Inl e" by (auto simp: a Let_def)
    moreover have "n + k \<le> max_artifact_bytes"
      if "list_all artifact_entry_ok as" "n + (k + sum_list (map snd as)) \<le> max_artifact_bytes"
      using sum_sizes_nonneg [OF that(1)] that(2) by simp
    ultimately show ?thesis using False by (auto simp: a entry)
  qed
qed

text \<open>
  \<open>enforceArtifactBudget\<close> accepts exactly the lists of at most 1000 artifacts with
  distinct safe relative paths whose sizes add up to at most 100 MiB, and reports their
  number and total size; every other list is rejected as ARTIFACT_LIMIT_EXCEEDED.
\<close>

theorem artifact_budget_is_exact:
  "enforce_artifact_budget artifacts =
     (if length artifacts \<le> 1000 \<and> list_all artifact_entry_ok artifacts \<and>
         distinct (map fst artifacts) \<and> sum_list (map snd artifacts) \<le> max_artifact_bytes
      then Inr (sum_list (map snd artifacts), length artifacts)
      else Inl (LimitError ArtifactLimit))"
proof -
  have rejected: "scan_artifacts seen n as = Inl e \<Longrightarrow> e = LimitError ArtifactLimit" for seen n as e
    by (induction seen n as rule: scan_artifacts.induct) (auto simp: Let_def split: if_splits)
  have zero: "0 \<le> max_artifact_bytes" by (simp add: max_artifact_bytes_def)
  show ?thesis
  proof (cases "scan_artifacts {} 0 artifacts")
    case (Inl e)
    then show ?thesis
      using rejected [OF Inl] scan_artifacts_Inr_iff [of 0 "{}" artifacts] zero
      by (auto simp: enforce_artifact_budget_def)
  next
    case (Inr b)
    then show ?thesis
      using scan_artifacts_Inr_iff [of 0 "{}" artifacts b] zero
      by (auto simp: enforce_artifact_budget_def)
  qed
qed

section \<open>What a run does and reports\<close>

definition run_calls ::
  "world \<Rightarrow> string \<Rightarrow> sandbox_command \<Rightarrow> string \<Rightarrow> session \<Rightarrow> trace \<Rightarrow> sandbox_call list" where
  "run_calls w supervisor c rid s t =
     (let dir = supervisor_directory w t in
      [MakeDirectory s dir, WriteFiles s (supervisor_files supervisor dir c rid),
       RunCommand s (launch_command dir c rid), ReadFile s (result_path dir rid)])"

definition run_admitted ::
  "(trace \<Rightarrow> bool) \<Rightarrow> bool \<Rightarrow> sandbox_command \<Rightarrow> string \<Rightarrow> trace \<Rightarrow> bool" where
  "run_admitted aborted denied c rid t \<longleftrightarrow>
     denied \<and> \<not> aborted t \<and> sandbox_command_ok c \<and> experiment_phase (cmd_phase c) \<and>
     run_identifier_ok rid"

lemma execute_run_wp:
  "wp (execute_run h w supervisor aborted denied c env rid secrets s)
    (\<lambda>b t'. t' = t @ run_calls w supervisor c rid s t \<and> run_admitted aborted denied c rid t \<and>
       (\<exists>raw r. decode_result h raw = Inr r \<and> finish_run c env rid secrets r = Inr b))
    (\<lambda>e t'. \<exists>k \<le> 4. t' = t @ take k (run_calls w supervisor c rid s t) \<and>
       (0 < k \<longrightarrow> run_admitted aborted denied c rid t)) t"
proof -
  have start: "wp (execute_run h w supervisor aborted denied c env rid secrets s) Q E t \<longleftrightarrow>
      wp (run_in_directory h w supervisor (denied \<and> \<not> aborted t) (supervisor_directory w t)
        c env rid secrets s) Q E t" for Q E
    by (simp add: wp_def execute_run_def)
  let ?dir = "supervisor_directory w t"
  let ?a = "MakeDirectory s ?dir"
  let ?b = "WriteFiles s (supervisor_files supervisor ?dir c rid)"
  let ?c = "RunCommand s (launch_command ?dir c rid)"
  let ?d = "ReadFile s (result_path ?dir rid)"
  let ?P = "run_admitted aborted denied c rid t"
  define E :: "thrown \<Rightarrow> trace \<Rightarrow> bool" where
    "E = (\<lambda>e t'. \<exists>k \<le> 4. t' = t @ take k [?a, ?b, ?c, ?d] \<and> (0 < k \<longrightarrow> ?P))"
  have E: "E e t" "?P \<Longrightarrow> E e (t @ [?a])" "?P \<Longrightarrow> E e (t @ [?a, ?b])"
    "?P \<Longrightarrow> E e (t @ [?a, ?b, ?c])" "?P \<Longrightarrow> E e (t @ [?a, ?b, ?c, ?d])" for e
    unfolding E_def
    by (rule exI [of _ 0], simp) (rule exI [of _ 1], simp, rule exI [of _ 2], simp,
      rule exI [of _ 3], simp, rule exI [of _ 4], simp)
  show ?thesis
    unfolding start run_calls_def Let_def E_def [symmetric] run_in_directory_def
    using E by (auto simp: wp_rules Let_def and_then_def run_admitted_def split: sum.splits)
qed

text \<open>
  \<open>executeRun\<close> makes four calls and no other: a fresh directory, the two files of the
  supervisor, the launch of the supervisor - never of the repository's command itself -
  and the reading of its result. It makes none of them unless the network is denied, the
  attempt is not aborted, and the command is a valid control or candidate command; it
  returns a value only after all four.
\<close>

theorem run_makes_four_calls:
  assumes "execute_run h w supervisor aborted denied c env rid secrets s t = (r, t')"
  shows "\<exists>k \<le> 4. t' = t @ take k (run_calls w supervisor c rid s t) \<and>
    (0 < k \<longrightarrow> run_admitted aborted denied c rid t) \<and> (\<forall>b. r = Inr b \<longrightarrow> k = 4)"
proof (cases r)
  case (Inl e)
  then show ?thesis using wpD_Inl [OF execute_run_wp, of h w supervisor aborted denied c env rid secrets s t e t'] assms
    by simp
next
  case (Inr b)
  have "t' = t @ run_calls w supervisor c rid s t \<and> run_admitted aborted denied c rid t"
    using wpD_Inr [OF execute_run_wp, of h w supervisor aborted denied c env rid secrets s t b t'] assms Inr
    by simp
  moreover have "length (run_calls w supervisor c rid s t) = 4" by (simp add: run_calls_def Let_def)
  ultimately show ?thesis using Inr by (intro exI [of _ 4]) simp
qed

text \<open>What a run reports: the fields of its result, in terms of the supervisor's.\<close>

definition run_reports ::
  "sandbox_command \<Rightarrow> execution_environment \<Rightarrow> string \<Rightarrow> string list \<Rightarrow> bounded_run \<Rightarrow> bool" where
  "run_reports c env rid secrets b \<longleftrightarrow>
     bounded_role b = (if cmd_phase c = ControlPhase then ControlRun else CandidateRun) \<and>
     run_id (bounded_result b) = rid \<and>
     run_result.run_command (bounded_result b) = display_command c \<and>
     run_environment_hash (bounded_result b) = env_hash env \<and>
     run_stdout (bounded_result b) = out_text (bounded_stdout b) \<and>
     run_stderr (bounded_result b) = out_text (bounded_stderr b) \<and>
     - 1 \<le> run_exit_code (bounded_result b) \<and> run_exit_code (bounded_result b) \<le> 255 \<and>
     0 \<le> run_duration_ms (bounded_result b) \<and>
     run_duration_ms (bounded_result b) \<le> command_timeout_ms + 5000"

lemma decode_result_ok: "decode_result h raw = Inr r \<Longrightarrow> supervisor_result_ok r"
  by (auto simp: decode_result_def read_supervisor_result_def Let_def bind_eq_Some_conv
      split: option.splits if_splits)

lemma finish_run_reports:
  assumes "finish_run c env rid secrets r = Inr b" and "supervisor_result_ok r"
  shows "run_reports c env rid secrets b \<and> bounded_run_ok b \<and> sup_termination r = None \<and>
    bounded_stdout b = sanitize_capture (sup_stdout r) secrets \<and>
    bounded_stderr b = sanitize_capture (sup_stderr r) secrets \<and>
    run_exit_code (bounded_result b) = sup_exit_code r \<and>
    run_duration_ms (bounded_result b) = sup_duration_ms r"
  using assms
  by (auto simp: finish_run_def run_reports_def Let_def and_then_Inr_iff supervisor_result_ok_def
      split: option.splits)

lemma executed_run_reports:
  assumes "execute_run h w supervisor aborted denied c env rid secrets s t = (Inr b, t')"
  shows "run_reports c env rid secrets b \<and> bounded_run_ok b \<and>
    (\<exists>raw r. decode_result h raw = Inr r \<and> sup_termination r = None \<and>
      bounded_stdout b = sanitize_capture (sup_stdout r) secrets \<and>
      bounded_stderr b = sanitize_capture (sup_stderr r) secrets \<and>
      run_exit_code (bounded_result b) = sup_exit_code r \<and>
      run_duration_ms (bounded_result b) = sup_duration_ms r)"
proof -
  obtain raw r where r: "decode_result h raw = Inr r" "finish_run c env rid secrets r = Inr b"
    using wpD_Inr [OF execute_run_wp assms] by blast
  from finish_run_reports [OF r(2) decode_result_ok [OF r(1)]] r(1) show ?thesis by blast
qed

text \<open>
  A run that executeRun returns has the role of its command's phase, the given id, the
  quoted command line, the hash of the environment, an exit code from -1 to 255 and a
  duration within the command timeout and its margin; its two texts are those of the
  captures, and no registered secret that shares no character with " [REDACTED]" occurs
  in them.
\<close>

theorem returned_run_is_faithful:
  assumes "execute_run h w supervisor aborted denied c env rid secrets s t = (Inr b, t')"
  shows "run_reports c env rid secrets b \<and>
    (\<forall>p \<in> set secrets. p \<noteq> [] \<and> set p \<inter> set '' [REDACTED]'' = {} \<longrightarrow>
      \<not> has_substring p (run_stdout (bounded_result b)) \<and>
      \<not> has_substring p (run_stderr (bounded_result b)))"
proof (rule conjI)
  note rep = executed_run_reports [OF assms]
  then show "run_reports c env rid secrets b" by blast
  from rep obtain out err where texts: "run_stdout (bounded_result b) = redact_output out secrets"
    "run_stderr (bounded_result b) = redact_output err secrets"
    by (auto simp: run_reports_def sanitize_capture_def)
  show "\<forall>p \<in> set secrets. p \<noteq> [] \<and> set p \<inter> set '' [REDACTED]'' = {} \<longrightarrow>
      \<not> has_substring p (run_stdout (bounded_result b)) \<and>
      \<not> has_substring p (run_stderr (bounded_result b))"
    unfolding texts
    by (intro ballI impI conjI redact_output_removes_secrets; elim conjE) assumption+
qed

section \<open>The supervisor's file is read back\<close>

lemma read_captured_output_json:
  "captured_output_ok c \<Longrightarrow> read_captured_output (captured_output_json c) = Some c"
  by (simp add: read_captured_output_def captured_output_json_def strict_object_def required_def
      captured_output_ok_def)

lemma read_termination_json: "nullable read_termination (termination_json k) = Some k"
proof (cases k)
  case (Some r)
  then show ?thesis by (cases r) (simp_all add: nullable_def read_termination_def)
qed (simp add: nullable_def)

lemma supervisor_ints_safe:
  assumes "supervisor_result_ok r"
  shows "safe_int (sup_duration_ms r)" and "safe_int (sup_exit_code r)"
  using assms by (auto simp: supervisor_result_ok_def safe_int_def max_safe_integer_def command_timeout_ms_def)

lemma read_supervisor_result_json:
  assumes "supervisor_result_ok r"
  shows "read_supervisor_result (supervisor_result_json r) = Some r"
proof -
  have "captured_output_ok (sup_stderr r)" "captured_output_ok (sup_stdout r)"
    using assms by (simp_all add: supervisor_result_ok_def)
  then show ?thesis
    using assms supervisor_ints_safe [OF assms]
    by (cases r) (simp add: read_supervisor_result_def supervisor_result_json_def strict_object_def required_def
        read_captured_output_json read_termination_json Let_def)
qed

lemma read_supervisor_result_json_Some:
  assumes "read_supervisor_result (supervisor_result_json r) = Some r'"
  shows "r' = r \<and> supervisor_result_ok r"
proof -
  have "read_captured_output (captured_output_json c) = Some c' \<Longrightarrow> c' = c" for c c'
    by (cases c) (auto simp: read_captured_output_def captured_output_json_def strict_object_def required_def
        split: if_splits)
  then have "r' = r"
    using assms
    by (cases r) (auto simp: read_supervisor_result_def supervisor_result_json_def required_def Let_def
        read_termination_json bind_eq_Some_conv split: if_splits)
  moreover have "supervisor_result_ok r'"
    using assms by (auto simp: read_supervisor_result_def Let_def bind_eq_Some_conv split: if_splits)
  ultimately show ?thesis by simp
qed

lemma captured_output_json_wf:
  assumes "host_numbers h" and "captured_output_ok c"
  shows "wf_json h (captured_output_json c)"
  unfolding captured_output_json_def wf_json.simps
  by (intro conjI, rule own_properties_named)
     (use assms in \<open>simp_all add: digit_char_def code_unit_def captured_output_ok_def wf_json_int\<close>)

lemma supervisor_result_json_wf:
  assumes "host_numbers h" and "supervisor_result_ok r"
  shows "wf_json h (supervisor_result_json r)"
proof -
  have "captured_output_ok (sup_stderr r)" "captured_output_ok (sup_stdout r)"
    using assms(2) by (simp_all add: supervisor_result_ok_def)
  moreover have "wf_json h (termination_json k)" for k
    by (cases k rule: termination_json.cases) simp_all
  ultimately show ?thesis
    unfolding supervisor_result_json_def wf_json.simps
    by (intro conjI, intro own_properties_named)
       (use assms supervisor_ints_safe [OF assms(2)] in
        \<open>simp_all add: digit_char_def code_unit_def wf_json_int captured_output_json_wf\<close>)
qed

lemma decode_supervisor_result:
  assumes "host_numbers h" and "supervisor_result_ok r"
    and "bytes = utf8_encode (json_text (supervisor_result_json r))"
    and "utf8_decode h bytes = Some (json_text (supervisor_result_json r))"
  shows "decode_result h (Some bytes) =
    (if int (length bytes) \<le> max_output_bytes + 64 * 1024 then Inr r else Inl (LimitError OutputInvalid))"
  using assms json_parse_wf [OF supervisor_result_json_wf [OF assms(1,2)]]
  by (simp add: decode_result_def read_supervisor_result_json)

text \<open>
  The executor reads back exactly the result that the supervisor wrote, for every result
  within the bounds of the schema, as long as the file has at most 2 MiB and 64 KiB;
  a longer file is OUTPUT_INVALID.
\<close>

theorem supervisor_result_roundtrip:
  assumes "host_numbers h" and "supervisor_result_ok r"
    and "utf8_decode h (utf8_encode (json_text (supervisor_result_json r))) =
      Some (json_text (supervisor_result_json r))"
  shows "decode_result h (Some (utf8_encode (json_text (supervisor_result_json r)))) =
    (if int (length (utf8_encode (json_text (supervisor_result_json r)))) \<le> max_output_bytes + 64 * 1024
     then Inr r else Inl (LimitError OutputInvalid))"
  by (rule decode_supervisor_result [OF assms(1,2) refl assms(3)])

definition failing_result :: supervisor_result where
  "failing_result =
     \<lparr>sup_duration_ms = 1200, sup_exit_code = 1,
      sup_stderr = \<lparr>out_original_bytes = 12, out_sha256 = replicate 64 (CHR ''a''),
        out_text = ''expected 2-1'', out_truncated = False\<rparr>,
      sup_stdout = \<lparr>out_original_bytes = 40, out_sha256 = replicate 64 (CHR ''0''),
        out_text = ''s3cret'', out_truncated = True\<rparr>,
      sup_termination = None\<rparr>"

lemma failing_result_ok: "supervisor_result_ok failing_result"
  by (simp add: supervisor_result_ok_def failing_result_def captured_output_ok_def bounded_capture_def
      command_timeout_ms_def max_output_bytes_def sample_strings_ok safe_int_def
      max_safe_integer_def utf8_encode_def utf8_unit_def code_unit_def)

lemma plain_host_numbers: "host_numbers plain_host"
  by (simp add: host_numbers_def plain_host_def)

lemma utf8_encode_ascii: "list_all (\<lambda>c. code_unit c < 128) s \<Longrightarrow> utf8_encode s = s"
  by (induction s) (simp_all add: utf8_encode_def utf8_unit_def)

lemma list_all_replicate [simp]: "list_all P (replicate n x) \<longleftrightarrow> n = 0 \<or> P x"
  by (induction n) auto

lemma failing_file:
  "utf8_encode (json_text (supervisor_result_json failing_result)) =
     json_text (supervisor_result_json failing_result)"
  "int (length (json_text (supervisor_result_json failing_result))) \<le> max_output_bytes + 64 * 1024"
  by (rule utf8_encode_ascii)
     (simp_all add: supervisor_result_json_def captured_output_json_def failing_result_def
      json_of_int_def int_text_def nat_text.simps char_of_def bit_0 json_quote_def quote_char_def
      code_unit_def max_output_bytes_def)

theorem supervisor_result_roundtrip_witness:
  "decode_result plain_host (Some (json_text (supervisor_result_json failing_result))) = Inr failing_result"
  using supervisor_result_roundtrip [OF plain_host_numbers failing_result_ok] failing_file
  by (simp add: plain_host_def)

section \<open>A run that succeeds\<close>

text \<open>A sandbox in which every command exits with 0 and every file read is the supervisor's.\<close>

definition supervised_world :: world where
  "supervised_world = steady_world
     \<lparr>file_reply := (\<lambda>_. Inr (Some (json_text (supervisor_result_json failing_result)))),
      run_reply := (\<lambda>_. Inr \<lparr>result_exit_code = 0, result_stderr = [], result_stdout = []\<rparr>)\<rparr>"

lemma launch_command_ok:
  assumes "sandbox_command_ok c" and "run_identifier_ok rid"
    and "no_control_characters dir" and "length dir \<le> 256"
  shows "sandbox_command_ok (launch_command dir c rid)"
proof -
  have "\<not> control_char x" if "alnum_char x \<or> List.member ''._-'' x" for x
    using that
    by (auto simp: control_char_def alnum_char_def lower_char_def upper_char_def digit_char_def code_unit_def)
  then have plain: "no_control_characters rid"
    using assms(2) unfolding run_identifier_ok_def identifier_ok_def no_control_characters_def list_all_iff
    by blast
  have "length rid \<le> 128" using assms(2) by (simp add: run_identifier_ok_def identifier_ok_def len_in_def)
  then show ?thesis
    using assms plain
    by (simp add: sandbox_command_ok_def launch_command_def supervisor_path_def config_path_def result_path_def)
       (simp add: no_control_characters_def control_char_def code_unit_def)
qed

lemma failing_texts:
  "redact_output ''expected 2-1'' [''s3cret''] = ''expected 2-1''"
  "redact_output ''s3cret'' [''s3cret''] = ''[REDACTED]''"
  by code_simp+

definition failing_run :: "sandbox_command \<Rightarrow> string \<Rightarrow> bounded_run" where
  "failing_run c rid =
     \<lparr>bounded_stderr = sup_stderr failing_result,
      bounded_stdout = (sup_stdout failing_result)\<lparr>out_text := ''[REDACTED]''\<rparr>,
      bounded_role = (if cmd_phase c = ControlPhase then ControlRun else CandidateRun),
      bounded_result =
        \<lparr>run_capture = None, run_id = rid, run_result.run_command = display_command c,
         run_duration_ms = 1200, run_environment_hash = env_hash sample_environment,
         run_exit_code = 1, run_stderr = ''expected 2-1'', run_stdout = ''[REDACTED]''\<rparr>\<rparr>"

lemma display_command_nonempty: "display_command c \<noteq> []"
  by (cases "cmd_args c") (simp_all add: display_command_def join_Cons json_quote_def)

lemma failing_run_ok: "rid \<noteq> [] \<Longrightarrow> bounded_run_ok (failing_run c rid)"
  by (simp add: failing_run_def failing_result_def run_result_ok_def sample_environment_def
      bounded_run_ok_def captured_output_ok_def sample_strings_ok max_output_bytes_def safe_int_def
      max_safe_integer_def display_command_nonempty)

lemma failing_run_finishes:
  assumes "rid \<noteq> []"
  shows "finish_run c sample_environment rid [''s3cret''] failing_result = Inr (failing_run c rid)"
  using failing_run_ok [OF assms, of c]
  by (simp add: finish_run_def failing_result_def sanitize_capture_def failing_texts parse_as_def
      failing_run_def bounded_run_ok_def)

lemma supervised_run:
  assumes "sandbox_command_ok c" and "experiment_phase (cmd_phase c)" and "run_identifier_ok rid"
  shows "execute_run plain_host supervised_world [] (\<lambda>_. False) True c sample_environment rid [''s3cret''] s t =
    (Inr (failing_run c rid), t @ run_calls supervised_world [] c rid s t)"
proof -
  have "no_control_characters (supervisor_directory supervised_world t)"
    "length (supervisor_directory supervised_world t) \<le> 256"
    by (simp_all add: supervisor_directory_def supervised_world_def steady_world_def sandbox_root_def
        no_control_characters_def control_char_def code_unit_def)
  note launch = launch_command_ok [OF assms(1,3) this]
  have decoded: "decode_result plain_host (Some (json_text (supervisor_result_json failing_result))) = Inr failing_result"
    using decode_supervisor_result [OF plain_host_numbers failing_result_ok refl] failing_file
    by (simp add: plain_host_def)
  have "rid \<noteq> []" using assms(3) by (auto simp: run_identifier_ok_def identifier_ok_def len_in_def)
  note finished = failing_run_finishes [OF this, of c]
  show ?thesis
    using assms launch decoded finished
    by (simp add: execute_run_def run_in_directory_def bind_def require_def parsed_def parse_as_def
        make_directory_def write_files_def perform_def catch_def run_calls_def Let_def
        Sandbox.run_command_def read_file_def lift_result_def supervised_world_def steady_world_def)
qed

lemma supervised_candidate:
  "execute_run plain_host supervised_world [] (\<lambda>_. False) True (candidate_command sample_profile 0)
     sample_environment ''candidate-1'' [''s3cret''] 0 [] =
   (Inr (failing_run (candidate_command sample_profile 0) ''candidate-1''),
    run_calls supervised_world [] (candidate_command sample_profile 0) ''candidate-1'' 0 [])"
  using supervised_run [of "candidate_command sample_profile 0" "''candidate-1''" 0 "[]"]
    plan_commands_ok(4) [OF sample_profile_ok, of 0]
  by (simp add: candidate_command_def experiment_phase_def run_identifier_ok_def identifier_ok_def
      len_in_def alnum_char_def lower_char_def digit_char_def upper_char_def code_unit_def)

theorem run_makes_four_calls_witness:
  "run_admitted (\<lambda>_. False) True (candidate_command sample_profile 0) ''candidate-1'' []"
  using run_makes_four_calls [OF supervised_candidate] by auto

theorem returned_run_is_faithful_witness:
  "\<not> has_substring ''s3cret''
     (run_stdout (bounded_result (failing_run (candidate_command sample_profile 0) ''candidate-1'')))"
  using returned_run_is_faithful [OF supervised_candidate] by simp

section \<open>All experiments of a plan\<close>

lemma run_commands_Inr:
  assumes "run_commands run i d cs t = (Inr (bs, total_ms), t')"
  shows "list_all2 (\<lambda>(j, c) b. \<exists>u u'. run j c u = (Inr b, u')) (enumerate i cs) bs \<and>
    total_ms = d + sum_list (map (\<lambda>b. run_duration_ms (bounded_result b)) bs)"
  using assms
proof (induction cs arbitrary: i d t bs total_ms)
  case Nil
  then show ?case by (simp add: ret_def)
next
  case (Cons c cs)
  from Cons.prems obtain b u bs' where b: "run i c t = (Inr b, u)" "bs = b # bs'"
    and rest: "run_commands run (i + 1) (d + run_duration_ms (bounded_result b)) cs u = (Inr (bs', total_ms), t')"
    by (auto simp: bind_Inr_iff Let_def ret_def)
  from Cons.IH [OF rest] b show ?case by auto
qed

lemma experiment_roles:
  assumes "list_all2 (\<lambda>(j, c) b. bounded_role b = (if cmd_phase c = ControlPhase then ControlRun else CandidateRun) \<and>
      run_result.run_command (bounded_result b) = display_command c) (enumerate i cs) bs"
    and "list_all (\<lambda>c. experiment_phase (cmd_phase c)) cs"
  shows "map (\<lambda>b. run_result.run_command (bounded_result b)) (filter (\<lambda>b. bounded_role b = CandidateRun) bs) =
      map display_command (filter (\<lambda>c. cmd_phase c = CandidatePhase) cs) \<and>
    map (\<lambda>b. run_result.run_command (bounded_result b)) (filter (\<lambda>b. bounded_role b = ControlRun) bs) =
      map display_command (filter (\<lambda>c. cmd_phase c = ControlPhase) cs)"
  using assms
proof (induction cs arbitrary: i bs)
  case (Cons c cs)
  from Cons.prems(1) obtain b bs' where bs: "bs = b # bs'" by (cases bs) auto
  with Cons show ?case by (auto simp: experiment_phase_def)
qed simp

lemma filter_experiments:
  "filter (\<lambda>c. cmd_phase c = CandidatePhase) (experiment_commands p) =
     filter (\<lambda>c. cmd_phase c = CandidatePhase) (plan_commands p)"
  "filter (\<lambda>c. cmd_phase c = ControlPhase) (experiment_commands p) =
     filter (\<lambda>c. cmd_phase c = ControlPhase) (plan_commands p)"
  by (simp_all add: experiment_commands_def experiment_phase_def conj_commute cong: conj_cong)

text \<open>
  \<open>execute\<close> returns one run for every experiment of the plan: its control is the run
  of the plan's control command, its candidates are the runs of the candidate commands in
  the order of the plan, as many as the plan requires, all under the one environment
  hash, and with a total duration of at most 15 minutes.
\<close>

theorem executed_plan_is_complete:
  assumes "execute_experiments h w supervisor aborted denied env p secrets s t = (Inr e, t')"
  shows "execution_plan_ok p \<and> int (length (exp_candidates e)) = plan_required_runs p \<and>
    map (\<lambda>b. run_result.run_command (bounded_result b)) (exp_candidates e) =
      map display_command (filter (\<lambda>c. cmd_phase c = CandidatePhase) (plan_commands p)) \<and>
    (\<exists>c \<in> set (plan_commands p). cmd_phase c = ControlPhase \<and>
      run_result.run_command (bounded_result (exp_control e)) = display_command c) \<and>
    list_all (\<lambda>b. run_environment_hash (bounded_result b) = env_hash env) (exp_control e # exp_candidates e) \<and>
    experiment_result_ok e"
proof -
  let ?run = "\<lambda>index c. execute_run h w supervisor aborted denied c env (experiment_id index c) secrets s"
  from assms obtain u bs total_ms where plan: "execution_plan_ok p"
    and runs: "run_commands ?run 0 0 (experiment_commands p) u = (Inr (bs, total_ms), t')"
    and ctl: "find (\<lambda>b. bounded_role b = ControlRun) bs = Some (exp_control e)"
    and cands: "exp_candidates e = filter (\<lambda>b. bounded_role b = CandidateRun) bs"
    and count: "int (length (exp_candidates e)) = plan_required_runs p"
    and ok: "experiment_result_ok e"
    by (auto simp: execute_experiments_def bind_Inr_iff Let_def raise_def split: option.splits)
  have all: "list_all2 (\<lambda>(j, c) b. \<exists>rid. run_reports c env rid secrets b) (enumerate 0 (experiment_commands p)) bs"
    using run_commands_Inr [OF runs]
    by (auto elim!: list_all2_mono dest!: executed_run_reports split: prod.splits)
  have hash: "run_environment_hash (bounded_result b) = env_hash env" if "b \<in> set bs" for b
    using all that by (auto simp: list_all2_conv_all_nth in_set_conv_nth run_reports_def nth_enumerate_eq)
  have "list_all2 (\<lambda>(j, c) b. bounded_role b = (if cmd_phase c = ControlPhase then ControlRun else CandidateRun) \<and>
      run_result.run_command (bounded_result b) = display_command c) (enumerate 0 (experiment_commands p)) bs"
    using all by (rule list_all2_mono) (auto simp: run_reports_def)
  note roles = experiment_roles [OF this, unfolded filter_experiments]
  have "list_all (\<lambda>c. experiment_phase (cmd_phase c)) (experiment_commands p)"
    by (simp add: experiment_commands_def list_all_iff)
  note roles = roles [OF this]
  from ctl have ctl': "exp_control e \<in> set (filter (\<lambda>b. bounded_role b = ControlRun) bs)"
    by (auto simp: find_Some_iff)
  then have "run_result.run_command (bounded_result (exp_control e)) \<in>
      set (map (\<lambda>b. run_result.run_command (bounded_result b)) (filter (\<lambda>b. bounded_role b = ControlRun) bs))"
    by simp
  then have "\<exists>c \<in> set (plan_commands p). cmd_phase c = ControlPhase \<and>
      run_result.run_command (bounded_result (exp_control e)) = display_command c"
    unfolding conjunct2 [OF roles] by auto
  then show ?thesis
    using plan count ok roles cands hash ctl' by (auto simp: list_all_iff)
qed

lemma run_commands_succeeds:
  assumes "\<And>j c t. (j, c) \<in> set (enumerate i cs) \<Longrightarrow> \<exists>u. run j c t = (Inr (f j c), u)"
    and "\<And>j c. (j, c) \<in> set (enumerate i cs) \<Longrightarrow> 0 \<le> run_duration_ms (bounded_result (f j c))"
    and "d + sum_list (map (\<lambda>(j, c). run_duration_ms (bounded_result (f j c))) (enumerate i cs)) \<le> max_total_attempt_ms"
  shows "\<exists>u. run_commands run i d cs t =
    (Inr (map (\<lambda>(j, c). f j c) (enumerate i cs),
      d + sum_list (map (\<lambda>(j, c). run_duration_ms (bounded_result (f j c))) (enumerate i cs))), u)"
  using assms
proof (induction cs arbitrary: i d t)
  case Nil
  then show ?case by (simp add: ret_def)
next
  case (Cons c cs)
  obtain u where u: "run i c t = (Inr (f i c), u)" using Cons.prems(1) [of i c] by auto
  let ?ms = "run_duration_ms (bounded_result (f i c))"
  let ?rest = "sum_list (map (\<lambda>(j, c). run_duration_ms (bounded_result (f j c))) (enumerate (Suc i) cs))"
  have "0 \<le> ?rest" using Cons.prems(2) by (intro sum_list_nonneg) auto
  then have "d + ?ms \<le> max_total_attempt_ms" using Cons.prems(3) by simp
  moreover obtain v where "run_commands run (i + 1) (d + ?ms) cs u =
      (Inr (map (\<lambda>(j, c). f j c) (enumerate (Suc i) cs), d + ?ms + ?rest), v)"
    using Cons.IH [of "Suc i" "d + ?ms" u] Cons.prems by (auto simp: add.assoc)
  ultimately show ?case using u by (simp add: bind_def require_def ret_def Let_def add.assoc)
qed

lemma sample_experiment_ids:
  "experiment_id 0 (control_command sample_profile) = ''control-1''"
  "experiment_id 1 (candidate_command sample_profile 0) = ''candidate-1''"
  "experiment_id 2 (candidate_command sample_profile 1) = ''candidate-2''"
  "experiment_id 3 (candidate_command sample_profile 2) = ''candidate-3''"
  by (simp_all add: experiment_id_def control_command_def candidate_command_def nat_text.simps char_of_def bit_0)

lemma sample_ids_ok:
  "run_identifier_ok ''control-1''" "run_identifier_ok ''candidate-1''"
  "run_identifier_ok ''candidate-2''" "run_identifier_ok ''candidate-3''"
  by (simp_all add: run_identifier_ok_def identifier_ok_def len_in_def alnum_char_def lower_char_def
      digit_char_def upper_char_def code_unit_def)

lemma sample_plan_ok: "execution_plan_ok sample_plan"
  using sample_plan_built
  by (auto simp: build_node_execution_plan_def and_then_Inr_iff)

lemma sample_experiments:
  "experiment_commands sample_plan =
     [control_command sample_profile, candidate_command sample_profile 0,
      candidate_command sample_profile 1, candidate_command sample_profile 2]"
  by (simp add: experiment_commands_def sample_plan_def planned_commands_def experiment_phase_def
      npm_fetch_command_def npm_install_command_def control_command_def candidate_command_def
      upt_rec numeral_eq_Suc)

lemma supervised_plan:
  "\<exists>e t'. execute_experiments plain_host supervised_world [] (\<lambda>_. False) True sample_environment
     sample_plan [''s3cret''] 0 [] = (Inr e, t')"
proof -
  let ?run = "\<lambda>index c. execute_run plain_host supervised_world [] (\<lambda>_. False) True c sample_environment
    (experiment_id index c) [''s3cret''] 0"
  let ?f = "\<lambda>index c. failing_run c (experiment_id index c)"
  let ?cs = "experiment_commands sample_plan"
  have enum: "enumerate 0 ?cs =
      [(0, control_command sample_profile), (1, candidate_command sample_profile 0),
       (2, candidate_command sample_profile 1), (3, candidate_command sample_profile 2)]"
    by (simp add: sample_experiments)
  have phases: "cmd_phase (control_command sample_profile) = ControlPhase"
    "cmd_phase (candidate_command sample_profile i) = CandidatePhase" for i
    by (simp_all add: control_command_def candidate_command_def)
  have "sandbox_command_ok c \<and> experiment_phase (cmd_phase c) \<and> run_identifier_ok (experiment_id j c)"
    if "(j, c) \<in> set (enumerate 0 ?cs)" for j c
    using that plan_commands_ok(3,4) [OF sample_profile_ok]
    unfolding enum
    by (auto simp: phases experiment_phase_def sample_experiment_ids
        sample_experiment_ids [unfolded One_nat_def] sample_ids_ok)
  then have each: "\<exists>u. ?run j c t = (Inr (?f j c), u)" if "(j, c) \<in> set (enumerate 0 ?cs)" for j c t
    using that supervised_run [of c "experiment_id j c" 0 t] by blast
  have ms: "run_duration_ms (bounded_result (failing_run c rid)) = 1200" for c rid
    by (simp add: failing_run_def)
  have valid: "bounded_run_ok (failing_run c (experiment_id i c'))" for c c' i
    by (rule failing_run_ok) (simp add: experiment_id_def)
  have roles: "bounded_role (failing_run (control_command sample_profile) rid) = ControlRun"
    "bounded_role (failing_run (candidate_command sample_profile i) rid) = CandidateRun" for i rid
    by (simp_all add: failing_run_def phases)
  obtain u where "run_commands ?run 0 0 ?cs [] = (Inr (map (\<lambda>(j, c). ?f j c) (enumerate 0 ?cs), 4800), u)"
    using run_commands_succeeds [of 0 ?cs ?run ?f 0 "[]"] each
    by (auto simp: ms enum max_total_attempt_ms_def)
  then show ?thesis
    using sample_plan_ok sample_experiments
    by (simp add: execute_experiments_def bind_def require_def parsed_def parse_as_def enum roles
        valid max_runs_def max_tool_calls_def experiment_result_ok_def
        max_total_attempt_ms_def sample_plan_def planned_commands_def)
qed

theorem executed_plan_is_complete_witness:
  "\<exists>e. length (exp_candidates e) = 3 \<and> experiment_result_ok e"
proof -
  obtain e t' where "execute_experiments plain_host supervised_world [] (\<lambda>_. False) True sample_environment
      sample_plan [''s3cret''] 0 [] = (Inr e, t')" using supervised_plan by blast
  from executed_plan_is_complete [OF this] show ?thesis by (auto simp: sample_plan_def)
qed

end
