(* ===== verification/Supervisor.thy ===== *)
theory Supervisor
  imports Bounded
begin

text \<open>
  src/src/execution/supervisor-script.ts: the program that runs beside an experiment in
  its sandbox. It captures the two output streams, watches the processes, the memory and
  the workspace of the experiment, kills its process group at the first limit, and
  writes the result that theory Bounded reads.

  The timers, the output and the end of the child are a list of events in the order in
  which Node delivers them; a tick of the monitor carries what the script reads from
  /proc and the file system at that moment. \<open>Number\<close> and the match of the VmRSS line
  are arguments.
\<close>

section \<open>Captured streams\<close>

record capture_state =
  cap_hashed :: string
  cap_chunks :: "string list"
  cap_original :: nat
  cap_retained :: nat

definition capture_empty :: capture_state where
  "capture_empty = \<lparr>cap_hashed = [], cap_chunks = [], cap_original = 0, cap_retained = 0\<rparr>"

definition capture_add :: "nat \<Rightarrow> string \<Rightarrow> capture_state \<Rightarrow> capture_state" where
  "capture_add limit bytes st =
     (let st' = st\<lparr>cap_original := cap_original st + length bytes, cap_hashed := cap_hashed st @ bytes\<rparr>
      in if cap_retained st' < limit
         then
           let retained = take (limit - cap_retained st') bytes
           in st'\<lparr>cap_chunks := cap_chunks st' @ [retained],
                  cap_retained := cap_retained st' + length retained\<rparr>
         else st')"

definition capture_result :: "js_host \<Rightarrow> (string \<Rightarrow> string) \<Rightarrow> capture_state \<Rightarrow> captured_output" where
  "capture_result h decode st =
     \<lparr>out_original_bytes = int (cap_original st), out_sha256 = sha256_hex h (cap_hashed st),
      out_text = decode (concat (cap_chunks st)),
      out_truncated = (cap_original st > cap_retained st)\<rparr>"

definition stream_limit :: nat where
  "stream_limit = nat (max_output_bytes div 2)"

section \<open>The process tree\<close>

text \<open>The text after the last closing parenthesis and the space that follows it.\<close>

definition after_name :: "string \<Rightarrow> string" where
  "after_name stat =
     (let tail = takeWhile (\<lambda>c. c \<noteq> CHR '')'') (rev stat)
      in if CHR '')'' \<in> set stat then drop 1 (rev tail) else drop 1 stat)"

definition stat_parent :: "(string option \<Rightarrow> int option) \<Rightarrow> string \<Rightarrow> int option" where
  "stat_parent number stat =
     number (case split_on (CHR '' '') (after_name stat) of _ # ppid # _ \<Rightarrow> Some ppid | _ \<Rightarrow> None)"

text \<open>
  The entries of /proc with the text of their stat file, \<open>None\<close> when it cannot be
  read. A parent that is not a number equals no process.
\<close>

definition read_parents ::
  "(string option \<Rightarrow> int option) \<Rightarrow> (string \<times> string option) list \<Rightarrow> (int \<times> int option) list" where
  "read_parents number entries =
     List.map_filter (\<lambda>(name, stat).
       if name \<noteq> [] \<and> list_all digit_char name
       then map_option (\<lambda>s. (int (digits_value 0 name), stat_parent number s)) stat
       else None) entries"

fun tree_pass :: "(int \<times> int option) list \<Rightarrow> int set \<Rightarrow> int set" where
  "tree_pass [] D = D"
| "tree_pass ((pid, parent) # rest) D =
     tree_pass rest
       (if (case parent of Some q \<Rightarrow> q \<in> D | None \<Rightarrow> False) \<and> pid \<notin> D then insert pid D else D)"

lemma tree_pass_mono: "D \<subseteq> tree_pass ps D"
  by (induction ps D rule: tree_pass.induct) (auto split: option.splits if_splits)

lemma tree_pass_bound: "tree_pass ps D \<subseteq> D \<union> fst ` set ps"
  by (induction ps D rule: tree_pass.induct) (fastforce split: option.splits if_splits)+

function tree_closure :: "(int \<times> int option) list \<Rightarrow> int set \<Rightarrow> int set" where
  "tree_closure ps D =
     (let D' = tree_pass ps D in if D' = D then D else tree_closure ps D')"
  by pat_completeness auto

termination
proof (relation "measure (\<lambda>(ps, D). card (fst ` set ps - D))")
  fix ps D D'
  assume D': "D' = tree_pass ps D" and ne: "D' \<noteq> D"
  from ne obtain x where "x \<in> D'" "x \<notin> D" using tree_pass_mono [of D ps] D' by blast
  moreover have "D' \<subseteq> D \<union> fst ` set ps" "D \<subseteq> D'" using tree_pass_bound tree_pass_mono D' by auto
  ultimately have "fst ` set ps - D' \<subset> fst ` set ps - D" by blast
  then show "((ps, D'), ps, D) \<in> measure (\<lambda>(ps, D). card (fst ` set ps - D))"
    by (simp add: psubset_card_mono)
qed simp

declare tree_closure.simps [simp del]

definition process_tree :: "(int \<times> int option) list \<Rightarrow> int \<Rightarrow> int set" where
  "process_tree parents top_pid = tree_closure parents {top_pid}"

definition resident_bytes :: "(int \<Rightarrow> int option) \<Rightarrow> int set \<Rightarrow> int" where
  "resident_bytes rss_kb pids = (\<Sum>pid\<in>pids. case rss_kb pid of Some k \<Rightarrow> k * 1024 | None \<Rightarrow> 0)"

section \<open>The size of the workspace\<close>

datatype file_kind = SymbolicLink | DirectoryFile | RegularFile | OtherFile

text \<open>What \<open>lstat\<close> and \<open>readdir\<close> answer; \<open>None\<close> when they throw.\<close>

record file_view =
  lstat :: "string \<Rightarrow> (file_kind \<times> nat) option"
  readdir :: "string \<Rightarrow> string list option"

datatype size_result = DirectoryUnreadable | TotalSize nat

text \<open>
  The list \<open>pending\<close> has its end first, where the code pushes and pops. The result is
  \<open>None\<close> if the walk does not end.
\<close>

partial_function (option) walk_workspace ::
  "file_view \<Rightarrow> nat \<Rightarrow> string list \<Rightarrow> size_result option" where
  "walk_workspace fs acc pending =
     (case pending of
        [] \<Rightarrow> Some (TotalSize acc)
      | current # rest \<Rightarrow>
          (case lstat fs current of
             None \<Rightarrow> walk_workspace fs acc rest
           | Some (SymbolicLink, n) \<Rightarrow> walk_workspace fs (acc + n) rest
           | Some (DirectoryFile, n) \<Rightarrow>
               (case readdir fs current of
                  None \<Rightarrow> Some DirectoryUnreadable
                | Some names \<Rightarrow> walk_workspace fs acc (rev (map (\<lambda>e. current @ ''/'' @ e) names) @ rest))
           | Some (RegularFile, n) \<Rightarrow> walk_workspace fs (acc + n) rest
           | Some (OtherFile, n) \<Rightarrow> walk_workspace fs acc rest))"

definition workspace_bytes :: "file_view \<Rightarrow> string \<Rightarrow> size_result option" where
  "workspace_bytes fs root_dir = walk_workspace fs 0 [root_dir]"

section \<open>Events\<close>

record system_view =
  view_proc :: "(string \<times> string option) list"
  view_rss_kb :: "int \<Rightarrow> int option"
  view_files :: file_view

datatype supervisor_event =
    OutChunk string
  | ErrChunk string
  | TimeoutFired
  | MonitorTick system_view
  | ChildError
  | ChildClosed "int option" bool

record supervisor_state =
  sup_out :: capture_state
  sup_err :: capture_state
  sup_reason :: "termination_reason option"
  sup_kills :: nat

definition terminate_child :: "termination_reason \<Rightarrow> supervisor_state \<Rightarrow> supervisor_state" where
  "terminate_child reason st =
     (if sup_reason st \<noteq> None then st
      else st\<lparr>sup_reason := Some reason, sup_kills := sup_kills st + 1\<rparr>)"

text \<open>What a tick of the monitor does: \<open>None\<close> if its walk does not end or throws.\<close>

definition monitor_tick ::
  "(string option \<Rightarrow> int option) \<Rightarrow> int \<Rightarrow> string \<Rightarrow> system_view \<Rightarrow> supervisor_state
     \<Rightarrow> supervisor_state option" where
  "monitor_tick number pid root_dir v st =
     (let processes = process_tree (read_parents number (view_proc v)) pid in
      if int (card processes) > max_processes then Some (terminate_child ProcessesExceeded st)
      else if resident_bytes (view_rss_kb v) processes > max_memory_bytes
      then Some (terminate_child MemoryExceeded st)
      else
        (case workspace_bytes (view_files v) root_dir of
           Some (TotalSize n) \<Rightarrow>
             Some (if int n > max_workspace_bytes then terminate_child WorkspaceExceeded st else st)
         | _ \<Rightarrow> None))"

definition supervisor_start :: supervisor_state where
  "supervisor_start =
     \<lparr>sup_out = capture_empty, sup_err = capture_empty, sup_reason = None, sup_kills = 0\<rparr>"

text \<open>
  The events up to the end of the child, and the exit code that the promise resolves to.
  \<open>None\<close> means that no result is written: the child has not ended, or the monitor
  threw.
\<close>

fun supervise ::
  "(string option \<Rightarrow> int option) \<Rightarrow> int \<Rightarrow> string \<Rightarrow> supervisor_event list \<Rightarrow> supervisor_state
     \<Rightarrow> (int \<times> supervisor_state) option" where
  "supervise number pid root_dir [] st = None"
| "supervise number pid root_dir (OutChunk b # es) st =
     supervise number pid root_dir es (st\<lparr>sup_out := capture_add stream_limit b (sup_out st)\<rparr>)"
| "supervise number pid root_dir (ErrChunk b # es) st =
     supervise number pid root_dir es (st\<lparr>sup_err := capture_add stream_limit b (sup_err st)\<rparr>)"
| "supervise number pid root_dir (TimeoutFired # es) st =
     supervise number pid root_dir es (terminate_child TimedOut st)"
| "supervise number pid root_dir (MonitorTick v # es) st =
     (case monitor_tick number pid root_dir v st of
        None \<Rightarrow> None
      | Some st' \<Rightarrow> supervise number pid root_dir es st')"
| "supervise number pid root_dir (ChildError # es) st =
     Some (127, if sup_reason st = None then st\<lparr>sup_reason := Some Interrupted\<rparr> else st)"
| "supervise number pid root_dir (ChildClosed code signalled # es) st =
     Some (case code of Some c \<Rightarrow> c | None \<Rightarrow> 137,
       if signalled \<and> sup_reason st = None then st\<lparr>sup_reason := Some Interrupted\<rparr> else st)"

definition supervisor_outcome ::
  "js_host \<Rightarrow> (string \<Rightarrow> string) \<Rightarrow> int \<Rightarrow> int \<Rightarrow> int \<times> supervisor_state \<Rightarrow> supervisor_result" where
  "supervisor_outcome h decode started ended = (\<lambda>(code, st).
     \<lparr>sup_duration_ms = max 0 (ended - started), sup_exit_code = code,
      sup_stderr = capture_result h decode (sup_err st),
      sup_stdout = capture_result h decode (sup_out st), sup_termination = sup_reason st\<rparr>)"

section \<open>Captures do not depend on the chunks\<close>

lemma capture_fold:
  assumes "cap_retained st = min limit (cap_original st)" and "cap_original st = length (cap_hashed st)"
    and "concat (cap_chunks st) = take limit (cap_hashed st)"
  shows "let st' = fold (capture_add limit) chunks st in
    cap_hashed st' = cap_hashed st @ concat chunks \<and>
    cap_original st' = length (cap_hashed st @ concat chunks) \<and>
    cap_retained st' = min limit (cap_original st') \<and>
    concat (cap_chunks st') = take limit (cap_hashed st @ concat chunks)"
  using assms
proof (induction chunks arbitrary: st)
  case Nil
  then show ?case by (simp add: Let_def)
next
  case (Cons b bs)
  let ?st = "capture_add limit b st"
  have "cap_hashed ?st = cap_hashed st @ b" "cap_original ?st = cap_original st + length b"
    by (simp_all add: capture_add_def Let_def)
  moreover have "cap_retained ?st = min limit (cap_original ?st)"
    using Cons.prems(1) by (auto simp: capture_add_def Let_def)
  moreover have "concat (cap_chunks ?st) = take limit (cap_hashed ?st)"
    using Cons.prems by (auto simp: capture_add_def Let_def)
  ultimately show ?case
    using Cons.IH [of ?st] Cons.prems(2) by (simp add: Let_def)
qed

lemma capture_chunks:
  "capture_result h decode (fold (capture_add limit) chunks capture_empty) =
     \<lparr>out_original_bytes = int (length (concat chunks)), out_sha256 = sha256_hex h (concat chunks),
      out_text = decode (take limit (concat chunks)),
      out_truncated = (length (concat chunks) > limit)\<rparr>"
  using capture_fold [of capture_empty limit chunks]
  by (auto simp: capture_empty_def capture_result_def Let_def)

text \<open>
  However the output of a stream is cut into chunks, the capture counts and hashes all
  of its bytes, decodes exactly the first \<open>limit\<close> of them, and says "truncated" exactly
  when there are more. It is what \<open>captureBoundedOutput\<close> gives, before redaction.
\<close>

theorem capture_ignores_chunking:
  "capture_result h decode (fold (capture_add limit) chunks capture_empty) =
     \<lparr>out_original_bytes = int (length (concat chunks)), out_sha256 = sha256_hex h (concat chunks),
      out_text = decode (take limit (concat chunks)),
      out_truncated = (length (concat chunks) > limit)\<rparr>"
  by (rule capture_chunks)

section \<open>The process tree is the set of descendants\<close>

definition child_of :: "(int \<times> int option) list \<Rightarrow> (int \<times> int) set" where
  "child_of ps = {(q, pid). (pid, Some q) \<in> set ps}"

lemma tree_pass_reachable:
  "x \<in> tree_pass ps D \<Longrightarrow> set ps \<subseteq> set qs \<Longrightarrow> \<exists>d \<in> D. (d, x) \<in> (child_of qs)\<^sup>*"
proof (induction ps D rule: tree_pass.induct)
  case (2 pid parent rest D)
  let ?D = "if (case parent of Some q \<Rightarrow> q \<in> D | None \<Rightarrow> False) \<and> pid \<notin> D then insert pid D else D"
  from 2 obtain d where d: "d \<in> ?D" "(d, x) \<in> (child_of qs)\<^sup>*" by auto
  show ?case
  proof (cases "d \<in> D")
    case False
    then obtain q where "parent = Some q" "q \<in> D" "d = pid"
      using d(1) by (auto split: if_splits option.splits)
    then have "(q, d) \<in> child_of qs" using "2.prems"(2) by (auto simp: child_of_def)
    with d(2) \<open>q \<in> D\<close> show ?thesis by (meson converse_rtrancl_into_rtrancl)
  qed (use d in blast)
qed auto

lemma tree_pass_adds: "(pid, Some q) \<in> set ps \<Longrightarrow> q \<in> D \<Longrightarrow> pid \<in> tree_pass ps D"
proof (induction ps D rule: tree_pass.induct)
  case (2 pid' parent rest D)
  then show ?case using tree_pass_mono by (fastforce split: if_splits)
qed simp

lemma tree_closure_exact: "tree_closure ps D = (child_of ps)\<^sup>* `` D"
proof (induction ps D rule: tree_closure.induct)
  case (1 ps D)
  let ?D = "tree_pass ps D"
  show ?case
  proof (cases "?D = D")
    case True
    have "child_of ps `` D \<subseteq> D"
      using tree_pass_adds [of _ _ ps D] True by (auto simp: child_of_def)
    then have "(child_of ps)\<^sup>* `` D \<subseteq> D" by (rule Image_closed_trancl [THEN equalityD1])
    then show ?thesis using True by (subst tree_closure.simps) (auto simp: Let_def)
  next
    case False
    have "?D \<subseteq> (child_of ps)\<^sup>* `` D" using tree_pass_reachable by fastforce
    then have "(child_of ps)\<^sup>* `` ?D = (child_of ps)\<^sup>* `` D"
      using tree_pass_mono [of D ps] by (blast intro: rtrancl_trans)
    then show ?thesis using 1 False by (subst tree_closure.simps) (simp add: Let_def)
  qed
qed

text \<open>
  Whatever the order of the entries in /proc, \<open>processTree\<close> ends and gives exactly the
  root process and its descendants.
\<close>

theorem process_tree_is_exact:
  "process_tree parents top_pid = {pid. (top_pid, pid) \<in> (child_of parents)\<^sup>*}"
  by (auto simp: process_tree_def tree_closure_exact)

lemma takeWhile_rev_last: "x \<notin> set v \<Longrightarrow> takeWhile (\<lambda>c. c \<noteq> x) (rev (u @ x # v)) = rev v"
  by (simp, subst takeWhile_append2) auto

text \<open>
  The parent that the script reads is the field of the kernel, whatever the name of the
  command is: a name with spaces and parentheses cannot forge it.
\<close>

theorem command_name_cannot_forge_parent:
  assumes "CHR '')'' \<notin> set state" and "CHR '')'' \<notin> set ppid" and "CHR '')'' \<notin> set rest"
    and "CHR '' '' \<notin> set state" and "CHR '' '' \<notin> set ppid"
  shows "stat_parent number (pid @ '' ('' @ name @ '') '' @ state @ '' '' @ ppid @ '' '' @ rest) =
    number (Some ppid)"
proof -
  let ?tail = "'' '' @ state @ '' '' @ ppid @ '' '' @ rest"
  let ?stat = "(pid @ '' ('' @ name) @ CHR '')'' # ?tail"
  have "takeWhile (\<lambda>c. c \<noteq> CHR '')'') (rev ?stat) = rev ?tail"
    using assms by (intro takeWhile_rev_last) auto
  then have "after_name ?stat = state @ CHR '' '' # ppid @ CHR '' '' # rest"
    unfolding after_name_def Let_def by simp
  moreover have "split_on (CHR '' '') (state @ CHR '' '' # ppid @ CHR '' '' # rest) =
      state # ppid # split_on (CHR '' '') rest"
    using assms(4,5) by (simp add: split_on_append)
  ultimately have "stat_parent number ?stat = number (Some ppid)"
    by (simp add: stat_parent_def)
  then show ?thesis by simp
qed

theorem command_name_cannot_forge_parent_witness:
  "stat_parent (Option.map_option (\<lambda>s. int (digits_value 0 s)))
     ''7 (a) S 1 (b) S 3 4 0'' = Some 3"
  using command_name_cannot_forge_parent [of "''S''" "''3''" "''4 0''"
      "Option.map_option (\<lambda>s. int (digits_value 0 s))" "''7''" "''a) S 1 (b''"]
  by (simp add: code_unit_def)

section \<open>The workspace walk\<close>

text \<open>
  \<open>occupies fs path n\<close>: what \<open>path\<close> leads to is finite and all its directories can be
  read, and its regular files and symbolic links have \<open>n\<close> bytes in all.
\<close>

inductive occupies :: "file_view \<Rightarrow> string \<Rightarrow> nat \<Rightarrow> bool" for fs where
  missing: "lstat fs p = None \<Longrightarrow> occupies fs p 0"
| link: "lstat fs p = Some (SymbolicLink, n) \<Longrightarrow> occupies fs p n"
| regular: "lstat fs p = Some (RegularFile, n) \<Longrightarrow> occupies fs p n"
| other: "lstat fs p = Some (OtherFile, n) \<Longrightarrow> occupies fs p 0"
| dir: "lstat fs p = Some (DirectoryFile, n) \<Longrightarrow> readdir fs p = Some names \<Longrightarrow>
    list_all2 (\<lambda>e k. occupies fs (p @ ''/'' @ e) k) names ks \<Longrightarrow> occupies fs p (sum_list ks)"

lemma walk_all:
  assumes "list_all2 (\<lambda>p k. \<forall>acc rest. walk_workspace fs acc (p # rest) = walk_workspace fs (acc + k) rest) ps ks"
  shows "walk_workspace fs acc (ps @ rest) = walk_workspace fs (acc + sum_list ks) rest"
  using assms
proof (induction ps arbitrary: ks acc)
  case (Cons p ps)
  then show ?case by (cases ks) (auto simp: add.assoc)
qed simp

lemma walk_occupied:
  "occupies fs p n \<Longrightarrow> walk_workspace fs acc (p # rest) = walk_workspace fs (acc + n) rest"
proof (induction arbitrary: acc rest rule: occupies.induct)
  case (dir p n names ks)
  let ?ps = "map (\<lambda>e. p @ ''/'' @ e) names"
  have "list_all2 (\<lambda>p k. \<forall>acc rest. walk_workspace fs acc (p # rest) = walk_workspace fs (acc + k) rest) ?ps ks"
    unfolding list_all2_map1 by (rule list_all2_mono [OF dir.IH]) simp
  then have "list_all2 (\<lambda>p k. \<forall>acc rest. walk_workspace fs acc (p # rest) = walk_workspace fs (acc + k) rest)
      (rev ?ps) (rev ks)" by simp
  from walk_all [OF this, of acc rest] dir.hyps show ?case
    by (subst walk_workspace.simps) (simp add: sum_list_rev)
qed (subst walk_workspace.simps, simp)+

text \<open>
  C28. On a workspace of finite depth whose directories can be read, the walk ends and gives
  the total size of the regular files and symbolic links, in whatever order the entries
  come and whatever has vanished since its directory was listed.
\<close>

theorem workspace_walk_is_exact:
  assumes "occupies fs p n"
  shows "workspace_bytes fs p = Some (TotalSize n)"
  using walk_occupied [OF assms, of 0 "[]"]
  by (simp add: workspace_bytes_def walk_workspace.simps [of fs _ "[]"])

definition small_tree :: file_view where
  "small_tree =
     \<lparr>lstat = (\<lambda>p. if p = ''/w'' then Some (DirectoryFile, 4096)
        else if p = ''/w/a'' then Some (RegularFile, 10)
        else if p = ''/w/l'' then Some (SymbolicLink, 3) else None),
      readdir = (\<lambda>p. if p = ''/w'' then Some [''a'', ''gone'', ''l''] else None)\<rparr>"

theorem workspace_walk_is_exact_witness: "workspace_bytes small_tree ''/w'' = Some (TotalSize 13)"
proof -
  have "occupies small_tree ''/w'' (sum_list [10, 0, 3])"
    by (rule occupies.dir [where names = "[''a'', ''gone'', ''l'']"])
       (auto simp: small_tree_def intro: occupies.intros)
  from workspace_walk_is_exact [OF this] show ?thesis by simp
qed

text \<open>
  A directory that can be listed in its parent but not be read - it was removed after its
  \<open>lstat\<close>, or its mode forbids it - makes the monitor throw, so that no result is
  written, however small the workspace is.
\<close>

theorem unreadable_directory_stops_supervisor:
  assumes "lstat (view_files v) root_dir = Some (DirectoryFile, n)"
    and "readdir (view_files v) root_dir = None"
    and "int (card (process_tree (read_parents number (view_proc v)) pid)) \<le> max_processes"
    and "resident_bytes (view_rss_kb v) (process_tree (read_parents number (view_proc v)) pid) \<le> max_memory_bytes"
  shows "supervise number pid root_dir (MonitorTick v # es) st = None"
proof -
  have "workspace_bytes (view_files v) root_dir = Some DirectoryUnreadable"
    using assms(1,2) by (simp add: workspace_bytes_def walk_workspace.simps)
  then show ?thesis using assms(3,4) by (simp add: monitor_tick_def Let_def)
qed

definition vanished_view :: system_view where
  "vanished_view =
     \<lparr>view_proc = [], view_rss_kb = (\<lambda>_. None),
      view_files = \<lparr>lstat = (\<lambda>p. Some (DirectoryFile, 4096)), readdir = (\<lambda>p. None)\<rparr>\<rparr>"

lemma process_tree_alone: "process_tree [] pid = {pid}"
  by (simp add: process_tree_def tree_closure.simps)

theorem unreadable_directory_stops_supervisor_witness:
  "supervise (\<lambda>_. None) 7 ''/w'' [MonitorTick vanished_view, ChildClosed (Some 0) False] supervisor_start = None"
  by (rule unreadable_directory_stops_supervisor)
     (simp_all add: vanished_view_def read_parents_def map_filter_simps process_tree_alone
        resident_bytes_def max_processes_def max_memory_bytes_def)

section \<open>The first limit is the one reported\<close>

definition exceeded :: "(string option \<Rightarrow> int option) \<Rightarrow> int \<Rightarrow> string \<Rightarrow> system_view \<Rightarrow> termination_reason option" where
  "exceeded number pid root_dir v =
     (let processes = process_tree (read_parents number (view_proc v)) pid in
      if int (card processes) > max_processes then Some ProcessesExceeded
      else if resident_bytes (view_rss_kb v) processes > max_memory_bytes then Some MemoryExceeded
      else
        (case workspace_bytes (view_files v) root_dir of
           Some (TotalSize n) \<Rightarrow> if int n > max_workspace_bytes then Some WorkspaceExceeded else None
         | _ \<Rightarrow> None))"

fun reason_of ::
  "(string option \<Rightarrow> int option) \<Rightarrow> int \<Rightarrow> string \<Rightarrow> supervisor_event \<Rightarrow> termination_reason option" where
  "reason_of number pid root_dir TimeoutFired = Some TimedOut"
| "reason_of number pid root_dir (MonitorTick v) = exceeded number pid root_dir v"
| "reason_of number pid root_dir _ = None"

fun child_end :: "supervisor_event \<Rightarrow> (int \<times> bool) option" where
  "child_end ChildError = Some (127, True)"
| "child_end (ChildClosed code signalled) = Some (case code of Some c \<Rightarrow> c | None \<Rightarrow> 137, signalled)"
| "child_end _ = None"

definition out_chunks :: "supervisor_event list \<Rightarrow> string list" where
  "out_chunks es = List.map_filter (\<lambda>e. case e of OutChunk b \<Rightarrow> Some b | _ \<Rightarrow> None) es"

definition err_chunks :: "supervisor_event list \<Rightarrow> string list" where
  "err_chunks es = List.map_filter (\<lambda>e. case e of ErrChunk b \<Rightarrow> Some b | _ \<Rightarrow> None) es"

lemma monitor_tick_reason:
  "monitor_tick number pid root_dir v st = Some st' \<Longrightarrow>
     st' = (case exceeded number pid root_dir v of None \<Rightarrow> st | Some r \<Rightarrow> terminate_child r st)"
  by (auto simp: monitor_tick_def exceeded_def Let_def split: if_splits option.splits size_result.splits)

definition reason_after ::
  "termination_reason option \<Rightarrow> termination_reason list \<Rightarrow> bool \<Rightarrow> termination_reason option" where
  "reason_after old rs signalled =
     (case old of Some r \<Rightarrow> Some r
      | None \<Rightarrow> (case rs of r # _ \<Rightarrow> Some r | [] \<Rightarrow> if signalled then Some Interrupted else None))"

lemma supervise_ends:
  "supervise number pid root_dir es st = Some (code, st') \<Longrightarrow>
    \<exists>before last after signalled. es = before @ last # after \<and> child_end last = Some (code, signalled) \<and>
      list_all (\<lambda>e. child_end e = None) before \<and>
      sup_reason st' = reason_after (sup_reason st)
        (List.map_filter (reason_of number pid root_dir) before) signalled \<and>
      sup_out st' = fold (capture_add stream_limit) (out_chunks before) (sup_out st) \<and>
      sup_err st' = fold (capture_add stream_limit) (err_chunks before) (sup_err st)"
  (is "_ \<Longrightarrow> ?P es st")
proof (induction es arbitrary: st)
  case (Cons e es)
  have step: "?P (e # es) st"
    if "?P es st1" "child_end e = None"
      "sup_reason st1 = (case reason_of number pid root_dir e of Some r \<Rightarrow>
         (case sup_reason st of Some r' \<Rightarrow> Some r' | None \<Rightarrow> Some r) | None \<Rightarrow> sup_reason st)"
      "sup_out st1 = fold (capture_add stream_limit) (out_chunks [e]) (sup_out st)"
      "sup_err st1 = fold (capture_add stream_limit) (err_chunks [e]) (sup_err st)" for st1
  proof -
    from that(1) obtain before last after signalled where
      p: "es = before @ last # after" "child_end last = Some (code, signalled)"
      "list_all (\<lambda>e. child_end e = None) before"
      "sup_reason st' = reason_after (sup_reason st1) (List.map_filter (reason_of number pid root_dir) before) signalled"
      "sup_out st' = fold (capture_add stream_limit) (out_chunks before) (sup_out st1)"
      "sup_err st' = fold (capture_add stream_limit) (err_chunks before) (sup_err st1)" by blast
    show ?thesis
      by (rule exI [of _ "e # before"], rule exI [of _ last], rule exI [of _ after], rule exI [of _ signalled])
         (use p that(2-) in \<open>auto simp: reason_after_def out_chunks_def err_chunks_def map_filter_simps
            split: option.splits\<close>)
  qed
  have ended: "?P (e # es) st"
    if "child_end e = Some (code, signalled)" "sup_out st' = sup_out st" "sup_err st' = sup_err st"
      "sup_reason st' = reason_after (sup_reason st) [] signalled" for signalled
    by (rule exI [of _ "[]"], rule exI [of _ e], rule exI [of _ es], rule exI [of _ signalled])
       (use that in \<open>simp add: out_chunks_def err_chunks_def map_filter_simps\<close>)
  show ?case
  proof (cases e)
    case (OutChunk b)
    then show ?thesis using Cons.prems
      by (intro step [OF Cons.IH [of "st\<lparr>sup_out := capture_add stream_limit b (sup_out st)\<rparr>"]])
         (simp_all add: out_chunks_def err_chunks_def map_filter_simps)
  next
    case (ErrChunk b)
    then show ?thesis using Cons.prems
      by (intro step [OF Cons.IH [of "st\<lparr>sup_err := capture_add stream_limit b (sup_err st)\<rparr>"]])
         (simp_all add: out_chunks_def err_chunks_def map_filter_simps)
  next
    case TimeoutFired
    then show ?thesis using Cons.prems
      by (intro step [OF Cons.IH [of "terminate_child TimedOut st"]])
         (simp_all add: out_chunks_def err_chunks_def map_filter_simps terminate_child_def split: option.splits)
  next
    case (MonitorTick v)
    with Cons.prems obtain st1 where st1: "monitor_tick number pid root_dir v st = Some st1"
      "supervise number pid root_dir es st1 = Some (code, st')" by (auto split: option.splits)
    from monitor_tick_reason [OF st1(1)] show ?thesis
      using MonitorTick
      by (intro step [OF Cons.IH [OF st1(2)]])
         (simp_all add: out_chunks_def err_chunks_def map_filter_simps terminate_child_def split: option.splits)
  next
    case ChildError
    then show ?thesis using Cons.prems by (intro ended [of True]) (auto simp: reason_after_def split: option.splits)
  next
    case (ChildClosed c sgn)
    then show ?thesis using Cons.prems by (intro ended [of sgn]) (auto simp: reason_after_def split: option.splits if_splits)
  qed
qed simp

text \<open>
  When the supervisor writes a result, the events split at the end of the child; the
  termination it reports is the first limit that an event before that end showed
  exceeded - a later one never replaces it - and else "provider-interrupted" exactly when
  the child was ended by a signal or could not be started; the captures hold all the
  output before the end of the child.
\<close>

theorem first_limit_is_reported:
  assumes "supervise number pid root_dir es supervisor_start = Some (code, st)"
  shows "\<exists>before last after signalled. es = before @ last # after \<and>
    child_end last = Some (code, signalled) \<and> list_all (\<lambda>e. child_end e = None) before \<and>
    sup_reason st =
      (case List.map_filter (reason_of number pid root_dir) before of
         r # _ \<Rightarrow> Some r
       | [] \<Rightarrow> if signalled then Some Interrupted else None) \<and>
    out_original_bytes (capture_result h decode (sup_out st)) = int (length (concat (out_chunks before))) \<and>
    out_original_bytes (capture_result h decode (sup_err st)) = int (length (concat (err_chunks before)))"
proof -
  obtain before last after signalled where split: "es = before @ last # after"
      "child_end last = Some (code, signalled)" "list_all (\<lambda>e. child_end e = None) before"
    and st: "sup_reason st = reason_after None (List.map_filter (reason_of number pid root_dir) before) signalled"
      "sup_out st = fold (capture_add stream_limit) (out_chunks before) capture_empty"
      "sup_err st = fold (capture_add stream_limit) (err_chunks before) capture_empty"
    using supervise_ends [OF assms] by (auto simp: supervisor_start_def)
  show ?thesis
    by (rule exI [of _ before], rule exI [of _ last], rule exI [of _ after], rule exI [of _ signalled])
       (use split in \<open>simp add: st capture_chunks reason_after_def\<close>)
qed

theorem first_limit_is_reported_witness:
  "\<exists>st. supervise (\<lambda>_. None) 7 ''/w'' [OutChunk ''ab'', TimeoutFired, ChildClosed None True] supervisor_start = Some (137, st) \<and>
     out_original_bytes (capture_result plain_host id (sup_out st)) = 2"
proof -
  obtain st where st: "supervise (\<lambda>_. None) 7 ''/w'' [OutChunk ''ab'', TimeoutFired, ChildClosed None True]
      supervisor_start = Some (137, st)" by simp
  from first_limit_is_reported [OF st, where h = plain_host and decode = id] obtain before last after signalled where
    split: "[OutChunk ''ab'', TimeoutFired, ChildClosed None True] = before @ last # after"
    "child_end last = Some (137, signalled)"
    and bytes: "out_original_bytes (capture_result plain_host id (sup_out st)) = int (length (concat (out_chunks before)))"
    by blast
  from split have "before = [OutChunk ''ab'', TimeoutFired]"
    by (auto simp: Cons_eq_append_conv)
  with bytes st show ?thesis by (simp add: out_chunks_def map_filter_simps)
qed

section \<open>Output that is not UTF-8\<close>

lemma grown_capture_refused:
  assumes "length bytes < length (utf8_encode (decode bytes))"
    and "out_text c = decode bytes" and "out_original_bytes c = int (length bytes)"
  shows "\<not> bounded_capture c"
  using assms by (simp add: bounded_capture_def Let_def)

text \<open>
  \<open>Buffer.toString\<close> replaces each malformed sequence by a character that takes up to
  three bytes. When the retained output grows that way, the executor's comparison of its
  encoded length with the number of output bytes fails, and the result is refused as a
  whole, whatever the run did.
\<close>

theorem malformed_output_is_refused:
  assumes "supervise number pid root_dir es supervisor_start = Some (code, st)"
    and "bytes = concat (cap_chunks (sup_out st))" and "cap_original (sup_out st) = length bytes"
    and "length bytes < length (utf8_encode (decode bytes))"
  shows "read_supervisor_result (supervisor_result_json
      (supervisor_outcome h decode started ended (code, st))) = None"
proof -
  let ?r = "supervisor_outcome h decode started ended (code, st)"
  have "\<not> bounded_capture (sup_stdout ?r)"
    using assms(2-) by (intro grown_capture_refused [of bytes decode])
      (simp_all add: supervisor_outcome_def capture_result_def)
  then have "\<not> supervisor_result_ok ?r" by (simp add: supervisor_result_ok_def)
  then show ?thesis using read_supervisor_result_json_Some [of ?r] by (cases "read_supervisor_result (supervisor_result_json ?r)") auto
qed

lemma high_byte_grows: "length (utf8_encode [CHR 0xFF]) = 2"
  by (simp add: utf8_encode_def utf8_unit_def code_unit_def)

theorem malformed_output_is_refused_witness:
  "\<exists>st. supervise (\<lambda>_. None) 7 ''/w'' [OutChunk [CHR 0xFF], ChildClosed (Some 1) False] supervisor_start = Some (1, st) \<and>
     read_supervisor_result (supervisor_result_json (supervisor_outcome plain_host id 0 5 (1, st))) = None"
proof -
  obtain st where st: "supervise (\<lambda>_. None) 7 ''/w'' [OutChunk [CHR 0xFF], ChildClosed (Some 1) False]
      supervisor_start = Some (1, st)" "sup_out st = capture_add stream_limit [CHR 0xFF] capture_empty"
    by (simp add: supervisor_start_def)
  then have "concat (cap_chunks (sup_out st)) = [CHR 0xFF]" "cap_original (sup_out st) = 1"
    by (simp_all add: capture_add_def capture_empty_def Let_def stream_limit_def max_output_bytes_def)
  from malformed_output_is_refused [OF st(1), where bytes = "[CHR 0xFF]" and decode = id] this show ?thesis
    using st(1) high_byte_grows by auto
qed

end
