(* ===== verification/Acquisition.thy ===== *)
theory Acquisition
  imports Planning
begin

text \<open>
  src/src/execution/github-source-acquisition.ts: the download of a repository archive
  under an ephemeral credential, its inspection in a sandbox without network, the
  parsing of tar's listing, and the extraction.

  The URL of the second request is the text of the redirect that was checked. That the
  archive's bytes are overwritten after use is not visible in the model.
\<close>

definition acquisition_workspace :: string where
  "acquisition_workspace = sandbox_workspace_root @ ''/acquisition''"

definition archive_name :: string where
  "archive_name = ''source.tar.gz''"

record acquired_source =
  acquired_manifest :: archive_manifest
  acquired_provenance :: source_provenance
  acquired_workspace :: string

section \<open>The listing of tar\<close>

definition ends_with :: "string \<Rightarrow> string \<Rightarrow> bool" where
  "ends_with suffix s \<longleftrightarrow> starts_with (rev suffix) (rev s)"

fun tar_entry_type :: "char \<Rightarrow> entry_type option" where
  "tar_entry_type c =
     (if c = CHR ''-'' then Some FileEntry
      else if c = CHR ''d'' then Some DirectoryEntry
      else if c = CHR ''l'' then Some SymlinkEntry
      else if c = CHR ''h'' then Some HardlinkEntry
      else if c = CHR ''b'' \<or> c = CHR ''c'' then Some DeviceEntry
      else if c = CHR ''p'' then Some FifoEntry
      else if c = CHR ''s'' then Some SocketEntry
      else None)"

text \<open>Scanners for the parts of the expression: each gives the rest of the line.\<close>

definition skip_spaces :: "string \<Rightarrow> string option" where
  "skip_spaces s = (if s \<noteq> [] \<and> space_char (hd s) then Some (dropWhile space_char s) else None)"

definition take_number :: "string \<Rightarrow> (string \<times> string) option" where
  "take_number s =
     (if s \<noteq> [] \<and> digit_char (hd s) then Some (takeWhile digit_char s, dropWhile digit_char s)
      else None)"

definition skip_char :: "char \<Rightarrow> string \<Rightarrow> string option" where
  "skip_char c s = (case s of d # rest \<Rightarrow> if d = c then Some rest else None | [] \<Rightarrow> None)"

definition skip_digits :: "nat \<Rightarrow> string \<Rightarrow> string option" where
  "skip_digits n s =
     (if n \<le> length s \<and> list_all digit_char (take n s) then Some (drop n s) else None)"

fun skip_all :: "(string \<Rightarrow> string option) list \<Rightarrow> string \<Rightarrow> string option" where
  "skip_all [] s = Some s"
| "skip_all (f # fs) s = Option.bind (f s) (skip_all fs)"

definition skip_owner :: "string \<Rightarrow> string option" where
  "skip_owner s =
     Option.bind (take_number s) (\<lambda>(_, r).
     Option.bind (skip_char (CHR ''/'') r) (\<lambda>r. map_option snd (take_number r)))"

definition skip_date :: "string \<Rightarrow> string option" where
  "skip_date = skip_all
     [skip_digits 4, skip_char (CHR ''-''), skip_digits 2, skip_char (CHR ''-''), skip_digits 2]"

definition skip_time :: "string \<Rightarrow> string option" where
  "skip_time = skip_all
     [skip_digits 2, skip_char (CHR '':''), skip_digits 2, skip_char (CHR '':''), skip_digits 2]"

definition skip_fraction :: "string \<Rightarrow> string" where
  "skip_fraction s =
     (case Option.bind (skip_char (CHR ''.'') s) take_number of Some (_, r) \<Rightarrow> r | None \<Rightarrow> s)"

definition line_end_char :: "char \<Rightarrow> bool" where
  "line_end_char c \<longleftrightarrow> code_unit c = 10 \<or> code_unit c = 13"

text \<open>\<open>\s+(.+)$\<close>; when only spaces are left, the last of them is the path.\<close>

definition tar_path :: "string \<Rightarrow> string option" where
  "tar_path s =
     Option.bind (skip_spaces s) (\<lambda>r.
       if r = [] then
         (if 2 \<le> length s \<and> \<not> line_end_char (last s) then Some [last s] else None)
       else if list_ex line_end_char r then None else Some r)"

definition tar_zone :: "string \<Rightarrow> string option" where
  "tar_zone s =
     Option.bind (skip_spaces s) (\<lambda>r.
       case r of c # ds \<Rightarrow> if c = CHR ''+'' \<or> c = CHR ''-'' then skip_digits 4 ds else None
       | [] \<Rightarrow> None)"

text \<open>The zone is optional: the path is tried after it and, if that fails, in its place.\<close>

definition tar_tail :: "string \<Rightarrow> string option" where
  "tar_tail s =
     (case Option.bind (tar_zone s) tar_path of Some p \<Rightarrow> Some p | None \<Rightarrow> tar_path s)"

definition parse_tar_line :: "string \<Rightarrow> archive_entry option" where
  "parse_tar_line line =
     (case line of
        [] \<Rightarrow> None
      | m # s \<Rightarrow>
          Option.bind (tar_entry_type m) (\<lambda>kind.
          Option.bind (skip_spaces (dropWhile (\<lambda>c. \<not> space_char c) s)) (\<lambda>r.
          Option.bind (skip_owner r) (\<lambda>r.
          Option.bind (skip_spaces r) (\<lambda>r.
          Option.bind (take_number r) (\<lambda>(n, r).
          Option.bind (skip_spaces r) (\<lambda>r.
          Option.bind (skip_date r) (\<lambda>r.
          Option.bind (skip_spaces r) (\<lambda>r.
          Option.bind (skip_time r) (\<lambda>r.
          map_option
            (\<lambda>raw. \<lparr>archive_path =
                (if kind = DirectoryEntry \<and> ends_with ''/'' raw then butlast raw else raw),
               archive_size = int (digits_value 0 n), archive_type = kind\<rparr>)
            (tar_tail (skip_fraction r))))))))))))"

fun parse_lines :: "string list \<Rightarrow> thrown + archive_entry list" where
  "parse_lines [] = Inr []"
| "parse_lines (l # ls) =
     (case parse_tar_line l of
        None \<Rightarrow> Inl (AcquisitionError ArchiveInspectionFailed)
      | Some e \<Rightarrow> and_then (parse_lines ls) (\<lambda>es. Inr (e # es)))"

definition parse_tar_listing :: "string \<Rightarrow> thrown + archive_entry list" where
  "parse_tar_listing listing =
     (let nl = char_of (10 :: nat);
          lines = (if ends_with [nl] listing then split_on nl (butlast listing) else split_on nl listing)
      in if lines = [] \<or> list_ex (\<lambda>l. length l = 0) lines
         then Inl (AcquisitionError ArchiveInspectionFailed)
         else parse_lines lines)"

section \<open>The download\<close>

definition archive_url :: "repository_source \<Rightarrow> string" where
  "archive_url s =
     (let parts = split_on (CHR ''/'') (source_full_name s) in
      ''https://api.github.com/repos/'' @ hd parts @ ''/'' @ (if tl parts = [] then ''undefined'' else hd (tl parts)) @
      ''/tarball/'' @ source_commit s)"

definition archive_redirect :: "js_host \<Rightarrow> http_response \<Rightarrow> thrown + string" where
  "archive_redirect h r =
     (case response_location r of
        None \<Rightarrow> Inl (AcquisitionError ArchiveDownloadFailed)
      | Some location \<Rightarrow>
          if location = [] then Inl (AcquisitionError ArchiveDownloadFailed)
          else
            (case parse_url h location of
               None \<Rightarrow> Inl (AcquisitionError ArchiveDownloadFailed)
             | Some target \<Rightarrow>
                 if url_protocol target \<noteq> ''https:'' \<or> url_hostname target \<noteq> ''codeload.github.com'' \<or>
                    url_port target \<noteq> [] \<or> url_username target \<noteq> [] \<or> url_password target \<noteq> [] \<or>
                    url_hash target \<noteq> []
                 then Inl (AcquisitionError ArchiveDownloadFailed)
                 else Inr location))"

definition decimal_text :: "string \<Rightarrow> bool" where
  "decimal_text s \<longleftrightarrow> s \<noteq> [] \<and> list_all digit_char s \<and> (length s = 1 \<or> hd s \<noteq> CHR ''0'')"

fun read_chunks :: "nat \<Rightarrow> string list \<Rightarrow> string list \<Rightarrow> bool \<Rightarrow> thrown + string" where
  "read_chunks got chunks [] broken =
     (if broken then Inl (Foreign []) else Inr (concat chunks))"
| "read_chunks got chunks (c # cs) broken =
     (let got' = got + length c in
      if int got' > max_archive_bytes then Inl (AcquisitionError ArchiveLimitExceeded)
      else read_chunks got' (chunks @ [c]) cs broken)"

definition read_bounded_archive :: "http_response \<Rightarrow> thrown + string" where
  "read_bounded_archive r =
     and_then
       (case response_length r of
          None \<Rightarrow> Inr ()
        | Some raw \<Rightarrow>
            let normalized = js_trim raw in
            if \<not> decimal_text normalized then Inl (AcquisitionError ArchiveDownloadFailed)
            else if int (digits_value 0 normalized) > max_archive_bytes
            then Inl (AcquisitionError ArchiveLimitExceeded)
            else Inr ())
       (\<lambda>_.
        case response_chunks r of
          None \<Rightarrow> Inl (AcquisitionError ArchiveDownloadFailed)
        | Some cs \<Rightarrow> read_chunks 0 [] cs (response_broken r))"

definition keep_acquisition_error :: "acquisition_code \<Rightarrow> thrown \<Rightarrow> 'a prog" where
  "keep_acquisition_error code e =
     raise (case e of AcquisitionError k \<Rightarrow> AcquisitionError k | _ \<Rightarrow> AcquisitionError code)"

definition http_get :: "world \<Rightarrow> string \<Rightarrow> string option \<Rightarrow> bool \<Rightarrow> http_response prog" where
  "http_get w u auth manual = perform (HttpGet u auth manual) (http_reply w)"

definition download_github_archive ::
  "js_host \<Rightarrow> world \<Rightarrow> string option \<Rightarrow> repository_source \<Rightarrow> string prog" where
  "download_github_archive h w auth raw =
     bind (parsed repository_source_ok raw) (\<lambda>src.
     catch
       (bind (http_get w (archive_url src) auth True) (\<lambda>redirect.
        bind (require (response_status redirect = 302) (AcquisitionError ArchiveDownloadFailed)) (\<lambda>_.
        bind (lift_result (archive_redirect h redirect)) (\<lambda>target.
        bind (http_get w target None False) (\<lambda>archive.
        bind (require (200 \<le> response_status archive \<and> response_status archive \<le> 299)
          (AcquisitionError ArchiveDownloadFailed)) (\<lambda>_.
        lift_result (read_bounded_archive archive)))))))
       (keep_acquisition_error ArchiveDownloadFailed))"

section \<open>The acquisition\<close>

definition acquisition_command :: "string list \<Rightarrow> tool \<Rightarrow> int \<Rightarrow> sandbox_command" where
  "acquisition_command args exe timeout =
     \<lparr>cmd_args = args, cmd_cwd = acquisition_workspace, cmd_executable = exe,
      cmd_phase = SourceAcquisition, cmd_timeout_ms = timeout\<rparr>"

definition measure_command :: sandbox_command where
  "measure_command = acquisition_command
     [''-e'', ''const{statSync}=require('' @ [CHR 0x27] @ ''node:fs'' @ [CHR 0x27] @
        '');process.stdout.write(String(statSync(process.argv[1]).size))'', archive_name]
     NodeTool 10000"

definition hash_command :: sandbox_command where
  "hash_command = acquisition_command [archive_name] Sha256sum 120000"

definition list_command :: sandbox_command where
  "list_command = acquisition_command
     [''--list'', ''--verbose'', ''--gzip'', ''--numeric-owner'', ''--full-time'',
      ''--quoting-style=escape'', ''--file'', archive_name] Tar 120000"

definition extract_command :: sandbox_command where
  "extract_command = acquisition_command
     [''--extract'', ''--gzip'', ''--file'', archive_name, ''--directory'', source_workspace,
      ''--strip-components'', ''1'', ''--no-same-owner'', ''--no-same-permissions'',
      ''--delay-directory-restore''] Tar 120000"

definition decode_text :: "js_host \<Rightarrow> string \<Rightarrow> thrown + string" where
  "decode_text h bytes = (case utf8_decode h bytes of None \<Rightarrow> Inl (Foreign []) | Some s \<Rightarrow> Inr s)"

text \<open>The digest at the start of sha256sum's line, when the rest names the archive.\<close>

definition hash_match :: "string \<Rightarrow> string option" where
  "hash_match s =
     (let d = take 64 s; r = drop 64 s in
      if sha256_string d
      then Option.bind (skip_spaces r) (\<lambda>r'.
        if starts_with archive_name r' \<and> list_all space_char (drop (length archive_name) r')
        then Some d else None)
      else None)"

definition read_inspection ::
  "js_host \<Rightarrow> command_result \<Rightarrow> command_result \<Rightarrow> command_result \<Rightarrow> thrown + archive_manifest" where
  "read_inspection h measured hashed listed =
     and_then (check (result_exit_code measured = 0 \<and> result_exit_code hashed = 0 \<and>
         result_exit_code listed = 0) (AcquisitionError ArchiveInspectionFailed)) (\<lambda>_.
     and_then (decode_text h (result_stdout measured)) (\<lambda>size_text.
     and_then (check (decimal_text (js_trim size_text)) (AcquisitionError ArchiveInspectionFailed)) (\<lambda>_.
     and_then (decode_text h (result_stdout hashed)) (\<lambda>hash_text.
     (case hash_match hash_text of
        None \<Rightarrow> Inl (AcquisitionError ArchiveInspectionFailed)
      | Some digest \<Rightarrow>
          and_then (decode_text h (result_stdout listed)) (\<lambda>listing.
          and_then (parse_tar_listing listing) (\<lambda>entries.
            (case validate_archive_manifest h
                \<lparr>input_bytes = int (digits_value 0 (js_trim size_text)), input_sha256 = digest,
                 input_entries = entries\<rparr> of
               Inl (ValidationError _) \<Rightarrow> Inl (AcquisitionError UnsafeArchive)
             | r \<Rightarrow> r))))))))"

definition inspect_archive :: "js_host \<Rightarrow> world \<Rightarrow> session \<Rightarrow> archive_manifest prog" where
  "inspect_archive h w s =
     catch
       (bind (run_command w s measure_command) (\<lambda>measured.
        bind (run_command w s hash_command) (\<lambda>hashed.
        bind (run_command w s list_command) (\<lambda>listed.
        lift_result (read_inspection h measured hashed listed)))))
       (keep_acquisition_error ArchiveInspectionFailed)"

definition credential_usable :: "world \<Rightarrow> int option \<Rightarrow> unit prog" where
  "credential_usable w expires t =
     require (case expires of None \<Rightarrow> False | Some x \<Rightarrow> x > clock_now w t + 30000)
       (AcquisitionError CredentialUnavailable) t"

definition obtain_archive :: "js_host \<Rightarrow> world \<Rightarrow> repository_source \<Rightarrow> string prog" where
  "obtain_archive h w src =
     catch
       (if source_private src
        then
          bind (perform (BorrowCredential src) (credential_reply w)) (\<lambda>(auth, expires).
          bind (credential_usable w expires) (\<lambda>_.
          download_github_archive h w (if auth = [] then None else Some auth) src))
        else download_github_archive h w None src)
       (keep_acquisition_error CredentialUnavailable)"

definition current_time :: "world \<Rightarrow> int prog" where
  "current_time w t = (Inr (clock_now w t), t)"

definition acquire_source ::
  "js_host \<Rightarrow> world \<Rightarrow> session \<Rightarrow> repository_source \<Rightarrow> acquired_source prog" where
  "acquire_source h w s raw =
     bind (parsed repository_source_ok raw) (\<lambda>src.
     bind (catch (set_network_policy w s DenyAll)
       (\<lambda>_. raise (AcquisitionError AcquisitionLockdownFailed))) (\<lambda>_.
     bind (make_directory w s sandbox_workspace_root) (\<lambda>_.
     bind (make_directory w s acquisition_workspace) (\<lambda>_.
     bind (make_directory w s source_workspace) (\<lambda>_.
     bind (obtain_archive h w src) (\<lambda>bytes.
     bind (catch (write_files w s [(acquisition_workspace @ ''/'' @ archive_name, bytes)])
       (\<lambda>_. raise (AcquisitionError ArchiveDownloadFailed))) (\<lambda>_.
     bind (inspect_archive h w s) (\<lambda>manifest.
     bind (run_command w s extract_command) (\<lambda>extracted.
     bind (require (result_exit_code extracted = 0) (AcquisitionError ExtractionFailed)) (\<lambda>_.
     bind (current_time w) (\<lambda>now.
     bind (lift_result (create_source_provenance h now manifest src)) (\<lambda>prov.
       ret \<lparr>acquired_manifest = manifest, acquired_provenance = prov,
            acquired_workspace = source_workspace\<rparr>))))))))))))"

section \<open>The bounded download is exact\<close>

lemma read_chunks_exact:
  "read_chunks got done cs broken =
     (if int (got + length (concat cs)) > max_archive_bytes \<and> 0 \<le> max_archive_bytes - int got
      then Inl (AcquisitionError ArchiveLimitExceeded)
      else if broken then Inl (Foreign []) else Inr (concat done @ concat cs))"
  if "int got \<le> max_archive_bytes"
  using that
proof (induction cs arbitrary: got "done")
  case (Cons c cs)
  show ?case
  proof (cases "int (got + length c) \<le> max_archive_bytes")
    case True
    then show ?thesis using Cons.IH [of "got + length c" "done @ [c]"] Cons.prems by (simp add: add.assoc)
  next
    case False
    then show ?thesis using Cons.prems by simp
  qed
qed simp

definition declared_length_ok :: "http_response \<Rightarrow> bool" where
  "declared_length_ok r \<longleftrightarrow>
     (case response_length r of None \<Rightarrow> True
      | Some raw \<Rightarrow> decimal_text (js_trim raw) \<and> int (digits_value 0 (js_trim raw)) \<le> max_archive_bytes)"

text \<open>
  \<open>readBoundedArchive\<close> returns a body exactly when a declared length is a decimal number
  within the limit, the stream ends properly and the bytes that arrive - whatever the
  declared length was - are at most 100 MiB; it then returns all of them in order.
\<close>

theorem bounded_download_is_exact:
  "read_bounded_archive r = Inr bytes \<longleftrightarrow>
     declared_length_ok r \<and> \<not> response_broken r \<and>
     (\<exists>cs. response_chunks r = Some cs \<and> bytes = concat cs) \<and> int (length bytes) \<le> max_archive_bytes"
  by (auto simp: read_bounded_archive_def declared_length_ok_def and_then_Inr_iff Let_def
      read_chunks_exact max_archive_bytes_def split: option.splits if_splits)

section \<open>The listing is read back\<close>

text \<open>A line as tar prints it: mode, owner and group ids, size, date, time and path.\<close>

fun type_char :: "entry_type \<Rightarrow> char" where
  "type_char FileEntry = CHR ''-''"
| "type_char DirectoryEntry = CHR ''d''"
| "type_char SymlinkEntry = CHR ''l''"
| "type_char HardlinkEntry = CHR ''h''"
| "type_char DeviceEntry = CHR ''b''"
| "type_char FifoEntry = CHR ''p''"
| "type_char SocketEntry = CHR ''s''"

definition print_tar_line :: "string \<Rightarrow> nat \<Rightarrow> nat \<Rightarrow> archive_entry \<Rightarrow> string" where
  "print_tar_line mode uid gid e =
     type_char (archive_type e) # mode @ '' '' @ nat_text uid @ ''/'' @ nat_text gid @ '' '' @
     nat_text (nat (archive_size e)) @ '' 2026-01-31 23:59:59 '' @ archive_path e @
     (if archive_type e = DirectoryEntry then ''/'' else [])"

lemma space_not_digit: "space_char c \<Longrightarrow> \<not> digit_char c"
  by (auto simp: space_char_def digit_char_def code_unit_def)

lemma scan_space: "\<not> space_char c \<Longrightarrow> skip_spaces (CHR '' '' # c # s) = Some (c # s)"
  by (simp add: skip_spaces_def space_char_def code_unit_def)

lemma nat_text_split: "\<exists>c cs. nat_text n = c # cs \<and> digit_char c"
proof -
  obtain c cs where "nat_text n = c # cs" by (cases "nat_text n") auto
  with nat_text_digits [of c n] show ?thesis by auto
qed

lemma scan_number:
  assumes "\<not> digit_char c"
  shows "take_number (nat_text n @ c # s) = Some (nat_text n, c # s)"
proof -
  obtain d ds where d: "nat_text n = d # ds" "digit_char d" using nat_text_split by blast
  have "\<forall>x \<in> set (nat_text n). digit_char x" using nat_text_digits by blast
  then have "takeWhile digit_char (nat_text n @ c # s) = nat_text n"
    "dropWhile digit_char (nat_text n @ c # s) = c # s"
    using assms by (simp_all add: takeWhile_append2 dropWhile_append2)
  then show ?thesis using d by (simp add: take_number_def)
qed

lemma skip_space_number: "skip_spaces (CHR '' '' # nat_text n @ s) = Some (nat_text n @ s)"
proof -
  obtain d ds where "nat_text n = d # ds" "digit_char d" using nat_text_split by blast
  then show ?thesis using scan_space [of d "ds @ s"] space_not_digit by auto
qed

lemma tar_line_read:
  assumes "list_all (\<lambda>c. \<not> space_char c) mode" and "0 \<le> archive_size e"
    and path: "archive_path e = c # cs" "\<not> space_char c" "c \<noteq> CHR ''+''" "c \<noteq> CHR ''-''"
      "\<not> list_ex line_end_char (archive_path e)" "\<not> ends_with ''/'' (archive_path e)"
  shows "parse_tar_line (print_tar_line mode uid gid e) = Some e"
proof -
  let ?p = "archive_path e @ (if archive_type e = DirectoryEntry then ''/'' else [])"
  let ?r3 = "CHR '' '' # ?p"
  let ?r2 = "''2026-01-31 23:59:59'' @ ?r3"
  have blank: "space_char (CHR '' '')" "\<not> digit_char (CHR '' '')" "\<not> digit_char (CHR ''/'')"
    by (simp_all add: space_char_def digit_char_def code_unit_def)
  have mode: "dropWhile (\<lambda>c. \<not> space_char c) (mode @ CHR '' '' # s) = CHR '' '' # s" for s
    using assms(1) blank by (simp add: dropWhile_append2 list_all_iff)
  have path': "?p = c # cs @ (if archive_type e = DirectoryEntry then ''/'' else [])"
    using path(1) by simp
  have no_zone: "tar_zone ?r3 = None"
    unfolding path' tar_zone_def using path(2-4) by (simp add: scan_space)
  have no_end: "\<not> list_ex line_end_char ?p"
    using path(5) by (simp add: line_end_char_def code_unit_def)
  have "tar_path ?r3 = Some ?p"
    using no_end unfolding path' tar_path_def using path(2) by (simp add: scan_space)
  then have tail: "tar_tail (skip_fraction ?r3) = Some ?p"
    using no_zone by (simp add: tar_tail_def skip_fraction_def skip_char_def)
  have clock: "skip_spaces (CHR '' '' # ?r2) = Some ?r2"
    "skip_date ?r2 = Some (CHR '' '' # ''23:59:59'' @ ?r3)"
    "skip_spaces (CHR '' '' # ''23:59:59'' @ ?r3) = Some (''23:59:59'' @ ?r3)"
    "skip_time (''23:59:59'' @ ?r3) = Some ?r3"
    by (simp_all add: skip_date_def skip_time_def skip_digits_def skip_char_def skip_spaces_def
        space_char_def digit_char_def code_unit_def numeral_eq_Suc)
  have owner: "skip_owner (nat_text uid @ CHR ''/'' # nat_text gid @ CHR '' '' # s) = Some (CHR '' '' # s)" for s
    using scan_number [OF blank(3)] scan_number [OF blank(2)] by (simp add: skip_owner_def skip_char_def)
  have kind_val: "tar_entry_type (type_char (archive_type e)) = Some (archive_type e)"
    by (cases "archive_type e") simp_all
  have size_val: "int (digits_value 0 (nat_text (nat (archive_size e)))) = archive_size e"
    using assms(2) by (simp add: digits_value_nat_text)
  have raw: "(if archive_type e = DirectoryEntry \<and> ends_with ''/'' ?p then butlast ?p else ?p) = archive_path e"
    using path(6) by (auto simp: ends_with_def)
  have line: "print_tar_line mode uid gid e =
      type_char (archive_type e) # mode @ CHR '' '' # nat_text uid @ CHR ''/'' # nat_text gid @ CHR '' '' #
      nat_text (nat (archive_size e)) @ CHR '' '' # ?r2"
    by (simp add: print_tar_line_def)
  show ?thesis
    unfolding line parse_tar_line_def list.case mode kind_val skip_space_number owner bind.bind_lunit
      scan_number [OF blank(2)] prod.case clock(1) clock(2) clock(3) clock(4) tail option.map(2)
    using raw size_val by simp
qed

text \<open>
  A line of tar's verbose listing gives back its entry, whatever the mode, the owner and
  the path are, as long as the mode has no space, and the path has no line end, does not
  begin with a space or a sign, and does not end in a slash.
\<close>

theorem tar_listing_roundtrip:
  assumes "list_all (\<lambda>c. \<not> space_char c) mode" and "0 \<le> archive_size e"
    and "archive_path e = c # cs" and "\<not> space_char c" and "c \<noteq> CHR ''+''" and "c \<noteq> CHR ''-''"
    and "\<not> list_ex line_end_char (archive_path e)" and "\<not> ends_with ''/'' (archive_path e)"
  shows "parse_tar_line (print_tar_line mode uid gid e) = Some e"
  using assms by (rule tar_line_read)

section \<open>Where the credential and the network go\<close>

text \<open>The calls that an acquisition may make.\<close>

definition github_archive_target :: "js_host \<Rightarrow> string \<Rightarrow> bool" where
  "github_archive_target h u \<longleftrightarrow>
     (case parse_url h u of None \<Rightarrow> False
      | Some target \<Rightarrow> url_protocol target = ''https:'' \<and> url_hostname target = ''codeload.github.com'' \<and>
          url_port target = [] \<and> url_username target = [] \<and> url_password target = [])"

definition acquisition_call :: "js_host \<Rightarrow> session \<Rightarrow> repository_source \<Rightarrow> sandbox_call \<Rightarrow> bool" where
  "acquisition_call h s src c \<longleftrightarrow>
     (case c of
        HttpGet u auth manual \<Rightarrow>
          (if manual then u = archive_url src \<and> (auth \<noteq> None \<longrightarrow> source_private src)
           else auth = None \<and> github_archive_target h u)
      | BorrowCredential src' \<Rightarrow> src' = src \<and> source_private src
      | MakeDirectory s' p \<Rightarrow> s' = s
      | WriteFiles s' fs \<Rightarrow> s' = s \<and> map fst fs = [acquisition_workspace @ ''/'' @ archive_name]
      | RunCommand s' k \<Rightarrow> s' = s \<and> k \<in> {measure_command, hash_command, list_command, extract_command}
      | _ \<Rightarrow> False)"

lemma archive_redirect_target:
  "archive_redirect h r = Inr u \<Longrightarrow> github_archive_target h u"
  by (auto simp: archive_redirect_def github_archive_target_def split: option.splits if_splits)

lemma emits_download:
  assumes "auth \<noteq> None \<longrightarrow> source_private src"
  shows "emits (acquisition_call h s src) (download_github_archive h w auth src)"
  unfolding download_github_archive_def
proof (rule emits_bind_value)
  fix v t t'
  assume "parsed repository_source_ok src t = (Inr v, t')"
  then have v: "v = src" by simp
  have "emits (acquisition_call h s src) (http_get w target None False)"
    if "archive_redirect h r = Inr target" for r target
    using archive_redirect_target [OF that]
    by (auto simp: http_get_def acquisition_call_def intro: emits_rules)
  then show "emits (acquisition_call h s src)
    (catch
       (bind (http_get w (archive_url v) auth True) (\<lambda>redirect.
        bind (require (response_status redirect = 302) (AcquisitionError ArchiveDownloadFailed)) (\<lambda>_.
        bind (lift_result (archive_redirect h redirect)) (\<lambda>target.
        bind (http_get w target None False) (\<lambda>archive.
        bind (require (200 \<le> response_status archive \<and> response_status archive \<le> 299)
          (AcquisitionError ArchiveDownloadFailed)) (\<lambda>_.
        lift_result (read_bounded_archive archive)))))))
       (keep_acquisition_error ArchiveDownloadFailed))"
    unfolding v keep_acquisition_error_def
    by (intro emits_catch emits_rules emits_bind_value)
       (use assms in \<open>auto simp: http_get_def acquisition_call_def intro!: emits_rules\<close>)
qed (intro emits_rules)

lemma emits_obtain: "emits (acquisition_call h s src) (obtain_archive h w src)"
proof -
  have usable: "emits P (credential_usable w x)" for P x
    by (rule emits_silent) (simp add: credential_usable_def require_def)
  show ?thesis
    unfolding obtain_archive_def keep_acquisition_error_def
    by (auto intro!: emits_rules emits_download usable simp: acquisition_call_def split: prod.split)
qed

lemma emits_inspect: "emits (acquisition_call h s src) (inspect_archive h w s)"
  unfolding inspect_archive_def keep_acquisition_error_def
  by (intro emits_rules) (simp_all add: acquisition_call_def)

definition acquire_offline :: "js_host \<Rightarrow> world \<Rightarrow> session \<Rightarrow> repository_source \<Rightarrow> acquired_source prog" where
  "acquire_offline h w s src =
     bind (make_directory w s sandbox_workspace_root) (\<lambda>_.
     bind (make_directory w s acquisition_workspace) (\<lambda>_.
     bind (make_directory w s source_workspace) (\<lambda>_.
     bind (obtain_archive h w src) (\<lambda>bytes.
     bind (catch (write_files w s [(acquisition_workspace @ ''/'' @ archive_name, bytes)])
       (\<lambda>_. raise (AcquisitionError ArchiveDownloadFailed))) (\<lambda>_.
     bind (inspect_archive h w s) (\<lambda>manifest.
     bind (run_command w s extract_command) (\<lambda>extracted.
     bind (require (result_exit_code extracted = 0) (AcquisitionError ExtractionFailed)) (\<lambda>_.
     bind (current_time w) (\<lambda>now.
     bind (lift_result (create_source_provenance h now manifest src)) (\<lambda>prov.
       ret \<lparr>acquired_manifest = manifest, acquired_provenance = prov,
            acquired_workspace = source_workspace\<rparr>))))))))))"

lemma emits_acquire_offline: "emits (acquisition_call h s src) (acquire_offline h w s src)"
proof -
  have clock: "emits P (current_time w)" for P
    by (rule emits_silent) (simp add: current_time_def)
  show ?thesis
    unfolding acquire_offline_def
    by (intro emits_rules emits_obtain emits_inspect clock) (simp_all add: acquisition_call_def)
qed

lemma acquire_after_lockdown:
  "acquire_source h w s src t =
     (if \<not> repository_source_ok src then (Inl SchemaError, t)
      else (case unit_reply w (t @ [SetNetworkPolicy s DenyAll]) of
              Inl _ \<Rightarrow> (Inl (AcquisitionError AcquisitionLockdownFailed), t @ [SetNetworkPolicy s DenyAll])
            | Inr _ \<Rightarrow> acquire_offline h w s src (t @ [SetNetworkPolicy s DenyAll])))"
  unfolding acquire_source_def acquire_offline_def [symmetric]
  by (simp add: bind_def [of "parsed _ _"] bind_def [of "catch _ _"] parsed_def parse_as_def catch_def
      set_network_policy_def perform_def raise_def split: sum.split)

lemma offline_calls_keep_network:
  "list_all (acquisition_call h s src) cs \<Longrightarrow> network_after w s' pre cs N = N"
  by (rule network_after_other) (auto simp: list_all_iff acquisition_call_def)

text \<open>
  C39. An acquisition first denies the network, and when that is refused it does nothing else.
  After it, the sandbox has no network at any time: it only gets the archive and runs the
  four fixed commands; the archive itself is fetched outside of it, with the credential
  sent to no other address than the archive endpoint of the requested revision - for a
  private repository only - and without it to codeload.github.com over https.
\<close>

theorem acquisition_confines_credential_and_network:
  assumes "acquire_source h w s src t = (r, t')"
  shows "t' = t \<and> r = Inl SchemaError \<or>
    t' = t @ [SetNetworkPolicy s DenyAll] \<and> r = Inl (AcquisitionError AcquisitionLockdownFailed) \<or>
    (\<exists>cs. t' = t @ SetNetworkPolicy s DenyAll # cs \<and> list_all (acquisition_call h s src) cs \<and>
      (\<forall>k. network_after w s t (SetNetworkPolicy s DenyAll # take k cs) N = {DenyAll}))"
proof (cases "repository_source_ok src")
  case False
  then show ?thesis using assms by (simp add: acquire_after_lockdown)
next
  case True
  show ?thesis
  proof (cases "unit_reply w (t @ [SetNetworkPolicy s DenyAll])")
    case (Inl e)
    then show ?thesis using assms True by (simp add: acquire_after_lockdown)
  next
    case (Inr u)
    then have "acquire_offline h w s src (t @ [SetNetworkPolicy s DenyAll]) = (r, t')"
      using assms True by (simp add: acquire_after_lockdown)
    from emitsE [OF emits_acquire_offline this] obtain cs where
      cs: "t' = (t @ [SetNetworkPolicy s DenyAll]) @ cs" "list_all (acquisition_call h s src) cs" by blast
    have "network_after w s t (SetNetworkPolicy s DenyAll # take k cs) N = {DenyAll}" for k
    proof -
      have "list_all (acquisition_call h s src) (take k cs)"
        using cs(2) by (auto simp: list_all_iff dest: in_set_takeD)
      then show ?thesis using Inr by (simp add: offline_calls_keep_network)
    qed
    then show ?thesis using cs by auto
  qed
qed

section \<open>What an acquired source is\<close>

lemma inspected_manifest:
  assumes "inspect_archive h w s t = (Inr m, t')"
  shows "\<exists>i. validate_archive_manifest h i = Inr m"
proof -
  from assms obtain measured hashed listed where "read_inspection h measured hashed listed = Inr m"
    by (auto simp: inspect_archive_def catch_Inr_iff bind_Inr_iff keep_acquisition_error_def)
  then obtain i where "(case validate_archive_manifest h i of
      Inl (ValidationError k) \<Rightarrow> Inl (AcquisitionError UnsafeArchive) | r \<Rightarrow> r) = Inr m"
    unfolding read_inspection_def and_then_Inr_iff by (auto split: option.split_asm simp: and_then_Inr_iff)
  then have "validate_archive_manifest h i = Inr m"
    by (cases "validate_archive_manifest h i") (auto split: thrown.split_asm)
  then show ?thesis by blast
qed

text \<open>
  An acquired source lies in the source workspace, its manifest is one that
  validateArchiveManifest accepted, and its provenance names the requested repository and
  revision and carries the digests of that manifest.
\<close>

theorem acquired_source_is_validated:
  assumes "acquire_source h w s src t = (Inr a, t')"
  shows "repository_source_ok src \<and> acquired_workspace a = source_workspace \<and>
    (\<exists>i. validate_archive_manifest h i = Inr (acquired_manifest a)) \<and>
    prov_commit (acquired_provenance a) = source_commit src \<and>
    prov_repository_id (acquired_provenance a) = source_repository_id src \<and>
    prov_archive_sha256 (acquired_provenance a) = manifest_archive_sha256 (acquired_manifest a) \<and>
    prov_manifest_sha256 (acquired_provenance a) =
      sha256_hex h (utf8_encode (canonical_manifest_json h (acquired_manifest a))) \<and>
    source_provenance_ok (acquired_provenance a)"
proof -
  from assms have ok: "repository_source_ok src" and
    "acquire_offline h w s src (t @ [SetNetworkPolicy s DenyAll]) = (Inr a, t')"
    by (auto simp: acquire_after_lockdown split: if_splits sum.splits)
  then obtain m prov now u u' where m: "inspect_archive h w s u = (Inr m, u')"
    and prov: "create_source_provenance h now m src = Inr prov"
    and a: "a = \<lparr>acquired_manifest = m, acquired_provenance = prov, acquired_workspace = source_workspace\<rparr>"
    by (auto simp: acquire_offline_def bind_Inr_iff)
  from prov have "prov_commit prov = source_commit src \<and> prov_repository_id prov = source_repository_id src \<and>
      prov_archive_sha256 prov = manifest_archive_sha256 m \<and>
      prov_manifest_sha256 prov = sha256_hex h (utf8_encode (canonical_manifest_json h m)) \<and>
      source_provenance_ok prov"
    by (auto simp: create_source_provenance_def and_then_Inr_iff)
  then show ?thesis using ok inspected_manifest [OF m] by (simp add: a)
qed

section \<open>A complete acquisition\<close>

definition github_host :: js_host where
  "github_host = plain_host\<lparr>parse_url := (\<lambda>s.
     if starts_with ''https://codeload.github.com/'' s
     then Some \<lparr>url_protocol = ''https:'', url_hostname = ''codeload.github.com'', url_port = [],
       url_username = [], url_password = [], url_pathname = drop 27 s, url_search = [], url_hash = []\<rparr>
     else None)\<rparr>"

definition sample_top :: archive_entry where
  "sample_top = \<lparr>archive_path = ''root'', archive_size = 0, archive_type = DirectoryEntry\<rparr>"

definition sample_file :: archive_entry where
  "sample_file = \<lparr>archive_path = ''root/a b.js'', archive_size = 5, archive_type = FileEntry\<rparr>"

definition line_feed :: char where
  "line_feed = char_of (10 :: nat)"

definition sample_listing :: string where
  "sample_listing =
     print_tar_line ''rwxrwxr-x'' 0 0 sample_top @ line_feed #
     print_tar_line ''rw-rw-r--'' 0 0 sample_file @ [line_feed]"

definition acquisition_run :: "sandbox_command \<Rightarrow> command_result" where
  "acquisition_run c =
     \<lparr>result_exit_code = 0, result_stderr = [],
      result_stdout =
        (if cmd_executable c = NodeTool then ''3''
         else if cmd_executable c = Sha256sum
         then replicate 64 (CHR ''a'') @ ''  source.tar.gz'' @ [char_of (10 :: nat)]
         else sample_listing)\<rparr>"

definition github_world :: world where
  "github_world = steady_world
     \<lparr>credential_reply := (\<lambda>_. Inr (''Bearer token'', Some 60000)),
      run_reply := (\<lambda>t. case last t of RunCommand s c \<Rightarrow> Inr (acquisition_run c) | _ \<Rightarrow> Inl (Foreign [])),
      http_reply := (\<lambda>t. case last t of
         HttpGet u auth manual \<Rightarrow>
           if manual
           then Inr \<lparr>response_status = 302, response_location = Some ''https://codeload.github.com/x'',
             response_length = None, response_chunks = None, response_broken = False\<rparr>
           else Inr \<lparr>response_status = 200, response_location = None, response_length = Some ''3'',
             response_chunks = Some [''a'', ''bc''], response_broken = False\<rparr>
       | _ \<Rightarrow> Inl (Foreign []))\<rparr>"

definition sample_acquired_manifest :: archive_manifest where
  "sample_acquired_manifest =
     \<lparr>manifest_bytes = 3, manifest_archive_sha256 = replicate 64 (CHR ''a''),
      manifest_extracted_bytes = 5, manifest_file_count = 1, manifest_files = [(''a b.js'', 5)],
      manifest_root = ''root''\<rparr>"

lemma acquisition_commands_ok:
  "sandbox_command_ok measure_command" "sandbox_command_ok hash_command"
  "sandbox_command_ok list_command" "sandbox_command_ok extract_command"
proof -
  have "is_safe_relative_path ''acquisition''"
    by (simp add: is_safe_relative_path_def no_control_characters_def control_char_def code_unit_def
        safe_segment_def)
  from root_paths_ok [OF this]
  show "sandbox_command_ok measure_command" "sandbox_command_ok hash_command"
    "sandbox_command_ok list_command" "sandbox_command_ok extract_command"
    by (simp_all add: sandbox_command_ok_def measure_command_def hash_command_def list_command_def
        extract_command_def acquisition_command_def acquisition_workspace_def archive_name_def
        source_workspace_def sandbox_workspace_root_def sandbox_root_def no_control_characters_def
        control_char_def code_unit_def)
qed

lemma sample_lines:
  "parse_tar_line (print_tar_line ''rwxrwxr-x'' 0 0 sample_top) = Some sample_top"
  "parse_tar_line (print_tar_line ''rw-rw-r--'' 0 0 sample_file) = Some sample_file"
  by (rule tar_line_read [where c = "CHR ''r''"];
      simp add: sample_top_def sample_file_def space_char_def code_unit_def line_end_char_def ends_with_def)+

lemma sample_line_texts:
  "line_feed \<notin> set (print_tar_line ''rwxrwxr-x'' 0 0 sample_top)"
  "line_feed \<notin> set (print_tar_line ''rw-rw-r--'' 0 0 sample_file)"
  "print_tar_line m u g e \<noteq> []"
  by (simp_all add: sample_top_def sample_file_def print_tar_line_def line_feed_def nat_text.simps char_of_def bit_0)

lemma sample_listing_parsed: "parse_tar_listing sample_listing = Inr [sample_top, sample_file]"
proof -
  have "ends_with [line_feed] sample_listing"
    "butlast sample_listing = print_tar_line ''rwxrwxr-x'' 0 0 sample_top @ line_feed #
      print_tar_line ''rw-rw-r--'' 0 0 sample_file"
    by (simp_all add: ends_with_def sample_listing_def butlast_append)
  then have "parse_tar_listing sample_listing =
      parse_lines [print_tar_line ''rwxrwxr-x'' 0 0 sample_top,
        print_tar_line ''rw-rw-r--'' 0 0 sample_file]"
    unfolding parse_tar_listing_def Let_def line_feed_def [symmetric]
    by (simp add: split_on_append split_on_word sample_line_texts)
  then show ?thesis
    by (simp add: sample_lines)
qed

lemma sample_manifest_valid:
  "validate_archive_manifest github_host
     \<lparr>input_bytes = 3, input_sha256 = replicate 64 (CHR ''a''), input_entries = [sample_top, sample_file]\<rparr> =
   Inr sample_acquired_manifest"
  by (simp add: validate_archive_manifest_def archive_input_ok_def sample_top_def sample_file_def sample_strings_ok
      len_in_def safe_int_def max_safe_integer_def max_archive_bytes_def max_entries_def scan_entry_def
      Let_def github_host_def plain_host_def is_safe_archive_path_def drive_path_def upper_char_def
      lower_char_def control_char_def code_unit_def safe_segment_def max_extracted_bytes_def
      sample_acquired_manifest_def)

lemma sample_inspection:
  "read_inspection github_host (acquisition_run measure_command) (acquisition_run hash_command)
     (acquisition_run list_command) = Inr sample_acquired_manifest"
proof -
  have digest: "hash_match (replicate 64 (CHR ''a'') @ ''  source.tar.gz'' @ [char_of (10 :: nat)]) =
      Some (replicate 64 (CHR ''a''))"
    using sample_strings_ok(1)
    by (simp add: hash_match_def Let_def skip_spaces_def space_char_def code_unit_def archive_name_def)
  have size_text: "js_trim ''3'' = ''3''" "decimal_text ''3''" "digits_value 0 ''3'' = 3"
    by (simp_all add: js_trim_def space_char_def decimal_text_def digit_char_def code_unit_def)
  show ?thesis
    using digest size_text sample_listing_parsed sample_manifest_valid
    by (simp add: read_inspection_def acquisition_run_def measure_command_def hash_command_def
        list_command_def acquisition_command_def check_def decode_text_def github_host_def plain_host_def)
qed

lemma sample_download:
  "download_github_archive github_host github_world auth sample_source t =
     (Inr ''abc'', t @ [HttpGet (archive_url sample_source) auth True,
        HttpGet ''https://codeload.github.com/x'' None False])"
proof -
  have "read_bounded_archive \<lparr>response_status = 200, response_location = None, response_length = Some ''3'',
      response_chunks = Some [''a'', ''bc''], response_broken = False\<rparr> = Inr ''abc''"
    by (simp add: read_bounded_archive_def Let_def js_trim_def space_char_def decimal_text_def
        digit_char_def code_unit_def max_archive_bytes_def)
  then show ?thesis
    using sample_source_ok
    by (simp add: download_github_archive_def bind_def catch_def parsed_def http_get_def perform_def
        require_def lift_result_def github_world_def archive_redirect_def github_host_def)
qed

lemma github_world_replies [simp]:
  "unit_reply github_world u = Inr ()"
  "credential_reply github_world u = Inr (''Bearer token'', Some 60000)"
  "run_reply github_world (u @ [RunCommand s c]) = Inr (acquisition_run c)"
  "clock_now github_world u = 0"
  by (simp_all add: github_world_def steady_world_def)

lemma sample_obtained:
  "\<exists>t'. obtain_archive github_host github_world sample_source t = (Inr ''abc'', t')"
  by (simp add: obtain_archive_def sample_download catch_def bind_def perform_def credential_usable_def
      require_def)

lemma sample_inspected: "\<exists>t'. inspect_archive github_host github_world 0 t = (Inr sample_acquired_manifest, t')"
  using sample_inspection acquisition_commands_ok
  by (simp add: inspect_archive_def catch_def bind_def run_command_def parsed_def perform_def
      lift_result_def)

lemma sample_provenance_created:
  "\<exists>prov. create_source_provenance github_host 0 sample_acquired_manifest sample_source = Inr prov"
proof -
  have "sha256_hex github_host x = replicate 64 (CHR ''0'')" for x
    by (simp add: github_host_def plain_host_def)
  then show ?thesis
    using sample_source_ok sample_strings_ok
    by (simp add: create_source_provenance_def sample_acquired_manifest_def source_provenance_ok_def
        valid_instant_def safe_int_def max_safe_integer_def max_entries_def sample_source_def len_in_def)
qed

lemma sample_acquisition:
  "\<exists>a t'. acquire_source github_host github_world 0 sample_source [] = (Inr a, t')"
proof -
  obtain prov where prov: "create_source_provenance github_host 0 sample_acquired_manifest sample_source = Inr prov"
    using sample_provenance_created by blast
  obtain u where u: "obtain_archive github_host github_world sample_source
      ([SetNetworkPolicy 0 DenyAll] @ [MakeDirectory 0 sandbox_workspace_root] @
       [MakeDirectory 0 acquisition_workspace] @ [MakeDirectory 0 source_workspace]) = (Inr ''abc'', u)"
    using sample_obtained by blast
  obtain v where v: "inspect_archive github_host github_world 0
      (u @ [WriteFiles 0 [(acquisition_workspace @ ''/'' @ archive_name, ''abc'')]]) = (Inr sample_acquired_manifest, v)"
    using sample_inspected by blast
  show ?thesis
    using sample_source_ok acquisition_commands_ok(4) prov u v
    by (simp add: acquire_after_lockdown acquire_offline_def bind_def make_directory_def perform_def
        catch_def write_files_def run_command_def parsed_def require_def current_time_def
        lift_result_def ret_def acquisition_run_def extract_command_def acquisition_command_def)
qed

theorem acquired_source_is_validated_witness:
  "\<exists>a t'. acquire_source github_host github_world 0 sample_source [] = (Inr a, t') \<and>
     prov_commit (acquired_provenance a) = source_commit sample_source"
proof -
  obtain a t' where a: "acquire_source github_host github_world 0 sample_source [] = (Inr a, t')"
    using sample_acquisition by blast
  from acquired_source_is_validated [OF a] a show ?thesis by blast
qed

theorem acquisition_confines_credential_and_network_witness:
  "\<exists>a t' cs. acquire_source github_host github_world 0 sample_source [] = (Inr a, t') \<and>
     t' = SetNetworkPolicy 0 DenyAll # cs \<and> list_all (acquisition_call github_host 0 sample_source) cs"
proof -
  obtain a t' where a: "acquire_source github_host github_world 0 sample_source [] = (Inr a, t')"
    using sample_acquisition by blast
  from acquisition_confines_credential_and_network [OF a] a show ?thesis by auto
qed

theorem tar_listing_roundtrip_witness:
  "parse_tar_line (print_tar_line ''rw-rw-r--'' 0 0 sample_file) = Some sample_file"
  by (rule tar_listing_roundtrip [where c = "CHR ''r''"])
     (simp_all add: sample_file_def space_char_def code_unit_def line_end_char_def ends_with_def)

end
