(* ===== verification/Pretty.thy ===== *)
theory Pretty
  imports Decode
begin

text \<open>
  \<open>JSON.stringify(value, null, 2)\<close>: the indented text of a JSON value, as a layout that
  puts white space between the tokens, and the proof that every such layout parses back.
\<close>

fun layout :: "(nat \<Rightarrow> string) \<Rightarrow> string \<Rightarrow> nat \<Rightarrow> json \<Rightarrow> string"
  and layout_items :: "(nat \<Rightarrow> string) \<Rightarrow> string \<Rightarrow> nat \<Rightarrow> json list \<Rightarrow> string list"
  and layout_members :: "(nat \<Rightarrow> string) \<Rightarrow> string \<Rightarrow> nat \<Rightarrow> (string \<times> json) list \<Rightarrow> string list" where
  "layout nl gap n JNull = ''null''"
| "layout nl gap n (JBool b) = (if b then ''true'' else ''false'')"
| "layout nl gap n (JNum t) = t"
| "layout nl gap n (JStr s) = json_quote s"
| "layout nl gap n (JArr vs) =
     (if vs = [] then ''[]''
      else ''['' @ nl (Suc n) @ join (CHR '','' # nl (Suc n)) (layout_items nl gap (Suc n) vs) @ nl n @ '']'')"
| "layout nl gap n (JObj kvs) =
     (if kvs = [] then [CHR 0x7B, CHR 0x7D]
      else CHR 0x7B # nl (Suc n) @ join (CHR '','' # nl (Suc n)) (layout_members nl gap (Suc n) kvs) @
        nl n @ [CHR 0x7D])"
| "layout_items nl gap n [] = []"
| "layout_items nl gap n (v # vs) = layout nl gap n v # layout_items nl gap n vs"
| "layout_members nl gap n [] = []"
| "layout_members nl gap n ((k, v) # kvs) =
     (json_quote k @ '':'' @ gap @ layout nl gap n v) # layout_members nl gap n kvs"

text \<open>A line feed and two spaces for each level.\<close>

definition indent :: "nat \<Rightarrow> string" where
  "indent n = char_of (10 :: nat) # replicate (2 * n) (CHR '' '')"

definition json_pretty :: "json \<Rightarrow> string" where
  "json_pretty v = layout indent '' '' 0 v"

section \<open>Every layout parses back\<close>

abbreviation blank :: "string \<Rightarrow> bool" where
  "blank s \<equiv> list_all json_space s"

definition loose :: "string \<Rightarrow> bool" where
  "loose rest \<longleftrightarrow> rest = [] \<or> \<not> num_char (hd rest)"

lemma skip_ws_blank: "blank s \<Longrightarrow> skip_ws (s @ r) = skip_ws r"
  by (simp add: skip_ws_def dropWhile_append2 list_all_iff)

lemma parse_value_blank: "blank s \<Longrightarrow> parse_value h m (s @ r) = parse_value h m r"
  by (cases m) (simp_all add: skip_ws_blank)

lemma parse_members_blank: "blank s \<Longrightarrow> parse_members h m (s @ r) = parse_members h m r"
  by (cases m) (simp_all add: skip_ws_blank)

lemma parse_elements_blank: "blank s \<Longrightarrow> parse_elements h m (s @ r) = parse_elements h m r"
  by (cases m) (simp_all add: parse_value_blank)

lemma loose_num:
  assumes "list_all num_char t" and "loose rest"
  shows "takeWhile num_char (t @ rest) = t" and "dropWhile num_char (t @ rest) = rest"
proof -
  have 1: "takeWhile num_char rest = []" "dropWhile num_char rest = rest"
    using assms(2) by (cases rest; auto simp: loose_def)+
  have 2: "\<And>x. x \<in> set t \<Longrightarrow> num_char x" using assms(1) by (simp add: list_all_iff)
  show "takeWhile num_char (t @ rest) = t" using 1 2 by (simp add: takeWhile_append2)
  show "dropWhile num_char (t @ rest) = rest" using 1 2 by (simp add: dropWhile_append2)
qed

lemma parse_loose_number:
  assumes "number_text_ok h t" and "loose rest"
  shows "parse_value h (Suc n) (t @ rest) = Some (JNum t, rest)"
proof -
  from number_first [OF assms(1)] obtain c cs where t: "t = c # cs" and c: "num_char c" by blast
  have ok: "json_number t" "list_all num_char t" "num_canon h t = t"
    using assms(1) by (auto simp: number_text_ok_def)
  have tw: "takeWhile num_char (c # cs @ rest) = t" "dropWhile num_char (c # cs @ rest) = rest"
    using loose_num [OF ok(2) assms(2)] t by simp_all
  have ne: "c \<noteq> CHR 0x22" "c \<noteq> CHR ''[''" "c \<noteq> CHR 0x7B" "c \<noteq> CHR ''n''" "c \<noteq> CHR ''t''"
    "c \<noteq> CHR ''f''" "\<not> json_space c"
    using num_char_cases [OF c] by auto
  show ?thesis
    unfolding t append_Cons
    using ne ok tw by (simp del: takeWhile.simps dropWhile.simps add: t [symmetric])
qed

lemma layout_first: "wf_json h v \<Longrightarrow> \<exists>c cs. layout nl gap n v = c # cs \<and> \<not> json_space c \<and> c \<noteq> CHR '']''"
proof (cases v)
  case (JNum t)
  assume "wf_json h v"
  with JNum obtain c cs where "t = c # cs" "num_char c" using number_first [of h t] by auto
  with JNum num_char_cases [of c] show ?thesis by auto
qed (auto simp: json_quote_def)

lemma layout_items_Nil_iff [simp]: "layout_items nl gap n vs = [] \<longleftrightarrow> vs = []"
  by (cases vs) auto

lemma layout_members_Nil_iff [simp]: "layout_members nl gap n kvs = [] \<longleftrightarrow> kvs = []"
  by (cases kvs) auto

lemma loose_simps [simp]:
  "loose []" "loose (CHR '','' # r)" "loose (CHR '']'' # r)" "loose (CHR 0x7D # r)"
  by (simp_all add: loose_def num_char_def digit_char_def code_unit_def)

lemma loose_blank: "blank s \<Longrightarrow> loose r \<Longrightarrow> loose (s @ r)"
  using num_char_cases by (cases s) (auto simp: loose_def)

lemma parse_element_step:
  assumes "parse_value h m s = Some (v, post @ c # r)" and "blank post" and "\<not> json_space c"
  shows "parse_elements h (Suc m) s =
    (if c = CHR '','' then map_option (\<lambda>(vs, r'). (v # vs, r')) (parse_elements h m r)
     else if c = CHR '']'' then Some ([v], r) else None)"
  using assms by (simp add: skip_ws_blank)

lemma parse_layout_member:
  assumes "parse_value h m (gap @ s) = Some (v, post @ c # r)" and "blank post" and "\<not> json_space c"
  shows "parse_members h (Suc m) (json_quote k @ '':'' @ gap @ s) =
    (if c = CHR '','' then map_option (\<lambda>(kvs, r'). ((k, v) # kvs, r')) (parse_members h m r)
     else if c = CHR 0x7D then Some ([(k, v)], r) else None)"
  using assms by (simp add: json_quote_def parse_chars_quoted skip_ws_blank)

lemma parse_layout:
  assumes nl: "\<And>n. blank (nl n)" and gap: "blank gap"
  shows "wf_json h v \<Longrightarrow> (\<forall>rest m. loose rest \<longrightarrow> Suc (2 * length (layout nl gap n v)) \<le> m \<longrightarrow>
      parse_value h m (layout nl gap n v @ rest) = Some (v, rest))"
    and "wf_elements h vs \<Longrightarrow> vs \<noteq> [] \<longrightarrow> (\<forall>rest m post. blank post \<longrightarrow>
      Suc (Suc (2 * length (join (CHR '','' # nl n) (layout_items nl gap n vs)))) \<le> m \<longrightarrow>
      parse_elements h m (join (CHR '','' # nl n) (layout_items nl gap n vs) @ post @ CHR '']'' # rest) =
        Some (vs, rest))"
    and "wf_members h kvs \<Longrightarrow> kvs \<noteq> [] \<longrightarrow> (\<forall>rest m post. blank post \<longrightarrow>
      Suc (Suc (2 * length (join (CHR '','' # nl n) (layout_members nl gap n kvs)))) \<le> m \<longrightarrow>
      parse_members h m (join (CHR '','' # nl n) (layout_members nl gap n kvs) @ post @ CHR 0x7D # rest) =
        Some (kvs, rest))"
proof (induction v and vs and kvs arbitrary: n and n and n rule: json_text_element_texts_member_texts.induct)
  case 1
  have "parse_value h m (layout nl gap n JNull @ rest) = Some (JNull, rest)"
    if "Suc (2 * length (layout nl gap n JNull)) \<le> m" for rest m
    using that by (cases m) auto
  then show ?case by blast
next
  case (2 b)
  have "parse_value h m (layout nl gap n (JBool b) @ rest) = Some (JBool b, rest)"
    if "Suc (2 * length (layout nl gap n (JBool b))) \<le> m" for rest m
    using that by (cases m) auto
  then show ?case by blast
next
  case (3 t)
  then show ?case using parse_loose_number [of h t] by (auto dest!: Suc_le_D)
next
  case (4 s)
  show ?case using parse_string_text [of h _ s] by (auto dest!: Suc_le_D simp del: parse_value.simps)
next
  case (5 vs)
  show ?case
  proof (intro allI impI)
    fix rest m assume m: "Suc (2 * length (layout nl gap n (JArr vs))) \<le> m"
    then obtain k where k: "m = Suc k" by (auto dest!: Suc_le_D)
    let ?items = "join (CHR '','' # nl (Suc n)) (layout_items nl gap (Suc n) vs)"
    show "parse_value h m (layout nl gap n (JArr vs) @ rest) = Some (JArr vs, rest)"
    proof (cases vs)
      case Nil
      then show ?thesis by (simp add: k)
    next
      case (Cons v ws)
      then obtain c cs where c: "layout nl gap (Suc n) v = c # cs" "\<not> json_space c" "c \<noteq> CHR '']''"
      proof -
        have "wf_json h v" using 5(2) Cons by simp
        from layout_first [OF this] that show ?thesis by blast
      qed
      then obtain ds where ds: "?items = c # ds" using Cons by (cases ws) auto
      have len: "Suc (Suc (2 * length ?items)) \<le> k" using m k Cons by (simp del: layout_items.simps)
      have ne: "vs \<noteq> []" using Cons by simp
      have "parse_elements h k (?items @ nl n @ CHR '']'' # rest) = Some (vs, rest)"
        using 5(1) [of "Suc n"] 5(2) ne len nl by simp
      then have "parse_elements h k (nl (Suc n) @ ?items @ nl n @ CHR '']'' # rest) = Some (vs, rest)"
        using nl by (simp add: parse_elements_blank)
      moreover have "skip_ws (nl (Suc n) @ ?items @ nl n @ CHR '']'' # rest) = c # ds @ nl n @ CHR '']'' # rest"
        using nl ds c(2) by (simp add: skip_ws_blank)
      ultimately show ?thesis using Cons c(3) by (simp add: k del: layout_items.simps)
    qed
  qed
next
  case (6 kvs)
  show ?case
  proof (intro allI impI)
    fix rest m assume m: "Suc (2 * length (layout nl gap n (JObj kvs))) \<le> m"
    then obtain k where k: "m = Suc k" by (auto dest!: Suc_le_D)
    let ?items = "join (CHR '','' # nl (Suc n)) (layout_members nl gap (Suc n) kvs)"
    show "parse_value h m (layout nl gap n (JObj kvs) @ rest) = Some (JObj kvs, rest)"
    proof (cases kvs)
      case Nil
      then show ?thesis by (simp add: k)
    next
      case (Cons kv ws)
      obtain ds where ds: "?items = CHR 0x22 # ds"
        using Cons by (cases kv; cases ws) (auto simp: json_quote_def)
      have len: "Suc (Suc (2 * length ?items)) \<le> k" using m k Cons by (simp del: layout_members.simps)
      have ne: "kvs \<noteq> []" using Cons by simp
      have own: "own_properties kvs = kvs" using 6 by simp
      have "parse_members h k (?items @ nl n @ CHR 0x7D # rest) = Some (kvs, rest)"
        using 6(1) [of "Suc n"] 6(2) ne len nl by simp
      then have "parse_members h k (nl (Suc n) @ ?items @ nl n @ CHR 0x7D # rest) = Some (kvs, rest)"
        using nl by (simp add: parse_members_blank)
      moreover have "skip_ws (nl (Suc n) @ ?items @ nl n @ CHR 0x7D # rest) =
          CHR 0x22 # ds @ nl n @ CHR 0x7D # rest"
        using nl ds by (simp add: skip_ws_blank)
      ultimately show ?thesis using Cons own by (simp add: k del: layout_members.simps)
    qed
  qed
next
  case 7
  show ?case by simp
next
  case (8 v vs)
  show ?case
  proof (intro impI allI)
    fix rest m post
    assume post: "blank post"
      and m: "Suc (Suc (2 * length (join (CHR '','' # nl n) (layout_items nl gap n (v # vs))))) \<le> m"
    then obtain k where k: "m = Suc k" by (auto dest!: Suc_le_D)
    have v: "parse_value h k (layout nl gap n v @ rest') = Some (v, rest')" if "loose rest'" for rest'
      using 8 m k that by (cases vs) auto
    show "parse_elements h m (join (CHR '','' # nl n) (layout_items nl gap n (v # vs)) @ post @ CHR '']'' # rest) =
        Some (v # vs, rest)"
    proof (cases "vs = []")
      case True
      have "parse_value h k (layout nl gap n v @ post @ CHR '']'' # rest) = Some (v, post @ CHR '']'' # rest)"
        using post by (intro v loose_blank) simp_all
      from parse_element_step [OF this post] True show ?thesis by (simp add: k)
    next
      case False
      let ?more = "join (CHR '','' # nl n) (layout_items nl gap n vs) @ post @ CHR '']'' # rest"
      have "Suc (Suc (2 * length (join (CHR '','' # nl n) (layout_items nl gap n vs)))) \<le> k"
        using m k False by (simp add: join_Cons)
      then have "parse_elements h k ?more = Some (vs, rest)" using 8 False post by auto
      then have more: "parse_elements h k (nl n @ ?more) = Some (vs, rest)"
        using nl by (simp add: parse_elements_blank)
      have "parse_value h k (layout nl gap n v @ CHR '','' # nl n @ ?more) =
          Some (v, [] @ CHR '','' # nl n @ ?more)"
        by (simp add: v)
      from parse_element_step [OF this] more False show ?thesis by (simp add: k join_Cons)
    qed
  qed
next
  case 9
  show ?case by simp
next
  case (10 key v kvs)
  show ?case
  proof (intro impI allI)
    fix rest m post
    assume post: "blank post"
      and m: "Suc (Suc (2 * length (join (CHR '','' # nl n) (layout_members nl gap n ((key, v) # kvs))))) \<le> m"
    then obtain k where k: "m = Suc k" by (auto dest!: Suc_le_D)
    have v: "parse_value h k (gap @ layout nl gap n v @ rest') = Some (v, rest')" if "loose rest'" for rest'
      using 10 m k that gap by (cases kvs) (auto simp: parse_value_blank)
    show "parse_members h m (join (CHR '','' # nl n) (layout_members nl gap n ((key, v) # kvs)) @ post @ CHR 0x7D # rest) =
        Some ((key, v) # kvs, rest)"
    proof (cases "kvs = []")
      case True
      have "parse_value h k (gap @ layout nl gap n v @ post @ CHR 0x7D # rest) = Some (v, post @ CHR 0x7D # rest)"
        using post by (intro v loose_blank) simp_all
      from parse_layout_member [OF this post] True show ?thesis by (simp add: k)
    next
      case False
      let ?more = "join (CHR '','' # nl n) (layout_members nl gap n kvs) @ post @ CHR 0x7D # rest"
      have "Suc (Suc (2 * length (join (CHR '','' # nl n) (layout_members nl gap n kvs)))) \<le> k"
        using m k False by (simp add: join_Cons)
      then have "parse_members h k ?more = Some (kvs, rest)" using 10 False post by auto
      then have more: "parse_members h k (nl n @ ?more) = Some (kvs, rest)"
        using nl by (simp add: parse_members_blank)
      have "parse_value h k (gap @ layout nl gap n v @ CHR '','' # nl n @ ?more) =
          Some (v, [] @ CHR '','' # nl n @ ?more)"
        by (simp add: v)
      from parse_layout_member [OF this] more False show ?thesis by (simp add: k join_Cons)
    qed
  qed
qed

lemma blank_indent: "blank (indent n)"
  by (auto simp: indent_def list_all_iff json_space_def code_unit_def)

lemma json_parse_pretty: "wf_json h v \<Longrightarrow> json_parse h (json_pretty v) = Some v"
proof -
  assume wf: "wf_json h v"
  have "blank '' ''" by (simp add: json_space_def code_unit_def)
  from parse_layout(1) [OF blank_indent this wf, rule_format, where n = 0 and rest = "[]"
      and m = "Suc (2 * length (json_pretty v))"]
  show ?thesis by (simp add: json_parse_def json_pretty_def del: parse_value.simps)
qed

end
