(* ===== verification/Documents.thy ===== *)
theory Documents
  imports Pretty Oracle Evidence Verification Minimization
begin

text \<open>
  The domain values as JSON documents: what \<open>JSON.stringify\<close> makes of a value that its
  schema has parsed, and how the schema reads a parsed document - for oracles, run
  results, hypotheses, verification summaries and minimization results
  (src/src/domain/oracle.ts, run.ts, evidence.ts, verification.ts, minimization.ts).
  Members are written in the order of the schemas.

  A ratio is written and read by the host: \<open>ratio_text\<close> and \<open>ratio_value\<close>.
\<close>

record ratio_host =
  ratio_text :: "rat \<Rightarrow> string"
  ratio_value :: "string \<Rightarrow> rat option"

definition ratio_ok :: "js_host \<Rightarrow> ratio_host \<Rightarrow> rat \<Rightarrow> bool" where
  "ratio_ok h R r \<longleftrightarrow> number_text_ok h (ratio_text R r) \<and> ratio_value R (ratio_text R r) = Some r"

section \<open>Reading lists and checked values\<close>

definition read_list :: "(json \<Rightarrow> 'a option) \<Rightarrow> json \<Rightarrow> 'a list option" where
  "read_list f v = (case v of JArr vs \<Rightarrow> those (map f vs) | _ \<Rightarrow> None)"

definition checked :: "('a \<Rightarrow> bool) \<Rightarrow> 'a option \<Rightarrow> 'a option" where
  "checked P r = (case r of Some x \<Rightarrow> if P x then Some x else None | None \<Rightarrow> None)"

lemma those_map_Some: "(\<And>x. x \<in> set xs \<Longrightarrow> f (e x) = Some x) \<Longrightarrow> those (map f (map e xs)) = Some xs"
  by (induction xs) auto

lemma read_list_map [simp]: "(\<And>x. x \<in> set xs \<Longrightarrow> f (e x) = Some x) \<Longrightarrow> read_list f (JArr (map e xs)) = Some xs"
  using those_map_Some [of xs f e] by (simp add: read_list_def)

lemma checked_Some [simp]: "P x \<Longrightarrow> checked P (Some x) = Some x"
  by (simp add: checked_def)

lemma checked_Some_iff: "checked P r = Some x \<longleftrightarrow> r = Some x \<and> P x"
  by (auto simp: checked_def split: option.splits)

lemma wf_elements_iff: "wf_elements h vs \<longleftrightarrow> (\<forall>v \<in> set vs. wf_json h v)"
  by (induction vs) auto

lemma wf_named_object:
  assumes "distinct (map fst kvs)" and "list_all (\<lambda>k. k = [] \<or> \<not> digit_char (hd k)) (map fst kvs)"
    and "\<And>k v. (k, v) \<in> set kvs \<Longrightarrow> wf_json h v"
  shows "wf_json h (JObj kvs)"
  using own_properties_named [OF assms(1,2)] assms(3) by (auto simp: wf_members_iff)

section \<open>Oracles\<close>

fun stream_json :: "stream_name \<Rightarrow> json" where
  "stream_json Stdout = JStr ''stdout''"
| "stream_json Stderr = JStr ''stderr''"

definition read_stream :: "json \<Rightarrow> stream_name option" where
  "read_stream v =
     (if v = JStr ''stdout'' then Some Stdout else if v = JStr ''stderr'' then Some Stderr else None)"

fun expression_json :: "oracle_expression \<Rightarrow> json" where
  "expression_json (ExitCode n) = JObj [(''type'', JStr ''exit_code''), (''expected'', json_of_int n)]"
| "expression_json (OutputContains s t) =
     JObj [(''type'', JStr ''output_contains''), (''stream'', stream_json s), (''value'', JStr t)]"
| "expression_json (OutputRegex s p) =
     JObj [(''type'', JStr ''output_regex''), (''stream'', stream_json s), (''pattern'', JStr p)]"
| "expression_json (JsonField s path e) =
     JObj ([(''type'', JStr ''json_field''), (''stream'', stream_json s), (''path'', JArr (map JStr path))] @
       (case e of None \<Rightarrow> [] | Some v \<Rightarrow> [(''equals'', v)]))"
| "expression_json (AllOf es) = JObj [(''type'', JStr ''all''), (''children'', JArr (map expression_json es))]"
| "expression_json (AnyOf es) = JObj [(''type'', JStr ''any''), (''children'', JArr (map expression_json es))]"
| "expression_json (NotOf e) = JObj [(''type'', JStr ''not''), (''child'', expression_json e)]"

lemma json_member_size [termination_simp]: "json_member k v = Some w \<Longrightarrow> size w < size v"
proof -
  have "map_of kvs k = Some w \<Longrightarrow> size w < Suc (size_list (size_prod (\<lambda>x. 0) size) kvs)" for kvs
    by (induction kvs) (auto split: if_splits)
  then show "json_member k v = Some w \<Longrightarrow> size w < size v"
    by (auto simp: json_member_def split: json.splits)
qed

lemma json_child_size [termination_simp]:
  "json_member k v = Some (JArr vs) \<Longrightarrow> w \<in> set vs \<Longrightarrow> size w < size v"
proof -
  assume "json_member k v = Some (JArr vs)" and w: "w \<in> set vs"
  then have "size (JArr vs) < size v" by (rule_tac json_member_size)
  moreover have "size w < size (JArr vs)" using w by (induction vs) auto
  ultimately show "size w < size v" by simp
qed

fun read_expression :: "js_host \<Rightarrow> json \<Rightarrow> oracle_expression option" where
  "read_expression h v =
     (case json_member ''type'' v of
        Some (JStr kind) \<Rightarrow>
          (if kind = ''exit_code'' \<and> strict_object [''type'', ''expected''] v
           then map_option ExitCode (required ''expected'' json_int v)
           else if kind = ''output_contains'' \<and> strict_object [''type'', ''stream'', ''value''] v
           then Option.bind (required ''stream'' read_stream v) (\<lambda>s.
             map_option (OutputContains s) (required ''value'' json_string v))
           else if kind = ''output_regex'' \<and> strict_object [''type'', ''stream'', ''pattern''] v
           then Option.bind (required ''stream'' read_stream v) (\<lambda>s.
             map_option (OutputRegex s)
               (checked (\<lambda>p. length p \<le> 256 \<and> regex_ok h p) (required ''pattern'' json_string v)))
           else if kind = ''json_field'' \<and> strict_object [''type'', ''stream'', ''path'', ''equals''] v
           then Option.bind (required ''stream'' read_stream v) (\<lambda>s.
             map_option (\<lambda>path. JsonField s path (json_member ''equals'' v))
               (checked (\<lambda>path. path \<noteq> []) (required ''path'' (read_list json_string) v)))
           else if kind = ''all'' \<and> strict_object [''type'', ''children''] v
           then (case json_member ''children'' v of
               Some (JArr vs) \<Rightarrow>
                 if vs = [] then None else map_option AllOf (those (map (read_expression h) vs))
             | _ \<Rightarrow> None)
           else if kind = ''any'' \<and> strict_object [''type'', ''children''] v
           then (case json_member ''children'' v of
               Some (JArr vs) \<Rightarrow>
                 if vs = [] then None else map_option AnyOf (those (map (read_expression h) vs))
             | _ \<Rightarrow> None)
           else if kind = ''not'' \<and> strict_object [''type'', ''child''] v
           then (case json_member ''child'' v of
               Some w \<Rightarrow> map_option NotOf (read_expression h w)
             | None \<Rightarrow> None)
           else None)
      | _ \<Rightarrow> None)"

declare read_expression.simps [simp del]

definition oracle_json :: "failure_oracle \<Rightarrow> json" where
  "oracle_json orc = JObj
     [(''id'', JStr (oracle_id orc)), (''root'', expression_json (oracle_root orc)),
      (''version'', json_of_int (oracle_version orc))]"

definition read_oracle :: "js_host \<Rightarrow> json \<Rightarrow> failure_oracle option" where
  "read_oracle h v =
     (if \<not> strict_object [''id'', ''root'', ''version''] v then None
      else
        Option.bind (required ''id'' json_string v) (\<lambda>i.
        Option.bind (required ''root'' (read_expression h) v) (\<lambda>e.
        Option.bind (required ''version'' json_int v) (\<lambda>n.
          checked (failure_oracle_ok h) (Some \<lparr>oracle_id = i, oracle_root = e, oracle_version = n\<rparr>)))))"

section \<open>Run results\<close>

definition output_capture_json :: "run_output_capture \<Rightarrow> json" where
  "output_capture_json c = JObj
     [(''originalBytes'', json_of_int (original_bytes c)), (''sha256'', JStr (capture_sha256 c)),
      (''truncated'', JBool (capture_truncated c))]"

definition read_output_capture :: "json \<Rightarrow> run_output_capture option" where
  "read_output_capture v =
     (if \<not> strict_object [''originalBytes'', ''sha256'', ''truncated''] v then None
      else
        Option.bind (required ''originalBytes'' json_int v) (\<lambda>n.
        Option.bind (required ''sha256'' json_string v) (\<lambda>d.
        map_option (\<lambda>b. \<lparr>original_bytes = n, capture_sha256 = d, capture_truncated = b\<rparr>)
          (required ''truncated'' json_bool v))))"

definition run_capture_json :: "run_capture \<Rightarrow> json" where
  "run_capture_json c = JObj
     [(''stderr'', output_capture_json (capture_stderr c)), (''stdout'', output_capture_json (capture_stdout c))]"

definition read_run_capture :: "json \<Rightarrow> run_capture option" where
  "read_run_capture v =
     (if \<not> strict_object [''stderr'', ''stdout''] v then None
      else
        Option.bind (required ''stderr'' read_output_capture v) (\<lambda>e.
        map_option (\<lambda>out. \<lparr>capture_stderr = e, capture_stdout = out\<rparr>)
          (required ''stdout'' read_output_capture v)))"

definition run_json :: "run_result \<Rightarrow> json" where
  "run_json r = JObj
     ((case run_capture r of None \<Rightarrow> [] | Some c \<Rightarrow> [(''capture'', run_capture_json c)]) @
      [(''id'', JStr (run_id r)), (''command'', JStr (run_command r)),
       (''durationMs'', json_of_int (run_duration_ms r)),
       (''environmentHash'', JStr (run_environment_hash r)),
       (''exitCode'', json_of_int (run_exit_code r)), (''stderr'', JStr (run_stderr r)),
       (''stdout'', JStr (run_stdout r))])"

definition optional :: "string \<Rightarrow> (json \<Rightarrow> 'a option) \<Rightarrow> json \<Rightarrow> 'a option option" where
  "optional k f v = (case json_member k v of None \<Rightarrow> Some None | Some w \<Rightarrow> map_option Some (f w))"

definition read_run :: "json \<Rightarrow> run_result option" where
  "read_run v =
     (if \<not> strict_object [''capture'', ''id'', ''command'', ''durationMs'', ''environmentHash'',
         ''exitCode'', ''stderr'', ''stdout''] v then None
      else
        Option.bind (optional ''capture'' read_run_capture v) (\<lambda>c.
        Option.bind (required ''id'' json_string v) (\<lambda>i.
        Option.bind (required ''command'' json_string v) (\<lambda>k.
        Option.bind (required ''durationMs'' json_int v) (\<lambda>d.
        Option.bind (required ''environmentHash'' json_string v) (\<lambda>eh.
        Option.bind (required ''exitCode'' json_int v) (\<lambda>x.
        Option.bind (required ''stderr'' json_string v) (\<lambda>e.
        Option.bind (required ''stdout'' json_string v) (\<lambda>out.
          checked run_result_ok (Some
            \<lparr>run_capture = c, run_id = i, run_command = k, run_duration_ms = d,
             run_environment_hash = eh, run_exit_code = x, run_stderr = e, run_stdout = out\<rparr>))))))))))"

section \<open>Hypotheses\<close>

fun hypothesis_status_json :: "hypothesis_status \<Rightarrow> json" where
  "hypothesis_status_json Proposed = JStr ''proposed''"
| "hypothesis_status_json Supported = JStr ''supported''"
| "hypothesis_status_json Contradicted = JStr ''contradicted''"
| "hypothesis_status_json Inconclusive = JStr ''inconclusive''"

definition read_hypothesis_status :: "json \<Rightarrow> hypothesis_status option" where
  "read_hypothesis_status v =
     (if v = JStr ''proposed'' then Some Proposed
      else if v = JStr ''supported'' then Some Supported
      else if v = JStr ''contradicted'' then Some Contradicted
      else if v = JStr ''inconclusive'' then Some Inconclusive
      else None)"

definition status_entry_json :: "status_entry \<Rightarrow> json" where
  "status_entry_json e = JObj
     [(''reason'', JStr (status_reason e)), (''sequence'', json_of_int (status_sequence e)),
      (''status'', hypothesis_status_json (status_value e))]"

definition read_status_entry :: "json \<Rightarrow> status_entry option" where
  "read_status_entry v =
     (if \<not> strict_object [''reason'', ''sequence'', ''status''] v then None
      else
        Option.bind (required ''reason'' json_string v) (\<lambda>r.
        Option.bind (required ''sequence'' json_int v) (\<lambda>n.
        map_option (\<lambda>s. \<lparr>status_reason = r, status_sequence = n, status_value = s\<rparr>)
          (required ''status'' read_hypothesis_status v))))"

definition hypothesis_json :: "hypothesis \<Rightarrow> json" where
  "hypothesis_json y = JObj
     [(''evidenceIds'', JArr (map JStr (hyp_evidence_ids y))),
      (''expectedSignal'', JStr (hyp_expected_signal y)),
      (''falsificationCondition'', JStr (hyp_falsification y)), (''id'', JStr (hyp_id y)),
      (''priority'', json_of_int (hyp_priority y)), (''statement'', JStr (hyp_statement y)),
      (''status'', hypothesis_status_json (hyp_status y)),
      (''statusHistory'', JArr (map status_entry_json (hyp_history y)))]"

definition read_hypothesis :: "json \<Rightarrow> hypothesis option" where
  "read_hypothesis v =
     (if \<not> strict_object [''evidenceIds'', ''expectedSignal'', ''falsificationCondition'', ''id'',
         ''priority'', ''statement'', ''status'', ''statusHistory''] v then None
      else
        Option.bind (required ''evidenceIds'' (read_list json_string) v) (\<lambda>ids.
        Option.bind (required ''expectedSignal'' json_string v) (\<lambda>sg.
        Option.bind (required ''falsificationCondition'' json_string v) (\<lambda>f.
        Option.bind (required ''id'' json_string v) (\<lambda>i.
        Option.bind (required ''priority'' json_int v) (\<lambda>p.
        Option.bind (required ''statement'' json_string v) (\<lambda>st.
        Option.bind (required ''status'' read_hypothesis_status v) (\<lambda>k.
        Option.bind (required ''statusHistory'' (read_list read_status_entry) v) (\<lambda>es.
          checked hypothesis_ok (Some
            \<lparr>hyp_evidence_ids = ids, hyp_expected_signal = sg, hyp_falsification = f, hyp_id = i,
             hyp_priority = p, hyp_statement = st, hyp_status = k, hyp_history = es\<rparr>))))))))))"

section \<open>Summaries and minimization results\<close>

fun verification_status_json :: "verification_status \<Rightarrow> json" where
  "verification_status_json StatusVerified = JStr ''VERIFIED''"
| "verification_status_json StatusUnstable = JStr ''UNSTABLE''"
| "verification_status_json StatusNotReproduced = JStr ''NOT_REPRODUCED''"
| "verification_status_json StatusBlocked = JStr ''BLOCKED''"

definition read_verification_status :: "json \<Rightarrow> verification_status option" where
  "read_verification_status v =
     (if v = JStr ''VERIFIED'' then Some StatusVerified
      else if v = JStr ''UNSTABLE'' then Some StatusUnstable
      else if v = JStr ''NOT_REPRODUCED'' then Some StatusNotReproduced
      else if v = JStr ''BLOCKED'' then Some StatusBlocked
      else None)"

definition summary_json :: "ratio_host \<Rightarrow> verification_summary \<Rightarrow> json" where
  "summary_json R s = JObj
     [(''candidateMatches'', json_of_int (candidate_matches s)),
      (''controlMatched'', JBool (control_matched s)), (''oracleId'', JStr (summary_oracle_id s)),
      (''oracleVersion'', json_of_int (summary_oracle_version s)), (''reason'', JStr (summary_reason s)),
      (''repeatability'', JNum (ratio_text R (repeatability s))),
      (''requiredRuns'', json_of_int (required_runs s)),
      (''status'', verification_status_json (summary_status s)),
      (''totalCandidateRuns'', json_of_int (total_candidate_runs s))]"

definition json_ratio :: "ratio_host \<Rightarrow> json \<Rightarrow> rat option" where
  "json_ratio R v = (case v of JNum t \<Rightarrow> ratio_value R t | _ \<Rightarrow> None)"

definition read_summary :: "ratio_host \<Rightarrow> json \<Rightarrow> verification_summary option" where
  "read_summary R v =
     (if \<not> strict_object [''candidateMatches'', ''controlMatched'', ''oracleId'', ''oracleVersion'',
         ''reason'', ''repeatability'', ''requiredRuns'', ''status'', ''totalCandidateRuns''] v then None
      else
        Option.bind (required ''candidateMatches'' json_int v) (\<lambda>c.
        Option.bind (required ''controlMatched'' json_bool v) (\<lambda>b.
        Option.bind (required ''oracleId'' json_string v) (\<lambda>i.
        Option.bind (required ''oracleVersion'' json_int v) (\<lambda>n.
        Option.bind (required ''reason'' json_string v) (\<lambda>why.
        Option.bind (required ''repeatability'' (json_ratio R) v) (\<lambda>q.
        Option.bind (required ''requiredRuns'' json_int v) (\<lambda>rr.
        Option.bind (required ''status'' read_verification_status v) (\<lambda>k.
        Option.bind (required ''totalCandidateRuns'' json_int v) (\<lambda>tc.
          checked verification_summary_ok (Some
            \<lparr>candidate_matches = c, control_matched = b, summary_oracle_id = i,
             summary_oracle_version = n, summary_reason = why, repeatability = q,
             required_runs = rr, summary_status = k, total_candidate_runs = tc\<rparr>)))))))))))"

definition evaluation_json :: "ratio_host \<Rightarrow> minimization_evaluation \<Rightarrow> json" where
  "evaluation_json R e = JObj
     [(''id'', JStr (evaluation_id e)), (''removedInputs'', JArr (map JStr (evaluation_removed e))),
      (''summary'', summary_json R (evaluation_summary e))]"

definition read_evaluation :: "ratio_host \<Rightarrow> json \<Rightarrow> minimization_evaluation option" where
  "read_evaluation R v =
     (if \<not> strict_object [''id'', ''removedInputs'', ''summary''] v then None
      else
        Option.bind (required ''id'' json_string v) (\<lambda>i.
        Option.bind (required ''removedInputs'' (read_list json_string) v) (\<lambda>rs.
        map_option (\<lambda>s. \<lparr>evaluation_id = i, evaluation_removed = rs, evaluation_summary = s\<rparr>)
          (required ''summary'' (read_summary R) v))))"

definition nullable_string_json :: "string option \<Rightarrow> json" where
  "nullable_string_json s = (case s of None \<Rightarrow> JNull | Some t \<Rightarrow> JStr t)"

definition claim_json :: "minimization_claim \<Rightarrow> json" where
  "claim_json c =
     (case c of LocallyMinimized \<Rightarrow> JStr ''locally-minimized'' | BaselineRetained \<Rightarrow> JStr ''baseline-retained'')"

definition read_claim :: "json \<Rightarrow> minimization_claim option" where
  "read_claim v =
     (if v = JStr ''locally-minimized'' then Some LocallyMinimized
      else if v = JStr ''baseline-retained'' then Some BaselineRetained else None)"

definition minimization_json :: "ratio_host \<Rightarrow> minimization_result \<Rightarrow> json" where
  "minimization_json R m = JObj
     [(''acceptedReductionId'', nullable_string_json (accepted_reduction_id m)),
      (''acceptedRemovedInputs'', JArr (map JStr (accepted_removed_inputs m))),
      (''claim'', claim_json (minimization_result.minimization_claim m)),
      (''evaluations'', JArr (map (evaluation_json R) (evaluations m)))]"

definition read_minimization :: "ratio_host \<Rightarrow> json \<Rightarrow> minimization_result option" where
  "read_minimization R v =
     (if \<not> strict_object [''acceptedReductionId'', ''acceptedRemovedInputs'', ''claim'', ''evaluations''] v
      then None
      else
        Option.bind (required ''acceptedReductionId'' (nullable json_string) v) (\<lambda>i.
        Option.bind (required ''acceptedRemovedInputs'' (read_list json_string) v) (\<lambda>rs.
        Option.bind (required ''claim'' read_claim v) (\<lambda>c.
        Option.bind (required ''evaluations'' (read_list (read_evaluation R)) v) (\<lambda>es.
          checked minimization_result_ok (Some
            \<lparr>accepted_reduction_id = i, accepted_removed_inputs = rs,
             minimization_result.minimization_claim = c, evaluations = es\<rparr>))))))"


section \<open>What is written is read back\<close>

lemmas document_reads = required_def optional_def strict_object_def

lemma read_stream_json [simp]: "read_stream (stream_json s) = Some s"
  by (cases s) (simp_all add: read_stream_def)

lemma read_list_strings [simp]: "read_list json_string (JArr (map JStr ss)) = Some ss"
  by (simp add: read_list_map)

lemma read_expression_json:
  "oracle_expression_ok h e \<Longrightarrow> read_expression h (expression_json e) = Some e"
proof (induction e)
  case (ExitCode n)
  then show ?case by (simp add: read_expression.simps document_reads)
next
  case (OutputContains s t)
  then show ?case by (simp add: read_expression.simps document_reads)
next
  case (OutputRegex s p)
  then show ?case by (simp add: read_expression.simps document_reads)
next
  case (JsonField s path e)
  then show ?case by (cases e) (simp_all add: read_expression.simps document_reads)
next
  case (AllOf es)
  then have "those (map (read_expression h) (map expression_json es)) = Some es"
    by (intro those_map_Some) (auto simp: list_all_iff)
  then show ?case using AllOf.prems by (simp add: read_expression.simps document_reads)
next
  case (AnyOf es)
  then have "those (map (read_expression h) (map expression_json es)) = Some es"
    by (intro those_map_Some) (auto simp: list_all_iff)
  then show ?case using AnyOf.prems by (simp add: read_expression.simps document_reads)
next
  case (NotOf e)
  then show ?case by (simp add: read_expression.simps document_reads)
qed

lemma read_oracle_json: "failure_oracle_ok h orc \<Longrightarrow> read_oracle h (oracle_json orc) = Some orc"
  by (simp add: read_oracle_def oracle_json_def document_reads read_expression_json
      failure_oracle_ok_def checked_def)

lemma read_output_capture_json:
  "run_output_capture_ok c \<Longrightarrow> read_output_capture (output_capture_json c) = Some c"
  by (simp add: read_output_capture_def output_capture_json_def document_reads run_output_capture_ok_def)

lemma read_run_capture_json:
  "run_output_capture_ok (capture_stderr c) \<Longrightarrow> run_output_capture_ok (capture_stdout c) \<Longrightarrow>
   read_run_capture (run_capture_json c) = Some c"
  by (simp add: read_run_capture_def run_capture_json_def document_reads read_output_capture_json)

lemma read_run_json: "run_result_ok r \<Longrightarrow> read_run (run_json r) = Some r"
  by (cases "run_capture r")
    (simp_all add: read_run_def run_json_def document_reads read_run_capture_json checked_def
      run_result_ok_def)

lemma read_hypothesis_status_json [simp]: "read_hypothesis_status (hypothesis_status_json s) = Some s"
  by (cases s) (simp_all add: read_hypothesis_status_def)

lemma read_status_entry_json: "status_entry_ok e \<Longrightarrow> read_status_entry (status_entry_json e) = Some e"
  by (simp add: read_status_entry_def status_entry_json_def document_reads status_entry_ok_def)

lemma read_hypothesis_json: "hypothesis_ok y \<Longrightarrow> read_hypothesis (hypothesis_json y) = Some y"
proof -
  assume ok: "hypothesis_ok y"
  then have "read_list read_status_entry (JArr (map status_entry_json (hyp_history y))) = Some (hyp_history y)"
    by (intro read_list_map read_status_entry_json) (simp add: hypothesis_ok_def list_all_iff)
  moreover have "safe_int (hyp_priority y)" using ok by (simp add: hypothesis_ok_def safe_int_def max_safe_integer_def)
  ultimately show ?thesis
    using ok by (cases y) (simp add: read_hypothesis_def hypothesis_json_def document_reads checked_def)
qed

lemma read_verification_status_json [simp]:
  "read_verification_status (verification_status_json s) = Some s"
  by (cases s) (simp_all add: read_verification_status_def)

definition summary_ratio_ok :: "js_host \<Rightarrow> ratio_host \<Rightarrow> verification_summary \<Rightarrow> bool" where
  "summary_ratio_ok h R s \<longleftrightarrow> ratio_ok h R (repeatability s)"

lemma read_summary_json:
  "verification_summary_ok s \<Longrightarrow> summary_ratio_ok h R s \<Longrightarrow> read_summary R (summary_json R s) = Some s"
  by (simp add: read_summary_def summary_json_def document_reads checked_def verification_summary_ok_def
      summary_ratio_ok_def ratio_ok_def json_ratio_def)

lemma read_evaluation_json:
  "minimization_evaluation_ok e \<Longrightarrow> summary_ratio_ok h R (evaluation_summary e) \<Longrightarrow>
   read_evaluation R (evaluation_json R e) = Some e"
  by (simp add: read_evaluation_def evaluation_json_def document_reads minimization_evaluation_ok_def
      read_summary_json [of _ h])

lemma read_claim_json [simp]: "read_claim (claim_json c) = Some c"
  by (cases c) (simp_all add: read_claim_def claim_json_def)

lemma read_nullable_string [simp]: "nullable json_string (nullable_string_json s) = Some s"
  by (cases s) (simp_all add: nullable_def nullable_string_json_def)

lemma read_minimization_json:
  assumes "minimization_result_ok m" and "\<And>e. e \<in> set (evaluations m) \<Longrightarrow> summary_ratio_ok h R (evaluation_summary e)"
  shows "read_minimization R (minimization_json R m) = Some m"
proof -
  have "read_list (read_evaluation R) (JArr (map (evaluation_json R) (evaluations m))) = Some (evaluations m)"
    using assms by (intro read_list_map read_evaluation_json [of _ h])
      (simp_all add: minimization_result_ok_def list_all_iff)
  then show ?thesis
    using assms(1) by (cases m) (simp add: read_minimization_def minimization_json_def document_reads checked_def)
qed


section \<open>What is written is a JSON document\<close>

text \<open>The data inside a \<open>json_field\<close> expectation come from a parsed document.\<close>

fun expression_data_wf :: "js_host \<Rightarrow> oracle_expression \<Rightarrow> bool" where
  "expression_data_wf h (JsonField s path e) = pred_option (wf_json h) e"
| "expression_data_wf h (AllOf es) = list_all (expression_data_wf h) es"
| "expression_data_wf h (AnyOf es) = list_all (expression_data_wf h) es"
| "expression_data_wf h (NotOf e) = expression_data_wf h e"
| "expression_data_wf h _ = True"

lemma wf_strings [simp]: "wf_elements h (map JStr ss)"
  by (induction ss) auto

lemma wf_mapped: "(\<And>x. x \<in> set xs \<Longrightarrow> wf_json h (f x)) \<Longrightarrow> wf_json h (JArr (map f xs))"
  by (simp add: wf_elements_iff)

lemma wf_document:
  assumes "distinct (map fst kvs)" and "list_all (\<lambda>k. k = [] \<or> \<not> digit_char (hd k)) (map fst kvs)"
    and "list_all (\<lambda>kv. wf_json h (snd kv)) kvs"
  shows "wf_json h (JObj kvs)"
  by (rule wf_named_object [OF assms(1,2)]) (use assms(3) in \<open>force simp: list_all_iff\<close>)

lemmas letter_simps = digit_char_def code_unit_def

lemma wf_stream_json [simp]: "wf_json h (stream_json s)"
  by (cases s) simp_all

lemma wf_expression_json:
  "host_numbers h \<Longrightarrow> oracle_expression_ok h e \<Longrightarrow> expression_data_wf h e \<Longrightarrow> wf_json h (expression_json e)"
proof (induction e)
  case (ExitCode n)
  then show ?case unfolding expression_json.simps
    by (intro wf_document) (auto simp: letter_simps wf_json_int)
next
  case (OutputContains s t)
  then show ?case unfolding expression_json.simps by (intro wf_document) (auto simp: letter_simps)
next
  case (OutputRegex s p)
  then show ?case unfolding expression_json.simps by (intro wf_document) (auto simp: letter_simps)
next
  case (JsonField s path e)
  then show ?case unfolding expression_json.simps
    by (intro wf_document) (auto simp: letter_simps split: option.splits)
next
  case (AllOf es)
  then have "wf_json h (JArr (map expression_json es))" by (intro wf_mapped) (auto simp: list_all_iff)
  then show ?case unfolding expression_json.simps by (intro wf_document) (auto simp: letter_simps)
next
  case (AnyOf es)
  then have "wf_json h (JArr (map expression_json es))" by (intro wf_mapped) (auto simp: list_all_iff)
  then show ?case unfolding expression_json.simps by (intro wf_document) (auto simp: letter_simps)
next
  case (NotOf e)
  then show ?case unfolding expression_json.simps by (intro wf_document) (auto simp: letter_simps)
qed

lemma wf_oracle_json:
  assumes "host_numbers h" and "failure_oracle_ok h orc" and "expression_data_wf h (oracle_root orc)"
  shows "wf_json h (oracle_json orc)"
  using assms wf_expression_json [of h "oracle_root orc"] unfolding oracle_json_def
  by (intro wf_document) (auto simp: letter_simps wf_json_int failure_oracle_ok_def)

lemma wf_output_capture_json:
  "host_numbers h \<Longrightarrow> run_output_capture_ok c \<Longrightarrow> wf_json h (output_capture_json c)"
  unfolding output_capture_json_def
  by (intro wf_document) (auto simp: letter_simps wf_json_int run_output_capture_ok_def)

lemma wf_run_json:
  assumes h: "host_numbers h" and ok: "run_result_ok r"
  shows "wf_json h (run_json r)"
proof -
  have "wf_json h (run_capture_json c)" if "run_capture r = Some c" for c
    using ok that unfolding run_capture_json_def
    by (intro wf_document) (auto simp: letter_simps run_result_ok_def wf_output_capture_json [OF h])
  then show ?thesis
    using ok unfolding run_json_def
    by (intro wf_document)
      (auto simp: letter_simps wf_json_int [OF h] run_result_ok_def split: option.splits)
qed

lemma wf_status_json [simp]: "wf_json h (hypothesis_status_json s)" "wf_json h (verification_status_json k)"
  by (cases s; simp) (cases k; simp)

lemma wf_hypothesis_json:
  assumes h: "host_numbers h" and ok: "hypothesis_ok y"
  shows "wf_json h (hypothesis_json y)"
proof -
  have "wf_json h (status_entry_json e)" if "e \<in> set (hyp_history y)" for e
    using ok that unfolding status_entry_json_def
    by (intro wf_document)
      (auto simp: letter_simps wf_json_int [OF h] hypothesis_ok_def status_entry_ok_def list_all_iff)
  then have "wf_json h (JArr (map status_entry_json (hyp_history y)))" by (rule wf_mapped)
  moreover have "safe_int (hyp_priority y)" using ok by (simp add: hypothesis_ok_def safe_int_def max_safe_integer_def)
  ultimately show ?thesis
    unfolding hypothesis_json_def by (intro wf_document) (auto simp: letter_simps wf_json_int [OF h])
qed

lemma wf_summary_json:
  assumes h: "host_numbers h" and ok: "verification_summary_ok s" and R: "summary_ratio_ok h R s"
  shows "wf_json h (summary_json R s)"
  using ok R unfolding summary_json_def
  by (intro wf_document)
    (auto simp: letter_simps wf_json_int [OF h] verification_summary_ok_def summary_ratio_ok_def ratio_ok_def)

lemma wf_minimization_json:
  assumes h: "host_numbers h" and ok: "minimization_result_ok m"
    and R: "\<And>e. e \<in> set (evaluations m) \<Longrightarrow> summary_ratio_ok h R (evaluation_summary e)"
  shows "wf_json h (minimization_json R m)"
proof -
  have "wf_json h (evaluation_json R e)" if "e \<in> set (evaluations m)" for e
    using ok that wf_summary_json [OF h _ R [OF that]] unfolding evaluation_json_def
    by (intro wf_document)
      (auto simp: letter_simps minimization_result_ok_def minimization_evaluation_ok_def list_all_iff)
  then have "wf_json h (JArr (map (evaluation_json R) (evaluations m)))" by (rule wf_mapped)
  moreover have "wf_json h (claim_json c)" for c by (cases c) (simp_all add: claim_json_def)
  moreover have "wf_json h (nullable_string_json s)" for s by (cases s) (simp_all add: nullable_string_json_def)
  ultimately show ?thesis
    unfolding minimization_json_def by (intro wf_document) (auto simp: letter_simps)
qed

end
