(* ===== verification/Bundle.thy ===== *)
theory Bundle
  imports Documents
begin

text \<open>
  src/src/domain/bundle.ts: the Repro Bundle - its schema with the agreement of summary,
  oracle and lock, its creation with the canonical hash, the eight files it is
  materialized into, and the validation of such files.

  The time format of \<open>z.string().datetime()\<close> is the argument \<open>datetime\<close>.
\<close>

section \<open>The bundle\<close>

record bundle_lock =
  lock_command :: string
  lock_dependency_hash :: string
  lock_environment :: "(string \<times> string) list"
  lock_environment_hash :: string
  lock_oracle_id :: string
  lock_oracle_version :: int
  lock_package_manager :: string
  lock_repository :: string
  lock_tree_hash :: string
  lock_tool_version :: string
  lock_revision :: string
  lock_runner :: string
  lock_runtime :: string

text \<open>A JavaScript object of strings: keys in property order, without \<open>__proto__\<close>.\<close>

definition string_record_ok :: "(string \<times> string) list \<Rightarrow> bool" where
  "string_record_ok kvs \<longleftrightarrow> own_properties kvs = kvs \<and> list_all (\<lambda>kv. fst kv \<noteq> ''__proto__'') kvs"

definition tool_version_string :: "string \<Rightarrow> bool" where
  "tool_version_string s \<longleftrightarrow>
     length (split_on (CHR ''.'') s) = 3 \<and>
     list_all (\<lambda>part. part \<noteq> [] \<and> list_all digit_char part) (split_on (CHR ''.'') s)"

definition bundle_lock_ok :: "bundle_lock \<Rightarrow> bool" where
  "bundle_lock_ok l \<longleftrightarrow>
     lock_command l \<noteq> [] \<and> sha256_string (lock_dependency_hash l) \<and>
     string_record_ok (lock_environment l) \<and> lock_environment_hash l \<noteq> [] \<and>
     lock_oracle_id l \<noteq> [] \<and> 0 < lock_oracle_version l \<and> safe_int (lock_oracle_version l) \<and>
     lock_package_manager l \<noteq> [] \<and> lock_repository l \<noteq> [] \<and> sha256_string (lock_tree_hash l) \<and>
     tool_version_string (lock_tool_version l) \<and> lock_revision l \<noteq> [] \<and> lock_runner l \<noteq> [] \<and>
     lock_runtime l \<noteq> []"

record bundle_input =
  bundle_case_id :: string
  bundle_generated_at :: string
  bundle_ledger :: "hypothesis list"
  bundle_lock_data :: bundle_lock
  bundle_minimization :: minimization_result
  bundle_oracle :: failure_oracle
  bundle_patch :: string
  bundle_run_log :: "run_result list"
  bundle_summary :: verification_summary

record repro_bundle = bundle_input +
  bundle_hash :: string

text \<open>The \<open>superRefine\<close> of the schema.\<close>

definition bundle_refined :: "'a bundle_input_scheme \<Rightarrow> bool" where
  "bundle_refined b \<longleftrightarrow>
     summary_status (bundle_summary b) = StatusVerified \<and>
     summary_oracle_id (bundle_summary b) = oracle_id (bundle_oracle b) \<and>
     summary_oracle_version (bundle_summary b) = oracle_version (bundle_oracle b) \<and>
     lock_oracle_id (bundle_lock_data b) = oracle_id (bundle_oracle b) \<and>
     lock_oracle_version (bundle_lock_data b) = oracle_version (bundle_oracle b)"

definition bundle_fields_ok :: "js_host \<Rightarrow> (string \<Rightarrow> bool) \<Rightarrow> 'a bundle_input_scheme \<Rightarrow> bool" where
  "bundle_fields_ok h datetime b \<longleftrightarrow>
     bundle_case_id b \<noteq> [] \<and> datetime (bundle_generated_at b) \<and>
     list_all hypothesis_ok (bundle_ledger b) \<and> bundle_lock_ok (bundle_lock_data b) \<and>
     minimization_result_ok (bundle_minimization b) \<and> failure_oracle_ok h (bundle_oracle b) \<and>
     list_all run_result_ok (bundle_run_log b) \<and> verification_summary_ok (bundle_summary b)"

definition repro_bundle_ok :: "js_host \<Rightarrow> (string \<Rightarrow> bool) \<Rightarrow> repro_bundle \<Rightarrow> bool" where
  "repro_bundle_ok h datetime b \<longleftrightarrow>
     sha256_string (bundle_hash b) \<and> bundle_fields_ok h datetime b \<and> bundle_refined b"

section \<open>Creation\<close>

fun value_of_json :: "json \<Rightarrow> js_value" where
  "value_of_json JNull = VNull"
| "value_of_json (JBool b) = VBool b"
| "value_of_json (JNum t) = VNum t"
| "value_of_json (JStr s) = VStr s"
| "value_of_json (JArr vs) = VArr (map value_of_json vs)"
| "value_of_json (JObj kvs) = VObj (map (\<lambda>(k, v). (k, value_of_json v)) kvs)"

definition lock_members :: "bundle_lock \<Rightarrow> (string \<times> json) list" where
  "lock_members l =
     [(''command'', JStr (lock_command l)), (''dependencyLockHash'', JStr (lock_dependency_hash l)),
      (''environment'', JObj (map (\<lambda>(k, v). (k, JStr v)) (lock_environment l))),
      (''environmentHash'', JStr (lock_environment_hash l)), (''oracleId'', JStr (lock_oracle_id l)),
      (''oracleVersion'', json_of_int (lock_oracle_version l)),
      (''packageManager'', JStr (lock_package_manager l)), (''repository'', JStr (lock_repository l)),
      (''repositoryTreeHash'', JStr (lock_tree_hash l)),
      (''reproForgeVersion'', JStr (lock_tool_version l)), (''revision'', JStr (lock_revision l)),
      (''runner'', JStr (lock_runner l)), (''runtime'', JStr (lock_runtime l))]"

definition base_json :: "ratio_host \<Rightarrow> 'a bundle_input_scheme \<Rightarrow> json" where
  "base_json R b = JObj
     [(''caseId'', JStr (bundle_case_id b)), (''generatedAt'', JStr (bundle_generated_at b)),
      (''hypothesisLedger'', JArr (map hypothesis_json (bundle_ledger b))),
      (''lock'', JObj (lock_members (bundle_lock_data b))),
      (''minimization'', minimization_json R (bundle_minimization b)),
      (''oracle'', oracle_json (bundle_oracle b)), (''reproductionPatch'', JStr (bundle_patch b)),
      (''runLog'', JArr (map run_json (bundle_run_log b))),
      (''summary'', summary_json R (bundle_summary b)), (''schemaVersion'', JStr ''1.1'')]"

datatype bundle_error = BundleCanonical canonical_error | BundleSchema

definition create_bundle ::
  "js_host \<Rightarrow> ratio_host \<Rightarrow> (string \<Rightarrow> bool) \<Rightarrow> bundle_input \<Rightarrow> bundle_error + repro_bundle" where
  "create_bundle h R datetime i =
     (case hash_canonical h (value_of_json (base_json R i)) of
        Inl e \<Rightarrow> Inl (BundleCanonical e)
      | Inr d \<Rightarrow>
          parse_as (repro_bundle_ok h datetime) BundleSchema
            (bundle_input.extend i (repro_bundle.fields d)))"

section \<open>The files\<close>

definition newline :: string where
  "newline = [CHR 0x0A]"

definition reproduction_markdown :: "repro_bundle \<Rightarrow> string" where
  "reproduction_markdown b = join newline
     [''# Reproduction'', [],
      ''Case: `'' @ bundle_case_id b @ ''`'',
      ''Bundle: `'' @ bundle_hash b @ ''`'', [],
      ''## Run'', [],
      ''```bash'', lock_command (bundle_lock_data b), ''```'', [],
      ''## Expected failure'', [],
      summary_reason (bundle_summary b), []]"

definition required_bundle_files :: "string list" where
  "required_bundle_files =
     [''REPRO.md'', ''reproforge.lock.json'', ''failure-signature.json'', ''reproduction.patch'',
      ''artifacts/redacted-run-log.jsonl'', ''artifacts/hypothesis-ledger.json'',
      ''artifacts/minimization.json'', ''artifacts/verification-summary.json'']"

definition lock_document :: "repro_bundle \<Rightarrow> json" where
  "lock_document b = JObj
     ([(''bundleHash'', JStr (bundle_hash b)), (''schemaVersion'', JStr ''1.1'')] @
      lock_members (bundle_lock_data b))"

definition materialize_bundle ::
  "js_host \<Rightarrow> ratio_host \<Rightarrow> (string \<Rightarrow> bool) \<Rightarrow> repro_bundle \<Rightarrow> bundle_error + (string \<times> string) list" where
  "materialize_bundle h R datetime b =
     and_then (parse_as (repro_bundle_ok h datetime) BundleSchema b) (\<lambda>p. Inr
       [(''REPRO.md'', reproduction_markdown p),
        (''reproforge.lock.json'', json_pretty (lock_document p)),
        (''failure-signature.json'', json_pretty (oracle_json (bundle_oracle p))),
        (''reproduction.patch'', bundle_patch p),
        (''artifacts/redacted-run-log.jsonl'',
         join newline (map (\<lambda>r. json_text (run_json r)) (bundle_run_log p))),
        (''artifacts/hypothesis-ledger.json'',
         json_pretty (JArr (map hypothesis_json (bundle_ledger p)))),
        (''artifacts/minimization.json'', json_pretty (minimization_json R (bundle_minimization p))),
        (''artifacts/verification-summary.json'', json_pretty (summary_json R (bundle_summary p)))])"

section \<open>Validation\<close>

definition read_string_record :: "json \<Rightarrow> (string \<times> string) list option" where
  "read_string_record v =
     (case v of
        JObj kvs \<Rightarrow>
          those (map (\<lambda>(k, w). map_option (Pair k) (json_string w))
            (filter (\<lambda>kv. fst kv \<noteq> ''__proto__'') kvs))
      | _ \<Rightarrow> None)"

definition read_lock_document :: "json \<Rightarrow> (string \<times> bundle_lock) option" where
  "read_lock_document v =
     (if \<not> strict_object [''bundleHash'', ''schemaVersion'', ''command'', ''dependencyLockHash'',
         ''environment'', ''environmentHash'', ''oracleId'', ''oracleVersion'', ''packageManager'',
         ''repository'', ''repositoryTreeHash'', ''reproForgeVersion'', ''revision'', ''runner'',
         ''runtime''] v \<or> json_member ''schemaVersion'' v \<noteq> Some (JStr ''1.1'') then None
      else
        Option.bind (checked sha256_string (required ''bundleHash'' json_string v)) (\<lambda>bh.
        Option.bind (required ''command'' json_string v) (\<lambda>c.
        Option.bind (required ''dependencyLockHash'' json_string v) (\<lambda>d.
        Option.bind (required ''environment'' read_string_record v) (\<lambda>env.
        Option.bind (required ''environmentHash'' json_string v) (\<lambda>eh.
        Option.bind (required ''oracleId'' json_string v) (\<lambda>i.
        Option.bind (required ''oracleVersion'' json_int v) (\<lambda>n.
        Option.bind (required ''packageManager'' json_string v) (\<lambda>pm.
        Option.bind (required ''repository'' json_string v) (\<lambda>rep.
        Option.bind (required ''repositoryTreeHash'' json_string v) (\<lambda>th.
        Option.bind (required ''reproForgeVersion'' json_string v) (\<lambda>tv.
        Option.bind (required ''revision'' json_string v) (\<lambda>rev.
        Option.bind (required ''runner'' json_string v) (\<lambda>rn.
        Option.bind (required ''runtime'' json_string v) (\<lambda>rt.
        map_option (Pair bh) (checked bundle_lock_ok (Some
          \<lparr>lock_command = c, lock_dependency_hash = d, lock_environment = env,
           lock_environment_hash = eh, lock_oracle_id = i, lock_oracle_version = n,
           lock_package_manager = pm, lock_repository = rep, lock_tree_hash = th,
           lock_tool_version = tv, lock_revision = rev, lock_runner = rn,
           lock_runtime = rt\<rparr>)))))))))))))))))"

definition file_text :: "(string \<times> string) list \<Rightarrow> string \<Rightarrow> string" where
  "file_text files path = (case map_of files path of None \<Rightarrow> [] | Some t \<Rightarrow> t)"

text \<open>One \<open>parse\<close> of the validator: an error unless the file is JSON that the schema accepts.\<close>

definition read_bundle_file ::
  "js_host \<Rightarrow> (string \<times> string) list \<Rightarrow> string \<Rightarrow> (json \<Rightarrow> 'a option) \<Rightarrow> 'a option" where
  "read_bundle_file h files path f = Option.bind (json_parse h (file_text files path)) f"

definition parse_file ::
  "js_host \<Rightarrow> (string \<times> string) list \<Rightarrow> string \<Rightarrow> (json \<Rightarrow> 'a option) \<Rightarrow> string list" where
  "parse_file h files path f =
     (case read_bundle_file h files path f of None \<Rightarrow> [''Invalid '' @ path] | Some _ \<Rightarrow> [])"

definition log_lines :: "string \<Rightarrow> string list" where
  "log_lines t = filter (\<lambda>l. l \<noteq> []) (split_on (CHR 0x0A) t)"

definition read_run_line :: "js_host \<Rightarrow> string \<Rightarrow> run_result option" where
  "read_run_line h l = Option.bind (json_parse h l) read_run"

definition bundle_file_errors ::
  "js_host \<Rightarrow> ratio_host \<Rightarrow> (string \<times> string) list \<Rightarrow> string list" where
  "bundle_file_errors h R files =
     map (\<lambda>f. ''Missing required file: '' @ f)
       (filter (\<lambda>f. map_of files f = None) required_bundle_files) @
     parse_file h files ''failure-signature.json'' (read_oracle h) @
     parse_file h files ''reproforge.lock.json'' read_lock_document @
     parse_file h files ''artifacts/hypothesis-ledger.json'' (read_list read_hypothesis) @
     parse_file h files ''artifacts/minimization.json'' (read_minimization R) @
     parse_file h files ''artifacts/verification-summary.json'' (read_summary R) @
     (if has_substring ''## Run'' (file_text files ''REPRO.md'') then []
      else [''REPRO.md does not contain a run command'']) @
     (if list_all (\<lambda>l. read_run_line h l \<noteq> None)
        (log_lines (file_text files ''artifacts/redacted-run-log.jsonl''))
      then [] else [''Invalid artifacts/redacted-run-log.jsonl''])"

datatype bundle_validation = BundleValid | BundleInvalid "string list"

definition validate_materialized_bundle ::
  "js_host \<Rightarrow> ratio_host \<Rightarrow> (string \<times> string) list \<Rightarrow> bundle_validation" where
  "validate_materialized_bundle h R files =
     (let errors = bundle_file_errors h R files
      in if errors = [] then BundleValid else BundleInvalid errors)"

definition summary_requires_verified :: "verification_summary \<Rightarrow> bool" where
  "summary_requires_verified s \<longleftrightarrow> summary_status s = StatusVerified"


section \<open>A materialized bundle validates\<close>

text \<open>The host's side: its texts of integers and ratios are read back, and data are JSON.\<close>

definition bundle_data_ok :: "js_host \<Rightarrow> ratio_host \<Rightarrow> 'a bundle_input_scheme \<Rightarrow> bool" where
  "bundle_data_ok h R b \<longleftrightarrow>
     host_numbers h \<and> expression_data_wf h (oracle_root (bundle_oracle b)) \<and>
     summary_ratio_ok h R (bundle_summary b) \<and>
     list_all (\<lambda>e. summary_ratio_ok h R (evaluation_summary e)) (evaluations (bundle_minimization b))"

lemma read_string_record_json:
  "list_all (\<lambda>kv. fst kv \<noteq> ''__proto__'') kvs \<Longrightarrow>
   read_string_record (JObj (map (\<lambda>(k, v). (k, JStr v)) kvs)) = Some kvs"
  by (induction kvs) (auto simp: read_string_record_def)

lemma read_lock_document_json:
  assumes "sha256_string (bundle_hash b)" and "bundle_lock_ok (bundle_lock_data b)"
  shows "read_lock_document (lock_document b) = Some (bundle_hash b, bundle_lock_data b)"
proof -
  have "read_string_record (JObj (map (\<lambda>(k, v). (k, JStr v)) (lock_environment (bundle_lock_data b)))) =
      Some (lock_environment (bundle_lock_data b))"
    using assms(2) by (intro read_string_record_json) (simp add: bundle_lock_ok_def string_record_ok_def)
  moreover have "safe_int (lock_oracle_version (bundle_lock_data b))"
    using assms(2) by (simp add: bundle_lock_ok_def)
  ultimately show ?thesis
    using assms by (cases "bundle_lock_data b")
      (simp add: read_lock_document_def lock_document_def lock_members_def document_reads checked_def)
qed

lemma property_order_map:
  "property_order (map (\<lambda>(k, v). (k, f v)) kvs) = map (\<lambda>(k, v). (k, f v)) (property_order kvs)"
proof -
  let ?m = "\<lambda>(k, v). (k, f v)"
  have ins: "insert_by index_before (?m x) (map ?m ys) = map ?m (insert_by index_before x ys)" for x ys
    by (induction ys) (auto simp: index_before_def split: prod.splits)
  have "sort_by index_before (map ?m ys) = map ?m (sort_by index_before ys)" for ys
    by (induction ys) (simp_all add: sort_by_def ins [simplified case_prod_unfold] case_prod_unfold)
  moreover have "filter (\<lambda>kv. P (fst kv)) (map ?m ys) = map ?m (filter (\<lambda>kv. P (fst kv)) ys)" for P ys
    by (induction ys) auto
  note this [of array_index] this [of "\<lambda>k. \<not> array_index k"]
  ultimately show ?thesis unfolding property_order_def by simp
qed

lemma wf_string_record:
  assumes "string_record_ok kvs"
  shows "wf_json h (JObj (map (\<lambda>(k, v). (k, JStr v)) kvs))"
proof -
  let ?m = "\<lambda>(k, v). (k, JStr v)"
  have own: "own_properties kvs = kvs" using assms by (simp add: string_record_ok_def)
  then have d: "distinct (map fst kvs)" using own_properties_keys_distinct [of kvs] by simp
  moreover have "map fst (map ?m kvs) = map fst kvs" by auto
  ultimately have "distinct (map fst (map ?m kvs))" by (simp only:)
  then have "own_properties (map ?m kvs) = map ?m (property_order kvs)"
    by (simp only: own_properties_distinct property_order_map)
  then have "own_properties (map ?m kvs) = map ?m kvs"
    using own own_properties_distinct [OF d] by simp
  then show ?thesis by (auto simp: wf_members_iff)
qed

lemma wf_lock_document:
  assumes "host_numbers h" and "bundle_lock_ok (bundle_lock_data b)"
  shows "wf_json h (lock_document b)"
  using assms wf_string_record [of "lock_environment (bundle_lock_data b)" h]
  unfolding lock_document_def lock_members_def
  by (intro wf_document)
    (auto simp: letter_simps wf_json_int bundle_lock_ok_def simp del: wf_json.simps(3))

lemma read_bundle_file_pretty:
  "map_of files path = Some (json_pretty v) \<Longrightarrow> wf_json h v \<Longrightarrow> read_bundle_file h files path f = f v"
  by (simp add: read_bundle_file_def file_text_def json_parse_pretty)

lemma json_text_nonempty: "wf_json h v \<Longrightarrow> json_text v \<noteq> []"
  using json_text_nonspace [of h v] by auto

lemma json_text_one_line: "wf_json h v \<Longrightarrow> CHR 0x0A \<notin> set (json_text v)"
  using json_text_printable(1) [of h v "CHR 0x0A"] by (auto simp: code_unit_def)

lemma log_lines_join:
  assumes "\<And>v. v \<in> set vs \<Longrightarrow> wf_json h v"
  shows "log_lines (join newline (map json_text vs)) = map json_text vs"
proof (cases "vs = []")
  case True
  then show ?thesis by (simp add: log_lines_def)
next
  case False
  have "split_on (CHR 0x0A) (join newline (map json_text vs)) = map json_text vs"
    unfolding newline_def using False assms json_text_one_line by (intro split_on_join) auto
  moreover have "filter (\<lambda>l. l \<noteq> []) (map json_text vs) = map json_text vs"
    using assms json_text_nonempty by (auto simp: filter_id_conv)
  ultimately show ?thesis by (simp add: log_lines_def)
qed


definition bundle_files :: "js_host \<Rightarrow> ratio_host \<Rightarrow> repro_bundle \<Rightarrow> (string \<times> string) list" where
  "bundle_files h R b =
     [(''REPRO.md'', reproduction_markdown b),
      (''reproforge.lock.json'', json_pretty (lock_document b)),
      (''failure-signature.json'', json_pretty (oracle_json (bundle_oracle b))),
      (''reproduction.patch'', bundle_patch b),
      (''artifacts/redacted-run-log.jsonl'',
       join newline (map json_text (map run_json (bundle_run_log b)))),
      (''artifacts/hypothesis-ledger.json'', json_pretty (JArr (map hypothesis_json (bundle_ledger b)))),
      (''artifacts/minimization.json'', json_pretty (minimization_json R (bundle_minimization b))),
      (''artifacts/verification-summary.json'', json_pretty (summary_json R (bundle_summary b)))]"

lemma materialize_bundle_ok:
  "repro_bundle_ok h datetime b \<Longrightarrow> materialize_bundle h R datetime b = Inr (bundle_files h R b)"
  by (simp add: materialize_bundle_def bundle_files_def parse_as_def and_then_def comp_def)

lemma map_of_bundle_files:
  "map_of (bundle_files h R b) ''REPRO.md'' = Some (reproduction_markdown b)"
  "map_of (bundle_files h R b) ''reproforge.lock.json'' = Some (json_pretty (lock_document b))"
  "map_of (bundle_files h R b) ''failure-signature.json'' = Some (json_pretty (oracle_json (bundle_oracle b)))"
  "map_of (bundle_files h R b) ''reproduction.patch'' = Some (bundle_patch b)"
  "map_of (bundle_files h R b) ''artifacts/redacted-run-log.jsonl'' =
     Some (join newline (map json_text (map run_json (bundle_run_log b))))"
  "map_of (bundle_files h R b) ''artifacts/hypothesis-ledger.json'' =
     Some (json_pretty (JArr (map hypothesis_json (bundle_ledger b))))"
  "map_of (bundle_files h R b) ''artifacts/minimization.json'' =
     Some (json_pretty (minimization_json R (bundle_minimization b)))"
  "map_of (bundle_files h R b) ''artifacts/verification-summary.json'' =
     Some (json_pretty (summary_json R (bundle_summary b)))"
  by (simp_all add: bundle_files_def)

lemma has_substring_append: "has_substring p s \<Longrightarrow> has_substring p (r @ s)"
  by (induction r) simp_all

lemma markdown_runs: "has_substring ''## Run'' (reproduction_markdown b)"
  by (simp add: reproduction_markdown_def newline_def has_substring_append)


lemma data_host:
  assumes "bundle_data_ok h R b"
  shows "host_numbers h"
  using assms by (simp add: bundle_data_ok_def)

lemma bundle_reads:
  assumes ok: "repro_bundle_ok h datetime b" and data: "bundle_data_ok h R b"
    and "\<And>path. path \<in> set required_bundle_files \<Longrightarrow> map_of files path = map_of (bundle_files h R b) path"
  shows "read_bundle_file h files ''reproforge.lock.json'' read_lock_document =
      Some (bundle_hash b, bundle_lock_data b)"
    and "read_bundle_file h files ''failure-signature.json'' (read_oracle h) = Some (bundle_oracle b)"
    and "read_bundle_file h files ''artifacts/hypothesis-ledger.json'' (read_list read_hypothesis) =
      Some (bundle_ledger b)"
    and "read_bundle_file h files ''artifacts/minimization.json'' (read_minimization R) =
      Some (bundle_minimization b)"
    and "read_bundle_file h files ''artifacts/verification-summary.json'' (read_summary R) =
      Some (bundle_summary b)"
proof -
  note files = assms(3) [unfolded required_bundle_files_def] map_of_bundle_files
  have parts: "bundle_lock_ok (bundle_lock_data b)" "failure_oracle_ok h (bundle_oracle b)"
      "list_all hypothesis_ok (bundle_ledger b)" "minimization_result_ok (bundle_minimization b)"
      "verification_summary_ok (bundle_summary b)" "sha256_string (bundle_hash b)"
    using ok by (simp_all add: repro_bundle_ok_def bundle_fields_ok_def)
  have ratio: "summary_ratio_ok h R (bundle_summary b)"
      "\<And>e. e \<in> set (evaluations (bundle_minimization b)) \<Longrightarrow> summary_ratio_ok h R (evaluation_summary e)"
      "expression_data_wf h (oracle_root (bundle_oracle b))"
    using data by (simp_all add: bundle_data_ok_def list_all_iff)
  have ledger: "wf_json h (JArr (map hypothesis_json (bundle_ledger b)))"
    using parts(3) by (intro wf_mapped wf_hypothesis_json data_host [OF data]) (simp add: list_all_iff)
  show "read_bundle_file h files ''reproforge.lock.json'' read_lock_document = Some (bundle_hash b, bundle_lock_data b)"
    using parts by (subst read_bundle_file_pretty [where v = "lock_document b"])
      (simp_all add: files wf_lock_document data_host [OF data] read_lock_document_json)
  show "read_bundle_file h files ''failure-signature.json'' (read_oracle h) = Some (bundle_oracle b)"
    using parts ratio by (subst read_bundle_file_pretty [where v = "oracle_json (bundle_oracle b)"])
      (simp_all add: files wf_oracle_json data_host [OF data] read_oracle_json)
  show "read_bundle_file h files ''artifacts/hypothesis-ledger.json'' (read_list read_hypothesis) = Some (bundle_ledger b)"
    using parts ledger by (subst read_bundle_file_pretty [OF _ ledger])
      (simp_all add: files list_all_iff read_hypothesis_json)
  show "read_bundle_file h files ''artifacts/minimization.json'' (read_minimization R) = Some (bundle_minimization b)"
    using parts ratio by (subst read_bundle_file_pretty [where v = "minimization_json R (bundle_minimization b)"])
      (simp_all add: files wf_minimization_json data_host [OF data] read_minimization_json [of _ h])
  show "read_bundle_file h files ''artifacts/verification-summary.json'' (read_summary R) = Some (bundle_summary b)"
    using parts ratio by (subst read_bundle_file_pretty [where v = "summary_json R (bundle_summary b)"])
      (simp_all add: files wf_summary_json data_host [OF data] read_summary_json [of _ h])
qed

lemma log_reads:
  assumes ok: "repro_bundle_ok h datetime b" and data: "bundle_data_ok h R b"
  shows "map (read_run_line h) (log_lines (file_text (bundle_files h R b) ''artifacts/redacted-run-log.jsonl'')) =
   map Some (bundle_run_log b)"
proof -
  have runs: "run_result_ok r" if "r \<in> set (bundle_run_log b)" for r
    using ok that by (simp add: repro_bundle_ok_def bundle_fields_ok_def list_all_iff)
  then have wf: "wf_json h (run_json r)" if "r \<in> set (bundle_run_log b)" for r
    using that by (simp add: wf_run_json data_host [OF data])
  then have "log_lines (join newline (map json_text (map run_json (bundle_run_log b)))) =
      map json_text (map run_json (bundle_run_log b))"
    by (intro log_lines_join) auto
  then show ?thesis
    using wf runs by (auto simp: file_text_def map_of_bundle_files read_run_line_def json_parse_wf read_run_json)
qed


lemma parse_file_Nil [simp]: "parse_file h files path f = [] \<longleftrightarrow> read_bundle_file h files path f \<noteq> None"
  by (auto simp: parse_file_def split: option.splits)

lemma validate_iff:
  "validate_materialized_bundle h R files = BundleValid \<longleftrightarrow>
     (\<forall>f \<in> set required_bundle_files. map_of files f \<noteq> None) \<and>
     read_bundle_file h files ''failure-signature.json'' (read_oracle h) \<noteq> None \<and>
     read_bundle_file h files ''reproforge.lock.json'' read_lock_document \<noteq> None \<and>
     read_bundle_file h files ''artifacts/hypothesis-ledger.json'' (read_list read_hypothesis) \<noteq> None \<and>
     read_bundle_file h files ''artifacts/minimization.json'' (read_minimization R) \<noteq> None \<and>
     read_bundle_file h files ''artifacts/verification-summary.json'' (read_summary R) \<noteq> None \<and>
     has_substring ''## Run'' (file_text files ''REPRO.md'') \<and>
     list_all (\<lambda>l. read_run_line h l \<noteq> None)
       (log_lines (file_text files ''artifacts/redacted-run-log.jsonl''))"
  by (auto simp: validate_materialized_bundle_def bundle_file_errors_def Let_def filter_empty_conv)

lemma required_files_present: "f \<in> set required_bundle_files \<Longrightarrow> map_of (bundle_files h R b) f \<noteq> None"
  by (auto simp: required_bundle_files_def map_of_bundle_files)

lemma valid_bundle_files:
  assumes ok: "repro_bundle_ok h datetime b" and data: "bundle_data_ok h R b"
  shows "validate_materialized_bundle h R (bundle_files h R b) = BundleValid"
proof -
  have "list_all (\<lambda>l. read_run_line h l \<noteq> None)
      (log_lines (file_text (bundle_files h R b) ''artifacts/redacted-run-log.jsonl''))"
    using log_reads [OF ok data, THEN arg_cong, of set] by (force simp: list_all_iff)
  then show ?thesis
    using bundle_reads [OF ok data refl] required_files_present markdown_runs [of b]
    by (simp add: validate_iff file_text_def map_of_bundle_files)
qed

text \<open>
  C29. Every bundle that satisfies the schema is materialized into the eight required files;
  these validate, and oracle, lock, hash, hypotheses, runs, minimization and summary are
  read back from them exactly.
\<close>

theorem materialized_bundle_roundtrip:
  assumes ok: "repro_bundle_ok h datetime b" and data: "bundle_data_ok h R b"
  shows "\<exists>files. materialize_bundle h R datetime b = Inr files \<and>
    map fst files = required_bundle_files \<and>
    validate_materialized_bundle h R files = BundleValid \<and>
    read_bundle_file h files ''reproforge.lock.json'' read_lock_document =
      Some (bundle_hash b, bundle_lock_data b) \<and>
    read_bundle_file h files ''failure-signature.json'' (read_oracle h) = Some (bundle_oracle b) \<and>
    read_bundle_file h files ''artifacts/hypothesis-ledger.json'' (read_list read_hypothesis) =
      Some (bundle_ledger b) \<and>
    read_bundle_file h files ''artifacts/minimization.json'' (read_minimization R) =
      Some (bundle_minimization b) \<and>
    read_bundle_file h files ''artifacts/verification-summary.json'' (read_summary R) =
      Some (bundle_summary b) \<and>
    map (read_run_line h) (log_lines (file_text files ''artifacts/redacted-run-log.jsonl'')) =
      map Some (bundle_run_log b) \<and>
    map_of files ''reproduction.patch'' = Some (bundle_patch b)"
proof (intro exI [of _ "bundle_files h R b"] conjI)
  show "map fst (bundle_files h R b) = required_bundle_files"
    by (simp add: bundle_files_def required_bundle_files_def)
qed (use materialize_bundle_ok [OF ok] valid_bundle_files [OF ok data] bundle_reads [OF ok data refl]
    log_reads [OF ok data] map_of_bundle_files(4) in simp_all)

text \<open>
  The validator reads each file on its own: the files of one bundle with the lock of
  another validate, whatever hash, oracle and environment that lock names.
\<close>

theorem foreign_lock_validates:
  assumes ok: "repro_bundle_ok h datetime b" and data: "bundle_data_ok h R b"
    and ok': "repro_bundle_ok h datetime b'" and data': "bundle_data_ok h R b'"
    and files: "materialize_bundle h R datetime b = Inr files"
    and foreign: "materialize_bundle h R datetime b' = Inr files'"
  shows "validate_materialized_bundle h R
      ((''reproforge.lock.json'', file_text files' ''reproforge.lock.json'') # files) = BundleValid"
proof -
  have f: "files = bundle_files h R b" "files' = bundle_files h R b'"
    using files foreign materialize_bundle_ok [OF ok, of R] materialize_bundle_ok [OF ok', of R] by simp_all
  have "read_bundle_file h files' ''reproforge.lock.json'' read_lock_document = Some (bundle_hash b', bundle_lock_data b')"
    using bundle_reads(1) [OF ok' data' refl] by (simp add: f)
  moreover have "validate_materialized_bundle h R files = BundleValid"
    using valid_bundle_files [OF ok data] by (simp add: f)
  ultimately show ?thesis by (simp add: validate_iff read_bundle_file_def file_text_def)
qed


section \<open>Creation seals the bundle\<close>

lemma normalize_items_map:
  "(\<And>v. v \<in> set vs \<Longrightarrow> \<exists>w. normalize_json h (f v) = Inr w) \<Longrightarrow> \<exists>ws. normalize_items h (map f vs) = Inr ws"
  by (induction vs) (fastforce simp: and_then_def)+

lemma normalize_entries_map:
  "(\<And>k v. (k, v) \<in> set kvs \<Longrightarrow> \<exists>w. normalize_json h (f v) = Inr w) \<Longrightarrow>
   \<exists>ws. normalize_entries h (map (\<lambda>(k, v). (k, f v)) kvs) = Inr ws"
  by (induction kvs) (fastforce simp: and_then_def)+

lemma normalize_value_of_json: "\<exists>w. normalize_json h (value_of_json v) = Inr w"
proof (induction v)
  case (JArr vs)
  then show ?case using normalize_items_map [of vs h value_of_json] by (auto simp: and_then_def)
next
  case (JObj kvs)
  then have "\<exists>w. normalize_json h (value_of_json v) = Inr w" if "(k, v) \<in> set kvs" for k v
    using that by (auto simp: prod_set_simps)
  then show ?case using normalize_entries_map [of kvs h value_of_json] by (auto simp: and_then_def)
qed simp_all

lemma hash_value_of_json: "\<exists>t. hash_canonical h (value_of_json v) = Inr (sha256_hex h t)"
  using normalize_value_of_json [of h v]
  by (auto simp: hash_canonical_def canonical_json_def and_then_def)

lemma extend_fields [simp]:
  "bundle_hash (bundle_input.extend i (repro_bundle.fields d)) = d"
  "bundle_input.truncate (bundle_input.extend i (repro_bundle.fields d)) = i"
  by (simp_all add: bundle_input.extend_def bundle_input.truncate_def repro_bundle.fields_def)

lemma base_json_truncate [simp]: "base_json R (bundle_input.truncate b) = base_json R b"
  by (simp add: base_json_def bundle_input.truncate_def)

lemma truncate_fields [simp]:
  "bundle_fields_ok h datetime (bundle_input.truncate b) = bundle_fields_ok h datetime b"
  "bundle_refined (bundle_input.truncate b) = bundle_refined b"
  by (simp_all add: bundle_fields_ok_def bundle_refined_def bundle_input.truncate_def)

lemma bundle_eq_iff:
  "b = bundle_input.extend i (repro_bundle.fields d) \<longleftrightarrow> bundle_input.truncate b = i \<and> bundle_hash b = d"
  by (cases b; cases i) (auto simp: bundle_input.extend_def bundle_input.truncate_def repro_bundle.fields_def)

lemma create_bundle_exact:
  assumes sha: "\<And>t. sha256_string (sha256_hex h t)"
  shows "(create_bundle h R datetime i = Inr b \<longleftrightarrow>
      bundle_input.truncate b = i \<and>
      hash_canonical h (value_of_json (base_json R b)) = Inr (bundle_hash b) \<and>
      bundle_fields_ok h datetime b \<and> bundle_refined b) \<and>
    (create_bundle h R datetime i = Inl BundleSchema \<longleftrightarrow>
      \<not> (bundle_fields_ok h datetime i \<and> bundle_refined i))"
proof -
  obtain t where t: "hash_canonical h (value_of_json (base_json R i)) = Inr (sha256_hex h t)"
    using hash_value_of_json by blast
  let ?b = "bundle_input.extend i (repro_bundle.fields (sha256_hex h t))"
  have ok: "repro_bundle_ok h datetime ?b \<longleftrightarrow> bundle_fields_ok h datetime i \<and> bundle_refined i"
    using sha truncate_fields(1) [of h datetime ?b] truncate_fields(2) [of ?b]
    by (simp add: repro_bundle_ok_def)
  have create: "create_bundle h R datetime i = parse_as (repro_bundle_ok h datetime) BundleSchema ?b"
    by (simp add: create_bundle_def t)
  have same: "bundle_input.truncate b = i \<Longrightarrow>
      hash_canonical h (value_of_json (base_json R b)) = Inr (sha256_hex h t) \<and>
      bundle_fields_ok h datetime b = bundle_fields_ok h datetime i \<and> bundle_refined b = bundle_refined i"
    using t by (metis base_json_truncate truncate_fields)
  have "create_bundle h R datetime i = Inr b \<longleftrightarrow>
      bundle_fields_ok h datetime i \<and> bundle_refined i \<and>
      bundle_input.truncate b = i \<and> bundle_hash b = sha256_hex h t"
    using ok bundle_eq_iff [of b i "sha256_hex h t"] by (auto simp: create parse_as_def)
  then show ?thesis using ok same by (auto simp: create parse_as_def)
qed



lemma create_bundle_total:
  assumes sha: "\<And>t. sha256_string (sha256_hex h t)"
    and "bundle_fields_ok h datetime i" and "bundle_refined i"
  obtains b where "create_bundle h R datetime i = Inr b" and "bundle_input.truncate b = i"
    and "repro_bundle_ok h datetime b"
    and "hash_canonical h (value_of_json (base_json R b)) = Inr (bundle_hash b)"
proof -
  have "create_bundle h R datetime i \<noteq> Inl e" for e
    using create_bundle_exact [OF sha, of R datetime i] hash_value_of_json [of h "base_json R i"] assms(2,3)
    by (auto simp: create_bundle_def)
  then obtain b where b: "create_bundle h R datetime i = Inr b"
    by (cases "create_bundle h R datetime i") auto
  then have "sha256_string (bundle_hash b)"
    using hash_value_of_json [of h "base_json R i"] sha
    by (auto simp: create_bundle_def)
  then show thesis
    using create_bundle_exact [OF sha, of R datetime i b] b that by (simp add: repro_bundle_ok_def)
qed

section \<open>A concrete bundle\<close>

definition one_ratio :: ratio_host where
  "one_ratio = \<lparr>ratio_text = (\<lambda>_. ''1''), ratio_value = (\<lambda>_. Some 1)\<rparr>"

definition sample_hypothesis :: hypothesis where
  "sample_hypothesis =
     \<lparr>hyp_evidence_ids = [''evidence-1''], hyp_expected_signal = ''ENOENT'',
      hyp_falsification = ''exit code 0'', hyp_id = ''hypothesis-1'', hyp_priority = 1,
      hyp_statement = ''spaces split the path'', hyp_status = Supported,
      hyp_history = [\<lparr>status_reason = ''reported'', status_sequence = 0, status_value = Proposed\<rparr>,
        \<lparr>status_reason = ''three runs'', status_sequence = 1, status_value = Supported\<rparr>]\<rparr>"

definition sample_lock_data :: "string \<Rightarrow> bundle_lock" where
  "sample_lock_data owner =
     \<lparr>lock_command = ''npm test'', lock_dependency_hash = replicate 64 (CHR ''a''),
      lock_environment = [(''CI'', ''1'')], lock_environment_hash = ''env'',
      lock_oracle_id = owner, lock_oracle_version = 1, lock_package_manager = ''npm'',
      lock_repository = ''acme/cli'', lock_tree_hash = replicate 64 (CHR ''b''),
      lock_tool_version = ''0.1.0'', lock_revision = ''main'', lock_runner = ''sandbox'',
      lock_runtime = ''node24''\<rparr>"

definition sample_input :: "failure_oracle \<Rightarrow> bundle_input" where
  "sample_input orc =
     \<lparr>bundle_case_id = ''case-1'', bundle_generated_at = ''2026-01-01T00:00:00Z'',
      bundle_ledger = [sample_hypothesis], bundle_lock_data = sample_lock_data (oracle_id orc),
      bundle_minimization =
        \<lparr>accepted_reduction_id = None, accepted_removed_inputs = [],
         minimization_result.minimization_claim = BaselineRetained, evaluations = []\<rparr>,
      bundle_oracle = orc, bundle_patch = [],
      bundle_run_log = [cli_spaces_reproduce, cli_spaces_reproduce],
      bundle_summary =
        \<lparr>candidate_matches = 3, control_matched = False, summary_oracle_id = oracle_id orc,
         summary_oracle_version = oracle_version orc, summary_reason = ''All runs match'',
         repeatability = 1, required_runs = 3, summary_status = StatusVerified,
         total_candidate_runs = 3\<rparr>\<rparr>"

definition utc_time :: "string \<Rightarrow> bool" where
  "utc_time s \<longleftrightarrow> s \<noteq> [] \<and> last s = CHR ''Z''"

definition other_oracle :: failure_oracle where
  "other_oracle = \<lparr>oracle_id = ''oracle-other'', oracle_root = ExitCode 1, oracle_version = 1\<rparr>"

definition sample_bundle :: "failure_oracle \<Rightarrow> repro_bundle" where
  "sample_bundle orc = bundle_input.extend (sample_input orc) (repro_bundle.fields (replicate 64 (CHR ''0'')))"

lemma zero_hash: "sha256_string (replicate 64 (CHR ''0''))" "sha256_string (replicate 64 (CHR ''a''))"
    "sha256_string (replicate 64 (CHR ''b''))"
  by (simp_all add: sha256_string_def hex_string_def hex_char_def digit_char_def code_unit_def list_all_iff)

lemma sample_record_ok: "string_record_ok [(''CI'', ''1'')]"
  by (simp add: string_record_ok_def own_properties_named digit_char_def code_unit_def)

lemma sample_lock_ok: "owner \<noteq> [] \<Longrightarrow> bundle_lock_ok (sample_lock_data owner)"
  by (simp add: bundle_lock_ok_def sample_lock_data_def zero_hash sample_record_ok
      tool_version_string_def safe_int_def max_safe_integer_def digit_char_def code_unit_def)

lemma sample_fields_ok:
  assumes "failure_oracle_ok plain_host orc" and "oracle_version orc = 1"
  shows "bundle_fields_ok plain_host utc_time (sample_input orc)" and "bundle_refined (sample_input orc)"
  using assms sample_lock_ok [of "oracle_id orc"]
  by (simp_all add: bundle_fields_ok_def sample_input_def utc_time_def hypothesis_ok_def
      sample_hypothesis_def status_entry_ok_def safe_int_def max_safe_integer_def
      minimization_result_ok_def minimization_result_refined_def run_result_ok_def
      cli_spaces_reproduce_def verification_summary_ok_def failure_oracle_ok_def bundle_refined_def
      sample_lock_data_def)

lemma sample_oracles_ok: "failure_oracle_ok plain_host cli_spaces_oracle" "failure_oracle_ok plain_host other_oracle"
    "oracle_version cli_spaces_oracle = 1" "oracle_version other_oracle = 1"
  by (simp_all add: failure_oracle_ok_def cli_spaces_oracle_def other_oracle_def safe_int_def max_safe_integer_def)

lemma sample_bundle_ok:
  assumes "failure_oracle_ok plain_host orc" and "oracle_version orc = 1"
  shows "repro_bundle_ok plain_host utc_time (sample_bundle orc)"
  using sample_fields_ok [OF assms] truncate_fields(1) [of plain_host utc_time "sample_bundle orc"]
    truncate_fields(2) [of "sample_bundle orc"]
  by (simp add: repro_bundle_ok_def sample_bundle_def zero_hash)

lemma sample_data_ok:
  assumes "expression_data_wf plain_host (oracle_root orc)"
  shows "bundle_data_ok plain_host one_ratio (sample_bundle orc)"
proof -
  have "ratio_ok plain_host one_ratio 1"
    by (simp add: ratio_ok_def one_ratio_def number_text_ok_def json_number_def json_fraction_def
        num_char_def digit_char_def code_unit_def plain_host_def)
  moreover have "host_numbers plain_host" by (simp add: host_numbers_def plain_host_def)
  ultimately show ?thesis
    using assms by (simp add: bundle_data_ok_def sample_bundle_def sample_input_def summary_ratio_ok_def
        bundle_input.extend_def)
qed

lemma sample_oracle_data: "expression_data_wf plain_host (oracle_root cli_spaces_oracle)"
    "expression_data_wf plain_host (oracle_root other_oracle)"
  by (simp_all add: cli_spaces_oracle_def other_oracle_def)

theorem materialized_bundle_roundtrip_witness:
  "\<exists>files. materialize_bundle plain_host one_ratio utc_time (sample_bundle cli_spaces_oracle) = Inr files \<and>
    validate_materialized_bundle plain_host one_ratio files = BundleValid \<and>
    read_bundle_file plain_host files ''failure-signature.json'' (read_oracle plain_host) = Some cli_spaces_oracle"
  using materialized_bundle_roundtrip [OF sample_bundle_ok [OF sample_oracles_ok(1,3)]
      sample_data_ok [OF sample_oracle_data(1)]]
  by (auto simp: sample_bundle_def sample_input_def bundle_input.extend_def)

theorem foreign_lock_validates_witness:
  "\<exists>files files'.
    validate_materialized_bundle plain_host one_ratio
      ((''reproforge.lock.json'', file_text files' ''reproforge.lock.json'') # files) = BundleValid \<and>
    read_bundle_file plain_host files' ''reproforge.lock.json'' read_lock_document =
      Some (replicate 64 (CHR ''0''), sample_lock_data ''oracle-other'') \<and>
    read_bundle_file plain_host files ''failure-signature.json'' (read_oracle plain_host) =
      Some cli_spaces_oracle"
proof -
  note a = sample_bundle_ok [OF sample_oracles_ok(1,3)] sample_data_ok [OF sample_oracle_data(1)]
  note b = sample_bundle_ok [OF sample_oracles_ok(2,4)] sample_data_ok [OF sample_oracle_data(2)]
  show ?thesis
    using foreign_lock_validates [OF a b materialize_bundle_ok [OF a(1)] materialize_bundle_ok [OF b(1)]]
      bundle_reads(2) [OF a refl] bundle_reads(1) [OF b refl]
    by (intro exI conjI)
      (simp_all add: sample_bundle_def sample_input_def other_oracle_def bundle_input.extend_def
        repro_bundle.fields_def)
qed


end
