(* ===== verification/RepositoryProof.thy ===== *)
theory RepositoryProof
  imports Bundle Bounded CaseLifecycle
begin

text \<open>
  src/src/execution/repository-proof.ts: the proof that an isolated execution yields -
  the schema of its inputs, which must share one provenance, the persisted runs, the
  verdict, evidence and hypothesis, the terminal case, the bundle of a verified proof
  and the schema of the result.

  The times of the host: which texts \<open>z.string().datetime()\<close> accepts, and \<open>Date.parse\<close>.
\<close>

record time_host =
  datetime_text :: "string \<Rightarrow> bool"
  date_parse :: "string \<Rightarrow> int"

section \<open>The inputs\<close>

record proof_budget =
  max_tool_calls :: int
  proof_required_runs :: int

definition proof_budget_ok :: "proof_budget \<Rightarrow> bool" where
  "proof_budget_ok b \<longleftrightarrow>
     1 \<le> max_tool_calls b \<and> max_tool_calls b \<le> 12 \<and>
     3 \<le> proof_required_runs b \<and> proof_required_runs b \<le> 5"

record proof_input =
  proof_budget :: proof_budget
  proof_case :: repro_case
  proof_cleanup :: cleanup_status
  proof_dependency :: dependency_metadata
  proof_environment :: execution_environment
  proof_execution :: experiment_result
  proof_generated_at :: string
  proof_issue :: "issue_evidence option"
  proof_oracle :: failure_oracle
  proof_profile :: node_profile
  proof_secrets :: "string list"
  proof_source :: repository_source
  proof_provenance :: source_provenance

definition proof_mismatch :: "time_host \<Rightarrow> proof_input \<Rightarrow> bool" where
  "proof_mismatch T i \<longleftrightarrow>
     int (length (exp_candidates (proof_execution i))) \<noteq> proof_required_runs (proof_budget i) \<or>
     source_commit (proof_source i) \<noteq> prov_commit (proof_provenance i) \<or>
     source_repository_id (proof_source i) \<noteq> prov_repository_id (proof_provenance i) \<or>
     env_source_commit (proof_environment i) \<noteq> source_commit (proof_source i) \<or>
     env_archive_sha256 (proof_environment i) \<noteq> prov_archive_sha256 (proof_provenance i) \<or>
     env_manifest_sha256 (proof_environment i) \<noteq> prov_manifest_sha256 (proof_provenance i) \<or>
     env_lockfile_sha256 (proof_environment i) \<noteq> lockfile_sha256 (proof_dependency i) \<or>
     env_package_json_sha256 (proof_environment i) \<noteq> package_json_sha256 (proof_dependency i) \<or>
     env_runtime (proof_environment i) \<noteq> node_ver (proof_profile i) \<or>
     date_parse T (proof_generated_at i) < case_created_at (proof_case i)"

definition proof_secrets_ok :: "string list \<Rightarrow> bool" where
  "proof_secrets_ok ss \<longleftrightarrow> list_all (len_in 1 4096) ss \<and> length ss \<le> 8"

definition proof_input_ok :: "js_host \<Rightarrow> time_host \<Rightarrow> proof_input \<Rightarrow> bool" where
  "proof_input_ok h T i \<longleftrightarrow>
     proof_budget_ok (proof_budget i) \<and> repro_case_ok (proof_case i) \<and>
     case_st (proof_case i) = Draft \<and> dependency_metadata_ok (proof_dependency i) \<and>
     execution_environment_ok (proof_environment i) \<and> experiment_result_ok (proof_execution i) \<and>
     datetime_text T (proof_generated_at i) \<and> pred_option issue_evidence_ok (proof_issue i) \<and>
     failure_oracle_ok h (proof_oracle i) \<and> node_profile_ok (proof_profile i) \<and>
     proof_secrets_ok (proof_secrets i) \<and> repository_source_ok (proof_source i) \<and>
     source_provenance_ok (proof_provenance i) \<and> \<not> proof_mismatch T i"

section \<open>The result\<close>

record proof_result =
  result_budget :: proof_budget
  result_bundle :: "repro_bundle option"
  result_case :: repro_case
  result_evidence :: "evidence_item list"
  result_files :: "(string \<times> string) list"
  result_hypotheses :: "hypothesis list"
  result_minimization :: "minimization_result option"
  result_oracle :: failure_oracle
  result_cleanup :: cleanup_status
  result_dependency :: dependency_metadata
  result_environment :: execution_environment
  result_provenance :: source_provenance
  result_runs :: "run_result list"
  result_summary :: verification_summary

fun verdict_state :: "verification_status \<Rightarrow> case_state" where
  "verdict_state StatusVerified = Verified"
| "verdict_state StatusUnstable = Unstable"
| "verdict_state StatusNotReproduced = NotReproduced"
| "verdict_state StatusBlocked = Blocked"

definition proof_refined :: "proof_result \<Rightarrow> bool" where
  "proof_refined r \<longleftrightarrow>
     case_st (result_case r) = verdict_state (summary_status (result_summary r)) \<and>
     (let verified = (summary_status (result_summary r) = StatusVerified) in
        verified = (result_bundle r \<noteq> None) \<and> verified = (result_minimization r \<noteq> None) \<and>
        verified = (0 < length (result_files r))) \<and>
     list_all (\<lambda>y. list_all (\<lambda>i. List.member (map item_id (result_evidence r)) i) (hyp_evidence_ids y))
       (result_hypotheses r)"

definition proof_result_ok :: "js_host \<Rightarrow> time_host \<Rightarrow> proof_result \<Rightarrow> bool" where
  "proof_result_ok h T r \<longleftrightarrow>
     proof_budget_ok (result_budget r) \<and>
     pred_option (repro_bundle_ok h (datetime_text T)) (result_bundle r) \<and>
     repro_case_ok (result_case r) \<and> list_all evidence_item_ok (result_evidence r) \<and>
     3 \<le> length (result_evidence r) \<and> list_all hypothesis_ok (result_hypotheses r) \<and>
     1 \<le> length (result_hypotheses r) \<and> pred_option minimization_result_ok (result_minimization r) \<and>
     failure_oracle_ok h (result_oracle r) \<and> dependency_metadata_ok (result_dependency r) \<and>
     execution_environment_ok (result_environment r) \<and> source_provenance_ok (result_provenance r) \<and>
     list_all run_result_ok (result_runs r) \<and> 2 \<le> length (result_runs r) \<and>
     length (result_runs r) \<le> 6 \<and> verification_summary_ok (result_summary r) \<and> proof_refined r"

section \<open>The parts\<close>

text \<open>Each single quote becomes quote, double quote, quote, double quote, quote.\<close>

definition shell_quote :: "string \<Rightarrow> string" where
  "shell_quote s =
     [CHR 0x27] @
     concat (map (\<lambda>c. if c = CHR 0x27 then [CHR 0x27, CHR 0x22, CHR 0x27, CHR 0x22, CHR 0x27] else [c]) s) @
     [CHR 0x27]"

definition reproduction_command :: "node_profile \<Rightarrow> string" where
  "reproduction_command p = join '' ''
     ([''npm'', ''run'', shell_quote (reproduction_script p)] @
      (case test_name_pattern p of
         None \<Rightarrow> []
       | Some t \<Rightarrow> if t = [] then [] else [''--'', ''--testNamePattern'', shell_quote t]))"

definition capture_summary :: "captured_output \<Rightarrow> run_output_capture" where
  "capture_summary c =
     \<lparr>original_bytes = out_original_bytes c, capture_sha256 = out_sha256 c,
      capture_truncated = out_truncated c\<rparr>"

definition redact_run :: "run_result \<Rightarrow> string list \<Rightarrow> run_result" where
  "redact_run r secrets = r\<lparr>
     run_id := redact_string (run_id r) secrets,
     run_result.run_command := redact_string (run_result.run_command r) secrets,
     run_environment_hash := redact_string (run_environment_hash r) secrets,
     run_stderr := redact_string (run_stderr r) secrets,
     run_stdout := redact_string (run_stdout r) secrets\<rparr>"

definition persisted_run :: "string list \<Rightarrow> bounded_run \<Rightarrow> thrown + run_result" where
  "persisted_run secrets b =
     parse_as run_result_ok SchemaError
       ((redact_run (bounded_result b) secrets)\<lparr>
          run_capture := Some \<lparr>capture_stderr = capture_summary (bounded_stderr b),
            capture_stdout = capture_summary (bounded_stdout b)\<rparr>,
          run_stderr := redact_string (out_text (bounded_stderr b)) secrets,
          run_stdout := redact_string (out_text (bounded_stdout b)) secrets\<rparr>)"

definition proof_evidence :: "proof_input \<Rightarrow> thrown + evidence_item list" where
  "proof_evidence i =
     collect (parse_as evidence_item_ok SchemaError)
       [\<lparr>item_classification = (if proof_issue i = None then Unknown else Reported),
         item_content = redact_string
           (case Option.bind (proof_issue i) issue_title of
              None \<Rightarrow> ''No issue title was supplied with the repository request.''
            | Some t \<Rightarrow> t) (proof_secrets i),
         item_id = ''evidence-repository-request'',
         item_source =
           (case proof_issue i of
              None \<Rightarrow> ''repository request''
            | Some e \<Rightarrow> source_full_name (proof_source i) @ '' issue #'' @ int_text (issue_number e))\<rparr>,
        \<lparr>item_classification = Observed,
         item_content = ''Acquired immutable commit '' @ source_commit (proof_source i) @ '' as '' @
           int_text (prov_file_count (proof_provenance i)) @
           '' regular files under source policy source-archive-v1.'',
         item_id = ''evidence-source-provenance'',
         item_source = ''ReproForge source validator''\<rparr>,
        \<lparr>item_classification = Observed,
         item_content = ''Executed one control and '' @
           int_text (int (length (exp_candidates (proof_execution i)))) @ '' clean candidates in node'' @
           node_version_text (env_runtime (proof_environment i)) @ '' with deny-all network policy.'',
         item_id = ''evidence-clean-runs'',
         item_source = ''ReproForge isolated runner''\<rparr>]"

fun verdict_hypothesis :: "verification_status \<Rightarrow> hypothesis_status" where
  "verdict_hypothesis StatusVerified = Supported"
| "verdict_hypothesis StatusNotReproduced = Contradicted"
| "verdict_hypothesis _ = Inconclusive"

definition proof_hypothesis :: "proof_input \<Rightarrow> verification_summary \<Rightarrow> thrown + hypothesis" where
  "proof_hypothesis i s =
     (let status = verdict_hypothesis (summary_status s) in
      parse_as hypothesis_ok SchemaError
        \<lparr>hyp_evidence_ids =
           [''evidence-repository-request'', ''evidence-source-provenance'', ''evidence-clean-runs''],
         hyp_expected_signal = ''The '' @ reproduction_script (proof_profile i) @
           '' script matches oracle '' @ oracle_id (proof_oracle i) @
           '' in every clean candidate while '' @ control_script (proof_profile i) @ '' does not.'',
         hyp_falsification =
           ''The control matches, a required clean candidate does not match, or run environments differ.'',
         hyp_id = ''hypothesis-requested-reproduction'', hyp_priority = 1,
         hyp_statement =
           ''The declared reproduction script deterministically triggers the versioned failure signature.'',
         hyp_status = status,
         hyp_history =
           [\<lparr>status_reason = ''Created from the typed repository request and immutable revision.'',
             status_sequence = 0, status_value = Proposed\<rparr>,
            \<lparr>status_reason = summary_reason s, status_sequence = 1, status_value = status\<rparr>]\<rparr>)"

definition proof_moves :: "verification_summary \<Rightarrow> (case_state \<times> string) list" where
  "proof_moves s =
     [(Ingesting, ''Validated the immutable repository request.''),
      (Inspecting, ''Validated source, dependency, and environment provenance.''),
      (Hypothesizing, ''Pinned the typed versioned failure oracle.''),
      (Experimenting, ''Ran one control and clean isolated candidate microVMs.''),
      (Verifying, ''Evaluated only machine run evidence with the versioned oracle.'')] @
     (if summary_status s \<noteq> StatusVerified
      then [(verdict_state (summary_status s), summary_reason s)]
      else [(Minimizing, ''Evaluated the verified baseline for safe local reduction.''),
        (Packaging, ''Materialized and validated the content-addressed bundle.''),
        (Verified, summary_reason s)])"

fun timed_moves :: "int \<Rightarrow> (case_state \<times> string) list \<Rightarrow> (case_state \<times> string \<times> int) list" where
  "timed_moves t [] = []"
| "timed_moves t ((s, reason) # ms) = (s, reason, t) # timed_moves (t + 1) ms"

text \<open>An error of \<open>transitionCase\<close> is a ZodError, or an error without a code.\<close>

definition case_thrown :: "case_error \<Rightarrow> thrown" where
  "case_thrown e = (if e = CaseSchema then SchemaError else Foreign [])"

definition terminal_case ::
  "time_host \<Rightarrow> repro_case \<Rightarrow> verification_summary \<Rightarrow> string \<Rightarrow> thrown + repro_case" where
  "terminal_case T initial s generated_at =
     (let generated = date_parse T generated_at;
          transitions = (if summary_status s = StatusVerified then 8 else 6);
          first = max (case_created_at initial) (generated - transitions)
      in case run_case initial (timed_moves first (proof_moves s)) of
           Inl e \<Rightarrow> Inl (case_thrown e)
         | Inr c \<Rightarrow> Inr c)"

section \<open>Assembly\<close>

definition proof_lock :: "proof_input \<Rightarrow> bundle_lock" where
  "proof_lock i =
     \<lparr>lock_command = reproduction_command (proof_profile i),
      lock_dependency_hash = lockfile_sha256 (proof_dependency i),
      lock_environment =
        [(''NETWORK'', ''denied''), (''NODE_VERSION'', env_node_version (proof_environment i)),
         (''NPM_VERSION'', env_npm_version (proof_environment i)),
         (''REPROFORGE_EXECUTION_POLICY'', ''node-npm-v1''),
         (''REPROFORGE_LIMITS_POLICY'', ''sandbox-limits-v1''),
         (''REPROFORGE_SOURCE_POLICY'', ''source-archive-v1'')],
      lock_environment_hash = env_hash (proof_environment i),
      lock_oracle_id = oracle_id (proof_oracle i), lock_oracle_version = oracle_version (proof_oracle i),
      lock_package_manager = ''npm@'' @ env_npm_version (proof_environment i),
      lock_repository = source_full_name (proof_source i),
      lock_tree_hash = prov_manifest_sha256 (proof_provenance i), lock_tool_version = ''0.2.0'',
      lock_revision = source_commit (proof_source i), lock_runner = ''vercel-sandbox/sandbox-limits-v1'',
      lock_runtime = ''node@'' @ env_node_version (proof_environment i)\<rparr>"

definition minimization_thrown :: "minimization_error \<Rightarrow> thrown" where
  "minimization_thrown e =
     (case e of
        MinimizationInputSchema \<Rightarrow> SchemaError
      | MinimizationResultSchema \<Rightarrow> SchemaError
      | MinimizationVerification VerificationOracle \<Rightarrow> Foreign []
      | MinimizationVerification _ \<Rightarrow> SchemaError
      | MinimizationUnverifiedBaseline \<Rightarrow> Foreign [])"

definition verification_thrown :: "verification_error \<Rightarrow> thrown" where
  "verification_thrown e = (if e = VerificationOracle then Foreign [] else SchemaError)"

definition bundle_thrown :: "bundle_error \<Rightarrow> thrown" where
  "bundle_thrown e = (if e = BundleSchema then SchemaError else Foreign [])"

definition throw_as :: "('e \<Rightarrow> thrown) \<Rightarrow> 'e + 'a \<Rightarrow> thrown + 'a" where
  "throw_as f r = (case r of Inl e \<Rightarrow> Inl (f e) | Inr x \<Rightarrow> Inr x)"

text \<open>What a verified proof adds: minimization, bundle and validated files.\<close>

definition package_proof ::
  "js_host \<Rightarrow> ratio_host \<Rightarrow> time_host \<Rightarrow> proof_input \<Rightarrow> string \<Rightarrow> run_result \<Rightarrow> run_result list
     \<Rightarrow> hypothesis list \<Rightarrow> verification_summary
     \<Rightarrow> thrown + minimization_result \<times> repro_bundle \<times> (string \<times> string) list" where
  "package_proof h R T i cid ctl candidates hypotheses s =
     and_then (throw_as minimization_thrown (minimize_reproduction h
       \<lparr>baseline_candidates = candidates, baseline_control = ctl, min_oracle = proof_oracle i,
        min_proposals = [], min_required_runs = Some (proof_required_runs (proof_budget i))\<rparr>)) (\<lambda>m.
     and_then (throw_as bundle_thrown (create_bundle h R (datetime_text T)
       \<lparr>bundle_case_id = cid, bundle_generated_at = proof_generated_at i, bundle_ledger = hypotheses,
        bundle_lock_data = proof_lock i, bundle_minimization = m, bundle_oracle = proof_oracle i,
        bundle_patch = [], bundle_run_log = ctl # candidates, bundle_summary = s\<rparr>)) (\<lambda>b.
     and_then (throw_as bundle_thrown (materialize_bundle h R (datetime_text T) b)) (\<lambda>files.
     and_then (check (validate_materialized_bundle h R files = BundleValid) ProofInputError) (\<lambda>_.
       Inr (m, b, files)))))"

definition assemble_repository_proof ::
  "js_host \<Rightarrow> ratio_host \<Rightarrow> time_host \<Rightarrow> proof_input \<Rightarrow> thrown + proof_result" where
  "assemble_repository_proof h R T raw =
     and_then (parse_as (proof_input_ok h T) ProofInputError raw) (\<lambda>i.
     and_then (persisted_run (proof_secrets i) (exp_control (proof_execution i))) (\<lambda>ctl.
     and_then (collect (persisted_run (proof_secrets i)) (exp_candidates (proof_execution i))) (\<lambda>candidates.
     and_then (throw_as verification_thrown (verify_reproduction h
       \<lparr>input_oracle = proof_oracle i, input_control = ctl, input_candidates = candidates,
        input_required_runs = Some (proof_required_runs (proof_budget i))\<rparr>)) (\<lambda>s.
     and_then (proof_evidence i) (\<lambda>evidence_items.
     and_then (proof_hypothesis i s) (\<lambda>hyp.
     and_then (terminal_case T (proof_case i) s (proof_generated_at i)) (\<lambda>c.
     and_then
       (if summary_status s = StatusVerified
        then and_then (package_proof h R T i (case_id c) ctl candidates [hyp] s) (\<lambda>(m, b, files).
          Inr (Some m, Some b, files))
        else Inr (None, None, [])) (\<lambda>(m, b, files).
       parse_as (proof_result_ok h T) SchemaError
         \<lparr>result_budget = proof_budget i, result_bundle = b, result_case = c,
          result_evidence = evidence_items, result_files = files, result_hypotheses = [hyp],
          result_minimization = m, result_oracle = proof_oracle i, result_cleanup = proof_cleanup i,
          result_dependency = proof_dependency i, result_environment = proof_environment i,
          result_provenance = proof_provenance i, result_runs = ctl # candidates,
          result_summary = s\<rparr>))))))))"


section \<open>The parts never fail on valid inputs\<close>

lemma join_nonempty: "ws \<noteq> [] \<Longrightarrow> sep \<noteq> [] \<Longrightarrow> join sep ws = [] \<longleftrightarrow> ws = [[]]"
  by (induction sep ws rule: join.induct) auto

lemma match_secret_nonempty: "match_secret known prev s = Some (n, r) \<Longrightarrow> r \<noteq> []"
  by (auto simp: match_secret_def redaction_marker_def)

lemma replace_all_nonempty:
  assumes "\<And>prev t n r. m prev t = Some (n, r) \<Longrightarrow> r \<noteq> []"
  shows "s \<noteq> [] \<Longrightarrow> replace_all m prev s \<noteq> []"
  by (cases s) (auto split: option.splits dest: assms)

lemma split_text_single: "split_text sep n s = [w] \<Longrightarrow> w = s"
  by (induction sep n s arbitrary: w rule: split_text.induct) (auto split: if_splits list.splits)

lemma redact_string_nonempty: "val \<noteq> [] \<Longrightarrow> redact_string val secrets \<noteq> []"
proof -
  assume val: "val \<noteq> []"
  let ?f = "replace_all (match_secret (unique_secrets secrets)) None"
  have "map ?f (split_marker val) \<noteq> [[]]"
  proof
    assume "map ?f (split_marker val) = [[]]"
    then obtain w where "split_marker val = [w]" "?f w = []" by auto
    then show False
      using val replace_all_nonempty [OF match_secret_nonempty, where s = w] split_text_single
      by (fastforce simp: split_marker_def)
  qed
  then show ?thesis
    using val by (auto simp: redact_string_def Let_def join_nonempty redaction_marker_def split_marker_def)
qed

definition run_of :: "string list \<Rightarrow> bounded_run \<Rightarrow> run_result" where
  "run_of secrets b =
     (redact_run (bounded_result b) secrets)\<lparr>
        run_capture := Some \<lparr>capture_stderr = capture_summary (bounded_stderr b),
          capture_stdout = capture_summary (bounded_stdout b)\<rparr>,
        run_stderr := redact_string (out_text (bounded_stderr b)) secrets,
        run_stdout := redact_string (out_text (bounded_stdout b)) secrets\<rparr>"

lemma run_of_ok: "bounded_run_ok b \<Longrightarrow> run_result_ok (run_of secrets b)"
  by (auto simp: bounded_run_ok_def run_of_def run_result_ok_def redact_run_def redact_string_nonempty
      captured_output_ok_def capture_summary_def run_output_capture_ok_def)

lemma persisted_run_ok: "bounded_run_ok b \<Longrightarrow> persisted_run secrets b = Inr (run_of secrets b)"
  using run_of_ok [of b secrets] by (simp add: persisted_run_def run_of_def)

fun moved_case :: "repro_case \<Rightarrow> int \<Rightarrow> (case_state \<times> string) list \<Rightarrow> repro_case" where
  "moved_case c t [] = c"
| "moved_case c t ((s, reason) # ms) =
     moved_case (c\<lparr>case_history := case_history c @
         [\<lparr>entry_at = t, entry_from = case_st c, entry_reason = reason, entry_to = s\<rparr>],
       case_st := s, case_updated_at := t\<rparr>) (t + 1) ms"

fun moves_allowed :: "case_state \<Rightarrow> (case_state \<times> string) list \<Rightarrow> bool" where
  "moves_allowed s [] = True"
| "moves_allowed s ((s', reason) # ms) =
     (s' \<in> set (allowed_case_transitions s) \<and> reason \<noteq> [] \<and> moves_allowed s' ms)"

lemma run_timed_moves:
  "repro_case_ok c \<Longrightarrow> moves_allowed (case_st c) ms \<Longrightarrow> valid_instant t \<Longrightarrow>
   valid_instant (t + int (length ms)) \<Longrightarrow>
   run_case c (timed_moves t ms) = Inr (moved_case c t ms) \<and> repro_case_ok (moved_case c t ms)"
proof (induction c t ms rule: moved_case.induct)
  case (2 c t s reason ms)
  let ?c = "c\<lparr>case_history := case_history c @
      [\<lparr>entry_at = t, entry_from = case_st c, entry_reason = reason, entry_to = s\<rparr>],
    case_st := s, case_updated_at := t\<rparr>"
  have ok: "repro_case_ok ?c"
    using 2(2-4) by (simp add: repro_case_ok_def transition_entry_ok_def)
  then have "transition_case c s reason t = Inr ?c"
    using 2(3,4) by (simp add: transition_case_def valid_instant_date_range)
  moreover have "valid_instant (t + 1)" "valid_instant (t + 1 + int (length ms))"
    using 2(4,5) by (auto simp: valid_instant_def)
  ultimately show ?case using 2(1) [OF ok] 2(3) by simp
qed simp

lemma moved_case_keeps [simp]:
  "case_id (moved_case c t ms) = case_id c"
  "case_created_at (moved_case c t ms) = case_created_at c"
  by (induction c t ms rule: moved_case.induct) simp_all

lemma moved_case_state: "case_st (moved_case c t ms) = last (case_st c # map fst ms)"
  by (induction c t ms rule: moved_case.induct) simp_all

lemma moved_case_route: "case_route (moved_case c t ms) = case_route c @ map fst ms"
  by (induction c t ms rule: moved_case.induct) (simp_all add: case_route_def)

lemma proof_moves_allowed: "summary_reason s \<noteq> [] \<Longrightarrow> moves_allowed Draft (proof_moves s)"
  by (cases "summary_status s") (simp_all add: proof_moves_def)

definition first_move :: "time_host \<Rightarrow> repro_case \<Rightarrow> verification_summary \<Rightarrow> string \<Rightarrow> int" where
  "first_move T c s g =
     max (case_created_at c) (date_parse T g - (if summary_status s = StatusVerified then 8 else 6))"

lemma terminal_case_ok:
  assumes "repro_case_ok c" and "case_st c = Draft" and "summary_reason s \<noteq> []"
    and "case_created_at c \<le> date_parse T g" and "valid_instant (date_parse T g + 8)"
  shows "terminal_case T c s g = Inr (moved_case c (first_move T c s g) (proof_moves s))"
    and "repro_case_ok (moved_case c (first_move T c s g) (proof_moves s))"
    and "case_st (moved_case c (first_move T c s g) (proof_moves s)) = verdict_state (summary_status s)"
proof -
  have "valid_instant (first_move T c s g)"
      "valid_instant (first_move T c s g + int (length (proof_moves s)))"
    using assms(1,4,5) by (auto simp: repro_case_ok_def valid_instant_def first_move_def proof_moves_def)
  from run_timed_moves [OF assms(1) _ this] proof_moves_allowed [OF assms(3)] assms(2)
  have run: "run_case c (timed_moves (first_move T c s g) (proof_moves s)) =
      Inr (moved_case c (first_move T c s g) (proof_moves s))"
    and ok: "repro_case_ok (moved_case c (first_move T c s g) (proof_moves s))" by simp_all
  show "terminal_case T c s g = Inr (moved_case c (first_move T c s g) (proof_moves s))"
    unfolding terminal_case_def Let_def first_move_def [symmetric] run by simp
  show "repro_case_ok (moved_case c (first_move T c s g) (proof_moves s))" by (rule ok)
  show "case_st (moved_case c (first_move T c s g) (proof_moves s)) = verdict_state (summary_status s)"
    by (cases "summary_status s") (simp_all add: moved_case_state proof_moves_def)
qed


section \<open>The proof in closed form\<close>

definition evidence_of :: "proof_input \<Rightarrow> evidence_item list" where
  "evidence_of i = (case proof_evidence i of Inr es \<Rightarrow> es | Inl _ \<Rightarrow> [])"

definition hypothesis_of :: "proof_input \<Rightarrow> verification_summary \<Rightarrow> hypothesis" where
  "hypothesis_of i s = (case proof_hypothesis i s of Inr y \<Rightarrow> y | Inl _ \<Rightarrow> undefined)"

lemma collect_parsed: "collect (parse_as P e) xs = (if list_all P xs then Inr xs else Inl e)"
  by (induction xs) (auto simp: and_then_def parse_as_def)


lemma proof_evidence_ok:
  assumes "proof_input_ok h T i"
  shows "proof_evidence i = Inr (evidence_of i)"
    and "list_all evidence_item_ok (evidence_of i)"
    and "map item_id (evidence_of i) =
      [''evidence-repository-request'', ''evidence-source-provenance'', ''evidence-clean-runs'']"
    and "\<exists>val. item_content (hd (evidence_of i)) = redact_string val (proof_secrets i)"
proof -
  have title: "pred_option (len_in 1 256) (Option.bind (proof_issue i) issue_title)"
    using assms by (cases "proof_issue i") (auto simp: proof_input_ok_def issue_evidence_ok_def)
  have content: "(case Option.bind (proof_issue i) issue_title of
      None \<Rightarrow> ''No issue title was supplied with the repository request.'' | Some t \<Rightarrow> t) \<noteq> []"
    using title by (auto simp: len_in_def split: option.splits)
  have "\<exists>es. proof_evidence i = Inr es \<and> list_all evidence_item_ok es \<and> map item_id es =
      [''evidence-repository-request'', ''evidence-source-provenance'', ''evidence-clean-runs''] \<and>
      (\<exists>val. item_content (hd es) = redact_string val (proof_secrets i))"
    unfolding proof_evidence_def collect_parsed
    by (auto simp: evidence_item_ok_def redact_string_nonempty [OF content] split: option.splits)
  then show "proof_evidence i = Inr (evidence_of i)"
    and "list_all evidence_item_ok (evidence_of i)"
    and "map item_id (evidence_of i) =
      [''evidence-repository-request'', ''evidence-source-provenance'', ''evidence-clean-runs'']"
    and "\<exists>val. item_content (hd (evidence_of i)) = redact_string val (proof_secrets i)"
    by (auto simp: evidence_of_def)
qed

lemma proof_hypothesis_ok:
  assumes "summary_reason s \<noteq> []"
  shows "proof_hypothesis i s = Inr (hypothesis_of i s)" and "hypothesis_ok (hypothesis_of i s)"
    and "hyp_evidence_ids (hypothesis_of i s) =
      [''evidence-repository-request'', ''evidence-source-provenance'', ''evidence-clean-runs'']"
    and "hyp_status (hypothesis_of i s) = verdict_hypothesis (summary_status s)"
proof -
  have "\<exists>y. proof_hypothesis i s = Inr y \<and> hypothesis_ok y \<and> hyp_evidence_ids y =
      [''evidence-repository-request'', ''evidence-source-provenance'', ''evidence-clean-runs''] \<and>
      hyp_status y = verdict_hypothesis (summary_status s)"
    using assms
    by (simp add: proof_hypothesis_def Let_def parse_as_def hypothesis_ok_def status_entry_ok_def
        safe_int_def max_safe_integer_def)
  then show "proof_hypothesis i s = Inr (hypothesis_of i s)" and "hypothesis_ok (hypothesis_of i s)"
    and "hyp_evidence_ids (hypothesis_of i s) =
      [''evidence-repository-request'', ''evidence-source-provenance'', ''evidence-clean-runs'']"
    and "hyp_status (hypothesis_of i s) = verdict_hypothesis (summary_status s)"
    by (auto simp: hypothesis_of_def)
qed

definition control_of :: "proof_input \<Rightarrow> run_result" where
  "control_of i = run_of (proof_secrets i) (exp_control (proof_execution i))"

definition candidates_of :: "proof_input \<Rightarrow> run_result list" where
  "candidates_of i = map (run_of (proof_secrets i)) (exp_candidates (proof_execution i))"

definition verification_of :: "proof_input \<Rightarrow> verification_input" where
  "verification_of i =
     \<lparr>input_oracle = proof_oracle i, input_control = control_of i, input_candidates = candidates_of i,
      input_required_runs = Some (proof_required_runs (proof_budget i))\<rparr>"

abbreviation summary_of :: "js_host \<Rightarrow> proof_input \<Rightarrow> verification_summary" where
  "summary_of h i \<equiv> expected_summary h (verification_of i)"

definition minimization_of :: "proof_input \<Rightarrow> minimization_input" where
  "minimization_of i =
     \<lparr>baseline_candidates = candidates_of i, baseline_control = control_of i,
      min_oracle = proof_oracle i, min_proposals = [],
      min_required_runs = Some (proof_required_runs (proof_budget i))\<rparr>"

definition baseline_result :: minimization_result where
  "baseline_result =
     \<lparr>accepted_reduction_id = None, accepted_removed_inputs = [],
      minimization_result.minimization_claim = BaselineRetained, evaluations = []\<rparr>"


lemma candidate_count:
  assumes ok: "proof_input_ok h T i"
  shows "length (candidates_of i) \<le> 5" "1 \<le> length (candidates_of i)"
    "int (length (candidates_of i)) = proof_required_runs (proof_budget i)"
  using ok by (auto simp: proof_input_ok_def candidates_of_def experiment_result_ok_def max_runs_def
      proof_mismatch_def)

lemma runs_ok:
  assumes ok: "proof_input_ok h T i"
  shows "run_result_ok (control_of i)" "list_all run_result_ok (candidates_of i)"
  using ok by (auto simp: proof_input_ok_def candidates_of_def control_of_def experiment_result_ok_def
      list_all_iff run_of_ok)

lemma persisted_runs:
  assumes ok: "proof_input_ok h T i"
  shows "persisted_run (proof_secrets i) (exp_control (proof_execution i)) = Inr (control_of i)"
  "collect (persisted_run (proof_secrets i)) (exp_candidates (proof_execution i)) = Inr (candidates_of i)"
  using ok persisted_run_ok
  by (auto simp: proof_input_ok_def experiment_result_ok_def list_all_iff control_of_def candidates_of_def
      intro!: collect_total)

lemma required_ok:
  assumes ok: "proof_input_ok h T i"
  shows "0 < proof_required_runs (proof_budget i)" "safe_int (proof_required_runs (proof_budget i))"
  using ok by (auto simp: proof_input_ok_def proof_budget_ok_def safe_int_def max_safe_integer_def)

lemma verification_ok:
  assumes ok: "proof_input_ok h T i"
  shows "verification_input_ok h (verification_of i)" "small_input (verification_of i)"
  using ok runs_ok [OF ok] required_ok [OF ok] candidate_count [OF ok]
  by (auto simp: verification_input_ok_def verification_of_def proof_input_ok_def required_or_default_def
      small_input_def safe_int_def max_safe_integer_def)

lemma summary_ok:
  assumes ok: "proof_input_ok h T i"
  shows "verification_summary_ok (summary_of h i)"
  by (rule expected_summary_ok [OF verification_ok [OF ok]])

lemma reason_nonempty:
  assumes ok: "proof_input_ok h T i"
  shows "summary_reason (summary_of h i) \<noteq> []"
  using summary_ok [OF ok] by (simp add: verification_summary_ok_def)

lemma minimization_ok:
  assumes ok: "proof_input_ok h T i"
  shows "minimization_input_ok h (minimization_of i)" "small_runs (minimization_of i)"
  using ok runs_ok [OF ok] required_ok [OF ok] candidate_count [OF ok]
  by (auto simp: minimization_input_ok_def minimization_of_def proof_input_ok_def min_required_def
      small_runs_def safe_int_def max_safe_integer_def)

lemma baseline_minimization:
  assumes ok: "proof_input_ok h T i"
    and "summary_status (summary_of h i) = StatusVerified"
  shows "minimize_reproduction h (minimization_of i) = Inr baseline_result"
proof -
  have "proposal_input (minimization_of i) (baseline_control (minimization_of i))
      (baseline_candidates (minimization_of i)) = verification_of i"
    by (simp add: proposal_input_def minimization_of_def verification_of_def min_required_def)
  moreover have "safe_int (int (length (candidates_of i)))" using minimization_ok(2) [OF ok]
    by (simp add: small_runs_def minimization_of_def)
  ultimately have "verify_for h (minimization_of i) (control_of i) (candidates_of i) = Inr (summary_of h i)"
    using verify_for_ok(1) [OF minimization_ok(1) [OF ok] runs_ok [OF ok]] by (simp add: minimization_of_def)
  then show ?thesis
    using minimization_ok(1) [OF ok] assms(2)
    by (simp add: minimize_reproduction_def Let_def check_def minimization_of_def accepted_evaluation_def
        baseline_result_def minimization_result_ok_def minimization_result_refined_def)
qed


section \<open>Packaging a verified proof\<close>

definition proof_host_ok :: "js_host \<Rightarrow> ratio_host \<Rightarrow> time_host \<Rightarrow> proof_input \<Rightarrow> bool" where
  "proof_host_ok h R T i \<longleftrightarrow>
     (\<forall>t. sha256_string (sha256_hex h t)) \<and> host_numbers h \<and> ratio_ok h R 1 \<and>
     expression_data_wf h (oracle_root (proof_oracle i)) \<and>
     valid_instant (date_parse T (proof_generated_at i) + 8)"

lemma sha256_string_nonempty: "sha256_string s \<Longrightarrow> s \<noteq> []"
  by (auto simp: sha256_string_def hex_string_def)

lemma proof_environment_record:
  "string_record_ok [(''NETWORK'', a), (''NODE_VERSION'', b), (''NPM_VERSION'', c),
     (''REPROFORGE_EXECUTION_POLICY'', d), (''REPROFORGE_LIMITS_POLICY'', e),
     (''REPROFORGE_SOURCE_POLICY'', f)]"
  unfolding string_record_ok_def
  by (intro conjI own_properties_named) (simp_all add: digit_char_def code_unit_def)

lemma reproduction_command_nonempty: "reproduction_command p \<noteq> []"
  by (simp add: reproduction_command_def join_nonempty)

definition packaged_input :: "proof_input \<Rightarrow> string \<Rightarrow> hypothesis list \<Rightarrow> verification_summary \<Rightarrow> bundle_input" where
  "packaged_input i cid ys s =
     \<lparr>bundle_case_id = cid, bundle_generated_at = proof_generated_at i, bundle_ledger = ys,
      bundle_lock_data = proof_lock i, bundle_minimization = baseline_result,
      bundle_oracle = proof_oracle i, bundle_patch = [],
      bundle_run_log = control_of i # candidates_of i, bundle_summary = s\<rparr>"


lemma proof_lock_ok:
  assumes ok: "proof_input_ok h T i"
  shows "bundle_lock_ok (proof_lock i)"
  using ok proof_environment_record reproduction_command_nonempty
  by (auto simp: bundle_lock_ok_def proof_lock_def proof_input_ok_def dependency_metadata_ok_def
      execution_environment_ok_def source_provenance_ok_def failure_oracle_ok_def
      repository_source_ok_def full_name_ok_def len_in_def tool_version_string_def digit_char_def
      code_unit_def commit_string_def hex_string_def dest: sha256_string_nonempty)

lemma verified_repeatability:
  assumes ok: "proof_input_ok h T i"
    and "summary_status (summary_of h i) = StatusVerified"
  shows "repeatability (summary_of h i) = 1"
proof -
  let ?n = "length (candidates_of i)" and ?m = "length (matching_candidates h (verification_of i))"
  have "?m = ?n"
    using assms by (auto simp: expected_summary_def verdict_def Let_def verification_of_def
        split: if_splits)
  then show ?thesis
    using candidate_count(2) [OF ok] by (auto simp: expected_summary_def Let_def verification_of_def)
qed

lemma packaged:
  assumes ok: "proof_input_ok h T i" and host: "proof_host_ok h R T i"
    and verified: "summary_status (summary_of h i) = StatusVerified"
    and cid: "cid \<noteq> []" and ys: "list_all hypothesis_ok ys"
  obtains b where
    "package_proof h R T i cid (control_of i) (candidates_of i) ys (summary_of h i) =
       Inr (baseline_result, b, bundle_files h R b)"
    and "repro_bundle_ok h (datetime_text T) b"
    and "bundle_input.truncate b = packaged_input i cid ys (summary_of h i)"
    and "hash_canonical h (value_of_json (base_json R b)) = Inr (bundle_hash b)"
    and "validate_materialized_bundle h R (bundle_files h R b) = BundleValid"
proof -
  let ?s = "summary_of h i"
  let ?i = "packaged_input i cid ys ?s"
  have baseline: "minimization_result_ok baseline_result"
    by (simp add: baseline_result_def minimization_result_ok_def minimization_result_refined_def)
  have fields: "bundle_fields_ok h (datetime_text T) ?i" and refined: "bundle_refined ?i"
    using ok cid ys proof_lock_ok [OF ok] baseline runs_ok [OF ok] summary_ok [OF ok] verified
    by (auto simp: bundle_fields_ok_def packaged_input_def proof_input_ok_def bundle_refined_def
        expected_summary_def Let_def verification_of_def proof_lock_def)
  obtain b where b: "create_bundle h R (datetime_text T) ?i = Inr b" "bundle_input.truncate b = ?i"
      "repro_bundle_ok h (datetime_text T) b"
      "hash_canonical h (value_of_json (base_json R b)) = Inr (bundle_hash b)"
    using create_bundle_total [OF _ fields refined, of R] host by (auto simp: proof_host_ok_def)
  have data: "bundle_data_ok h R b"
    using host b(2) verified_repeatability [OF ok verified]
    by (auto simp: bundle_data_ok_def proof_host_ok_def packaged_input_def bundle_input.truncate_def
        summary_ratio_ok_def baseline_result_def)
  note valid = valid_bundle_files [OF b(3) data]
  have "package_proof h R T i cid (control_of i) (candidates_of i) ys ?s =
      Inr (baseline_result, b, bundle_files h R b)"
    using b(1) valid materialize_bundle_ok [OF b(3), of R] baseline_minimization [OF ok verified]
    by (simp add: package_proof_def throw_as_def minimization_of_def packaged_input_def check_def)
  with b valid show thesis using that by blast
qed


section \<open>The assembled proof\<close>

definition proof_result_of ::
  "js_host \<Rightarrow> time_host \<Rightarrow> proof_input
     \<Rightarrow> minimization_result option \<times> repro_bundle option \<times> (string \<times> string) list \<Rightarrow> proof_result" where
  "proof_result_of h T i packed =
     (let s = summary_of h i in
      \<lparr>result_budget = proof_budget i, result_bundle = fst (snd packed),
       result_case = moved_case (proof_case i) (first_move T (proof_case i) s (proof_generated_at i))
         (proof_moves s),
       result_evidence = evidence_of i, result_files = snd (snd packed),
       result_hypotheses = [hypothesis_of i s], result_minimization = fst packed,
       result_oracle = proof_oracle i, result_cleanup = proof_cleanup i,
       result_dependency = proof_dependency i, result_environment = proof_environment i,
       result_provenance = proof_provenance i, result_runs = control_of i # candidates_of i,
       result_summary = s\<rparr>)"

text \<open>What a proof holds besides the parts copied from its input.\<close>

definition proof_faithful ::
  "js_host \<Rightarrow> ratio_host \<Rightarrow> time_host \<Rightarrow> proof_input \<Rightarrow> proof_result \<Rightarrow> bool" where
  "proof_faithful h R T i r \<longleftrightarrow>
     (if summary_status (result_summary r) = StatusVerified
      then \<exists>b. r = proof_result_of h T i (Some baseline_result, Some b, bundle_files h R b) \<and>
        bundle_input.truncate b =
          packaged_input i (case_id (proof_case i)) (result_hypotheses r) (result_summary r) \<and>
        hash_canonical h (value_of_json (base_json R b)) = Inr (bundle_hash b) \<and>
        materialize_bundle h R (datetime_text T) b = Inr (result_files r) \<and>
        validate_materialized_bundle h R (result_files r) = BundleValid
      else r = proof_result_of h T i (None, None, []))"


lemma verification_run:
  assumes ok: "proof_input_ok h T i"
  shows "verify_reproduction h
    \<lparr>input_oracle = proof_oracle i, input_control = control_of i, input_candidates = candidates_of i,
     input_required_runs = Some (proof_required_runs (proof_budget i))\<rparr> = Inr (summary_of h i)"
  using verify_reproduction_eq [OF verification_ok [OF ok]] by (simp add: verification_of_def)

lemma terminal_run:
  assumes ok: "proof_input_ok h T i" and host: "proof_host_ok h R T i"
  shows "terminal_case T (proof_case i) (summary_of h i) (proof_generated_at i) = Inr (result_case (proof_result_of h T i p))"
  "repro_case_ok (result_case (proof_result_of h T i p))"
  "case_st (result_case (proof_result_of h T i p)) = verdict_state (summary_status (summary_of h i))"
  using terminal_case_ok [of "proof_case i" "summary_of h i" T "proof_generated_at i"] ok host reason_nonempty [OF ok]
  by (simp_all add: proof_result_of_def Let_def proof_input_ok_def proof_host_ok_def proof_mismatch_def)

lemma proof_result_valid:
  assumes ok: "proof_input_ok h T i" and host: "proof_host_ok h R T i"
    and "summary_status (summary_of h i) = StatusVerified \<longleftrightarrow> b \<noteq> None"
    and "b \<noteq> None \<longleftrightarrow> m \<noteq> None" and "b \<noteq> None \<longleftrightarrow> files \<noteq> []"
    and "pred_option (repro_bundle_ok h (datetime_text T)) b" and "pred_option minimization_result_ok m"
  shows "proof_result_ok h T (proof_result_of h T i (m, b, files))"
proof -
  let ?r = "proof_result_of h T i (m, b, files)"
  note hyp = proof_hypothesis_ok [OF reason_nonempty [OF ok], of i]
  note ev = proof_evidence_ok [OF ok]
  have ids: "length (evidence_of i) = 3" using arg_cong [OF ev(3), of length] by simp
  have "proof_refined ?r"
    using assms(3-5) terminal_run(3) [OF ok host, of "(m, b, files)"] hyp(3) ev(3)
    by (simp add: proof_refined_def proof_result_of_def Let_def)
  then show ?thesis
    using ok assms(6,7) terminal_run(2) [OF ok host, of "(m, b, files)"] hyp(2) ev(2) ids runs_ok [OF ok]
      candidate_count [OF ok] summary_ok [OF ok]
    by (simp add: proof_result_ok_def proof_input_ok_def proof_result_of_def Let_def)
qed

lemma assemble_unverified:
  assumes ok: "proof_input_ok h T i" and host: "proof_host_ok h R T i"
    and "summary_status (summary_of h i) \<noteq> StatusVerified"
  shows "assemble_repository_proof h R T i = Inr (proof_result_of h T i (None, None, []))"
proof -
  have "proof_result_ok h T (proof_result_of h T i (None, None, []))"
    using assms by (intro proof_result_valid [OF ok host]) auto
  then show ?thesis
    using ok assms persisted_runs [OF ok] verification_run [OF ok] proof_evidence_ok(1) [OF ok]
      proof_hypothesis_ok(1) [OF reason_nonempty [OF ok], of i] terminal_run(1) [OF ok host, of "(None, None, [])"]
    by (simp add: assemble_repository_proof_def throw_as_def) (simp add: proof_result_of_def Let_def)
qed

lemma assemble_verified:
  assumes ok: "proof_input_ok h T i" and host: "proof_host_ok h R T i"
    and verified: "summary_status (summary_of h i) = StatusVerified"
  obtains b where
    "assemble_repository_proof h R T i =
       Inr (proof_result_of h T i (Some baseline_result, Some b, bundle_files h R b))"
    and "bundle_input.truncate b = packaged_input i (case_id (proof_case i)) [hypothesis_of i (summary_of h i)] (summary_of h i)"
    and "hash_canonical h (value_of_json (base_json R b)) = Inr (bundle_hash b)"
    and "materialize_bundle h R (datetime_text T) b = Inr (bundle_files h R b)"
    and "validate_materialized_bundle h R (bundle_files h R b) = BundleValid"
proof -
  note hyp = proof_hypothesis_ok(1,2) [OF reason_nonempty [OF ok], of i]
  have cid: "case_id (proof_case i) \<noteq> []" using ok by (simp add: proof_input_ok_def repro_case_ok_def)
  obtain b where b: "package_proof h R T i (case_id (proof_case i)) (control_of i) (candidates_of i)
        [hypothesis_of i (summary_of h i)] (summary_of h i) = Inr (baseline_result, b, bundle_files h R b)"
      "repro_bundle_ok h (datetime_text T) b"
      "bundle_input.truncate b = packaged_input i (case_id (proof_case i)) [hypothesis_of i (summary_of h i)] (summary_of h i)"
      "hash_canonical h (value_of_json (base_json R b)) = Inr (bundle_hash b)"
      "validate_materialized_bundle h R (bundle_files h R b) = BundleValid"
    using packaged [OF ok host verified cid, of "[hypothesis_of i (summary_of h i)]"] hyp(2) by auto
  let ?p = "(Some baseline_result, Some b, bundle_files h R b)"
  have "proof_result_ok h T (proof_result_of h T i ?p)"
    using verified b(2) by (intro proof_result_valid [OF ok host])
      (auto simp: bundle_files_def baseline_result_def minimization_result_ok_def
        minimization_result_refined_def)
  then have "assemble_repository_proof h R T i = Inr (proof_result_of h T i ?p)"
    using ok verified persisted_runs [OF ok] verification_run [OF ok] proof_evidence_ok(1) [OF ok] hyp(1)
      terminal_run(1) [OF ok host, of ?p] b(1)
    by (simp add: assemble_repository_proof_def throw_as_def) (simp add: proof_result_of_def Let_def)
  with b(3-5) materialize_bundle_ok [OF b(2), of R] show thesis using that by blast
qed

lemma assemble_faithful:
  assumes ok: "proof_input_ok h T i" and host: "proof_host_ok h R T i"
  shows "\<exists>r. assemble_repository_proof h R T i = Inr r \<and> proof_faithful h R T i r"
proof (cases "summary_status (summary_of h i) = StatusVerified")
  case True
  show ?thesis
    by (rule assemble_verified [OF ok host True])
      (auto simp: proof_faithful_def proof_result_of_def Let_def True)
next
  case False
  then show ?thesis
    using assemble_unverified [OF ok host] by (auto simp: proof_faithful_def proof_result_of_def Let_def)
qed


section \<open>Properties of the proof\<close>

text \<open>
  \<open>assembleRepositoryProof\<close> refuses every input whose parts are ill-formed or do not share
  one provenance, and returns a proof for every other input: that of its runs, with the
  verdict's case, and with a sealed bundle and its validated files exactly when verified.
\<close>

theorem proof_is_assembled_faithfully:
  assumes "proof_host_ok h R T i"
  shows "if proof_input_ok h T i
    then \<exists>r. assemble_repository_proof h R T i = Inr r \<and> proof_faithful h R T i r
    else assemble_repository_proof h R T i = Inl ProofInputError"
  using assemble_faithful [OF _ assms] by (simp add: assemble_repository_proof_def)

lemma assembled_input_ok: "assemble_repository_proof h R T i = Inr r \<Longrightarrow> proof_input_ok h T i"
  by (cases "proof_input_ok h T i") (simp_all add: assemble_repository_proof_def)

lemma assembled_parts:
  assumes "proof_host_ok h R T i" and "assemble_repository_proof h R T i = Inr r"
  shows "\<exists>p. r = proof_result_of h T i p"
  using assemble_faithful [OF assembled_input_ok [OF assms(2)] assms(1)] assms(2)
  by (auto simp: proof_faithful_def split: if_splits)

text \<open>
  C5. A proof says VERIFIED exactly when the oracle holds of no control and of every candidate,
  all in one environment; the case ends in the state of the verdict on the route of that
  verdict, and there is one control and as many candidates as required.
\<close>

theorem proof_verdict_is_earned:
  assumes host: "proof_host_ok h R T i" and r: "assemble_repository_proof h R T i = Inr r"
  shows "\<exists>ctl cs. result_runs r = ctl # cs \<and>
    int (length cs) = proof_required_runs (proof_budget i) \<and>
    (summary_status (result_summary r) = StatusVerified \<longleftrightarrow>
      \<not> holds h ctl (oracle_root (proof_oracle i)) \<and>
      (\<forall>c \<in> set cs. holds h c (oracle_root (proof_oracle i)) \<and>
        run_environment_hash c = run_environment_hash ctl)) \<and>
    case_st (result_case r) = verdict_state (summary_status (result_summary r)) \<and>
    case_route (result_case r) =
      case_route (proof_case i) @ map fst (proof_moves (result_summary r))"
proof -
  note ok = assembled_input_ok [OF r]
  obtain p where p: "r = proof_result_of h T i p" using assembled_parts [OF host r] by blast
  have "case_st (result_case r) = verdict_state (summary_status (result_summary r))"
    using terminal_run(3) [OF ok host, of p] by (simp add: p proof_result_of_def Let_def)
  moreover have "case_route (result_case r) =
      case_route (proof_case i) @ map fst (proof_moves (result_summary r))"
    by (simp add: p proof_result_of_def Let_def moved_case_route)
  ultimately show ?thesis
    using candidate_count(3) [OF ok]
    by (intro exI [of _ "control_of i"] exI [of _ "candidates_of i"])
      (auto simp: p proof_result_of_def Let_def expected_status verification_of_def
        required_or_default_def run_matches_def pinned_environment_def)
qed



section \<open>The shell reads the quoted command as its words\<close>

text \<open>
  Word splitting of a POSIX shell on blanks, plain characters, single quotes and double
  quotes; \<open>None\<close> where the shell would expand, redirect or combine anything.
\<close>

datatype shell_mode = Blank | Plain | Single | Double

definition plain_char :: "char \<Rightarrow> bool" where
  "plain_char c \<longleftrightarrow> alnum_char c \<or> c = CHR ''-''"

definition double_special :: "char \<Rightarrow> bool" where
  "double_special c \<longleftrightarrow> c = CHR 0x24 \<or> c = CHR 0x60 \<or> c = CHR 0x5C"

fun shell_scan :: "shell_mode \<Rightarrow> string \<Rightarrow> string \<Rightarrow> string list option" where
  "shell_scan Blank w [] = Some []"
| "shell_scan Plain w [] = Some [w]"
| "shell_scan _ w [] = None"
| "shell_scan Single w (c # cs) =
     (if c = CHR 0x27 then shell_scan Plain w cs else shell_scan Single (w @ [c]) cs)"
| "shell_scan Double w (c # cs) =
     (if c = CHR 0x22 then shell_scan Plain w cs
      else if double_special c then None else shell_scan Double (w @ [c]) cs)"
| "shell_scan m w (c # cs) =
     (if c = CHR '' '' then
        (if m = Plain then map_option (Cons w) (shell_scan Blank [] cs) else shell_scan Blank [] cs)
      else if c = CHR 0x27 then shell_scan Single w cs
      else if c = CHR 0x22 then shell_scan Double w cs
      else if plain_char c then shell_scan Plain (w @ [c]) cs else None)"

definition shell_words :: "string \<Rightarrow> string list option" where
  "shell_words s = shell_scan Blank [] s"

lemma scan_quoted:
  "shell_scan Single w (concat (map (\<lambda>c. if c = CHR 0x27
       then [CHR 0x27, CHR 0x22, CHR 0x27, CHR 0x22, CHR 0x27] else [c]) s) @ CHR 0x27 # rest) =
   shell_scan Plain (w @ s) rest"
  by (induction s arbitrary: w) (simp_all add: double_special_def)

lemma scan_shell_quote: "shell_scan Blank [] (shell_quote s @ rest) = shell_scan Plain s rest"
  using scan_quoted [of "[]" s rest] by (simp add: shell_quote_def)

lemma scan_plain_word:
  assumes "list_all plain_char s" and "s \<noteq> []"
  shows "shell_scan Blank [] (s @ rest) = shell_scan Plain s rest"
proof -
  have no: "c \<noteq> CHR '' '' \<and> c \<noteq> CHR 0x27 \<and> c \<noteq> CHR 0x22" if "plain_char c" for c
    using that by (auto simp: plain_char_def alnum_char_def digit_char_def upper_char_def lower_char_def
        code_unit_def)
  have plain: "list_all plain_char t \<Longrightarrow> shell_scan Plain w (t @ rest) = shell_scan Plain (w @ t) rest" for t w
    by (induction t arbitrary: w) (use no in auto)
  from assms obtain c cs where s: "s = c # cs" by (cases s) auto
  show ?thesis using assms(1) no [of c] plain [of cs "[c]"] by (simp add: s)
qed

text \<open>A text that the shell reads as one word, alone and before a blank.\<close>

definition shell_word :: "string \<Rightarrow> string \<Rightarrow> bool" where
  "shell_word s w \<longleftrightarrow>
     (\<forall>rest. shell_scan Blank [] (s @ '' '' @ rest) = map_option (Cons w) (shell_scan Blank [] rest)) \<and>
     shell_scan Blank [] s = Some [w]"

lemma quoted_word: "shell_word (shell_quote s) s"
  using scan_shell_quote [of s] scan_shell_quote [of s "[]"] by (simp add: shell_word_def)

lemma plain_word:
  assumes "list_all plain_char s" and "s \<noteq> []"
  shows "shell_word s s"
  using scan_plain_word [OF assms] scan_plain_word [OF assms, of "[]"] by (simp add: shell_word_def)

lemma shell_scan_join:
  "list_all2 shell_word ss ws \<Longrightarrow> ss \<noteq> [] \<Longrightarrow> shell_scan Blank [] (join '' '' ss) = Some ws"
proof (induction ss ws rule: list_all2_induct)
  case (Cons s ss w ws)
  then show ?case by (cases "ss = []") (simp_all add: shell_word_def join_Cons)
qed simp

text \<open>
  The command in the lock runs npm on exactly the declared script: a shell splits it into
  these words, whatever quotes, blanks or operators the script name or the pattern holds.
\<close>

theorem reproduction_command_is_exact:
  "shell_words (reproduction_command p) = Some
     ([''npm'', ''run'', reproduction_script p] @
      (case test_name_pattern p of
         None \<Rightarrow> []
       | Some t \<Rightarrow> if t = [] then [] else [''--'', ''--testNamePattern'', t]))"
proof -
  have "shell_word s s" if "s \<in> {''npm'', ''run'', ''--'', ''--testNamePattern''}" for s
    using that by (intro plain_word)
      (auto simp: plain_char_def alnum_char_def digit_char_def upper_char_def lower_char_def code_unit_def)
  then show ?thesis
    unfolding shell_words_def reproduction_command_def
    by (intro shell_scan_join) (simp_all add: quoted_word split: option.split)
qed


section \<open>A concrete proof\<close>

definition sample_capture :: "string \<Rightarrow> captured_output" where
  "sample_capture t =
     \<lparr>out_original_bytes = 1, out_sha256 = replicate 64 (CHR ''0''), out_text = t, out_truncated = False\<rparr>"

definition sample_bounded :: "run_role \<Rightarrow> run_result \<Rightarrow> bounded_run" where
  "sample_bounded role r =
     \<lparr>bounded_stderr = sample_capture (run_stderr r), bounded_stdout = sample_capture (run_stdout r),
      bounded_role = role, bounded_result = r\<rparr>"

definition sample_times :: time_host where
  "sample_times = \<lparr>datetime_text = utc_time, date_parse = (\<lambda>_. 1000)\<rparr>"

definition sample_proof_input :: "string list \<Rightarrow> proof_input" where
  "sample_proof_input secrets =
     \<lparr>proof_budget = \<lparr>max_tool_calls = 12, proof_required_runs = 3\<rparr>,
      proof_case = \<lparr>case_created_at = 10, case_history = [], case_id = ''case-1'', case_st = Draft,
        case_updated_at = 10\<rparr>,
      proof_cleanup = Clean, proof_dependency = sample_metadata,
      proof_environment = sample_environment,
      proof_execution =
        \<lparr>exp_candidates = replicate 3 (sample_bounded CandidateRun cli_spaces_reproduce),
         exp_control = sample_bounded ControlRun cli_spaces_control, exp_total_duration_ms = 44\<rparr>,
      proof_generated_at = ''2026-01-01T00:00:00Z'', proof_issue = None,
      proof_oracle = cli_spaces_oracle, proof_profile = sample_profile, proof_secrets = secrets,
      proof_source = sample_source, proof_provenance = sample_provenance\<rparr>"

lemma sample_bounded_ok:
  "bounded_run_ok (sample_bounded role cli_spaces_reproduce)"
  "bounded_run_ok (sample_bounded role cli_spaces_control)"
  using cli_spaces_runs_ok
  by (simp_all add: bounded_run_ok_def sample_bounded_def sample_capture_def captured_output_ok_def
      zero_hash safe_int_def max_safe_integer_def max_output_bytes_def cli_spaces_reproduce_def
      cli_spaces_control_def)

lemma sample_versions_ok: "execution_environment_ok sample_environment"
  by (simp add: execution_environment_ok_def sample_environment_def sample_strings_ok node_release_def
      semver_text_def digit_char_def code_unit_def)

lemma sample_proof_ok:
  assumes "proof_secrets_ok secrets"
  shows "proof_input_ok plain_host sample_times (sample_proof_input secrets)"
proof -
  have "experiment_result_ok (proof_execution (sample_proof_input secrets))"
    using sample_bounded_ok
    by (simp add: experiment_result_ok_def sample_proof_input_def max_runs_def max_total_attempt_ms_def)
      (simp add: sample_bounded_def)
  moreover have "source_provenance_ok sample_provenance"
    by (simp add: source_provenance_ok_def sample_provenance_def sample_strings_ok valid_instant_def
        safe_int_def max_safe_integer_def max_entries_def len_in_def)
  moreover have "repository_source_ok sample_source"
    by (simp add: repository_source_ok_def sample_source_def sample_strings_ok full_name_ok_def
        identifier_ok_def len_in_def alnum_char_def digit_char_def space_char_def code_unit_def)
  moreover have "\<not> proof_mismatch sample_times (sample_proof_input secrets)"
    by (simp add: proof_mismatch_def sample_proof_input_def sample_times_def sample_source_def
        sample_provenance_def sample_environment_def sample_metadata_def sample_profile_def)
  ultimately show ?thesis
    using assms sample_metadata_ok sample_versions_ok sample_profile_ok cli_spaces_oracle_ok [of plain_host]
    by (simp add: proof_input_ok_def sample_proof_input_def proof_budget_ok_def repro_case_ok_def
        valid_instant_def sample_times_def utc_time_def)
qed

lemma sample_proof_host: "proof_host_ok plain_host one_ratio sample_times (sample_proof_input secrets)"
proof -
  have "ratio_ok plain_host one_ratio 1"
    by (simp add: ratio_ok_def one_ratio_def number_text_ok_def json_number_def json_fraction_def
        num_char_def digit_char_def code_unit_def plain_host_def)
  then show ?thesis
    by (simp add: proof_host_ok_def sample_proof_input_def sample_times_def valid_instant_def
        cli_spaces_oracle_def host_numbers_def plain_host_def zero_hash)
qed

lemma no_secrets_ok: "proof_secrets_ok []" "proof_secrets_ok [''s3cr3t'']"
  by (simp_all add: proof_secrets_ok_def len_in_def)

lemma redact_nothing [simp]: "redact_string val [] = val"
  by (simp add: redact_string_def unique_secrets_def)

lemma sample_runs_hold:
  "\<not> holds h (run_of [] (sample_bounded ControlRun cli_spaces_control)) (oracle_root cli_spaces_oracle)"
  "holds h (run_of [] (sample_bounded CandidateRun cli_spaces_reproduce)) (oracle_root cli_spaces_oracle)"
  using cli_spaces_holds [of h]
  by (simp_all add: cli_spaces_oracle_def run_of_def sample_bounded_def redact_run_def sample_capture_def
      stream_value_def)

lemma sample_status:
  "summary_status (expected_summary h (verification_of (sample_proof_input []))) = StatusVerified"
  using sample_runs_hold
  by (simp add: expected_status verification_of_def control_of_def candidates_of_def sample_proof_input_def
      run_matches_def pinned_environment_def required_or_default_def)
    (simp add: run_of_def redact_run_def sample_bounded_def cli_spaces_control_def cli_spaces_reproduce_def)

theorem proof_is_assembled_faithfully_witness:
  "\<exists>r. assemble_repository_proof plain_host one_ratio sample_times (sample_proof_input []) = Inr r \<and>
    result_bundle r \<noteq> None \<and> map fst (result_files r) = required_bundle_files"
proof -
  obtain r where r: "assemble_repository_proof plain_host one_ratio sample_times (sample_proof_input []) = Inr r"
    and f: "proof_faithful plain_host one_ratio sample_times (sample_proof_input []) r"
    using proof_is_assembled_faithfully [OF sample_proof_host [of "[]"]]
    by (auto simp: sample_proof_ok [OF no_secrets_ok(1)])
  have "summary_status (result_summary r) = StatusVerified"
    using assembled_parts [OF sample_proof_host r] sample_status [of plain_host]
    by (auto simp: proof_result_of_def Let_def)
  then show ?thesis
    using r f by (auto simp: proof_faithful_def proof_result_of_def Let_def bundle_files_def
        required_bundle_files_def)
qed

theorem proof_verdict_is_earned_witness:
  "\<exists>r. assemble_repository_proof plain_host one_ratio sample_times (sample_proof_input []) = Inr r \<and>
    case_st (result_case r) = Verified \<and> length (result_runs r) = 4"
proof -
  obtain r where r: "assemble_repository_proof plain_host one_ratio sample_times (sample_proof_input []) = Inr r"
    using assemble_faithful [OF sample_proof_ok [OF no_secrets_ok(1)] sample_proof_host] by blast
  have "summary_status (result_summary r) = StatusVerified"
    using assembled_parts [OF sample_proof_host r] sample_status [of plain_host]
    by (auto simp: proof_result_of_def Let_def)
  then show ?thesis
    using r proof_verdict_is_earned [OF sample_proof_host r]
    by (auto simp: sample_proof_input_def)
qed


end
