(* ===== verification/Runner.thy ===== *)
theory Runner
  imports RepositoryProof Acquisition Lifecycle
begin

text \<open>
  src/src/execution/isolated-repository-runner.ts: \<open>IsolatedRepositoryRunner.execute\<close>
  composes acquisition, dependency preparation, planning, the snapshot coordinator and
  the proof into one attempt, and maps every failure to a code and a stage.

  The abort signal and the timers are functions of the trace, as in theory Lifecycle:
  \<open>runner_aborted\<close> is the controller's signal, \<open>runner_timed_out\<close> whether the attempt's
  own timer fired it, and \<open>runner_elapsed ms\<close> whether a timer of \<open>ms\<close> started with the
  coordinator has fired. A stop that the abort listener starts while the attempt is being
  prepared is recorded when the preparation has settled.
\<close>

section \<open>Inputs\<close>

record principal =
  principal_caller :: string
  principal_id :: string
  principal_tenant :: string

definition principal_ok :: "principal \<Rightarrow> bool" where
  "principal_ok p \<longleftrightarrow>
     len_in 1 128 (principal_caller p) \<and> len_in 1 128 (principal_id p) \<and>
     len_in 1 128 (principal_tenant p)"

record runner_input =
  runner_attempt :: string
  runner_budget :: proof_budget
  runner_case :: repro_case
  runner_issue :: "issue_evidence option"
  runner_oracle :: failure_oracle
  runner_principal :: principal
  runner_profile :: node_profile
  runner_secrets :: "string list"
  runner_source :: repository_source

definition runner_input_ok :: "js_host \<Rightarrow> runner_input \<Rightarrow> bool" where
  "runner_input_ok h i \<longleftrightarrow>
     identifier_ok ''._:-'' (runner_attempt i) \<and> proof_budget_ok (runner_budget i) \<and>
     repro_case_ok (runner_case i) \<and> case_st (runner_case i) = Draft \<and>
     pred_option issue_evidence_ok (runner_issue i) \<and> failure_oracle_ok h (runner_oracle i) \<and>
     principal_ok (runner_principal i) \<and> node_profile_ok (runner_profile i) \<and>
     proof_secrets_ok (runner_secrets i) \<and> repository_source_ok (runner_source i)"

text \<open>The runner and its host; \<open>iso_text\<close> is \<open>toISOString\<close>.\<close>

record runner =
  runner_host :: js_host
  runner_ratio :: ratio_host
  runner_times :: time_host
  runner_iso :: "int \<Rightarrow> string"
  runner_world :: world
  runner_supervisor :: string
  runner_timeout_ms :: int
  runner_aborted :: "trace \<Rightarrow> bool"
  runner_timed_out :: "trace \<Rightarrow> bool"
  runner_elapsed :: "int \<Rightarrow> trace \<Rightarrow> bool"

definition runner_ok :: "runner \<Rightarrow> bool" where
  "runner_ok r \<longleftrightarrow> 1 \<le> runner_timeout_ms r \<and> runner_timeout_ms r \<le> max_total_attempt_ms"

section \<open>Errors\<close>

text \<open>The \<open>code\<close> property of an error that is neither the runner's nor the coordinator's.\<close>

definition thrown_code :: "thrown \<Rightarrow> string" where
  "thrown_code e =
     (case e of
        Foreign code \<Rightarrow> code
      | DependencyError DependencyUnsupported \<Rightarrow> ''UNSUPPORTED_SOURCE''
      | AcquisitionError UnsafeArchive \<Rightarrow> ''UNSAFE_ARCHIVE''
      | AcquisitionError ArchiveLimitExceeded \<Rightarrow> ''ARCHIVE_LIMIT_EXCEEDED''
      | ValidationError SourceArchiveLimit \<Rightarrow> ''ARCHIVE_LIMIT_EXCEEDED''
      | _ \<Rightarrow> [])"

definition lifecycle_execution_code :: "lifecycle_code \<Rightarrow> execution_code" where
  "lifecycle_execution_code code =
     (case code of
        LifecycleTimeout \<Rightarrow> ExecBudgetExhausted
      | LifecycleBudget \<Rightarrow> ExecBudgetExhausted
      | LifecycleCancelled \<Rightarrow> ExecCancelled
      | LifecycleInterrupted \<Rightarrow> ExecInterrupted
      | LifecycleFailed \<Rightarrow> ExecFailed)"

definition abort_code :: "runner \<Rightarrow> trace \<Rightarrow> execution_code" where
  "abort_code r t = (if runner_timed_out r t then ExecBudgetExhausted else ExecCancelled)"

definition runner_error :: "runner \<Rightarrow> execution_stage \<Rightarrow> thrown \<Rightarrow> trace \<Rightarrow> thrown" where
  "runner_error r stage e t =
     (case e of
        ExecutionError code at_stage \<Rightarrow>
          (if at_stage = StageProvisioning \<and> stage \<noteq> StageProvisioning then ExecutionError code stage
           else e)
      | _ \<Rightarrow>
          (if runner_aborted r t then ExecutionError (abort_code r t) StageProvisioning
           else case e of
             LifecycleError code _ \<Rightarrow> ExecutionError (lifecycle_execution_code code) stage
           | _ \<Rightarrow>
               (if thrown_code e \<in> {''UNSUPPORTED_SOURCE'', ''UNSAFE_ARCHIVE'', ''ARCHIVE_LIMIT_EXCEEDED''}
                then ExecutionError ExecUnsupportedSource StageProvisioning
                else ExecutionError ExecFailed stage)))"

text \<open>The catch clause, reached while \<open>stage\<close> is the current stage.\<close>

definition staged :: "runner \<Rightarrow> execution_stage \<Rightarrow> 'a prog \<Rightarrow> 'a prog" where
  "staged r stage m t =
     (case m t of (Inl e, u) \<Rightarrow> (Inl (runner_error r stage e u), u) | (Inr x, u) \<Rightarrow> (Inr x, u))"

section \<open>Cleanup\<close>

text \<open>The sink, with the attempt's actor and tenant; its errors are swallowed.\<close>

definition runner_quarantine :: "runner \<Rightarrow> runner_input \<Rightarrow> quarantine_record \<Rightarrow> unit prog" where
  "runner_quarantine r i q =
     perform (RecordQuarantine
       (q\<lparr>quarantine_actor := Some (principal_id (runner_principal i)),
          quarantine_tenant := Some (principal_tenant (runner_principal i))\<rparr>))
       (unit_reply (runner_world r))"

text \<open>
  \<open>cleanupPrepared\<close>: the stop is started once and its outcome kept (\<open>Some rejected\<close>);
  every call reports a rejected stop.
\<close>

definition cleanup_prepared ::
  "runner \<Rightarrow> runner_input \<Rightarrow> session \<Rightarrow> bool option \<Rightarrow> trace \<Rightarrow> bool option \<times> trace" where
  "cleanup_prepared r i s started t =
     (let (rejected, t') =
        (case started of
           Some b \<Rightarrow> (b, t)
         | None \<Rightarrow>
             let u = t @ [StopSession s]
             in (case unit_reply (runner_world r) u of Inl _ \<Rightarrow> True | Inr _ \<Rightarrow> False, u))
      in (Some rejected,
          if rejected
          then snd (runner_quarantine r i
            (quarantine_entry (runner_attempt i) (sandbox_id (runner_world r) s) SandboxResource) t')
          else t'))"

section \<open>The attempt\<close>

record prepared_attempt =
  attempt_acquired :: acquired_source
  attempt_metadata :: dependency_metadata
  attempt_plan :: execution_plan
  attempt_environment :: execution_environment

definition prepare_attempt :: "runner \<Rightarrow> runner_input \<Rightarrow> session \<Rightarrow> prepared_attempt prog" where
  "prepare_attempt r i s =
     bind (staged r StageAcquisition
       (acquire_source (runner_host r) (runner_world r) s (runner_source i))) (\<lambda>acquired.
     bind (staged r StageDependencies
       (bind (prepare_dependencies (runner_host r) (runner_world r) (acquired_manifest acquired)
           (runner_profile i) s (acquired_workspace acquired)) (\<lambda>dependency.
        bind (lift_result (build_node_execution_plan (runner_profile i)
           (proof_required_runs (runner_budget i)) (runner_source i))) (\<lambda>plan.
          ret (dependency, plan))))) (\<lambda>(dependency, plan).
     bind (staged r StageWorkspaces
       (prepare_experiment_workspaces (runner_world r) True plan s (acquired_workspace acquired))) (\<lambda>_.
     bind (staged r StageEnvironment
       (bind (collect_execution_environment (runner_host r) (runner_world r)
           (prepared_metadata dependency) True (runner_profile i) s (acquired_provenance acquired)) (\<lambda>env.
        bind (parsed dependency_metadata_ok (prepared_metadata dependency)) (\<lambda>metadata.
          ret (env, metadata))))) (\<lambda>(env, metadata).
       ret \<lparr>attempt_acquired = acquired, attempt_metadata = metadata, attempt_plan = plan,
            attempt_environment = env\<rparr>))))"

text \<open>What is left of the attempt's time, counted from the creation of the case.\<close>

definition remaining_ms :: "runner \<Rightarrow> runner_input \<Rightarrow> trace \<Rightarrow> int" where
  "remaining_ms r i t =
     max 1 (runner_timeout_ms r -
       max 0 (clock_now (runner_world r) t - case_created_at (runner_case i)))"

definition attempt_run ::
  "runner \<Rightarrow> runner_input \<Rightarrow> prepared_attempt \<Rightarrow> (trace \<Rightarrow> bool) \<Rightarrow> nat \<Rightarrow> session \<Rightarrow> bounded_run prog" where
  "attempt_run r i p aborted index s =
     (let commands = experiment_commands (attempt_plan p) in
      if length commands \<le> index then raise (ExecutionError ExecFailed StageProvisioning)
      else execute_run (runner_host r) (runner_world r) (runner_supervisor r) aborted True
        (commands ! index) (attempt_environment p) (experiment_id index (commands ! index))
        (runner_secrets i) s)"

definition attempt_coordinator ::
  "runner \<Rightarrow> runner_input \<Rightarrow> prepared_attempt \<Rightarrow> int \<Rightarrow> bounded_run coordinator" where
  "attempt_coordinator r i p remaining =
     (let aborted = (\<lambda>t. runner_aborted r t \<or> runner_elapsed r remaining t) in
      \<lparr>coord_world = runner_world r, coord_quarantine = runner_quarantine r i, coord_max_retries = 1,
       coord_expiration_ms = snapshot_min_expiration_ms, coord_timeout_ms = remaining,
       coord_aborted = aborted, coord_timed_out = runner_elapsed r remaining,
       coord_run = attempt_run r i p aborted\<rparr>)"

definition execution_result ::
  "bounded_run list \<Rightarrow> execution_environment \<Rightarrow> thrown + experiment_result" where
  "execution_result vs env =
     (case find (\<lambda>v. bounded_role v = ControlRun) vs of
        None \<Rightarrow> Inl (ExecutionError ExecFailed StageProvisioning)
      | Some control \<Rightarrow>
          (if list_ex (\<lambda>v. run_environment_hash (bounded_result v) \<noteq> env_hash env) vs
           then Inl (ExecutionError ExecFailed StageProvisioning)
           else parse_as experiment_result_ok SchemaError
             \<lparr>exp_candidates = filter (\<lambda>v. bounded_role v = CandidateRun) vs, exp_control = control,
              exp_total_duration_ms = fold (\<lambda>v n. n + run_duration_ms (bounded_result v)) vs 0\<rparr>))"

definition attempt_proof_input ::
  "runner \<Rightarrow> runner_input \<Rightarrow> prepared_attempt \<Rightarrow> cleanup_status \<Rightarrow> experiment_result \<Rightarrow> trace \<Rightarrow> proof_input" where
  "attempt_proof_input r i p cleanup e t =
     \<lparr>proof_budget = runner_budget i, proof_case = runner_case i, proof_cleanup = cleanup,
      proof_dependency = attempt_metadata p, proof_environment = attempt_environment p,
      proof_execution = e, proof_generated_at = runner_iso r (clock_now (runner_world r) t),
      proof_issue = runner_issue i, proof_oracle = runner_oracle i,
      proof_profile = runner_profile i, proof_secrets = runner_secrets i,
      proof_source = runner_source i, proof_provenance = acquired_provenance (attempt_acquired p)\<rparr>"

text \<open>The experiments and the proof, in which the coordinator owns the prepared session.\<close>

definition complete_attempt ::
  "runner \<Rightarrow> runner_input \<Rightarrow> prepared_attempt \<Rightarrow> session \<Rightarrow> proof_result prog" where
  "complete_attempt r i p s t =
     bind (staged r StageExperiments
       (bind (execute_attempt (attempt_coordinator r i p (remaining_ms r i t)) {}
           (runner_attempt i) s (int (length (experiment_commands (attempt_plan p))))) (\<lambda>lifecycle.
        bind (lift_result (execution_result (lifecycle_values lifecycle) (attempt_environment p))) (\<lambda>e.
          ret (lifecycle_cleanup lifecycle, e))))) (\<lambda>(cleanup, e).
     staged r StageProof (\<lambda>u. (assemble_repository_proof (runner_host r) (runner_ratio r)
       (runner_times r) (attempt_proof_input r i p cleanup e u), u))) t"

definition provision_request :: "runner \<Rightarrow> runner_input \<Rightarrow> create_request" where
  "provision_request r i =
     \<lparr>create_runtime = node_ver (runner_profile i),
      create_timeout_ms = min 180000 (runner_timeout_ms r)\<rparr>"

definition execute_repository :: "runner \<Rightarrow> runner_input \<Rightarrow> proof_result prog" where
  "execute_repository r i t =
     (if \<not> runner_input_ok (runner_host r) i then (Inl SchemaError, t)
      else if runner_aborted r t then (Inl (ExecutionError (abort_code r t) StageProvisioning), t)
      else
        (case staged r StageProvisioning
            (perform (CreateSandbox (provision_request r i)) (session_reply (runner_world r))) t of
           (Inl e, t1) \<Rightarrow> (Inl e, t1)
         | (Inr s, t1) \<Rightarrow>
             (case prepare_attempt r i s t1 of (prepared, t2) \<Rightarrow>
                let (started, t3) =
                  (if runner_aborted r t2 \<and> \<not> runner_aborted r t1
                   then cleanup_prepared r i s None t2 else (None, t2))
                in (case prepared of
                      Inl e \<Rightarrow> (Inl e, snd (cleanup_prepared r i s started t3))
                    | Inr p \<Rightarrow> complete_attempt r i p s t3))))"


section \<open>Only the runner and its coordinator touch resources\<close>

abbreviation quiet :: "sandbox_call \<Rightarrow> bool" where
  "quiet x \<equiv> \<not> resource_call x"

lemma emits_both [emits_rules]:
  assumes "emits P m" and "emits P n"
  shows "emits P (both m n)"
  unfolding emits_def
proof
  fix t
  obtain r1 t1 where m: "m t = (r1, t1)" by (cases "m t")
  obtain r2 t2 where n: "n t1 = (r2, t2)" by (cases "n t1")
  from emitsE [OF assms(1) m] obtain cs where "t1 = t @ cs" "list_all P cs" by blast
  moreover from emitsE [OF assms(2) n] obtain ds where "t2 = t1 @ ds" "list_all P ds" by blast
  ultimately show "\<exists>cs. snd (both m n t) = t @ cs \<and> list_all P cs"
    unfolding both_def m n prod.case by (intro exI [of _ "cs @ ds"]) (simp add: n)
qed

lemma emits_staged [emits_rules]: "emits P m \<Longrightarrow> emits P (staged r stage m)"
  unfolding emits_def staged_def by (auto split: prod.split sum.split) (metis snd_conv)+

lemma quiet_execute_run: "emits quiet (execute_run h w supervisor aborted denied c env rid secrets s)"
  unfolding emits_def
proof
  fix t
  have "emits quiet (run_in_directory h w supervisor (denied \<and> \<not> aborted t) (supervisor_directory w t)
      c env rid secrets s)"
    unfolding run_in_directory_def by (intro emits_rules) simp_all
  then show "\<exists>cs. snd (execute_run h w supervisor aborted denied c env rid secrets s t) = t @ cs \<and>
      list_all quiet cs"
    unfolding emits_def execute_run_def by blast
qed

lemma quiet_attempt_run: "emits quiet (attempt_run r i p aborted index s)"
  by (simp add: attempt_run_def Let_def quiet_execute_run emits_raise)

lemma quiet_runner_quarantine: "emits quiet (runner_quarantine r i q)"
  unfolding runner_quarantine_def by (rule emits_perform) simp

text \<open>The coordinator of the runner meets the contract of theory Lifecycle.\<close>

interpretation runner_attempt: experiment_runner "attempt_coordinator r i p remaining"
  for r i p remaining
  by unfold_locales (simp_all add: attempt_coordinator_def Let_def quiet_attempt_run quiet_runner_quarantine)

lemma acquisition_calls_quiet: "acquisition_call h s src x \<Longrightarrow> quiet x"
  by (cases x) (auto simp: acquisition_call_def)

lemma quiet_acquire: "emits quiet (acquire_source h w s src)"
proof -
  have "emits quiet (obtain_archive h w src)" "emits quiet (inspect_archive h w s)" for src
    by (rule emits_mono [OF emits_obtain], erule acquisition_calls_quiet)
      (rule emits_mono [OF emits_inspect], erule acquisition_calls_quiet)
  moreover have "emits quiet (current_time w)"
    by (rule emits_silent) (simp add: current_time_def)
  ultimately show ?thesis
    unfolding acquire_source_def by (intro emits_rules) simp_all
qed

lemma quiet_fetch: "emits quiet (fetch_online w s)"
  unfolding fetch_online_def by (intro emits_rules) (auto intro: emits_rules)

lemma quiet_dependencies: "emits quiet (prepare_dependencies h w m p s ws)"
proof -
  have "emits quiet (assert_source_workspace ws)"
    unfolding assert_source_workspace_def by (intro emits_rules)
  then show ?thesis
    unfolding prepare_dependencies_def case_prod_unfold
    by (intro emits_rules quiet_fetch) simp_all
qed

lemma quiet_workspaces: "emits quiet (prepare_experiment_workspaces w denied plan s src)"
  unfolding prepare_experiment_workspaces_def prepare_workspace_def Let_def
  by (intro emits_rules) simp_all

lemma quiet_environment: "emits quiet (collect_execution_environment h w d denied p s prov)"
  unfolding collect_execution_environment_def case_prod_unfold by (intro emits_rules) simp_all

lemma quiet_prepare: "emits quiet (prepare_attempt r i s)"
  unfolding prepare_attempt_def case_prod_unfold
  by (intro emits_rules quiet_acquire quiet_dependencies quiet_workspaces quiet_environment)


section \<open>No attempt leaks a sandbox\<close>

definition no_leak :: "world \<Rightarrow> trace \<Rightarrow> trace \<Rightarrow> bool" where
  "no_leak w t cs \<longleftrightarrow>
     (\<forall>s \<in> set (created_sessions w t cs). StopSession s \<in> set cs) \<and>
     (\<forall>snap. count_list cs (DeleteSnapshot snap) = count_list (taken_snapshots w t cs) snap)"

text \<open>Calls that neither create nor snapshot nor delete.\<close>

definition harmless :: "world \<Rightarrow> trace \<Rightarrow> bool" where
  "harmless w xs \<longleftrightarrow>
     (\<forall>t. created_sessions w t xs = [] \<and> taken_snapshots w t xs = []) \<and>
     (\<forall>snap. DeleteSnapshot snap \<notin> set xs)"

lemma harmless_quiet: "list_all quiet xs \<Longrightarrow> harmless w xs"
  using quiet_observations by (simp add: harmless_def)

lemma harmless_append: "harmless w xs \<Longrightarrow> harmless w ys \<Longrightarrow> harmless w (xs @ ys)"
  by (simp add: harmless_def observe_append)

lemma harmless_stop: "harmless w [StopSession s]"
  by (simp add: harmless_def created_by_def taken_by_def)

lemma no_leak_harmless:
  "harmless w xs \<Longrightarrow> no_leak w (t @ xs) cs \<Longrightarrow> no_leak w t (xs @ cs)"
  by (auto simp: no_leak_def harmless_def observe_append count_list_append count_list_0_iff)

lemma cleanup_prepared_calls:
  assumes "cleanup_prepared r i s started t = (started', t')"
  obtains xs where "t' = t @ xs" and "harmless w xs" and "started = None \<Longrightarrow> StopSession s \<in> set xs"
    and "started' \<noteq> None"
proof -
  let ?q = "quarantine_entry (runner_attempt i) (sandbox_id (runner_world r) s) SandboxResource"
  obtain rejected u xs where u: "u = t @ xs" "harmless w xs" "started = None \<longrightarrow> StopSession s \<in> set xs"
    and t': "t' = (if rejected then snd (runner_quarantine r i ?q u) else u)" "started' = Some rejected"
  proof (cases started)
    case None
    then show thesis
      using assms harmless_stop [of w s]
      by (intro that [of "t @ [StopSession s]" "[StopSession s]" "the started'"])
        (auto simp: cleanup_prepared_def Let_def split: sum.splits)
  next
    case (Some b)
    then show thesis
      using assms harmless_quiet [of "[]" w]
      by (intro that [of t "[]" b]) (auto simp: cleanup_prepared_def)
  qed
  obtain ys where "snd (runner_quarantine r i ?q u) = u @ ys" "list_all quiet ys"
    using quiet_runner_quarantine [of r i ?q] unfolding emits_def by blast
  then have "\<exists>ys. t' = u @ ys \<and> harmless w ys"
    using t' harmless_quiet [of ys w] harmless_quiet [of "[]" w] by auto
  then obtain ys where "t' = u @ ys" "harmless w ys" by blast
  with u t'(2) show thesis using that [of "xs @ ys"] harmless_append by auto
qed

lemma staged_Inr: "staged r stage m t = (Inr x, u) \<longleftrightarrow> m t = (Inr x, u)"
  by (auto simp: staged_def split: prod.splits sum.splits)

lemma prepared_plan:
  assumes "prepare_attempt r i s t = (Inr p, t')"
  shows "build_node_execution_plan (runner_profile i) (proof_required_runs (runner_budget i))
      (runner_source i) = Inr (attempt_plan p)"
  using assms by (auto simp: prepare_attempt_def bind_Inr_iff staged_Inr lift_result_def)

lemma planned_experiments:
  assumes "build_node_execution_plan p n src = Inr plan"
  shows "length (experiment_commands plan) = nat n + 1" and "3 \<le> n" and "n \<le> 5"
proof -
  have valid: "3 \<le> n \<and> n \<le> 5" and plan: "plan_commands plan = planned_commands p (nat n)"
    using assms plan_exists_for_valid_request' [of p n src] by (auto split: if_splits)
  then show "3 \<le> n" "n \<le> 5" by simp_all
  show "length (experiment_commands plan) = nat n + 1"
    by (simp add: experiment_commands_def plan planned_commands_def npm_fetch_command_def
        npm_install_command_def control_command_def candidate_command_def experiment_phase_def
        filter_map comp_def)
qed

lemma complete_attempt_calls:
  assumes "runner_input_ok (runner_host r) i" and "prepare_attempt r i s t0 = (Inr p, t1)"
    and "complete_attempt r i p s t = (res, t')"
  shows "\<exists>cs. t' = t @ cs \<and> no_leak (runner_world r) t cs \<and> StopSession s \<in> set cs"
proof -
  let ?c = "attempt_coordinator r i p (remaining_ms r i t)"
  let ?n = "int (length (experiment_commands (attempt_plan p)))"
  obtain out u where run: "execute_attempt ?c {} (runner_attempt i) s ?n t = (out, u)" by fastforce
  have "t' = u"
    using assms(3) by (auto simp: complete_attempt_def bind_def staged_def run lift_result_def ret_def
        split: sum.splits prod.splits)
  have "attempt_input_ok (runner_attempt i) ?n"
    using assms(1) planned_experiments [OF prepared_plan [OF assms(2)]]
    by (auto simp: attempt_input_ok_def runner_input_ok_def)
  from runner_attempt.attempt_released [OF this run] obtain cs where
    cs: "u = t @ cs" "runner_attempt.snapshots_deleted r i p (remaining_ms r i t) t cs"
    "\<forall>x \<in> insert s (set (created_sessions (coord_world ?c) t cs)). count_list cs (StopSession x) = 1"
    by auto
  have w: "coord_world ?c = runner_world r" by (simp add: attempt_coordinator_def Let_def)
  have "StopSession x \<in> set cs" if "count_list cs (StopSession x) = 1" for x
    using that by (metis count_list_0_iff zero_neq_one)
  then have "no_leak (runner_world r) t cs \<and> StopSession s \<in> set cs"
    using cs(2,3) by (auto simp: no_leak_def runner_attempt.snapshots_deleted_def w)
  with cs(1) \<open>t' = u\<close> show ?thesis by blast
qed


lemma no_leak_created:
  "StopSession s \<in> set xs \<Longrightarrow> harmless w xs \<Longrightarrow> no_leak w t (CreateSandbox q # xs)"
  if "session_reply w (t @ [CreateSandbox q]) = Inr s"
  using that by (auto simp: no_leak_def harmless_def created_by_def taken_by_def count_list_0_iff)

lemma no_leak_started:
  assumes "session_reply w (t @ [CreateSandbox q]) = Inr s" and "no_leak w (t @ [CreateSandbox q]) cs"
    and "StopSession s \<in> set cs"
  shows "no_leak w t (CreateSandbox q # cs)"
  using assms by (auto simp: no_leak_def created_by_def taken_by_def)

lemma no_leak_nothing: "harmless w xs \<Longrightarrow> no_leak w t xs"
  by (auto simp: no_leak_def harmless_def count_list_0_iff)

lemma execute_repository_calls:
  assumes run: "execute_repository r i t = (res, t')"
  shows "\<exists>cs. t' = t @ cs \<and> no_leak (runner_world r) t cs"
proof (cases "runner_input_ok (runner_host r) i \<and> \<not> runner_aborted r t")
  case False
  then have "t' = t" using run by (auto simp: execute_repository_def split: if_splits)
  then show ?thesis using no_leak_nothing [OF harmless_quiet [of "[]"]] by auto
next
  case True
  let ?w = "runner_world r" and ?q = "provision_request r i"
  let ?t1 = "t @ [CreateSandbox ?q]"
  show ?thesis
  proof (cases "session_reply ?w ?t1")
    case (Inl e)
    then have "t' = ?t1" using run True by (simp add: execute_repository_def staged_def perform_def)
    moreover have "no_leak ?w t [CreateSandbox ?q]"
      using Inl by (simp add: no_leak_def created_by_def taken_by_def)
    ultimately show ?thesis by blast
  next
    case (Inr s)
    obtain prepared t2 where prep: "prepare_attempt r i s ?t1 = (prepared, t2)" by fastforce
    obtain ps where ps: "t2 = ?t1 @ ps" "harmless ?w ps"
      by (rule emitsE [OF quiet_prepare prep]) (rule that, assumption, erule harmless_quiet)
    let ?stopped = "runner_aborted r t2 \<and> \<not> runner_aborted r ?t1"
    obtain started t3 where early: "(if ?stopped then cleanup_prepared r i s None t2 else (None, t2)) = (started, t3)"
      by fastforce
    obtain xs where xs: "t3 = t2 @ xs" "harmless ?w xs" "started = None \<or> StopSession s \<in> set xs"
    proof (cases ?stopped)
      case True
      with early have "cleanup_prepared r i s None t2 = (started, t3)" by simp
      then show thesis by (rule cleanup_prepared_calls [where w = ?w]) (auto intro: that)
    next
      case False
      then show thesis using early harmless_quiet [of "[]" ?w] by (intro that [of "[]"]) auto
    qed
    have run': "(case prepared of Inl e \<Rightarrow> (Inl e, snd (cleanup_prepared r i s started t3))
        | Inr p \<Rightarrow> complete_attempt r i p s t3) = (res, t')"
      using run True Inr prep early
      by (simp add: execute_repository_def staged_def perform_def Let_def)
    show ?thesis
    proof (cases prepared)
      case (Inl e)
      obtain started' t4 where last: "cleanup_prepared r i s started t3 = (started', t4)" by fastforce
      obtain ys where ys: "t4 = t3 @ ys" "harmless ?w ys" "started = None \<Longrightarrow> StopSession s \<in> set ys"
        using last by (rule cleanup_prepared_calls [where w = ?w]) blast
      have "no_leak ?w t (CreateSandbox ?q # (ps @ xs @ ys))"
        using xs(3) ys(3) \<open>session_reply ?w ?t1 = Inr s\<close> ps(2) xs(2) ys(2)
        by (intro no_leak_created) (auto intro: harmless_append)
      then show ?thesis using run' Inl last ps(1) xs(1) ys(1) by auto
    next
      case (Inr p)
      with run' have rest: "complete_attempt r i p s t3 = (res, t')" by simp
      obtain cs where cs: "t' = t3 @ cs" "no_leak ?w t3 cs" "StopSession s \<in> set cs"
        using complete_attempt_calls [OF _ prep [unfolded Inr] rest] True by blast
      have "no_leak ?w ?t1 (ps @ xs @ cs)"
        using cs(2) ps xs by (intro no_leak_harmless) auto
      then have "no_leak ?w t (CreateSandbox ?q # (ps @ xs @ cs))"
        using cs(3) \<open>session_reply ?w ?t1 = Inr s\<close> by (intro no_leak_started) auto
      then show ?thesis using cs(1) ps(1) xs(1) by auto
    qed
  qed
qed


section \<open>Errors and results of an attempt\<close>

lemma runner_error_coded: "\<exists>code at_stage. runner_error r stage e t = ExecutionError code at_stage"
  by (cases e) (auto simp: runner_error_def)

lemma staged_Inl: "staged r stage m t = (Inl e, u) \<Longrightarrow> \<exists>code at_stage. e = ExecutionError code at_stage"
  using runner_error_coded by (fastforce simp: staged_def split: prod.splits sum.splits)

lemma bind_Inl_iff: "bind m f t = (Inl e, u) \<longleftrightarrow>
    m t = (Inl e, u) \<or> (\<exists>x v. m t = (Inr x, v) \<and> f x v = (Inl e, u))"
  by (auto simp: bind_def split: prod.splits sum.splits)

lemma prepare_error:
  "prepare_attempt r i s t = (Inl e, u) \<Longrightarrow> \<exists>code at_stage. e = ExecutionError code at_stage"
  unfolding prepare_attempt_def bind_Inl_iff case_prod_unfold
  by (elim disjE exE conjE) (auto simp: ret_def dest: staged_Inl)

lemma complete_error:
  "complete_attempt r i p s t = (Inl e, u) \<Longrightarrow> \<exists>code at_stage. e = ExecutionError code at_stage"
  unfolding complete_attempt_def bind_Inl_iff case_prod_unfold
  by (elim disjE exE conjE) (auto dest: staged_Inl)

lemma runner_errors_are_coded:
  assumes "execute_repository r i t = (Inl e, t')"
  shows "if runner_input_ok (runner_host r) i then \<exists>code stage. e = ExecutionError code stage
    else e = SchemaError \<and> t' = t"
  using assms
  by (auto simp: execute_repository_def split: if_splits prod.splits sum.splits
      dest: staged_Inl prepare_error complete_error)

text \<open>
  C3. However an attempt ends - with a proof, by an error of any stage, aborted or timed out -
  every sandbox that it created is stopped and every snapshot it took is deleted once.
\<close>

theorem runner_leaks_nothing:
  assumes "execute_repository r i t = (res, t')"
  shows "\<exists>cs. t' = t @ cs \<and>
    (\<forall>s \<in> set (created_sessions (runner_world r) t cs). StopSession s \<in> set cs) \<and>
    (\<forall>snap. count_list cs (DeleteSnapshot snap) = count_list (taken_snapshots (runner_world r) t cs) snap)"
  using execute_repository_calls [OF assms] by (auto simp: no_leak_def)

lemma complete_attempt_Inr:
  assumes "complete_attempt r i p s t = (Inr res, t')"
  obtains lifecycle u e where
    "execute_attempt (attempt_coordinator r i p (remaining_ms r i t)) {} (runner_attempt i) s
       (int (length (experiment_commands (attempt_plan p)))) t = (Inr lifecycle, u)"
    and "execution_result (lifecycle_values lifecycle) (attempt_environment p) = Inr e"
    and "assemble_repository_proof (runner_host r) (runner_ratio r) (runner_times r)
       (attempt_proof_input r i p (lifecycle_cleanup lifecycle) e u) = Inr res"
  using assms
  by (auto simp: complete_attempt_def bind_Inr_iff staged_Inr lift_result_def ret_def split: sum.splits)

lemma attempt_run_Inr:
  assumes "attempt_run r i p aborted index s t = (Inr b, t')"
  shows "index < length (experiment_commands (attempt_plan p))"
    and "\<exists>u u'. execute_run (runner_host r) (runner_world r) (runner_supervisor r) aborted True
      (experiment_commands (attempt_plan p) ! index) (attempt_environment p)
      (experiment_id index (experiment_commands (attempt_plan p) ! index)) (runner_secrets i) s u = (Inr b, u')"
  using assms by (auto simp: attempt_run_def Let_def split: if_splits)

text \<open>A run of the attempt's own experiment \<open>c\<close> that returned \<open>v\<close>.\<close>

definition experiment_returned ::
  "runner \<Rightarrow> runner_input \<Rightarrow> prepared_attempt \<Rightarrow> nat \<times> sandbox_command \<Rightarrow> bounded_run \<Rightarrow> bool" where
  "experiment_returned r i p ic v \<longleftrightarrow>
     (\<exists>aborted s u u'. execute_run (runner_host r) (runner_world r) (runner_supervisor r) aborted True
        (snd ic) (attempt_environment p) (experiment_id (fst ic) (snd ic)) (runner_secrets i) s u = (Inr v, u'))"

lemma attempt_values:
  assumes "execute_attempt (attempt_coordinator r i p m) {} attempt s
      (int (length (experiment_commands (attempt_plan p)))) t = (Inr lifecycle, u)"
  shows "list_all2 (experiment_returned r i p) (enumerate 0 (experiment_commands (attempt_plan p)))
    (lifecycle_values lifecycle)"
proof -
  let ?cs = "experiment_commands (attempt_plan p)"
  have all: "length (lifecycle_values lifecycle) = length ?cs"
      "runner_attempt.results_of r i p m [0..<length ?cs] (lifecycle_values lifecycle)"
    using runner_attempt.attempt_result [OF assms] by simp_all
  show ?thesis
  proof (rule list_all2_all_nthI)
    fix n
    assume "n < length (enumerate 0 ?cs)"
    then have n: "n < length ?cs" by simp
    then have "\<exists>s t t'. coord_run (attempt_coordinator r i p m) n s t = (Inr (lifecycle_values lifecycle ! n), t')"
      using all list_all2_nthD [OF all(2) [unfolded runner_attempt.results_of_def], of n] by simp
    then obtain s t t' where "attempt_run r i p (\<lambda>t. runner_aborted r t \<or> runner_elapsed r m t) n s t =
        (Inr (lifecycle_values lifecycle ! n), t')"
      by (auto simp: attempt_coordinator_def Let_def)
    from attempt_run_Inr(2) [OF this] n
    show "experiment_returned r i p (enumerate 0 ?cs ! n) (lifecycle_values lifecycle ! n)"
      by (auto simp: experiment_returned_def nth_enumerate_eq)
  qed (simp add: all)
qed


lemma runner_result:
  assumes "execute_repository r i t = (Inr res, t')"
  obtains p s t1 t2 u e and lifecycle :: "bounded_run lifecycle_result" where
    "prepare_attempt r i s t1 = (Inr p, t2)"
    and "list_all2 (experiment_returned r i p) (enumerate 0 (experiment_commands (attempt_plan p)))
       (lifecycle_values lifecycle)"
    and "execution_result (lifecycle_values lifecycle) (attempt_environment p) = Inr e"
    and "assemble_repository_proof (runner_host r) (runner_ratio r) (runner_times r)
       (attempt_proof_input r i p (lifecycle_cleanup lifecycle) e u) = Inr res"
proof -
  from assms obtain s t1 p t2 t3 where prep: "prepare_attempt r i s t1 = (Inr p, t2)"
    and rest: "complete_attempt r i p s t3 = (Inr res, t')"
    by (auto simp: execute_repository_def split: if_splits prod.splits sum.splits)
  from rest show thesis
  proof (rule complete_attempt_Inr)
    fix lifecycle u e
    assume "execute_attempt (attempt_coordinator r i p (remaining_ms r i t3)) {} (runner_attempt i) s
        (int (length (experiment_commands (attempt_plan p)))) t3 = (Inr lifecycle, u)"
      and e: "execution_result (lifecycle_values lifecycle) (attempt_environment p) = Inr e"
      and res: "assemble_repository_proof (runner_host r) (runner_ratio r) (runner_times r)
        (attempt_proof_input r i p (lifecycle_cleanup lifecycle) e u) = Inr res"
    from attempt_values [OF this(1)] show thesis using prep e res by (intro that)
  qed
qed


section \<open>The time that is left\<close>



section \<open>Concrete attempts\<close>

definition sample_request :: runner_input where
  "sample_request =
     \<lparr>runner_attempt = ''attempt-1'', runner_budget = \<lparr>max_tool_calls = 12, proof_required_runs = 3\<rparr>,
      runner_case = \<lparr>case_created_at = 10, case_history = [], case_id = ''case-1'', case_st = Draft,
        case_updated_at = 10\<rparr>,
      runner_issue = None, runner_oracle = cli_spaces_oracle,
      runner_principal = \<lparr>principal_caller = ''caller'', principal_id = ''user'', principal_tenant = ''tenant''\<rparr>,
      runner_profile = sample_profile, runner_secrets = [], runner_source = sample_source\<rparr>"

text \<open>A provider that creates and stops sandboxes but refuses to change the network.\<close>

definition unlockable_world :: world where
  "unlockable_world = steady_world
     \<lparr>unit_reply := (\<lambda>t. case last t of SetNetworkPolicy s n \<Rightarrow> Inl (Foreign []) | _ \<Rightarrow> Inr ())\<rparr>"

definition sample_runner :: "world \<Rightarrow> runner" where
  "sample_runner w =
     \<lparr>runner_host = plain_host, runner_ratio = one_ratio, runner_times = sample_times,
      runner_iso = (\<lambda>_. ''2026-01-01T00:00:00Z''), runner_world = w, runner_supervisor = [],
      runner_timeout_ms = 900000, runner_aborted = (\<lambda>_. False), runner_timed_out = (\<lambda>_. False),
      runner_elapsed = (\<lambda>_ _. True)\<rparr>"

lemma sample_request_ok: "runner_input_ok plain_host sample_request"
  using sample_profile_ok sample_source_ok no_secrets_ok(1) cli_spaces_oracle_ok
  by (simp add: runner_input_ok_def sample_request_def proof_budget_ok_def repro_case_ok_def
      valid_instant_def principal_ok_def len_in_def identifier_ok_def alnum_char_def lower_char_def
      digit_char_def code_unit_def)

lemma unlockable_run:
  "execute_repository (sample_runner unlockable_world) sample_request [] =
     (Inl (ExecutionError ExecFailed StageAcquisition),
      [CreateSandbox \<lparr>create_runtime = Node22, create_timeout_ms = 180000\<rparr>,
       SetNetworkPolicy 1 DenyAll, StopSession 1])"
proof -
  let ?r = "sample_runner unlockable_world"
  let ?t = "[CreateSandbox \<lparr>create_runtime = Node22, create_timeout_ms = 180000\<rparr>]"
  have world: "session_reply unlockable_world u = Inr (length u)"
      "unit_reply unlockable_world (u @ [SetNetworkPolicy s n]) = Inl (Foreign [])"
      "unit_reply unlockable_world (u @ [StopSession s]) = Inr ()" for u s n
    by (simp_all add: unlockable_world_def steady_world_def)
  have runner: "runner_host ?r = plain_host" "runner_world ?r = unlockable_world"
      "runner_aborted ?r = (\<lambda>_. False)" "runner_timeout_ms ?r = 900000"
    by (simp_all add: sample_runner_def)
  have request: "provision_request ?r sample_request = \<lparr>create_runtime = Node22, create_timeout_ms = 180000\<rparr>"
      "runner_source sample_request = sample_source"
    by (simp_all add: provision_request_def runner sample_request_def sample_profile_def)
  have "prepare_attempt ?r sample_request 1 ?t =
      (Inl (ExecutionError ExecFailed StageAcquisition), ?t @ [SetNetworkPolicy 1 DenyAll])"
    using sample_source_ok world(2) [of ?t 1 DenyAll]
    by (simp add: prepare_attempt_def bind_def staged_def runner request acquire_after_lockdown
        runner_error_def thrown_code_def)
  then show ?thesis
    using sample_request_ok world(1) [of ?t] world(3) [of "?t @ [SetNetworkPolicy 1 DenyAll]" 1]
    by (simp add: execute_repository_def runner request staged_def perform_def cleanup_prepared_def)
qed

theorem runner_leaks_nothing_witness:
  "\<exists>cs. snd (execute_repository (sample_runner unlockable_world) sample_request []) = cs \<and>
    set (created_sessions unlockable_world [] cs) = {1} \<and> StopSession 1 \<in> set cs"
proof -
  let ?cs = "[CreateSandbox \<lparr>create_runtime = Node22, create_timeout_ms = 180000\<rparr>,
      SetNetworkPolicy 1 DenyAll, StopSession 1]"
  have "created_sessions unlockable_world [] ?cs = [1]"
    by (simp add: created_by_def unlockable_world_def steady_world_def)
  moreover have "\<forall>s \<in> set (created_sessions (runner_world (sample_runner unlockable_world)) [] ?cs).
      StopSession s \<in> set ?cs"
    using runner_leaks_nothing [OF unlockable_run] by simp
  ultimately show ?thesis by (simp add: unlockable_run)
qed



text \<open>The guarantees of theory Lifecycle at the runner's coordinator.\<close>

definition sample_coordinator :: "bounded_run coordinator" where
  "sample_coordinator = attempt_coordinator ((sample_runner steady_world)\<lparr>runner_elapsed := (\<lambda>_ _. False)\<rparr>)
     sample_request
     \<lparr>attempt_acquired = \<lparr>acquired_manifest = sample_manifest sample_files,
        acquired_provenance = sample_provenance, acquired_workspace = source_workspace\<rparr>,
      attempt_metadata = sample_metadata, attempt_plan = sample_plan,
      attempt_environment = sample_environment\<rparr> 900000"

lemma sample_coordinator_runs: "experiment_runner sample_coordinator"
  unfolding sample_coordinator_def by (rule runner_attempt.experiment_runner_axioms)

lemma sample_attempt_ok: "attempt_input_ok ''attempt-1'' 4"
  by (simp add: attempt_input_ok_def identifier_ok_def len_in_def alnum_char_def lower_char_def
      digit_char_def code_unit_def)

theorem attempt_releases_every_resource_witness:
  "count_list (snd (execute_attempt sample_coordinator {} ''attempt-1'' 0 4 [])) (StopSession 0) = 1"
proof -
  obtain out u where "execute_attempt sample_coordinator {} ''attempt-1'' 0 4 [] = (out, u)" by fastforce
  with attempt_releases_every_resource [OF sample_coordinator_runs sample_attempt_ok _ this]
  show ?thesis by auto
qed

theorem attempt_returns_every_experiment_witness:
  "case fst (execute_attempt sample_coordinator {} ''attempt-1'' 0 4 []) of
     Inr res \<Rightarrow> length (lifecycle_values res) = 4
   | Inl e \<Rightarrow> \<exists>code k. e = LifecycleError code k"
proof -
  obtain out u where run: "execute_attempt sample_coordinator {} ''attempt-1'' 0 4 [] = (out, u)" by fastforce
  from attempt_returns_every_experiment [OF sample_coordinator_runs this] show ?thesis
    unfolding run using sample_attempt_ok by (cases out) (auto dest: list_all2_lengthD)
qed

end
