(* ===== verification/DurableRecords.thy ===== *)
theory DurableRecords
  imports RepositoryProof JobLifecycle
begin

text \<open>
  The data that the durable layer exchanges: the schemas of
  src/src/application/ports/production.ts, the result of a trusted sample
  (src/src/application/sample-case.ts), the reproduction snapshot
  (src/src/application/reproduction-contracts.ts), and the durable record with the checks
  of \<open>validateRecord\<close> (src/src/infrastructure/postgres/repositories.ts).

  A timestamp is the instant it denotes; a canonical timestamp is an instant in the range
  of a Date. A field whose schema is one literal is left out of the record.
\<close>

section \<open>Identifiers and messages\<close>

definition opaque_id :: "string \<Rightarrow> bool" where
  "opaque_id s \<longleftrightarrow> identifier_ok ''._:-'' s"

record tenant_scope =
  scope_caller :: string
  scope_principal :: string
  scope_tenant :: string

definition tenant_scope_ok :: "tenant_scope \<Rightarrow> bool" where
  "tenant_scope_ok s \<longleftrightarrow>
     opaque_id (scope_caller s) \<and> opaque_id (scope_principal s) \<and> opaque_id (scope_tenant s)"

datatype message_kind =
    ReproductionRequested | ReproductionCancelled | RecoveryRequested | DeletionRequested

record queue_message =
  msg_case_id :: string
  msg_event_id :: string
  msg_job_id :: string
  msg_kind :: message_kind
  msg_tenant :: string

definition queue_message_ok :: "queue_message \<Rightarrow> bool" where
  "queue_message_ok m \<longleftrightarrow>
     opaque_id (msg_case_id m) \<and> opaque_id (msg_event_id m) \<and> opaque_id (msg_job_id m) \<and>
     opaque_id (msg_tenant m)"

record job_lease =
  lease_acquired :: int
  lease_attempt :: int
  lease_expires :: int
  lease_job :: string
  lease_owner :: string
  lease_tenant :: string

definition job_lease_ok :: "job_lease \<Rightarrow> bool" where
  "job_lease_ok l \<longleftrightarrow>
     valid_instant (lease_acquired l) \<and> 0 < lease_attempt l \<and> lease_attempt l \<le> 100 \<and>
     valid_instant (lease_expires l) \<and> opaque_id (lease_job l) \<and> opaque_id (lease_owner l) \<and>
     opaque_id (lease_tenant l) \<and> lease_acquired l < lease_expires l"

datatype audit_outcome = AuditSuccess | AuditDenied | AuditFailure
datatype audit_target =
    TargetAccount | TargetArtifact | TargetCase | TargetInstallation | TargetJob | TargetRepository
datatype audit_value = AuditText string | AuditNumber int | AuditBool bool | AuditNull

record audit_event =
  audit_action :: string
  audit_actor :: string
  audit_event_id :: string
  audit_metadata :: "(string \<times> audit_value) list"
  audit_occurred_at :: int
  audit_outcome :: audit_outcome
  audit_target_id :: string
  audit_target_type :: audit_target
  audit_tenant :: string

definition lowercase :: "string \<Rightarrow> string" where
  "lowercase s = map (\<lambda>c. if upper_char c then char_of (code_unit c + 32) else c) s"

definition forbidden_audit_words :: "string list" where
  "forbidden_audit_words =
     [''authorization'', ''cookie'', ''credential'', ''password'', ''secret'', ''source'', ''token'',
      ''command'']"

definition forbidden_audit_key :: "string \<Rightarrow> bool" where
  "forbidden_audit_key key \<longleftrightarrow>
     list_ex (\<lambda>w. has_substring w (lowercase key)) forbidden_audit_words"

fun audit_value_ok :: "audit_value \<Rightarrow> bool" where
  "audit_value_ok (AuditText s) = (length s \<le> 512)"
| "audit_value_ok _ = True"

definition audit_action_ok :: "string \<Rightarrow> bool" where
  "audit_action_ok a \<longleftrightarrow>
     len_in 1 96 a \<and> lower_char (hd a) \<and>
     list_all (\<lambda>c. lower_char c \<or> digit_char c \<or> List.member ''.-'' c) a"

definition audit_event_ok :: "audit_event \<Rightarrow> bool" where
  "audit_event_ok e \<longleftrightarrow>
     audit_action_ok (audit_action e) \<and> opaque_id (audit_actor e) \<and> opaque_id (audit_event_id e) \<and>
     list_all (\<lambda>(key, v). len_in 1 64 key \<and> audit_value_ok v \<and> \<not> forbidden_audit_key key)
       (audit_metadata e) \<and>
     valid_instant (audit_occurred_at e) \<and> opaque_id (audit_target_id e) \<and> opaque_id (audit_tenant e)"

datatype quota_resource = ActiveJobs | ArtifactBytes | CpuMilliseconds | Exports

record quota_reservation =
  quota_amount :: int
  quota_case_id :: string
  quota_expires_at :: int
  quota_job_id :: string
  quota_id :: string
  quota_resource :: quota_resource
  quota_tenant :: string

definition quota_reservation_ok :: "quota_reservation \<Rightarrow> bool" where
  "quota_reservation_ok q \<longleftrightarrow>
     0 < quota_amount q \<and> safe_int (quota_amount q) \<and> opaque_id (quota_case_id q) \<and>
     valid_instant (quota_expires_at q) \<and> opaque_id (quota_job_id q) \<and> opaque_id (quota_id q) \<and>
     opaque_id (quota_tenant q)"

section \<open>The snapshot of a reproduction\<close>

record sample_budget =
  sample_tool_calls :: int
  sample_required_runs :: int

definition sample_budget_ok :: "sample_budget \<Rightarrow> bool" where
  "sample_budget_ok b \<longleftrightarrow>
     1 \<le> sample_tool_calls b \<and> sample_tool_calls b \<le> 20 \<and>
     1 \<le> sample_required_runs b \<and> sample_required_runs b \<le> 5"

record sample_result =
  sample_budget_used :: sample_budget
  sample_bundle :: repro_bundle
  sample_case :: repro_case
  sample_evidence :: "evidence_item list"
  sample_files :: "(string \<times> string) list"
  sample_hypotheses :: "hypothesis list"
  sample_minimization :: minimization_result
  sample_oracle :: failure_oracle
  sample_runs :: "run_result list"
  sample_summary :: verification_summary

definition sample_result_ok :: "js_host \<Rightarrow> time_host \<Rightarrow> sample_result \<Rightarrow> bool" where
  "sample_result_ok h T r \<longleftrightarrow>
     sample_budget_ok (sample_budget_used r) \<and>
     repro_bundle_ok h (datetime_text T) (sample_bundle r) \<and> repro_case_ok (sample_case r) \<and>
     list_all evidence_item_ok (sample_evidence r) \<and> list_all hypothesis_ok (sample_hypotheses r) \<and>
     minimization_result_ok (sample_minimization r) \<and> failure_oracle_ok h (sample_oracle r) \<and>
     list_all run_result_ok (sample_runs r) \<and> verification_summary_ok (sample_summary r)"

datatype case_result = SampleOutcome sample_result | RepositoryOutcome proof_result

fun case_result_ok :: "js_host \<Rightarrow> time_host \<Rightarrow> case_result \<Rightarrow> bool" where
  "case_result_ok h T (SampleOutcome r) = sample_result_ok h T r"
| "case_result_ok h T (RepositoryOutcome r) = proof_result_ok h T r"

record snapshot =
  snap_case :: repro_case
  snap_job :: reproduction_job
  snap_source :: "repository_source option"
  snap_result :: "case_result option"
  snap_sample :: bool

definition snapshot_ok :: "js_host \<Rightarrow> time_host \<Rightarrow> snapshot \<Rightarrow> bool" where
  "snapshot_ok h T s \<longleftrightarrow>
     repro_case_ok (snap_case s) \<and> reproduction_job_ok (snap_job s) \<and>
     pred_option repository_source_ok (snap_source s) \<and>
     pred_option (case_result_ok h T) (snap_result s) \<and>
     snap_sample s \<noteq> (snap_source s \<noteq> None) \<and>
     (case snap_result s of
        None \<Rightarrow> True
      | Some (RepositoryOutcome _) \<Rightarrow> snap_source s \<noteq> None
      | Some (SampleOutcome _) \<Rightarrow> snap_sample s)"

section \<open>The durable record\<close>

record durable_record =
  rec_caller :: string
  rec_case_id :: string
  rec_command_hash :: string
  rec_created_at :: int
  rec_idempotency_key :: string
  rec_job_id :: string
  rec_budget :: "sample_budget option"
  rec_request :: "execution_request option"
  rec_snapshot :: snapshot
  rec_tenant :: string
  rec_updated_at :: int
  rec_version :: int

datatype store_error =
    InvalidDurableRecord
  | CorruptDurableRecord
  | OptimisticConcurrency
  | LeaseOwnership
  | QuotaReservationInactive
  | ConstraintViolation
  | StoredSchema
  | StoredDateRange
  | CaseMove case_error
  | JobMove job_error
  | SerializationFailure

definition failure_code_ok :: "string \<Rightarrow> bool" where
  "failure_code_ok code \<longleftrightarrow>
     len_in 1 96 code \<and> upper_char (hd code) \<and>
     list_all (\<lambda>c. upper_char c \<or> digit_char c \<or> c = CHR ''_'') code"

text \<open>
  The credentials that a failure message may not contain: the four alternatives of the
  regular expression, tried at one position, letters compared without case.
\<close>

definition run_of_at_least :: "nat \<Rightarrow> (char \<Rightarrow> bool) \<Rightarrow> string \<Rightarrow> bool" where
  "run_of_at_least n P s \<longleftrightarrow> n \<le> length (takeWhile P s)"

definition github_token_at :: "string \<Rightarrow> bool" where
  "github_token_at s \<longleftrightarrow>
     starts_with ''gh'' (lowercase s) \<and> 4 \<le> length s \<and> List.member ''pousr'' (lowercase s ! 2) \<and>
     s ! 3 = CHR ''_'' \<and> run_of_at_least 16 alnum_char (drop 4 s)"

definition bearer_at :: "string \<Rightarrow> bool" where
  "bearer_at s \<longleftrightarrow>
     starts_with ''bearer'' (lowercase s) \<and> run_of_at_least 1 space_char (drop 6 s) \<and>
     run_of_at_least 8 (\<lambda>c. \<not> space_char c) (dropWhile space_char (drop 6 s))"

definition authority_at :: "string \<Rightarrow> bool" where
  "authority_at s \<longleftrightarrow>
     starts_with ''://'' s \<and>
     (let plain = (\<lambda>c. c \<noteq> CHR ''@'' \<and> \<not> space_char c); rest = drop 3 s in
        run_of_at_least 1 plain rest \<and> starts_with ''@'' (dropWhile plain rest))"

definition database_url_at :: "string \<Rightarrow> bool" where
  "database_url_at s \<longleftrightarrow>
     starts_with ''postgres'' (lowercase s) \<and>
     (authority_at (drop 8 s) \<or>
      starts_with ''ql'' (lowercase (drop 8 s)) \<and> authority_at (drop 10 s))"

definition credential_at :: "string \<Rightarrow> bool" where
  "credential_at s \<longleftrightarrow>
     starts_with ''sk-'' (lowercase s) \<and> run_of_at_least 16 token_char (drop 3 s) \<or>
     github_token_at s \<or> bearer_at s \<or> database_url_at s"

fun leaks_credential :: "string \<Rightarrow> bool" where
  "leaks_credential [] = False"
| "leaks_credential (c # s) = (credential_at (c # s) \<or> leaks_credential s)"

definition failure_sanitized :: "job_failure \<Rightarrow> bool" where
  "failure_sanitized f \<longleftrightarrow>
     failure_code_ok (failure_code f) \<and> length (failure_message f) \<le> 512 \<and>
     no_control_characters (failure_message f) \<and> \<not> leaks_credential (failure_message f)"

definition same_source :: "repository_source option \<Rightarrow> execution_request option \<Rightarrow> bool" where
  "same_source source request \<longleftrightarrow>
     (case (source, request) of
        (None, None) \<Rightarrow> True
      | (Some s, Some r) \<Rightarrow>
          source_commit (request_source r) = source_commit s \<and>
          source_repository_id (request_source r) = source_repository_id s
      | _ \<Rightarrow> False)"

definition durable_record_ok :: "js_host \<Rightarrow> time_host \<Rightarrow> bool \<Rightarrow> durable_record \<Rightarrow> bool" where
  "durable_record_ok h T initial r \<longleftrightarrow>
     (let s = rec_snapshot r in
        tenant_scope_ok \<lparr>scope_caller = rec_caller r, scope_principal = rec_caller r,
          scope_tenant = rec_tenant r\<rparr> \<and>
        snapshot_ok h T s \<and> pred_option (execution_request_ok h) (rec_request r) \<and>
        sha256_string (rec_command_hash r) \<and> len_in 1 128 (rec_idempotency_key r) \<and>
        rec_case_id r = case_id (snap_case s) \<and> rec_job_id r = job_id (snap_job s) \<and>
        rec_case_id r = job_case_id (snap_job s) \<and>
        same_source (snap_source s) (rec_request r) \<and>
        pred_option sample_budget_ok (rec_budget r) \<and>
        safe_int (rec_version r) \<and> 1 \<le> rec_version r \<and> (initial \<longrightarrow> rec_version r = 1) \<and>
        rec_created_at r \<le> rec_updated_at r \<and> date_range (rec_created_at r) \<and>
        date_range (rec_updated_at r) \<and> pred_option failure_sanitized (job_failure (snap_job s)))"

definition validate_record ::
  "js_host \<Rightarrow> time_host \<Rightarrow> bool \<Rightarrow> durable_record \<Rightarrow> store_error + durable_record" where
  "validate_record h T initial r = parse_as (durable_record_ok h T initial) InvalidDurableRecord r"

end
