(* ===== verification/Tables.thy ===== *)
theory Tables
  imports DurableRecords
begin

text \<open>
  The durable store: the rows of the tables that src/src/infrastructure/postgres works on,
  with the CHECK constraints, triggers and keys that its migrations declare, queries as
  operations from a store to a result and a new store, and the serializable transaction of
  src/src/infrastructure/postgres/database.ts.

  A jsonb column holds the value itself. Retention columns keep their defaults and are left
  out. \<open>CURRENT_TIMESTAMP\<close> is the field \<open>st_now\<close>.
\<close>

section \<open>Rows\<close>

datatype tenant_status = TenantActive | TenantSuspended | TenantDeleting | TenantDeleted
datatype artifact_kind = SourceArtifact | RunLogArtifact | RunOutputArtifact | BundleArtifact | BackupArtifact
datatype artifact_status =
    ArtifactPending | ArtifactAvailable | ArtifactDeleting | ArtifactDeleted | ArtifactFailed

record artifact_row =
  ar_tenant :: string
  ar_id :: string
  ar_case :: string
  ar_kind :: artifact_kind
  ar_sha256 :: string
  ar_bytes :: int
  ar_key :: string
  ar_created :: int
  ar_retention :: int
  ar_deleted :: "int option"
  ar_status :: artifact_status
  ar_etag :: "string option"
  ar_verified :: "int option"
  ar_failure :: "string option"
  ar_version :: int
  ar_updated :: int

record case_domain =
  dom_case :: repro_case
  dom_source :: "repository_source option"
  dom_result :: "case_result option"
  dom_sample :: bool

record source_descriptor =
  desc_budget :: "sample_budget option"
  desc_request :: "execution_request option"
  desc_sample :: bool

record case_row =
  cr_tenant :: string
  cr_id :: string
  cr_github :: bool
  cr_descriptor :: source_descriptor
  cr_state :: case_state
  cr_domain :: case_domain
  cr_version :: int
  cr_created :: int
  cr_updated :: int

record job_row =
  jr_tenant :: string
  jr_id :: string
  jr_case :: string
  jr_state :: job_state
  jr_phase :: case_state
  jr_attempt :: int
  jr_max :: int
  jr_next :: int
  jr_owner :: "string option"
  jr_acquired :: "int option"
  jr_expires :: "int option"
  jr_cancel_requested :: "int option"
  jr_cancelled :: "int option"
  jr_fail_code :: "string option"
  jr_fail_message :: "string option"
  jr_fail_retryable :: "bool option"
  jr_version :: int
  jr_created :: int
  jr_updated :: int

record idempotency_row =
  ir_tenant :: string
  ir_caller :: string
  ir_key :: string
  ir_command_hash :: string
  ir_case :: string
  ir_job :: string
  ir_created :: int

datatype outbox_status = OutPending | OutSending | OutDelivered | OutDead

record outbox_row =
  or_tenant :: string
  or_id :: string
  or_message :: queue_message
  or_status :: outbox_status
  or_deliveries :: int
  or_next :: int
  or_claim_owner :: "string option"
  or_claim_expires :: "int option"
  or_delivered :: "int option"
  or_provider :: "string option"
  or_error :: "string option"
  or_version :: int
  or_created :: int
  or_updated :: int

datatype quota_state = QuotaReserved | QuotaCommitted | QuotaReleased | QuotaExpired

record quota_row =
  qr_tenant :: string
  qr_id :: string
  qr_case :: string
  qr_job :: string
  qr_resource :: quota_resource
  qr_window_start :: int
  qr_window_end :: int
  qr_reserved :: int
  qr_actual :: int
  qr_state :: quota_state
  qr_expires :: int
  qr_created :: int
  qr_updated :: int

record store =
  st_now :: int
  st_tenants :: "(string \<times> tenant_status) list"
  st_artifacts :: "artifact_row list"
  st_cases :: "case_row list"
  st_jobs :: "job_row list"
  st_keys :: "idempotency_row list"
  st_outbox :: "outbox_row list"
  st_quota :: "quota_row list"
  st_audit :: "audit_event list"

section \<open>Constraints and triggers\<close>

definition successor_version :: "int \<Rightarrow> int \<Rightarrow> int \<Rightarrow> int \<Rightarrow> bool" where
  "successor_version old_version old_updated new_version new_updated \<longleftrightarrow>
     new_version = old_version + 1 \<and> old_updated \<le> new_updated"

definition case_row_ok :: "case_row \<Rightarrow> bool" where
  "case_row_ok c \<longleftrightarrow> opaque_id (cr_id c) \<and> 1 \<le> cr_version c \<and> cr_created c \<le> cr_updated c"

definition case_update_ok :: "case_row \<Rightarrow> case_row \<Rightarrow> bool" where
  "case_update_ok old new \<longleftrightarrow>
     successor_version (cr_version old) (cr_updated old) (cr_version new) (cr_updated new) \<and>
     case_row_ok new"

definition lease_complete :: "job_row \<Rightarrow> bool" where
  "lease_complete j \<longleftrightarrow>
     (case (jr_owner j, jr_acquired j, jr_expires j) of
        (None, None, None) \<Rightarrow> True
      | (Some _, Some acquired, Some expires) \<Rightarrow> acquired < expires
      | _ \<Rightarrow> False)"

definition failure_shape :: "job_row \<Rightarrow> bool" where
  "failure_shape j \<longleftrightarrow>
     (if jr_state j = Failed
      then jr_fail_code j \<noteq> None \<and> jr_fail_message j \<noteq> None \<and> jr_fail_retryable j \<noteq> None
      else jr_fail_code j = None \<and> jr_fail_message j = None \<and> jr_fail_retryable j = None)"

definition cancellation_shape :: "job_row \<Rightarrow> bool" where
  "cancellation_shape j \<longleftrightarrow>
     (if jr_state j = JobCancelled then (jr_cancel_requested j = None) = (jr_cancelled j = None)
      else jr_cancelled j = None \<and> (jr_cancel_requested j = None \<or> jr_state j = Running))"

definition job_row_ok :: "job_row \<Rightarrow> bool" where
  "job_row_ok j \<longleftrightarrow>
     opaque_id (jr_id j) \<and>
     0 \<le> jr_attempt j \<and> 0 < jr_max j \<and> jr_attempt j \<le> jr_max j \<and> lease_complete j \<and>
     failure_shape j \<and> cancellation_shape j \<and> 1 \<le> jr_version j \<and> jr_created j \<le> jr_updated j \<and>
     pred_option (\<lambda>t. jr_created j \<le> t) (jr_cancel_requested j) \<and>
     pred_option (\<lambda>t. jr_created j \<le> t) (jr_cancelled j) \<and>
     pred_option failure_code_ok (jr_fail_code j) \<and> pred_option (len_in 1 512) (jr_fail_message j)"

text \<open>The triggers of migrations 0002, 0004 and 0005 on an update of a job.\<close>

fun job_state_moves :: "job_state \<Rightarrow> job_state list" where
  "job_state_moves Queued = [Running, JobCancelled]"
| "job_state_moves Running = [Queued, Succeeded, Failed, JobCancelled]"
| "job_state_moves _ = []"

definition job_transition_ok :: "job_row \<Rightarrow> job_row \<Rightarrow> bool" where
  "job_transition_ok old new \<longleftrightarrow>
     jr_state new = jr_state old \<or>
     \<not> (jr_state new = JobCancelled \<and> (jr_cancel_requested new = None \<or> jr_cancelled new = None)) \<and>
     List.member (job_state_moves (jr_state old)) (jr_state new)"

definition job_update_ok :: "job_row \<Rightarrow> job_row \<Rightarrow> bool" where
  "job_update_ok old new \<longleftrightarrow>
     successor_version (jr_version old) (jr_updated old) (jr_version new) (jr_updated new) \<and>
     job_transition_ok old new \<and> job_row_ok new"

definition outbox_row_ok :: "outbox_row \<Rightarrow> bool" where
  "outbox_row_ok e \<longleftrightarrow>
     opaque_id (or_id e) \<and> msg_event_id (or_message e) = or_id e \<and>
     msg_tenant (or_message e) = or_tenant e \<and> 0 \<le> or_deliveries e \<and>
     pred_option opaque_id (or_claim_owner e) \<and> pred_option (len_in 1 512) (or_provider e) \<and>
     pred_option (len_in 1 96) (or_error e) \<and> 1 \<le> or_version e \<and> or_created e \<le> or_updated e \<and>
     (case or_status e of
        OutPending \<Rightarrow> or_delivered e = None \<and> or_claim_owner e = None \<and>
          or_claim_expires e = None \<and> or_provider e = None
      | OutSending \<Rightarrow> or_delivered e = None \<and> or_claim_owner e \<noteq> None \<and>
          (case or_claim_expires e of None \<Rightarrow> False | Some t \<Rightarrow> or_updated e < t) \<and>
          or_provider e = None
      | OutDelivered \<Rightarrow> or_delivered e \<noteq> None \<and> or_claim_owner e = None \<and> or_claim_expires e = None
      | OutDead \<Rightarrow> or_delivered e = None \<and> or_claim_owner e = None \<and>
          or_claim_expires e = None \<and> or_provider e = None \<and> or_error e \<noteq> None)"

definition outbox_update_ok :: "outbox_row \<Rightarrow> outbox_row \<Rightarrow> bool" where
  "outbox_update_ok old new \<longleftrightarrow>
     successor_version (or_version old) (or_updated old) (or_version new) (or_updated new) \<and>
     outbox_row_ok new"

definition quota_row_ok :: "quota_row \<Rightarrow> bool" where
  "quota_row_ok q \<longleftrightarrow>
     opaque_id (qr_id q) \<and> qr_window_start q < qr_window_end q \<and> 0 < qr_reserved q \<and>
     0 \<le> qr_actual q \<and> qr_actual q \<le> qr_reserved q \<and> qr_created q < qr_expires q \<and>
     qr_created q \<le> qr_updated q"

fun artifact_kind_text :: "artifact_kind \<Rightarrow> string" where
  "artifact_kind_text SourceArtifact = ''source''"
| "artifact_kind_text RunLogArtifact = ''run-log''"
| "artifact_kind_text RunOutputArtifact = ''run-output''"
| "artifact_kind_text BundleArtifact = ''bundle''"
| "artifact_kind_text BackupArtifact = ''backup-manifest''"

definition object_key_for :: "string \<Rightarrow> string \<Rightarrow> artifact_kind \<Rightarrow> string \<Rightarrow> string" where
  "object_key_for tenant cid kind sha =
     join ''/'' [''tenants'', tenant, ''cases'', cid, artifact_kind_text kind, sha]"

text \<open>The CHECK constraints of an artifact; those of migration 0003 tie the columns to the status.\<close>

definition artifact_shape :: "artifact_row \<Rightarrow> bool" where
  "artifact_shape a \<longleftrightarrow>
     (case ar_status a of
        ArtifactPending \<Rightarrow> ar_etag a = None \<and> ar_verified a = None \<and> ar_failure a = None \<and> ar_deleted a = None
      | ArtifactAvailable \<Rightarrow> ar_etag a \<noteq> None \<and> ar_verified a \<noteq> None \<and> ar_failure a = None \<and> ar_deleted a = None
      | ArtifactDeleting \<Rightarrow> ar_etag a \<noteq> None \<and> ar_verified a \<noteq> None \<and> ar_failure a = None \<and> ar_deleted a = None
      | ArtifactDeleted \<Rightarrow> ar_etag a \<noteq> None \<and> ar_verified a \<noteq> None \<and> ar_failure a = None \<and> ar_deleted a \<noteq> None
      | ArtifactFailed \<Rightarrow> ar_etag a = None \<and> ar_verified a = None \<and> ar_failure a \<noteq> None \<and> ar_deleted a = None)"

definition artifact_row_ok :: "artifact_row \<Rightarrow> bool" where
  "artifact_row_ok a \<longleftrightarrow>
     opaque_id (ar_id a) \<and> sha256_string (ar_sha256 a) \<and> 0 \<le> ar_bytes a \<and>
     ar_key a = object_key_for (ar_tenant a) (ar_case a) (ar_kind a) (ar_sha256 a) \<and>
     ar_created a < ar_retention a \<and> pred_option (\<lambda>t. ar_created a \<le> t) (ar_deleted a) \<and>
     pred_option (len_in 1 512) (ar_etag a) \<and> pred_option (len_in 1 96) (ar_failure a) \<and>
     1 \<le> ar_version a \<and> ar_created a \<le> ar_updated a \<and> artifact_shape a"

definition artifact_update_ok :: "artifact_row \<Rightarrow> artifact_row \<Rightarrow> bool" where
  "artifact_update_ok old new \<longleftrightarrow>
     successor_version (ar_version old) (ar_updated old) (ar_version new) (ar_updated new) \<and>
     artifact_row_ok new"

section \<open>Queries\<close>

type_synonym 'a query = "store \<Rightarrow> store_error + 'a \<times> store"

definition return_q :: "'a \<Rightarrow> 'a query" where
  "return_q x db = Inr (x, db)"

definition throw_q :: "store_error \<Rightarrow> 'a query" where
  "throw_q e db = Inl e"

definition then_q :: "'a query \<Rightarrow> ('a \<Rightarrow> 'b query) \<Rightarrow> 'b query" where
  "then_q m f db = and_then (m db) (\<lambda>(x, db'). f x db')"

definition lift_q :: "store_error + 'a \<Rightarrow> 'a query" where
  "lift_q r db = and_then r (\<lambda>x. Inr (x, db))"

definition read_q :: "(store \<Rightarrow> 'a) \<Rightarrow> 'a query" where
  "read_q f db = Inr (f db, db)"

text \<open>\<open>UPDATE ... WHERE ... RETURNING\<close>: a row that breaks a constraint stops the statement.\<close>

definition update_where ::
  "('r \<Rightarrow> bool) \<Rightarrow> ('r \<Rightarrow> 'r) \<Rightarrow> ('r \<Rightarrow> 'r \<Rightarrow> bool) \<Rightarrow> 'r list \<Rightarrow> store_error + 'r list \<times> 'r list" where
  "update_where sel upd legal rows =
     (if list_ex (\<lambda>r. sel r \<and> \<not> legal r (upd r)) rows then Inl ConstraintViolation
      else Inr (map upd (filter sel rows), map (\<lambda>r. if sel r then upd r else r) rows))"

definition update_jobs :: "(job_row \<Rightarrow> bool) \<Rightarrow> (job_row \<Rightarrow> job_row) \<Rightarrow> job_row list query" where
  "update_jobs sel upd db =
     and_then (update_where sel upd job_update_ok (st_jobs db))
       (\<lambda>(rows, jobs). Inr (rows, db\<lparr>st_jobs := jobs\<rparr>))"

definition update_cases :: "(case_row \<Rightarrow> bool) \<Rightarrow> (case_row \<Rightarrow> case_row) \<Rightarrow> case_row list query" where
  "update_cases sel upd db =
     and_then (update_where sel upd case_update_ok (st_cases db))
       (\<lambda>(rows, cases). Inr (rows, db\<lparr>st_cases := cases\<rparr>))"

definition update_outbox :: "(outbox_row \<Rightarrow> bool) \<Rightarrow> (outbox_row \<Rightarrow> outbox_row) \<Rightarrow> outbox_row list query" where
  "update_outbox sel upd db =
     and_then (update_where sel upd outbox_update_ok (st_outbox db))
       (\<lambda>(rows, events). Inr (rows, db\<lparr>st_outbox := events\<rparr>))"

definition update_quota :: "(quota_row \<Rightarrow> bool) \<Rightarrow> (quota_row \<Rightarrow> quota_row) \<Rightarrow> quota_row list query" where
  "update_quota sel upd db =
     and_then (update_where sel upd (\<lambda>_ new. quota_row_ok new) (st_quota db))
       (\<lambda>(rows, ledger). Inr (rows, db\<lparr>st_quota := ledger\<rparr>))"

definition update_artifacts ::
  "(artifact_row \<Rightarrow> bool) \<Rightarrow> (artifact_row \<Rightarrow> artifact_row) \<Rightarrow> artifact_row list query" where
  "update_artifacts sel upd db =
     and_then (update_where sel upd artifact_update_ok (st_artifacts db))
       (\<lambda>(rows, artifacts). Inr (rows, db\<lparr>st_artifacts := artifacts\<rparr>))"

section \<open>Keys\<close>

definition case_key :: "case_row \<Rightarrow> string \<times> string" where
  "case_key c = (cr_tenant c, cr_id c)"

definition job_key :: "job_row \<Rightarrow> string \<times> string" where
  "job_key j = (jr_tenant j, jr_id j)"

definition job_case_key :: "job_row \<Rightarrow> string \<times> string" where
  "job_case_key j = (jr_tenant j, jr_case j)"

definition idempotency_key :: "idempotency_row \<Rightarrow> string \<times> string \<times> string" where
  "idempotency_key i = (ir_tenant i, ir_caller i, ir_key i)"

definition outbox_key :: "outbox_row \<Rightarrow> string \<times> string" where
  "outbox_key e = (or_tenant e, or_id e)"

definition quota_key :: "quota_row \<Rightarrow> string \<times> string" where
  "quota_key q = (qr_tenant q, qr_id q)"

definition audit_key :: "audit_event \<Rightarrow> string \<times> string" where
  "audit_key e = (audit_tenant e, audit_event_id e)"

definition artifact_key :: "artifact_row \<Rightarrow> string \<times> string" where
  "artifact_key a = (ar_tenant a, ar_id a)"

definition artifact_content :: "artifact_row \<Rightarrow> string \<times> string \<times> artifact_kind \<times> string" where
  "artifact_content a = (ar_tenant a, ar_case a, ar_kind a, ar_sha256 a)"

definition has_job :: "store \<Rightarrow> string \<Rightarrow> string \<Rightarrow> string \<Rightarrow> bool" where
  "has_job db tenant cid jid \<longleftrightarrow>
     list_ex (\<lambda>j. jr_tenant j = tenant \<and> jr_case j = cid \<and> jr_id j = jid) (st_jobs db)"

section \<open>Inserts\<close>

text \<open>
  \<open>INSERT\<close>: the primary key is new, the foreign keys exist and the row satisfies its
  constraints. New rows go to the front.
\<close>

definition insert_case :: "case_row \<Rightarrow> unit query" where
  "insert_case c db =
     (if List.member (map case_key (st_cases db)) (case_key c) \<or>
         map_of (st_tenants db) (cr_tenant c) = None \<or> \<not> case_row_ok c
      then Inl ConstraintViolation else Inr ((), db\<lparr>st_cases := c # st_cases db\<rparr>))"

definition job_insert_ok :: "job_row \<Rightarrow> bool" where
  "job_insert_ok j \<longleftrightarrow>
     job_row_ok j \<and>
     \<not> (jr_state j = JobCancelled \<and> (jr_cancel_requested j = None \<or> jr_cancelled j = None))"

definition insert_job :: "job_row \<Rightarrow> unit query" where
  "insert_job j db =
     (if List.member (map job_key (st_jobs db)) (job_key j) \<or>
         \<not> List.member (map case_key (st_cases db)) (job_case_key j) \<or> \<not> job_insert_ok j
      then Inl ConstraintViolation else Inr ((), db\<lparr>st_jobs := j # st_jobs db\<rparr>))"

definition idempotency_row_ok :: "idempotency_row \<Rightarrow> bool" where
  "idempotency_row_ok i \<longleftrightarrow>
     opaque_id (ir_caller i) \<and> len_in 1 128 (ir_key i) \<and> sha256_string (ir_command_hash i)"

definition insert_key :: "idempotency_row \<Rightarrow> unit query" where
  "insert_key i db =
     (if List.member (map idempotency_key (st_keys db)) (idempotency_key i) \<or>
         \<not> has_job db (ir_tenant i) (ir_case i) (ir_job i) \<or> \<not> idempotency_row_ok i
      then Inl ConstraintViolation else Inr ((), db\<lparr>st_keys := i # st_keys db\<rparr>))"

text \<open>\<open>ON CONFLICT DO NOTHING\<close> is the flag \<open>skip\<close>; the result tells whether a row was inserted.\<close>

definition insert_outbox :: "bool \<Rightarrow> outbox_row \<Rightarrow> bool query" where
  "insert_outbox skip e db =
     (if \<not> outbox_row_ok e \<or> \<not> has_job db (or_tenant e) (msg_case_id (or_message e)) (msg_job_id (or_message e))
      then Inl ConstraintViolation
      else if List.member (map outbox_key (st_outbox db)) (outbox_key e)
      then (if skip then Inr (False, db) else Inl ConstraintViolation)
      else Inr (True, db\<lparr>st_outbox := e # st_outbox db\<rparr>))"

definition insert_quota :: "quota_row \<Rightarrow> bool query" where
  "insert_quota q db =
     (if \<not> quota_row_ok q then Inl ConstraintViolation
      else if List.member (map quota_key (st_quota db)) (quota_key q) then Inr (False, db)
      else Inr (True, db\<lparr>st_quota := q # st_quota db\<rparr>))"

definition insert_audit :: "audit_event \<Rightarrow> unit query" where
  "insert_audit e db =
     (if List.member (map audit_key (st_audit db)) (audit_key e) \<or>
         map_of (st_tenants db) (audit_tenant e) = None
      then Inl ConstraintViolation else Inr ((), db\<lparr>st_audit := e # st_audit db\<rparr>))"

text \<open>\<open>ON CONFLICT\<close> on the content identity inserts nothing and returns no row.\<close>

definition insert_artifact :: "artifact_row \<Rightarrow> artifact_row list query" where
  "insert_artifact a db =
     (if \<not> artifact_row_ok a \<or> \<not> List.member (map case_key (st_cases db)) (ar_tenant a, ar_case a)
      then Inl ConstraintViolation
      else if List.member (map artifact_content (st_artifacts db)) (artifact_content a)
      then Inr ([], db)
      else if List.member (map artifact_key (st_artifacts db)) (artifact_key a) \<or>
         List.member (map ar_key (st_artifacts db)) (ar_key a)
      then Inl ConstraintViolation
      else Inr ([a], db\<lparr>st_artifacts := a # st_artifacts db\<rparr>))"

section \<open>Transactions\<close>

text \<open>
  \<open>runSerializableTransaction\<close>: attempt \<open>k\<close> works on \<open>worlds k\<close>, the store that other
  transactions left; \<open>aborted k\<close> says that the database rejects its commit with a
  serialization failure or a deadlock. Any other error, and the last attempt's, is thrown.
  A transaction that throws leaves the store as it was.
\<close>

fun serializable_from ::
  "nat \<Rightarrow> nat \<Rightarrow> (nat \<Rightarrow> bool) \<Rightarrow> (nat \<Rightarrow> store) \<Rightarrow> 'a query \<Rightarrow> (store_error + 'a) \<times> store" where
  "serializable_from 0 attempt aborted worlds m = (Inl SerializationFailure, worlds attempt)"
| "serializable_from (Suc left) attempt aborted worlds m =
     (case (if aborted attempt then Inl SerializationFailure else m (worlds attempt)) of
        Inr (x, db) \<Rightarrow> (Inr x, db)
      | Inl e \<Rightarrow>
          if left = 0 \<or> e \<noteq> SerializationFailure then (Inl e, worlds attempt)
          else serializable_from left (Suc attempt) aborted worlds m)"

definition run_serializable ::
  "(nat \<Rightarrow> bool) \<Rightarrow> (nat \<Rightarrow> store) \<Rightarrow> 'a query \<Rightarrow> (store_error + 'a) \<times> store" where
  "run_serializable aborted worlds m = serializable_from 3 0 aborted worlds m"

text \<open>The transaction on a store that nobody else writes.\<close>

definition transact :: "'a query \<Rightarrow> store \<Rightarrow> (store_error + 'a) \<times> store" where
  "transact m db = run_serializable (\<lambda>_. False) (\<lambda>_. db) m"

end
