(* ===== verification/JobStore.thy ===== *)
theory JobStore
  imports Tables
begin

text \<open>
  \<open>PostgresDurableReproductionRepository\<close> of src/src/infrastructure/postgres/repositories.ts
  with the audit sink: reservation, leases, recovery of expired leases and cancellation, each
  as the query its transaction runs. \<open>h\<close> and \<open>T\<close> are the host of the schemas.
\<close>

section \<open>Reading\<close>

definition stored_integer :: "int \<Rightarrow> store_error + int" where
  "stored_integer i = parse_as safe_int CorruptDurableRecord i"

text \<open>\<open>integer(rows[0]?.version ?? 0)\<close>\<close>

definition first_version :: "('r \<Rightarrow> int) \<Rightarrow> 'r list \<Rightarrow> store_error + int" where
  "first_version version rows = stored_integer (case rows of [] \<Rightarrow> 0 | r # _ \<Rightarrow> version r)"

definition stored_failure :: "job_row \<Rightarrow> store_error + job_failure option" where
  "stored_failure j =
     (case (jr_fail_code j, jr_fail_message j, jr_fail_retryable j) of
        (None, None, None) \<Rightarrow> Inr None
      | (Some c, Some m, Some r) \<Rightarrow>
          Inr (Some \<lparr>failure_code = c, failure_message = m, failure_retryable = r\<rparr>)
      | _ \<Rightarrow> Inl CorruptDurableRecord)"

text \<open>\<open>timestamp\<close>: \<open>toISOString\<close> of a stored instant, in the range of a Date.\<close>

definition stored_timestamp :: "int \<Rightarrow> store_error + int" where
  "stored_timestamp t = parse_as date_range CorruptDurableRecord t"

type_synonym durable_row = "idempotency_row \<times> case_row \<times> job_row"

definition row_job :: "job_row \<Rightarrow> store_error + reproduction_job" where
  "row_job j =
     and_then (stored_failure j) (\<lambda>failure.
     and_then (stored_integer (jr_attempt j)) (\<lambda>attempt.
     and_then (stored_timestamp (jr_created j)) (\<lambda>created.
     and_then (stored_timestamp (jr_updated j)) (\<lambda>updated.
       Inr \<lparr>job_attempt = attempt, job_case_id = jr_case j, job_created_at = created,
         job_failure = failure, job_id = jr_id j, job_phase = jr_phase j, job_st = jr_state j,
         job_updated_at = updated\<rparr>))))"

definition row_record :: "case_row \<times> idempotency_row \<Rightarrow> snapshot \<Rightarrow> int \<Rightarrow> durable_record" where
  "row_record ci s version =
     (case ci of (c, i) \<Rightarrow>
       \<lparr>rec_caller = ir_caller i, rec_case_id = cr_id c, rec_command_hash = ir_command_hash i,
        rec_created_at = cr_created c, rec_idempotency_key = ir_key i, rec_job_id = ir_job i,
        rec_budget = desc_budget (cr_descriptor c), rec_request = desc_request (cr_descriptor c),
        rec_snapshot = s, rec_tenant = ir_tenant i, rec_updated_at = cr_updated c,
        rec_version = version\<rparr>)"

definition row_to_record :: "js_host \<Rightarrow> time_host \<Rightarrow> durable_row \<Rightarrow> store_error + durable_record" where
  "row_to_record h T row =
     (case row of (i, c, j) \<Rightarrow>
        and_then (stored_integer (cr_version c)) (\<lambda>version.
        and_then (stored_integer (jr_version j)) (\<lambda>job_version.
          if version \<noteq> job_version then Inl CorruptDurableRecord
          else
            and_then (row_job j) (\<lambda>job.
            let s = \<lparr>snap_case = dom_case (cr_domain c), snap_job = job,
              snap_source = dom_source (cr_domain c), snap_result = dom_result (cr_domain c),
              snap_sample = dom_sample (cr_domain c)\<rparr> in
            if \<not> pred_option (execution_request_ok h) (desc_request (cr_descriptor c)) \<or>
               \<not> snapshot_ok h T s \<or> case_st (snap_case s) \<noteq> cr_state c
            then Inl CorruptDurableRecord
            else parse_as (durable_record_ok h T False) CorruptDurableRecord
              (row_record (c, i) s version)))))"

text \<open>\<open>DURABLE_SELECT\<close> with a condition and \<open>LIMIT 1\<close>.\<close>

definition durable_rows :: "(durable_row \<Rightarrow> bool) \<Rightarrow> store \<Rightarrow> durable_row list" where
  "durable_rows cond db =
     [(i, c, j). i \<leftarrow> st_keys db, c \<leftarrow> st_cases db, j \<leftarrow> st_jobs db,
       cr_tenant c = ir_tenant i \<and> cr_id c = ir_case i \<and>
       jr_tenant j = ir_tenant i \<and> jr_case j = ir_case i \<and> jr_id j = ir_job i \<and>
       cond (i, c, j)]"

definition find_durable ::
  "js_host \<Rightarrow> time_host \<Rightarrow> (durable_row \<Rightarrow> bool) \<Rightarrow> durable_record option query" where
  "find_durable h T cond db =
     (case durable_rows cond db of
        [] \<Rightarrow> Inr (None, db)
      | row # _ \<Rightarrow> and_then (row_to_record h T row) (\<lambda>r. Inr (Some r, db)))"

definition scope_of :: "tenant_scope \<Rightarrow> durable_row \<Rightarrow> bool" where
  "scope_of s row \<longleftrightarrow>
     (case row of (i, c, j) \<Rightarrow> ir_tenant i = scope_tenant s \<and> ir_caller i = scope_caller s)"

definition find_by_case_id ::
  "js_host \<Rightarrow> time_host \<Rightarrow> tenant_scope \<Rightarrow> string \<Rightarrow> durable_record option query" where
  "find_by_case_id h T scope cid =
     then_q (lift_q (parse_as tenant_scope_ok StoredSchema scope)) (\<lambda>s.
       find_durable h T (\<lambda>(i, c, j). scope_of s (i, c, j) \<and> cr_id c = cid))"

definition find_by_idempotency_key ::
  "js_host \<Rightarrow> time_host \<Rightarrow> tenant_scope \<Rightarrow> string \<Rightarrow> durable_record option query" where
  "find_by_idempotency_key h T scope key =
     then_q (lift_q (parse_as tenant_scope_ok StoredSchema scope)) (\<lambda>s.
       find_durable h T (\<lambda>(i, c, j). scope_of s (i, c, j) \<and> ir_key i = key))"

definition find_by_job_id ::
  "js_host \<Rightarrow> time_host \<Rightarrow> tenant_scope \<Rightarrow> string \<Rightarrow> durable_record option query" where
  "find_by_job_id h T scope jid =
     then_q (lift_q (parse_as tenant_scope_ok StoredSchema scope)) (\<lambda>s.
       find_durable h T (\<lambda>(i, c, j). scope_of s (i, c, j) \<and> jr_id j = jid))"

text \<open>The row condition that every use of a lease repeats.\<close>

definition holds_lease :: "job_lease \<Rightarrow> job_row \<Rightarrow> bool" where
  "holds_lease l j \<longleftrightarrow>
     jr_tenant j = lease_tenant l \<and> jr_id j = lease_job l \<and> jr_owner j = Some (lease_owner l) \<and>
     jr_attempt j = lease_attempt l \<and> jr_acquired j = Some (lease_acquired l) \<and>
     jr_expires j = Some (lease_expires l) \<and> jr_state j = Running"

definition find_by_lease ::
  "js_host \<Rightarrow> time_host \<Rightarrow> job_lease \<Rightarrow> durable_record option query" where
  "find_by_lease h T lease =
     then_q (lift_q (parse_as job_lease_ok StoredSchema lease)) (\<lambda>l.
       find_durable h T (\<lambda>(i, c, j). holds_lease l j))"

definition is_cancellation_requested :: "job_lease \<Rightarrow> bool query" where
  "is_cancellation_requested lease =
     then_q (lift_q (parse_as job_lease_ok StoredSchema lease)) (\<lambda>l.
       read_q (\<lambda>db. case filter (holds_lease l) (st_jobs db) of
         [] \<Rightarrow> False | j # _ \<Rightarrow> jr_cancel_requested j \<noteq> None))"

section \<open>The parts of the write operations\<close>

definition advance_case :: "string \<Rightarrow> string \<Rightarrow> int \<Rightarrow> int \<Rightarrow> unit query" where
  "advance_case tenant cid expected at_ms =
     then_q (update_cases
         (\<lambda>c. cr_tenant c = tenant \<and> cr_id c = cid \<and> cr_version c = expected)
         (\<lambda>c. c\<lparr>cr_version := cr_version c + 1, cr_updated := at_ms\<rparr>)) (\<lambda>rows.
     then_q (lift_q (first_version cr_version rows)) (\<lambda>v.
       if v \<noteq> expected + 1 then throw_q OptimisticConcurrency else return_q ()))"

definition release_active_job_quota :: "string \<Rightarrow> string \<Rightarrow> int \<Rightarrow> nat query" where
  "release_active_job_quota tenant jid at_ms =
     then_q (update_quota
         (\<lambda>q. qr_tenant q = tenant \<and> qr_job q = jid \<and> qr_resource q = ActiveJobs \<and>
           qr_state q = QuotaReserved)
         (\<lambda>q. q\<lparr>qr_state := QuotaReleased, qr_updated := at_ms\<rparr>))
       (\<lambda>rows. return_q (length rows))"

definition record_domain :: "durable_record \<Rightarrow> case_domain" where
  "record_domain r =
     (let s = rec_snapshot r in
        \<lparr>dom_case = snap_case s, dom_source = snap_source s, dom_result = snap_result s,
         dom_sample = snap_sample s\<rparr>)"

definition record_descriptor :: "durable_record \<Rightarrow> source_descriptor" where
  "record_descriptor r =
     \<lparr>desc_budget = rec_budget r, desc_request = rec_request r,
      desc_sample = (rec_request r = None \<and> snap_sample (rec_snapshot r))\<rparr>"

text \<open>
  The update of the case that \<open>completeLease\<close>, \<open>save\<close> and the cancellations share: state,
  domain and time, at the expected version.
\<close>

definition save_case :: "string \<Rightarrow> string \<Rightarrow> int \<Rightarrow> case_state \<Rightarrow> case_domain \<Rightarrow> int \<Rightarrow> unit query" where
  "save_case tenant cid expected state domain at_ms =
     then_q (update_cases
         (\<lambda>c. cr_tenant c = tenant \<and> cr_id c = cid \<and> cr_version c = expected)
         (\<lambda>c. c\<lparr>cr_state := state, cr_domain := domain, cr_updated := at_ms,
           cr_version := cr_version c + 1\<rparr>)) (\<lambda>rows.
     then_q (lift_q (first_version cr_version rows)) (\<lambda>v.
       if v \<noteq> expected + 1 then throw_q OptimisticConcurrency else return_q ()))"

definition clear_lease :: "job_row \<Rightarrow> job_row" where
  "clear_lease j = j\<lparr>jr_owner := None, jr_acquired := None, jr_expires := None\<rparr>"

definition cancel_snapshot :: "durable_record \<Rightarrow> int \<Rightarrow> store_error + durable_record" where
  "cancel_snapshot r at_ms =
     and_then (case transition_case (snap_case (rec_snapshot r)) Cancelled ''Cancellation requested'' at_ms of
         Inl e \<Rightarrow> Inl (CaseMove e) | Inr c \<Rightarrow> Inr c) (\<lambda>c.
     and_then (case transition_job (snap_job (rec_snapshot r)) JobCancelled at_ms None Cancelled of
         Inl e \<Rightarrow> Inl (JobMove e) | Inr j \<Rightarrow> Inr j) (\<lambda>j.
       Inr (r\<lparr>rec_snapshot := (rec_snapshot r)\<lparr>snap_case := c, snap_job := j\<rparr>,
         rec_updated_at := at_ms\<rparr>)))"

section \<open>Reservation and saving\<close>

definition tenant_active :: "store \<Rightarrow> string \<Rightarrow> bool" where
  "tenant_active db tenant \<longleftrightarrow> map_of (st_tenants db) tenant = Some TenantActive"

definition new_case_row :: "durable_record \<Rightarrow> case_row" where
  "new_case_row r =
     \<lparr>cr_tenant = rec_tenant r, cr_id = rec_case_id r, cr_github = (rec_request r \<noteq> None),
      cr_descriptor = record_descriptor r, cr_state = case_st (snap_case (rec_snapshot r)),
      cr_domain = record_domain r, cr_version = 1, cr_created = rec_created_at r,
      cr_updated = rec_updated_at r\<rparr>"

definition new_job_row :: "durable_record \<Rightarrow> job_row" where
  "new_job_row r =
     (let j = snap_job (rec_snapshot r) in
        \<lparr>jr_tenant = rec_tenant r, jr_id = rec_job_id r, jr_case = rec_case_id r,
         jr_state = job_st j, jr_phase = job_phase j, jr_attempt = job_attempt j, jr_max = 3,
         jr_next = rec_created_at r, jr_owner = None, jr_acquired = None, jr_expires = None,
         jr_cancel_requested = None, jr_cancelled = None,
         jr_fail_code = map_option failure_code (job_failure j),
         jr_fail_message = map_option failure_message (job_failure j),
         jr_fail_retryable = map_option failure_retryable (job_failure j), jr_version = 1,
         jr_created = job_created_at j, jr_updated = job_updated_at j\<rparr>)"

definition new_key_row :: "durable_record \<Rightarrow> idempotency_row" where
  "new_key_row r =
     \<lparr>ir_tenant = rec_tenant r, ir_caller = rec_caller r, ir_key = rec_idempotency_key r,
      ir_command_hash = rec_command_hash r, ir_case = rec_case_id r, ir_job = rec_job_id r,
      ir_created = rec_created_at r\<rparr>"

text \<open>The result: whether the record was created, and the record.\<close>

definition reserve_in_transaction ::
  "js_host \<Rightarrow> time_host \<Rightarrow> durable_record \<Rightarrow> (bool \<times> durable_record) query" where
  "reserve_in_transaction h T r =
     then_q (read_q (\<lambda>db. tenant_active db (rec_tenant r))) (\<lambda>active.
       if \<not> active then throw_q InvalidDurableRecord
       else
         then_q (find_by_idempotency_key h T \<lparr>scope_caller = rec_caller r,
             scope_principal = rec_caller r, scope_tenant = rec_tenant r\<rparr> (rec_idempotency_key r))
           (\<lambda>existing. case existing of
              Some old \<Rightarrow> return_q (False, old)
            | None \<Rightarrow>
                then_q (insert_case (new_case_row r)) (\<lambda>_.
                then_q (insert_job (new_job_row r)) (\<lambda>_.
                then_q (insert_key (new_key_row r)) (\<lambda>_.
                  return_q (True, r))))))"

definition reserve :: "js_host \<Rightarrow> time_host \<Rightarrow> durable_record \<Rightarrow> (bool \<times> durable_record) query" where
  "reserve h T raw = then_q (lift_q (validate_record h T True raw)) (reserve_in_transaction h T)"

definition save_in_transaction :: "durable_record \<Rightarrow> int \<Rightarrow> durable_record query" where
  "save_in_transaction r expected =
     (let j = snap_job (rec_snapshot r) in
      if job_st j \<noteq> Queued then throw_q OptimisticConcurrency
      else
        then_q (save_case (rec_tenant r) (rec_case_id r) expected (case_st (snap_case (rec_snapshot r)))
            (record_domain r) (rec_updated_at r)) (\<lambda>_.
        then_q (update_jobs
            (\<lambda>row. jr_tenant row = rec_tenant r \<and> jr_id row = rec_job_id r \<and> jr_version row = expected \<and>
              jr_state row = job_st j \<and> jr_phase row = job_phase j \<and> jr_attempt row = job_attempt j \<and>
              jr_owner row = None)
            (\<lambda>row. row\<lparr>jr_state := job_st j, jr_phase := job_phase j, jr_attempt := job_attempt j,
              jr_fail_code := map_option failure_code (job_failure j),
              jr_fail_message := map_option failure_message (job_failure j),
              jr_fail_retryable := map_option failure_retryable (job_failure j),
              jr_updated := rec_updated_at r, jr_version := jr_version row + 1\<rparr>)) (\<lambda>rows.
        then_q (lift_q (first_version jr_version rows)) (\<lambda>v.
          if v \<noteq> expected + 1 then throw_q OptimisticConcurrency
          else return_q (r\<lparr>rec_version := expected + 1\<rparr>)))))"

definition save_record :: "js_host \<Rightarrow> time_host \<Rightarrow> durable_record \<Rightarrow> int \<Rightarrow> durable_record query" where
  "save_record h T raw expected =
     then_q (lift_q (validate_record h T False raw)) (\<lambda>r.
       if rec_version r \<noteq> expected \<or> expected < 1 then throw_q OptimisticConcurrency
       else save_in_transaction r expected)"

section \<open>Leases\<close>

definition claimable :: "int \<Rightarrow> string \<Rightarrow> string \<Rightarrow> job_row \<Rightarrow> bool" where
  "claimable at_ms tenant jid j \<longleftrightarrow>
     jr_tenant j = tenant \<and> jr_id j = jid \<and> jr_attempt j < jr_max j \<and>
     (jr_state j = Queued \<and> jr_next j \<le> at_ms \<or>
      jr_state j = Running \<and> (case jr_expires j of None \<Rightarrow> False | Some t \<Rightarrow> t \<le> at_ms))"

definition take_lease :: "int \<Rightarrow> int \<Rightarrow> string \<Rightarrow> job_row \<Rightarrow> job_row" where
  "take_lease at_ms expires owner j =
     j\<lparr>jr_state := Running, jr_attempt := jr_attempt j + 1, jr_owner := Some owner,
       jr_acquired := Some at_ms, jr_expires := Some expires, jr_updated := at_ms,
       jr_version := jr_version j + 1\<rparr>"

definition claim_lease ::
  "int \<Rightarrow> string \<Rightarrow> int \<Rightarrow> string \<Rightarrow> string \<Rightarrow> job_lease option query" where
  "claim_lease at_ms jid seconds owner tenant =
     (if \<not> date_range at_ms \<or> seconds < 1 \<or> 3600 < seconds then throw_q LeaseOwnership
      else
        then_q (lift_q (to_iso StoredDateRange (at_ms + seconds * 1000))) (\<lambda>expires.
        then_q (read_q (\<lambda>db. tenant_active db tenant)) (\<lambda>active.
          if \<not> active then return_q None
          else
            then_q (update_jobs (claimable at_ms tenant jid) (take_lease at_ms expires owner))
              (\<lambda>rows. case rows of
                 [] \<Rightarrow> return_q None
               | row # _ \<Rightarrow>
                   then_q (lift_q (stored_integer (jr_version row))) (\<lambda>version.
                   then_q (advance_case tenant (jr_case row) (version - 1) at_ms) (\<lambda>_.
                   then_q (lift_q (stored_integer (jr_attempt row))) (\<lambda>attempt.
                   then_q (lift_q (parse_as job_lease_ok StoredSchema
                     \<lparr>lease_acquired = at_ms, lease_attempt = attempt, lease_expires = expires,
                      lease_job = jid, lease_owner = owner, lease_tenant = tenant\<rparr>)) (\<lambda>lease.
                     return_q (Some lease)))))))))"

definition renew_lease :: "job_lease \<Rightarrow> int \<Rightarrow> int \<Rightarrow> job_lease query" where
  "renew_lease raw at_ms expires =
     then_q (lift_q (parse_as job_lease_ok StoredSchema raw)) (\<lambda>lease.
       if \<not> date_range at_ms \<or> \<not> date_range expires \<or> at_ms < lease_acquired lease \<or>
          lease_expires lease \<le> at_ms \<or> expires \<le> lease_expires lease
       then throw_q LeaseOwnership
       else
         then_q (update_jobs
             (\<lambda>j. jr_tenant j = lease_tenant lease \<and> jr_id j = lease_job lease \<and>
               jr_owner j = Some (lease_owner lease) \<and> jr_attempt j = lease_attempt lease \<and>
               jr_state j = Running \<and> jr_expires j = Some (lease_expires lease))
             (\<lambda>j. j\<lparr>jr_expires := Some expires, jr_updated := at_ms, jr_version := jr_version j + 1\<rparr>))
           (\<lambda>rows. case rows of
              [] \<Rightarrow> throw_q LeaseOwnership
            | row # _ \<Rightarrow>
                then_q (lift_q (stored_integer (jr_version row))) (\<lambda>version.
                then_q (advance_case (lease_tenant lease) (jr_case row) (version - 1) at_ms) (\<lambda>_.
                  lift_q (parse_as job_lease_ok StoredSchema (lease\<lparr>lease_expires := expires\<rparr>))))))"

text \<open>A verified completion needs a stored bundle.\<close>

definition has_bundle :: "store \<Rightarrow> string \<Rightarrow> string \<Rightarrow> bool" where
  "has_bundle db tenant cid \<longleftrightarrow>
     list_ex (\<lambda>a. ar_tenant a = tenant \<and> ar_case a = cid \<and> ar_kind a = BundleArtifact \<and>
       ar_status a = ArtifactAvailable) (st_artifacts db)"

definition claims_verified :: "durable_record \<Rightarrow> bool" where
  "claims_verified r \<longleftrightarrow>
     job_st (snap_job (rec_snapshot r)) = Succeeded \<and>
     (case_st (snap_case (rec_snapshot r)) = Verified \<or> job_phase (snap_job (rec_snapshot r)) = Verified)"

definition finish_job :: "durable_record \<Rightarrow> job_row \<Rightarrow> job_row" where
  "finish_job r row =
     (let j = snap_job (rec_snapshot r) in
        (clear_lease row)\<lparr>jr_state := job_st j, jr_phase := job_phase j,
          jr_fail_code := map_option failure_code (job_failure j),
          jr_fail_message := map_option failure_message (job_failure j),
          jr_fail_retryable := map_option failure_retryable (job_failure j),
          jr_updated := rec_updated_at r, jr_version := jr_version row + 1\<rparr>)"

definition complete_in_transaction :: "job_lease \<Rightarrow> durable_record \<Rightarrow> durable_record query" where
  "complete_in_transaction lease r =
     then_q (read_q (\<lambda>db. claims_verified r \<and> \<not> has_bundle db (rec_tenant r) (rec_case_id r))) (\<lambda>missing.
       if missing then throw_q InvalidDurableRecord
       else
         then_q (save_case (rec_tenant r) (rec_case_id r) (rec_version r)
             (case_st (snap_case (rec_snapshot r))) (record_domain r) (rec_updated_at r)) (\<lambda>_.
         then_q (update_jobs
             (\<lambda>row. jr_version row = rec_version r \<and> holds_lease lease row \<and>
               jr_case row = rec_case_id r \<and> jr_attempt row = job_attempt (snap_job (rec_snapshot r)) \<and>
               jr_cancel_requested row = None)
             (finish_job r)) (\<lambda>rows.
         then_q (lift_q (first_version jr_version rows)) (\<lambda>v.
           if v \<noteq> rec_version r + 1 then throw_q LeaseOwnership
           else
             then_q (release_active_job_quota (lease_tenant lease) (lease_job lease) (rec_updated_at r))
               (\<lambda>_. return_q (r\<lparr>rec_version := rec_version r + 1\<rparr>))))))"

definition complete_lease ::
  "js_host \<Rightarrow> time_host \<Rightarrow> job_lease \<Rightarrow> durable_record \<Rightarrow> durable_record query" where
  "complete_lease h T raw raw_record =
     then_q (lift_q (parse_as job_lease_ok StoredSchema raw)) (\<lambda>lease.
     then_q (lift_q (validate_record h T False raw_record)) (\<lambda>r.
       let j = snap_job (rec_snapshot r) in
       if rec_tenant r \<noteq> lease_tenant lease \<or> rec_job_id r \<noteq> lease_job lease \<or>
          job_attempt j \<noteq> lease_attempt lease \<or> (job_st j \<noteq> Succeeded \<and> job_st j \<noteq> Failed)
       then throw_q LeaseOwnership
       else complete_in_transaction lease r))"

section \<open>Cancellation and failure of a lease\<close>

definition cancel_lease_in_transaction ::
  "js_host \<Rightarrow> time_host \<Rightarrow> job_lease \<Rightarrow> int \<Rightarrow> durable_record query" where
  "cancel_lease_in_transaction h T lease at_ms =
     then_q (read_q (\<lambda>db. filter (\<lambda>j. holds_lease lease j \<and> jr_cancel_requested j \<noteq> None) (st_jobs db)))
       (\<lambda>owned.
     then_q (lift_q (first_version jr_version owned)) (\<lambda>version.
       if version < 1 then throw_q LeaseOwnership
       else
         then_q (find_by_lease h T lease) (\<lambda>found. case found of
             None \<Rightarrow> throw_q LeaseOwnership
           | Some r \<Rightarrow>
               if rec_version r \<noteq> version then throw_q LeaseOwnership
               else
                 then_q (lift_q (cancel_snapshot r at_ms)) (\<lambda>cancelled.
                 then_q (save_case (lease_tenant lease) (rec_case_id r) version Cancelled
                     (record_domain cancelled) at_ms) (\<lambda>_.
                 then_q (update_jobs
                     (\<lambda>j. holds_lease lease j \<and> jr_cancel_requested j \<noteq> None \<and> jr_version j = version)
                     (\<lambda>j. (clear_lease j)\<lparr>jr_state := JobCancelled, jr_phase := Cancelled,
                       jr_cancelled := Some at_ms, jr_updated := at_ms,
                       jr_version := jr_version j + 1\<rparr>)) (\<lambda>rows.
                 then_q (lift_q (first_version jr_version rows)) (\<lambda>v.
                   if v \<noteq> version + 1 then throw_q LeaseOwnership
                   else
                     then_q (release_active_job_quota (lease_tenant lease) (lease_job lease) at_ms)
                       (\<lambda>_. return_q (cancelled\<lparr>rec_version := version + 1\<rparr>)))))))))"

definition cancel_lease ::
  "js_host \<Rightarrow> time_host \<Rightarrow> job_lease \<Rightarrow> int \<Rightarrow> durable_record query" where
  "cancel_lease h T raw at_ms =
     then_q (lift_q (parse_as job_lease_ok StoredSchema raw)) (\<lambda>lease.
       if \<not> date_range at_ms \<or> at_ms < lease_acquired lease then throw_q LeaseOwnership
       else cancel_lease_in_transaction h T lease at_ms)"

datatype disposition = Requeued | Exhausted | DispCancelled

text \<open>The first 40 hexadecimal digits of a digest of tenant, job and attempt.\<close>

definition recovery_digest :: "js_host \<Rightarrow> string \<Rightarrow> string \<Rightarrow> int \<Rightarrow> string" where
  "recovery_digest h tenant jid attempt =
     take 40 (sha256_hex h (utf8_encode (tenant @ '':'' @ jid @ '':'' @ int_text attempt)))"

definition recovery_event_id :: "js_host \<Rightarrow> string \<Rightarrow> string \<Rightarrow> int \<Rightarrow> string" where
  "recovery_event_id h tenant jid attempt = ''recovery_'' @ recovery_digest h tenant jid attempt"

definition recovery_audit_event_id :: "js_host \<Rightarrow> string \<Rightarrow> string \<Rightarrow> int \<Rightarrow> string" where
  "recovery_audit_event_id h tenant jid attempt =
     ''audit_lease_recovery_'' @ recovery_digest h tenant jid attempt"

record lease_failure =
  lf_at :: int
  lf_code :: string
  lf_next :: int
  lf_retryable :: bool

definition requeues :: "lease_failure \<Rightarrow> job_row \<Rightarrow> bool" where
  "requeues f j \<longleftrightarrow> lf_retryable f \<and> jr_attempt j < jr_max j"

definition fail_job :: "lease_failure \<Rightarrow> job_row \<Rightarrow> job_row \<Rightarrow> job_row" where
  "fail_job f current j =
     (let requeue = requeues f current in
        (clear_lease j)\<lparr>jr_state := (if requeue then Queued else Failed), jr_next := lf_next f,
          jr_fail_code := (if requeue then None
            else if lf_retryable f then Some ''JOB_RETRY_EXHAUSTED'' else Some (lf_code f)),
          jr_fail_message := (if requeue then None
            else if lf_retryable f then Some ''The durable worker exhausted its retry budget''
            else Some ''The durable worker failed safely''),
          jr_fail_retryable := (if requeue then None else Some False),
          jr_updated := lf_at f, jr_version := jr_version j + 1\<rparr>)"

definition recovery_message :: "js_host \<Rightarrow> job_lease \<Rightarrow> string \<Rightarrow> queue_message" where
  "recovery_message h lease cid =
     \<lparr>msg_case_id = cid,
      msg_event_id = recovery_event_id h (lease_tenant lease) (lease_job lease) (lease_attempt lease),
      msg_job_id = lease_job lease, msg_kind = RecoveryRequested, msg_tenant = lease_tenant lease\<rparr>"

definition recovery_outbox_row :: "queue_message \<Rightarrow> int \<Rightarrow> int \<Rightarrow> outbox_row" where
  "recovery_outbox_row m next_ms at_ms =
     \<lparr>or_tenant = msg_tenant m, or_id = msg_event_id m, or_message = m, or_status = OutPending,
      or_deliveries = 0, or_next = next_ms, or_claim_owner = None, or_claim_expires = None,
      or_delivered = None, or_provider = None, or_error = None, or_version = 1,
      or_created = at_ms, or_updated = at_ms\<rparr>"

definition fail_in_transaction ::
  "js_host \<Rightarrow> time_host \<Rightarrow> job_lease \<Rightarrow> lease_failure \<Rightarrow> disposition query" where
  "fail_in_transaction h T lease f =
     then_q (read_q (\<lambda>db. filter (holds_lease lease) (st_jobs db))) (\<lambda>current. case current of
         [] \<Rightarrow> throw_q LeaseOwnership
       | row # _ \<Rightarrow>
           if jr_cancel_requested row \<noteq> None
           then then_q (cancel_lease_in_transaction h T lease (lf_at f)) (\<lambda>_. return_q DispCancelled)
           else
             then_q (lift_q (stored_integer (jr_attempt row))) (\<lambda>_.
             then_q (lift_q (stored_integer (jr_max row))) (\<lambda>_.
             then_q (update_jobs (holds_lease lease) (fail_job f row)) (\<lambda>rows.
             then_q (lift_q (first_version jr_version rows)) (\<lambda>v.
             then_q (lift_q (stored_integer (jr_version row))) (\<lambda>version.
               if v \<noteq> version + 1 then throw_q LeaseOwnership
               else
                 then_q (advance_case (lease_tenant lease) (jr_case row) version (lf_at f)) (\<lambda>_.
                   if requeues f row
                   then
                     then_q (lift_q (parse_as queue_message_ok StoredSchema
                         (recovery_message h lease (jr_case row)))) (\<lambda>m.
                     then_q (insert_outbox True (recovery_outbox_row m (lf_next f) (lf_at f)))
                       (\<lambda>_. return_q Requeued))
                   else
                     then_q (release_active_job_quota (lease_tenant lease) (lease_job lease) (lf_at f))
                       (\<lambda>_. return_q Exhausted))))))))"

definition fail_lease ::
  "js_host \<Rightarrow> time_host \<Rightarrow> job_lease \<Rightarrow> lease_failure \<Rightarrow> disposition query" where
  "fail_lease h T raw f =
     then_q (lift_q (parse_as job_lease_ok StoredSchema raw)) (\<lambda>lease.
       if \<not> date_range (lf_at f) \<or> \<not> date_range (lf_next f) \<or> lf_at f < lease_acquired lease \<or>
          lf_next f < lf_at f \<or> \<not> failure_code_ok (lf_code f)
       then throw_q LeaseOwnership
       else fail_in_transaction h T lease f)"

definition release_lease ::
  "js_host \<Rightarrow> time_host \<Rightarrow> job_lease \<Rightarrow> int \<Rightarrow> int \<Rightarrow> unit query" where
  "release_lease h T raw at_ms next_ms =
     then_q (lift_q (parse_as job_lease_ok StoredSchema raw)) (\<lambda>lease.
     then_q (fail_lease h T lease \<lparr>lf_at = at_ms, lf_code = ''LEASE_RELEASED'', lf_next = next_ms,
         lf_retryable = True\<rparr>) (\<lambda>_. return_q ()))"

section \<open>Recovery of expired leases\<close>

definition append_audit :: "audit_event \<Rightarrow> unit query" where
  "append_audit raw = then_q (lift_q (parse_as audit_event_ok StoredSchema raw)) insert_audit"

record recovery_summary =
  sum_cancelled :: nat
  sum_exhausted :: nat
  sum_requeued :: nat

fun count_disposition :: "disposition \<Rightarrow> recovery_summary \<Rightarrow> recovery_summary" where
  "count_disposition DispCancelled s = s\<lparr>sum_cancelled := sum_cancelled s + 1\<rparr>"
| "count_disposition Exhausted s = s\<lparr>sum_exhausted := sum_exhausted s + 1\<rparr>"
| "count_disposition Requeued s = s\<lparr>sum_requeued := sum_requeued s + 1\<rparr>"

fun disposition_text :: "disposition \<Rightarrow> string" where
  "disposition_text DispCancelled = ''cancelled''"
| "disposition_text Exhausted = ''exhausted''"
| "disposition_text Requeued = ''requeued''"

definition recovery_audit :: "js_host \<Rightarrow> int \<Rightarrow> job_lease \<Rightarrow> disposition \<Rightarrow> audit_event" where
  "recovery_audit h at_ms lease d =
     \<lparr>audit_action = ''job.lease-recovered'', audit_actor = ''operator:lease-recovery'',
      audit_event_id = recovery_audit_event_id h (lease_tenant lease) (lease_job lease) (lease_attempt lease),
      audit_metadata = [(''attempt'', AuditNumber (lease_attempt lease)),
        (''disposition'', AuditText (disposition_text d))],
      audit_occurred_at = at_ms,
      audit_outcome = (if d = Exhausted then AuditFailure else AuditSuccess),
      audit_target_id = lease_job lease, audit_target_type = TargetJob,
      audit_tenant = lease_tenant lease\<rparr>"

text \<open>
  \<open>ORDER BY lease_expires_at, tenant_id, id\<close>, where \<open>before\<close> is the collation of the
  database; \<open>locked\<close> are the rows that \<open>SKIP LOCKED\<close> leaves out.
\<close>

definition expires_earlier :: "(string \<Rightarrow> string \<Rightarrow> bool) \<Rightarrow> job_row \<Rightarrow> job_row \<Rightarrow> bool" where
  "expires_earlier before i j \<longleftrightarrow>
     (let a = (case jr_expires i of None \<Rightarrow> 0 | Some t \<Rightarrow> t);
          b = (case jr_expires j of None \<Rightarrow> 0 | Some t \<Rightarrow> t) in
      a < b \<or> a = b \<and>
        (if jr_tenant i = jr_tenant j then before (jr_id i) (jr_id j)
         else before (jr_tenant i) (jr_tenant j)))"

definition lease_expired :: "int \<Rightarrow> job_row \<Rightarrow> bool" where
  "lease_expired at_ms j \<longleftrightarrow>
     jr_state j = Running \<and> (case jr_expires j of None \<Rightarrow> False | Some t \<Rightarrow> t \<le> at_ms)"

definition expired_rows ::
  "(string \<Rightarrow> string \<Rightarrow> bool) \<Rightarrow> (job_row \<Rightarrow> bool) \<Rightarrow> int \<Rightarrow> nat \<Rightarrow> store \<Rightarrow> job_row list" where
  "expired_rows before locked at_ms limit db =
     take limit (sort_by (expires_earlier before)
       (filter (\<lambda>j. lease_expired at_ms j \<and> \<not> locked j) (st_jobs db)))"

definition row_lease :: "job_row \<Rightarrow> store_error + job_lease" where
  "row_lease j =
     and_then (stored_timestamp (case jr_acquired j of None \<Rightarrow> 0 | Some t \<Rightarrow> t)) (\<lambda>acquired.
     and_then (stored_integer (jr_attempt j)) (\<lambda>attempt.
     and_then (stored_timestamp (case jr_expires j of None \<Rightarrow> 0 | Some t \<Rightarrow> t)) (\<lambda>expires.
       case jr_owner j of
         None \<Rightarrow> Inl StoredSchema
       | Some owner \<Rightarrow> parse_as job_lease_ok StoredSchema
           \<lparr>lease_acquired = acquired, lease_attempt = attempt, lease_expires = expires,
            lease_job = jr_id j, lease_owner = owner, lease_tenant = jr_tenant j\<rparr>)))"

definition recover_row ::
  "js_host \<Rightarrow> time_host \<Rightarrow> int \<Rightarrow> job_row \<Rightarrow> disposition query" where
  "recover_row h T at_ms j =
     then_q (lift_q (row_lease j)) (\<lambda>lease.
     then_q (fail_lease h T lease \<lparr>lf_at = at_ms, lf_code = ''LEASE_EXPIRED'', lf_next = at_ms,
         lf_retryable = True\<rparr>) (\<lambda>d.
     then_q (append_audit (recovery_audit h at_ms lease d)) (\<lambda>_. return_q d)))"

fun recover_rows ::
  "js_host \<Rightarrow> time_host \<Rightarrow> int \<Rightarrow> job_row list \<Rightarrow> recovery_summary \<Rightarrow> recovery_summary query" where
  "recover_rows h T at_ms [] s = return_q s"
| "recover_rows h T at_ms (j # js) s =
     then_q (recover_row h T at_ms j) (\<lambda>d. recover_rows h T at_ms js (count_disposition d s))"

definition recover_expired_leases ::
  "js_host \<Rightarrow> time_host \<Rightarrow> (string \<Rightarrow> string \<Rightarrow> bool) \<Rightarrow> (job_row \<Rightarrow> bool) \<Rightarrow> int \<Rightarrow> int
     \<Rightarrow> recovery_summary query" where
  "recover_expired_leases h T before locked at_ms limit =
     (if \<not> date_range at_ms \<or> limit < 1 \<or> 1000 < limit then throw_q LeaseOwnership
      else
        then_q (read_q (expired_rows before locked at_ms (nat limit))) (\<lambda>rows.
          recover_rows h T at_ms rows \<lparr>sum_cancelled = 0, sum_exhausted = 0, sum_requeued = 0\<rparr>))"

section \<open>Cancellation by the tenant\<close>

record cancellation_result =
  can_case_id :: string
  can_changed :: bool
  can_cancelled :: bool

definition cancellation :: "string \<Rightarrow> bool \<Rightarrow> bool \<Rightarrow> cancellation_result option query" where
  "cancellation cid changed cancelled =
     return_q (Some \<lparr>can_case_id = cid, can_changed = changed, can_cancelled = cancelled\<rparr>)"

definition mark_cancellation ::
  "string \<Rightarrow> string \<Rightarrow> durable_record \<Rightarrow> int \<Rightarrow> cancellation_result option query" where
  "mark_cancellation tenant jid r at_ms =
     then_q (update_jobs
         (\<lambda>j. jr_tenant j = tenant \<and> jr_id j = jid \<and> jr_version j = rec_version r \<and>
           jr_state j = Running \<and> jr_cancel_requested j = None)
         (\<lambda>j. j\<lparr>jr_cancel_requested := Some at_ms, jr_updated := at_ms,
           jr_version := jr_version j + 1\<rparr>)) (\<lambda>rows.
     then_q (lift_q (first_version jr_version rows)) (\<lambda>v.
       if v \<noteq> rec_version r + 1 then throw_q OptimisticConcurrency
       else
         then_q (advance_case tenant (rec_case_id r) (rec_version r) at_ms) (\<lambda>_.
           cancellation (rec_case_id r) True False)))"

definition cancel_queued ::
  "string \<Rightarrow> string \<Rightarrow> durable_record \<Rightarrow> int \<Rightarrow> cancellation_result option query" where
  "cancel_queued tenant jid r at_ms =
     then_q (lift_q (cancel_snapshot r at_ms)) (\<lambda>cancelled.
     then_q (save_case tenant (rec_case_id r) (rec_version r) Cancelled (record_domain cancelled) at_ms)
       (\<lambda>_.
     then_q (update_jobs
         (\<lambda>j. jr_tenant j = tenant \<and> jr_id j = jid \<and> jr_version j = rec_version r \<and> jr_state j = Queued)
         (\<lambda>j. j\<lparr>jr_state := JobCancelled, jr_phase := Cancelled, jr_cancel_requested := Some at_ms,
           jr_cancelled := Some at_ms, jr_updated := at_ms, jr_version := jr_version j + 1\<rparr>)) (\<lambda>rows.
     then_q (lift_q (first_version jr_version rows)) (\<lambda>v.
       if v \<noteq> rec_version r + 1 then throw_q OptimisticConcurrency
       else
         then_q (release_active_job_quota tenant jid at_ms) (\<lambda>_.
           cancellation (rec_case_id r) True True)))))"

definition selected_jobs :: "tenant_scope \<Rightarrow> string \<Rightarrow> store \<Rightarrow> job_row list" where
  "selected_jobs scope jid db =
     [j. j \<leftarrow> st_jobs db, i \<leftarrow> st_keys db,
       ir_tenant i = jr_tenant j \<and> ir_job i = jr_id j \<and> jr_tenant j = scope_tenant scope \<and>
       jr_id j = jid \<and> ir_caller i = scope_caller scope]"

definition request_cancellation ::
  "js_host \<Rightarrow> time_host \<Rightarrow> tenant_scope \<Rightarrow> string \<Rightarrow> int \<Rightarrow> cancellation_result option query" where
  "request_cancellation h T raw jid at_ms =
     then_q (lift_q (parse_as tenant_scope_ok StoredSchema raw)) (\<lambda>scope.
       if \<not> date_range at_ms \<or> \<not> opaque_id jid then throw_q InvalidDurableRecord
       else
         then_q (read_q (selected_jobs scope jid)) (\<lambda>selected. case selected of
             [] \<Rightarrow> return_q None
           | j # _ \<Rightarrow>
               if jr_state j = JobCancelled then cancellation (jr_case j) False True
               else if jr_state j = Running \<and> jr_cancel_requested j \<noteq> None
               then cancellation (jr_case j) False False
               else if jr_state j \<noteq> Queued \<and> jr_state j \<noteq> Running then return_q None
               else
                 then_q (find_by_job_id h T scope jid) (\<lambda>found.
                 then_q (lift_q (case found of None \<Rightarrow> Inl CorruptDurableRecord
                     | Some r \<Rightarrow> and_then (stored_integer (jr_version j)) (\<lambda>v.
                         if rec_version r \<noteq> v then Inl CorruptDurableRecord else Inr r))) (\<lambda>r.
                   if at_ms < rec_created_at r then throw_q InvalidDurableRecord
                   else if jr_state j = Running
                   then mark_cancellation (scope_tenant scope) jid r at_ms
                   else cancel_queued (scope_tenant scope) jid r at_ms))))"

end
