(* ===== verification/Leases.thy ===== *)
theory Leases
  imports JobStore
begin

text \<open>
  What the lease operations do to the tables: each changes at most the row of one job and
  the row of its case, by one of the moves below. The invariant of the store, the fencing of
  stale leases, the finality of terminal jobs and of requested cancellations follow from the
  moves.
\<close>

section \<open>Queries that succeed\<close>

lemma query_Inr [simp]:
  "return_q x db = Inr (y, db') \<longleftrightarrow> y = x \<and> db' = db"
  "throw_q e db = Inr (y, db') \<longleftrightarrow> False"
  "lift_q r db = Inr (y, db') \<longleftrightarrow> r = Inr y \<and> db' = db"
  "read_q f db = Inr (z, db') \<longleftrightarrow> z = f db \<and> db' = db"
  by (auto simp: return_q_def throw_q_def lift_q_def read_q_def and_then_Inr_iff)

lemma then_q_Inr:
  "then_q m f db = Inr (y, db') \<longleftrightarrow> (\<exists>x mid. m db = Inr (x, mid) \<and> f x mid = Inr (y, db'))"
  by (auto simp: then_q_def and_then_Inr_iff)

lemma stored_integer_Inr [simp]: "stored_integer i = Inr v \<longleftrightarrow> safe_int i \<and> v = i"
  by (simp add: stored_integer_def)

section \<open>One row changes\<close>

definition put_row :: "('r \<Rightarrow> 'k) \<Rightarrow> 'r \<Rightarrow> 'r list \<Rightarrow> 'r list" where
  "put_row key r' rows = map (\<lambda>r. if key r = key r' then r' else r) rows"

lemma put_row_keys [simp]: "map key (put_row key r' rows) = map key rows"
  by (auto simp: put_row_def)

lemma put_row_set:
  assumes "distinct (map key rows)" and "r \<in> set rows" and "key r' = key r"
  shows "set (put_row key r' rows) = insert r' (set rows - {r})"
proof -
  have "s = r" if "s \<in> set rows" "key s = key r" for s
    using assms(1,2) that by (auto simp: distinct_map inj_on_def)
  with assms(2,3) show ?thesis by (force simp: put_row_def)
qed

lemma put_row_absent: "key r' \<notin> key ` set rows \<Longrightarrow> put_row key r' rows = rows"
  by (induction rows) (auto simp: put_row_def)

text \<open>An \<open>UPDATE\<close> whose condition fixes the key changes no row or one.\<close>

lemma update_where_key:
  assumes "update_where sel upd legal rows = Inr (out, rows')"
    and "distinct (map key rows)" and "\<And>r. sel r \<Longrightarrow> key r = k" and "\<And>r. key (upd r) = key r"
  shows "out = [] \<and> rows' = rows \<and> (\<forall>r \<in> set rows. \<not> sel r) \<or>
    (\<exists>r \<in> set rows. sel r \<and> legal r (upd r) \<and> out = [upd r] \<and> rows' = put_row key (upd r) rows)"
proof (cases "\<exists>r \<in> set rows. sel r")
  case False
  then have "filter sel rows = []" and "map (\<lambda>r. if sel r then upd r else r) rows = rows"
    by (auto simp: filter_empty_conv intro: map_idI)
  with assms(1) False show ?thesis by (auto simp: update_where_def split: if_splits)
next
  case True
  then obtain r where r: "r \<in> set rows" "sel r" by blast
  have uniq: "sel s \<longleftrightarrow> s = r" "key s = key r \<longleftrightarrow> s = r" if "s \<in> set rows" for s
    using that r assms(2,3) by (auto simp: distinct_map inj_on_def)
  have "filter sel rows = [r]"
  proof -
    have "filter sel rows = filter (\<lambda>s. s = r) rows" using uniq by (auto intro: filter_cong)
    also have "\<dots> = [r]"
      using r(1) assms(2) by (induction rows) (auto simp: filter_empty_conv)
    finally show ?thesis .
  qed
  moreover have "map (\<lambda>s. if sel s then upd s else s) rows = put_row key (upd r) rows"
    using uniq assms(4) by (auto simp: put_row_def)
  ultimately show ?thesis
    using assms(1) r by (auto simp: update_where_def list_ex_iff split: if_splits)
qed

lemma update_jobs_Inr:
  assumes "update_jobs sel upd db = Inr (rows, db')" and "distinct (map job_key (st_jobs db))"
    and "\<And>j. sel j \<Longrightarrow> job_key j = k" and "\<And>j. job_key (upd j) = job_key j"
  obtains "rows = []" and "db' = db"
  | j where "j \<in> set (st_jobs db)" and "sel j" and "job_update_ok j (upd j)" and "rows = [upd j]"
      and "db' = db\<lparr>st_jobs := put_row job_key (upd j) (st_jobs db)\<rparr>"
proof -
  from assms(1) obtain jobs where u: "update_where sel upd job_update_ok (st_jobs db) = Inr (rows, jobs)"
    and db': "db' = db\<lparr>st_jobs := jobs\<rparr>"
    by (auto simp: update_jobs_def and_then_Inr_iff)
  from update_where_key [where key = job_key, OF u assms(2-4)] show ?thesis
    using that db' by auto
qed

lemma update_cases_Inr:
  assumes "update_cases sel upd db = Inr (rows, db')" and "distinct (map case_key (st_cases db))"
    and "\<And>c. sel c \<Longrightarrow> case_key c = k" and "\<And>c. case_key (upd c) = case_key c"
  obtains "rows = []" and "db' = db"
  | c where "c \<in> set (st_cases db)" and "sel c" and "case_update_ok c (upd c)" and "rows = [upd c]"
      and "db' = db\<lparr>st_cases := put_row case_key (upd c) (st_cases db)\<rparr>"
proof -
  from assms(1) obtain cases where
    u: "update_where sel upd case_update_ok (st_cases db) = Inr (rows, cases)"
    and db': "db' = db\<lparr>st_cases := cases\<rparr>"
    by (auto simp: update_cases_def and_then_Inr_iff)
  from update_where_key [where key = case_key, OF u assms(2-4)] show ?thesis
    using that db' by auto
qed

text \<open>
  The row of a case after a write at its version: \<open>case_written db db' key v c c'\<close>.
\<close>

definition case_written :: "store \<Rightarrow> store \<Rightarrow> string \<times> string \<Rightarrow> int \<Rightarrow> case_row \<Rightarrow> case_row \<Rightarrow> bool" where
  "case_written db db' key v c c' \<longleftrightarrow>
     c \<in> set (st_cases db) \<and> case_key c = key \<and> cr_version c = v \<and> case_update_ok c c' \<and>
     case_key c' = key \<and> cr_created c' = cr_created c \<and> safe_int (v + 1) \<and>
     db' = db\<lparr>st_cases := put_row case_key c' (st_cases db)\<rparr>"

lemma advance_case_Inr:
  assumes "advance_case tenant cid v t db = Inr (u, db')" and "distinct (map case_key (st_cases db))"
    and "0 \<le> v"
  obtains c where "case_written db db' (tenant, cid) v c (c\<lparr>cr_version := v + 1, cr_updated := t\<rparr>)"
proof -
  from assms(1) obtain rows where
    up: "update_cases (\<lambda>c. cr_tenant c = tenant \<and> cr_id c = cid \<and> cr_version c = v)
      (\<lambda>c. c\<lparr>cr_version := cr_version c + 1, cr_updated := t\<rparr>) db = Inr (rows, db')"
    and v: "first_version cr_version rows = Inr (v + 1)"
    by (auto simp: advance_case_def then_q_Inr split: if_splits)
  show ?thesis
  proof (rule update_cases_Inr [OF up assms(2), where k = "(tenant, cid)"])
    assume "rows = []"
    with v assms(3) show ?thesis by (auto simp: first_version_def)
  next
    fix c assume "c \<in> set (st_cases db)" "cr_tenant c = tenant \<and> cr_id c = cid \<and> cr_version c = v"
      "case_update_ok c (c\<lparr>cr_version := cr_version c + 1, cr_updated := t\<rparr>)"
      "rows = [c\<lparr>cr_version := cr_version c + 1, cr_updated := t\<rparr>]"
      "db' = db\<lparr>st_cases := put_row case_key (c\<lparr>cr_version := cr_version c + 1, cr_updated := t\<rparr>) (st_cases db)\<rparr>"
    with v show ?thesis
      by (intro that [of c]) (auto simp: case_written_def case_key_def first_version_def)
  qed (auto simp: case_key_def)
qed

lemma save_case_Inr:
  assumes "save_case tenant cid v state domain t db = Inr (u, db')"
    and "distinct (map case_key (st_cases db))" and "0 \<le> v"
  obtains c where "case_written db db' (tenant, cid) v c
    (c\<lparr>cr_state := state, cr_domain := domain, cr_updated := t, cr_version := v + 1\<rparr>)"
proof -
  let ?upd = "\<lambda>c. c\<lparr>cr_state := state, cr_domain := domain, cr_updated := t, cr_version := cr_version c + 1\<rparr>"
  from assms(1) obtain rows where
    up: "update_cases (\<lambda>c. cr_tenant c = tenant \<and> cr_id c = cid \<and> cr_version c = v) ?upd db = Inr (rows, db')"
    and v: "first_version cr_version rows = Inr (v + 1)"
    by (auto simp: save_case_def then_q_Inr split: if_splits)
  show ?thesis
  proof (rule update_cases_Inr [OF up assms(2), where k = "(tenant, cid)"])
    assume "rows = []"
    with v assms(3) show ?thesis by (auto simp: first_version_def)
  next
    fix c assume "c \<in> set (st_cases db)" "cr_tenant c = tenant \<and> cr_id c = cid \<and> cr_version c = v"
      "case_update_ok c (?upd c)" "rows = [?upd c]"
      "db' = db\<lparr>st_cases := put_row case_key (?upd c) (st_cases db)\<rparr>"
    with v show ?thesis
      by (intro that [of c]) (auto simp: case_written_def case_key_def first_version_def)
  qed (auto simp: case_key_def)
qed

section \<open>The moves of a job\<close>

definition renew_job :: "int \<Rightarrow> int \<Rightarrow> job_row \<Rightarrow> job_row" where
  "renew_job t expires j =
     j\<lparr>jr_expires := Some expires, jr_updated := t, jr_version := jr_version j + 1\<rparr>"

definition request_job :: "int \<Rightarrow> job_row \<Rightarrow> job_row" where
  "request_job t j =
     j\<lparr>jr_cancel_requested := Some t, jr_updated := t, jr_version := jr_version j + 1\<rparr>"

definition cancel_running :: "int \<Rightarrow> job_row \<Rightarrow> job_row" where
  "cancel_running t j =
     (clear_lease j)\<lparr>jr_state := JobCancelled, jr_phase := Cancelled, jr_cancelled := Some t,
       jr_updated := t, jr_version := jr_version j + 1\<rparr>"

definition cancel_waiting :: "int \<Rightarrow> job_row \<Rightarrow> job_row" where
  "cancel_waiting t j =
     j\<lparr>jr_state := JobCancelled, jr_phase := Cancelled, jr_cancel_requested := Some t,
       jr_cancelled := Some t, jr_updated := t, jr_version := jr_version j + 1\<rparr>"

definition save_job :: "durable_record \<Rightarrow> job_row \<Rightarrow> job_row" where
  "save_job r row =
     (let j = snap_job (rec_snapshot r) in
        row\<lparr>jr_state := job_st j, jr_phase := job_phase j, jr_attempt := job_attempt j,
          jr_fail_code := map_option failure_code (job_failure j),
          jr_fail_message := map_option failure_message (job_failure j),
          jr_fail_retryable := map_option failure_retryable (job_failure j),
          jr_updated := rec_updated_at r, jr_version := jr_version row + 1\<rparr>)"

inductive job_move :: "job_row \<Rightarrow> job_row \<Rightarrow> bool" where
  claimed: "claimable t tenant jid j \<Longrightarrow> t < expires \<Longrightarrow> job_move j (take_lease t expires owner j)"
| renewed: "jr_state j = Running \<Longrightarrow> jr_owner j \<noteq> None \<Longrightarrow> jr_expires j = Some old \<Longrightarrow> old < expires
    \<Longrightarrow> job_move j (renew_job t expires j)"
| failed: "jr_state j = Running \<Longrightarrow> jr_cancel_requested j = None \<Longrightarrow> job_move j (fail_job f j j)"
| completed: "jr_state j = Running \<Longrightarrow> jr_cancel_requested j = None
    \<Longrightarrow> job_st (snap_job (rec_snapshot r)) \<in> {Succeeded, Failed} \<Longrightarrow> job_move j (finish_job r j)"
| requested: "jr_state j = Running \<Longrightarrow> jr_cancel_requested j = None \<Longrightarrow> job_move j (request_job t j)"
| cancelled: "jr_state j = Running \<Longrightarrow> jr_cancel_requested j \<noteq> None \<Longrightarrow> job_move j (cancel_running t j)"
| withdrawn: "jr_state j = Queued \<Longrightarrow> job_move j (cancel_waiting t j)"
| saved: "jr_state j = Queued \<Longrightarrow> jr_owner j = None \<Longrightarrow> job_st (snap_job (rec_snapshot r)) = Queued
    \<Longrightarrow> job_attempt (snap_job (rec_snapshot r)) = jr_attempt j \<Longrightarrow> job_move j (save_job r j)"

lemmas job_row_defs = take_lease_def renew_job_def fail_job_def finish_job_def request_job_def
  cancel_running_def cancel_waiting_def save_job_def clear_lease_def

lemma job_move_keys:
  assumes "job_move j j'"
  shows "job_key j' = job_key j" and "job_case_key j' = job_case_key j" and "jr_max j' = jr_max j"
    and "jr_version j' = jr_version j + 1" and "jr_created j' = jr_created j"
  using assms by (auto elim!: job_move.cases simp: job_key_def job_case_key_def job_row_defs Let_def)

text \<open>The rows of one job and of its case change, and nothing else of these tables.\<close>

definition job_effect :: "store \<Rightarrow> store \<Rightarrow> job_row \<Rightarrow> job_row \<Rightarrow> bool" where
  "job_effect db db' j j' \<longleftrightarrow>
     j \<in> set (st_jobs db) \<and> job_move j j' \<and> job_update_ok j j' \<and>
     st_jobs db' = put_row job_key j' (st_jobs db) \<and>
     (\<exists>c c'. c \<in> set (st_cases db) \<and> case_key c = job_case_key j \<and> case_key c' = case_key c \<and>
        cr_version c = jr_version j \<and> case_update_ok c c' \<and>
        st_cases db' = put_row case_key c' (st_cases db)) \<and>
     st_keys db' = st_keys db \<and> st_tenants db' = st_tenants db \<and> st_now db' = st_now db"

definition keys_distinct :: "store \<Rightarrow> bool" where
  "keys_distinct db \<longleftrightarrow>
     distinct (map job_key (st_jobs db)) \<and> distinct (map case_key (st_cases db)) \<and>
     list_all (\<lambda>j. 1 \<le> jr_version j) (st_jobs db)"

section \<open>The effect of every operation\<close>

lemma claimable_key: "claimable t tenant jid j \<Longrightarrow> job_key j = (tenant, jid)"
  by (simp add: claimable_def job_key_def)

lemma take_lease_key [simp]: "job_key (take_lease t e w j) = job_key j"
  "job_case_key (take_lease t e w j) = job_case_key j"
  by (simp_all add: take_lease_def job_key_def job_case_key_def)

lemma case_written_effect:
  assumes "case_written mid db' (job_case_key j) (jr_version j) c c'"
    and "mid = db\<lparr>st_jobs := put_row job_key j' (st_jobs db)\<rparr>"
    and "j \<in> set (st_jobs db)" and "job_move j j'" and "job_update_ok j j'"
  shows "job_effect db db' j j'"
  unfolding job_effect_def
  by (intro conjI exI [of _ c] exI [of _ c']) (use assms in \<open>auto simp: case_written_def\<close>)

lemma written_case_effect:
  assumes "case_written db mid (job_case_key j) (jr_version j) c c'"
    and "db' = mid\<lparr>st_jobs := put_row job_key j' (st_jobs mid)\<rparr>"
    and "j \<in> set (st_jobs mid)" and "job_move j j'" and "job_update_ok j j'"
  shows "job_effect db db' j j'"
  unfolding job_effect_def
  by (intro conjI exI [of _ c] exI [of _ c']) (use assms in \<open>auto simp: case_written_def\<close>)

lemma claim_lease_Inr:
  assumes "claim_lease t jid seconds owner tenant db = Inr (res, db')" and "keys_distinct db"
  obtains "res = None" and "db' = db"
  | j where "res = Some \<lparr>lease_acquired = t, lease_attempt = jr_attempt j + 1,
        lease_expires = t + seconds * 1000, lease_job = jid, lease_owner = owner,
        lease_tenant = tenant\<rparr>"
      and "job_lease_ok (the res)" and "tenant_active db tenant"
      and "claimable t tenant jid j" and "1 \<le> seconds" and "seconds \<le> 3600"
      and "job_effect db db' j (take_lease t (t + seconds * 1000) owner j)"
proof -
  let ?e = "t + seconds * 1000"
  note distinct = assms(2)[unfolded keys_distinct_def]
  from assms(1) have s: "1 \<le> seconds" "seconds \<le> 3600"
    by (auto simp: claim_lease_def split: if_splits)
  show ?thesis
  proof (cases "tenant_active db tenant")
    case False
    with assms(1) that(1) show ?thesis
      by (auto simp: claim_lease_def then_q_Inr split: if_splits)
  next
    case True
    with assms(1) obtain rows mid where
      up: "update_jobs (claimable t tenant jid) (take_lease t ?e owner) db = Inr (rows, mid)"
      and rest: "(case rows of [] \<Rightarrow> return_q None
         | row # _ \<Rightarrow>
             then_q (lift_q (stored_integer (jr_version row))) (\<lambda>version.
             then_q (advance_case tenant (jr_case row) (version - 1) t) (\<lambda>_.
             then_q (lift_q (stored_integer (jr_attempt row))) (\<lambda>attempt.
             then_q (lift_q (parse_as job_lease_ok StoredSchema
               \<lparr>lease_acquired = t, lease_attempt = attempt, lease_expires = ?e,
                lease_job = jid, lease_owner = owner, lease_tenant = tenant\<rparr>)) (\<lambda>lease.
               return_q (Some lease)))))) mid = Inr (res, db')"
      by (auto simp: claim_lease_def then_q_Inr split: if_splits)
    show ?thesis
    proof (rule update_jobs_Inr [OF up, where k = "(tenant, jid)"])
      assume "rows = []" "mid = db"
      with rest show ?thesis by (intro that(1)) auto
    next
      fix j assume j: "j \<in> set (st_jobs db)" "claimable t tenant jid j"
        "job_update_ok j (take_lease t ?e owner j)" "rows = [take_lease t ?e owner j]"
        "mid = db\<lparr>st_jobs := put_row job_key (take_lease t ?e owner j) (st_jobs db)\<rparr>"
      let ?l = "\<lparr>lease_acquired = t, lease_attempt = jr_attempt j + 1, lease_expires = ?e,
        lease_job = jid, lease_owner = owner, lease_tenant = tenant\<rparr>"
      from rest j(4) have adv: "advance_case tenant (jr_case j) (jr_version j) t mid = Inr ((), db')"
        and res: "res = Some ?l" "job_lease_ok ?l"
        by (auto simp: then_q_Inr take_lease_def)
      have "distinct (map case_key (st_cases mid))" "0 \<le> jr_version j"
        using distinct j(1,5) by (auto simp: list_all_iff)
      from advance_case_Inr [OF adv this] obtain c c' where
        w: "case_written mid db' (tenant, jr_case j) (jr_version j) c c'" .
      have ck: "(tenant, jr_case j) = job_case_key j"
        using j(2) by (simp add: claimable_def job_case_key_def)
      have "job_move j (take_lease t ?e owner j)" using s j(2) by (intro job_move.claimed) auto
      from case_written_effect [OF w[unfolded ck] j(5) j(1) this j(3)]
      show ?thesis using that(2) res True j(2) s by simp
    qed (use distinct claimable_key in auto)
  qed
qed

lemma renew_lease_Inr:
  assumes "renew_lease l t expires db = Inr (res, db')" and "keys_distinct db"
  obtains j where "res = l\<lparr>lease_expires := expires\<rparr>" and "job_lease_ok l" and "job_lease_ok res"
    and "lease_acquired l \<le> t" and "t < lease_expires l" and "lease_expires l < expires"
    and "jr_tenant j = lease_tenant l" and "jr_id j = lease_job l"
    and "jr_owner j = Some (lease_owner l)" and "jr_attempt j = lease_attempt l"
    and "jr_state j = Running" and "jr_expires j = Some (lease_expires l)"
    and "job_effect db db' j (renew_job t expires j)"
proof -
  note distinct = assms(2)[unfolded keys_distinct_def]
  let ?sel = "\<lambda>j. jr_tenant j = lease_tenant l \<and> jr_id j = lease_job l \<and>
    jr_owner j = Some (lease_owner l) \<and> jr_attempt j = lease_attempt l \<and>
    jr_state j = Running \<and> jr_expires j = Some (lease_expires l)"
  from assms(1) obtain rows mid where
    up: "update_jobs ?sel (\<lambda>j. j\<lparr>jr_expires := Some expires, jr_updated := t, jr_version := jr_version j + 1\<rparr>) db
      = Inr (rows, mid)"
    and rest: "(case rows of [] \<Rightarrow> throw_q LeaseOwnership
      | row # _ \<Rightarrow>
          then_q (lift_q (stored_integer (jr_version row))) (\<lambda>version.
          then_q (advance_case (lease_tenant l) (jr_case row) (version - 1) t) (\<lambda>_.
            lift_q (parse_as job_lease_ok StoredSchema (l\<lparr>lease_expires := expires\<rparr>))))) mid = Inr (res, db')"
    and g: "job_lease_ok l" "lease_acquired l \<le> t" "t < lease_expires l" "lease_expires l < expires"
    by (auto simp: renew_lease_def then_q_Inr split: if_splits)
  have up: "update_jobs ?sel (renew_job t expires) db = Inr (rows, mid)"
    using up by (simp add: renew_job_def [abs_def])
  show ?thesis
  proof (rule update_jobs_Inr [OF up, where k = "(lease_tenant l, lease_job l)"])
    assume "rows = []" with rest show ?thesis by simp
  next
    fix j assume j: "j \<in> set (st_jobs db)" "?sel j" "job_update_ok j (renew_job t expires j)"
      "rows = [renew_job t expires j]"
      "mid = db\<lparr>st_jobs := put_row job_key (renew_job t expires j) (st_jobs db)\<rparr>"
    from rest j(4) have adv: "advance_case (lease_tenant l) (jr_case j) (jr_version j) t mid = Inr ((), db')"
      and res: "res = l\<lparr>lease_expires := expires\<rparr>" "job_lease_ok (l\<lparr>lease_expires := expires\<rparr>)"
      by (auto simp: then_q_Inr renew_job_def)
    have "distinct (map case_key (st_cases mid))" "0 \<le> jr_version j"
      using distinct j(1,5) by (auto simp: list_all_iff)
    from advance_case_Inr [OF adv this] obtain c c' where
      w: "case_written mid db' (lease_tenant l, jr_case j) (jr_version j) c c'" .
    have ck: "(lease_tenant l, jr_case j) = job_case_key j"
      using j(2) by (simp add: job_case_key_def)
    have "job_move j (renew_job t expires j)"
      using g j(2) by (intro job_move.renewed [where old = "lease_expires l"]) auto
    from case_written_effect [OF w[unfolded ck] j(5) j(1) this j(3)] show ?thesis
      using j(2) res g by (intro that) auto
  qed (use distinct in \<open>auto simp: job_key_def renew_job_def\<close>)
qed

text \<open>Queries on the other tables leave jobs and cases alone.\<close>

definition same_work :: "store \<Rightarrow> store \<Rightarrow> bool" where
  "same_work db db' \<longleftrightarrow>
     st_jobs db' = st_jobs db \<and> st_cases db' = st_cases db \<and> st_keys db' = st_keys db \<and>
     st_tenants db' = st_tenants db \<and> st_now db' = st_now db"

lemma same_work_refl [simp]: "same_work db db"
  by (simp add: same_work_def)

lemma job_effect_later: "job_effect db mid j j' \<Longrightarrow> same_work mid db' \<Longrightarrow> job_effect db db' j j'"
  by (simp add: job_effect_def same_work_def)

lemma insert_outbox_same: "insert_outbox skip e db = Inr (b, db') \<Longrightarrow> same_work db db'"
  by (auto simp: insert_outbox_def same_work_def split: if_splits)

lemma insert_audit_same: "insert_audit e db = Inr (u, db') \<Longrightarrow> same_work db db'"
  by (auto simp: insert_audit_def same_work_def split: if_splits)

lemma append_audit_same: "append_audit e db = Inr (u, db') \<Longrightarrow> same_work db db'"
  by (auto simp: append_audit_def then_q_Inr insert_audit_same)

lemma release_quota_same: "release_active_job_quota tenant jid t db = Inr (n, db') \<Longrightarrow> same_work db db'"
  by (auto simp: release_active_job_quota_def then_q_Inr update_quota_def and_then_Inr_iff same_work_def)

lemma find_durable_same: "find_durable h T cond db = Inr (r, db') \<Longrightarrow> db' = db"
  by (auto simp: find_durable_def and_then_Inr_iff split: list.splits)

lemma find_same:
  "find_by_lease h T l db = Inr (r, db') \<Longrightarrow> db' = db"
  "find_by_job_id h T s jid db = Inr (r, db') \<Longrightarrow> db' = db"
  "find_by_idempotency_key h T s key db = Inr (r, db') \<Longrightarrow> db' = db"
  "find_by_case_id h T s cid db = Inr (r, db') \<Longrightarrow> db' = db"
  by (auto simp: find_by_lease_def find_by_job_id_def find_by_idempotency_key_def find_by_case_id_def
      then_q_Inr dest: find_durable_same)

lemma holds_lease_key: "holds_lease l j \<Longrightarrow> job_key j = (lease_tenant l, lease_job l)"
  by (simp add: holds_lease_def job_key_def)

lemma holds_lease_unique:
  "keys_distinct db \<Longrightarrow> holds_lease l i \<Longrightarrow> holds_lease l j \<Longrightarrow> i \<in> set (st_jobs db) \<Longrightarrow>
   j \<in> set (st_jobs db) \<Longrightarrow> i = j"
  by (auto simp: keys_distinct_def distinct_map inj_on_def dest!: holds_lease_key)

text \<open>The record that a lease finds has the identity of its rows.\<close>

lemma find_by_lease_rows:
  assumes "find_by_lease h T l db = Inr (Some r, db')"
  obtains i c j where "(i, c, j) \<in> set (durable_rows (\<lambda>(i, c, j). holds_lease l j) db)"
    and "row_to_record h T (i, c, j) = Inr r"
  using assms
  by (auto simp: find_by_lease_def then_q_Inr find_durable_def and_then_Inr_iff split: list.splits)

lemma row_to_record_Inr:
  assumes "row_to_record h T (i, c, j) = Inr r"
  shows "rec_case_id r = cr_id c" and "rec_version r = cr_version c" and "rec_version r = jr_version j"
    and "rec_tenant r = ir_tenant i" and "rec_job_id r = ir_job i" and "rec_command_hash r = ir_command_hash i"
    and "rec_created_at r = cr_created c"
    and "job_st (snap_job (rec_snapshot r)) = jr_state j" and "job_attempt (snap_job (rec_snapshot r)) = jr_attempt j"
    and "snap_case (rec_snapshot r) = dom_case (cr_domain c)" and "durable_record_ok h T False r"
  using assms by (auto simp: row_to_record_def row_record_def row_job_def Let_def and_then_Inr_iff
      stored_integer_def split: if_splits)

lemma durable_rows_set:
  "(i, c, j) \<in> set (durable_rows cond db) \<longleftrightarrow>
     i \<in> set (st_keys db) \<and> c \<in> set (st_cases db) \<and> j \<in> set (st_jobs db) \<and>
     cr_tenant c = ir_tenant i \<and> cr_id c = ir_case i \<and>
     jr_tenant j = ir_tenant i \<and> jr_case j = ir_case i \<and> jr_id j = ir_job i \<and> cond (i, c, j)"
  by (auto simp: durable_rows_def)

lemma job_keep [simp]:
  "job_key (renew_job t e j) = job_key j" "job_key (request_job t j) = job_key j"
  "job_key (cancel_running t j) = job_key j" "job_key (cancel_waiting t j) = job_key j"
  "job_key (save_job r j) = job_key j" "job_key (finish_job r j) = job_key j"
  "job_key (fail_job f k j) = job_key j"
  "job_case_key (renew_job t e j) = job_case_key j" "job_case_key (request_job t j) = job_case_key j"
  "job_case_key (cancel_running t j) = job_case_key j" "job_case_key (cancel_waiting t j) = job_case_key j"
  "job_case_key (save_job r j) = job_case_key j" "job_case_key (finish_job r j) = job_case_key j"
  "job_case_key (fail_job f k j) = job_case_key j"
  by (simp_all add: job_key_def job_case_key_def job_row_defs Let_def)

lemma cancel_lease_in_transaction_Inr:
  assumes "cancel_lease_in_transaction h T l t db = Inr (res, db')" and "keys_distinct db"
  obtains j where "holds_lease l j" and "jr_cancel_requested j \<noteq> None"
    and "job_effect db db' j (cancel_running t j)"
proof -
  note distinct = assms(2)[unfolded keys_distinct_def]
  let ?sel = "\<lambda>v j. holds_lease l j \<and> jr_cancel_requested j \<noteq> None \<and> jr_version j = v"
  from assms(1) obtain version found mid0 where
    v: "first_version jr_version (filter (\<lambda>j. holds_lease l j \<and> jr_cancel_requested j \<noteq> None) (st_jobs db))
      = Inr version" "1 \<le> version"
    and "find_by_lease h T l db = Inr (found, mid0)"
    and rest: "(case found of None \<Rightarrow> throw_q LeaseOwnership
       | Some r \<Rightarrow>
           if rec_version r \<noteq> version then throw_q LeaseOwnership
           else
             then_q (lift_q (cancel_snapshot r t)) (\<lambda>cancelled.
             then_q (save_case (lease_tenant l) (rec_case_id r) version Cancelled (record_domain cancelled) t)
               (\<lambda>_.
             then_q (update_jobs (?sel version) (cancel_running t)) (\<lambda>rows.
             then_q (lift_q (first_version jr_version rows)) (\<lambda>v.
               if v \<noteq> version + 1 then throw_q LeaseOwnership
               else
                 then_q (release_active_job_quota (lease_tenant l) (lease_job l) t)
                   (\<lambda>_. return_q (cancelled\<lparr>rec_version := version + 1\<rparr>))))))) mid0 = Inr (res, db')"
    unfolding cancel_lease_in_transaction_def cancel_running_def [symmetric, abs_def]
    by (fastforce simp: then_q_Inr simp del: not_None_eq split: if_splits)
  moreover from calculation have "mid0 = db" by (blast dest: find_same)
  ultimately obtain r cancelled mid mid2 rows n where
    found: "find_by_lease h T l db = Inr (Some r, db)" and rv: "rec_version r = version"
    and save: "save_case (lease_tenant l) (rec_case_id r) version Cancelled (record_domain cancelled) t db
      = Inr ((), mid)"
    and up: "update_jobs (?sel version) (cancel_running t) mid = Inr (rows, mid2)"
    and rv2: "first_version jr_version rows = Inr (version + 1)"
    and rel: "release_active_job_quota (lease_tenant l) (lease_job l) t mid2 = Inr (n, db')"
    by (fastforce simp: then_q_Inr simp del: not_None_eq split: if_splits option.splits)
  from find_by_lease_rows [OF found] obtain i c0 j0 where
    rows0: "(i, c0, j0) \<in> set (durable_rows (\<lambda>(i, c, j). holds_lease l j) db)"
    and rec: "row_to_record h T (i, c0, j0) = Inr r" .
  have j0: "j0 \<in> set (st_jobs db)" "holds_lease l j0" "jr_version j0 = version"
      "job_case_key j0 = (lease_tenant l, rec_case_id r)"
    using rows0 row_to_record_Inr [OF rec] rv
    by (auto simp: durable_rows_set job_case_key_def holds_lease_def)
  have vpos: "0 \<le> version" using v by simp
  from save_case_Inr [OF save _ vpos] distinct obtain c c' where
    w: "case_written db mid (lease_tenant l, rec_case_id r) version c c'" by metis
  have jobs_mid: "st_jobs mid = st_jobs db" using w by (simp add: case_written_def)
  show ?thesis
  proof (rule update_jobs_Inr [OF up, where k = "(lease_tenant l, lease_job l)"])
    show "distinct (map job_key (st_jobs mid))" using distinct jobs_mid by simp
  next
    assume "rows = []" with rv2 v show ?thesis by (auto simp: first_version_def)
  next
    fix j assume j: "j \<in> set (st_jobs mid)" "?sel version j" "job_update_ok j (cancel_running t j)"
      "mid2 = mid\<lparr>st_jobs := put_row job_key (cancel_running t j) (st_jobs mid)\<rparr>"
    have "j = j0" using holds_lease_unique [OF assms(2), of l j j0] j(1,2) j0 jobs_mid by simp
    moreover have "job_move j (cancel_running t j)"
      using j(2) by (intro job_move.cancelled) (auto simp: holds_lease_def)
    ultimately have "job_effect db mid2 j (cancel_running t j)"
      using written_case_effect [OF _ j(4) j(1) _ j(3)] w j0 by simp
    from job_effect_later [OF this release_quota_same [OF rel]] that j(2) show ?thesis by blast
  qed (auto dest: holds_lease_key)
qed

lemma fail_in_transaction_Inr:
  assumes "fail_in_transaction h T l f db = Inr (d, db')" and "keys_distinct db"
  obtains j where "holds_lease l j" and "jr_cancel_requested j \<noteq> None" and "d = DispCancelled"
      and "job_effect db db' j (cancel_running (lf_at f) j)"
  | j mid where "holds_lease l j" and "jr_cancel_requested j = None"
      and "d = (if requeues f j then Requeued else Exhausted)"
      and "job_effect db mid j (fail_job f j j)" and "same_work mid db'"
      and "requeues f j \<Longrightarrow> \<exists>b. insert_outbox True
        (recovery_outbox_row (recovery_message h l (jr_case j)) (lf_next f) (lf_at f)) mid = Inr (b, db')"
      and "\<not> requeues f j \<Longrightarrow> \<exists>n. release_active_job_quota (lease_tenant l) (lease_job l) (lf_at f) mid = Inr (n, db')"
proof -
  note distinct = assms(2)[unfolded keys_distinct_def]
  show ?thesis
  proof (cases "filter (holds_lease l) (st_jobs db)")
    case Nil
    with assms(1) show ?thesis by (simp add: fail_in_transaction_def then_q_Inr)
  next
    case (Cons j js)
    then have j: "j \<in> set (st_jobs db)" "holds_lease l j" by (auto simp: filter_eq_Cons_iff)
    show ?thesis
    proof (cases "jr_cancel_requested j = None")
      case False
      with assms(1) Cons obtain res where "cancel_lease_in_transaction h T l (lf_at f) db = Inr (res, db')"
        and d: "d = DispCancelled"
        by (auto simp: fail_in_transaction_def then_q_Inr)
      from cancel_lease_in_transaction_Inr [OF this(1) assms(2)] that(1) d show ?thesis by metis
    next
      case True
      with assms(1) Cons obtain rows mid mid2 where
        up: "update_jobs (holds_lease l) (fail_job f j) db = Inr (rows, mid)"
        and rv: "first_version jr_version rows = Inr (jr_version j + 1)"
        and adv: "advance_case (lease_tenant l) (jr_case j) (jr_version j) (lf_at f) mid = Inr ((), mid2)"
        and rest: "(if requeues f j
            then then_q (lift_q (parse_as queue_message_ok StoredSchema (recovery_message h l (jr_case j))))
              (\<lambda>m. then_q (insert_outbox True (recovery_outbox_row m (lf_next f) (lf_at f))) (\<lambda>_. return_q Requeued))
            else then_q (release_active_job_quota (lease_tenant l) (lease_job l) (lf_at f))
              (\<lambda>_. return_q Exhausted)) mid2 = Inr (d, db')"
        unfolding fail_in_transaction_def
        by (clarsimp simp: then_q_Inr split: if_splits)
      have same: "same_work mid2 db'" and d: "d = (if requeues f j then Requeued else Exhausted)"
        and out: "requeues f j \<Longrightarrow> \<exists>b. insert_outbox True
          (recovery_outbox_row (recovery_message h l (jr_case j)) (lf_next f) (lf_at f)) mid2 = Inr (b, db')"
        and rel: "\<not> requeues f j \<Longrightarrow> \<exists>n. release_active_job_quota (lease_tenant l) (lease_job l) (lf_at f) mid2 = Inr (n, db')"
        using rest by (auto simp: then_q_Inr split: if_splits dest: insert_outbox_same release_quota_same)
      show ?thesis
      proof (rule update_jobs_Inr [OF up, where k = "(lease_tenant l, lease_job l)"])
        assume "rows = []" "mid = db"
        with up j show ?thesis
          by (auto simp: update_jobs_def update_where_def and_then_Inr_iff filter_empty_conv split: if_splits)
      next
        fix i assume i: "i \<in> set (st_jobs db)" "holds_lease l i" "job_update_ok i (fail_job f j i)"
          "mid = db\<lparr>st_jobs := put_row job_key (fail_job f j i) (st_jobs db)\<rparr>"
        have [simp]: "i = j" using holds_lease_unique [OF assms(2), of l i j] i j by simp
        have "distinct (map case_key (st_cases mid))" "0 \<le> jr_version j"
          using distinct j(1) i(4) by (auto simp: list_all_iff)
        from advance_case_Inr [OF adv this] obtain c c' where
          w: "case_written mid mid2 (lease_tenant l, jr_case j) (jr_version j) c c'" .
        have ck: "(lease_tenant l, jr_case j) = job_case_key j"
          using j(2) by (simp add: holds_lease_def job_case_key_def)
        have "job_move j (fail_job f j j)"
          using j(2) True by (intro job_move.failed) (auto simp: holds_lease_def)
        then have "job_effect db mid2 j (fail_job f j j)"
          using case_written_effect [OF w[unfolded ck]] i by simp
        with that(2) j(2) True d same out rel show ?thesis by metis
      qed (use distinct in \<open>auto dest: holds_lease_key\<close>)
    qed
  qed
qed

lemma fail_lease_Inr:
  assumes "fail_lease h T l f db = Inr (d, db')"
  shows "fail_in_transaction h T l f db = Inr (d, db')" and "job_lease_ok l" and "lf_at f \<le> lf_next f"
    and "lease_acquired l \<le> lf_at f"
  using assms by (auto simp: fail_lease_def then_q_Inr split: if_splits)

lemma complete_in_transaction_Inr:
  assumes "complete_in_transaction l r db = Inr (res, db')" and "keys_distinct db"
    and "job_st (snap_job (rec_snapshot r)) \<in> {Succeeded, Failed}" and "1 \<le> rec_version r"
    and "rec_tenant r = lease_tenant l"
  obtains j where "holds_lease l j" and "jr_cancel_requested j = None"
    and "claims_verified r \<Longrightarrow> has_bundle db (rec_tenant r) (rec_case_id r)"
    and "job_case_key j = (rec_tenant r, rec_case_id r)" and "jr_version j = rec_version r"
    and "job_effect db db' j (finish_job r j)" and "res = r\<lparr>rec_version := rec_version r + 1\<rparr>"
proof -
  note distinct = assms(2)[unfolded keys_distinct_def]
  let ?sel = "\<lambda>row. jr_version row = rec_version r \<and> holds_lease l row \<and>
    jr_case row = rec_case_id r \<and> jr_attempt row = job_attempt (snap_job (rec_snapshot r)) \<and>
    jr_cancel_requested row = None"
  from assms(1) obtain mid mid2 rows n where
    avail: "claims_verified r \<Longrightarrow> has_bundle db (rec_tenant r) (rec_case_id r)"
    and save: "save_case (rec_tenant r) (rec_case_id r) (rec_version r)
      (case_st (snap_case (rec_snapshot r))) (record_domain r) (rec_updated_at r) db = Inr ((), mid)"
    and up: "update_jobs ?sel (finish_job r) mid = Inr (rows, mid2)"
    and rv: "first_version jr_version rows = Inr (rec_version r + 1)"
    and rel: "release_active_job_quota (lease_tenant l) (lease_job l) (rec_updated_at r) mid2 = Inr (n, db')"
    and res: "res = r\<lparr>rec_version := rec_version r + 1\<rparr>"
    unfolding complete_in_transaction_def
    by (fastforce simp: then_q_Inr simp del: not_None_eq split: if_splits)
  have "0 \<le> rec_version r" using assms(4) by simp
  from save_case_Inr [OF save _ this] distinct obtain c c' where
    w: "case_written db mid (rec_tenant r, rec_case_id r) (rec_version r) c c'" by metis
  have jobs_mid: "st_jobs mid = st_jobs db" using w by (simp add: case_written_def)
  show ?thesis
  proof (rule update_jobs_Inr [OF up, where k = "(lease_tenant l, lease_job l)"])
    show "distinct (map job_key (st_jobs mid))" using distinct jobs_mid by simp
  next
    assume "rows = []" with rv assms(4) show ?thesis by (auto simp: first_version_def)
  next
    fix j assume j: "j \<in> set (st_jobs mid)" "?sel j" "job_update_ok j (finish_job r j)"
      "mid2 = mid\<lparr>st_jobs := put_row job_key (finish_job r j) (st_jobs mid)\<rparr>"
    have ck: "job_case_key j = (rec_tenant r, rec_case_id r)"
      using j(2) assms(5) by (simp add: job_case_key_def holds_lease_def)
    have "job_move j (finish_job r j)"
      using j(2) assms(3) by (intro job_move.completed) (auto simp: holds_lease_def)
    with written_case_effect [OF _ j(4) j(1) _ j(3)] w ck j(2)
    have "job_effect db mid2 j (finish_job r j)" by simp
    from job_effect_later [OF this release_quota_same [OF rel]] show ?thesis
      using j(2) avail ck res by (intro that) auto
  qed (auto dest: holds_lease_key)
qed

lemma complete_lease_Inr:
  assumes "complete_lease h T l raw db = Inr (res, db')"
  shows "complete_in_transaction l raw db = Inr (res, db')" and "durable_record_ok h T False raw"
    and "job_st (snap_job (rec_snapshot raw)) \<in> {Succeeded, Failed}" and "rec_tenant raw = lease_tenant l"
    and "1 \<le> rec_version raw" and "rec_job_id raw = lease_job l" and "job_lease_ok l"
  using assms by (auto simp: complete_lease_def then_q_Inr validate_record_def durable_record_ok_def
      Let_def split: if_splits)

lemma cancel_lease_Inr:
  "cancel_lease h T l t db = Inr (res, db') \<Longrightarrow> cancel_lease_in_transaction h T l t db = Inr (res, db')"
  by (auto simp: cancel_lease_def then_q_Inr split: if_splits)

lemma mark_cancellation_Inr:
  assumes "mark_cancellation tenant jid r t db = Inr (res, db')" and "keys_distinct db"
    and "1 \<le> rec_version r" and "j \<in> set (st_jobs db)" and "job_key j = (tenant, jid)"
    and "job_case_key j = (tenant, rec_case_id r)"
  obtains "jr_state j = Running" and "jr_cancel_requested j = None" and "job_effect db db' j (request_job t j)"
proof -
  note distinct = assms(2)[unfolded keys_distinct_def]
  let ?sel = "\<lambda>j. jr_tenant j = tenant \<and> jr_id j = jid \<and> jr_version j = rec_version r \<and>
    jr_state j = Running \<and> jr_cancel_requested j = None"
  from assms(1) obtain mid rows where
    up: "update_jobs ?sel (request_job t) db = Inr (rows, mid)"
    and rv: "first_version jr_version rows = Inr (rec_version r + 1)"
    and adv: "advance_case tenant (rec_case_id r) (rec_version r) t mid = Inr ((), db')"
    unfolding mark_cancellation_def request_job_def [symmetric, abs_def]
    by (fastforce simp: then_q_Inr cancellation_def split: if_splits)
  show ?thesis
  proof (rule update_jobs_Inr [OF up, where k = "(tenant, jid)"])
    assume "rows = []" with rv assms(3) show ?thesis by (auto simp: first_version_def)
  next
    fix i assume i: "i \<in> set (st_jobs db)" "?sel i" "job_update_ok i (request_job t i)"
      "mid = db\<lparr>st_jobs := put_row job_key (request_job t i) (st_jobs db)\<rparr>"
    have [simp]: "i = j"
      using i(1,2) assms(4,5) distinct by (auto simp: job_key_def distinct_map inj_on_def)
    have "distinct (map case_key (st_cases mid))" "0 \<le> rec_version r"
      using distinct i(4) assms(3) by auto
    from advance_case_Inr [OF adv this] obtain c c' where
      w: "case_written mid db' (tenant, rec_case_id r) (rec_version r) c c'" .
    have "job_move j (request_job t j)" using i(2) by (intro job_move.requested) auto
    with case_written_effect [OF _ i(4) i(1) _ i(3)] w assms(6) i(2) that show ?thesis by simp
  qed (use distinct in \<open>auto simp: job_key_def request_job_def\<close>)
qed

lemma cancel_queued_Inr:
  assumes "cancel_queued tenant jid r t db = Inr (res, db')" and "keys_distinct db"
    and "1 \<le> rec_version r" and "j \<in> set (st_jobs db)" and "job_key j = (tenant, jid)"
    and "job_case_key j = (tenant, rec_case_id r)"
  obtains "jr_state j = Queued" and "job_effect db db' j (cancel_waiting t j)"
proof -
  note distinct = assms(2)[unfolded keys_distinct_def]
  let ?sel = "\<lambda>j. jr_tenant j = tenant \<and> jr_id j = jid \<and> jr_version j = rec_version r \<and> jr_state j = Queued"
  from assms(1) obtain cancelled mid mid2 rows n where
    save: "save_case tenant (rec_case_id r) (rec_version r) Cancelled (record_domain cancelled) t db = Inr ((), mid)"
    and up: "update_jobs ?sel (cancel_waiting t) mid = Inr (rows, mid2)"
    and rv: "first_version jr_version rows = Inr (rec_version r + 1)"
    and rel: "release_active_job_quota tenant jid t mid2 = Inr (n, db')"
    unfolding cancel_queued_def cancel_waiting_def [symmetric, abs_def]
    by (fastforce simp: then_q_Inr cancellation_def split: if_splits)
  have "0 \<le> rec_version r" using assms(3) by simp
  from save_case_Inr [OF save _ this] distinct obtain c c' where
    w: "case_written db mid (tenant, rec_case_id r) (rec_version r) c c'" by metis
  have jobs_mid: "st_jobs mid = st_jobs db" using w by (simp add: case_written_def)
  show ?thesis
  proof (rule update_jobs_Inr [OF up, where k = "(tenant, jid)"])
    show "distinct (map job_key (st_jobs mid))" using distinct jobs_mid by simp
  next
    assume "rows = []" with rv assms(3) show ?thesis by (auto simp: first_version_def)
  next
    fix i assume i: "i \<in> set (st_jobs mid)" "?sel i" "job_update_ok i (cancel_waiting t i)"
      "mid2 = mid\<lparr>st_jobs := put_row job_key (cancel_waiting t i) (st_jobs mid)\<rparr>"
    have [simp]: "i = j"
      using i(1,2) assms(4,5) distinct jobs_mid by (auto simp: job_key_def distinct_map inj_on_def)
    have "job_move j (cancel_waiting t j)" using i(2) by (intro job_move.withdrawn) auto
    with written_case_effect [OF _ i(4) i(1) _ i(3)] w assms(6) i(2)
    have "job_effect db mid2 j (cancel_waiting t j)" by simp
    from job_effect_later [OF this release_quota_same [OF rel]] that i(2) show ?thesis by simp
  qed (auto simp: job_key_def cancel_waiting_def)
qed

lemma request_cancellation_outcome:
  assumes "request_cancellation h T scope jid t db = Inr (res, db')" and "keys_distinct db"
  obtains (unknown) "db' = db" and "res = None"
  | (known) j where "db' = db" and "j \<in> set (selected_jobs scope jid db)"
      and "jr_state j = JobCancelled \<or> jr_state j = Running \<and> jr_cancel_requested j \<noteq> None"
  | (running) j where "j \<in> set (selected_jobs scope jid db)" and "jr_state j = Running"
      and "jr_cancel_requested j = None" and "job_effect db db' j (request_job t j)"
  | (queued) j where "j \<in> set (selected_jobs scope jid db)" and "jr_state j = Queued"
      and "job_effect db db' j (cancel_waiting t j)"
proof -
  show ?thesis
  proof (cases "selected_jobs scope jid db")
    case Nil
    with assms(1) unknown show ?thesis
      by (auto simp: request_cancellation_def then_q_Inr split: if_splits)
  next
    case (Cons j js)
    then have sel: "j \<in> set (selected_jobs scope jid db)" by simp
    then have j: "j \<in> set (st_jobs db)" "job_key j = (scope_tenant scope, jid)"
      by (auto simp: job_key_def selected_jobs_def)
    consider (stopped) "jr_state j = JobCancelled \<or> jr_state j = Running \<and> jr_cancel_requested j \<noteq> None"
      | (over) "jr_state j \<noteq> JobCancelled" "jr_state j \<noteq> Queued" "jr_state j \<noteq> Running"
      | (active) "jr_state j = Queued \<or> jr_state j = Running \<and> jr_cancel_requested j = None" by (cases "jr_state j"; cases "jr_cancel_requested j") auto
    then show ?thesis
    proof cases
      case stopped
      moreover from this assms(1) Cons have "db' = db"
        by (auto simp: request_cancellation_def then_q_Inr cancellation_def split: if_splits)
      ultimately show ?thesis using known sel by blast
    next
      case over
      with assms(1) Cons unknown show ?thesis
        by (auto simp: request_cancellation_def then_q_Inr split: if_splits)
    next
      case active
      with assms(1) Cons obtain found mid r where
        find: "find_by_job_id h T scope jid db = Inr (found, mid)"
        and r: "found = Some r" "rec_version r = jr_version j"
        and rest: "(if jr_state j = Running then mark_cancellation (scope_tenant scope) jid r t
            else cancel_queued (scope_tenant scope) jid r t) mid = Inr (res, db')"
        by (fastforce simp: request_cancellation_def then_q_Inr and_then_Inr_iff cancellation_def
            split: if_splits option.splits)
      have [simp]: "mid = db" using find by (rule find_same)
      from find r obtain i c j0 where row: "row_to_record h T (i, c, j0) = Inr r"
        and mem: "(i, c, j0) \<in> set (durable_rows (\<lambda>(i, c, j). scope_of scope (i, c, j) \<and> jr_id j = jid) db)"
        by (auto simp: find_by_job_id_def then_q_Inr find_durable_def and_then_Inr_iff split: list.splits)
      have "j0 = j"
        using mem j assms(2)
        by (auto simp: durable_rows_set keys_distinct_def distinct_map inj_on_def job_key_def scope_of_def)
      then have ck: "job_case_key j = (scope_tenant scope, rec_case_id r)"
        using mem row_to_record_Inr [OF row]
        by (auto simp: durable_rows_set job_case_key_def scope_of_def)
      have v: "1 \<le> rec_version r" using r(2) j(1) assms(2) by (auto simp: keys_distinct_def list_all_iff)
      show ?thesis
      proof (cases "jr_state j = Running")
        case True
        with rest have "mark_cancellation (scope_tenant scope) jid r t db = Inr (res, db')" by simp
        from mark_cancellation_Inr [OF this assms(2) v j ck] running sel show ?thesis by metis
      next
        case False
        with rest have "cancel_queued (scope_tenant scope) jid r t db = Inr (res, db')" by simp
        from cancel_queued_Inr [OF this assms(2) v j ck] queued sel show ?thesis by metis
      qed
    qed
  qed
qed

lemma request_cancellation_Inr:
  assumes "request_cancellation h T scope jid t db = Inr (res, db')" and "keys_distinct db"
  obtains "db' = db"
  | j where "job_key j = (scope_tenant scope, jid)" and "jr_state j = Running"
      and "jr_cancel_requested j = None" and "job_effect db db' j (request_job t j)"
  | j where "job_key j = (scope_tenant scope, jid)" and "jr_state j = Queued"
      and "job_effect db db' j (cancel_waiting t j)"
proof -
  have "job_key j = (scope_tenant scope, jid)" if "j \<in> set (selected_jobs scope jid db)" for j
    using that by (auto simp: job_key_def selected_jobs_def)
  with assms that show ?thesis by (cases rule: request_cancellation_outcome) auto
qed

lemma save_in_transaction_Inr:
  assumes "save_in_transaction r v db = Inr (res, db')" and "keys_distinct db"
    and "1 \<le> v" and "job_case_id (snap_job (rec_snapshot r)) = rec_case_id r"
    and "\<And>j. j \<in> set (st_jobs db) \<Longrightarrow> job_key j = (rec_tenant r, rec_job_id r) \<Longrightarrow> jr_case j = rec_case_id r"
  obtains j where "job_key j = (rec_tenant r, rec_job_id r)" and "jr_state j = Queued"
    and "job_effect db db' j (save_job r j)"
proof -
  note distinct = assms(2)[unfolded keys_distinct_def]
  let ?s = "snap_job (rec_snapshot r)"
  let ?sel = "\<lambda>row. jr_tenant row = rec_tenant r \<and> jr_id row = rec_job_id r \<and> jr_version row = v \<and>
    jr_state row = job_st ?s \<and> jr_phase row = job_phase ?s \<and> jr_attempt row = job_attempt ?s \<and>
    jr_owner row = None"
  from assms(1) have q: "job_st ?s = Queued"
    by (auto simp: save_in_transaction_def Let_def split: if_splits)
  with assms(1) obtain mid rows where
    save: "save_case (rec_tenant r) (rec_case_id r) v (case_st (snap_case (rec_snapshot r)))
      (record_domain r) (rec_updated_at r) db = Inr ((), mid)"
    and up: "update_jobs ?sel (save_job r) mid = Inr (rows, db')"
    and rv: "first_version jr_version rows = Inr (v + 1)"
    unfolding save_in_transaction_def save_job_def Let_def
    by (fastforce simp: then_q_Inr split: if_splits)
  have "0 \<le> v" using assms(3) by simp
  from save_case_Inr [OF save _ this] distinct obtain c c' where
    w: "case_written db mid (rec_tenant r, rec_case_id r) v c c'" by metis
  have jobs_mid: "st_jobs mid = st_jobs db" using w by (simp add: case_written_def)
  show ?thesis
  proof (rule update_jobs_Inr [OF up, where k = "(rec_tenant r, rec_job_id r)"])
    show "distinct (map job_key (st_jobs mid))" using distinct jobs_mid by simp
  next
    assume "rows = []" with rv assms(3) show ?thesis by (auto simp: first_version_def)
  next
    fix j assume j: "j \<in> set (st_jobs mid)" "?sel j" "job_update_ok j (save_job r j)"
      "db' = mid\<lparr>st_jobs := put_row job_key (save_job r j) (st_jobs mid)\<rparr>"
    have k: "job_key j = (rec_tenant r, rec_job_id r)" using j(2) by (simp add: job_key_def)
    have ck: "job_case_key j = (rec_tenant r, rec_case_id r)"
      using assms(5) [OF _ k] j(1,2) jobs_mid by (simp add: job_case_key_def)
    have "job_move j (save_job r j)" using j(2) q by (intro job_move.saved) auto
    with written_case_effect [OF _ j(4) j(1) _ j(3)] w ck j(2)
    have "job_effect db db' j (save_job r j)" by simp
    with that k j(2) q show ?thesis by simp
  qed (auto simp: job_key_def save_job_def Let_def)
qed

lemma reserve_in_transaction_Inr:
  assumes "reserve_in_transaction h T r db = Inr (res, db')"
  obtains old where "res = (False, old)" and "db' = db" and "tenant_active db (rec_tenant r)"
      and "find_by_idempotency_key h T \<lparr>scope_caller = rec_caller r, scope_principal = rec_caller r,
        scope_tenant = rec_tenant r\<rparr> (rec_idempotency_key r) db = Inr (Some old, db)"
  | "res = (True, r)" and "tenant_active db (rec_tenant r)"
      and "case_key (new_case_row r) \<notin> case_key ` set (st_cases db)" and "case_row_ok (new_case_row r)"
      and "job_key (new_job_row r) \<notin> job_key ` set (st_jobs db)" and "job_insert_ok (new_job_row r)"
      and "idempotency_key (new_key_row r) \<notin> idempotency_key ` set (st_keys db)"
      and "idempotency_row_ok (new_key_row r)"
      and "db' = db\<lparr>st_cases := new_case_row r # st_cases db, st_jobs := new_job_row r # st_jobs db,
        st_keys := new_key_row r # st_keys db\<rparr>"
proof -
  from assms obtain found where
    find: "find_by_idempotency_key h T \<lparr>scope_caller = rec_caller r, scope_principal = rec_caller r,
      scope_tenant = rec_tenant r\<rparr> (rec_idempotency_key r) db = Inr (found, db)"
    and act: "tenant_active db (rec_tenant r)"
    and rest: "(case found of Some old \<Rightarrow> return_q (False, old)
      | None \<Rightarrow>
          then_q (insert_case (new_case_row r)) (\<lambda>_.
          then_q (insert_job (new_job_row r)) (\<lambda>_.
          then_q (insert_key (new_key_row r)) (\<lambda>_. return_q (True, r))))) db = Inr (res, db')"
    unfolding reserve_in_transaction_def
    by (clarsimp simp: then_q_Inr split: if_splits) (metis find_same(3))
  show ?thesis
  proof (cases found)
    case (Some old)
    with rest find act that(1) show ?thesis by simp
  next
    case None
    with rest act that(2) show ?thesis
      by (auto simp: then_q_Inr insert_case_def insert_job_def insert_key_def image_iff
          split: if_splits)
  qed
qed

section \<open>Steps of the store\<close>

text \<open>
  One committed change: the effect of an operation on one job, a reserved record whose job is
  fresh, or any change outside jobs, cases and keys, with time moving forward.
\<close>

definition fresh_job :: "durable_record \<Rightarrow> bool" where
  "fresh_job r \<longleftrightarrow>
     job_st (snap_job (rec_snapshot r)) = Queued \<and> job_attempt (snap_job (rec_snapshot r)) = 0"

inductive job_step :: "store \<Rightarrow> store \<Rightarrow> bool" where
  moved: "job_effect db db' j j' \<Longrightarrow> job_step db db'"
| created: "fresh_job r \<Longrightarrow> case_key (new_case_row r) \<notin> case_key ` set (st_cases db)
    \<Longrightarrow> job_key (new_job_row r) \<notin> job_key ` set (st_jobs db) \<Longrightarrow> job_insert_ok (new_job_row r)
    \<Longrightarrow> case_row_ok (new_case_row r)
    \<Longrightarrow> st_cases db' = new_case_row r # st_cases db \<Longrightarrow> st_jobs db' = new_job_row r # st_jobs db
    \<Longrightarrow> job_step db db'"
| other: "st_cases db' = st_cases db \<Longrightarrow> st_jobs db' = st_jobs db \<Longrightarrow> job_step db db'"

definition job_shape :: "job_row \<Rightarrow> bool" where
  "job_shape j \<longleftrightarrow>
     jr_max j = 3 \<and> (jr_state j = Running \<longleftrightarrow> jr_owner j \<noteq> None) \<and>
     (jr_state j = Queued \<longrightarrow> jr_attempt j < 3) \<and> (jr_state j = Running \<longrightarrow> 1 \<le> jr_attempt j)"

definition store_ok :: "store \<Rightarrow> bool" where
  "store_ok db \<longleftrightarrow>
     distinct (map job_key (st_jobs db)) \<and> distinct (map case_key (st_cases db)) \<and>
     distinct (map job_case_key (st_jobs db)) \<and>
     list_all job_row_ok (st_jobs db) \<and> list_all case_row_ok (st_cases db) \<and>
     list_all job_shape (st_jobs db) \<and>
     (\<forall>j \<in> set (st_jobs db). \<exists>c \<in> set (st_cases db).
        case_key c = job_case_key j \<and> cr_version c = jr_version j)"

lemma store_ok_keys: "store_ok db \<Longrightarrow> keys_distinct db"
  by (auto simp: store_ok_def keys_distinct_def list_all_iff job_row_ok_def)

lemma store_ok_empty: "st_jobs db = [] \<Longrightarrow> st_cases db = [] \<Longrightarrow> store_ok db"
  by (simp add: store_ok_def)

lemma job_move_shape: "job_move j j' \<Longrightarrow> job_shape j \<Longrightarrow> job_row_ok j \<Longrightarrow> job_shape j'"
  by (erule job_move.cases)
     (auto simp: job_shape_def job_row_defs claimable_def requeues_def job_row_ok_def Let_def)

lemma put_row_mem:
  assumes "distinct (map key rows)" and "r \<in> set rows" and "key r' = key r" and "s \<in> set rows" and "s \<noteq> r"
  shows "s \<in> set (put_row key r' rows)" and "r' \<in> set (put_row key r' rows)"
  using assms put_row_set [OF assms(1-3)] by auto

lemma put_row_map: "key r' = key r \<Longrightarrow> f r' = f r \<Longrightarrow> r \<in> set rows \<Longrightarrow> distinct (map key rows) \<Longrightarrow>
    map f (put_row key r' rows) = map f rows"
  by (auto simp: put_row_def distinct_map inj_on_def)

lemma job_effect_ok:
  assumes "job_effect db db' j j'" and "store_ok db"
  shows "store_ok db'"
proof -
  from assms(1) obtain c c' where
    j: "j \<in> set (st_jobs db)" "job_move j j'" "job_update_ok j j'"
    and jobs: "st_jobs db' = put_row job_key j' (st_jobs db)"
    and c: "c \<in> set (st_cases db)" "case_key c = job_case_key j" "case_key c' = case_key c"
      "cr_version c = jr_version j" "case_update_ok c c'"
    and cases: "st_cases db' = put_row case_key c' (st_cases db)"
    unfolding job_effect_def by blast
  note ok = assms(2)[unfolded store_ok_def] and keys = job_move_keys [OF j(2)]
  have js: "set (st_jobs db') = insert j' (set (st_jobs db) - {j})"
    unfolding jobs using ok j(1) keys(1) by (intro put_row_set) auto
  have cs: "set (st_cases db') = insert c' (set (st_cases db) - {c})"
    unfolding cases using ok c by (intro put_row_set) auto
  have "job_row_ok j'" "case_row_ok c'" "cr_version c' = jr_version j'"
    using j(3) c keys(4) by (auto simp: job_update_ok_def case_update_ok_def successor_version_def)
  moreover have "job_shape j'" using job_move_shape [OF j(2)] ok j(1) by (auto simp: list_all_iff)
  moreover have "map job_case_key (st_jobs db') = map job_case_key (st_jobs db)"
    unfolding jobs using put_row_map [OF keys(1,2) j(1)] ok by blast
  moreover have "\<exists>k \<in> set (st_cases db'). case_key k = job_case_key i \<and> cr_version k = jr_version i"
    if i: "i \<in> set (st_jobs db')" for i
  proof (cases "i = j'")
    case True
    with c(2,3) keys(2) calculation(3) cs show ?thesis by force
  next
    case False
    then have i: "i \<in> set (st_jobs db)" "i \<noteq> j" using i js by auto
    with ok obtain k where k: "k \<in> set (st_cases db)" "case_key k = job_case_key i" "cr_version k = jr_version i"
      by blast
    have "job_case_key i \<noteq> job_case_key j" using i j(1) ok by (auto simp: distinct_map inj_on_def)
    then have "k \<noteq> c" using k(2) c(2) by auto
    with k cs show ?thesis by auto
  qed
  moreover have "map job_key (st_jobs db') = map job_key (st_jobs db)"
    "map case_key (st_cases db') = map case_key (st_cases db)"
    unfolding jobs cases by simp_all
  ultimately show ?thesis
    using ok js cs unfolding store_ok_def list_all_iff by auto
qed

lemma job_step_ok: "job_step db db' \<Longrightarrow> store_ok db \<Longrightarrow> store_ok db'"
proof (induction rule: job_step.induct)
  case (moved db db' j j')
  then show ?case using job_effect_ok by blast
next
  case (created r db db')
  have k: "case_key (new_case_row r) = job_case_key (new_job_row r)" and v: "cr_version (new_case_row r) = jr_version (new_job_row r)"
    by (simp_all add: new_case_row_def new_job_row_def case_key_def job_case_key_def Let_def)
  have "job_case_key (new_job_row r) \<notin> job_case_key ` set (st_jobs db)"
  proof
    assume "job_case_key (new_job_row r) \<in> job_case_key ` set (st_jobs db)"
    then obtain i where "i \<in> set (st_jobs db)" "job_case_key i = case_key (new_case_row r)" by (auto simp: k)
    with created.prems obtain c where "c \<in> set (st_cases db)" "case_key c = case_key (new_case_row r)"
      by (fastforce simp: store_ok_def)
    with created.hyps(2) show False by (metis image_eqI)
  qed
  moreover have "job_shape (new_job_row r)"
    using created.hyps(1) by (simp add: job_shape_def new_job_row_def fresh_job_def Let_def)
  ultimately show ?case
    using created k v by (auto simp: store_ok_def job_insert_ok_def)
qed (simp add: store_ok_def)

section \<open>Reachable stores\<close>

inductive store_step :: "js_host \<Rightarrow> time_host \<Rightarrow> store \<Rightarrow> store \<Rightarrow> bool" for h T where
  claim: "claim_lease t jid seconds owner tenant db = Inr (x, db') \<Longrightarrow> store_step h T db db'"
| renew: "renew_lease l t expires db = Inr (l', db') \<Longrightarrow> store_step h T db db'"
| release: "release_lease h T l t next_ms db = Inr (u, db') \<Longrightarrow> store_step h T db db'"
| complete: "complete_lease h T l r db = Inr (r', db') \<Longrightarrow> store_step h T db db'"
| fail: "fail_lease h T l f db = Inr (d, db') \<Longrightarrow> store_step h T db db'"
| recover: "recover_expired_leases h T before locked t limit db = Inr (s, db') \<Longrightarrow> store_step h T db db'"
| request: "request_cancellation h T scope jid t db = Inr (c, db') \<Longrightarrow> store_step h T db db'"
| cancel: "cancel_lease h T l t db = Inr (r, db') \<Longrightarrow> store_step h T db db'"
| reserve: "reserve h T r db = Inr (x, db') \<Longrightarrow> fresh_job r \<Longrightarrow> store_step h T db db'"
| save: "save_record h T r v db = Inr (r', db') \<Longrightarrow> has_job db (rec_tenant r) (rec_case_id r) (rec_job_id r)
    \<Longrightarrow> store_step h T db db'"
| elsewhere: "st_jobs db' = st_jobs db \<Longrightarrow> st_cases db' = st_cases db \<Longrightarrow> st_keys db' = st_keys db
    \<Longrightarrow> store_step h T db db'"

inductive reachable_store :: "js_host \<Rightarrow> time_host \<Rightarrow> store \<Rightarrow> bool" for h T where
  empty: "st_jobs db = [] \<Longrightarrow> st_cases db = [] \<Longrightarrow> st_keys db = [] \<Longrightarrow> reachable_store h T db"
| step: "reachable_store h T db \<Longrightarrow> store_step h T db db' \<Longrightarrow> reachable_store h T db'"

abbreviation later_store :: "js_host \<Rightarrow> time_host \<Rightarrow> store \<Rightarrow> store \<Rightarrow> bool" where
  "later_store h T \<equiv> (store_step h T)\<^sup>*\<^sup>*"

abbreviation job_steps :: "store \<Rightarrow> store \<Rightarrow> bool" where
  "job_steps \<equiv> job_step\<^sup>*\<^sup>*"

lemma same_work_step: "same_work db db' \<Longrightarrow> job_step db db'"
  by (intro job_step.other) (auto simp: same_work_def)

lemma job_steps_ok: "job_steps db db' \<Longrightarrow> store_ok db \<Longrightarrow> store_ok db'"
  by (induction rule: rtranclp_induct) (auto intro: job_step_ok)

lemma fail_lease_steps:
  assumes "fail_lease h T l f db = Inr (d, db')" and "store_ok db"
  shows "job_steps db db'"
  using fail_in_transaction_Inr [OF fail_lease_Inr(1) [OF assms(1)] store_ok_keys [OF assms(2)]]
  by (metis job_step.moved same_work_step r_into_rtranclp rtranclp.rtrancl_into_rtrancl)

lemma recover_row_steps:
  assumes "recover_row h T t j db = Inr (d, db')" and "store_ok db"
  shows "job_steps db db'"
proof -
  from assms(1) obtain l f mid where "fail_lease h T l f db = Inr (d, mid)"
    and audit: "append_audit (recovery_audit h t l d) mid = Inr ((), db')"
    by (auto simp: recover_row_def then_q_Inr)
  from fail_lease_steps [OF this(1) assms(2)] same_work_step [OF append_audit_same [OF audit]]
  show ?thesis by simp
qed

lemma recover_rows_steps:
  "recover_rows h T t js s db = Inr (s', db') \<Longrightarrow> store_ok db \<Longrightarrow> job_steps db db'"
proof (induction js arbitrary: s db)
  case (Cons j js)
  then obtain d mid where "recover_row h T t j db = Inr (d, mid)"
    and rest: "recover_rows h T t js (count_disposition d s) mid = Inr (s', db')"
    by (auto simp: then_q_Inr)
  from recover_row_steps [OF this(1) Cons.prems(2)] have mid: "job_steps db mid" .
  with Cons.IH [OF rest] job_steps_ok [OF mid Cons.prems(2)] show ?case by simp
qed simp

text \<open>A job belongs to one case only.\<close>

lemma has_job_case:
  assumes "has_job db tenant cid jid" and "keys_distinct db" and "j \<in> set (st_jobs db)"
    and "job_key j = (tenant, jid)"
  shows "jr_case j = cid"
  using assms by (auto simp: has_job_def list_ex_iff keys_distinct_def distinct_map inj_on_def job_key_def)

lemma store_step_steps:
  assumes "store_step h T db db'" and "store_ok db"
  shows "job_steps db db'"
  using assms(1)
proof cases
  case (claim t jid seconds owner tenant x)
  from claim_lease_Inr [OF this store_ok_keys [OF assms(2)]] show ?thesis
    by (metis job_step.moved r_into_rtranclp rtranclp.rtrancl_refl)
next
  case (renew l t expires l')
  from renew_lease_Inr [OF this store_ok_keys [OF assms(2)]] show ?thesis
    by (metis job_step.moved r_into_rtranclp)
next
  case (release l t next_ms u)
  then obtain f d where "fail_lease h T l f db = Inr (d, db')"
    by (auto simp: release_lease_def then_q_Inr)
  from fail_lease_steps [OF this assms(2)] show ?thesis .
next
  case (complete l r r')
  note c = complete_lease_Inr [OF this]
  from complete_in_transaction_Inr [OF c(1) store_ok_keys [OF assms(2)] c(3,5,4)] show ?thesis
    by (metis job_step.moved r_into_rtranclp)
next
  case (fail l f d)
  from fail_lease_steps [OF this assms(2)] show ?thesis .
next
  case (recover before locked t limit s)
  then show ?thesis
    by (auto simp: recover_expired_leases_def then_q_Inr split: if_splits intro: recover_rows_steps assms(2))
next
  case (request scope jid t c)
  from request_cancellation_Inr [OF this store_ok_keys [OF assms(2)]] show ?thesis
    by (metis job_step.moved r_into_rtranclp rtranclp.rtrancl_refl)
next
  case (cancel l t r)
  from cancel_lease_in_transaction_Inr [OF cancel_lease_Inr [OF this] store_ok_keys [OF assms(2)]]
  show ?thesis by (metis job_step.moved r_into_rtranclp)
next
  case (reserve r x)
  then have "reserve_in_transaction h T r db = Inr (x, db')"
    by (auto simp: reserve_def then_q_Inr validate_record_def)
  from reserve_in_transaction_Inr [OF this] show ?thesis
  proof cases
    case 2
    then show ?thesis
      using reserve(2) by (intro r_into_rtranclp job_step.created [where r = r]) simp_all
  qed simp
next
  case (save r v r')
  then have "save_in_transaction r v db = Inr (r', db')" "1 \<le> v"
      "job_case_id (snap_job (rec_snapshot r)) = rec_case_id r"
    by (auto simp: save_record_def then_q_Inr validate_record_def durable_record_ok_def Let_def split: if_splits)
  from save_in_transaction_Inr [OF this(1) store_ok_keys [OF assms(2)] this(2,3)]
    has_job_case [OF save(2) store_ok_keys [OF assms(2)]]
  show ?thesis by (metis job_step.moved r_into_rtranclp)
next
  case elsewhere
  then show ?thesis by (intro r_into_rtranclp job_step.other) auto
qed

lemma reachable_store_ok: "reachable_store h T db \<Longrightarrow> store_ok db"
  by (induction rule: reachable_store.induct)
     (auto intro: store_ok_empty dest: store_step_steps job_steps_ok)

lemma later_store_steps: "later_store h T db db' \<Longrightarrow> store_ok db \<Longrightarrow> job_steps db db' \<and> store_ok db'"
  by (induction rule: rtranclp_induct) (auto dest: store_step_steps job_steps_ok intro: rtranclp_trans)

lemma reachable_later: "later_store h T db db' \<Longrightarrow> reachable_store h T db \<Longrightarrow> reachable_store h T db'"
  by (induction rule: rtranclp_induct) (auto intro: reachable_store.step)

end
