(* ===== verification/Outbox.thy ===== *)
theory Outbox
  imports Leases
begin

text \<open>
  The transactional outbox: \<open>PostgresOutbox\<close> of
  src/src/infrastructure/postgres/repositories.ts and the publisher of
  src/src/application/outbox-publisher.ts. An event is appended with the change that it
  reports, claimed by a publisher for some seconds, sent to the queue, and then delivered,
  tried again later, or dead.
\<close>

section \<open>The operations of the outbox\<close>

record outbox_claim =
  clm_claimed :: int
  clm_expires :: int
  clm_owner :: string
  clm_attempt :: int
  clm_message :: queue_message
  clm_version :: int

text \<open>A new row: pending, with \<open>CURRENT_TIMESTAMP\<close> for the three times.\<close>

definition append_outbox :: "queue_message \<Rightarrow> unit query" where
  "append_outbox raw =
     then_q (lift_q (parse_as queue_message_ok StoredSchema raw)) (\<lambda>m.
     then_q (read_q st_now) (\<lambda>now.
     then_q (insert_outbox False (recovery_outbox_row m now now)) (\<lambda>_. return_q ())))"

definition outbox_due :: "int \<Rightarrow> outbox_row \<Rightarrow> bool" where
  "outbox_due at_ms e \<longleftrightarrow>
     or_status e = OutPending \<and> or_next e \<le> at_ms \<or>
     or_status e = OutSending \<and> (case or_claim_expires e of None \<Rightarrow> False | Some t \<Rightarrow> t \<le> at_ms)"

text \<open>
  \<open>ORDER BY next_attempt_at, created_at, tenant_id, id\<close>; \<open>before\<close> is the collation of the
  database, \<open>locked\<close> are the rows that \<open>SKIP LOCKED\<close> leaves out.
\<close>

definition attempt_earlier ::
  "(string \<Rightarrow> string \<Rightarrow> bool) \<Rightarrow> outbox_row \<Rightarrow> outbox_row \<Rightarrow> bool" where
  "attempt_earlier before d e \<longleftrightarrow>
     or_next d < or_next e \<or> or_next d = or_next e \<and>
       (or_created d < or_created e \<or> or_created d = or_created e \<and>
         (if or_tenant d = or_tenant e then before (or_id d) (or_id e)
          else before (or_tenant d) (or_tenant e)))"

definition claim_candidates ::
  "(string \<Rightarrow> string \<Rightarrow> bool) \<Rightarrow> (outbox_row \<Rightarrow> bool) \<Rightarrow> int \<Rightarrow> nat \<Rightarrow> store \<Rightarrow> outbox_row list" where
  "claim_candidates before locked at_ms limit db =
     take limit (sort_by (attempt_earlier before)
       (filter (\<lambda>e. outbox_due at_ms e \<and> \<not> locked e) (st_outbox db)))"

definition claim_event :: "int \<Rightarrow> int \<Rightarrow> string \<Rightarrow> outbox_row \<Rightarrow> outbox_row" where
  "claim_event at_ms expires owner e =
     e\<lparr>or_status := OutSending, or_claim_owner := Some owner, or_claim_expires := Some expires,
       or_deliveries := or_deliveries e + 1, or_error := None, or_updated := at_ms,
       or_version := or_version e + 1\<rparr>"

definition row_claim :: "int \<Rightarrow> int \<Rightarrow> string \<Rightarrow> outbox_row \<Rightarrow> store_error + outbox_claim" where
  "row_claim at_ms expires owner e =
     and_then (stored_integer (or_deliveries e)) (\<lambda>attempt.
     and_then (parse_as queue_message_ok StoredSchema (or_message e)) (\<lambda>m.
     and_then (stored_integer (or_version e)) (\<lambda>version.
       Inr \<lparr>clm_claimed = at_ms, clm_expires = expires, clm_owner = owner, clm_attempt = attempt,
         clm_message = m, clm_version = version\<rparr>)))"

definition claim_pending ::
  "(string \<Rightarrow> string \<Rightarrow> bool) \<Rightarrow> (outbox_row \<Rightarrow> bool) \<Rightarrow> int \<Rightarrow> int \<Rightarrow> int \<Rightarrow> string
     \<Rightarrow> outbox_claim list query" where
  "claim_pending before locked at_ms seconds limit owner =
     (if \<not> date_range at_ms \<or> seconds < 1 \<or> 3600 < seconds \<or> limit < 1 \<or> 1000 < limit \<or>
         \<not> opaque_id owner
      then return_q []
      else
        then_q (lift_q (to_iso StoredDateRange (at_ms + seconds * 1000))) (\<lambda>expires.
        then_q (read_q (claim_candidates before locked at_ms (nat limit))) (\<lambda>candidates.
        then_q (update_outbox
            (\<lambda>e. List.member (map outbox_key candidates) (outbox_key e))
            (claim_event at_ms expires owner)) (\<lambda>rows.
          lift_q (collect (row_claim at_ms expires owner) rows)))))"

text \<open>The row condition that settling a claim repeats.\<close>

definition holds_claim :: "outbox_claim \<Rightarrow> outbox_row \<Rightarrow> bool" where
  "holds_claim c e \<longleftrightarrow>
     or_tenant e = msg_tenant (clm_message c) \<and> or_id e = msg_event_id (clm_message c) \<and>
     or_status e = OutSending \<and> or_claim_owner e = Some (clm_owner c) \<and>
     or_claim_expires e = Some (clm_expires c) \<and> or_deliveries e = clm_attempt c \<and>
     or_version e = clm_version c"

definition deliver_event :: "int \<Rightarrow> string option \<Rightarrow> outbox_row \<Rightarrow> outbox_row" where
  "deliver_event at_ms provider e =
     e\<lparr>or_status := OutDelivered, or_delivered := Some at_ms, or_provider := provider,
       or_claim_owner := None, or_claim_expires := None, or_error := None, or_updated := at_ms,
       or_version := or_version e + 1\<rparr>"

definition mark_delivered :: "outbox_claim \<Rightarrow> int \<Rightarrow> string option \<Rightarrow> bool query" where
  "mark_delivered c at_ms provider =
     (if \<not> date_range at_ms \<or> at_ms < clm_claimed c \<or> \<not> pred_option (len_in 1 512) provider
      then return_q False
      else
        then_q (update_outbox (holds_claim c) (deliver_event at_ms provider)) (\<lambda>rows.
          return_q (length rows = 1)))"

datatype failure_disposition = DispDead | DispLost | DispRetry

record delivery_failure =
  df_code :: string
  df_failed :: int
  df_max :: int
  df_next :: int

definition fail_event :: "delivery_failure \<Rightarrow> outbox_row \<Rightarrow> outbox_row" where
  "fail_event f e =
     e\<lparr>or_status := (if df_max f \<le> or_deliveries e then OutDead else OutPending),
       or_next := df_next f, or_error := Some (df_code f), or_claim_owner := None,
       or_claim_expires := None, or_updated := df_failed f, or_version := or_version e + 1\<rparr>"

definition record_failure :: "outbox_claim \<Rightarrow> delivery_failure \<Rightarrow> failure_disposition query" where
  "record_failure c f =
     (if \<not> date_range (df_failed f) \<or> \<not> date_range (df_next f) \<or> df_failed f < clm_claimed c \<or>
         df_next f < df_failed f \<or> df_max f < 1 \<or> 32 < df_max f \<or> \<not> failure_code_ok (df_code f)
      then return_q DispLost
      else
        then_q (update_outbox (holds_claim c) (fail_event f)) (\<lambda>rows.
          return_q (case rows of
              [] \<Rightarrow> DispLost
            | e # _ \<Rightarrow>
                (case or_status e of OutDead \<Rightarrow> DispDead | OutPending \<Rightarrow> DispRetry | _ \<Rightarrow> DispLost))))"

section \<open>The publisher\<close>

record publisher =
  pub_claim_seconds :: int
  pub_max_attempts :: int
  pub_batch :: int
  pub_owner :: string

definition publisher_ok :: "publisher \<Rightarrow> bool" where
  "publisher_ok p \<longleftrightarrow>
     1 \<le> pub_claim_seconds p \<and> pub_claim_seconds p \<le> 3600 \<and>
     1 \<le> pub_max_attempts p \<and> pub_max_attempts p \<le> 32 \<and> 1 \<le> pub_batch p \<and> pub_batch p \<le> 1000"

definition delay_seconds :: "int \<Rightarrow> int" where
  "delay_seconds attempt = min 300 (5 * 2 ^ nat (max 0 (attempt - 1)))"

record publish_summary =
  pub_claimed :: nat
  pub_conflicted :: nat
  pub_dead :: nat
  pub_delivered :: nat
  pub_retried :: nat

text \<open>
  What the publisher meets: the clock, the queue, and the store as other transactions leave
  it before the publisher's next call. The \<open>k\<close>-th claim of the batch reads the clock at
  \<open>2 * k\<close> before \<open>markDelivered\<close> and at \<open>2 * k + 1\<close> in the \<open>catch\<close>, and \<open>others\<close> likewise.
\<close>

record publisher_world =
  pw_clock :: "nat \<Rightarrow> int"
  pw_send :: "nat \<Rightarrow> queue_message \<Rightarrow> unit + string option"
  pw_others :: "nat \<Rightarrow> store \<Rightarrow> store"

definition publish_failure :: "publisher \<Rightarrow> publisher_world \<Rightarrow> nat \<Rightarrow> outbox_claim \<Rightarrow> failure_disposition query" where
  "publish_failure p w k c db =
     (let failed = pw_clock w (2 * k + 1) in
      then_q (lift_q (to_iso StoredDateRange failed)) (\<lambda>failed_at.
      then_q (lift_q (to_iso StoredDateRange (failed + delay_seconds (clm_attempt c) * 1000))) (\<lambda>next_at.
        record_failure c \<lparr>df_code = ''QUEUE_PUBLISH_FAILED'', df_failed = failed_at,
          df_max = pub_max_attempts p, df_next = next_at\<rparr>)) (pw_others w (2 * k + 1) db))"

definition publish_attempt :: "publisher_world \<Rightarrow> nat \<Rightarrow> outbox_claim \<Rightarrow> store \<Rightarrow> (unit + bool) \<times> store" where
  "publish_attempt w k c db =
     (case pw_send w k (clm_message c) of
        Inl _ \<Rightarrow> (Inl (), db)
      | Inr provider \<Rightarrow>
          let mid = pw_others w (2 * k) db in
          (case then_q (lift_q (to_iso StoredDateRange (pw_clock w (2 * k))))
              (\<lambda>at_ms. mark_delivered c at_ms provider) mid of
             Inl _ \<Rightarrow> (Inl (), mid)
           | Inr (delivered, db') \<Rightarrow> (Inr delivered, db')))"

fun count_failure :: "failure_disposition \<Rightarrow> publish_summary \<Rightarrow> publish_summary" where
  "count_failure DispDead s = s\<lparr>pub_dead := pub_dead s + 1\<rparr>"
| "count_failure DispRetry s = s\<lparr>pub_retried := pub_retried s + 1\<rparr>"
| "count_failure DispLost s = s\<lparr>pub_conflicted := pub_conflicted s + 1\<rparr>"

definition count_delivery :: "bool \<Rightarrow> publish_summary \<Rightarrow> publish_summary" where
  "count_delivery delivered s =
     (if delivered then s\<lparr>pub_delivered := pub_delivered s + 1\<rparr>
      else s\<lparr>pub_conflicted := pub_conflicted s + 1\<rparr>)"

fun publish_claims ::
  "publisher \<Rightarrow> publisher_world \<Rightarrow> nat \<Rightarrow> outbox_claim list \<Rightarrow> publish_summary \<Rightarrow> publish_summary query" where
  "publish_claims p w k [] s db = Inr (s, db)"
| "publish_claims p w k (c # cs) s db =
     (case publish_attempt w k c db of
        (Inr delivered, db') \<Rightarrow> publish_claims p w (Suc k) cs (count_delivery delivered s) db'
      | (Inl _, db') \<Rightarrow>
          and_then (publish_failure p w k c db') (\<lambda>(d, db'').
            publish_claims p w (Suc k) cs (count_failure d s) db''))"

definition publish_batch ::
  "publisher \<Rightarrow> publisher_world \<Rightarrow> (string \<Rightarrow> string \<Rightarrow> bool) \<Rightarrow> (outbox_row \<Rightarrow> bool) \<Rightarrow> int
     \<Rightarrow> publish_summary query" where
  "publish_batch p w before locked claimed_at =
     then_q (lift_q (to_iso StoredDateRange claimed_at)) (\<lambda>at_ms.
     then_q (claim_pending before locked at_ms (pub_claim_seconds p) (pub_batch p) (pub_owner p)) (\<lambda>claims.
       publish_claims p w 0 claims
         \<lparr>pub_claimed = length claims, pub_conflicted = 0, pub_dead = 0, pub_delivered = 0,
          pub_retried = 0\<rparr>))"

end
