(* ===== verification/Observers.thy ===== *)
theory Observers
  imports Leases
begin

text \<open>
  What the operations of the durable repository do to the rest of the store. An observer is a
  reflexive and transitive relation that every statement of the repository respects; then
  every operation respects it. The outbox and the quota ledger each give one.
\<close>

definition query_within :: "(store \<Rightarrow> store \<Rightarrow> bool) \<Rightarrow> 'a query \<Rightarrow> bool" where
  "query_within R m \<longleftrightarrow> (\<forall>db x db'. m db = Inr (x, db') \<longrightarrow> R db db')"

named_theorems within "intro rules for queries that respect a relation"

lemma within_D: "query_within R m \<Longrightarrow> m db = Inr (x, db') \<Longrightarrow> R db db'"
  by (auto simp: query_within_def)

lemma within_if [within]:
  "query_within R m \<Longrightarrow> query_within R n \<Longrightarrow> query_within R (if b then m else n)"
  by simp

lemma within_option [within]:
  "query_within R m \<Longrightarrow> (\<And>x. query_within R (f x)) \<Longrightarrow>
     query_within R (case v of None \<Rightarrow> m | Some x \<Rightarrow> f x)"
  by (cases v) auto

lemma within_list [within]:
  "query_within R m \<Longrightarrow> (\<And>x xs. query_within R (f x xs)) \<Longrightarrow>
     query_within R (case v of [] \<Rightarrow> m | x # xs \<Rightarrow> f x xs)"
  by (cases v) auto

lemma within_Let [within]: "(\<And>x. query_within R (f x)) \<Longrightarrow> query_within R (let x = v in f x)"
  by simp

lemma within_throw [within]: "query_within R (throw_q e)"
  by (simp add: query_within_def)

locale table_observer =
  fixes R :: "store \<Rightarrow> store \<Rightarrow> bool"
  assumes stay: "R db db"
    and follow: "R db mid \<Longrightarrow> R mid db' \<Longrightarrow> R db db'"
    and job_rows: "R db (db\<lparr>st_jobs := jobs\<rparr>)"
    and case_rows: "R db (db\<lparr>st_cases := cases\<rparr>)"
    and key_rows: "R db (db\<lparr>st_keys := key # st_keys db\<rparr>)"
    and audit_rows: "R db (db\<lparr>st_audit := events\<rparr>)"
    and quota_release: "release_active_job_quota tenant jid t db = Inr (n, db') \<Longrightarrow> R db db'"
    and recovery_event: "insert_outbox True (recovery_outbox_row m next_ms t) db = Inr (b, db') \<Longrightarrow> R db db'"
begin

lemma within_then [within]:
  "query_within R m \<Longrightarrow> (\<And>x. query_within R (f x)) \<Longrightarrow> query_within R (then_q m f)"
  unfolding query_within_def then_q_Inr by (metis follow)

lemma within_pure [within]:
  "query_within R (return_q x)" "query_within R (lift_q r)" "query_within R (read_q g)"
  by (auto simp: query_within_def stay)

lemma within_rows [within]:
  "query_within R (update_jobs sel upd)" "query_within R (update_cases csel cupd)"
  "query_within R (insert_case c)" "query_within R (insert_job j)" "query_within R (insert_key i)"
  "query_within R (insert_audit e)"
  by (auto simp: query_within_def update_jobs_def update_cases_def insert_case_def insert_job_def
      insert_key_def insert_audit_def and_then_Inr_iff job_rows case_rows key_rows audit_rows
      split: if_splits)

lemma within_effects [within]:
  "query_within R (release_active_job_quota tenant jid t)"
  "query_within R (insert_outbox True (recovery_outbox_row m next_ms t))"
  by (auto simp: query_within_def intro: quota_release recovery_event)

lemma within_find [within]: "query_within R (find_durable h T cond)"
  by (auto simp: query_within_def stay dest: find_durable_same)

lemma within_finds [within]:
  "query_within R (find_by_lease h T l)" "query_within R (find_by_job_id h T s jid)"
  "query_within R (find_by_case_id h T s cid)" "query_within R (find_by_idempotency_key h T s k)"
  "query_within R (is_cancellation_requested l)"
  by (simp_all add: find_by_lease_def find_by_job_id_def find_by_case_id_def
      find_by_idempotency_key_def is_cancellation_requested_def within)

lemma within_case [within]:
  "query_within R (advance_case tenant cid v t)" "query_within R (save_case tenant cid v st doma t)"
  by (simp_all add: advance_case_def save_case_def within)

lemma within_leases [within]:
  "query_within R (claim_lease t jid seconds owner tenant)" "query_within R (renew_lease l t expires)"
  "query_within R (complete_lease h T l r)" "query_within R (cancel_lease h T l t)"
  "query_within R (fail_lease h T l f)" "query_within R (release_lease h T l t next_ms)"
proof -
  have cancel: "query_within R (cancel_lease_in_transaction h T l t)" for l t
    unfolding cancel_lease_in_transaction_def by (intro within)
  have fail: "query_within R (fail_lease h T l f)" for l f
    unfolding fail_lease_def fail_in_transaction_def by (intro within cancel)
  show "query_within R (fail_lease h T l f)" by (rule fail)
  show "query_within R (release_lease h T l t next_ms)"
    unfolding release_lease_def by (intro within fail)
  show "query_within R (cancel_lease h T l t)"
    unfolding cancel_lease_def by (intro within cancel)
  show "query_within R (claim_lease t jid seconds owner tenant)" "query_within R (renew_lease l t expires)"
    unfolding claim_lease_def renew_lease_def by (intro within)+
  show "query_within R (complete_lease h T l r)"
    unfolding complete_lease_def complete_in_transaction_def by (intro within)
qed

lemma within_records [within]:
  "query_within R (reserve h T r)" "query_within R (save_record h T r v)"
  "query_within R (request_cancellation h T scope jid t)" "query_within R (append_audit e)"
proof -
  show "query_within R (reserve h T r)"
    unfolding reserve_def reserve_in_transaction_def by (intro within)
  show "query_within R (save_record h T r v)"
    unfolding save_record_def save_in_transaction_def by (intro within)
  show "query_within R (request_cancellation h T scope jid t)"
    unfolding request_cancellation_def cancellation_def mark_cancellation_def cancel_queued_def
    by (intro within)
  show "query_within R (append_audit e)" unfolding append_audit_def by (intro within)
qed

lemma within_recovery [within]: "query_within R (recover_expired_leases h T before locked t limit)"
proof -
  have row: "query_within R (recover_row h T t j)" for j
    unfolding recover_row_def by (intro within)
  have "query_within R (recover_rows h T t js s)" for js s
    by (induction js arbitrary: s) (auto intro!: within row)
  then show ?thesis unfolding recover_expired_leases_def by (intro within)
qed

end

end
