(* ===== verification/Fencing.thy ===== *)
theory Fencing
  imports Leases
begin

text \<open>
  What the job table promises: its invariant, the lease machine that it refines, fencing of
  stale leases, finality of terminal jobs and of requested cancellations, the bound on
  attempts, and that an abandoned job is always taken up again or failed.
\<close>

section \<open>Following one job\<close>

lemma job_step_follow:
  assumes "job_step db db'" and "store_ok db" and "j \<in> set (st_jobs db)"
  obtains "j \<in> set (st_jobs db')"
  | j' where "j' \<in> set (st_jobs db')" and "job_move j j'" and "job_row_ok j'"
  using assms(1)
proof cases
  case (moved i i')
  then have i: "i \<in> set (st_jobs db)" "job_move i i'" "job_update_ok i i'"
    and jobs: "st_jobs db' = put_row job_key i' (st_jobs db)" by (auto simp: job_effect_def)
  have d: "distinct (map job_key (st_jobs db))" using assms(2) by (simp add: store_ok_def)
  note mem = put_row_set [OF d i(1) job_move_keys(1) [OF i(2)]]
  show ?thesis
  proof (cases "j = i")
    case True
    with that(2) [of i'] i mem show ?thesis by (simp add: jobs job_update_ok_def)
  next
    case False
    with that(1) assms(3) mem show ?thesis by (simp add: jobs)
  qed
next
  case (created r)
  with that(1) assms(3) show ?thesis by simp
next
  case other
  with that(1) assms(3) show ?thesis by simp
qed

text \<open>A property of rows that every move keeps is kept by every later store.\<close>

lemma job_steps_keep:
  assumes "job_steps db db'" and "store_ok db" and "j \<in> set (st_jobs db)" and "P j"
    and keep: "\<And>i i'. job_move i i' \<Longrightarrow> job_row_ok i \<Longrightarrow> job_shape i \<Longrightarrow> job_row_ok i' \<Longrightarrow> P i \<Longrightarrow> P i'"
  shows "\<exists>j' \<in> set (st_jobs db'). job_key j' = job_key j \<and> P j'"
  using assms(1)
proof (induction rule: rtranclp_induct)
  case base
  with assms(3,4) show ?case by blast
next
  case (step mid db')
  then obtain i where i: "i \<in> set (st_jobs mid)" "job_key i = job_key j" "P i" by blast
  have ok: "store_ok mid" using job_steps_ok [OF step.hyps(1) assms(2)] .
  from step.hyps(2) ok i(1) show ?case
  proof (cases rule: job_step_follow)
    case 1
    with i show ?thesis by blast
  next
    case (2 i')
    moreover have "job_row_ok i" "job_shape i" using ok i(1) by (auto simp: store_ok_def list_all_iff)
    ultimately have "P i'" "job_key i' = job_key i" using keep i(3) job_move_keys(1) by blast+
    with 2(1) i(2) show ?thesis by auto
  qed
qed

lemma store_ok_unique:
  "store_ok db \<Longrightarrow> i \<in> set (st_jobs db) \<Longrightarrow> j \<in> set (st_jobs db) \<Longrightarrow> job_key i = job_key j \<Longrightarrow> i = j"
  by (auto simp: store_ok_def distinct_map inj_on_def)

section \<open>Terminal jobs\<close>

abbreviation terminal_job :: "job_row \<Rightarrow> bool" where
  "terminal_job j \<equiv> jr_state j \<in> {Succeeded, Failed, JobCancelled}"

lemma terminal_no_move: "job_move j j' \<Longrightarrow> \<not> terminal_job j"
  by (erule job_move.cases) (auto simp: claimable_def)

lemma terminal_stays:
  assumes "job_steps db db'" and "store_ok db" and "j \<in> set (st_jobs db)" and "terminal_job j"
  shows "j \<in> set (st_jobs db')"
proof -
  have "\<exists>j' \<in> set (st_jobs db'). job_key j' = job_key j \<and> j' = j"
    using assms(1-3) by (rule job_steps_keep [where P = "\<lambda>i. i = j"]) (use terminal_no_move assms(4) in auto)
  then show ?thesis by blast
qed

text \<open>
  A job row that has reached SUCCEEDED, FAILED or CANCELLED is never changed again, by any
  operation of the repository and any number of them.
\<close>

theorem terminal_job_is_immutable:
  assumes "reachable_store h T db" and "later_store h T db db'" and "j \<in> set (st_jobs db)"
    and "jr_state j \<in> {Succeeded, Failed, JobCancelled}"
  shows "j \<in> set (st_jobs db')"
  using terminal_stays later_store_steps [OF assms(2)] reachable_store_ok [OF assms(1)] assms(3,4) by blast

section \<open>Requested cancellations\<close>

definition cancel_pending :: "job_row \<Rightarrow> bool" where
  "cancel_pending j \<longleftrightarrow>
     jr_cancel_requested j \<noteq> None \<and> jr_state j \<in> {Running, JobCancelled}"

lemma cancel_pending_move: "job_move j j' \<Longrightarrow> cancel_pending j \<Longrightarrow> cancel_pending j'"
  by (erule job_move.cases) (auto simp: cancel_pending_def job_row_defs claimable_def Let_def)

text \<open>
  C23. Once a running job's cancellation is requested, the job stays running with the request or
  is CANCELLED: no later completion, failure, expiry, retry or claim makes it succeed, fail
  or queue again.
\<close>

theorem requested_cancellation_wins:
  assumes "reachable_store h T db" and "later_store h T db db'" and "j \<in> set (st_jobs db)"
    and "jr_state j = Running" and "jr_cancel_requested j \<noteq> None"
  shows "\<exists>j' \<in> set (st_jobs db'). job_key j' = job_key j \<and> jr_cancel_requested j' \<noteq> None \<and>
    (jr_state j' = Running \<or> jr_state j' = JobCancelled)"
proof -
  have "\<exists>j' \<in> set (st_jobs db'). job_key j' = job_key j \<and> cancel_pending j'"
    using later_store_steps [OF assms(2) reachable_store_ok [OF assms(1)]] reachable_store_ok [OF assms(1)] assms(3)
    by (intro job_steps_keep) (use assms(4,5) cancel_pending_move in \<open>auto simp: cancel_pending_def\<close>)
  then show ?thesis by (auto simp: cancel_pending_def)
qed

section \<open>Fencing\<close>

text \<open>The lease was lost: the job went on to another attempt, state or expiry.\<close>

definition lease_lost :: "job_lease \<Rightarrow> job_row \<Rightarrow> bool" where
  "lease_lost l j \<longleftrightarrow>
     jr_tenant j = lease_tenant l \<and> jr_id j = lease_job l \<and>
     (lease_attempt l < jr_attempt j \<or>
      lease_attempt l = jr_attempt j \<and>
        (jr_state j \<noteq> Running \<or> (\<exists>t. jr_expires j = Some t \<and> lease_expires l < t)))"

lemma lease_lost_move: "job_move j j' \<Longrightarrow> lease_lost l j \<Longrightarrow> job_row_ok j' \<Longrightarrow> lease_lost l j'"
  by (erule job_move.cases) (auto simp: lease_lost_def job_row_defs Let_def)

lemma lease_lost_not_held: "lease_lost l j \<Longrightarrow> \<not> holds_lease l j"
  by (auto simp: lease_lost_def holds_lease_def)

lemma lost_lease_unheld:
  assumes "store_ok db" and "j \<in> set (st_jobs db)" and "lease_lost l j" and "i \<in> set (st_jobs db)"
  shows "\<not> holds_lease l i"
  using store_ok_unique [OF assms(1,4,2)] lease_lost_not_held [OF assms(3)] assms(3)
  by (auto simp: lease_lost_def holds_lease_def job_key_def)

lemma lost_lease_is_fenced:
  assumes ok: "store_ok db" and j: "j \<in> set (st_jobs db)" "lease_lost l j"
  shows "\<nexists>x. renew_lease l t expires db = Inr x" and "\<nexists>x. complete_lease h T l r db = Inr x"
    and "\<nexists>x. fail_lease h T l f db = Inr x" and "\<nexists>x. cancel_lease h T l t db = Inr x"
    and "\<nexists>x. release_lease h T l t next_ms db = Inr x"
proof -
  note none = lost_lease_unheld [OF ok j] and keys = store_ok_keys [OF ok]
  have fail: "\<nexists>x. fail_lease h T l f db = Inr x" for f
  proof
    assume "\<exists>x. fail_lease h T l f db = Inr x"
    then obtain d db' where "fail_lease h T l f db = Inr (d, db')" by auto
    from fail_in_transaction_Inr [OF fail_lease_Inr(1) [OF this] keys] none show False
      by (metis job_effect_def)
  qed
  show "\<nexists>x. renew_lease l t expires db = Inr x"
  proof
    assume "\<exists>x. renew_lease l t expires db = Inr x"
    then obtain x db' where "renew_lease l t expires db = Inr (x, db')" by auto
    from renew_lease_Inr [OF this keys] obtain i where i: "i \<in> set (st_jobs db)"
      "jr_tenant i = lease_tenant l" "jr_id i = lease_job l" "jr_attempt i = lease_attempt l"
      "jr_state i = Running" "jr_expires i = Some (lease_expires l)"
      by (auto simp: job_effect_def)
    then have "i = j" using j ok by (intro store_ok_unique) (auto simp: lease_lost_def job_key_def)
    with i j(2) show False by (auto simp: lease_lost_def)
  qed
  show "\<nexists>x. complete_lease h T l r db = Inr x"
  proof
    assume "\<exists>x. complete_lease h T l r db = Inr x"
    then obtain x db' where c: "complete_lease h T l r db = Inr (x, db')" by auto
    note c = complete_lease_Inr [OF c]
    from complete_in_transaction_Inr [OF c(1) keys c(3,5,4)] none show False
      by (metis job_effect_def)
  qed
  show "\<nexists>x. fail_lease h T l f db = Inr x" by (rule fail)
  show "\<nexists>x. cancel_lease h T l t db = Inr x"
  proof
    assume "\<exists>x. cancel_lease h T l t db = Inr x"
    then obtain x db' where "cancel_lease h T l t db = Inr (x, db')" by auto
    from cancel_lease_in_transaction_Inr [OF cancel_lease_Inr [OF this] keys] none show False
      by (metis job_effect_def)
  qed
  show "\<nexists>x. release_lease h T l t next_ms db = Inr x"
    using fail by (auto simp: release_lease_def then_q_Inr)
qed

lemma claim_holds:
  assumes "claim_lease t jid seconds owner tenant db = Inr (Some l, db')" and "store_ok db"
  obtains j j' where "j \<in> set (st_jobs db)" and "j' \<in> set (st_jobs db')" and "job_key j = (tenant, jid)"
    and "job_key j' = (tenant, jid)" and "lease_attempt l = jr_attempt j + 1" and "holds_lease l j'"
    and "lease_tenant l = tenant" and "lease_job l = jid"
  using assms(1) store_ok_keys [OF assms(2)]
proof (cases rule: claim_lease_Inr)
  case (2 j)
  let ?j' = "take_lease t (t + seconds * 1000) owner j"
  have j: "j \<in> set (st_jobs db)" "st_jobs db' = put_row job_key ?j' (st_jobs db)"
    using 2(7) by (auto simp: job_effect_def)
  have "?j' \<in> set (st_jobs db')"
    using put_row_set [of job_key, OF _ j(1), of ?j'] assms(2) j(2) by (simp add: store_ok_def)
  moreover have "job_key j = (tenant, jid)" by (rule claimable_key [OF 2(4)])
  moreover have "holds_lease l ?j'"
    using 2(1,4) by (auto simp: holds_lease_def take_lease_def claimable_def)
  ultimately show ?thesis using that [of j ?j'] j(1) 2(1) by simp
qed simp

lemma attempt_grows:
  assumes "job_steps db db'" and "store_ok db" and "j \<in> set (st_jobs db)"
  shows "\<exists>j' \<in> set (st_jobs db'). job_key j' = job_key j \<and> jr_attempt j \<le> jr_attempt j'"
  using assms
  by (intro job_steps_keep) (auto elim!: job_move.cases simp: job_row_defs Let_def)

lemma newer_claim_loses_older:
  assumes ok: "store_ok db0" and c1: "claim_lease t1 jid s1 o1 tenant db0 = Inr (Some l1, db1)"
    and steps: "job_steps db1 db2" and c2: "claim_lease t2 jid s2 o2 tenant db2 = Inr (Some l2, db3)"
  shows "lease_attempt l1 < lease_attempt l2" and "\<exists>j \<in> set (st_jobs db3). lease_lost l1 j"
    and "store_ok db3"
proof -
  have step1: "store_step h T db0 db1" and step2: "store_step h T db2 db3" for h T
    using c1 c2 by (auto intro: store_step.claim)
  have ok1: "store_ok db1" using store_step_steps [OF step1 ok] job_steps_ok ok by blast
  have ok2: "store_ok db2" using job_steps_ok [OF steps ok1] .
  show ok3: "store_ok db3" using store_step_steps [OF step2 ok2] job_steps_ok ok2 by blast
  from claim_holds [OF c1 ok] obtain j1 where j1: "j1 \<in> set (st_jobs db1)" "job_key j1 = (tenant, jid)"
    "holds_lease l1 j1" "lease_tenant l1 = tenant" "lease_job l1 = jid" by blast
  from attempt_grows [OF steps ok1 j1(1)] obtain i where i: "i \<in> set (st_jobs db2)"
    "job_key i = (tenant, jid)" "lease_attempt l1 \<le> jr_attempt i"
    using j1 by (auto simp: holds_lease_def)
  from claim_holds [OF c2 ok2] obtain j2 j3 where j2: "j2 \<in> set (st_jobs db2)" "j3 \<in> set (st_jobs db3)"
    "job_key j2 = (tenant, jid)" "job_key j3 = (tenant, jid)" "lease_attempt l2 = jr_attempt j2 + 1"
    "holds_lease l2 j3" by blast
  have "j2 = i" using store_ok_unique [OF ok2 j2(1) i(1)] j2(3) i(2) by simp
  then show less: "lease_attempt l1 < lease_attempt l2" using i(3) j2(5) by simp
  show "\<exists>j \<in> set (st_jobs db3). lease_lost l1 j"
    using j2(2,4,6) less j1(4,5) by (auto simp: lease_lost_def holds_lease_def job_key_def)
qed

lemma lease_lost_stays:
  assumes "job_steps db db'" and "store_ok db" and "j \<in> set (st_jobs db)" and "lease_lost l j"
  shows "\<exists>j' \<in> set (st_jobs db'). lease_lost l j'"
  using job_steps_keep [OF assms(1-3), of "lease_lost l"] assms(4) lease_lost_move by blast

lemma not_Inr: "(\<nexists>x. r = Inr x) \<longleftrightarrow> (\<exists>e. r = Inl e)"
  by (cases r) auto

text \<open>
  C4. Once another worker has claimed a job, the older lease is worthless for ever: whatever
  happens in between and afterwards, every renewal, completion, failure, release and
  cancellation with it is refused. Attempts strictly grow and never exceed three.
\<close>

theorem newer_claim_fences_older:
  assumes "reachable_store h T db0"
    and "claim_lease t1 jid s1 owner1 tenant db0 = Inr (Some l1, db1)" and "later_store h T db1 db2"
    and "claim_lease t2 jid s2 owner2 tenant db2 = Inr (Some l2, db3)" and "later_store h T db3 db4"
  shows "lease_attempt l1 < lease_attempt l2 \<and> lease_attempt l2 \<le> 3 \<and>
    (\<exists>e. renew_lease l1 t expires db4 = Inl e) \<and> (\<exists>e. complete_lease h T l1 r db4 = Inl e) \<and>
    (\<exists>e. fail_lease h T l1 f db4 = Inl e) \<and> (\<exists>e. release_lease h T l1 t next_ms db4 = Inl e) \<and>
    (\<exists>e. cancel_lease h T l1 t db4 = Inl e)"
proof -
  have ok0: "store_ok db0" using reachable_store_ok assms(1) by blast
  have ok1: "store_ok db1"
    using store_step_steps [OF store_step.claim [OF assms(2)] ok0] job_steps_ok ok0 by blast
  have s12: "job_steps db1 db2" using later_store_steps [OF assms(3) ok1] by blast
  note new = newer_claim_loses_older [OF ok0 assms(2) s12 assms(4)]
  from new(2) obtain j where j: "j \<in> set (st_jobs db3)" "lease_lost l1 j" by blast
  have s34: "job_steps db3 db4" "store_ok db4" using later_store_steps [OF assms(5) new(3)] by auto
  from lease_lost_stays [OF s34(1) new(3) j] obtain j' where j': "j' \<in> set (st_jobs db4)" "lease_lost l1 j'"
    by blast
  have "store_ok db2" using job_steps_ok [OF s12 ok1] .
  from claim_holds [OF assms(4) this] obtain k where "k \<in> set (st_jobs db3)" "holds_lease l2 k" by metis
  then have "lease_attempt l2 \<le> 3"
    using new(3) by (auto simp: holds_lease_def store_ok_def list_all_iff job_row_ok_def job_shape_def)
  with new(1) lost_lease_is_fenced [OF s34(2) j'] show ?thesis
    unfolding not_Inr by blast
qed

section \<open>The lease machine\<close>

datatype lease_phase = Waiting nat | Leased nat bool | Finished job_state

fun lease_moves :: "lease_phase \<Rightarrow> lease_phase list" where
  "lease_moves (Waiting a) = (if a < 3 then [Leased (a + 1) False] else []) @ [Finished JobCancelled]"
| "lease_moves (Leased a False) =
     (if a < 3 then [Leased (a + 1) False, Waiting a] else []) @
     [Leased a True, Finished Succeeded, Finished Failed]"
| "lease_moves (Leased a True) = (if a < 3 then [Leased (a + 1) True] else []) @ [Finished JobCancelled]"
| "lease_moves (Finished s) = []"

fun lease_rank :: "lease_phase \<Rightarrow> nat" where
  "lease_rank (Waiting a) = 3 * (3 - a) + 1"
| "lease_rank (Leased a requested) = 3 * (3 - a) + (if requested then 2 else 3)"
| "lease_rank (Finished s) = 0"

interpretation lease_table: transition_table lease_moves lease_rank
proof
  fix s t
  assume "t \<in> set (lease_moves s)"
  then show "lease_rank t < lease_rank s"
    by (cases s rule: lease_moves.cases) (auto split: if_splits)
qed

definition lease_phase_of :: "job_row \<Rightarrow> lease_phase" where
  "lease_phase_of j =
     (case jr_state j of
        Queued \<Rightarrow> Waiting (nat (jr_attempt j))
      | Running \<Rightarrow> Leased (nat (jr_attempt j)) (jr_cancel_requested j \<noteq> None)
      | s \<Rightarrow> Finished s)"

lemma job_move_phase:
  assumes "job_move j j'" and "job_row_ok j" and "job_shape j"
  shows "lease_phase_of j' = lease_phase_of j \<or> lease_phase_of j' \<in> set (lease_moves (lease_phase_of j))"
  using assms(1)
proof cases
  case (claimed t tenant jid expires owner)
  then show ?thesis using assms(2,3)
    by (cases "jr_cancel_requested j")
       (auto simp: lease_phase_of_def take_lease_def claimable_def job_row_ok_def job_shape_def
          cancellation_shape_def nat_add_distrib split: if_splits)
next
  case (failed f)
  then show ?thesis using assms(2,3)
    by (auto simp: lease_phase_of_def fail_job_def clear_lease_def Let_def requeues_def job_shape_def
        job_row_ok_def)
next
  case (completed r)
  then show ?thesis by (auto simp: lease_phase_of_def finish_job_def Let_def)
next
  case (saved r)
  then show ?thesis by (simp add: lease_phase_of_def save_job_def Let_def)
next
  case (cancelled t)
  then obtain u where "jr_cancel_requested j = Some u" by auto
  with cancelled show ?thesis by (simp add: lease_phase_of_def cancel_running_def)
next
  case (renewed old expires t)
  then show ?thesis by (simp add: lease_phase_of_def renew_job_def)
next
  case (requested t)
  then show ?thesis by (simp add: lease_phase_of_def request_job_def)
next
  case (withdrawn t)
  then show ?thesis by (simp add: lease_phase_of_def cancel_waiting_def)
qed

lemma legal_path_append:
  "legal_path allowed s (p @ q) \<longleftrightarrow> legal_path allowed s p \<and> legal_path allowed (last (s # p)) q"
  by (induction p arbitrary: s) auto

definition phase_path :: "lease_phase \<Rightarrow> lease_phase \<Rightarrow> bool" where
  "phase_path s t \<longleftrightarrow> (\<exists>path. legal_path lease_moves s path \<and> last (s # path) = t)"

lemma phase_path_refl: "phase_path s s"
  unfolding phase_path_def by (rule exI [of _ "[]"]) simp

lemma phase_path_move: "phase_path s t \<Longrightarrow> u = t \<or> u \<in> set (lease_moves t) \<Longrightarrow> phase_path s u"
proof -
  assume "phase_path s t" and u: "u = t \<or> u \<in> set (lease_moves t)"
  then obtain path where p: "legal_path lease_moves s path" "last (s # path) = t"
    by (auto simp: phase_path_def)
  show "phase_path s u"
  proof (cases "u = t")
    case True
    show ?thesis unfolding phase_path_def True by (intro exI [of _ path] conjI p)
  next
    case False
    then have "legal_path lease_moves s (path @ [u])" using p u by (simp add: legal_path_snoc)
    then show ?thesis unfolding phase_path_def by (intro exI [of _ "path @ [u]"]) simp
  qed
qed

lemma phase_path_steps:
  assumes "job_steps db db'" and "store_ok db" and "j \<in> set (st_jobs db)" and "phase_path s (lease_phase_of j)"
  shows "\<exists>j' \<in> set (st_jobs db'). job_key j' = job_key j \<and> phase_path s (lease_phase_of j')"
  using assms(1-3) by (rule job_steps_keep) (use assms(4) job_move_phase phase_path_move in blast)+

lemma new_job_phase: "fresh_job r \<Longrightarrow> lease_phase_of (new_job_row r) = Waiting 0"
  by (simp add: lease_phase_of_def new_job_row_def fresh_job_def Let_def)

lemma job_step_origin:
  assumes "job_step db db'" and "store_ok db" and "j' \<in> set (st_jobs db')"
    and "\<And>j. j \<in> set (st_jobs db) \<Longrightarrow> phase_path (Waiting 0) (lease_phase_of j)"
  shows "phase_path (Waiting 0) (lease_phase_of j')"
  using assms(1)
proof cases
  case (moved i i')
  then have i: "i \<in> set (st_jobs db)" "job_move i i'" and jobs: "st_jobs db' = put_row job_key i' (st_jobs db)"
    by (auto simp: job_effect_def)
  have "j' = i' \<or> j' \<in> set (st_jobs db)" using assms(3) by (auto simp: jobs put_row_def split: if_splits)
  moreover have "phase_path (Waiting 0) (lease_phase_of i')"
    using phase_path_move [OF assms(4) [OF i(1)]] job_move_phase [OF i(2)] assms(2) i(1)
    by (auto simp: store_ok_def list_all_iff)
  ultimately show ?thesis using assms(4) by blast
next
  case (created r)
  then show ?thesis using assms(3,4) new_job_phase phase_path_refl by auto
next
  case other
  then show ?thesis using assms(3,4) by simp
qed

lemma reachable_phase:
  assumes "reachable_store h T db" and "j \<in> set (st_jobs db)"
  shows "phase_path (Waiting 0) (lease_phase_of j)"
proof -
  have "\<forall>j \<in> set (st_jobs db). phase_path (Waiting 0) (lease_phase_of j)"
    using assms(1)
  proof (induction rule: reachable_store.induct)
    case (step db db')
    have ok: "store_ok db" using reachable_store_ok [OF step.hyps(1)] .
    from store_step_steps [OF step.hyps(2) ok] show ?case
    proof (induction rule: rtranclp_induct)
      case base
      show ?case by (rule step.IH)
    next
      case (step mid db')
      then show ?case using job_step_origin job_steps_ok [OF _ ok] by metis
    qed
  qed simp
  with assms(2) show ?thesis by blast
qed


section \<open>Operations that must succeed\<close>

lemma stored_integer_safe [simp]: "safe_int v \<Longrightarrow> stored_integer v = Inr v"
  by simp

lemma update_where_total:
  assumes "distinct (map key rows)" and "r \<in> set rows" and "sel r" and "legal r (upd r)"
    and "\<And>s. sel s \<Longrightarrow> key s = key r" and "\<And>s. key (upd s) = key s"
  shows "update_where sel upd legal rows = Inr ([upd r], put_row key (upd r) rows)"
proof -
  have uniq: "s = r" if "s \<in> set rows" "sel s" for s
    using assms(1,2,5) that by (auto simp: distinct_map inj_on_def)
  then have "\<not> list_ex (\<lambda>s. sel s \<and> \<not> legal s (upd s)) rows"
    using assms(4) by (auto simp: list_ex_iff)
  then obtain out rows' where u: "update_where sel upd legal rows = Inr (out, rows')"
    by (auto simp: update_where_def)
  from update_where_key [where key = key and k = "key r", OF u assms(1) assms(5,6)]
  obtain s where "s \<in> set rows" "sel s" "out = [upd s]" "rows' = put_row key (upd s) rows"
    using assms(2,3) by blast
  with uniq u show ?thesis by metis
qed

lemma update_jobs_total:
  assumes "store_ok db" and "j \<in> set (st_jobs db)" and "sel j" and "job_update_ok j (upd j)"
    and "\<And>i. sel i \<Longrightarrow> job_key i = job_key j" and "\<And>i. job_key (upd i) = job_key i"
  shows "update_jobs sel upd db =
    Inr ([upd j], db\<lparr>st_jobs := put_row job_key (upd j) (st_jobs db)\<rparr>)"
proof -
  have "distinct (map job_key (st_jobs db))" using assms(1) by (simp add: store_ok_def)
  then have "update_where sel upd job_update_ok (st_jobs db) =
      Inr ([upd j], put_row job_key (upd j) (st_jobs db))"
    by (rule update_where_total) (fact assms)+
  then show ?thesis by (simp add: update_jobs_def)
qed

lemma advance_case_total:
  assumes "distinct (map case_key (st_cases db))" and "c \<in> set (st_cases db)"
    and "case_key c = (tenant, cid)" and "cr_version c = v" and "case_row_ok c" and "cr_updated c \<le> t"
    and "safe_int (v + 1)"
  shows "advance_case tenant cid v t db =
    Inr ((), db\<lparr>st_cases := put_row case_key (c\<lparr>cr_version := v + 1, cr_updated := t\<rparr>) (st_cases db)\<rparr>)"
proof -
  let ?upd = "\<lambda>c. c\<lparr>cr_version := cr_version c + 1, cr_updated := t\<rparr>"
  have "update_where (\<lambda>c. cr_tenant c = tenant \<and> cr_id c = cid \<and> cr_version c = v) ?upd case_update_ok (st_cases db) =
      Inr ([?upd c], put_row case_key (?upd c) (st_cases db))"
    using assms by (intro update_where_total)
      (auto simp: case_key_def case_update_ok_def successor_version_def case_row_ok_def)
  then show ?thesis
    using assms(4,7) by (simp add: advance_case_def then_q_def update_cases_def first_version_def
        lift_q_def return_q_def)
qed

text \<open>
  The clock is not behind the store, and no version has left the safe integers.
\<close>

definition clock_ahead :: "store \<Rightarrow> int \<Rightarrow> bool" where
  "clock_ahead db t \<longleftrightarrow>
     valid_instant t \<and>
     list_all (\<lambda>j. jr_updated j \<le> t \<and> safe_int (jr_version j + 1)) (st_jobs db) \<and>
     list_all (\<lambda>c. cr_updated c \<le> t) (st_cases db) \<and>
     list_all (\<lambda>q. quota_row_ok q \<and> qr_created q \<le> t) (st_quota db)"

lemma safe_attempt: "job_row_ok j \<Longrightarrow> job_shape j \<Longrightarrow> safe_int (jr_attempt j) \<and> safe_int (jr_max j)"
  by (auto simp: job_row_ok_def job_shape_def safe_int_def max_safe_integer_def)

lemma safe_int_pred: "safe_int (v + 1) \<Longrightarrow> 1 \<le> v \<Longrightarrow> safe_int v"
  by (simp add: safe_int_def max_safe_integer_def)

lemma job_of_store:
  assumes "store_ok db" and "j \<in> set (st_jobs db)" and "clock_ahead db t"
  obtains c where "c \<in> set (st_cases db)" and "case_key c = job_case_key j"
    and "cr_version c = jr_version j" and "case_row_ok c" and "cr_updated c \<le> t" and "job_row_ok j" and "job_shape j"
    and "jr_updated j \<le> t" and "safe_int (jr_version j + 1)" and "1 \<le> jr_version j"
  using assms by (fastforce simp: store_ok_def clock_ahead_def list_all_iff job_row_ok_def)

lemma claim_lease_total:
  assumes ok: "store_ok db" and j: "j \<in> set (st_jobs db)" "claimable t tenant jid j"
    and clock: "clock_ahead db t" and active: "tenant_active db tenant"
    and secs: "1 \<le> seconds" "seconds \<le> 3600" and e: "valid_instant (t + seconds * 1000)"
    and ids: "opaque_id tenant" "opaque_id owner"
  obtains db' where "claim_lease t jid seconds owner tenant db =
    Inr (Some \<lparr>lease_acquired = t, lease_attempt = jr_attempt j + 1, lease_expires = t + seconds * 1000,
      lease_job = jid, lease_owner = owner, lease_tenant = tenant\<rparr>, db')"
proof -
  let ?e = "t + seconds * 1000"
  from job_of_store [OF ok j(1) clock] obtain c where c: "c \<in> set (st_cases db)"
    "case_key c = job_case_key j" "cr_version c = jr_version j" "case_row_ok c" "cr_updated c \<le> t"
    and jok: "job_row_ok j" "job_shape j" "jr_updated j \<le> t" "safe_int (jr_version j + 1)" by metis
  have t: "date_range t" "date_range ?e" "valid_instant t"
    using clock e valid_instant_date_range by (auto simp: clock_ahead_def)
  have att: "0 \<le> jr_attempt j" "jr_attempt j < 3" "safe_int (jr_attempt j + 1)"
    using jok j(2) by (auto simp: job_row_ok_def job_shape_def claimable_def safe_int_def max_safe_integer_def)
  have jid: "opaque_id jid" "jr_tenant j = tenant" using j(2) jok(1) by (auto simp: claimable_def job_row_ok_def)
  have "job_update_ok j (take_lease t ?e owner j)"
    using j(2) jok secs by (auto simp: job_update_ok_def successor_version_def job_transition_ok_def
        take_lease_def job_row_ok_def claimable_def lease_complete_def failure_shape_def cancellation_shape_def)
  then have up: "update_jobs (claimable t tenant jid) (take_lease t ?e owner) db =
      Inr ([take_lease t ?e owner j],
        db\<lparr>st_jobs := put_row job_key (take_lease t ?e owner j) (st_jobs db)\<rparr>)"
    using j claimable_key by (intro update_jobs_total [OF ok j(1)]) auto
  obtain mid where adv: "advance_case tenant (jr_case j) (jr_version j) t
      (db\<lparr>st_jobs := put_row job_key (take_lease t ?e owner j) (st_jobs db)\<rparr>) = Inr ((), mid)"
    using advance_case_total [where v = "jr_version j"] c jok ok jid
    by (fastforce simp: store_ok_def job_case_key_def)
  show ?thesis
    using that t secs active up adv jok(4) att ids jid e
    by (simp add: claim_lease_def then_q_def lift_q_def read_q_def return_q_def take_lease_def
        stored_integer_def job_lease_ok_def)
qed

lemma row_lease_holds:
  assumes "row_lease j = Inr l" and "job_row_ok j" and "jr_state j = Running"
  shows "holds_lease l j" and "job_lease_ok l"
proof -
  from assms(1) obtain owner where o: "jr_owner j = Some owner" "job_lease_ok l"
    and l: "l = \<lparr>lease_acquired = (case jr_acquired j of None \<Rightarrow> 0 | Some t \<Rightarrow> t), lease_attempt = jr_attempt j,
      lease_expires = (case jr_expires j of None \<Rightarrow> 0 | Some t \<Rightarrow> t), lease_job = jr_id j,
      lease_owner = owner, lease_tenant = jr_tenant j\<rparr>"
    by (auto simp: row_lease_def and_then_Inr_iff stored_timestamp_def split: option.splits)
  from o assms(2) obtain a e where "jr_acquired j = Some a" "jr_expires j = Some e"
    by (auto simp: job_row_ok_def lease_complete_def split: option.splits)
  with o l assms(3) show "holds_lease l j" "job_lease_ok l" by (auto simp: holds_lease_def)
qed

lemma released_quota:
  assumes "release_active_job_quota tenant jid t db = Inr (n, db')" and "q \<in> set (st_quota db')"
  shows "\<not> (qr_tenant q = tenant \<and> qr_job q = jid \<and> qr_resource q = ActiveJobs \<and> qr_state q = QuotaReserved)"
proof -
  let ?sel = "\<lambda>q. qr_tenant q = tenant \<and> qr_job q = jid \<and> qr_resource q = ActiveJobs \<and>
    qr_state q = QuotaReserved"
  let ?upd = "\<lambda>q. q\<lparr>qr_state := QuotaReleased, qr_updated := t\<rparr>"
  have "st_quota db' = map (\<lambda>q. if ?sel q then ?upd q else q) (st_quota db)"
    using assms(1) by (auto simp: release_active_job_quota_def then_q_Inr update_quota_def update_where_def
        and_then_Inr_iff split: if_splits)
  with assms(2) have "q \<in> (\<lambda>q. if ?sel q then ?upd q else q) ` set (st_quota db)" by (simp only: set_map)
  then obtain p where "q = (if ?sel p then ?upd p else p)" by (rule imageE)
  then show ?thesis by (cases "?sel p") auto
qed

lemma release_quota_total:
  assumes "list_all (\<lambda>q. quota_row_ok q \<and> qr_created q \<le> t) (st_quota db)"
  obtains n db' where "release_active_job_quota tenant jid t db = Inr (n, db')"
proof -
  let ?sel = "\<lambda>q. qr_tenant q = tenant \<and> qr_job q = jid \<and> qr_resource q = ActiveJobs \<and>
    qr_state q = QuotaReserved"
  let ?upd = "\<lambda>q. q\<lparr>qr_state := QuotaReleased, qr_updated := t\<rparr>"
  have "\<not> list_ex (\<lambda>q. ?sel q \<and> \<not> quota_row_ok (?upd q)) (st_quota db)"
    using assms by (auto simp: list_ex_iff list_all_iff quota_row_ok_def)
  then have "release_active_job_quota tenant jid t db =
      Inr (length (filter ?sel (st_quota db)), db\<lparr>st_quota := map (\<lambda>q. if ?sel q then ?upd q else q) (st_quota db)\<rparr>)"
    by (simp add: release_active_job_quota_def then_q_def update_quota_def update_where_def return_q_def)
  then show ?thesis by (rule that)
qed

lemma insert_outbox_total:
  assumes "outbox_row_ok e" and "has_job db (or_tenant e) (msg_case_id (or_message e)) (msg_job_id (or_message e))"
  obtains b db' where "insert_outbox True e db = Inr (b, db')" and "outbox_key e \<in> outbox_key ` set (st_outbox db')"
proof (cases "outbox_key e \<in> outbox_key ` set (st_outbox db)")
  case True
  with assms that [of False db] show ?thesis by (simp add: insert_outbox_def)
next
  case False
  with assms that [of True "db\<lparr>st_outbox := e # st_outbox db\<rparr>"] show ?thesis by (simp add: insert_outbox_def)
qed

lemma hex_opaque:
  assumes "sha256_string s"
  shows "length s = 64" and "list_all (\<lambda>c. alnum_char c \<or> List.member ''._:-'' c) s"
proof -
  show "length s = 64" using assms by (simp add: sha256_string_def hex_string_def)
  have "alnum_char c" if "hex_char c" for c
    using that by (auto simp: hex_char_def alnum_char_def digit_char_def lower_char_def)
  then show "list_all (\<lambda>c. alnum_char c \<or> List.member ''._:-'' c) s"
    using assms by (simp add: sha256_string_def hex_string_def list_all_iff)
qed

lemma recovery_id_opaque:
  assumes "\<And>x. sha256_string (sha256_hex h x)"
  shows "opaque_id (recovery_event_id h tenant jid attempt)"
proof -
  let ?d = "recovery_digest h tenant jid attempt"
  have d: "length ?d = 40" "list_all (\<lambda>c. alnum_char c \<or> List.member ''._:-'' c) ?d"
    using hex_opaque [OF assms] by (auto simp: recovery_digest_def list_all_iff dest: in_set_takeD)
  have "list_all (\<lambda>c. alnum_char c \<or> List.member ''._:-'' c) ''recovery_''" "alnum_char (CHR ''r'')"
    by (simp_all add: alnum_char_def digit_char_def lower_char_def upper_char_def code_unit_def)
  then show ?thesis
    using d by (simp add: recovery_event_id_def opaque_id_def identifier_ok_def len_in_def)
qed

lemma fail_job_update_ok:
  assumes "job_row_ok j" and "job_shape j" and "jr_state j = Running" and "jr_cancel_requested j = None"
    and "jr_updated j \<le> lf_at f" and "failure_code_ok (lf_code f)"
  shows "job_update_ok j (fail_job f j j)"
proof -
  have "failure_code_ok ''JOB_RETRY_EXHAUSTED''"
    by (simp add: failure_code_ok_def len_in_def upper_char_def code_unit_def)
  then show ?thesis
    using assms by (auto simp: job_update_ok_def successor_version_def job_transition_ok_def fail_job_def
        clear_lease_def Let_def job_row_ok_def lease_complete_def failure_shape_def cancellation_shape_def
        len_in_def)
qed

definition expiry_failure :: "int \<Rightarrow> lease_failure" where
  "expiry_failure t = \<lparr>lf_at = t, lf_code = ''LEASE_EXPIRED'', lf_next = t, lf_retryable = True\<rparr>"

lemma expiry_code: "failure_code_ok ''LEASE_EXPIRED''"
  by (simp add: failure_code_ok_def len_in_def upper_char_def code_unit_def)

lemma fail_expired_total:
  assumes ok: "store_ok db" and j: "j \<in> set (st_jobs db)" "jr_state j = Running" "jr_cancel_requested j = None"
    and l: "row_lease j = Inr l" and t: "lease_acquired l \<le> t" and clock: "clock_ahead db t"
    and hex: "\<And>x. sha256_string (sha256_hex h x)"
  obtains d db' where "fail_lease h T l (expiry_failure t) db = Inr (d, db')"
proof -
  let ?f = "expiry_failure t" and ?j' = "fail_job (expiry_failure t) j j"
  from job_of_store [OF ok j(1) clock] obtain c where c: "c \<in> set (st_cases db)"
    "case_key c = job_case_key j" "cr_version c = jr_version j" "case_row_ok c" "cr_updated c \<le> t"
    and jok: "job_row_ok j" "job_shape j" "jr_updated j \<le> t" "safe_int (jr_version j + 1)"
    "1 \<le> jr_version j" by metis
  note held = row_lease_holds [OF l jok(1) j(2)]
  have lt: "lease_tenant l = jr_tenant j" "lease_job l = jr_id j" using held(1) by (auto simp: holds_lease_def)
  have "filter (holds_lease l) (st_jobs db) \<noteq> []" using held(1) j(1) by (auto simp: filter_empty_conv)
  then obtain i js where f: "filter (holds_lease l) (st_jobs db) = i # js"
    by (auto simp: neq_Nil_conv)
  then have "i = j" using held(1) j(1) holds_lease_unique [OF store_ok_keys [OF ok], of l i j]
    by (auto simp: filter_eq_Cons_iff)
  with f have f: "filter (holds_lease l) (st_jobs db) = j # js" by simp
  have "job_update_ok j ?j'"
    using fail_job_update_ok [OF jok(1,2) j(2,3)] jok(3) expiry_code by (simp add: expiry_failure_def)
  then have up: "update_jobs (holds_lease l) (fail_job ?f j) db =
      Inr ([?j'], db\<lparr>st_jobs := put_row job_key ?j' (st_jobs db)\<rparr>)"
    using holds_lease_key held(1) by (intro update_jobs_total [OF ok j(1)]) auto
  let ?c' = "c\<lparr>cr_version := jr_version j + 1, cr_updated := t\<rparr>"
  let ?mid = "db\<lparr>st_jobs := put_row job_key ?j' (st_jobs db), st_cases := put_row case_key ?c' (st_cases db)\<rparr>"
  have adv: "advance_case (jr_tenant j) (jr_case j) (jr_version j) t
      (db\<lparr>st_jobs := put_row job_key ?j' (st_jobs db)\<rparr>) = Inr ((), ?mid)"
    by (subst advance_case_total [where c = c]) (use c jok ok in \<open>auto simp: store_ok_def job_case_key_def\<close>)
  have v: "jr_version ?j' = jr_version j + 1" by (simp add: fail_job_def Let_def clear_lease_def)
  obtain d db' where rest: "(if requeues ?f j
      then then_q (lift_q (parse_as queue_message_ok StoredSchema (recovery_message h l (jr_case j))))
        (\<lambda>m. then_q (insert_outbox True (recovery_outbox_row m t t)) (\<lambda>_. return_q Requeued))
      else then_q (release_active_job_quota (jr_tenant j) (jr_id j) t) (\<lambda>_. return_q Exhausted)) ?mid
      = Inr (d, db')"
  proof (cases "requeues ?f j")
    case False
    have "list_all (\<lambda>q. quota_row_ok q \<and> qr_created q \<le> t) (st_quota ?mid)"
      using clock by (simp add: clock_ahead_def)
    from release_quota_total [OF this, of "jr_tenant j" "jr_id j"] obtain n db' where
      "release_active_job_quota (jr_tenant j) (jr_id j) t ?mid = Inr (n, db')" by blast
    then have "then_q (release_active_job_quota (jr_tenant j) (jr_id j) t) (\<lambda>_. return_q Exhausted) ?mid =
        Inr (Exhausted, db')"
      by (simp only: then_q_def return_q_def and_then_simps prod.case)
    with False that [of Exhausted db'] show ?thesis by (simp only: if_False)
  next
    case True
    let ?m = "recovery_message h l (jr_case j)"
    have m: "queue_message_ok ?m" "opaque_id (msg_event_id ?m)"
      using recovery_id_opaque [OF hex] c(2,4) held(2) lt jok(1)
      by (auto simp: queue_message_ok_def recovery_message_def case_row_ok_def job_row_ok_def
          job_lease_ok_def case_key_def job_case_key_def)
    have "?j' \<in> set (st_jobs ?mid)"
      using put_row_set [of job_key, OF _ j(1), of ?j'] ok by (simp add: store_ok_def)
    then have "has_job ?mid (jr_tenant j) (jr_case j) (jr_id j)"
      by (auto simp: has_job_def list_ex_iff fail_job_def clear_lease_def Let_def intro!: bexI [of _ ?j'])
    moreover have "outbox_row_ok (recovery_outbox_row ?m t t)"
      using m(2) by (simp add: outbox_row_ok_def recovery_outbox_row_def)
    moreover have "or_tenant (recovery_outbox_row ?m t t) = jr_tenant j"
        "or_message (recovery_outbox_row ?m t t) = ?m" "msg_case_id ?m = jr_case j" "msg_job_id ?m = jr_id j"
      using lt by (simp_all add: recovery_outbox_row_def recovery_message_def)
    ultimately obtain b db' where "insert_outbox True (recovery_outbox_row ?m t t) ?mid = Inr (b, db')"
      using insert_outbox_total [of "recovery_outbox_row ?m t t" ?mid] by metis
    then have "then_q (insert_outbox True (recovery_outbox_row ?m t t)) (\<lambda>_. return_q Requeued) ?mid =
        Inr (Requeued, db')"
      by (simp only: then_q_def return_q_def and_then_simps prod.case)
    moreover have "lift_q (parse_as queue_message_ok StoredSchema ?m) ?mid = Inr (?m, ?mid)"
      using m(1) by (simp only: lift_q_def parse_as_True and_then_simps)
    ultimately show ?thesis
      using True that [of Requeued db']
      by (simp only: if_True then_q_def [of "lift_q _"] and_then_simps prod.case)
  qed
  have "date_range t" using clock valid_instant_date_range by (auto simp: clock_ahead_def)
  then have "fail_lease h T l ?f db = fail_in_transaction h T l ?f db"
    using held(2) t expiry_code by (simp add: fail_lease_def then_q_def lift_q_def expiry_failure_def)
  also have "\<dots> = Inr (d, db')"
    using rest f j(3) up adv v jok(4) safe_attempt [OF jok(1,2)] safe_int_pred [OF jok(4,5)] lt
    unfolding fail_in_transaction_def
    by (simp add: then_q_def lift_q_def read_q_def first_version_def expiry_failure_def
        split del: if_split cong: if_cong)
  finally show ?thesis by (rule that)
qed

lemma requeued_has_message:
  assumes "insert_outbox True (recovery_outbox_row (recovery_message h l cid) t t) db = Inr (b, db')"
  shows "(lease_tenant l, recovery_event_id h (lease_tenant l) (lease_job l) (lease_attempt l)) \<in>
    outbox_key ` set (st_outbox db')"
proof -
  let ?e = "recovery_outbox_row (recovery_message h l cid) t t"
  have "outbox_key ?e \<in> outbox_key ` set (st_outbox db')"
    using assms by (auto simp: insert_outbox_def split: if_splits)
  moreover have "or_tenant ?e = lease_tenant l"
      "or_id ?e = recovery_event_id h (lease_tenant l) (lease_job l) (lease_attempt l)"
    by (simp_all add: recovery_outbox_row_def recovery_message_def)
  ultimately show ?thesis by (simp add: outbox_key_def)
qed

lemma expired_row:
  assumes "job_shape j"
  shows "requeues (expiry_failure t) j \<longleftrightarrow> jr_attempt j < 3"
    and "job_key (fail_job (expiry_failure t) j j) = job_key j"
    and "jr_attempt (fail_job (expiry_failure t) j j) = jr_attempt j"
    and "jr_attempt j < 3 \<Longrightarrow> jr_state (fail_job (expiry_failure t) j j) = Queued \<and>
      jr_next (fail_job (expiry_failure t) j j) = t"
    and "\<not> jr_attempt j < 3 \<Longrightarrow> jr_state (fail_job (expiry_failure t) j j) = Failed \<and>
      jr_fail_code (fail_job (expiry_failure t) j j) = Some ''JOB_RETRY_EXHAUSTED''"
proof -
  show req: "requeues (expiry_failure t) j \<longleftrightarrow> jr_attempt j < 3"
    using assms by (simp add: requeues_def expiry_failure_def job_shape_def)
  show "job_key (fail_job (expiry_failure t) j j) = job_key j"
    "jr_attempt (fail_job (expiry_failure t) j j) = jr_attempt j"
    "jr_attempt j < 3 \<Longrightarrow> jr_state (fail_job (expiry_failure t) j j) = Queued \<and>
      jr_next (fail_job (expiry_failure t) j j) = t"
    "\<not> jr_attempt j < 3 \<Longrightarrow> jr_state (fail_job (expiry_failure t) j j) = Failed \<and>
      jr_fail_code (fail_job (expiry_failure t) j j) = Some ''JOB_RETRY_EXHAUSTED''"
    by (simp_all add: fail_job_def clear_lease_def Let_def req job_key_def) (simp_all add: expiry_failure_def)
qed


section \<open>The recovery pass\<close>

lemma distinct_sort_by_map:
  assumes "distinct (map f xs)"
  shows "distinct (map f (sort_by le xs))"
proof -
  have "mset (map f (sort_by le xs)) = mset (map f xs)" by (simp add: mset_map)
  with assms show ?thesis by (metis mset_eq_imp_distinct_iff)
qed

lemma row_lease_key: "row_lease j = Inr l \<Longrightarrow> (lease_tenant l, lease_job l) = job_key j"
  by (auto simp: row_lease_def and_then_Inr_iff job_key_def split: option.splits)

lemma recover_row_Inr:
  assumes "recover_row h T t j db = Inr (d, db')" and ok: "store_ok db" and "j \<in> set (st_jobs db)"
  obtains j' where "st_jobs db' = put_row job_key j' (st_jobs db)" and "job_key j' = job_key j"
    and "jr_state j' \<noteq> Running" and "store_ok db'"
proof -
  from assms(1) obtain l f mid where l: "row_lease j = Inr l" and f: "fail_lease h T l f db = Inr (d, mid)"
    and audit: "append_audit (recovery_audit h t l d) mid = Inr ((), db')"
    by (auto simp: recover_row_def then_q_Inr)
  have jobs: "st_jobs db' = st_jobs mid" using append_audit_same [OF audit] by (simp add: same_work_def)
  have ok': "store_ok db'" using job_steps_ok [OF recover_row_steps [OF assms(1) ok] ok] .
  have same: "i = j" if "holds_lease l i" "i \<in> set (st_jobs db)" for i
    using store_ok_unique [OF ok that(2) assms(3)] holds_lease_key [OF that(1)] row_lease_key [OF l] by simp
  from fail_lease_Inr(1) [OF f] store_ok_keys [OF ok] show ?thesis
  proof (cases rule: fail_in_transaction_Inr)
    case (1 i)
    then have "i = j" using same by (auto simp: job_effect_def)
    with 1(4) jobs have "st_jobs db' = put_row job_key (cancel_running (lf_at f) j) (st_jobs db)"
      by (simp add: job_effect_def)
    moreover have "jr_state (cancel_running (lf_at f) j) \<noteq> Running" by (simp add: cancel_running_def)
    ultimately show ?thesis using ok' that by simp
  next
    case (2 i mid0)
    then have "i = j" using same by (auto simp: job_effect_def)
    with 2(4,5) jobs have "st_jobs db' = put_row job_key (fail_job f j j) (st_jobs db)"
      by (simp add: job_effect_def same_work_def)
    moreover have "jr_state (fail_job f j j) \<noteq> Running" by (simp add: fail_job_def Let_def clear_lease_def)
    ultimately show ?thesis using ok' that by simp
  qed
qed

definition summary_total :: "recovery_summary \<Rightarrow> nat" where
  "summary_total s = sum_cancelled s + sum_exhausted s + sum_requeued s"

lemma count_total: "summary_total (count_disposition d s) = Suc (summary_total s)"
  by (cases d) (simp_all add: summary_total_def)

lemma recover_rows_Inr:
  "recover_rows h T t js s db = Inr (s', db') \<Longrightarrow> store_ok db \<Longrightarrow> set js \<subseteq> set (st_jobs db) \<Longrightarrow>
   distinct (map job_key js) \<Longrightarrow>
   summary_total s' = summary_total s + length js \<and>
   (\<forall>i \<in> set (st_jobs db'). (job_key i \<in> job_key ` set js \<longrightarrow> jr_state i \<noteq> Running) \<and>
      (job_key i \<notin> job_key ` set js \<longrightarrow> i \<in> set (st_jobs db)))"
proof (induction js arbitrary: s db)
  case (Cons j js)
  then obtain d mid where row: "recover_row h T t j db = Inr (d, mid)"
    and rest: "recover_rows h T t js (count_disposition d s) mid = Inr (s', db')"
    by (auto simp: then_q_Inr)
  have jm: "j \<in> set (st_jobs db)" using Cons.prems(3) by simp
  from recover_row_Inr [OF row Cons.prems(2) jm] obtain j' where
    j': "st_jobs mid = put_row job_key j' (st_jobs db)" "job_key j' = job_key j" "jr_state j' \<noteq> Running"
    and ok: "store_ok mid" .
  have mem: "set (st_jobs mid) = insert j' (set (st_jobs db) - {j})"
    unfolding j'(1) using Cons.prems(2) jm j'(2) by (intro put_row_set) (auto simp: store_ok_def)
  have "set js \<subseteq> set (st_jobs mid)" using Cons.prems(3,4) mem by auto
  from Cons.IH [OF rest ok this] Cons.prems(4)
  have IH: "summary_total s' = summary_total (count_disposition d s) + length js"
    "\<And>i. i \<in> set (st_jobs db') \<Longrightarrow> job_key i \<in> job_key ` set js \<Longrightarrow> jr_state i \<noteq> Running"
    "\<And>i. i \<in> set (st_jobs db') \<Longrightarrow> job_key i \<notin> job_key ` set js \<Longrightarrow> i \<in> set (st_jobs mid)" by auto
  have "jr_state i \<noteq> Running" if "i \<in> set (st_jobs db')" "job_key i = job_key j" for i
  proof -
    have "i \<in> set (st_jobs mid)" using IH(3) that Cons.prems(4) by auto
    then have "i = j'" using that(2) mem store_ok_unique [OF Cons.prems(2) _ jm] by auto
    then show ?thesis using j'(3) by blast
  qed
  moreover have "i \<in> set (st_jobs db)" if "i \<in> set (st_jobs db')" "job_key i \<notin> job_key ` set (j # js)" for i
    using IH(3) that mem j'(2) by auto
  ultimately show ?case using IH(1,2) count_total by auto
qed simp

text \<open>
  A recovery pass that commits handles every row it selected: none of them is running
  afterwards, the summary counts each once, and no other job changes. When the limit is not
  reached and no row is locked, no expired lease is left.
\<close>

theorem recovery_pass_is_complete:
  assumes "reachable_store h T db"
    and "recover_expired_leases h T before locked t limit db = Inr (s, db')"
  shows "sum_cancelled s + sum_exhausted s + sum_requeued s = length (expired_rows before locked t (nat limit) db) \<and>
    (\<forall>i \<in> set (st_jobs db').
       (jr_state i = Running \<longrightarrow> job_key i \<notin> job_key ` set (expired_rows before locked t (nat limit) db)) \<and>
       (job_key i \<notin> job_key ` set (expired_rows before locked t (nat limit) db) \<longrightarrow> i \<in> set (st_jobs db)) \<and>
       (length (filter (lease_expired t) (st_jobs db)) \<le> nat limit \<and> (\<forall>j. \<not> locked j) \<longrightarrow>
          \<not> lease_expired t i))"
proof -
  let ?rows = "expired_rows before locked t (nat limit) db"
  have ok: "store_ok db" using reachable_store_ok [OF assms(1)] .
  have rec: "recover_rows h T t ?rows \<lparr>sum_cancelled = 0, sum_exhausted = 0, sum_requeued = 0\<rparr> db = Inr (s, db')"
    using assms(2) by (auto simp: recover_expired_leases_def then_q_Inr split: if_splits)
  have sub: "set ?rows \<subseteq> set (st_jobs db)" by (auto simp: expired_rows_def dest: in_set_takeD)
  have "distinct (map job_key ?rows)"
    using ok by (auto simp: expired_rows_def take_map [symmetric] store_ok_def intro!: distinct_take
        distinct_sort_by_map distinct_map_filter)
  note r = recover_rows_Inr [OF rec ok sub this]
  have "\<not> lease_expired t i" if i: "i \<in> set (st_jobs db')"
    and few: "length (filter (lease_expired t) (st_jobs db)) \<le> nat limit" "\<forall>j. \<not> locked j" for i
  proof
    assume e: "lease_expired t i"
    then have "job_key i \<notin> job_key ` set ?rows" using r i by (auto simp: lease_expired_def)
    moreover from this have "i \<in> set (st_jobs db)" using r i by blast
    ultimately show False using e few by (auto simp: expired_rows_def)
  qed
  with r show ?thesis by (auto simp: summary_total_def)
qed

section \<open>The invariant of the store and a fenced completion\<close>

text \<open>
  C24. In every reachable store the keys are unique, every job stands at the version of its own
  case, a job has a lease exactly while it runs, its lease lies in time, and the three
  attempts are never exceeded; a queued job always has one left.
\<close>

theorem reachable_store_invariant:
  assumes "reachable_store h T db"
  shows "distinct (map job_key (st_jobs db)) \<and> distinct (map case_key (st_cases db)) \<and>
    (\<forall>j \<in> set (st_jobs db).
       (\<exists>c \<in> set (st_cases db). case_key c = job_case_key j \<and> cr_version c = jr_version j) \<and>
       (jr_state j = Running \<longleftrightarrow> (\<exists>owner a e. jr_owner j = Some owner \<and> jr_acquired j = Some a \<and>
          jr_expires j = Some e \<and> a < e)) \<and>
       0 \<le> jr_attempt j \<and> jr_attempt j \<le> 3 \<and> (jr_state j = Queued \<longrightarrow> jr_attempt j < 3) \<and>
       (jr_state j = Failed \<longleftrightarrow> jr_fail_code j \<noteq> None) \<and>
       (jr_cancel_requested j \<noteq> None \<longrightarrow> jr_state j = Running \<or> jr_state j = JobCancelled))"
proof -
  have ok: "store_ok db" using reachable_store_ok [OF assms] .
  show ?thesis
  proof (intro conjI ballI)
    fix j assume j: "j \<in> set (st_jobs db)"
    then have r: "job_row_ok j" "job_shape j" using ok by (auto simp: store_ok_def list_all_iff)
    show "\<exists>c \<in> set (st_cases db). case_key c = job_case_key j \<and> cr_version c = jr_version j"
      using ok j by (simp add: store_ok_def)
    show "jr_state j = Running \<longleftrightarrow> (\<exists>owner a e. jr_owner j = Some owner \<and> jr_acquired j = Some a \<and>
        jr_expires j = Some e \<and> a < e)"
      using r by (auto simp: job_row_ok_def job_shape_def lease_complete_def split: option.splits)
    show "0 \<le> jr_attempt j" "jr_attempt j \<le> 3" "jr_state j = Queued \<longrightarrow> jr_attempt j < 3"
      using r by (auto simp: job_row_ok_def job_shape_def)
    show "jr_state j = Failed \<longleftrightarrow> jr_fail_code j \<noteq> None"
      using r(1) by (auto simp: job_row_ok_def failure_shape_def split: if_splits)
    show "jr_cancel_requested j \<noteq> None \<longrightarrow> jr_state j = Running \<or> jr_state j = JobCancelled"
      using r(1) by (auto simp: job_row_ok_def cancellation_shape_def split: if_splits)
  qed (use ok in \<open>simp_all add: store_ok_def\<close>)
qed

text \<open>
  A completion that the store accepts comes from the holder of the lease of a job on which no
  cancellation is requested, writes the state of the record and nothing else but the row of its
  case, and for a verified record there is a stored bundle.
\<close>

theorem completion_is_fenced:
  assumes "reachable_store h T db" and "complete_lease h T l r db = Inr (r', db')"
  shows "\<exists>j \<in> set (st_jobs db).
    holds_lease l j \<and> jr_cancel_requested j = None \<and> jr_version j = rec_version r \<and>
    (claims_verified r \<longrightarrow> has_bundle db (rec_tenant r) (rec_case_id r)) \<and>
    st_jobs db' = map (\<lambda>i. if job_key i = job_key j then finish_job r j else i) (st_jobs db) \<and>
    jr_owner (finish_job r j) = None \<and> jr_state (finish_job r j) \<in> {Succeeded, Failed} \<and>
    r' = r\<lparr>rec_version := rec_version r + 1\<rparr>"
proof -
  note c = complete_lease_Inr [OF assms(2)]
  from complete_in_transaction_Inr [OF c(1) store_ok_keys [OF reachable_store_ok [OF assms(1)]] c(3,5,4)]
  obtain j where j: "holds_lease l j" "jr_cancel_requested j = None"
    "claims_verified r \<Longrightarrow> has_bundle db (rec_tenant r) (rec_case_id r)" "jr_version j = rec_version r"
    "job_effect db db' j (finish_job r j)" "r' = r\<lparr>rec_version := rec_version r + 1\<rparr>" by metis
  have key: "job_key (finish_job r j) = job_key j"
    by (simp add: finish_job_def clear_lease_def job_key_def Let_def)
  moreover have "st_jobs db' = put_row job_key (finish_job r j) (st_jobs db)" "j \<in> set (st_jobs db)"
    using j(5) by (simp_all add: job_effect_def)
  moreover have "jr_state (finish_job r j) \<in> {Succeeded, Failed}" "jr_owner (finish_job r j) = None"
    using c(3) by (simp_all add: finish_job_def clear_lease_def Let_def)
  ultimately show ?thesis using j by (intro bexI [of _ j]) (auto simp: put_row_def)
qed

section \<open>A store in which a job is reserved, claimed and taken over\<close>

definition sample_store :: store where
  "sample_store =
     \<lparr>st_now = 0, st_tenants = [(''t'', TenantActive)], st_artifacts = [], st_cases = [], st_jobs = [],
      st_keys = [], st_outbox = [], st_quota = [], st_audit = []\<rparr>"

definition durable_sample :: durable_record where
  "durable_sample =
     \<lparr>rec_caller = ''u'', rec_case_id = ''c'', rec_command_hash = replicate 64 (CHR ''0''),
      rec_created_at = 0, rec_idempotency_key = ''k'', rec_job_id = ''j'',
      rec_budget = Some \<lparr>sample_tool_calls = 6, sample_required_runs = 3\<rparr>, rec_request = None,
      rec_snapshot = \<lparr>snap_case = \<lparr>case_created_at = 0, case_history = [], case_id = ''c'',
          case_st = Draft, case_updated_at = 0\<rparr>,
        snap_job = \<lparr>job_attempt = 0, job_case_id = ''c'', job_created_at = 0, job_failure = None,
          job_id = ''j'', job_phase = Draft, job_st = Queued, job_updated_at = 0\<rparr>,
        snap_source = None, snap_result = None, snap_sample = True\<rparr>,
      rec_tenant = ''t'', rec_updated_at = 0, rec_version = 1\<rparr>"

lemma durable_sample_ok: "durable_record_ok plain_host sample_times True durable_sample"
  by (simp add: durable_record_ok_def durable_sample_def tenant_scope_ok_def opaque_id_def identifier_ok_def
      len_in_def alnum_char_def lower_char_def code_unit_def snapshot_ok_def repro_case_ok_def
      reproduction_job_ok_def valid_instant_def date_range_def sha256_string_def hex_string_def hex_char_def
      digit_char_def list_all_iff same_source_def sample_budget_ok_def safe_int_def max_safe_integer_def)

definition reserved_store :: store where
  "reserved_store = sample_store\<lparr>st_cases := [new_case_row durable_sample],
     st_jobs := [new_job_row durable_sample], st_keys := [new_key_row durable_sample]\<rparr>"

definition sample_job :: job_row where
  "sample_job = new_job_row durable_sample"

definition claimed_store :: store where
  "claimed_store = reserved_store\<lparr>st_jobs := [take_lease 1000 61000 ''w'' sample_job],
     st_cases := [(new_case_row durable_sample)\<lparr>cr_version := 2, cr_updated := 1000\<rparr>]\<rparr>"

definition taken_store :: store where
  "taken_store = claimed_store\<lparr>
     st_jobs := [take_lease 61000 121000 ''v'' (take_lease 1000 61000 ''w'' sample_job)],
     st_cases := [(new_case_row durable_sample)\<lparr>cr_version := 3, cr_updated := 61000\<rparr>]\<rparr>"

definition sample_lease :: job_lease where
  "sample_lease = \<lparr>lease_acquired = 1000, lease_attempt = 1, lease_expires = 61000, lease_job = ''j'',
     lease_owner = ''w'', lease_tenant = ''t''\<rparr>"

lemmas sample_store_defs = sample_store_def reserved_store_def claimed_store_def taken_store_def
  sample_job_def sample_lease_def new_job_row_def new_case_row_def new_key_row_def durable_sample_def
  take_lease_def Let_def

lemmas run_query = then_q_def lift_q_def read_q_def return_q_def throw_q_def first_version_def
  stored_integer_def safe_int_def max_safe_integer_def date_range_def valid_instant_def

lemmas text_checks = opaque_id_def identifier_ok_def len_in_def alnum_char_def lower_char_def upper_char_def
  digit_char_def code_unit_def

lemma reserve_sample:
  "reserve plain_host sample_times durable_sample sample_store = Inr ((True, durable_sample), reserved_store)"
proof -
  have "find_by_idempotency_key plain_host sample_times \<lparr>scope_caller = ''u'', scope_principal = ''u'',
      scope_tenant = ''t''\<rparr> ''k'' sample_store = Inr (None, sample_store)"
    by (simp add: find_by_idempotency_key_def then_q_def lift_q_def find_durable_def durable_rows_def
        sample_store_def tenant_scope_ok_def text_checks)
  moreover have "case_row_ok (new_case_row durable_sample)" "job_insert_ok (new_job_row durable_sample)"
      "idempotency_row_ok (new_key_row durable_sample)"
    by (simp_all add: case_row_ok_def job_insert_ok_def job_row_ok_def idempotency_row_ok_def sample_store_defs
        lease_complete_def failure_shape_def cancellation_shape_def text_checks sha256_string_def
        hex_string_def hex_char_def list_all_iff)
  ultimately show ?thesis
    using durable_sample_ok
    by (simp add: reserve_def validate_record_def reserve_in_transaction_def then_q_def lift_q_def read_q_def
        return_q_def insert_case_def insert_job_def insert_key_def has_job_def tenant_active_def
        sample_store_defs case_key_def job_case_key_def job_key_def)
qed

lemma claim_sample:
  "claim_lease 1000 ''j'' 60 ''w'' ''t'' reserved_store = Inr (Some sample_lease, claimed_store)"
  by (simp add: claim_lease_def run_query tenant_active_def update_jobs_def update_where_def claimable_def
      advance_case_def update_cases_def sample_store_defs job_update_ok_def successor_version_def
      job_transition_ok_def job_row_ok_def case_update_ok_def case_row_ok_def lease_complete_def
      failure_shape_def cancellation_shape_def job_lease_ok_def text_checks)

lemma take_over_sample:
  "claim_lease 61000 ''j'' 60 ''v'' ''t'' claimed_store =
     Inr (Some (sample_lease\<lparr>lease_acquired := 61000, lease_attempt := 2, lease_expires := 121000,
       lease_owner := ''v''\<rparr>), taken_store)"
  by (simp add: claim_lease_def run_query tenant_active_def update_jobs_def update_where_def claimable_def
      advance_case_def update_cases_def sample_store_defs job_update_ok_def successor_version_def
      job_transition_ok_def job_row_ok_def case_update_ok_def case_row_ok_def lease_complete_def
      failure_shape_def cancellation_shape_def job_lease_ok_def text_checks)

lemma reachable_samples:
  "reachable_store plain_host sample_times reserved_store"
  "reachable_store plain_host sample_times claimed_store"
  "reachable_store plain_host sample_times taken_store"
proof -
  have "reachable_store plain_host sample_times sample_store"
    by (rule reachable_store.empty) (simp_all add: sample_store_def)
  moreover have "fresh_job durable_sample" by (simp add: fresh_job_def durable_sample_def)
  ultimately show r: "reachable_store plain_host sample_times reserved_store"
    by (rule reachable_store.step [OF _ store_step.reserve [OF reserve_sample]])
  show c: "reachable_store plain_host sample_times claimed_store"
    by (rule reachable_store.step [OF r store_step.claim [OF claim_sample]])
  show "reachable_store plain_host sample_times taken_store"
    by (rule reachable_store.step [OF c store_step.claim [OF take_over_sample]])
qed

theorem newer_claim_fences_older_witness:
  "(\<exists>e. complete_lease plain_host sample_times sample_lease durable_sample taken_store = Inl e) \<and>
   (\<exists>e. renew_lease sample_lease 50000 70000 taken_store = Inl e)"
  using newer_claim_fences_older [OF reachable_samples(1) claim_sample rtranclp.rtrancl_refl take_over_sample
      rtranclp.rtrancl_refl, of 50000 70000]
  by blast

definition claimed_job :: job_row where
  "claimed_job = take_lease 1000 61000 ''w'' sample_job"

lemma claimed_job_in: "claimed_job \<in> set (st_jobs claimed_store)"
  by (simp add: claimed_job_def claimed_store_def)

lemma claimed_job_row: "row_lease claimed_job = Inr sample_lease" "jr_state claimed_job = Running"
  "jr_cancel_requested claimed_job = None" "lease_expired 61000 claimed_job" "jr_attempt claimed_job = 1"
  by (simp_all add: claimed_job_def row_lease_def sample_store_defs stored_timestamp_def run_query job_lease_ok_def
      text_checks lease_expired_def)

lemma plain_host_hex: "sha256_string (sha256_hex plain_host x)"
  by (simp add: plain_host_def sha256_string_def hex_string_def hex_char_def digit_char_def code_unit_def list_all_iff)


section \<open>Terminal and cancelled samples\<close>

definition sample_failure :: lease_failure where
  "sample_failure = \<lparr>lf_at = 2000, lf_code = ''CANCELLED'', lf_next = 2000, lf_retryable = False\<rparr>"

definition failed_store :: store where
  "failed_store = claimed_store\<lparr>st_jobs := [fail_job sample_failure claimed_job claimed_job],
     st_cases := [(new_case_row durable_sample)\<lparr>cr_version := 3, cr_updated := 2000\<rparr>]\<rparr>"

lemma fail_sample:
  "fail_lease plain_host sample_times sample_lease sample_failure claimed_store = Inr (Exhausted, failed_store)"
  by (simp add: fail_lease_def run_query fail_in_transaction_def sample_failure_def sample_store_defs
      job_lease_ok_def text_checks failure_code_ok_def holds_lease_def update_jobs_def update_where_def
      advance_case_def update_cases_def job_update_ok_def successor_version_def job_transition_ok_def
      job_row_ok_def case_update_ok_def case_row_ok_def lease_complete_def failure_shape_def
      cancellation_shape_def requeues_def fail_job_def clear_lease_def claimed_job_def failed_store_def
      release_active_job_quota_def update_quota_def)

theorem terminal_job_is_immutable_witness:
  "fail_job sample_failure claimed_job claimed_job \<in> set (st_jobs failed_store)"
proof (rule terminal_job_is_immutable)
  show "reachable_store plain_host sample_times failed_store"
    by (rule reachable_store.step [OF reachable_samples(2) store_step.fail [OF fail_sample]])
  show "later_store plain_host sample_times failed_store failed_store" by simp
  show "fail_job sample_failure claimed_job claimed_job \<in> set (st_jobs failed_store)"
    by (simp add: failed_store_def)
  show "jr_state (fail_job sample_failure claimed_job claimed_job) \<in> {Succeeded, Failed, JobCancelled}"
    by (simp add: fail_job_def sample_failure_def requeues_def Let_def clear_lease_def)
qed

definition requested_store :: store where
  "requested_store = claimed_store\<lparr>st_jobs := [request_job 2000 claimed_job],
     st_cases := [(new_case_row durable_sample)\<lparr>cr_version := 3, cr_updated := 2000\<rparr>]\<rparr>"

lemma request_sample:
  "request_cancellation plain_host sample_times \<lparr>scope_caller = ''u'', scope_principal = ''u'', scope_tenant = ''t''\<rparr>
     ''j'' 2000 claimed_store =
   Inr (Some \<lparr>can_case_id = ''c'', can_changed = True, can_cancelled = False\<rparr>, requested_store)"
proof -
  let ?s = "\<lparr>scope_caller = ''u'', scope_principal = ''u'', scope_tenant = ''t''\<rparr>"
  let ?r = "durable_sample\<lparr>rec_snapshot := (rec_snapshot durable_sample)\<lparr>snap_job :=
      (snap_job (rec_snapshot durable_sample))\<lparr>job_attempt := 1, job_st := Running, job_updated_at := 1000\<rparr>\<rparr>,
    rec_updated_at := 1000, rec_version := 2\<rparr>"
  have ok: "durable_record_ok plain_host sample_times False ?r"
    by (simp add: durable_record_ok_def durable_sample_def tenant_scope_ok_def text_checks snapshot_ok_def
        repro_case_ok_def reproduction_job_ok_def valid_instant_def date_range_def sha256_string_def
        hex_string_def hex_char_def list_all_iff same_source_def sample_budget_ok_def
        safe_int_def max_safe_integer_def)
  then have "snapshot_ok plain_host sample_times (rec_snapshot ?r)" by (simp add: durable_record_ok_def Let_def)
  with ok have "find_by_job_id plain_host sample_times ?s ''j'' claimed_store = Inr (Some ?r, claimed_store)"
    by (simp add: find_by_job_id_def run_query tenant_scope_ok_def text_checks find_durable_def durable_rows_def
        sample_store_defs scope_of_def row_to_record_def row_job_def stored_failure_def stored_timestamp_def
        row_record_def record_domain_def record_descriptor_def)
  then show ?thesis
    by (simp add: request_cancellation_def run_query tenant_scope_ok_def text_checks selected_jobs_def
        sample_store_defs mark_cancellation_def update_jobs_def update_where_def advance_case_def
        update_cases_def job_update_ok_def successor_version_def job_transition_ok_def job_row_ok_def
        case_update_ok_def case_row_ok_def lease_complete_def failure_shape_def cancellation_shape_def
        cancellation_def requested_store_def request_job_def claimed_job_def)
qed

theorem requested_cancellation_wins_witness:
  "\<exists>j' \<in> set (st_jobs requested_store). jr_cancel_requested j' \<noteq> None \<and>
     (jr_state j' = Running \<or> jr_state j' = JobCancelled)"
proof -
  have "reachable_store plain_host sample_times requested_store"
    by (rule reachable_store.step [OF reachable_samples(2) store_step.request [OF request_sample]])
  moreover have "request_job 2000 claimed_job \<in> set (st_jobs requested_store)"
    by (simp add: requested_store_def)
  moreover have "jr_state (request_job 2000 claimed_job) = Running"
      "jr_cancel_requested (request_job 2000 claimed_job) \<noteq> None"
    using claimed_job_row(2) by (simp_all add: request_job_def)
  ultimately show ?thesis
    using requested_cancellation_wins [OF _ rtranclp.rtrancl_refl] by blast
qed


definition recovered_store :: store where
  "recovered_store =
     (let mid = claimed_store\<lparr>st_jobs := [fail_job (expiry_failure 61000) claimed_job claimed_job],
        st_cases := [(new_case_row durable_sample)\<lparr>cr_version := 3, cr_updated := 61000\<rparr>],
        st_outbox := [recovery_outbox_row (recovery_message plain_host sample_lease ''c'') 61000 61000]\<rparr> in
      mid\<lparr>st_audit := [recovery_audit plain_host 61000 sample_lease Requeued]\<rparr>)"

lemma recovery_audit_sample: "audit_event_ok (recovery_audit plain_host 61000 sample_lease Requeued)"
  by code_simp

lemma recover_sample:
  "recover_row plain_host sample_times 61000 claimed_job claimed_store = Inr (Requeued, recovered_store)"
proof -
  have "fail_lease plain_host sample_times sample_lease (expiry_failure 61000) claimed_store =
      Inr (Requeued, recovered_store\<lparr>st_audit := []\<rparr>)"
    by (simp add: fail_lease_def run_query fail_in_transaction_def expiry_failure_def sample_store_defs
      job_lease_ok_def text_checks failure_code_ok_def holds_lease_def update_jobs_def update_where_def
      advance_case_def update_cases_def job_update_ok_def successor_version_def job_transition_ok_def
      job_row_ok_def case_update_ok_def case_row_ok_def lease_complete_def failure_shape_def
      cancellation_shape_def requeues_def fail_job_def clear_lease_def claimed_job_def recovered_store_def
      queue_message_ok_def recovery_message_def recovery_event_id_def recovery_digest_def plain_host_def
      insert_outbox_def outbox_row_ok_def recovery_outbox_row_def has_job_def outbox_key_def)
  moreover have "append_audit (recovery_audit plain_host 61000 sample_lease Requeued)
      (recovered_store\<lparr>st_audit := []\<rparr>) = Inr ((), recovered_store)"
    using recovery_audit_sample
    by (simp add: append_audit_def then_q_def lift_q_def insert_audit_def recovered_store_def recovery_audit_def
      sample_lease_def claimed_store_def reserved_store_def sample_store_def Let_def)
  ultimately show ?thesis
    using claimed_job_row(1)
    by (simp add: recover_row_def then_q_def lift_q_def return_q_def expiry_failure_def)
qed

theorem recovery_pass_is_complete_witness:
  "\<exists>s db'. recover_expired_leases plain_host sample_times (\<lambda>_ _. True) (\<lambda>_. False) 61000 10 claimed_store = Inr (s, db') \<and>
     (\<forall>i \<in> set (st_jobs db'). \<not> lease_expired 61000 i)"
proof -
  have rows: "expired_rows (\<lambda>_ _. True) (\<lambda>_. False) 61000 10 claimed_store = [claimed_job]"
    using claimed_job_row(4) by (simp add: expired_rows_def claimed_store_def claimed_job_def)
  then obtain s where "recover_expired_leases plain_host sample_times (\<lambda>_ _. True) (\<lambda>_. False) 61000 10 claimed_store =
      Inr (s, recovered_store)"
    using recover_sample by (simp add: recover_expired_leases_def run_query)
  moreover from recovery_pass_is_complete [OF reachable_samples(2) this]
  have "\<forall>i \<in> set (st_jobs recovered_store). \<not> lease_expired 61000 i"
    by (simp add: claimed_store_def)
  ultimately show ?thesis by blast
qed

theorem reachable_store_invariant_witness:
  "\<exists>c \<in> set (st_cases claimed_store). case_key c = job_case_key claimed_job \<and> cr_version c = jr_version claimed_job"
  using reachable_store_invariant [OF reachable_samples(2)] claimed_job_in by blast

definition finished_record :: durable_record where
  "finished_record = durable_sample\<lparr>
     rec_snapshot := (rec_snapshot durable_sample)\<lparr>snap_job := (snap_job (rec_snapshot durable_sample))
       \<lparr>job_attempt := 1, job_st := Succeeded, job_updated_at := 2000\<rparr>\<rparr>,
     rec_updated_at := 2000, rec_version := 2\<rparr>"

definition finished_store :: store where
  "finished_store = claimed_store\<lparr>st_jobs := [finish_job finished_record claimed_job],
     st_cases := [(new_case_row durable_sample)\<lparr>cr_version := 3, cr_updated := 2000\<rparr>]\<rparr>"

lemma finish_sample:
  "complete_lease plain_host sample_times sample_lease finished_record claimed_store =
     Inr (finished_record\<lparr>rec_version := 3\<rparr>, finished_store)"
proof -
  have "durable_record_ok plain_host sample_times False finished_record"
    by (simp add: durable_record_ok_def finished_record_def durable_sample_def tenant_scope_ok_def text_checks
        snapshot_ok_def repro_case_ok_def reproduction_job_ok_def valid_instant_def date_range_def
        sha256_string_def hex_string_def hex_char_def list_all_iff same_source_def sample_budget_ok_def
        safe_int_def max_safe_integer_def)
  moreover have "job_lease_ok sample_lease"
    by (simp add: job_lease_ok_def sample_lease_def run_query text_checks)
  moreover have "complete_in_transaction sample_lease finished_record claimed_store =
      Inr (finished_record\<lparr>rec_version := 3\<rparr>, finished_store)"
    by (simp add: complete_in_transaction_def run_query claims_verified_def finished_record_def
        finished_store_def sample_store_defs claimed_job_def save_case_def update_cases_def update_jobs_def
        update_where_def holds_lease_def finish_job_def clear_lease_def record_domain_def record_descriptor_def
        job_update_ok_def successor_version_def job_transition_ok_def job_row_ok_def case_update_ok_def
        case_row_ok_def lease_complete_def failure_shape_def cancellation_shape_def text_checks
        release_active_job_quota_def update_quota_def)
  ultimately show ?thesis
    by (simp add: complete_lease_def then_q_def lift_q_def validate_record_def Let_def)
      (simp add: finished_record_def durable_sample_def sample_lease_def)
qed

theorem completion_is_fenced_witness:
  "\<exists>j \<in> set (st_jobs claimed_store). holds_lease sample_lease j \<and>
     st_jobs finished_store = map (\<lambda>i. if job_key i = job_key j then finish_job finished_record j else i)
       (st_jobs claimed_store)"
  using completion_is_fenced [OF reachable_samples(2) finish_sample] by blast

end
