(* ===== verification/Delivery.thy ===== *)
theory Delivery
  imports Outbox Observers Fencing
begin

text \<open>
  The life of an outbox event: what every operation does to the rows of the outbox, the
  invariant of the table, settled events, superseded claims, and the account that a batch of
  the publisher gives of its claims.
\<close>

section \<open>The effect of every operation\<close>

inductive event_move :: "outbox_row \<Rightarrow> outbox_row \<Rightarrow> bool" where
  claimed: "outbox_due t e \<Longrightarrow> event_move e (claim_event t expires owner e)"
| delivered: "or_status e = OutSending \<Longrightarrow> event_move e (deliver_event t provider e)"
| failed: "or_status e = OutSending \<Longrightarrow> event_move e (fail_event f e)"

definition event_kept :: "outbox_row \<Rightarrow> outbox_row \<Rightarrow> bool" where
  "event_kept e e' \<longleftrightarrow> e' = e \<or> event_move e e' \<and> outbox_update_ok e e'"

inductive outbox_step :: "store \<Rightarrow> store \<Rightarrow> bool" where
  moved: "list_all2 event_kept (st_outbox db) (st_outbox db') \<Longrightarrow> outbox_step db db'"
| added: "outbox_row_ok e \<Longrightarrow> or_status e = OutPending \<Longrightarrow> or_version e = 1
    \<Longrightarrow> outbox_key e \<notin> outbox_key ` set (st_outbox db)
    \<Longrightarrow> st_outbox db' = e # st_outbox db \<Longrightarrow> outbox_step db db'"

abbreviation outbox_steps :: "store \<Rightarrow> store \<Rightarrow> bool" where
  "outbox_steps \<equiv> outbox_step\<^sup>*\<^sup>*"

definition outbox_ok :: "store \<Rightarrow> bool" where
  "outbox_ok db \<longleftrightarrow> distinct (map outbox_key (st_outbox db)) \<and> list_all outbox_row_ok (st_outbox db)"

lemma event_kept_refl [simp]: "event_kept e e"
  by (simp add: event_kept_def)

lemma event_kept_key: "event_kept e e' \<Longrightarrow> outbox_key e' = outbox_key e \<and> or_message e' = or_message e"
  by (auto simp: event_kept_def outbox_key_def claim_event_def deliver_event_def fail_event_def
      elim!: event_move.cases)

lemma event_kept_version: "event_kept e e' \<Longrightarrow> e' = e \<or> or_version e' = or_version e + 1"
  by (auto simp: event_kept_def outbox_update_ok_def successor_version_def)

lemma same_outbox_step: "st_outbox db' = st_outbox db \<Longrightarrow> outbox_step db db'"
  by (rule outbox_step.moved) (auto intro: list_all2_refl)

lemma all2_keys: "list_all2 event_kept es es' \<Longrightarrow> map outbox_key es' = map outbox_key es"
  by (induction rule: list_all2_induct) (auto dest: event_kept_key)

lemma outbox_row_unique:
  "outbox_ok db \<Longrightarrow> e \<in> set (st_outbox db) \<Longrightarrow> d \<in> set (st_outbox db) \<Longrightarrow> outbox_key e = outbox_key d \<Longrightarrow> e = d"
  by (auto simp: outbox_ok_def distinct_map inj_on_def)

lemma outbox_step_ok: "outbox_step db db' \<Longrightarrow> outbox_ok db \<Longrightarrow> outbox_ok db'"
proof (induction rule: outbox_step.induct)
  case (moved db db')
  have "list_all outbox_row_ok (st_outbox db')"
    using moved by (auto simp: outbox_ok_def list_all_length list_all2_conv_all_nth event_kept_def
        outbox_update_ok_def)
  with moved all2_keys [OF moved(1)] show ?case by (simp add: outbox_ok_def)
qed (auto simp: outbox_ok_def)

lemma outbox_steps_ok: "outbox_steps db db' \<Longrightarrow> outbox_ok db \<Longrightarrow> outbox_ok db'"
  by (induction rule: rtranclp_induct) (auto intro: outbox_step_ok)

lemma update_outbox_step:
  assumes "update_outbox sel upd db = Inr (rows, db')"
    and "\<And>e. e \<in> set (st_outbox db) \<Longrightarrow> sel e \<Longrightarrow> event_move e (upd e)"
  shows "outbox_step db db'"
  using assms by (intro outbox_step.moved)
    (auto simp: update_outbox_def update_where_def and_then_Inr_iff list_all2_conv_all_nth event_kept_def
      list_ex_iff split: if_splits)

lemma insert_outbox_step:
  assumes "insert_outbox skip (recovery_outbox_row m next_ms t) db = Inr (b, db')"
  shows "outbox_step db db'"
  using assms outbox_step.added [of "recovery_outbox_row m next_ms t" db db']
  by (cases "outbox_key (recovery_outbox_row m next_ms t) \<in> outbox_key ` set (st_outbox db)")
    (auto simp: insert_outbox_def recovery_outbox_row_def intro: same_outbox_step
      split: if_splits)

interpretation outbox_observer: table_observer outbox_steps
proof
  fix db db' :: store and tenant jid t and n :: nat
  assume "release_active_job_quota tenant jid t db = Inr (n, db')"
  then have "st_outbox db' = st_outbox db"
    by (auto simp: release_active_job_quota_def then_q_Inr update_quota_def and_then_Inr_iff)
  then show "outbox_steps db db'" by (intro r_into_rtranclp same_outbox_step)
qed (auto intro: r_into_rtranclp [of outbox_step, OF same_outbox_step] r_into_rtranclp [of outbox_step, OF insert_outbox_step])

section \<open>The operations as steps\<close>

lemma append_outbox_steps: "append_outbox m db = Inr (u, db') \<Longrightarrow> outbox_steps db db'"
  by (auto simp: append_outbox_def then_q_Inr intro: insert_outbox_step)

lemma candidate_due:
  assumes "outbox_ok db" and "e \<in> set (st_outbox db)"
    and "List.member (map outbox_key (claim_candidates before locked t n db)) (outbox_key e)"
  shows "outbox_due t e"
proof -
  from assms(3) obtain d where d: "d \<in> set (claim_candidates before locked t n db)" "outbox_key d = outbox_key e"
    by auto
  then have "d \<in> set (st_outbox db)" "outbox_due t d"
    by (auto simp: claim_candidates_def dest!: in_set_takeD)
  with d(2) assms(1,2) show ?thesis by (auto simp: outbox_ok_def distinct_map inj_on_def)
qed

lemma claim_pending_steps:
  assumes "claim_pending before locked t seconds limit owner db = Inr (cs, db')" and "outbox_ok db"
  shows "outbox_steps db db'"
proof (cases "\<not> date_range t \<or> seconds < 1 \<or> 3600 < seconds \<or> limit < 1 \<or> 1000 < limit \<or> \<not> opaque_id owner")
  case True
  with assms(1) show ?thesis by (simp add: claim_pending_def)
next
  case False
  let ?cand = "claim_candidates before locked t (nat limit) db"
  from assms(1) False obtain expires rows where
    "update_outbox (\<lambda>e. List.member (map outbox_key ?cand) (outbox_key e)) (claim_event t expires owner) db =
       Inr (rows, db')"
    by (auto simp: claim_pending_def then_q_Inr)
  then have "outbox_step db db'"
    by (rule update_outbox_step) (rule event_move.claimed [OF candidate_due [OF assms(2)]])
  then show ?thesis ..
qed

lemma settle_steps:
  "mark_delivered c t provider db = Inr (b, db') \<Longrightarrow> outbox_steps db db'"
  "record_failure c f db = Inr (d, db') \<Longrightarrow> outbox_steps db db'"
  by (auto simp: mark_delivered_def record_failure_def then_q_Inr holds_claim_def
      intro!: r_into_rtranclp update_outbox_step intro: event_move.intros split: if_splits)

inductive outbox_op :: "js_host \<Rightarrow> time_host \<Rightarrow> store \<Rightarrow> store \<Rightarrow> bool" for h T where
  appends: "append_outbox m db = Inr (u, db') \<Longrightarrow> outbox_op h T db db'"
| claims: "claim_pending before locked t seconds limit owner db = Inr (cs, db') \<Longrightarrow> outbox_op h T db db'"
| delivers: "mark_delivered c t provider db = Inr (b, db') \<Longrightarrow> outbox_op h T db db'"
| fails: "record_failure c f db = Inr (d, db') \<Longrightarrow> outbox_op h T db db'"
| requeues: "fail_lease h T l lf db = Inr (disp, db') \<Longrightarrow> outbox_op h T db db'"
| releases: "release_lease h T l t next_ms db = Inr (u, db') \<Longrightarrow> outbox_op h T db db'"
| recovers: "recover_expired_leases h T jbefore jlocked t limit db = Inr (s, db') \<Longrightarrow> outbox_op h T db db'"
| elsewhere: "st_outbox db' = st_outbox db \<Longrightarrow> outbox_op h T db db'"

inductive reachable_outbox :: "js_host \<Rightarrow> time_host \<Rightarrow> store \<Rightarrow> bool" for h T where
  empty: "st_outbox db = [] \<Longrightarrow> reachable_outbox h T db"
| step: "reachable_outbox h T db \<Longrightarrow> outbox_op h T db db' \<Longrightarrow> reachable_outbox h T db'"

abbreviation later_outbox :: "js_host \<Rightarrow> time_host \<Rightarrow> store \<Rightarrow> store \<Rightarrow> bool" where
  "later_outbox h T \<equiv> (outbox_op h T)\<^sup>*\<^sup>*"

lemma outbox_op_steps: "outbox_op h T db db' \<Longrightarrow> outbox_ok db \<Longrightarrow> outbox_steps db db'"
  by (induction rule: outbox_op.induct)
    (auto intro: append_outbox_steps claim_pending_steps settle_steps same_outbox_step
      within_D [OF outbox_observer.within_leases(5)] within_D [OF outbox_observer.within_leases(6)]
      within_D [OF outbox_observer.within_recovery])

lemma reachable_outbox_ok: "reachable_outbox h T db \<Longrightarrow> outbox_ok db"
proof (induction rule: reachable_outbox.induct)
  case (step db db')
  then show ?case using outbox_op_steps outbox_steps_ok by blast
qed (simp add: outbox_ok_def)

lemma later_outbox_steps: "later_outbox h T db db' \<Longrightarrow> outbox_ok db \<Longrightarrow> outbox_steps db db' \<and> outbox_ok db'"
proof (induction rule: rtranclp_induct)
  case (step mid db')
  then have "outbox_steps mid db'" by (auto dest: outbox_op_steps)
  with step show ?case by (auto intro: outbox_steps_ok)
qed simp

section \<open>Versions only grow\<close>

lemma outbox_step_row:
  assumes "outbox_step db db'" and "e \<in> set (st_outbox db)"
  obtains e' where "e' \<in> set (st_outbox db')" and "event_kept e e'"
  using assms(1)
proof (cases rule: outbox_step.cases)
  case moved
  from assms(2) obtain i where "i < length (st_outbox db)" "e = st_outbox db ! i" by (auto simp: in_set_conv_nth)
  with moved that [of "st_outbox db' ! i"] show ?thesis by (auto simp: list_all2_conv_all_nth)
next
  case (added d)
  with assms(2) that [of e] show ?thesis by simp
qed

text \<open>A row or a successor of it at a higher version is in the store.\<close>

definition row_seen :: "outbox_row \<Rightarrow> store \<Rightarrow> bool" where
  "row_seen r db \<longleftrightarrow>
     (\<exists>e \<in> set (st_outbox db). outbox_key e = outbox_key r \<and> or_message e = or_message r \<and>
        (e = r \<or> or_version r < or_version e))"

lemma row_seen_step:
  assumes "outbox_step db db'" and "row_seen r db"
  shows "row_seen r db'"
proof -
  from assms(2) obtain e where e: "e \<in> set (st_outbox db)" "outbox_key e = outbox_key r"
    "or_message e = or_message r" "e = r \<or> or_version r < or_version e"
    by (auto simp: row_seen_def)
  from outbox_step_row [OF assms(1) e(1)] obtain e' where "e' \<in> set (st_outbox db')" "event_kept e e'" .
  with e event_kept_key [of e e'] event_kept_version [of e e'] show ?thesis
    by (auto simp: row_seen_def intro!: bexI [of _ e'])
qed

lemma row_seen_steps: "outbox_steps db db' \<Longrightarrow> row_seen r db \<Longrightarrow> row_seen r db'"
  by (induction rule: rtranclp_induct) (auto intro: row_seen_step)

definition row_passed :: "outbox_row \<Rightarrow> store \<Rightarrow> bool" where
  "row_passed r db \<longleftrightarrow>
     (\<exists>e \<in> set (st_outbox db). outbox_key e = outbox_key r \<and> or_version r < or_version e)"

lemma row_passed_step:
  assumes "outbox_step db db'" and "row_passed r db"
  shows "row_passed r db'"
proof -
  from assms(2) obtain e where e: "e \<in> set (st_outbox db)" "outbox_key e = outbox_key r"
    "or_version r < or_version e" by (auto simp: row_passed_def)
  from outbox_step_row [OF assms(1) e(1)] obtain e' where "e' \<in> set (st_outbox db')" "event_kept e e'" .
  with e event_kept_key [of e e'] event_kept_version [of e e'] show ?thesis
    by (auto simp: row_passed_def intro!: bexI [of _ e'])
qed

lemma row_passed_steps: "outbox_steps db db' \<Longrightarrow> row_passed r db \<Longrightarrow> row_passed r db'"
  by (induction rule: rtranclp_induct) (auto intro: row_passed_step)

section \<open>Claims\<close>

definition claim_key :: "outbox_claim \<Rightarrow> string \<times> string" where
  "claim_key c = (msg_tenant (clm_message c), msg_event_id (clm_message c))"

lemma holds_claim_key: "holds_claim c e \<Longrightarrow> outbox_key e = claim_key c \<and> or_version e = clm_version c"
  by (auto simp: holds_claim_def outbox_key_def claim_key_def)

lemma update_outbox_none:
  assumes "\<And>e. e \<in> set (st_outbox db) \<Longrightarrow> \<not> sel e"
  shows "update_outbox sel upd db = Inr ([], db)"
proof -
  have "filter sel (st_outbox db) = []" and "map (\<lambda>e. if sel e then upd e else e) (st_outbox db) = st_outbox db"
    using assms by (auto simp: filter_empty_conv intro: map_idI)
  moreover have "\<not> list_ex (\<lambda>e. sel e \<and> \<not> outbox_update_ok e (upd e)) (st_outbox db)"
    using assms by (auto simp: list_ex_iff)
  ultimately show ?thesis by (simp add: update_outbox_def update_where_def)
qed

lemma unheld_claim_lost:
  assumes "\<And>e. e \<in> set (st_outbox db) \<Longrightarrow> \<not> holds_claim c e"
  shows "mark_delivered c t provider db = Inr (False, db)" and "record_failure c f db = Inr (DispLost, db)"
  using update_outbox_none [of db "holds_claim c", OF assms]
  by (simp_all add: mark_delivered_def record_failure_def then_q_def return_q_def)

lemma passed_unheld:
  assumes "outbox_ok db" and "row_passed r db" and "holds_claim c r"
  shows "\<forall>e \<in> set (st_outbox db). \<not> holds_claim c e"
  using assms holds_claim_key [OF assms(3)]
  by (auto simp: outbox_ok_def row_passed_def distinct_map inj_on_def dest!: holds_claim_key)

lemma claimed_row:
  assumes "claim_pending before locked t seconds limit owner db = Inr (cs, db')" and "outbox_ok db"
    and "c \<in> set cs"
  obtains e where "e \<in> set (st_outbox db)" and "claim_event t (clm_expires c) owner e \<in> set (st_outbox db')"
    and "holds_claim c (claim_event t (clm_expires c) owner e)" and "clm_claimed c = t"
    and "or_message e = clm_message c" and "outbox_key e = claim_key c" and "date_range t"
proof -
  have valid: "\<not> (\<not> date_range t \<or> seconds < 1 \<or> 3600 < seconds \<or> limit < 1 \<or> 1000 < limit \<or> \<not> opaque_id owner)"
  proof
    assume "\<not> date_range t \<or> seconds < 1 \<or> 3600 < seconds \<or> limit < 1 \<or> 1000 < limit \<or> \<not> opaque_id owner"
    then have "claim_pending before locked t seconds limit owner db = Inr ([], db)"
      unfolding claim_pending_def by (simp only: if_True return_q_def)
    with assms(1,3) show False by simp
  qed
  let ?sel = "\<lambda>e. List.member (map outbox_key (claim_candidates before locked t (nat limit) db)) (outbox_key e)"
  from assms(1) valid obtain expires rows where
    up: "update_outbox ?sel (claim_event t expires owner) db = Inr (rows, db')"
    and cs: "collect (row_claim t expires owner) rows = Inr cs"
    by (auto simp: claim_pending_def then_q_Inr)
  from assms(3) obtain i where i: "i < length cs" "c = cs ! i" by (auto simp: in_set_conv_nth)
  define r where "r = rows ! i"
  with collect_Inr_all2 [OF cs] i have r: "r \<in> set rows" "row_claim t expires owner r = Inr c"
    by (auto simp: list_all2_conv_all_nth)
  from up r(1) obtain e where e: "e \<in> set (st_outbox db)" "r = claim_event t expires owner e" "r \<in> set (st_outbox db')"
    by (auto simp: update_outbox_def update_where_def and_then_Inr_iff split: if_splits)
  have "outbox_row_ok e" using assms(2) e(1) by (auto simp: outbox_ok_def list_all_iff)
  moreover have "clm_expires c = expires" "clm_claimed c = t" "clm_message c = or_message e"
    "clm_version c = or_version r" "clm_attempt c = or_deliveries r" "clm_owner c = owner"
    using r(2) e(2) by (auto simp: row_claim_def and_then_Inr_iff claim_event_def)
  ultimately show ?thesis
    using e valid by (intro that [of e]) (auto simp: holds_claim_def claim_event_def outbox_row_ok_def
        claim_key_def outbox_key_def)
qed

section \<open>Settled events and superseded claims\<close>

definition settled :: "outbox_row \<Rightarrow> bool" where
  "settled e \<longleftrightarrow> or_status e = OutDelivered \<or> or_status e = OutDead"

lemma settled_no_move: "event_move e e' \<Longrightarrow> \<not> settled e"
  by (auto simp: settled_def outbox_due_def elim!: event_move.cases)

lemma settled_steps:
  "outbox_steps db db' \<Longrightarrow> e \<in> set (st_outbox db) \<Longrightarrow> settled e \<Longrightarrow> e \<in> set (st_outbox db')"
proof (induction rule: rtranclp_induct)
  case (step mid db')
  then obtain e' where "e' \<in> set (st_outbox db')" "event_kept e e'" by (auto elim: outbox_step_row)
  with step.prems settled_no_move [of e e'] show ?case by (auto simp: event_kept_def)
qed

lemma settled_unheld:
  assumes "outbox_ok db" and "e \<in> set (st_outbox db)" and "settled e" and "claim_key c = outbox_key e"
  shows "\<forall>d \<in> set (st_outbox db). \<not> holds_claim c d"
proof (intro ballI notI)
  fix d assume d: "d \<in> set (st_outbox db)" "holds_claim c d"
  with assms have "d = e" by (auto simp: outbox_ok_def distinct_map inj_on_def dest!: holds_claim_key)
  with d(2) assms(3) show False by (auto simp: holds_claim_def settled_def)
qed

text \<open>
  An event that has been delivered, or given up as dead, stays exactly as it is whatever
  happens later to the store: no publisher claims, delivers or fails it a second time.
\<close>

theorem settled_event_is_final:
  assumes "reachable_outbox h T db" and "e \<in> set (st_outbox db)"
    and "or_status e = OutDelivered \<or> or_status e = OutDead" and "later_outbox h T db db'"
  shows "e \<in> set (st_outbox db') \<and>
    (\<forall>c t provider f. (msg_tenant (clm_message c), msg_event_id (clm_message c)) = outbox_key e \<longrightarrow>
       mark_delivered c t provider db' = Inr (False, db') \<and> record_failure c f db' = Inr (DispLost, db'))"
proof -
  note steps = later_outbox_steps [OF assms(4) reachable_outbox_ok [OF assms(1)]]
  have e: "settled e" "e \<in> set (st_outbox db')"
    using assms(2,3) settled_steps [OF conjunct1 [OF steps]] by (auto simp: settled_def)
  show ?thesis
  proof (intro conjI allI impI)
    show "e \<in> set (st_outbox db')" by (rule e)
    fix c :: outbox_claim and t provider f
    assume "(msg_tenant (clm_message c), msg_event_id (clm_message c)) = outbox_key e"
    then have "\<forall>d \<in> set (st_outbox db'). \<not> holds_claim c d"
      using settled_unheld [OF _ e(2,1)] steps by (simp add: claim_key_def)
    then show "mark_delivered c t provider db' = Inr (False, db')" "record_failure c f db' = Inr (DispLost, db')"
      by (simp_all add: unheld_claim_lost)
  qed
qed

lemma claimed_again_passes:
  assumes "outbox_ok db" and "claim_pending before locked t seconds limit owner db = Inr (cs, db')"
    and "c' \<in> set cs" and "row_seen r db" and "claim_key c' = outbox_key r"
  shows "row_passed r db'"
proof -
  from claimed_row [OF assms(2,1,3)] obtain e where e: "e \<in> set (st_outbox db)" "outbox_key e = claim_key c'"
    "claim_event t (clm_expires c') owner e \<in> set (st_outbox db')" by metis
  from assms(4) obtain d where d: "d \<in> set (st_outbox db)" "outbox_key d = outbox_key r"
    "d = r \<or> or_version r < or_version d" by (auto simp: row_seen_def)
  have "d = e" using d e assms(1,5) by (auto simp: outbox_ok_def distinct_map inj_on_def)
  then have "or_version r < or_version (claim_event t (clm_expires c') owner e)"
    using d(3) by (auto simp: claim_event_def)
  moreover have "outbox_key (claim_event t (clm_expires c') owner e) = outbox_key r"
    using e(2) assms(5) by (simp add: claim_event_def outbox_key_def)
  ultimately show ?thesis using e(3) by (auto simp: row_passed_def)
qed

text \<open>
  Once an event has been claimed again, because the first publisher let its claim expire, that
  publisher can settle nothing with its old claim: its delivery is a conflict, its failure is
  lost, and neither changes the store.
\<close>

theorem superseded_claim_is_lost:
  assumes "reachable_outbox h T db0"
    and "claim_pending b1 l1 t1 s1 n1 o1 db0 = Inr (cs, db1)" and "c \<in> set cs"
    and "later_outbox h T db1 db2"
    and "claim_pending b2 l2 t2 s2 n2 o2 db2 = Inr (cs', db3)" and "c' \<in> set cs'"
    and "clm_message c' = clm_message c" and "later_outbox h T db3 db4"
  shows "mark_delivered c t provider db4 = Inr (False, db4) \<and> record_failure c f db4 = Inr (DispLost, db4)"
proof -
  have ok0: "outbox_ok db0" using reachable_outbox_ok [OF assms(1)] .
  note ok1 = outbox_steps_ok [OF claim_pending_steps [OF assms(2) ok0] ok0]
  note s2 = later_outbox_steps [OF assms(4) ok1]
  note ok3 = outbox_steps_ok [OF claim_pending_steps [OF assms(5) conjunct2 [OF s2]] conjunct2 [OF s2]]
  note s4 = later_outbox_steps [OF assms(8) ok3]
  from claimed_row [OF assms(2) ok0 assms(3)] obtain r where r: "r \<in> set (st_outbox db1)" "holds_claim c r"
    by metis
  have "row_seen r db1" using r(1) by (auto simp: row_seen_def)
  then have "row_seen r db2" using row_seen_steps s2 by blast
  moreover have "claim_key c' = outbox_key r"
    using holds_claim_key [OF r(2)] assms(7) by (simp add: claim_key_def)
  ultimately have "row_passed r db3"
    using claimed_again_passes [OF conjunct2 [OF s2] assms(5,6)] by blast
  then have "row_passed r db4" using row_passed_steps s4 by blast
  with passed_unheld [OF conjunct2 [OF s4]] r(2) have "\<forall>e \<in> set (st_outbox db4). \<not> holds_claim c e" by blast
  then show ?thesis by (simp add: unheld_claim_lost)
qed

section \<open>A batch of the publisher\<close>

lemma settle_open_claim:
  assumes "outbox_ok db" and "row_seen r db" and "holds_claim c r"
    and "outbox_row_ok r \<Longrightarrow> outbox_update_ok r (upd r)"
    and "or_version (upd r) = or_version r + 1" and "outbox_key (upd r) = outbox_key r"
  obtains rows db' where "update_outbox (holds_claim c) upd db = Inr (rows, db')" and "row_passed r db'"
    and "\<And>e. e \<in> set rows \<Longrightarrow> e = upd r"
proof -
  have held: "e = r" if "e \<in> set (st_outbox db)" "holds_claim c e" for e
  proof -
    from assms(2) obtain d where d: "d \<in> set (st_outbox db)" "outbox_key d = outbox_key r"
      "d = r \<or> or_version r < or_version d" by (auto simp: row_seen_def)
    have "outbox_key e = outbox_key r" "or_version e = or_version r"
      using holds_claim_key [OF that(2)] holds_claim_key [OF assms(3)] by simp_all
    with outbox_row_unique [OF assms(1) that(1) d(1)] d(2,3) show ?thesis by auto
  qed
  have legal: "\<not> list_ex (\<lambda>e. holds_claim c e \<and> \<not> outbox_update_ok e (upd e)) (st_outbox db)"
    using held assms(1,4) by (auto simp: list_ex_iff outbox_ok_def list_all_iff)
  let ?db' = "db\<lparr>st_outbox := map (\<lambda>e. if holds_claim c e then upd e else e) (st_outbox db)\<rparr>"
  have up: "update_outbox (holds_claim c) upd db = Inr (map upd (filter (holds_claim c) (st_outbox db)), ?db')"
    using legal by (simp add: update_outbox_def update_where_def)
  from assms(2) obtain e where e: "e \<in> set (st_outbox db)" "outbox_key e = outbox_key r"
    "e = r \<or> or_version r < or_version e" by (auto simp: row_seen_def)
  have "(if holds_claim c e then upd e else e) \<in> set (st_outbox ?db')" using e(1) by auto
  moreover have "outbox_key (if holds_claim c e then upd e else e) = outbox_key r \<and>
    or_version r < or_version (if holds_claim c e then upd e else e)"
  proof (cases "holds_claim c e")
    case True
    then have "e = r" using held e(1) by blast
    with True show ?thesis by (simp add: assms(5,6))
  next
    case False
    with assms(3) have "e \<noteq> r" by blast
    with False e(2,3) show ?thesis by simp
  qed
  ultimately have "row_passed r ?db'" unfolding row_passed_def by blast
  with up held show ?thesis by (intro that) auto
qed

text \<open>The claim was handed out for a row that has not been settled since, or was overtaken.\<close>

definition claim_open :: "outbox_claim \<Rightarrow> outbox_row \<Rightarrow> store \<Rightarrow> bool" where
  "claim_open c r db \<longleftrightarrow> holds_claim c r \<and> or_updated r = clm_claimed c \<and> row_seen r db"

lemma deliver_open:
  assumes "outbox_ok db" and "claim_open c r db" and "clm_claimed c \<le> t" and "date_range t"
    and "pred_option (len_in 1 512) provider"
  obtains b db' where "mark_delivered c t provider db = Inr (b, db')" and "row_passed r db'"
    and "outbox_steps db db'"
proof -
  have r: "row_seen r db" "holds_claim c r" "or_updated r = clm_claimed c" using assms(2) by (simp_all add: claim_open_def)
  have legal: "outbox_row_ok r \<Longrightarrow> outbox_update_ok r (deliver_event t provider r)"
    using assms(3,5) r(3) by (auto simp: outbox_update_ok_def outbox_row_ok_def successor_version_def deliver_event_def)
  have succ: "or_version (deliver_event t provider r) = or_version r + 1"
    "outbox_key (deliver_event t provider r) = outbox_key r"
    by (simp_all add: deliver_event_def outbox_key_def)
  obtain rows db' where up: "update_outbox (holds_claim c) (deliver_event t provider) db = Inr (rows, db')"
    "row_passed r db'"
    by (rule settle_open_claim [of db r c "deliver_event t provider"])
      (use assms(1) r(1,2) legal succ in auto)
  then have "mark_delivered c t provider db = Inr (length rows = 1, db')"
    using assms(3-5) by (simp add: mark_delivered_def then_q_def return_q_def)
  with up(2) settle_steps(1) show ?thesis by (blast intro: that)
qed

lemma fail_open:
  assumes "outbox_ok db" and "claim_open c r db" and "clm_claimed c \<le> df_failed f" and "date_range (df_failed f)"
    and "date_range (df_next f)" and "df_failed f \<le> df_next f" and "1 \<le> df_max f" and "df_max f \<le> 32"
    and "failure_code_ok (df_code f)"
  obtains d db' where "record_failure c f db = Inr (d, db')" and "row_passed r db'" and "outbox_steps db db'"
proof -
  have r: "row_seen r db" "holds_claim c r" "or_updated r = clm_claimed c" using assms(2) by (simp_all add: claim_open_def)
  have legal: "outbox_row_ok r \<Longrightarrow> outbox_update_ok r (fail_event f r)"
    using assms(3,9) r(2,3)
    by (auto simp: outbox_update_ok_def outbox_row_ok_def successor_version_def fail_event_def
        holds_claim_def failure_code_ok_def)
  have succ: "or_version (fail_event f r) = or_version r + 1" "outbox_key (fail_event f r) = outbox_key r"
    by (simp_all add: fail_event_def outbox_key_def)
  obtain rows db' where up: "update_outbox (holds_claim c) (fail_event f) db = Inr (rows, db')"
    "row_passed r db'"
    by (rule settle_open_claim [of db r c "fail_event f"]) (use assms(1) r(1,2) legal succ in auto)
  then have "\<exists>d. record_failure c f db = Inr (d, db')"
    using assms(3-9) by (simp add: record_failure_def then_q_def return_q_def)
  with up(2) settle_steps(2) show ?thesis by (blast intro: that)
qed

lemma delay_bounds: "5 \<le> delay_seconds a" "delay_seconds a \<le> 300"
  by (simp_all add: delay_seconds_def)

definition fair_world :: "js_host \<Rightarrow> time_host \<Rightarrow> int \<Rightarrow> publisher_world \<Rightarrow> bool" where
  "fair_world h T t w \<longleftrightarrow>
     (\<forall>k db. later_outbox h T db (pw_others w k db)) \<and>
     (\<forall>k. t \<le> pw_clock w k \<and> date_range (pw_clock w k) \<and> date_range (pw_clock w k + 300000)) \<and>
     (\<forall>k m provider. pw_send w k m = Inr provider \<longrightarrow> pred_option (len_in 1 512) provider)"

definition summary_settled :: "publish_summary \<Rightarrow> nat" where
  "summary_settled s = pub_conflicted s + pub_dead s + pub_delivered s + pub_retried s"

lemma count_settled:
  "summary_settled (count_delivery b s) = Suc (summary_settled s)"
  "summary_settled (count_failure d s) = Suc (summary_settled s)"
  "pub_claimed (count_delivery b s) = pub_claimed s" "pub_claimed (count_failure d s) = pub_claimed s"
  by (cases d; simp add: summary_settled_def count_delivery_def)+

lemma claim_open_steps: "outbox_steps db db' \<Longrightarrow> claim_open c r db \<Longrightarrow> claim_open c r db'"
  by (auto simp: claim_open_def intro: row_seen_steps)

lemma others_steps:
  assumes "fair_world h T t w" and "outbox_ok db"
  shows "outbox_steps db (pw_others w k db)" and "outbox_ok (pw_others w k db)"
  using later_outbox_steps [OF _ assms(2), of h T "pw_others w k db"] assms(1) by (simp_all add: fair_world_def)

lemma publish_failure_open:
  assumes "fair_world h T t w" and "publisher_ok p" and "outbox_ok db" and "claim_open c r db"
    and "clm_claimed c = t"
  obtains d db' where "publish_failure p w k c db = Inr (d, db')" and "row_passed r db'" and "outbox_steps db db'"
proof -
  let ?f = "\<lparr>df_code = ''QUEUE_PUBLISH_FAILED'', df_failed = pw_clock w (2 * k + 1),
    df_max = pub_max_attempts p, df_next = pw_clock w (2 * k + 1) + delay_seconds (clm_attempt c) * 1000\<rparr>"
  let ?mid = "pw_others w (2 * k + 1) db"
  note mid = others_steps [OF assms(1,3), of "2 * k + 1"]
  have time: "t \<le> pw_clock w (2 * k + 1)" "date_range (pw_clock w (2 * k + 1))"
    "date_range (pw_clock w (2 * k + 1) + 300000)" using assms(1) by (simp_all add: fair_world_def)
  have next_ok: "date_range (df_next ?f)" "df_failed ?f \<le> df_next ?f"
    using time delay_bounds [of "clm_attempt c"] by (auto simp: date_range_def)
  have code: "failure_code_ok ''QUEUE_PUBLISH_FAILED''"
    by (simp add: failure_code_ok_def len_in_def upper_char_def code_unit_def)
  obtain d db' where f: "record_failure c ?f ?mid = Inr (d, db')" "row_passed r db'" "outbox_steps ?mid db'"
    by (rule fail_open [OF mid(2) claim_open_steps [OF mid(1) assms(4)], of ?f])
      (use assms(2,5) time next_ok code in \<open>auto simp: publisher_ok_def\<close>)
  then have "publish_failure p w k c db = Inr (d, db')"
    using time(2) next_ok(1) by (simp add: publish_failure_def then_q_def lift_q_def Let_def)
  with f(2,3) mid(1) show ?thesis by (metis that rtranclp_trans)
qed

lemma publish_attempt_open:
  assumes "fair_world h T t w" and "outbox_ok db" and "claim_open c r db" and "clm_claimed c = t"
  obtains (settled) b db' where "publish_attempt w k c db = (Inr b, db')" and "row_passed r db'"
      and "outbox_steps db db'"
    | (unsent) "publish_attempt w k c db = (Inl (), db)"
proof (cases "pw_send w k (clm_message c)")
  case (Inl u)
  then show ?thesis using unsent by (simp add: publish_attempt_def)
next
  case (Inr provider)
  note mid = others_steps [OF assms(1,2), of "2 * k"]
  have time: "t \<le> pw_clock w (2 * k)" "date_range (pw_clock w (2 * k))" "pred_option (len_in 1 512) provider"
    using assms(1) Inr by (auto simp: fair_world_def)
  obtain b db' where d: "mark_delivered c (pw_clock w (2 * k)) provider (pw_others w (2 * k) db) = Inr (b, db')"
    "row_passed r db'" "outbox_steps (pw_others w (2 * k) db) db'"
    by (rule deliver_open [OF mid(2) claim_open_steps [OF mid(1) assms(3)] _ time(2,3)])
      (use time assms(4) in auto)
  then have "publish_attempt w k c db = (Inr b, db')"
    using Inr time(2) by (simp add: publish_attempt_def then_q_def lift_q_def Let_def)
  with d(2,3) mid(1) show ?thesis by (metis settled rtranclp_trans)
qed

lemma publish_claims_settle:
  assumes "fair_world h T t w" and "publisher_ok p" and "outbox_ok db"
    and "\<And>c. c \<in> set cs \<Longrightarrow> clm_claimed c = t \<and> claim_open c (row c) db"
  shows "\<exists>s' db'. publish_claims p w k cs s db = Inr (s', db') \<and> outbox_steps db db' \<and>
    pub_claimed s' = pub_claimed s \<and> summary_settled s' = summary_settled s + length cs \<and>
    (\<forall>c \<in> set cs. row_passed (row c) db')"
  using assms(3,4)
proof (induction cs arbitrary: k s db)
  case (Cons c cs)
  have c: "clm_claimed c = t" "claim_open c (row c) db" using Cons.prems(2) by auto
  have "\<exists>s1 db1. publish_claims p w k (c # cs) s db = publish_claims p w (Suc k) cs s1 db1 \<and>
      outbox_steps db db1 \<and> row_passed (row c) db1 \<and> pub_claimed s1 = pub_claimed s \<and>
      summary_settled s1 = Suc (summary_settled s)"
  proof (rule publish_attempt_open [OF assms(1) Cons.prems(1) c(2,1), of k])
    fix b db1
    assume "publish_attempt w k c db = (Inr b, db1)" "row_passed (row c) db1" "outbox_steps db db1"
    then show ?thesis
      by (intro exI [of _ "count_delivery b s"] exI [of _ db1]) (simp add: count_settled)
  next
    assume u: "publish_attempt w k c db = (Inl (), db)"
    obtain d db1 where "publish_failure p w k c db = Inr (d, db1)" "row_passed (row c) db1" "outbox_steps db db1"
      by (rule publish_failure_open [OF assms(1,2) Cons.prems(1) c(2,1)])
    with u show ?thesis
      by (intro exI [of _ "count_failure d s"] exI [of _ db1]) (simp add: count_settled)
  qed
  then obtain s1 db1 where one: "publish_claims p w k (c # cs) s db = publish_claims p w (Suc k) cs s1 db1"
    "outbox_steps db db1" "row_passed (row c) db1" "pub_claimed s1 = pub_claimed s"
    "summary_settled s1 = Suc (summary_settled s)" by blast
  have "clm_claimed d = t \<and> claim_open d (row d) db1" if "d \<in> set cs" for d
    using Cons.prems(2) that one(2) claim_open_steps by auto
  from Cons.IH [OF outbox_steps_ok [OF one(2) Cons.prems(1)] this, of "Suc k" s1]
  obtain s' db' where rest: "publish_claims p w (Suc k) cs s1 db1 = Inr (s', db')" "outbox_steps db1 db'"
    "pub_claimed s' = pub_claimed s1" "summary_settled s' = summary_settled s1 + length cs"
    "\<forall>d \<in> set cs. row_passed (row d) db'" by blast
  have "row_passed (row c) db'" using one(3) rest(2) row_passed_steps by blast
  with one rest show ?case
    by (intro exI [of _ s'] exI [of _ db']) auto
qed simp


section \<open>An event that is claimed twice and delivered\<close>

definition sample_message :: queue_message where
  "sample_message = \<lparr>msg_case_id = ''c'', msg_event_id = ''e'', msg_job_id = ''j'',
     msg_kind = ReproductionRequested, msg_tenant = ''t''\<rparr>"

definition sample_event :: outbox_row where
  "sample_event = recovery_outbox_row sample_message 0 0"

definition posted_store :: store where
  "posted_store = claimed_store\<lparr>st_outbox := [sample_event]\<rparr>"

definition sending_store :: store where
  "sending_store = claimed_store\<lparr>st_outbox := [claim_event 1000 61000 ''p'' sample_event]\<rparr>"

definition sending_again_store :: store where
  "sending_again_store = claimed_store\<lparr>st_outbox :=
     [claim_event 61000 121000 ''q'' (claim_event 1000 61000 ''p'' sample_event)]\<rparr>"

definition delivered_store :: store where
  "delivered_store = claimed_store\<lparr>st_outbox :=
     [deliver_event 2000 (Some ''id'') (claim_event 1000 61000 ''p'' sample_event)]\<rparr>"

definition sample_claim :: outbox_claim where
  "sample_claim = \<lparr>clm_claimed = 1000, clm_expires = 61000, clm_owner = ''p'', clm_attempt = 1,
     clm_message = sample_message, clm_version = 2\<rparr>"

lemmas event_defs = sample_event_def recovery_outbox_row_def sample_message_def claim_event_def
  deliver_event_def sample_claim_def

lemma append_sample: "append_outbox sample_message claimed_store = Inr ((), posted_store)"
  by (simp add: append_outbox_def run_query queue_message_ok_def event_defs text_checks insert_outbox_def
      outbox_row_ok_def has_job_def sample_store_defs posted_store_def)

lemma claim_event_sample:
  "claim_pending (\<lambda>_ _. True) (\<lambda>_. False) 1000 60 10 ''p'' posted_store = Inr ([sample_claim], sending_store)"
  by (simp add: claim_pending_def run_query text_checks claim_candidates_def outbox_due_def posted_store_def
      sending_store_def update_outbox_def update_where_def outbox_update_ok_def successor_version_def
      outbox_row_ok_def event_defs row_claim_def queue_message_ok_def)

lemma claim_again_sample:
  "claim_pending (\<lambda>_ _. True) (\<lambda>_. False) 61000 60 10 ''q'' sending_store =
     Inr ([sample_claim\<lparr>clm_claimed := 61000, clm_expires := 121000, clm_owner := ''q'', clm_attempt := 2,
       clm_version := 3\<rparr>], sending_again_store)"
  by (simp add: claim_pending_def run_query text_checks claim_candidates_def outbox_due_def
      sending_store_def sending_again_store_def update_outbox_def update_where_def outbox_update_ok_def
      successor_version_def outbox_row_ok_def event_defs row_claim_def queue_message_ok_def)

lemma deliver_sample: "mark_delivered sample_claim 2000 (Some ''id'') sending_store = Inr (True, delivered_store)"
  by (simp add: mark_delivered_def run_query text_checks holds_claim_def sending_store_def delivered_store_def
      update_outbox_def update_where_def outbox_update_ok_def successor_version_def outbox_row_ok_def event_defs)

lemma reachable_events:
  "reachable_outbox plain_host sample_times posted_store"
  "reachable_outbox plain_host sample_times sending_store"
  "reachable_outbox plain_host sample_times delivered_store"
proof -
  have "reachable_outbox plain_host sample_times claimed_store"
    by (rule reachable_outbox.empty) (simp add: sample_store_defs)
  then show p: "reachable_outbox plain_host sample_times posted_store"
    by (rule reachable_outbox.step [OF _ outbox_op.appends [OF append_sample]])
  then show s: "reachable_outbox plain_host sample_times sending_store"
    by (rule reachable_outbox.step [OF _ outbox_op.claims [OF claim_event_sample]])
  then show "reachable_outbox plain_host sample_times delivered_store"
    by (rule reachable_outbox.step [OF _ outbox_op.delivers [OF deliver_sample]])
qed

theorem settled_event_is_final_witness:
  "mark_delivered sample_claim 3000 None delivered_store = Inr (False, delivered_store)"
proof -
  let ?e = "deliver_event 2000 (Some ''id'') (claim_event 1000 61000 ''p'' sample_event)"
  have "?e \<in> set (st_outbox delivered_store)" by (simp add: delivered_store_def)
  moreover have "or_status ?e = OutDelivered" by (simp add: deliver_event_def)
  moreover have "(msg_tenant (clm_message sample_claim), msg_event_id (clm_message sample_claim)) = outbox_key ?e"
    by (simp add: event_defs outbox_key_def)
  ultimately show ?thesis
    using settled_event_is_final [OF reachable_events(3) _ _ rtranclp.rtrancl_refl, of ?e] by blast
qed

theorem superseded_claim_is_lost_witness:
  "mark_delivered sample_claim 61500 None sending_again_store = Inr (False, sending_again_store) \<and>
   record_failure sample_claim \<lparr>df_code = ''X'', df_failed = 61500, df_max = 1, df_next = 61500\<rparr> sending_again_store =
     Inr (DispLost, sending_again_store)"
  by (rule superseded_claim_is_lost [OF reachable_events(1) claim_event_sample list.set_intros(1)
      rtranclp.rtrancl_refl claim_again_sample list.set_intros(1) _ rtranclp.rtrancl_refl]) simp


end
