(* ===== verification/Quota.thy ===== *)
theory Quota
  imports Observers Fencing
begin

text \<open>
  The quota ledger: \<open>PostgresQuotaLedger\<close> of src/src/infrastructure/postgres/repositories.ts,
  and the bound that it keeps. A reservation counts with its reserved amount until it expires,
  is released, or is committed with the amount that was used.
\<close>

section \<open>Limits and usage\<close>

type_synonym quota_limits = "quota_resource \<Rightarrow> int"

fun default_quota_limits :: quota_limits where
  "default_quota_limits ActiveJobs = 2"
| "default_quota_limits ArtifactBytes = 1073741824"
| "default_quota_limits CpuMilliseconds = 3600000"
| "default_quota_limits Exports = 20"

definition quota_limits_ok :: "quota_limits \<Rightarrow> bool" where
  "quota_limits_ok limits \<longleftrightarrow>
     list_all (\<lambda>r. safe_int (limits r) \<and> 1 \<le> limits r) [ActiveJobs, ArtifactBytes, CpuMilliseconds, Exports]"

definition quota_charge :: "quota_row \<Rightarrow> int" where
  "quota_charge q =
     (case qr_state q of QuotaCommitted \<Rightarrow> qr_actual q | QuotaReserved \<Rightarrow> qr_reserved q | _ \<Rightarrow> 0)"

definition quota_counts :: "int \<Rightarrow> string \<Rightarrow> quota_resource \<Rightarrow> quota_row \<Rightarrow> bool" where
  "quota_counts now tenant resource q \<longleftrightarrow>
     qr_tenant q = tenant \<and> qr_resource q = resource \<and>
     (qr_state q = QuotaReserved \<or> qr_state q = QuotaCommitted) \<and> now < qr_window_end q"

definition quota_usage :: "store \<Rightarrow> string \<Rightarrow> quota_resource \<Rightarrow> int" where
  "quota_usage db tenant resource =
     sum_list (map quota_charge (filter (quota_counts (st_now db) tenant resource) (st_quota db)))"

section \<open>The operations\<close>

definition expire_reservations :: "string \<Rightarrow> quota_resource \<Rightarrow> unit query" where
  "expire_reservations tenant resource =
     then_q (read_q st_now) (\<lambda>now.
     then_q (update_quota
         (\<lambda>q. qr_tenant q = tenant \<and> qr_resource q = resource \<and> qr_state q = QuotaReserved \<and>
           qr_expires q \<le> now)
         (\<lambda>q. q\<lparr>qr_state := QuotaExpired, qr_updated := now\<rparr>)) (\<lambda>_. return_q ()))"

definition new_quota_row :: "quota_reservation \<Rightarrow> job_row \<Rightarrow> quota_row" where
  "new_quota_row r j =
     \<lparr>qr_tenant = quota_tenant r, qr_id = quota_id r, qr_case = quota_case_id r,
      qr_job = quota_job_id r, qr_resource = quota_resource r, qr_window_start = jr_created j,
      qr_window_end = quota_expires_at r, qr_reserved = quota_amount r, qr_actual = 0,
      qr_state = QuotaReserved, qr_expires = quota_expires_at r, qr_created = jr_created j,
      qr_updated = jr_created j\<rparr>"

definition reservation_jobs :: "quota_reservation \<Rightarrow> store \<Rightarrow> job_row list" where
  "reservation_jobs r db =
     filter (\<lambda>j. jr_tenant j = quota_tenant r \<and> jr_case j = quota_case_id r \<and> jr_id j = quota_job_id r)
       (st_jobs db)"

definition reserve_quota :: "quota_limits \<Rightarrow> quota_reservation \<Rightarrow> bool query" where
  "reserve_quota limits raw =
     then_q (lift_q (parse_as quota_reservation_ok StoredSchema raw)) (\<lambda>r.
     then_q (expire_reservations (quota_tenant r) (quota_resource r)) (\<lambda>_.
     then_q (read_q (\<lambda>db. quota_usage db (quota_tenant r) (quota_resource r))) (\<lambda>used.
       if \<not> safe_int used \<or> used < 0 \<or> limits (quota_resource r) < used + quota_amount r
       then return_q False
       else
         then_q (read_q (reservation_jobs r)) (\<lambda>jobs. case jobs of
             [] \<Rightarrow> return_q False
           | j # _ \<Rightarrow> insert_quota (new_quota_row r j)))))"

definition commit_quota :: "string \<Rightarrow> string \<Rightarrow> int \<Rightarrow> unit query" where
  "commit_quota tenant reservation actual =
     then_q (read_q st_now) (\<lambda>now.
     then_q (update_quota
         (\<lambda>q. qr_tenant q = tenant \<and> qr_id q = reservation \<and> qr_state q = QuotaReserved \<and>
           0 \<le> actual \<and> actual \<le> qr_reserved q)
         (\<lambda>q. q\<lparr>qr_state := QuotaCommitted, qr_actual := actual, qr_updated := now\<rparr>)) (\<lambda>rows.
       if rows = [] then throw_q QuotaReservationInactive else return_q ()))"

definition release_quota :: "string \<Rightarrow> string \<Rightarrow> unit query" where
  "release_quota tenant reservation =
     then_q (read_q st_now) (\<lambda>now.
     then_q (update_quota
         (\<lambda>q. qr_tenant q = tenant \<and> qr_id q = reservation \<and> qr_state q = QuotaReserved)
         (\<lambda>q. q\<lparr>qr_state := QuotaReleased, qr_updated := now\<rparr>)) (\<lambda>rows.
       if rows = [] then throw_q QuotaReservationInactive else return_q ()))"

definition release_quota_for_job :: "string \<Rightarrow> string \<Rightarrow> int \<Rightarrow> nat query" where
  "release_quota_for_job tenant jid at_ms =
     (if \<not> date_range at_ms \<or> \<not> opaque_id tenant \<or> \<not> opaque_id jid
      then throw_q QuotaReservationInactive
      else release_active_job_quota tenant jid at_ms)"

section \<open>Charges never grow but by a reservation\<close>

definition row_settles :: "quota_row \<Rightarrow> quota_row \<Rightarrow> bool" where
  "row_settles q q' \<longleftrightarrow>
     qr_tenant q' = qr_tenant q \<and> qr_resource q' = qr_resource q \<and> qr_window_end q' = qr_window_end q \<and>
     quota_charge q' \<le> quota_charge q \<and> 0 \<le> quota_charge q'"

definition charges_ok :: "store \<Rightarrow> bool" where
  "charges_ok db \<longleftrightarrow> list_all (\<lambda>q. 0 \<le> quota_charge q) (st_quota db)"

definition quota_settles :: "store \<Rightarrow> store \<Rightarrow> bool" where
  "quota_settles db db' \<longleftrightarrow>
     st_now db' = st_now db \<and> (charges_ok db \<longrightarrow> list_all2 row_settles (st_quota db) (st_quota db'))"

definition charge_at :: "int \<Rightarrow> string \<Rightarrow> quota_resource \<Rightarrow> quota_row \<Rightarrow> int" where
  "charge_at now tenant resource q =
     (if qr_tenant q = tenant \<and> qr_resource q = resource \<and> now < qr_window_end q then quota_charge q else 0)"

lemma usage_charges: "quota_usage db tenant resource = sum_list (map (charge_at (st_now db) tenant resource) (st_quota db))"
proof -
  have "sum_list (map quota_charge (filter (quota_counts now tenant resource) qs)) =
      sum_list (map (charge_at now tenant resource) qs)" for now qs
    by (induction qs) (auto simp: quota_counts_def charge_at_def quota_charge_def split: quota_state.splits)
  then show ?thesis by (simp add: quota_usage_def)
qed

lemma settles_charge:
  assumes "list_all2 row_settles qs qs'" and "now \<le> now'"
  shows "sum_list (map (charge_at now' tenant resource) qs') \<le> sum_list (map (charge_at now tenant resource) qs)"
  using assms
proof (induction rule: list_all2_induct)
  case (Cons q qs q' qs')
  then have "charge_at now' tenant resource q' \<le> charge_at now tenant resource q"
    by (auto simp: row_settles_def charge_at_def)
  with Cons show ?case by simp
qed simp

lemma settles_ok: "quota_settles db db' \<Longrightarrow> charges_ok db \<Longrightarrow> charges_ok db'"
  by (auto simp: quota_settles_def charges_ok_def row_settles_def list_all_length list_all2_conv_all_nth)

lemma settles_usage:
  "quota_settles db db' \<Longrightarrow> charges_ok db \<Longrightarrow> quota_usage db' tenant resource \<le> quota_usage db tenant resource"
  by (simp add: usage_charges quota_settles_def settles_charge)

lemma row_settles_refl: "0 \<le> quota_charge q \<Longrightarrow> row_settles q q"
  by (simp add: row_settles_def)

lemma settles_refl: "st_quota db' = st_quota db \<Longrightarrow> st_now db' = st_now db \<Longrightarrow> quota_settles db db'"
  by (auto simp: quota_settles_def charges_ok_def list_all_length list_all2_conv_all_nth row_settles_refl)

lemma row_settles_trans: "row_settles p q \<Longrightarrow> row_settles q r \<Longrightarrow> row_settles p r"
  by (auto simp: row_settles_def)

lemma settles_trans: "quota_settles db mid \<Longrightarrow> quota_settles mid db' \<Longrightarrow> quota_settles db db'"
  using settles_ok [of db mid] by (auto simp: quota_settles_def intro: list_all2_trans [OF row_settles_trans])

lemma update_quota_settles:
  assumes "update_quota sel upd db = Inr (rows, db')"
    and "\<And>q. sel q \<Longrightarrow> quota_row_ok (upd q) \<Longrightarrow> 0 \<le> quota_charge q \<Longrightarrow> row_settles q (upd q)"
  shows "quota_settles db db'"
  using assms
  by (auto simp: update_quota_def update_where_def and_then_Inr_iff quota_settles_def charges_ok_def
      list_ex_iff list_all_length list_all2_conv_all_nth row_settles_refl split: if_splits)

lemma release_settles: "release_active_job_quota tenant jid t db = Inr (n, db') \<Longrightarrow> quota_settles db db'"
  by (auto simp: release_active_job_quota_def then_q_Inr quota_row_ok_def row_settles_def quota_charge_def
      elim!: update_quota_settles)

interpretation quota_observer: table_observer quota_settles
proof
  fix db db' :: store and m next_ms t b
  assume "insert_outbox True (recovery_outbox_row m next_ms t) db = Inr (b, db')"
  then show "quota_settles db db'"
    by (auto simp: insert_outbox_def intro!: settles_refl split: if_splits)
qed (auto intro: settles_refl settles_trans release_settles)


section \<open>The bound\<close>

lemma expire_settles: "expire_reservations tenant resource db = Inr (u, db') \<Longrightarrow> quota_settles db db'"
  by (auto simp: expire_reservations_def then_q_Inr row_settles_def quota_charge_def elim!: update_quota_settles)

lemma commit_settles: "commit_quota tenant reservation actual db = Inr (u, db') \<Longrightarrow> quota_settles db db'"
  by (auto simp: commit_quota_def then_q_Inr row_settles_def quota_charge_def elim!: update_quota_settles
      split: if_splits)

lemma release_quota_settles: "release_quota tenant reservation db = Inr (u, db') \<Longrightarrow> quota_settles db db'"
  by (auto simp: release_quota_def then_q_Inr row_settles_def quota_charge_def elim!: update_quota_settles
      split: if_splits)

lemma release_for_job_settles: "release_quota_for_job tenant jid t db = Inr (n, db') \<Longrightarrow> quota_settles db db'"
  by (auto simp: release_quota_for_job_def intro: release_settles split: if_splits)

text \<open>A reservation first lets go what has expired, and then adds one row or none.\<close>

lemma reserve_quota_Inr:
  assumes "reserve_quota limits r db = Inr (ok, db')"
  obtains mid where "quota_settles db mid" and "\<not> ok" and "db' = mid"
    | mid j where "quota_settles db mid" and "ok" and "quota_reservation_ok r" and "j \<in> set (st_jobs db)"
        and "0 \<le> quota_usage mid (quota_tenant r) (quota_resource r)"
        and "quota_usage mid (quota_tenant r) (quota_resource r) + quota_amount r \<le> limits (quota_resource r)"
        and "db' = mid\<lparr>st_quota := new_quota_row r j # st_quota mid\<rparr>"
proof -
  from assms obtain mid u where mid: "expire_reservations (quota_tenant r) (quota_resource r) db = Inr (u, mid)"
    "quota_reservation_ok r"
    and rest: "(if \<not> safe_int (quota_usage mid (quota_tenant r) (quota_resource r)) \<or>
        quota_usage mid (quota_tenant r) (quota_resource r) < 0 \<or>
        limits (quota_resource r) < quota_usage mid (quota_tenant r) (quota_resource r) + quota_amount r
      then return_q False
      else then_q (read_q (reservation_jobs r)) (\<lambda>jobs. case jobs of
          [] \<Rightarrow> return_q False | j # _ \<Rightarrow> insert_quota (new_quota_row r j))) mid = Inr (ok, db')"
    by (auto simp: reserve_quota_def then_q_Inr)
  note s = expire_settles [OF mid(1)]
  have jobs: "st_jobs mid = st_jobs db"
    using mid(1) by (auto simp: expire_reservations_def then_q_Inr update_quota_def and_then_Inr_iff)
  show ?thesis
  proof (cases "safe_int (quota_usage mid (quota_tenant r) (quota_resource r)) \<and>
      0 \<le> quota_usage mid (quota_tenant r) (quota_resource r) \<and>
      quota_usage mid (quota_tenant r) (quota_resource r) + quota_amount r \<le> limits (quota_resource r)")
    case False
    with rest s that(1) show ?thesis by (auto simp: not_le split: if_splits)
  next
    case True
    then have rest: "(case reservation_jobs r mid of [] \<Rightarrow> return_q False
        | j # _ \<Rightarrow> insert_quota (new_quota_row r j)) mid = Inr (ok, db')"
      using rest by (simp add: then_q_Inr)
    show ?thesis
    proof (cases "reservation_jobs r mid")
      case Nil
      with rest s that(1) show ?thesis by auto
    next
      case (Cons j js)
      then have "j \<in> set (reservation_jobs r mid)" by simp
      then have "j \<in> set (st_jobs db)" using jobs by (simp add: reservation_jobs_def)
      with Cons rest s True mid(2) that show ?thesis by (auto simp: insert_quota_def split: if_splits)
    qed
  qed
qed

inductive quota_op :: "quota_limits \<Rightarrow> js_host \<Rightarrow> time_host \<Rightarrow> store \<Rightarrow> store \<Rightarrow> bool" for limits h T where
  reserves: "reserve_quota limits r db = Inr (b, db') \<Longrightarrow> quota_op limits h T db db'"
| commits: "commit_quota tenant reservation actual db = Inr (u, db') \<Longrightarrow> quota_op limits h T db db'"
| releases: "release_quota tenant reservation db = Inr (u, db') \<Longrightarrow> quota_op limits h T db db'"
| job_ends: "release_quota_for_job tenant jid t db = Inr (n, db') \<Longrightarrow> quota_op limits h T db db'"
| completes: "complete_lease h T l r db = Inr (r', db') \<Longrightarrow> quota_op limits h T db db'"
| fails: "fail_lease h T l f db = Inr (d, db') \<Longrightarrow> quota_op limits h T db db'"
| cancels: "cancel_lease h T l t db = Inr (r', db') \<Longrightarrow> quota_op limits h T db db'"
| requests: "request_cancellation h T scope jid t db = Inr (c, db') \<Longrightarrow> quota_op limits h T db db'"
| recovers: "recover_expired_leases h T before locked t n db = Inr (s, db') \<Longrightarrow> quota_op limits h T db db'"
| ticks: "st_quota db' = st_quota db \<Longrightarrow> st_now db \<le> st_now db' \<Longrightarrow> quota_op limits h T db db'"

inductive reachable_quota :: "quota_limits \<Rightarrow> js_host \<Rightarrow> time_host \<Rightarrow> store \<Rightarrow> bool" for limits h T where
  empty: "st_quota db = [] \<Longrightarrow> reachable_quota limits h T db"
| step: "reachable_quota limits h T db \<Longrightarrow> quota_op limits h T db db' \<Longrightarrow> reachable_quota limits h T db'"

definition within_limits :: "quota_limits \<Rightarrow> store \<Rightarrow> bool" where
  "within_limits limits db \<longleftrightarrow>
     charges_ok db \<and> (\<forall>tenant resource. quota_usage db tenant resource \<le> limits resource)"

lemma settles_within: "quota_settles db db' \<Longrightarrow> within_limits limits db \<Longrightarrow> within_limits limits db'"
  using settles_ok settles_usage order_trans unfolding within_limits_def by blast

lemma reserve_within:
  assumes "reserve_quota limits r db = Inr (b, db')" and "within_limits limits db"
  shows "within_limits limits db'"
  using assms(1)
proof (cases rule: reserve_quota_Inr)
  case (1 mid)
  with assms(2) show ?thesis by (auto intro: settles_within)
next
  case (2 mid j)
  have mid: "within_limits limits mid" using settles_within [OF 2(1) assms(2)] .
  have "0 < quota_amount r" using 2(3) by (simp add: quota_reservation_ok_def)
  then have "charges_ok db'"
    using mid 2(7) by (simp add: within_limits_def charges_ok_def new_quota_row_def quota_charge_def)
  moreover have "quota_usage db' tenant resource \<le> limits resource" for tenant resource
  proof -
    have "quota_usage db' tenant resource =
        charge_at (st_now mid) tenant resource (new_quota_row r j) + quota_usage mid tenant resource"
      using 2(7) by (simp add: usage_charges)
    moreover have "quota_usage mid tenant resource \<le> limits resource"
      using mid by (simp add: within_limits_def)
    ultimately show ?thesis
      using 2(6) \<open>0 < quota_amount r\<close>
      by (auto simp: charge_at_def new_quota_row_def quota_charge_def)
  qed
  ultimately show ?thesis by (simp add: within_limits_def)
qed

lemma quota_op_within: "quota_op limits h T db db' \<Longrightarrow> within_limits limits db \<Longrightarrow> within_limits limits db'"
proof (induction rule: quota_op.induct)
  case (ticks db' db)
  have "list_all2 row_settles (st_quota db) (st_quota db')"
    using ticks by (auto simp: within_limits_def charges_ok_def list_all_length list_all2_conv_all_nth row_settles_refl)
  from settles_charge [OF this ticks(2)] have "quota_usage db' tenant resource \<le> quota_usage db tenant resource"
    for tenant resource by (simp add: usage_charges)
  with ticks show ?case unfolding within_limits_def charges_ok_def using order_trans by fastforce
qed (blast intro: reserve_within settles_within commit_settles release_quota_settles release_for_job_settles
      within_D [OF quota_observer.within_leases(3)] within_D [OF quota_observer.within_leases(4)]
      within_D [OF quota_observer.within_leases(5)] within_D [OF quota_observer.within_records(3)]
      within_D [OF quota_observer.within_recovery])+

text \<open>
  C7. Whatever reservations, commitments, releases, endings of jobs and recoveries happen in what
  order, and however the clock moves on: what a tenant holds of a resource, reserved or
  committed, in the windows that are still open, never exceeds the limit.
\<close>

theorem quota_is_never_exceeded:
  assumes "reachable_quota limits h T db" and "quota_limits_ok limits"
  shows "quota_usage db tenant resource \<le> limits resource"
proof -
  have limit: "0 \<le> limits resource" for resource
    using assms(2) by (cases resource) (simp_all add: quota_limits_ok_def)
  have "within_limits limits db"
    using assms(1)
  proof (induction rule: reachable_quota.induct)
    case (empty db)
    with limit show ?case by (simp add: within_limits_def charges_ok_def usage_charges)
  qed (rule quota_op_within)
  then show ?thesis by (simp add: within_limits_def)
qed

definition sample_reservation :: "string \<Rightarrow> quota_reservation" where
  "sample_reservation name =
     \<lparr>quota_amount = 1, quota_case_id = ''c'', quota_expires_at = 90000, quota_job_id = ''j'', quota_id = name,
      quota_resource = ActiveJobs, quota_tenant = ''t''\<rparr>"

definition booked_store :: "string list \<Rightarrow> store" where
  "booked_store names =
     claimed_store\<lparr>st_quota := map (\<lambda>n. new_quota_row (sample_reservation n) sample_job) names\<rparr>"

lemma book_sample:
  "reserve_quota default_quota_limits (sample_reservation ''q'') (booked_store []) = Inr (True, booked_store [''q''])"
  "reserve_quota default_quota_limits (sample_reservation ''r'') (booked_store [''q'']) =
     Inr (True, booked_store [''r'', ''q''])"
  "reserve_quota default_quota_limits (sample_reservation ''s'') (booked_store [''r'', ''q'']) =
     Inr (False, booked_store [''r'', ''q''])"
  by (simp_all add: reserve_quota_def run_query quota_reservation_ok_def text_checks sample_reservation_def
      expire_reservations_def update_quota_def update_where_def booked_store_def sample_store_defs
      new_quota_row_def quota_usage_def quota_counts_def quota_charge_def reservation_jobs_def
      insert_quota_def quota_row_ok_def quota_key_def)

theorem quota_is_never_exceeded_witness:
  "quota_usage (booked_store [''r'', ''q'']) ''t'' ActiveJobs \<le> 2"
proof -
  have "reachable_quota default_quota_limits plain_host sample_times (booked_store [])"
    by (rule reachable_quota.empty) (simp add: booked_store_def)
  then have "reachable_quota default_quota_limits plain_host sample_times (booked_store [''q''])"
    by (rule reachable_quota.step [OF _ quota_op.reserves [OF book_sample(1)]])
  then have "reachable_quota default_quota_limits plain_host sample_times (booked_store [''r'', ''q''])"
    by (rule reachable_quota.step [OF _ quota_op.reserves [OF book_sample(2)]])
  moreover have "quota_limits_ok default_quota_limits"
    by (simp add: quota_limits_ok_def safe_int_def max_safe_integer_def)
  ultimately show ?thesis
    using quota_is_never_exceeded [of default_quota_limits plain_host sample_times _ "''t''" ActiveJobs] by auto
qed

end
