(* ===== verification/Workflow.thy ===== *)
theory Workflow
  imports Delivery Quota
begin

text \<open>
  The two units of work that a tenant starts: \<open>reserveDurableStart\<close> of
  src/src/application/durable-start.ts and \<open>requestDurableCancellation\<close> of
  src/src/application/durable-cancellation.ts, over the ports that
  \<open>PostgresUnitOfWork\<close> of src/src/infrastructure/postgres/repositories.ts hands out.
\<close>

section \<open>The unit of work\<close>

text \<open>
  The operation on the store of its transaction. An error of a port is passed on with
  \<open>wrap\<close>; an operation that throws rolls the transaction back.
\<close>

definition port :: "(store_error \<Rightarrow> 'e) \<Rightarrow> 'a query \<Rightarrow> store \<Rightarrow> 'e + 'a \<times> store" where
  "port wrap m db = (case m db of Inl e \<Rightarrow> Inl (wrap e) | Inr r \<Rightarrow> Inr r)"

definition run_unit_of_work :: "(store \<Rightarrow> 'e + 'a \<times> store) \<Rightarrow> store \<Rightarrow> ('e + 'a) \<times> store" where
  "run_unit_of_work m db = (case m db of Inl e \<Rightarrow> (Inl e, db) | Inr (x, db') \<Rightarrow> (Inr x, db'))"

lemma port_Inr [simp]: "port wrap m db = Inr r \<longleftrightarrow> m db = Inr r"
  by (simp add: port_def split: sum.splits)

section \<open>Starting a reproduction\<close>

record start_input =
  start_audit :: audit_event
  start_message :: queue_message
  start_quota :: quota_reservation
  start_record :: durable_record

datatype start_error = IdempotencyConflict | InvalidStartInput | QuotaExceeded | StartStore store_error

definition start_input_ok :: "js_host \<Rightarrow> time_host \<Rightarrow> start_input \<Rightarrow> bool" where
  "start_input_ok h T i \<longleftrightarrow>
     (let r = start_record i; s = rec_snapshot r; a = start_audit i; m = start_message i;
          q = start_quota i in
      tenant_scope_ok \<lparr>scope_caller = rec_caller r, scope_principal = rec_caller r,
        scope_tenant = rec_tenant r\<rparr> \<and>
      snapshot_ok h T s \<and> audit_event_ok a \<and> queue_message_ok m \<and> quota_reservation_ok q \<and>
      rec_case_id r = case_id (snap_case s) \<and> rec_job_id r = job_id (snap_job s) \<and>
      rec_case_id r = job_case_id (snap_job s) \<and>
      audit_tenant a = rec_tenant r \<and> audit_target_id a = rec_case_id r \<and>
      msg_tenant m = rec_tenant r \<and> msg_case_id m = rec_case_id r \<and> msg_job_id m = rec_job_id r \<and>
      quota_tenant q = rec_tenant r \<and> quota_case_id q = rec_case_id r \<and> quota_job_id q = rec_job_id r)"

definition start_in_transaction ::
  "js_host \<Rightarrow> time_host \<Rightarrow> quota_limits \<Rightarrow> start_input \<Rightarrow> store
     \<Rightarrow> start_error + (bool \<times> durable_record) \<times> store" where
  "start_in_transaction h T limits i db =
     and_then (port StartStore (reserve h T (start_record i)) db) (\<lambda>((created, r), db1).
       if \<not> created then
         (if rec_command_hash r \<noteq> rec_command_hash (start_record i) then Inl IdempotencyConflict
          else Inr ((False, r), db1))
       else
         and_then (port StartStore (reserve_quota limits (start_quota i)) db1) (\<lambda>(granted, db2).
           if \<not> granted then Inl QuotaExceeded
           else
             and_then (port StartStore (append_audit (start_audit i)) db2) (\<lambda>(_, db3).
             and_then (port StartStore (append_outbox (start_message i)) db3) (\<lambda>(_, db4).
               Inr ((True, r), db4)))))"

definition reserve_durable_start ::
  "js_host \<Rightarrow> time_host \<Rightarrow> quota_limits \<Rightarrow> start_input \<Rightarrow> store
     \<Rightarrow> (start_error + bool \<times> durable_record) \<times> store" where
  "reserve_durable_start h T limits i db =
     (if \<not> start_input_ok h T i then (Inl InvalidStartInput, db)
      else run_unit_of_work (start_in_transaction h T limits i) db)"

section \<open>Cancelling a reproduction\<close>

datatype cancel_disposition = CancelDone | CancelNotFound | CancelRequested
datatype cancel_error = InvalidCancellation | CancelStore store_error

record cancel_outcome =
  cxl_accepted :: bool
  cxl_changed :: bool
  cxl_disposition :: cancel_disposition

text \<open>The first 40 hexadecimal digits of a digest of tenant, job and a constant.\<close>

definition cancellation_digest :: "js_host \<Rightarrow> string \<Rightarrow> string \<Rightarrow> string" where
  "cancellation_digest h tenant jid =
     take 40 (sha256_hex h (utf8_encode (tenant @ '':'' @ jid @ '':cancellation'')))"

definition cancellation_audit :: "js_host \<Rightarrow> tenant_scope \<Rightarrow> string \<Rightarrow> int \<Rightarrow> bool \<Rightarrow> audit_event" where
  "cancellation_audit h scope jid at_ms cancelled =
     \<lparr>audit_action = ''job.cancellation-requested'', audit_actor = scope_principal scope,
      audit_event_id = ''audit_cancel_'' @ cancellation_digest h (scope_tenant scope) jid,
      audit_metadata =
        [(''disposition'', AuditText (if cancelled then ''cancelled'' else ''requested''))],
      audit_occurred_at = at_ms, audit_outcome = AuditSuccess, audit_target_id = jid,
      audit_target_type = TargetJob, audit_tenant = scope_tenant scope\<rparr>"

definition cancellation_message :: "js_host \<Rightarrow> tenant_scope \<Rightarrow> string \<Rightarrow> string \<Rightarrow> queue_message" where
  "cancellation_message h scope jid cid =
     \<lparr>msg_case_id = cid,
      msg_event_id = ''outbox_cancel_'' @ cancellation_digest h (scope_tenant scope) jid,
      msg_job_id = jid, msg_kind = ReproductionCancelled, msg_tenant = scope_tenant scope\<rparr>"

definition cancel_in_transaction ::
  "js_host \<Rightarrow> time_host \<Rightarrow> tenant_scope \<Rightarrow> string \<Rightarrow> int \<Rightarrow> cancel_outcome query" where
  "cancel_in_transaction h T scope jid at_ms =
     then_q (request_cancellation h T scope jid at_ms) (\<lambda>found. case found of
         None \<Rightarrow> return_q \<lparr>cxl_accepted = False, cxl_changed = False, cxl_disposition = CancelNotFound\<rparr>
       | Some c \<Rightarrow>
           let outcome = \<lparr>cxl_accepted = True, cxl_changed = can_changed c,
             cxl_disposition = (if can_cancelled c then CancelDone else CancelRequested)\<rparr> in
           if can_changed c then
             then_q (append_audit (cancellation_audit h scope jid at_ms (can_cancelled c))) (\<lambda>_.
             then_q (append_outbox (cancellation_message h scope jid (can_case_id c))) (\<lambda>_.
               return_q outcome))
           else return_q outcome)"

definition request_durable_cancellation ::
  "js_host \<Rightarrow> time_host \<Rightarrow> tenant_scope \<Rightarrow> string \<Rightarrow> int \<Rightarrow> store
     \<Rightarrow> (cancel_error + cancel_outcome) \<times> store" where
  "request_durable_cancellation h T scope jid at_ms db =
     (if \<not> tenant_scope_ok scope then (Inl (CancelStore StoredSchema), db)
      else if \<not> date_range at_ms \<or> \<not> opaque_id jid then (Inl InvalidCancellation, db)
      else run_unit_of_work (port CancelStore (cancel_in_transaction h T scope jid at_ms)) db)"

section \<open>A reserved record reads back\<close>

lemma row_job_new:
  assumes "snapshot_ok h T (rec_snapshot r)" and "rec_case_id r = job_case_id (snap_job (rec_snapshot r))"
    and "rec_job_id r = job_id (snap_job (rec_snapshot r))"
  shows "row_job (new_job_row r) = Inr (snap_job (rec_snapshot r))"
proof -
  let ?j = "snap_job (rec_snapshot r)"
  have j: "safe_int (job_attempt ?j)" "date_range (job_created_at ?j)" "date_range (job_updated_at ?j)"
    using assms(1) valid_instant_date_range
    by (auto simp: snapshot_ok_def reproduction_job_ok_def safe_int_def max_safe_integer_def)
  have "stored_failure (new_job_row r) = Inr (job_failure ?j)"
    by (cases "job_failure ?j") (simp_all add: stored_failure_def new_job_row_def Let_def)
  with j assms(2,3) show ?thesis
    by (simp add: row_job_def new_job_row_def Let_def stored_integer_def stored_timestamp_def)
qed


lemma initial_record:
  assumes "durable_record_ok h T True r"
  shows "snapshot_ok h T (rec_snapshot r)" "rec_case_id r = job_case_id (snap_job (rec_snapshot r))"
    "rec_job_id r = job_id (snap_job (rec_snapshot r))" "rec_version r = 1"
    "pred_option (execution_request_ok h) (rec_request r)"
    "rec_case_id r = case_id (snap_case (rec_snapshot r))" "durable_record_ok h T False r"
    "tenant_scope_ok \<lparr>scope_caller = rec_caller r, scope_principal = rec_caller r, scope_tenant = rec_tenant r\<rparr>"
  using assms unfolding durable_record_ok_def Let_def by blast+

lemma row_to_record_new:
  assumes "durable_record_ok h T True r"
  shows "row_to_record h T (new_key_row r, new_case_row r, new_job_row r) = Inr r"
proof -
  note ok = initial_record [OF assms]
  have "row_record (new_case_row r, new_key_row r) (rec_snapshot r) 1 = r"
    using ok(4) by (simp add: row_record_def new_case_row_def new_key_row_def record_descriptor_def)
  moreover have "\<lparr>snap_case = dom_case (cr_domain (new_case_row r)), snap_job = snap_job (rec_snapshot r),
      snap_source = dom_source (cr_domain (new_case_row r)), snap_result = dom_result (cr_domain (new_case_row r)),
      snap_sample = dom_sample (cr_domain (new_case_row r))\<rparr> = rec_snapshot r"
    by (simp add: new_case_row_def record_domain_def Let_def)
  moreover have "cr_version (new_case_row r) = 1" "jr_version (new_job_row r) = 1"
    "desc_request (cr_descriptor (new_case_row r)) = rec_request r"
    "cr_state (new_case_row r) = case_st (snap_case (rec_snapshot r))"
    "dom_case (cr_domain (new_case_row r)) = snap_case (rec_snapshot r)"
    by (simp_all add: new_case_row_def new_job_row_def record_descriptor_def record_domain_def Let_def)
  ultimately show ?thesis
    using ok(1,5,7) row_job_new [OF ok(1-3)]
    by (simp add: row_to_record_def Let_def stored_integer_def safe_int_def max_safe_integer_def)
qed

definition record_scope :: "durable_record \<Rightarrow> tenant_scope" where
  "record_scope r = \<lparr>scope_caller = rec_caller r, scope_principal = rec_caller r, scope_tenant = rec_tenant r\<rparr>"

text \<open>The three rows of a record stand first in their tables.\<close>

definition freshly_stored :: "durable_record \<Rightarrow> store \<Rightarrow> bool" where
  "freshly_stored r db \<longleftrightarrow>
     (\<exists>ks cs js. st_keys db = new_key_row r # ks \<and> st_cases db = new_case_row r # cs \<and>
        st_jobs db = new_job_row r # js)"

lemma find_fresh:
  assumes "freshly_stored r db" and "durable_record_ok h T True r"
    and "cond (new_key_row r, new_case_row r, new_job_row r)"
  shows "find_durable h T cond db = Inr (Some r, db)"
proof -
  have "\<exists>rows. durable_rows cond db = (new_key_row r, new_case_row r, new_job_row r) # rows"
    using assms(1,3)
    by (auto simp: freshly_stored_def durable_rows_def new_key_row_def new_case_row_def new_job_row_def Let_def)
  with row_to_record_new [OF assms(2)] show ?thesis by (auto simp: find_durable_def)
qed

lemma find_fresh_by:
  assumes "freshly_stored r db" and "durable_record_ok h T True r"
  shows "find_by_idempotency_key h T (record_scope r) (rec_idempotency_key r) db = Inr (Some r, db)"
    and "find_by_case_id h T (record_scope r) (rec_case_id r) db = Inr (Some r, db)"
    and "find_by_job_id h T (record_scope r) (rec_job_id r) db = Inr (Some r, db)"
proof -
  have "tenant_scope_ok (record_scope r)"
    using initial_record(8) [OF assms(2)] by (simp add: record_scope_def)
  then show "find_by_idempotency_key h T (record_scope r) (rec_idempotency_key r) db = Inr (Some r, db)"
    "find_by_case_id h T (record_scope r) (rec_case_id r) db = Inr (Some r, db)"
    "find_by_job_id h T (record_scope r) (rec_job_id r) db = Inr (Some r, db)"
    using assms
    by (simp_all add: find_by_idempotency_key_def find_by_case_id_def find_by_job_id_def then_q_def lift_q_def
        find_fresh scope_of_def record_scope_def new_key_row_def new_case_row_def new_job_row_def Let_def)
qed

lemma reserve_Inr:
  assumes "reserve h T r db = Inr ((created, r'), db')"
  obtains "\<not> created" and "db' = db" and "tenant_active db (rec_tenant r)"
      and "find_by_idempotency_key h T (record_scope r) (rec_idempotency_key r) db = Inr (Some r', db)"
  | "created" and "r' = r" and "durable_record_ok h T True r" and "tenant_active db (rec_tenant r)"
      and "freshly_stored r db'" and "same_work (db\<lparr>st_cases := st_cases db', st_jobs := st_jobs db',
        st_keys := st_keys db'\<rparr>) db'"
proof -
  from assms have ok: "durable_record_ok h T True r"
    and "reserve_in_transaction h T r db = Inr ((created, r'), db')"
    by (auto simp: reserve_def then_q_Inr validate_record_def)
  from this(2) show ?thesis
  proof (cases rule: reserve_in_transaction_Inr)
    case (1 old)
    with that(1) show ?thesis by (simp add: record_scope_def)
  next
    case 2
    with ok that(2) show ?thesis by (simp add: freshly_stored_def same_work_def)
  qed
qed

lemma fresh_same: "same_work db db' \<Longrightarrow> freshly_stored r db \<Longrightarrow> freshly_stored r db'"
  by (simp add: same_work_def freshly_stored_def)

lemma reserve_quota_same: "reserve_quota limits r db = Inr (b, db') \<Longrightarrow> same_work db db'"
  by (auto simp: reserve_quota_def expire_reservations_def then_q_Inr update_quota_def and_then_Inr_iff
      insert_quota_def same_work_def split: if_splits list.splits)

lemma append_outbox_same: "append_outbox m db = Inr (u, db') \<Longrightarrow> same_work db db'"
  by (auto simp: append_outbox_def then_q_Inr dest: insert_outbox_same)

lemma same_work_trans: "same_work db mid \<Longrightarrow> same_work mid db' \<Longrightarrow> same_work db db'"
  by (simp add: same_work_def)

text \<open>
  A record that the repository reserved is read back from its three rows exactly as it was,
  by its case, its job or its idempotency key.
\<close>

theorem reserved_record_reads_back:
  assumes "reserve h T r db = Inr ((True, r'), db')"
  shows "r' = r \<and> find_by_case_id h T (record_scope r) (rec_case_id r) db' = Inr (Some r, db') \<and>
    find_by_job_id h T (record_scope r) (rec_job_id r) db' = Inr (Some r, db') \<and>
    find_by_idempotency_key h T (record_scope r) (rec_idempotency_key r) db' = Inr (Some r, db')"
  using assms by (cases rule: reserve_Inr) (simp_all add: find_fresh_by)


section \<open>A start is whole, and happens once\<close>

lemma reserve_tenants: "reserve h T r db = Inr ((True, r'), db') \<Longrightarrow> st_tenants db' = st_tenants db"
  by (erule reserve_Inr) (auto simp: same_work_def)

lemma started_Inr:
  assumes "reserve_durable_start h T limits i db = (Inr (True, r), db')"
  obtains db1 db2 db3 where "start_input_ok h T i" and "reserve h T (start_record i) db = Inr ((True, r), db1)"
    and "reserve_quota limits (start_quota i) db1 = Inr (True, db2)"
    and "append_audit (start_audit i) db2 = Inr ((), db3)"
    and "append_outbox (start_message i) db3 = Inr ((), db')"
  using assms
  by (auto simp: reserve_durable_start_def run_unit_of_work_def start_in_transaction_def and_then_Inr_iff
      split: if_splits sum.splits prod.splits)

lemma started_store:
  assumes "reserve_durable_start h T limits i db = (Inr (True, r), db')"
  shows "r = start_record i" and "durable_record_ok h T True r" and "freshly_stored r db'"
    and "tenant_active db' (rec_tenant r)"
proof -
  from assms obtain db1 db2 db3 where s: "reserve h T (start_record i) db = Inr ((True, r), db1)"
    "same_work db1 db2" "same_work db2 db3" "same_work db3 db'"
    by (rule started_Inr) (blast dest: reserve_quota_same append_audit_same append_outbox_same)
  from s(2-4) have same: "same_work db1 db'" by (blast intro: same_work_trans)
  from s(1) have r: "r = start_record i" "durable_record_ok h T True (start_record i)"
    "freshly_stored (start_record i) db1" "tenant_active db (rec_tenant (start_record i))"
    by (auto elim: reserve_Inr)
  show "r = start_record i" by (rule r)
  show "durable_record_ok h T True r" using r(1,2) by simp
  show "freshly_stored r db'" using r(1,3) fresh_same [OF same] by simp
  have "st_tenants db' = st_tenants db" using same reserve_tenants [OF s(1)] by (simp add: same_work_def)
  with r(1,4) show "tenant_active db' (rec_tenant r)" by (simp add: tenant_active_def)
qed

lemma append_outbox_row:
  assumes "append_outbox m db = Inr (u, db')"
  shows "\<exists>e \<in> set (st_outbox db'). or_message e = m \<and> or_status e = OutPending \<and> or_deliveries e = 0"
  using assms
  by (auto simp: append_outbox_def then_q_Inr insert_outbox_def recovery_outbox_row_def split: if_splits)

text \<open>
  C10. A start happens as a whole. When it is granted, the record is readable, its quota is
  reserved, its audit event is written and its message waits in the outbox; when it finds the
  same command under the key, or fails for any reason, the store is untouched.
\<close>

theorem start_is_all_or_nothing:
  "case reserve_durable_start h T limits i db of
     (Inr (True, r), db') \<Rightarrow>
       r = start_record i \<and> find_by_job_id h T (record_scope r) (rec_job_id r) db' = Inr (Some r, db') \<and>
       (\<exists>q \<in> set (st_quota db'). qr_tenant q = rec_tenant r \<and> qr_job q = rec_job_id r \<and>
          qr_state q = QuotaReserved \<and> qr_reserved q = quota_amount (start_quota i)) \<and>
       start_audit i \<in> set (st_audit db') \<and>
       (\<exists>e \<in> set (st_outbox db'). or_message e = start_message i \<and> or_status e = OutPending)
   | (Inr (False, r), db') \<Rightarrow> db' = db \<and> rec_command_hash r = rec_command_hash (start_record i)
   | (Inl e, db') \<Rightarrow> db' = db"
proof -
  obtain res db' where res: "reserve_durable_start h T limits i db = (res, db')" by fastforce
  consider (error) e where "res = Inl e" | (replay) r where "res = Inr (False, r)" | (started) r where "res = Inr (True, r)"
    by (metis (full_types) sum.exhaust surj_pair)
  then show ?thesis
  proof cases
    case error
    with res show ?thesis
      by (auto simp: reserve_durable_start_def run_unit_of_work_def split: if_splits sum.splits)
  next
    case (replay r)
    with res have "start_in_transaction h T limits i db = Inr ((False, r), db')"
      by (auto simp: reserve_durable_start_def run_unit_of_work_def split: if_splits sum.splits)
    then have "reserve h T (start_record i) db = Inr ((False, r), db')"
      and "rec_command_hash r = rec_command_hash (start_record i)"
      by (auto simp: start_in_transaction_def and_then_Inr_iff split: if_splits)
    with res replay show ?thesis by (auto elim: reserve_Inr)
  next
    case (started r)
    with res have st: "reserve_durable_start h T limits i db = (Inr (True, r), db')" by simp
    note s = started_store [OF st]
    from st obtain db1 db2 db3 where ops: "start_input_ok h T i"
      "reserve_quota limits (start_quota i) db1 = Inr (True, db2)"
      "append_audit (start_audit i) db2 = Inr ((), db3)" "append_outbox (start_message i) db3 = Inr ((), db')"
      by (rule started_Inr)
    have q: "\<exists>j. new_quota_row (start_quota i) j \<in> set (st_quota db2)"
      using ops(2) by (rule reserve_quota_Inr) auto
    have "start_audit i \<in> set (st_audit db3)" "st_quota db3 = st_quota db2"
      using ops(3) by (auto simp: append_audit_def then_q_Inr insert_audit_def split: if_splits)
    moreover have "st_audit db' = st_audit db3" "st_quota db' = st_quota db3"
      using ops(4) by (auto simp: append_outbox_def then_q_Inr insert_outbox_def split: if_splits)
    moreover have "qr_tenant (new_quota_row (start_quota i) j) = rec_tenant r"
      "qr_job (new_quota_row (start_quota i) j) = rec_job_id r"
      "qr_state (new_quota_row (start_quota i) j) = QuotaReserved"
      "qr_reserved (new_quota_row (start_quota i) j) = quota_amount (start_quota i)" for j
      using ops(1) s(1) by (simp_all add: start_input_ok_def new_quota_row_def Let_def)
    ultimately have "start_audit i \<in> set (st_audit db')"
      "\<exists>q \<in> set (st_quota db'). qr_tenant q = rec_tenant r \<and> qr_job q = rec_job_id r \<and>
          qr_state q = QuotaReserved \<and> qr_reserved q = quota_amount (start_quota i)"
      using q by (simp, metis)
    with st s(1) find_fresh_by(3) [OF s(3,2)] append_outbox_row [OF ops(4)] show ?thesis by auto
  qed
qed



section \<open>A cancellation happens once\<close>

interpretation key_observer: table_observer "\<lambda>db db'. set (st_keys db) \<subseteq> set (st_keys db')"
proof
  fix db db' :: store and tenant jid t and n :: nat
  assume "release_active_job_quota tenant jid t db = Inr (n, db')"
  then show "set (st_keys db) \<subseteq> set (st_keys db')"
    by (auto simp: release_active_job_quota_def then_q_Inr update_quota_def and_then_Inr_iff)
next
  fix db db' :: store and m next_ms t b
  assume "insert_outbox True (recovery_outbox_row m next_ms t) db = Inr (b, db')"
  then show "set (st_keys db) \<subseteq> set (st_keys db')"
    by (auto simp: insert_outbox_def split: if_splits)
qed auto

lemma store_step_keys: "store_step h T db db' \<Longrightarrow> set (st_keys db) \<subseteq> set (st_keys db')"
  by (induction rule: store_step.induct)
    (blast dest: within_D [OF key_observer.within_leases(1)] within_D [OF key_observer.within_leases(2)]
      within_D [OF key_observer.within_leases(3)] within_D [OF key_observer.within_leases(4)]
      within_D [OF key_observer.within_leases(5)] within_D [OF key_observer.within_leases(6)]
      within_D [OF key_observer.within_records(1)] within_D [OF key_observer.within_records(2)]
      within_D [OF key_observer.within_records(3)] within_D [OF key_observer.within_recovery] | simp)+

lemma later_store_keys: "later_store h T db db' \<Longrightarrow> set (st_keys db) \<subseteq> set (st_keys db')"
  by (induction rule: rtranclp_induct) (auto dest: store_step_keys)

definition cancelled_for :: "tenant_scope \<Rightarrow> string \<Rightarrow> store \<Rightarrow> bool" where
  "cancelled_for scope jid db \<longleftrightarrow>
     (\<exists>j \<in> set (selected_jobs scope jid db). cancel_pending j \<or> jr_state j = JobCancelled)"

lemma selected_job_iff:
  "j \<in> set (selected_jobs scope jid db) \<longleftrightarrow>
     j \<in> set (st_jobs db) \<and> job_key j = (scope_tenant scope, jid) \<and>
     (\<exists>i \<in> set (st_keys db). ir_tenant i = scope_tenant scope \<and> ir_job i = jid \<and> ir_caller i = scope_caller scope)"
  by (auto simp: selected_jobs_def job_key_def)

lemma effect_selected:
  assumes "job_effect db db' j j'" and "j \<in> set (selected_jobs scope jid db)" and "store_ok db"
  shows "j' \<in> set (selected_jobs scope jid db')"
proof -
  have j: "j \<in> set (st_jobs db)" "job_key j = (scope_tenant scope, jid)" "job_key j' = job_key j"
    "st_jobs db' = put_row job_key j' (st_jobs db)" "st_keys db' = st_keys db"
    using assms(1,2) job_move_keys(1) by (auto simp: job_effect_def selected_job_iff)
  have "j' \<in> set (st_jobs db')"
    using put_row_set [of job_key, OF _ j(1), of j'] j(3,4) assms(3) by (simp add: store_ok_def)
  with j assms(2) show ?thesis by (simp add: selected_job_iff)
qed

lemma accepted_is_cancelled:
  assumes "request_cancellation h T scope jid t db = Inr (Some c, db')" and "store_ok db"
  shows "cancelled_for scope jid db'"
  using assms(1) store_ok_keys [OF assms(2)]
proof (cases rule: request_cancellation_outcome)
  case (known j)
  then show ?thesis by (auto simp: cancelled_for_def cancel_pending_def)
next
  case (running j)
  have "cancel_pending (request_job t j)" using running(2) by (simp add: cancel_pending_def request_job_def)
  with effect_selected [OF running(4,1) assms(2)] show ?thesis by (auto simp: cancelled_for_def)
next
  case (queued j)
  have "jr_state (cancel_waiting t j) = JobCancelled" by (simp add: cancel_waiting_def)
  with effect_selected [OF queued(3,1) assms(2)] show ?thesis by (auto simp: cancelled_for_def)
qed simp

lemma cancelled_later:
  assumes "cancelled_for scope jid db" and "later_store h T db db'" and "store_ok db"
  shows "cancelled_for scope jid db'"
proof -
  from assms(1) obtain j where j: "j \<in> set (selected_jobs scope jid db)"
    "cancel_pending j \<or> jr_state j = JobCancelled" by (auto simp: cancelled_for_def)
  have steps: "job_steps db db'" using later_store_steps [OF assms(2,3)] by simp
  have "\<exists>j' \<in> set (st_jobs db'). job_key j' = job_key j \<and> (cancel_pending j' \<or> jr_state j' = JobCancelled)"
    using steps assms(3)
    by (rule job_steps_keep) (use j in \<open>auto simp: selected_job_iff dest: cancel_pending_move terminal_no_move\<close>)
  with j(1) later_store_keys [OF assms(2)] show ?thesis
    by (fastforce simp: cancelled_for_def selected_job_iff)
qed

lemma cancelled_again:
  assumes "cancelled_for scope jid db" and "store_ok db" and "tenant_scope_ok scope" and "date_range t"
    and "opaque_id jid"
  obtains c where "request_cancellation h T scope jid t db = Inr (Some c, db)" and "\<not> can_changed c"
proof -
  from assms(1) obtain j where j: "j \<in> set (selected_jobs scope jid db)"
    "cancel_pending j \<or> jr_state j = JobCancelled" by (auto simp: cancelled_for_def)
  then obtain i rest where sel: "selected_jobs scope jid db = i # rest" by (cases "selected_jobs scope jid db") auto
  then have "i \<in> set (selected_jobs scope jid db)" by simp
  then have "i = j" using j(1) store_ok_unique [OF assms(2)] by (auto simp: selected_job_iff)
  with j(2) sel assms(3-5) that show ?thesis
    by (auto simp: request_cancellation_def run_query cancellation_def cancel_pending_def)
qed

text \<open>
  A cancellation that was accepted is accepted again at any later time, and then changes nothing:
  no second audit event, no second message, no new state, whatever the workers did meanwhile.
\<close>

theorem cancellation_happens_once:
  assumes "reachable_store h T db"
    and "request_durable_cancellation h T scope jid t db = (Inr c, db')" and "cxl_accepted c"
    and "later_store h T db' db''" and "date_range t'"
  shows "\<exists>c'. request_durable_cancellation h T scope jid t' db'' = (Inr c', db'') \<and>
    cxl_accepted c' \<and> \<not> cxl_changed c'"
proof -
  have ok: "store_ok db" using reachable_store_ok [OF assms(1)] .
  from assms(2) have valid: "tenant_scope_ok scope" "opaque_id jid"
    and tx: "cancel_in_transaction h T scope jid t db = Inr (c, db')"
    by (auto simp: request_durable_cancellation_def run_unit_of_work_def split: if_splits sum.splits)
  then obtain found mid where req: "request_cancellation h T scope jid t db = Inr (found, mid)"
    and rest: "(case found of
         None \<Rightarrow> return_q \<lparr>cxl_accepted = False, cxl_changed = False, cxl_disposition = CancelNotFound\<rparr>
       | Some r \<Rightarrow>
           let outcome = \<lparr>cxl_accepted = True, cxl_changed = can_changed r,
             cxl_disposition = (if can_cancelled r then CancelDone else CancelRequested)\<rparr> in
           if can_changed r then
             then_q (append_audit (cancellation_audit h scope jid t (can_cancelled r))) (\<lambda>_.
             then_q (append_outbox (cancellation_message h scope jid (can_case_id r))) (\<lambda>_.
               return_q outcome))
           else return_q outcome) mid = Inr (c, db')"
    unfolding cancel_in_transaction_def then_q_Inr [of "request_cancellation h T scope jid t"] by blast
  from rest assms(3) obtain r where r: "found = Some r" by (cases found) auto
  have rest: "same_work mid db'"
  proof (cases "can_changed r")
    case True
    with rest r obtain u v mid2 where
      "append_audit (cancellation_audit h scope jid t (can_cancelled r)) mid = Inr (u, mid2)"
      "append_outbox (cancellation_message h scope jid (can_case_id r)) mid2 = Inr (v, db')"
      by (auto simp: then_q_Inr Let_def)
    then show ?thesis by (blast intro: same_work_trans append_audit_same append_outbox_same)
  next
    case False
    with rest r show ?thesis by (simp add: Let_def)
  qed
  note req = req [unfolded r]
  have mid: "store_ok mid"
    using later_store_steps [OF r_into_rtranclp ok] store_step.request [OF req] by blast
  have "cancelled_for scope jid db'"
    using accepted_is_cancelled [OF req ok] rest
    by (simp add: cancelled_for_def selected_jobs_def same_work_def)
  moreover have ok': "store_ok db'" using mid rest by (simp add: store_ok_def same_work_def)
  ultimately have "cancelled_for scope jid db''" using cancelled_later assms(4) by blast
  then obtain c' where c': "request_cancellation h T scope jid t' db'' = Inr (Some c', db'')" "\<not> can_changed c'"
    using cancelled_again valid assms(5) later_store_steps [OF assms(4) ok'] by metis
  then show ?thesis
    using valid assms(5)
    by (simp add: request_durable_cancellation_def run_unit_of_work_def port_def cancel_in_transaction_def
        then_q_def return_q_def)
qed


section \<open>A reproduction that is started, and cancelled while it runs\<close>

theorem reserved_record_reads_back_witness:
  "find_by_job_id plain_host sample_times (record_scope durable_sample) (rec_job_id durable_sample) reserved_store =
     Inr (Some durable_sample, reserved_store)"
  using reserved_record_reads_back [OF reserve_sample] by simp

definition sample_start :: start_input where
  "sample_start =
     \<lparr>start_audit = \<lparr>audit_action = ''case.created'', audit_actor = ''u'', audit_event_id = ''a'',
        audit_metadata = [], audit_occurred_at = 0, audit_outcome = AuditSuccess, audit_target_id = ''c'',
        audit_target_type = TargetCase, audit_tenant = ''t''\<rparr>,
      start_message = sample_message, start_quota = sample_reservation ''q'', start_record = durable_sample\<rparr>"

definition started_sample :: store where
  "started_sample = reserved_store\<lparr>st_quota := [new_quota_row (sample_reservation ''q'') sample_job],
     st_audit := [start_audit sample_start], st_outbox := [sample_event]\<rparr>"

lemma sample_start_ok: "start_input_ok plain_host sample_times sample_start"
proof -
  have "audit_event_ok (start_audit sample_start)" by code_simp
  moreover have "queue_message_ok sample_message" "quota_reservation_ok (sample_reservation ''q'')"
    by (simp_all add: queue_message_ok_def sample_message_def quota_reservation_ok_def sample_reservation_def
        run_query text_checks)
  ultimately show ?thesis
    using initial_record [OF durable_sample_ok]
    by (simp add: start_input_ok_def sample_start_def Let_def)
      (simp add: durable_sample_def sample_message_def sample_reservation_def)
qed

lemma start_sample:
  "reserve_durable_start plain_host sample_times default_quota_limits sample_start sample_store =
     (Inr (True, durable_sample), started_sample)"
proof -
  have "reserve_quota default_quota_limits (sample_reservation ''q'') reserved_store =
      Inr (True, reserved_store\<lparr>st_quota := [new_quota_row (sample_reservation ''q'') sample_job]\<rparr>)"
    by (simp add: reserve_quota_def run_query quota_reservation_ok_def text_checks sample_reservation_def
      expire_reservations_def update_quota_def update_where_def sample_store_defs new_quota_row_def
      quota_usage_def reservation_jobs_def insert_quota_def quota_row_ok_def)
  moreover have "append_audit (start_audit sample_start)
      (reserved_store\<lparr>st_quota := [new_quota_row (sample_reservation ''q'') sample_job]\<rparr>) =
      Inr ((), started_sample\<lparr>st_outbox := []\<rparr>)"
  proof -
    have "audit_event_ok (start_audit sample_start)" by code_simp
    then show ?thesis
      by (simp add: append_audit_def then_q_def lift_q_def insert_audit_def started_sample_def sample_store_defs)
        (simp add: sample_start_def)
  qed
  moreover have "append_outbox sample_message (started_sample\<lparr>st_outbox := []\<rparr>) = Inr ((), started_sample)"
    by (simp add: append_outbox_def run_query queue_message_ok_def event_defs text_checks insert_outbox_def
        outbox_row_ok_def has_job_def sample_store_defs started_sample_def)
  ultimately show ?thesis
    using sample_start_ok reserve_sample
    by (simp add: reserve_durable_start_def run_unit_of_work_def start_in_transaction_def port_def)
      (simp add: sample_start_def port_def)
qed


definition sample_scope :: tenant_scope where
  "sample_scope = \<lparr>scope_caller = ''u'', scope_principal = ''u'', scope_tenant = ''t''\<rparr>"

definition cancelling_store :: store where
  "cancelling_store = requested_store\<lparr>
     st_audit := [cancellation_audit plain_host sample_scope ''j'' 2000 False],
     st_outbox := [recovery_outbox_row (cancellation_message plain_host sample_scope ''j'' ''c'') 0 0]\<rparr>"

lemma cancel_sample:
  "request_durable_cancellation plain_host sample_times sample_scope ''j'' 2000 claimed_store =
     (Inr \<lparr>cxl_accepted = True, cxl_changed = True, cxl_disposition = CancelRequested\<rparr>, cancelling_store)"
proof -
  have "tenant_scope_ok sample_scope" "opaque_id ''j''" "date_range 2000"
    by (simp_all add: sample_scope_def tenant_scope_ok_def text_checks date_range_def)
  moreover have "append_audit (cancellation_audit plain_host sample_scope ''j'' 2000 False) requested_store =
      Inr ((), cancelling_store\<lparr>st_outbox := []\<rparr>)"
  proof -
    have "audit_event_ok (cancellation_audit plain_host sample_scope ''j'' 2000 False)" by code_simp
    then show ?thesis
      by (simp add: append_audit_def then_q_def lift_q_def insert_audit_def cancelling_store_def
          requested_store_def sample_store_defs) (simp add: cancellation_audit_def sample_scope_def)
  qed
  moreover have "append_outbox (cancellation_message plain_host sample_scope ''j'' ''c'')
      (cancelling_store\<lparr>st_outbox := []\<rparr>) = Inr ((), cancelling_store)"
    by (simp add: append_outbox_def run_query queue_message_ok_def cancellation_message_def sample_scope_def
        cancellation_digest_def plain_host_def text_checks insert_outbox_def recovery_outbox_row_def
        outbox_row_ok_def has_job_def cancelling_store_def requested_store_def sample_store_defs
        claimed_job_def request_job_def)
  ultimately show ?thesis
    using request_sample
    by (simp add: request_durable_cancellation_def run_unit_of_work_def port_def cancel_in_transaction_def
        then_q_def return_q_def sample_scope_def)
qed

theorem cancellation_happens_once_witness:
  "\<exists>c'. request_durable_cancellation plain_host sample_times sample_scope ''j'' 3000 cancelling_store =
     (Inr c', cancelling_store) \<and> cxl_accepted c' \<and> \<not> cxl_changed c'"
proof -
  have "date_range 3000" by (simp add: date_range_def)
  then show ?thesis
    using cancellation_happens_once [OF reachable_samples(2) cancel_sample _ rtranclp.rtrancl_refl] by simp
qed

end
