(* ===== verification/Consumer.thy ===== *)
theory Consumer
  imports Workflow
begin

text \<open>
  \<open>DurableQueueConsumer\<close> of src/src/application/durable-queue-consumer.ts: one message of
  the queue claims its job, lets the worker run and ends the job. Every call of the repository
  is a transaction of its own, and other workers, recovery passes and tenants commit theirs
  between any two of them.
\<close>

section \<open>The consumer\<close>

datatype consume_outcome = OutCancelled | OutCompleted | OutExhausted | OutIgnored | OutRequeued

record consume_result =
  con_attempt :: "int option"
  con_outcome :: consume_outcome

datatype consume_error = ConsumeStore store_error | WorkUnavailable | ConsumeInvalid

text \<open>The \<open>code\<close> of the error that the worker throws, or none.\<close>

type_synonym worker_error = "string option"

definition retry_seconds :: "int \<Rightarrow> int" where
  "retry_seconds attempt = min 300 (5 * 2 ^ nat (max 0 (attempt - 1)))"

definition worker_failure :: "worker_error \<Rightarrow> string \<times> bool" where
  "worker_failure e =
     (case e of
        None \<Rightarrow> (''DURABLE_WORKER_FAILED'', True)
      | Some code \<Rightarrow>
          if List.member [''BUDGET_EXHAUSTED'', ''CANCELLED'', ''UNSUPPORTED_SOURCE''] code then (code, False)
          else if List.member [''EXECUTION_FAILED'', ''PROVIDER_INTERRUPTED''] code then (code, True)
          else (''DURABLE_WORKER_FAILED'', True))"

text \<open>
  What the consumer meets: the clock at its successive readings, the store as other
  transactions leave it before the consumer's \<open>k\<close>-th call, and the worker.
\<close>

record consumer_world =
  con_clock :: "nat \<Rightarrow> int"
  con_others :: "nat \<Rightarrow> store \<Rightarrow> store"
  con_worker :: "job_lease \<Rightarrow> queue_message \<Rightarrow> durable_record \<Rightarrow> worker_error + durable_record"

text \<open>A program of committed transactions: an error keeps what was committed before it.\<close>

type_synonym 'a program = "store \<Rightarrow> (consume_error + 'a) \<times> store"

definition call_p :: "'a query \<Rightarrow> 'a program" where
  "call_p m db = (case m db of Inl e \<Rightarrow> (Inl (ConsumeStore e), db) | Inr (x, db') \<Rightarrow> (Inr x, db'))"

definition then_p :: "'a program \<Rightarrow> ('a \<Rightarrow> 'b program) \<Rightarrow> 'b program" where
  "then_p m f db = (case m db of (Inl e, db') \<Rightarrow> (Inl e, db') | (Inr x, db') \<Rightarrow> f x db')"

definition return_p :: "'a \<Rightarrow> 'a program" where
  "return_p x db = (Inr x, db)"

definition throw_p :: "consume_error \<Rightarrow> 'a program" where
  "throw_p e db = (Inl e, db)"

text \<open>The \<open>k\<close>-th call, after what the others did.\<close>

definition at_call :: "consumer_world \<Rightarrow> nat \<Rightarrow> 'a query \<Rightarrow> 'a program" where
  "at_call w k m db = call_p m (con_others w k db)"

text \<open>\<open>toISOString\<close> of a reading of the clock.\<close>

definition reading :: "int \<Rightarrow> int query" where
  "reading t = lift_q (to_iso StoredDateRange t)"

definition end_cancelled ::
  "js_host \<Rightarrow> time_host \<Rightarrow> consumer_world \<Rightarrow> nat \<Rightarrow> int \<Rightarrow> job_lease \<Rightarrow> consume_result program" where
  "end_cancelled h T w k t lease =
     then_p (at_call w k (then_q (reading t) (\<lambda>at_ms. cancel_lease h T lease at_ms))) (\<lambda>_.
       return_p \<lparr>con_attempt = Some (lease_attempt lease), con_outcome = OutCancelled\<rparr>)"

fun disposition_outcome :: "disposition \<Rightarrow> consume_outcome" where
  "disposition_outcome Requeued = OutRequeued"
| "disposition_outcome Exhausted = OutExhausted"
| "disposition_outcome DispCancelled = OutCancelled"

definition end_failed ::
  "js_host \<Rightarrow> time_host \<Rightarrow> consumer_world \<Rightarrow> nat \<Rightarrow> int \<Rightarrow> job_lease \<Rightarrow> worker_error
     \<Rightarrow> consume_result program" where
  "end_failed h T w k t lease e =
     then_p (at_call w k (
         then_q (reading t) (\<lambda>at_ms.
         then_q (reading (t + retry_seconds (lease_attempt lease) * 1000)) (\<lambda>next_ms.
           fail_lease h T lease \<lparr>lf_at = at_ms, lf_code = fst (worker_failure e), lf_next = next_ms,
             lf_retryable = snd (worker_failure e)\<rparr>)))) (\<lambda>d.
       return_p \<lparr>con_attempt = Some (lease_attempt lease), con_outcome = disposition_outcome d\<rparr>)"

definition run_work ::
  "js_host \<Rightarrow> time_host \<Rightarrow> consumer_world \<Rightarrow> queue_message \<Rightarrow> job_lease \<Rightarrow> durable_record
     \<Rightarrow> consume_result program" where
  "run_work h T w m lease r =
     (case con_worker w lease m r of
        Inl e \<Rightarrow>
          then_p (at_call w 4 (is_cancellation_requested lease)) (\<lambda>requested.
            if requested then end_cancelled h T w 5 (con_clock w 1) lease
            else end_failed h T w 5 (con_clock w 1) lease e)
      | Inr completed \<Rightarrow>
          then_p (at_call w 4 (is_cancellation_requested lease)) (\<lambda>requested.
            if requested then end_cancelled h T w 5 (con_clock w 1) lease
            else
              then_p (at_call w 5 (complete_lease h T lease completed)) (\<lambda>_.
                return_p \<lparr>con_attempt = Some (lease_attempt lease), con_outcome = OutCompleted\<rparr>)))"

definition ignored :: consume_result where
  "ignored = \<lparr>con_attempt = None, con_outcome = OutIgnored\<rparr>"

definition consume_claimed ::
  "js_host \<Rightarrow> time_host \<Rightarrow> consumer_world \<Rightarrow> queue_message \<Rightarrow> job_lease \<Rightarrow> consume_result program" where
  "consume_claimed h T w m lease =
     then_p (at_call w 1 (find_by_lease h T lease)) (\<lambda>found. case found of
         None \<Rightarrow> throw_p WorkUnavailable
       | Some r \<Rightarrow>
           if rec_case_id r \<noteq> msg_case_id m then throw_p WorkUnavailable
           else
             then_p (at_call w 2 (is_cancellation_requested lease)) (\<lambda>requested.
               if requested then end_cancelled h T w 3 (con_clock w 1) lease
               else run_work h T w m lease r))"

definition consume ::
  "js_host \<Rightarrow> time_host \<Rightarrow> consumer_world \<Rightarrow> int \<Rightarrow> queue_message \<Rightarrow> string \<Rightarrow> consume_result program" where
  "consume h T w seconds m owner =
     (if \<not> queue_message_ok m then throw_p ConsumeInvalid
      else if msg_kind m \<noteq> ReproductionRequested \<and> msg_kind m \<noteq> RecoveryRequested then return_p ignored
      else
        then_p (at_call w 0 (then_q (reading (con_clock w 0)) (\<lambda>at_ms.
            claim_lease at_ms (msg_job_id m) seconds owner (msg_tenant m)))) (\<lambda>claimed. case claimed of
          None \<Rightarrow> return_p ignored
        | Some lease \<Rightarrow> consume_claimed h T w m lease))"

definition consumer_ok :: "int \<Rightarrow> bool" where
  "consumer_ok seconds \<longleftrightarrow> 1 \<le> seconds \<and> seconds \<le> 3600"


section \<open>Programs\<close>

lemma then_p_Inr:
  "then_p m f db = (Inr x, db') \<longleftrightarrow> (\<exists>y mid. m db = (Inr y, mid) \<and> f y mid = (Inr x, db'))"
  by (auto simp: then_p_def split: prod.splits sum.splits)

lemma at_call_Inr [simp]: "at_call w k m db = (Inr x, db') \<longleftrightarrow> m (con_others w k db) = Inr (x, db')"
  by (auto simp: at_call_def call_p_def split: sum.splits)

lemma program_Inr [simp]:
  "return_p x db = (Inr y, db') \<longleftrightarrow> y = x \<and> db' = db" "throw_p e db = (Inr y, db') \<longleftrightarrow> False"
  by (auto simp: return_p_def throw_p_def)

lemma reading_Inr [simp]: "reading t db = Inr (x, db') \<longleftrightarrow> date_range t \<and> x = t \<and> db' = db"
  by (auto simp: reading_def)

section \<open>The row that an ended lease leaves\<close>

definition left_as :: "job_lease \<Rightarrow> job_state set \<Rightarrow> store \<Rightarrow> bool" where
  "left_as l states db \<longleftrightarrow>
     (\<exists>j \<in> set (st_jobs db). job_key j = (lease_tenant l, lease_job l) \<and> jr_attempt j = lease_attempt l \<and>
        jr_owner j = None \<and> jr_state j \<in> states)"

lemma effect_row:
  assumes "job_effect db db' j j'" and "store_ok db"
  shows "j' \<in> set (st_jobs db')"
proof -
  have "j \<in> set (st_jobs db)" "job_key j' = job_key j" "st_jobs db' = put_row job_key j' (st_jobs db)"
    using assms(1) job_move_keys(1) by (auto simp: job_effect_def)
  with put_row_set [of job_key, OF _ this(1), of j'] assms(2) show ?thesis by (simp add: store_ok_def)
qed

lemma effect_left_as:
  assumes "job_effect db db' j j'" and "store_ok db" and "holds_lease l j" and "jr_attempt j' = jr_attempt j"
    and "jr_owner j' = None" and "jr_state j' \<in> states"
  shows "left_as l states db'"
proof -
  have "job_key j' = (lease_tenant l, lease_job l)"
    using assms(1) job_move_keys(1) holds_lease_key [OF assms(3)] by (auto simp: job_effect_def)
  moreover have "jr_attempt j' = lease_attempt l" using assms(3,4) by (simp add: holds_lease_def)
  ultimately show ?thesis
    using effect_row [OF assms(1,2)] assms(5,6) by (auto simp: left_as_def)
qed

lemma cancelled_left:
  assumes "cancel_lease h T l t db = Inr (r, db')" and "store_ok db"
  shows "left_as l {JobCancelled} db'"
  using cancel_lease_Inr [OF assms(1)] store_ok_keys [OF assms(2)]
proof (rule cancel_lease_in_transaction_Inr)
  fix j assume "holds_lease l j" "job_effect db db' j (cancel_running t j)"
  then show ?thesis
    using effect_left_as [where j = j and j' = "cancel_running t j" and states = "{JobCancelled}", OF _ assms(2)]
    by (simp add: cancel_running_def clear_lease_def)
qed

lemma completed_left:
  assumes "complete_lease h T l r db = Inr (r', db')" and "store_ok db"
  shows "left_as l {Succeeded, Failed} db'"
proof -
  note c = complete_lease_Inr [OF assms(1)]
  from c(1) store_ok_keys [OF assms(2)] c(3,5,4) show ?thesis
  proof (rule complete_in_transaction_Inr)
    fix j assume "holds_lease l j" "job_effect db db' j (finish_job r j)"
    then show ?thesis
      using effect_left_as [where j = j and j' = "finish_job r j" and states = "{Succeeded, Failed}", OF _ assms(2)] c(3)
      by (simp add: finish_job_def clear_lease_def Let_def)
  qed
qed

fun disposition_state :: "disposition \<Rightarrow> job_state" where
  "disposition_state Requeued = Queued"
| "disposition_state Exhausted = Failed"
| "disposition_state DispCancelled = JobCancelled"

lemma left_as_same: "left_as l states mid \<Longrightarrow> same_work mid db \<Longrightarrow> left_as l states db"
  by (simp add: left_as_def same_work_def)

lemma failed_left:
  assumes "fail_lease h T l f db = Inr (d, db')" and "store_ok db"
  shows "left_as l {disposition_state d} db'"
  using fail_lease_Inr(1) [OF assms(1)] store_ok_keys [OF assms(2)]
proof (cases rule: fail_in_transaction_Inr)
  case (1 j)
  then show ?thesis
    using effect_left_as [OF 1(4) assms(2) 1(1)] by (simp add: cancel_running_def clear_lease_def)
next
  case (2 j mid)
  have "left_as l {disposition_state d} mid"
    using 2(4) assms(2) 2(1) by (rule effect_left_as) (simp_all add: fail_job_def clear_lease_def Let_def 2(3))
  then show ?thesis using left_as_same 2(5) by blast
qed

section \<open>The outcome is true\<close>

fun outcome_states :: "consume_outcome \<Rightarrow> job_state set" where
  "outcome_states OutCancelled = {JobCancelled}"
| "outcome_states OutCompleted = {Succeeded, Failed}"
| "outcome_states OutExhausted = {Failed}"
| "outcome_states OutRequeued = {Queued}"
| "outcome_states OutIgnored = {}"

definition shared_world :: "js_host \<Rightarrow> time_host \<Rightarrow> consumer_world \<Rightarrow> bool" where
  "shared_world h T w \<longleftrightarrow> (\<forall>k db. later_store h T db (con_others w k db))"

lemma others_ok: "shared_world h T w \<Longrightarrow> store_ok db \<Longrightarrow> store_ok (con_others w k db)"
  using later_store_steps [of h T db "con_others w k db"] by (simp add: shared_world_def)

definition truly_ended :: "job_lease \<Rightarrow> consume_result \<Rightarrow> store \<Rightarrow> bool" where
  "truly_ended l res db \<longleftrightarrow>
     con_attempt res = Some (lease_attempt l) \<and> left_as l (outcome_states (con_outcome res)) db"

lemma end_cancelled_true:
  assumes "end_cancelled h T w k t l db = (Inr res, db')" and "shared_world h T w" and "store_ok db"
  shows "truly_ended l res db'"
  using assms(1) cancelled_left others_ok [OF assms(2,3)]
  by (fastforce simp: end_cancelled_def then_p_Inr then_q_Inr truly_ended_def)

lemma disposition_states: "outcome_states (disposition_outcome d) = {disposition_state d}"
  by (cases d) simp_all

lemma end_failed_true:
  assumes "end_failed h T w k t l e db = (Inr res, db')" and "shared_world h T w" and "store_ok db"
  shows "truly_ended l res db'"
  using assms(1) failed_left others_ok [OF assms(2,3)]
  by (fastforce simp: end_failed_def then_p_Inr then_q_Inr truly_ended_def disposition_states)

lemma requested_same: "is_cancellation_requested l db = Inr (b, db') \<Longrightarrow> db' = db"
  by (auto simp: is_cancellation_requested_def then_q_Inr)

lemma run_work_true:
  assumes "run_work h T w m l r db = (Inr res, db')" and "shared_world h T w" and "store_ok db"
  shows "truly_ended l res db'"
proof -
  have ok: "store_ok (con_others w 4 db)" using others_ok [OF assms(2,3)] .
  show ?thesis
  proof (cases "con_worker w l m r")
    case (Inl e)
    with assms(1) obtain requested mid where "is_cancellation_requested l (con_others w 4 db) = Inr (requested, mid)"
      "(if requested then end_cancelled h T w 5 (con_clock w 1) l
        else end_failed h T w 5 (con_clock w 1) l e) mid = (Inr res, db')"
      by (simp add: run_work_def then_p_Inr) blast
    moreover from this(1) have "mid = con_others w 4 db" by (rule requested_same)
    ultimately show ?thesis
      using end_cancelled_true [OF _ assms(2) ok] end_failed_true [OF _ assms(2) ok] by (cases requested) simp_all
  next
    case (Inr completed)
    with assms(1) obtain requested mid where "is_cancellation_requested l (con_others w 4 db) = Inr (requested, mid)"
      and rest: "(if requested then end_cancelled h T w 5 (con_clock w 1) l
        else then_p (at_call w 5 (complete_lease h T l completed)) (\<lambda>_.
          return_p \<lparr>con_attempt = Some (lease_attempt l), con_outcome = OutCompleted\<rparr>)) mid = (Inr res, db')"
      unfolding run_work_def by (simp add: then_p_Inr [of "at_call w 4 _"]) blast
    moreover from this(1) have [simp]: "mid = con_others w 4 db" by (rule requested_same)
    show ?thesis
    proof (cases requested)
      case True
      with rest show ?thesis using end_cancelled_true [OF _ assms(2) ok] by simp
    next
      case False
      with rest obtain r' where
        c: "complete_lease h T l completed (con_others w 5 (con_others w 4 db)) = Inr (r', db')"
        and res: "res = \<lparr>con_attempt = Some (lease_attempt l), con_outcome = OutCompleted\<rparr>"
        by (auto simp: then_p_Inr)
      show ?thesis using completed_left [OF c others_ok [OF assms(2) ok]] res by (simp add: truly_ended_def)
    qed
  qed
qed

lemma consume_claimed_true:
  assumes "consume_claimed h T w m l db = (Inr res, db')" and "shared_world h T w" and "store_ok db"
  shows "truly_ended l res db'"
proof -
  let ?one = "con_others w 1 db"
  let ?two = "con_others w 2 ?one"
  have ok: "store_ok ?two" using others_ok [OF assms(2)] assms(3) by blast
  from assms(1) obtain found where found: "find_by_lease h T l ?one = Inr (found, ?one)"
    and rest: "(case found of None \<Rightarrow> throw_p WorkUnavailable
       | Some r \<Rightarrow>
           if rec_case_id r \<noteq> msg_case_id m then throw_p WorkUnavailable
           else
             then_p (at_call w 2 (is_cancellation_requested l)) (\<lambda>requested.
               if requested then end_cancelled h T w 3 (con_clock w 1) l
               else run_work h T w m l r)) ?one = (Inr res, db')"
    unfolding consume_claimed_def then_p_Inr [of "at_call w 1 _"] by (auto dest: find_same(1))
  then obtain r where
    rest: "then_p (at_call w 2 (is_cancellation_requested l)) (\<lambda>requested.
       if requested then end_cancelled h T w 3 (con_clock w 1) l
       else run_work h T w m l r) ?one = (Inr res, db')"
    by (auto split: option.splits if_splits)
  then obtain requested mid where "is_cancellation_requested l ?two = Inr (requested, mid)"
    and rest: "(if requested then end_cancelled h T w 3 (con_clock w 1) l else run_work h T w m l r) mid = (Inr res, db')"
    by (simp add: then_p_Inr [of "at_call w 2 _"]) blast
  from this(1) have "mid = ?two" by (rule requested_same)
  with rest show ?thesis
    using end_cancelled_true [OF _ assms(2) ok] run_work_true [OF _ assms(2) ok] by (cases requested) simp_all
qed

text \<open>
  C6. What the consumer reports about a message is how it left the job: completed, cancelled,
  exhausted or queued again with the attempt that it claimed, and without a lease; or the
  message was ignored and no attempt was made. Other transactions may come in between.
\<close>

theorem consumed_outcome_is_true:
  assumes "reachable_store h T db" and "shared_world h T w"
    and "consume h T w seconds m owner db = (Inr res, db')"
  shows "(con_attempt res = None \<longleftrightarrow> con_outcome res = OutIgnored) \<and>
    (\<forall>a. con_attempt res = Some a \<longrightarrow>
       (\<exists>j \<in> set (st_jobs db'). job_key j = (msg_tenant m, msg_job_id m) \<and> jr_attempt j = a \<and>
          jr_owner j = None \<and> jr_state j \<in> outcome_states (con_outcome res)))"
proof -
  let ?zero = "con_others w 0 db"
  have ok: "store_ok ?zero" using others_ok [OF assms(2) reachable_store_ok [OF assms(1)]] .
  consider (ignored) "res = ignored" | (claimed) l mid where
      "claim_lease (con_clock w 0) (msg_job_id m) seconds owner (msg_tenant m) ?zero = Inr (Some l, mid)"
      "consume_claimed h T w m l mid = (Inr res, db')"
    using assms(3) by (auto simp: consume_def then_p_Inr then_q_Inr split: if_splits option.splits)
  then show ?thesis
  proof cases
    case ignored
    then show ?thesis by (simp add: ignored_def)
  next
    case (claimed l mid)
    have "store_ok mid"
      using store_step_steps [OF store_step.claim [OF claimed(1)] ok] job_steps_ok ok by blast
    from consume_claimed_true [OF claimed(2) assms(2) this] have t: "truly_ended l res db'" .
    have "lease_tenant l = msg_tenant m" "lease_job l = msg_job_id m"
      using claim_holds [OF claimed(1) ok] by metis+
    with t show ?thesis by (cases "con_outcome res") (auto simp: truly_ended_def left_as_def)
  qed
qed


section \<open>An overtaken worker\<close>

lemma lost_not_requested:
  assumes "store_ok db" and "j \<in> set (st_jobs db)" and "lease_lost l j" and "job_lease_ok l"
  shows "is_cancellation_requested l db = Inr (False, db)"
proof -
  have "filter (holds_lease l) (st_jobs db) = []"
    using lost_lease_unheld [OF assms(1-3)] by (auto simp: filter_empty_conv)
  with assms(4) show ?thesis by (simp add: is_cancellation_requested_def then_q_def lift_q_def read_q_def)
qed

lemma call_p_Inl: "m db = Inl e \<Longrightarrow> call_p m db = (Inl (ConsumeStore e), db)"
  by (simp add: call_p_def)

lemma claimed_lease_ok:
  assumes "claim_lease t jid seconds owner tenant db = Inr (Some l, db')" and "store_ok db"
  shows "job_lease_ok l"
  using assms(1) store_ok_keys [OF assms(2)] by (rule claim_lease_Inr) auto

lemma fenced_end:
  assumes "store_ok db" and "j \<in> set (st_jobs db)" and "lease_lost l j"
  shows "\<exists>e. call_p (complete_lease h T l r) db = (Inl e, db)"
    and "\<exists>e. call_p (then_q (reading t) (\<lambda>at_ms. then_q (reading t') (\<lambda>next_ms. fail_lease h T l (f at_ms next_ms)))) db
      = (Inl e, db)"
proof -
  note fenced = lost_lease_is_fenced [OF assms]
  show "\<exists>e. call_p (complete_lease h T l r) db = (Inl e, db)"
    using fenced(2) [of h T r] call_p_Inl unfolding not_Inr by blast
  have "\<nexists>x. then_q (reading t) (\<lambda>at_ms. then_q (reading t') (\<lambda>next_ms. fail_lease h T l (f at_ms next_ms))) db = Inr x"
    using fenced(3) [of h T] by (auto simp: then_q_Inr)
  then show "\<exists>e. call_p (then_q (reading t) (\<lambda>at_ms. then_q (reading t') (\<lambda>next_ms. fail_lease h T l (f at_ms next_ms)))) db
      = (Inl e, db)"
    using call_p_Inl unfolding not_Inr by blast
qed

text \<open>
  C17. A worker that runs past its lease, so that another consumer claims the job meanwhile, ends
  with an error whatever it produced, and the store stays as the others left it: its result,
  its failure and its cancellation are all refused.
\<close>

theorem overtaken_worker_changes_nothing:
  assumes "reachable_store h T db0"
    and "claim_lease t1 jid s1 o1 tenant db0 = Inr (Some l, db1)" and "later_store h T db1 start"
    and "later_store h T start db2" and "claim_lease t2 jid s2 o2 tenant db2 = Inr (Some l', db3)"
    and "later_store h T db3 (con_others w 4 start)"
    and "later_store h T (con_others w 4 start) (con_others w 5 (con_others w 4 start))"
  shows "\<exists>e. run_work h T w m l r start = (Inl e, con_others w 5 (con_others w 4 start))"
proof -
  let ?four = "con_others w 4 start" and ?five = "con_others w 5 (con_others w 4 start)"
  have ok0: "store_ok db0" using reachable_store_ok [OF assms(1)] .
  have ok1: "store_ok db1"
    using store_step_steps [OF store_step.claim [OF assms(2)] ok0] job_steps_ok ok0 by blast
  have "later_store h T db1 db2" using assms(3,4) by (rule rtranclp_trans)
  then have "job_steps db1 db2" using later_store_steps ok1 by blast
  note lost = newer_claim_loses_older [OF ok0 assms(2) this assms(5)]
  have four: "\<exists>j \<in> set (st_jobs ?four). lease_lost l j" "store_ok ?four"
    using later_store_steps [OF assms(6) lost(3)] lost(2,3) lease_lost_stays by blast+
  have five: "\<exists>j \<in> set (st_jobs ?five). lease_lost l j" "store_ok ?five"
    using later_store_steps [OF assms(7) four(2)] four lease_lost_stays by blast+
  have "is_cancellation_requested l ?four = Inr (False, ?four)"
    using four lost_not_requested claimed_lease_ok [OF assms(2) ok0] by blast
  then have work: "run_work h T w m l r start =
     (case con_worker w l m r of
        Inl e \<Rightarrow> end_failed h T w 5 (con_clock w 1) l e ?four
      | Inr completed \<Rightarrow> then_p (at_call w 5 (complete_lease h T l completed)) (\<lambda>_.
          return_p \<lparr>con_attempt = Some (lease_attempt l), con_outcome = OutCompleted\<rparr>) ?four)"
    by (simp add: run_work_def then_p_def at_call_def call_p_def split: sum.splits)
  show ?thesis
  proof (cases "con_worker w l m r")
    case (Inl e)
    let ?f = "\<lambda>at_ms next_ms. \<lparr>lf_at = at_ms, lf_code = fst (worker_failure e), lf_next = next_ms,
      lf_retryable = snd (worker_failure e)\<rparr>"
    from five obtain j where "j \<in> set (st_jobs ?five)" "lease_lost l j" by blast
    from fenced_end(2) [OF five(2) this, of "con_clock w 1"
        "con_clock w 1 + retry_seconds (lease_attempt l) * 1000" h T ?f] Inl work show ?thesis
      by (auto simp: end_failed_def then_p_def at_call_def)
  next
    case (Inr completed)
    from five obtain j where "j \<in> set (st_jobs ?five)" "lease_lost l j" by blast
    from fenced_end(1) [OF five(2) this, of h T completed] Inr work show ?thesis
      by (auto simp: then_p_def at_call_def)
  qed
qed

theorem overtaken_worker_changes_nothing_witness:
  "\<exists>e. run_work plain_host sample_times
     \<lparr>con_clock = (\<lambda>_. 62000), con_others = (\<lambda>k db. if k = 4 then taken_store else db),
      con_worker = (\<lambda>_ _ r. Inr r)\<rparr> sample_message sample_lease durable_sample claimed_store =
     (Inl e, taken_store)"
proof -
  let ?w = "\<lparr>con_clock = (\<lambda>_. 62000), con_others = (\<lambda>k db. if k = 4 then taken_store else db),
      con_worker = (\<lambda>_ _ r. Inr r)\<rparr>"
  have "con_others ?w 4 claimed_store = taken_store" "con_others ?w 5 taken_store = taken_store" by simp_all
  then show ?thesis
    using overtaken_worker_changes_nothing [OF reachable_samples(1) claim_sample rtranclp.rtrancl_refl
        rtranclp.rtrancl_refl take_over_sample, of ?w sample_message durable_sample] by simp
qed

section \<open>A message whose worker fails for good\<close>

definition sample_world :: consumer_world where
  "sample_world =
     \<lparr>con_clock = (\<lambda>k. if k = 0 then 1000 else 2000), con_others = (\<lambda>_ db. db),
      con_worker = (\<lambda>_ _ _. Inl (Some ''CANCELLED''))\<rparr>"

definition claimed_record :: durable_record where
  "claimed_record = durable_sample\<lparr>rec_snapshot := (rec_snapshot durable_sample)\<lparr>snap_job :=
      (snap_job (rec_snapshot durable_sample))\<lparr>job_attempt := 1, job_st := Running, job_updated_at := 1000\<rparr>\<rparr>,
    rec_updated_at := 1000, rec_version := 2\<rparr>"

lemma find_claimed:
  "find_by_lease plain_host sample_times sample_lease claimed_store = Inr (Some claimed_record, claimed_store)"
proof -
  have ok: "durable_record_ok plain_host sample_times False claimed_record"
    by (simp add: durable_record_ok_def claimed_record_def durable_sample_def tenant_scope_ok_def text_checks
        snapshot_ok_def repro_case_ok_def reproduction_job_ok_def valid_instant_def date_range_def
        sha256_string_def hex_string_def hex_char_def list_all_iff same_source_def sample_budget_ok_def
        safe_int_def max_safe_integer_def)
  then have "snapshot_ok plain_host sample_times (rec_snapshot claimed_record)"
    by (simp add: durable_record_ok_def Let_def)
  with ok show ?thesis
    by (simp add: find_by_lease_def run_query job_lease_ok_def text_checks find_durable_def durable_rows_def
        sample_store_defs holds_lease_def row_to_record_def row_job_def stored_failure_def
        stored_timestamp_def row_record_def record_domain_def record_descriptor_def claimed_record_def)
qed

lemma fail_claimed:
  "fail_lease plain_host sample_times sample_lease
     \<lparr>lf_at = 2000, lf_code = ''CANCELLED'', lf_next = 7000, lf_retryable = False\<rparr> claimed_store =
   Inr (Exhausted, failed_store\<lparr>st_jobs := [(fail_job sample_failure claimed_job claimed_job)\<lparr>jr_next := 7000\<rparr>]\<rparr>)"
  by (simp add: fail_lease_def run_query fail_in_transaction_def sample_failure_def sample_store_defs
      job_lease_ok_def text_checks failure_code_ok_def holds_lease_def update_jobs_def update_where_def
      advance_case_def update_cases_def job_update_ok_def successor_version_def job_transition_ok_def
      job_row_ok_def case_update_ok_def case_row_ok_def lease_complete_def failure_shape_def
      cancellation_shape_def requeues_def fail_job_def clear_lease_def claimed_job_def failed_store_def
      release_active_job_quota_def update_quota_def)

lemma consume_sample:
  "\<exists>db'. consume plain_host sample_times sample_world 60 sample_message ''w'' reserved_store =
     (Inr \<lparr>con_attempt = Some 1, con_outcome = OutExhausted\<rparr>, db')"
proof -
  have "is_cancellation_requested sample_lease claimed_store = Inr (False, claimed_store)"
    by (simp add: is_cancellation_requested_def run_query job_lease_ok_def text_checks sample_store_defs
        holds_lease_def)
  moreover have "rec_case_id claimed_record = ''c''" by (simp add: claimed_record_def durable_sample_def)
  moreover have "queue_message_ok sample_message"
    by (simp add: queue_message_ok_def sample_message_def text_checks)
  moreover have "lease_attempt sample_lease = 1" by (simp add: sample_lease_def)
  moreover have world: "con_others sample_world k db = db" "con_clock sample_world 0 = 1000"
    "con_clock sample_world (Suc 0) = 2000" "con_worker sample_world l m r = Inl (Some ''CANCELLED'')" for k db l m r
    by (simp_all add: sample_world_def)
  moreover have "msg_case_id sample_message = ''c''" "msg_job_id sample_message = ''j''"
    "msg_tenant sample_message = ''t''" "msg_kind sample_message = ReproductionRequested"
    by (simp_all add: sample_message_def)
  ultimately show ?thesis
    using claim_sample find_claimed fail_claimed
    by (simp add: consume_def consume_claimed_def run_work_def end_failed_def then_p_def at_call_def call_p_def
        reading_def then_q_def lift_q_def date_range_def retry_seconds_def worker_failure_def return_p_def)
qed

theorem consumed_outcome_is_true_witness:
  "\<exists>db'. consume plain_host sample_times sample_world 60 sample_message ''w'' reserved_store =
     (Inr \<lparr>con_attempt = Some 1, con_outcome = OutExhausted\<rparr>, db') \<and>
   (\<exists>j \<in> set (st_jobs db'). jr_attempt j = 1 \<and> jr_owner j = None \<and> jr_state j = Failed)"
proof -
  have "shared_world plain_host sample_times sample_world" by (simp add: shared_world_def sample_world_def)
  with consume_sample consumed_outcome_is_true [OF reachable_samples(1)] show ?thesis by fastforce
qed

end
