(* ===== verification/ArtifactStore.thy ===== *)
theory ArtifactStore
  imports Consumer
begin

text \<open>
  The content-addressed artifact store, src/src/infrastructure/artifacts/content-addressed-store.ts
  with the blob client of vercel-private-blob-client.ts beside it. The blob service is a parameter:
  its four operations on a state of its own.
\<close>

section \<open>The blob client\<close>

record blob_metadata =
  blob_etag :: string
  blob_path :: string
  blob_size :: int

datatype head_reply = HeadFound blob_metadata | HeadMissing | HeadError
datatype del_reply = DelDone | DelMissing | DelError

text \<open>A body with the chunks of its stream; a chunk \<open>Inl ()\<close> is a read that fails.\<close>

record blob_body =
  body_status :: int
  body_stream :: "(unit + string) list option"
  body_path :: string
  body_size :: "int option"

datatype get_reply = GetFound blob_body | GetMissing | GetError

record 'b blob_service =
  sdk_put :: "string \<Rightarrow> string \<Rightarrow> 'b \<Rightarrow> bool \<times> 'b"
  sdk_head :: "string \<Rightarrow> 'b \<Rightarrow> head_reply \<times> 'b"
  sdk_get :: "string \<Rightarrow> 'b \<Rightarrow> get_reply \<times> 'b"
  sdk_del :: "string \<Rightarrow> string option \<Rightarrow> 'b \<Rightarrow> del_reply \<times> 'b"

definition max_private_blob_bytes :: int where
  "max_private_blob_bytes = 1073741824"

definition trusted_size_ok :: "int \<Rightarrow> bool" where
  "trusted_size_ok expected \<longleftrightarrow> 0 \<le> expected \<and> expected \<le> max_private_blob_bytes"

definition canonical_etag :: "string \<Rightarrow> string" where
  "canonical_etag etag =
     (let trimmed = js_trim etag in
      if 2 \<le> length trimmed \<and> hd trimmed = CHR 0x22 \<and> last trimmed = CHR 0x22
      then butlast (tl trimmed) else trimmed)"

datatype blob_authentication = Oidc string string | ReadWriteToken string

fun blob_authentication_ok :: "blob_authentication \<Rightarrow> bool" where
  "blob_authentication_ok (Oidc token store_id) = (token \<noteq> [] \<and> store_id \<noteq> [])"
| "blob_authentication_ok (ReadWriteToken token) = (token \<noteq> [])"

text \<open>The bytes of a stream, which must be exactly as many as trusted.\<close>

fun collect_stream :: "int \<Rightarrow> int \<Rightarrow> (unit + string) list \<Rightarrow> string option" where
  "collect_stream expected got [] = (if got = expected then Some [] else None)"
| "collect_stream expected got (Inl _ # rest) = None"
| "collect_stream expected got (Inr chunk # rest) =
     (if expected < got + int (length chunk) then None
      else map_option (\<lambda>bytes. chunk @ bytes) (collect_stream expected (got + int (length chunk)) rest))"

definition client_head :: "'b blob_service \<Rightarrow> string \<Rightarrow> 'b \<Rightarrow> (unit + blob_metadata option) \<times> 'b" where
  "client_head S path b =
     (case sdk_head S path b of
        (HeadFound m, b') \<Rightarrow> (Inr (Some (m\<lparr>blob_etag := canonical_etag (blob_etag m)\<rparr>)), b')
      | (HeadMissing, b') \<Rightarrow> (Inr None, b')
      | (HeadError, b') \<Rightarrow> (Inl (), b'))"

definition client_put :: "'b blob_service \<Rightarrow> string \<Rightarrow> string \<Rightarrow> 'b \<Rightarrow> (unit + blob_metadata) \<times> 'b" where
  "client_put S path bytes b =
     (case sdk_put S path bytes b of
        (False, b') \<Rightarrow> (Inl (), b')
      | (True, b') \<Rightarrow>
          (case client_head S path b' of
             (Inr (Some m), b'') \<Rightarrow> (Inr m, b'')
           | (_, b'') \<Rightarrow> (Inl (), b'')))"

definition body_bytes :: "int \<Rightarrow> blob_body \<Rightarrow> string option" where
  "body_bytes expected body =
     (case (body_stream body, body_size body) of
        (Some chunks, Some _) \<Rightarrow> if body_status body \<noteq> 200 then None else collect_stream expected 0 chunks
      | _ \<Rightarrow> None)"

definition client_get ::
  "'b blob_service \<Rightarrow> string \<Rightarrow> int \<Rightarrow> 'b \<Rightarrow> (unit + (string \<times> blob_metadata) option) \<times> 'b" where
  "client_get S path expected b =
     (if \<not> trusted_size_ok expected then (Inl (), b)
      else
        (case sdk_get S path b of
           (GetError, b') \<Rightarrow> (Inl (), b')
         | (GetMissing, b') \<Rightarrow> (Inr None, b')
         | (GetFound body, b') \<Rightarrow>
             (case body_bytes expected body of
                None \<Rightarrow> (Inl (), b')
              | Some bytes \<Rightarrow>
                  (case client_head S path b' of
                     (Inr (Some m), b'') \<Rightarrow>
                       (if blob_path m \<noteq> body_path body \<or> blob_size m \<noteq> expected then (Inl (), b'')
                        else (Inr (Some (bytes, m)), b''))
                   | (_, b'') \<Rightarrow> (Inl (), b'')))))"

definition client_delete :: "'b blob_service \<Rightarrow> string \<Rightarrow> string option \<Rightarrow> 'b \<Rightarrow> (unit + bool) \<times> 'b" where
  "client_delete S path etag b =
     (case sdk_del S path (if etag = Some [] then None else etag) b of
        (DelDone, b') \<Rightarrow> (Inr True, b')
      | (DelMissing, b') \<Rightarrow> (Inr False, b')
      | (DelError, b') \<Rightarrow> (Inl (), b'))"

section \<open>Descriptors\<close>

record artifact_descriptor =
  des_id :: string
  des_bytes :: int
  des_case :: string
  des_created :: int
  des_kind :: artifact_kind
  des_key :: string
  des_retention :: int
  des_sha256 :: string
  des_tenant :: string

definition descriptor_ok :: "artifact_descriptor \<Rightarrow> bool" where
  "descriptor_ok d \<longleftrightarrow>
     opaque_id (des_id d) \<and> 0 \<le> des_bytes d \<and> des_bytes d \<le> 1073741824 \<and> opaque_id (des_case d) \<and>
     valid_instant (des_created d) \<and> len_in 1 512 (des_key d) \<and> valid_instant (des_retention d) \<and>
     sha256_string (des_sha256 d) \<and> opaque_id (des_tenant d) \<and>
     des_key d = object_key_for (des_tenant d) (des_case d) (des_kind d) (des_sha256 d) \<and>
     des_created d < des_retention d"

datatype artifact_error =
    IntegrityMismatch
  | WritePending
  | ProviderUnavailable
  | TenantUnavailable
  | ForeignArtifactError
  | ArtifactDatabase store_error

fun is_store_error :: "artifact_error \<Rightarrow> bool" where
  "is_store_error ForeignArtifactError = False"
| "is_store_error (ArtifactDatabase _) = False"
| "is_store_error _ = True"

definition row_descriptor :: "artifact_row \<Rightarrow> artifact_error + artifact_descriptor" where
  "row_descriptor a =
     (let d = \<lparr>des_id = ar_id a, des_bytes = ar_bytes a, des_case = ar_case a, des_created = ar_created a,
        des_kind = ar_kind a, des_key = ar_key a, des_retention = ar_retention a,
        des_sha256 = ar_sha256 a, des_tenant = ar_tenant a\<rparr> in
      parse_as descriptor_ok IntegrityMismatch d)"

definition validate_put :: "js_host \<Rightarrow> string \<Rightarrow> artifact_descriptor \<Rightarrow> bool" where
  "validate_put h bytes d \<longleftrightarrow>
     descriptor_ok d \<and> des_bytes d = int (length bytes) \<and> des_sha256 d = sha256_hex h bytes"

definition metadata_matches :: "artifact_descriptor \<Rightarrow> string option \<Rightarrow> blob_metadata option \<Rightarrow> bool" where
  "metadata_matches d etag m \<longleftrightarrow>
     (case m of
        None \<Rightarrow> False
      | Some md \<Rightarrow> blob_path md = des_key d \<and> blob_size md = des_bytes d \<and>
          (etag = None \<or> etag = Some (blob_etag md)))"

section \<open>The store\<close>

text \<open>An operation on the tables and on the blob service. What it throws undoes nothing.\<close>

type_synonym ('b, 'a) artifact_op = "store \<times> 'b \<Rightarrow> (artifact_error + 'a) \<times> (store \<times> 'b)"

definition then_a :: "('b, 'a) artifact_op \<Rightarrow> ('a \<Rightarrow> ('b, 'c) artifact_op) \<Rightarrow> ('b, 'c) artifact_op" where
  "then_a m f s = (case m s of (Inl e, s') \<Rightarrow> (Inl e, s') | (Inr x, s') \<Rightarrow> f x s')"

definition return_a :: "'a \<Rightarrow> ('b, 'a) artifact_op" where
  "return_a x s = (Inr x, s)"

definition throw_a :: "artifact_error \<Rightarrow> ('b, 'a) artifact_op" where
  "throw_a e s = (Inl e, s)"

definition lift_a :: "artifact_error + 'a \<Rightarrow> ('b, 'a) artifact_op" where
  "lift_a r s = (r, s)"

definition query_a :: "'a query \<Rightarrow> ('b, 'a) artifact_op" where
  "query_a m s =
     (case m (fst s) of Inl e \<Rightarrow> (Inl (ArtifactDatabase e), s) | Inr (x, db) \<Rightarrow> (Inr x, (db, snd s)))"

definition blob_a :: "('b \<Rightarrow> (unit + 'a) \<times> 'b) \<Rightarrow> ('b, 'a) artifact_op" where
  "blob_a m s =
     (case m (snd s) of (Inl _, b) \<Rightarrow> (Inl ForeignArtifactError, (fst s, b)) | (Inr x, b) \<Rightarrow> (Inr x, (fst s, b)))"

definition catch_a :: "('b, 'a) artifact_op \<Rightarrow> (artifact_error \<Rightarrow> ('b, 'a) artifact_op) \<Rightarrow> ('b, 'a) artifact_op" where
  "catch_a m handler s = (case m s of (Inl e, s') \<Rightarrow> handler e s' | (Inr x, s') \<Rightarrow> (Inr x, s'))"

definition pending_row :: "artifact_descriptor \<Rightarrow> artifact_row" where
  "pending_row d =
     \<lparr>ar_tenant = des_tenant d, ar_id = des_id d, ar_case = des_case d, ar_kind = des_kind d,
      ar_sha256 = des_sha256 d, ar_bytes = des_bytes d, ar_key = des_key d, ar_created = des_created d,
      ar_retention = des_retention d, ar_deleted = None, ar_status = ArtifactPending, ar_etag = None,
      ar_verified = None, ar_failure = None, ar_version = 1, ar_updated = des_created d\<rparr>"

definition find_by_identity :: "artifact_descriptor \<Rightarrow> store \<Rightarrow> artifact_row option" where
  "find_by_identity d db =
     find (\<lambda>a. artifact_content a = (des_tenant d, des_case d, des_kind d, des_sha256 d)) (st_artifacts db)"

text \<open>The row of the same artifact in one status and version.\<close>

definition artifact_at :: "artifact_row \<Rightarrow> artifact_status \<Rightarrow> artifact_row \<Rightarrow> bool" where
  "artifact_at row status a \<longleftrightarrow>
     ar_tenant a = ar_tenant row \<and> ar_id a = ar_id row \<and> ar_status a = status \<and> ar_version a = ar_version row"

definition verify_available :: "'b blob_service \<Rightarrow> artifact_row \<Rightarrow> ('b, artifact_descriptor) artifact_op" where
  "verify_available S row =
     then_a (lift_a (row_descriptor row)) (\<lambda>d.
     then_a (blob_a (client_head S (des_key d))) (\<lambda>m.
       if metadata_matches d (ar_etag row) m then return_a d else throw_a IntegrityMismatch))"

definition reclaim_failed :: "int \<Rightarrow> artifact_row \<Rightarrow> ('b, artifact_row) artifact_op" where
  "reclaim_failed at_ms row =
     then_a (query_a (update_artifacts
         (\<lambda>a. artifact_content a = artifact_content row \<and> ar_status a = ArtifactFailed \<and>
           ar_version a = ar_version row)
         (\<lambda>a. a\<lparr>ar_status := ArtifactPending, ar_failure := None, ar_version := ar_version a + 1,
           ar_updated := at_ms\<rparr>))) (\<lambda>rows.
       case rows of [] \<Rightarrow> throw_a WritePending | r # _ \<Rightarrow> return_a r)"

text \<open>The provider's write; when it fails, the object that is there already, if it is the same.\<close>

definition write_blob ::
  "js_host \<Rightarrow> 'b blob_service \<Rightarrow> artifact_descriptor \<Rightarrow> string \<Rightarrow> ('b, blob_metadata) artifact_op" where
  "write_blob h S d bytes =
     catch_a (blob_a (client_put S (des_key d) bytes)) (\<lambda>_.
       then_a (blob_a (client_get S (des_key d) (des_bytes d))) (\<lambda>orphan.
         case orphan of
           None \<Rightarrow> throw_a ProviderUnavailable
         | Some (found, m) \<Rightarrow>
             if int (length found) \<noteq> des_bytes d \<or> sha256_hex h found \<noteq> des_sha256 d
             then throw_a ProviderUnavailable else return_a m))"

definition finalize_write ::
  "int \<Rightarrow> artifact_row \<Rightarrow> artifact_descriptor \<Rightarrow> blob_metadata \<Rightarrow> ('b, artifact_descriptor) artifact_op" where
  "finalize_write at_ms row d m =
     (if \<not> metadata_matches d None (Some m) then throw_a IntegrityMismatch
      else
        then_a (query_a (update_artifacts (artifact_at row ArtifactPending)
            (\<lambda>a. a\<lparr>ar_status := ArtifactAvailable, ar_etag := Some (blob_etag m),
              ar_verified := Some at_ms, ar_version := ar_version a + 1, ar_updated := at_ms\<rparr>))) (\<lambda>rows.
          case rows of [] \<Rightarrow> throw_a WritePending | r # _ \<Rightarrow> lift_a (row_descriptor r)))"

definition abandon_write ::
  "'b blob_service \<Rightarrow> int \<Rightarrow> artifact_row \<Rightarrow> artifact_descriptor \<Rightarrow> string option \<Rightarrow> artifact_error
     \<Rightarrow> ('b, 'a) artifact_op" where
  "abandon_write S at_ms row d etag e =
     then_a (catch_a (blob_a (client_delete S (des_key d) etag)) (\<lambda>_. return_a False)) (\<lambda>_.
     then_a (query_a (update_artifacts (artifact_at row ArtifactPending)
         (\<lambda>a. a\<lparr>ar_status := ArtifactFailed, ar_etag := None, ar_verified := None,
           ar_failure := Some (if e = IntegrityMismatch then ''ARTIFACT_PROVIDER_MISMATCH''
             else ''ARTIFACT_PROVIDER_FAILURE''),
           ar_version := ar_version a + 1, ar_updated := at_ms\<rparr>))) (\<lambda>_.
       throw_a (if is_store_error e then e else ProviderUnavailable)))"

definition store_blob ::
  "js_host \<Rightarrow> 'b blob_service \<Rightarrow> int \<Rightarrow> artifact_row \<Rightarrow> string \<Rightarrow> ('b, artifact_descriptor) artifact_op" where
  "store_blob h S at_ms row bytes =
     then_a (lift_a (row_descriptor row)) (\<lambda>d s.
       case write_blob h S d bytes s of
         (Inl e, s') \<Rightarrow> abandon_write S at_ms row d None e s'
       | (Inr m, s') \<Rightarrow>
           catch_a (finalize_write at_ms row d m)
             (abandon_write S at_ms row d (Some (blob_etag m))) s')"

text \<open>The row that this call may write: the new one, or a failed one that it takes over.\<close>

definition own_pending_row ::
  "int \<Rightarrow> artifact_row \<Rightarrow> ('b, artifact_row) artifact_op" where
  "own_pending_row at_ms row =
     (if ar_status row = ArtifactFailed then reclaim_failed at_ms row else throw_a WritePending)"

definition put_artifact ::
  "js_host \<Rightarrow> 'b blob_service \<Rightarrow> int \<Rightarrow> string \<Rightarrow> artifact_descriptor \<Rightarrow> ('b, artifact_descriptor) artifact_op" where
  "put_artifact h S at_ms bytes d =
     (if \<not> validate_put h bytes d then throw_a IntegrityMismatch
      else
        then_a (query_a (read_q (\<lambda>db. tenant_active db (des_tenant d)))) (\<lambda>active.
          if \<not> active then throw_a TenantUnavailable
          else
            then_a (query_a (insert_artifact (pending_row d))) (\<lambda>inserted. case inserted of
                row # _ \<Rightarrow> store_blob h S at_ms row bytes
              | [] \<Rightarrow>
                  then_a (query_a (read_q (find_by_identity d))) (\<lambda>found. case found of
                      None \<Rightarrow> throw_a ProviderUnavailable
                    | Some row \<Rightarrow>
                        if ar_status row = ArtifactAvailable then verify_available S row
                        else
                          then_a (own_pending_row at_ms row) (\<lambda>owned. store_blob h S at_ms owned bytes)))))"

definition find_authorized ::
  "tenant_scope \<Rightarrow> string \<Rightarrow> artifact_status \<Rightarrow> store \<Rightarrow> artifact_row option" where
  "find_authorized scope artifact status db =
     find (\<lambda>a. ar_tenant a = scope_tenant scope \<and> ar_id a = artifact \<and> ar_status a = status \<and>
         list_ex (\<lambda>i. ir_tenant i = ar_tenant a \<and> ir_case i = ar_case a \<and> ir_caller i = scope_caller scope)
           (st_keys db)) (st_artifacts db)"

definition read_row ::
  "js_host \<Rightarrow> 'b blob_service \<Rightarrow> artifact_row \<Rightarrow> ('b, (string \<times> artifact_descriptor) option) artifact_op" where
  "read_row h S row =
     then_a (lift_a (row_descriptor row)) (\<lambda>d.
     then_a (blob_a (client_get S (des_key d) (des_bytes d))) (\<lambda>stored. case stored of
         None \<Rightarrow> throw_a IntegrityMismatch
       | Some (bytes, m) \<Rightarrow>
           if \<not> metadata_matches d (ar_etag row) (Some m) \<or> int (length bytes) \<noteq> des_bytes d \<or>
              sha256_hex h bytes \<noteq> des_sha256 d
           then throw_a IntegrityMismatch
           else return_a (Some (bytes, d))))"

definition read_artifact ::
  "js_host \<Rightarrow> 'b blob_service \<Rightarrow> tenant_scope \<Rightarrow> string
     \<Rightarrow> ('b, (string \<times> artifact_descriptor) option) artifact_op" where
  "read_artifact h S raw artifact =
     then_a (lift_a (parse_as tenant_scope_ok (ArtifactDatabase StoredSchema) raw)) (\<lambda>scope.
     then_a (query_a (read_q (find_authorized scope artifact ArtifactAvailable))) (\<lambda>found. case found of
         None \<Rightarrow> return_a None
       | Some row \<Rightarrow> read_row h S row))"

definition remove_blob :: "'b blob_service \<Rightarrow> int \<Rightarrow> artifact_row \<Rightarrow> artifact_descriptor \<Rightarrow> string \<Rightarrow> ('b, bool) artifact_op" where
  "remove_blob S at_ms claimed d etag =
     then_a (blob_a (client_delete S (des_key d) (Some etag))) (\<lambda>deleted.
     then_a (if deleted then return_a None else blob_a (client_head S (des_key d))) (\<lambda>left.
       if left \<noteq> None then throw_a ProviderUnavailable
       else
         then_a (query_a (update_artifacts (artifact_at claimed ArtifactDeleting)
             (\<lambda>a. a\<lparr>ar_status := ArtifactDeleted, ar_deleted := Some at_ms,
               ar_version := ar_version a + 1, ar_updated := at_ms\<rparr>))) (\<lambda>rows.
           if rows = [] then throw_a ProviderUnavailable else return_a True)))"

definition restore_artifact :: "int \<Rightarrow> artifact_row \<Rightarrow> artifact_error \<Rightarrow> ('b, bool) artifact_op" where
  "restore_artifact at_ms claimed e =
     then_a (query_a (update_artifacts (artifact_at claimed ArtifactDeleting)
         (\<lambda>a. a\<lparr>ar_status := ArtifactAvailable, ar_version := ar_version a + 1, ar_updated := at_ms\<rparr>))) (\<lambda>_.
       throw_a (if is_store_error e then e else ProviderUnavailable))"

definition delete_artifact ::
  "'b blob_service \<Rightarrow> int \<Rightarrow> tenant_scope \<Rightarrow> string \<Rightarrow> ('b, bool) artifact_op" where
  "delete_artifact S at_ms raw artifact =
     then_a (lift_a (parse_as tenant_scope_ok (ArtifactDatabase StoredSchema) raw)) (\<lambda>scope.
     then_a (query_a (read_q (find_authorized scope artifact ArtifactAvailable))) (\<lambda>found.
       case found of
         None \<Rightarrow> return_a False
       | Some row \<Rightarrow>
           (case ar_etag row of
              None \<Rightarrow> return_a False
            | Some etag \<Rightarrow>
                if etag = [] then return_a False
                else
                  then_a (lift_a (row_descriptor row)) (\<lambda>d.
                  then_a (query_a (update_artifacts (artifact_at row ArtifactAvailable)
                      (\<lambda>a. a\<lparr>ar_status := ArtifactDeleting, ar_version := ar_version a + 1,
                        ar_updated := at_ms\<rparr>))) (\<lambda>rows. case rows of
                      [] \<Rightarrow> return_a False
                    | claimed # _ \<Rightarrow>
                        catch_a (remove_blob S at_ms claimed d etag)
                          (restore_artifact at_ms claimed))))))"

section \<open>The tables after an operation\<close>

definition artifacts_ok :: "store \<Rightarrow> bool" where
  "artifacts_ok db \<longleftrightarrow>
     distinct (map artifact_key (st_artifacts db)) \<and> distinct (map artifact_content (st_artifacts db)) \<and>
     list_all artifact_row_ok (st_artifacts db)"

definition published :: "store \<Rightarrow> artifact_row list" where
  "published db = filter (\<lambda>a. ar_status a = ArtifactAvailable) (st_artifacts db)"

definition only_artifacts :: "store \<Rightarrow> store \<Rightarrow> bool" where
  "only_artifacts db db' \<longleftrightarrow> db' = db\<lparr>st_artifacts := st_artifacts db'\<rparr>"

lemma only_artifacts_simps [simp]:
  "only_artifacts db db" "only_artifacts db (db\<lparr>st_artifacts := rows\<rparr>)"
  by (simp_all add: only_artifacts_def)

lemma only_artifacts_trans: "only_artifacts a b \<Longrightarrow> only_artifacts b c \<Longrightarrow> only_artifacts a c"
  by (auto simp: only_artifacts_def) (metis store.surjective store.update_convs(3))

lemma update_artifacts_Inr:
  "update_artifacts sel upd db = Inr (rows, db') \<longleftrightarrow>
     (\<forall>a \<in> set (st_artifacts db). sel a \<longrightarrow> artifact_update_ok a (upd a)) \<and>
     rows = map upd (filter sel (st_artifacts db)) \<and>
     db' = db\<lparr>st_artifacts := map (\<lambda>a. if sel a then upd a else a) (st_artifacts db)\<rparr>"
  by (auto simp: update_artifacts_def update_where_def and_then_Inr_iff list_ex_iff)

text \<open>An update that leaves the identity of a row keeps the invariant.\<close>

lemma update_artifacts_ok:
  assumes "update_artifacts sel upd db = Inr (rows, db')" and "artifacts_ok db"
    and "\<And>a. artifact_key (upd a) = artifact_key a \<and> artifact_content (upd a) = artifact_content a"
  shows "artifacts_ok db'" and "only_artifacts db db'"
proof -
  let ?f = "\<lambda>a. if sel a then upd a else a"
  have "artifact_key \<circ> ?f = artifact_key" "artifact_content \<circ> ?f = artifact_content"
    using assms(3) by auto
  with assms(1,2) show "artifacts_ok db'" "only_artifacts db db'"
    by (auto simp: update_artifacts_Inr artifacts_ok_def list_all_iff artifact_update_ok_def)
qed

lemma filter_map_other: "(\<And>a. sel a \<Longrightarrow> \<not> P a \<and> \<not> P (upd a))
    \<Longrightarrow> filter P (map (\<lambda>a. if sel a then upd a else a) as) = filter P as"
  by (induction as) auto

lemma update_artifacts_unpublished:
  assumes "update_artifacts sel upd db = Inr (rows, db')"
    and "\<And>a. sel a \<Longrightarrow> ar_status a \<noteq> ArtifactAvailable \<and> ar_status (upd a) \<noteq> ArtifactAvailable"
  shows "published db' = published db"
  using assms(1) filter_map_other [of sel "\<lambda>a. ar_status a = ArtifactAvailable" upd] assms(2)
  by (auto simp: update_artifacts_Inr published_def)

section \<open>Programs\<close>

lemma then_a_Inr: "then_a m f s = (Inr x, s') \<longleftrightarrow> (\<exists>y mid. m s = (Inr y, mid) \<and> f y mid = (Inr x, s'))"
  by (auto simp: then_a_def split: prod.splits sum.splits)

lemma then_a_cases:
  assumes "then_a m f s = (r, s')"
  obtains e where "m s = (Inl e, s')" and "r = Inl e" | y mid where "m s = (Inr y, mid)" and "f y mid = (r, s')"
  using assms by (auto simp: then_a_def split: prod.splits sum.splits)

lemma program_a [simp]:
  "return_a x s = (r, s') \<longleftrightarrow> r = Inr x \<and> s' = s"
  "throw_a e s = (q, s') \<longleftrightarrow> q = Inl e \<and> s' = s"
  "lift_a v s = (w, s') \<longleftrightarrow> w = v \<and> s' = s"
  by (auto simp: return_a_def throw_a_def lift_a_def)

lemma query_a_Inr: "query_a m s = (Inr x, s') \<longleftrightarrow> (\<exists>db. m (fst s) = Inr (x, db) \<and> s' = (db, snd s))"
  by (auto simp: query_a_def split: sum.splits)

lemma query_a_cases:
  assumes "query_a m s = (r, s')"
  obtains e where "r = Inl e" and "s' = s" | x db where "m (fst s) = Inr (x, db)" and "r = Inr x" and "s' = (db, snd s)"
  using assms by (auto simp: query_a_def split: sum.splits)

lemma read_query_a [simp]: "query_a (read_q f) s = (r, s') \<longleftrightarrow> r = Inr (f (fst s)) \<and> s' = s"
  by (auto simp: query_a_def read_q_def)

lemma blob_a_store: "blob_a m s = (r, s') \<Longrightarrow> fst s' = fst s"
  by (auto simp: blob_a_def split: prod.splits sum.splits)

lemma write_blob_store: "write_blob h S d bytes s = (r, s') \<Longrightarrow> fst s' = fst s"
  unfolding write_blob_def catch_a_def
  by (auto elim!: then_a_cases dest!: blob_a_store split: prod.splits sum.splits option.splits if_splits)

lemma quiet_blob_call: "catch_a (blob_a m) (\<lambda>_. return_a v) s = (x, mid) \<Longrightarrow> fst mid = fst s \<and> (\<exists>y. x = Inr y)"
  by (auto simp: catch_a_def dest!: blob_a_store split: prod.splits sum.splits)

section \<open>Puts\<close>

text \<open>What a call that writes this row's object leaves: an error publishes nothing.\<close>

definition put_settled :: "artifact_row \<Rightarrow> store \<Rightarrow> artifact_error + artifact_descriptor \<Rightarrow> store \<Rightarrow> bool" where
  "put_settled row db res db' \<longleftrightarrow>
     artifacts_ok db' \<and> only_artifacts db db' \<and>
     (case res of
        Inl _ \<Rightarrow> published db' = published db
      | Inr d \<Rightarrow> \<exists>a. row_descriptor a = Inr d \<and> artifact_content a = artifact_content row \<and>
          set (published db') = insert a (set (published db)))"

lemma abandon_write_settled:
  assumes "abandon_write S t row d etag e s = (r, s')" and "artifacts_ok (fst s)"
  shows "put_settled row (fst s) r (fst s')" and "\<exists>f. r = Inl f"
proof -
  let ?upd = "\<lambda>a. a\<lparr>ar_status := ArtifactFailed, ar_etag := None, ar_verified := None,
    ar_failure := Some (if e = IntegrityMismatch then ''ARTIFACT_PROVIDER_MISMATCH'' else ''ARTIFACT_PROVIDER_FAILURE''),
    ar_version := ar_version a + 1, ar_updated := t\<rparr>"
  have id: "artifact_key (?upd a) = artifact_key a \<and> artifact_content (?upd a) = artifact_content a" for a
    by (simp add: artifact_key_def artifact_content_def)
  obtain x mid where del: "catch_a (blob_a (client_delete S (des_key d) etag)) (\<lambda>_. return_a False) s = (x, mid)"
    by (meson surj_pair)
  from quiet_blob_call [OF this] assms(1) have "fst mid = fst s" and
    "then_a (query_a (update_artifacts (artifact_at row ArtifactPending) ?upd)) (\<lambda>_.
       throw_a (if is_store_error e then e else ProviderUnavailable)) mid = (r, s')"
    by (auto simp: abandon_write_def then_a_def [of "catch_a _ _"] del)
  then have r: "\<exists>f. r = Inl f" and
    "s' = mid \<or> (\<exists>rows db. update_artifacts (artifact_at row ArtifactPending) ?upd (fst mid) = Inr (rows, db) \<and>
       s' = (db, snd mid))"
    by (auto simp: then_a_def query_a_def throw_a_def split: sum.splits prod.splits)
  then show "\<exists>f. r = Inl f" "put_settled row (fst s) r (fst s')"
  proof -
    note \<open>s' = mid \<or> _\<close>
    moreover have "put_settled row (fst s) r db"
      if u: "update_artifacts (artifact_at row ArtifactPending) ?upd (fst s) = Inr (rows, db)" for rows db
      using update_artifacts_ok [OF u assms(2) id] update_artifacts_unpublished [OF u] r
      by (auto simp: put_settled_def artifact_at_def)
    ultimately show "put_settled row (fst s) r (fst s')"
      using r assms(2) \<open>fst mid = fst s\<close> by (auto simp: put_settled_def)
  qed (rule r)
qed

lemma put_settled_refl: "artifacts_ok db \<Longrightarrow> put_settled row db (Inl e) db"
  by (simp add: put_settled_def)

lemma put_settled_trans:
  assumes "put_settled row a (Inl e) b" and "put_settled row b res c"
  shows "put_settled row a res c"
  using assms only_artifacts_trans by (auto simp: put_settled_def split: sum.splits)

lemma artifact_row_unique:
  "artifacts_ok db \<Longrightarrow> a \<in> set (st_artifacts db) \<Longrightarrow> b \<in> set (st_artifacts db) \<Longrightarrow> artifact_key a = artifact_key b
    \<Longrightarrow> a = b"
  by (auto simp: artifacts_ok_def distinct_map inj_on_def)

lemma finalize_write_settled:
  assumes "finalize_write t row d m s = (r, s')" and "artifacts_ok (fst s)"
    and "row \<in> set (st_artifacts (fst s))" and "ar_status row = ArtifactPending" and "row_descriptor row = Inr d"
  shows "put_settled row (fst s) r (fst s')" and "r = Inr d' \<Longrightarrow> d' = d"
proof -
  let ?upd = "\<lambda>a. a\<lparr>ar_status := ArtifactAvailable, ar_etag := Some (blob_etag m), ar_verified := Some t,
    ar_version := ar_version a + 1, ar_updated := t\<rparr>"
  have id: "artifact_key (?upd a) = artifact_key a \<and> artifact_content (?upd a) = artifact_content a" for a
    by (simp add: artifact_key_def artifact_content_def)
  have own: "artifact_at row ArtifactPending a \<longleftrightarrow> a = row" if "a \<in> set (st_artifacts (fst s))" for a
    using artifact_row_unique [OF assms(2) that assms(3)] assms(4) by (auto simp: artifact_at_def artifact_key_def)
  have desc: "row_descriptor (?upd row) = Inr d" using assms(5) by (simp add: row_descriptor_def)
  have sel: "filter (artifact_at row ArtifactPending) (st_artifacts (fst s)) \<noteq> []"
    using own assms(3) by (auto simp: filter_empty_conv)
  consider (failed) e where "r = Inl e" "s' = s"
    | (written) db rows where
      "update_artifacts (artifact_at row ArtifactPending) ?upd (fst s) = Inr (rows, db)" "s' = (db, snd s)"
      "r = (case rows of [] \<Rightarrow> Inl WritePending | a # _ \<Rightarrow> row_descriptor a)"
  proof (cases "metadata_matches d None (Some m)")
    case False
    with assms(1) failed [of IntegrityMismatch] show ?thesis by (auto simp: finalize_write_def throw_a_def)
  next
    case True
    note fw = assms(1)[unfolded finalize_write_def then_a_def query_a_def]
    show ?thesis
    proof (cases "update_artifacts (artifact_at row ArtifactPending) ?upd (fst s)")
      case (Inl e)
      with fw True failed [of "ArtifactDatabase e"] show ?thesis by auto
    next
      case (Inr p)
      with fw True show ?thesis
        by (cases p; cases "fst p") (auto simp: throw_a_def lift_a_def intro!: written)
    qed
  qed
  then have "put_settled row (fst s) r (fst s') \<and> (\<forall>d'. r = Inr d' \<longrightarrow> d' = d)"
  proof cases
    case failed
    then show ?thesis using put_settled_refl [OF assms(2)] by auto
  next
    case written
    obtain a as where as: "filter (artifact_at row ArtifactPending) (st_artifacts (fst s)) = a # as"
      using sel by (auto simp: neq_Nil_conv)
    then have "a \<in> set (st_artifacts (fst s))" "artifact_at row ArtifactPending a"
      by (metis filter_is_subset list.set_intros(1) subsetD, metis filter_eq_Cons_iff)
    then have "a = row" using own by blast
    then have "r = Inr d" using written(1,3) as desc by (simp add: update_artifacts_Inr)
    moreover have "set (published db) = insert (?upd row) (set (published (fst s)))"
      using written(1) own assms(3,4) by (auto simp: update_artifacts_Inr published_def)
    ultimately show ?thesis
      using update_artifacts_ok [OF written(1) assms(2) id] written(2) desc id
      by (auto simp: put_settled_def intro!: exI [of _ "?upd row"])
  qed
  then show "put_settled row (fst s) r (fst s')" "r = Inr d' \<Longrightarrow> d' = d" by blast+
qed

lemma store_blob_settled:
  assumes "store_blob h S t row bytes s = (r, s')" and "artifacts_ok (fst s)"
    and "row \<in> set (st_artifacts (fst s))" and "ar_status row = ArtifactPending"
  shows "put_settled row (fst s) r (fst s')"
proof (cases "row_descriptor row")
  case (Inl e)
  then show ?thesis using assms(1) put_settled_refl [OF assms(2), of row e] by (auto simp: store_blob_def then_a_def lift_a_def)
next
  case (Inr d)
  obtain w mid where w: "write_blob h S d bytes s = (w, mid)" by (meson surj_pair)
  have mid: "fst mid = fst s" using write_blob_store [OF w] .
  show ?thesis
  proof (cases w)
    case (Inl e)
    with w Inr assms(1) have "abandon_write S t row d None e mid = (r, s')"
      by (simp add: store_blob_def then_a_def lift_a_def)
    from abandon_write_settled(1) [OF this] show ?thesis using assms(2) mid by simp
  next
    case (Inr m)
    obtain f end_s where f: "finalize_write t row d m mid = (f, end_s)" by (meson surj_pair)
    have settled: "put_settled row (fst s) f (fst end_s)"
      using finalize_write_settled(1) [OF f _ _ assms(4) \<open>row_descriptor row = Inr d\<close>] assms(2,3) mid by simp
    show ?thesis
    proof (cases f)
      case (Inl e)
      with w f \<open>w = Inr m\<close> \<open>row_descriptor row = Inr d\<close> assms(1)
      have a: "abandon_write S t row d (Some (blob_etag m)) e end_s = (r, s')"
        by (simp add: store_blob_def then_a_def lift_a_def catch_a_def)
      have "artifacts_ok (fst end_s)" using settled by (simp add: put_settled_def)
      from put_settled_trans [OF settled[unfolded Inl] abandon_write_settled(1) [OF a this]] show ?thesis .
    next
      case (Inr d')
      with w f \<open>w = Inr m\<close> \<open>row_descriptor row = Inr d\<close> assms(1) settled show ?thesis
        by (auto simp: store_blob_def then_a_def lift_a_def catch_a_def)
    qed
  qed
qed

text \<open>The state that a row which this call took over or inserted is in.\<close>

lemma insert_artifact_Inr:
  assumes "insert_artifact a db = Inr (rows, db')"
  obtains (kept) "rows = []" "db' = db"
  | (inserted) "rows = [a]" "db' = db\<lparr>st_artifacts := a # st_artifacts db\<rparr>" "artifact_row_ok a"
      "artifact_key a \<notin> artifact_key ` set (st_artifacts db)"
      "artifact_content a \<notin> artifact_content ` set (st_artifacts db)"
  using assms by (auto simp: insert_artifact_def split: if_splits)

lemma reclaim_failed_settled:
  assumes "reclaim_failed t row s = (r, s')" and "artifacts_ok (fst s)"
  shows "put_settled row (fst s) (Inl e) (fst s')"
    and "r = Inr a \<Longrightarrow> a \<in> set (st_artifacts (fst s')) \<and> ar_status a = ArtifactPending \<and>
      artifact_content a = artifact_content row"
proof -
  let ?sel = "\<lambda>a. artifact_content a = artifact_content row \<and> ar_status a = ArtifactFailed \<and>
    ar_version a = ar_version row"
  let ?upd = "\<lambda>a. a\<lparr>ar_status := ArtifactPending, ar_failure := None, ar_version := ar_version a + 1,
    ar_updated := t\<rparr>"
  have id: "artifact_key (?upd a) = artifact_key a \<and> artifact_content (?upd a) = artifact_content a" for a
    by (simp add: artifact_key_def artifact_content_def)
  have "put_settled row (fst s) (Inl e) (fst s') \<and> (\<forall>a. r = Inr a \<longrightarrow> a \<in> set (st_artifacts (fst s')) \<and>
      ar_status a = ArtifactPending \<and> artifact_content a = artifact_content row)"
  proof (cases "update_artifacts ?sel ?upd (fst s)")
    case (Inl f)
    with assms put_settled_refl show ?thesis by (auto simp: reclaim_failed_def then_a_def query_a_def)
  next
    case (Inr p)
    obtain rows db where p: "p = (rows, db)" by fastforce
    note u = Inr[unfolded p]
    have s': "s' = (db, snd s)" "r = (case rows of [] \<Rightarrow> Inl WritePending | a # _ \<Rightarrow> Inr a)"
      using assms(1) u by (auto simp: reclaim_failed_def then_a_def query_a_def throw_a_def return_a_def
          split: list.splits)
    have rows: "a \<in> set (st_artifacts db) \<and> ar_status a = ArtifactPending \<and> artifact_content a = artifact_content row"
      if "a \<in> set rows" for a
      using that u by (auto simp: update_artifacts_Inr artifact_content_def)
    have "put_settled row (fst s) (Inl e) db"
      using update_artifacts_ok [OF u assms(2) id] update_artifacts_unpublished [OF u]
      by (simp add: put_settled_def)
    moreover have "\<forall>a. r = Inr a \<longrightarrow> a \<in> set rows" using s'(2) by (cases rows) auto
    ultimately show ?thesis using rows s'(1) by simp
  qed
  then show "put_settled row (fst s) (Inl e) (fst s')"
    and "r = Inr a \<Longrightarrow> a \<in> set (st_artifacts (fst s')) \<and> ar_status a = ArtifactPending \<and>
      artifact_content a = artifact_content row" by blast+
qed

lemma verify_available_settled:
  assumes "verify_available S row s = (r, s')" and "artifacts_ok (fst s)" and "row \<in> set (published (fst s))"
  shows "put_settled row (fst s) r (fst s')"
proof -
  from assms(1) have "fst s' = fst s" "r = Inr d \<Longrightarrow> row_descriptor row = Inr d" for d
    unfolding verify_available_def
    by (auto elim!: then_a_cases dest!: blob_a_store split: if_splits)
  with assms(2,3) show ?thesis
    by (auto simp: put_settled_def insert_absorb split: sum.splits intro!: exI [of _ row])
qed

lemma put_settled_content:
  "artifact_content row = artifact_content row' \<Longrightarrow> put_settled row db res db' = put_settled row' db res db'"
  by (auto simp: put_settled_def split: sum.splits)

lemma stored_settled:
  assumes "find_by_identity d (fst s) = Some row" and "artifacts_ok (fst s)"
    and "(if ar_status row = ArtifactAvailable then verify_available S row
       else then_a (own_pending_row t row) (\<lambda>owned. store_blob h S t owned bytes)) s = (r, s')"
  shows "put_settled row (fst s) r (fst s')"
proof -
  have mem: "row \<in> set (st_artifacts (fst s))" using assms(1) by (auto simp: find_by_identity_def find_Some_iff)
  consider (avail) "ar_status row = ArtifactAvailable" "verify_available S row s = (r, s')"
    | (failed) "ar_status row = ArtifactFailed"
        "then_a (reclaim_failed t row) (\<lambda>owned. store_blob h S t owned bytes) s = (r, s')"
    | (pending) "r = Inl WritePending" "s' = s"
    using assms(3) by (auto simp: own_pending_row_def then_a_def throw_a_def split: if_splits)
  then show ?thesis
  proof cases
    case avail
    then show ?thesis using verify_available_settled [OF avail(2) assms(2)] mem by (simp add: published_def)
  next
    case failed
    from failed(2) show ?thesis
    proof (cases rule: then_a_cases)
      case (1 e)
      then show ?thesis using reclaim_failed_settled(1) [OF 1(1) assms(2)] by blast
    next
      case (2 own mid)
      note own = reclaim_failed_settled(2) [OF 2(1) assms(2) refl]
      have ok: "artifacts_ok (fst mid)"
        using reclaim_failed_settled(1) [OF 2(1) assms(2)] by (simp add: put_settled_def)
      from store_blob_settled [OF 2(2) this] own have "put_settled row (fst mid) r (fst s')"
        using put_settled_content by blast
      with reclaim_failed_settled(1) [OF 2(1) assms(2)] show ?thesis by (rule put_settled_trans)
    qed
  next
    case pending
    then show ?thesis using put_settled_refl [OF assms(2)] by simp
  qed
qed

lemma put_artifact_settled:
  assumes "put_artifact h S t bytes d s = (r, s')" and "artifacts_ok (fst s)"
  shows "put_settled (pending_row d) (fst s) r (fst s')"
proof (cases "validate_put h bytes d \<and> tenant_active (fst s) (des_tenant d)")
  case False
  with assms put_settled_refl show ?thesis
    by (auto simp: put_artifact_def then_a_def query_a_def read_q_def throw_a_def split: if_splits)
next
  case True
  with assms(1) have "then_a (query_a (insert_artifact (pending_row d))) (\<lambda>inserted. case inserted of
      row # _ \<Rightarrow> store_blob h S t row bytes
    | [] \<Rightarrow>
        then_a (query_a (read_q (find_by_identity d))) (\<lambda>found. case found of
            None \<Rightarrow> throw_a ProviderUnavailable
          | Some row \<Rightarrow>
              if ar_status row = ArtifactAvailable then verify_available S row
              else then_a (own_pending_row t row) (\<lambda>owned. store_blob h S t owned bytes))) s = (r, s')"
    (is "then_a _ ?next s = _")
    by (simp add: put_artifact_def then_a_def query_a_def read_q_def)
  then show ?thesis
  proof (cases rule: then_a_cases)
    case (1 e)
    then show ?thesis using put_settled_refl [OF assms(2)] by (auto elim: query_a_cases)
  next
    case (2 rows mid)
    from 2(1) obtain db where db: "insert_artifact (pending_row d) (fst s) = Inr (rows, db)" "mid = (db, snd s)"
      by (auto simp: query_a_Inr)
    from db(1) show ?thesis
    proof (cases rule: insert_artifact_Inr)
      case inserted
      have "put_settled (pending_row d) (fst s) (Inl e) db" for e
        using inserted assms(2) by (simp add: put_settled_def artifacts_ok_def published_def pending_row_def)
      moreover from this [of WritePending] have "put_settled (pending_row d) db r (fst s')"
        using store_blob_settled [of h S t "pending_row d" bytes mid r s'] 2(2) inserted db(2)
        by (simp add: put_settled_def [of _ "fst s"]) (simp add: pending_row_def)
      ultimately show ?thesis by (rule put_settled_trans)
    next
      case kept
      with 2(2) db(2) have mid: "mid = s" and nxt: "?next [] s = (r, s')" by simp_all
      show ?thesis
      proof (cases "find_by_identity d (fst s)")
        case None
        with nxt assms(2) put_settled_refl show ?thesis
          by (auto simp: then_a_def query_a_def read_q_def throw_a_def)
      next
        case (Some row)
        have same: "artifact_content row = artifact_content (pending_row d)"
          using Some by (auto simp: find_by_identity_def find_Some_iff artifact_content_def pending_row_def)
        have "(if ar_status row = ArtifactAvailable then verify_available S row
            else then_a (own_pending_row t row) (\<lambda>owned. store_blob h S t owned bytes)) s = (r, s')"
          using nxt Some by (simp add: then_a_def [of "query_a _"] query_a_def read_q_def)
        from stored_settled [OF Some assms(2) this] show ?thesis
          using put_settled_content [OF same] by simp
      qed
    qed
  qed
qed

end
