(* ===== verification/ArtifactLaws.thy ===== *)
theory ArtifactLaws
  imports ArtifactStore
begin

text \<open>
  What the artifact store guarantees: over any blob service, that a put publishes all or nothing
  and that a read is authentic; over one that keeps its objects, that a put reads back; and what a
  deletion leaves.
\<close>

section \<open>A blob service that keeps its objects\<close>

text \<open>
  The documented behaviour of the service while it answers: \<open>content\<close> is what it holds, an
  object is never overwritten, and the metadata and the stream of an object are its own.
\<close>

definition answers_head :: "'b blob_service \<Rightarrow> ('b \<Rightarrow> string \<Rightarrow> string option) \<Rightarrow> (string \<Rightarrow> string) \<Rightarrow> bool" where
  "answers_head S content etag \<longleftrightarrow>
     (\<forall>path b. sdk_head S path b = (case content b path of None \<Rightarrow> (HeadMissing, b)
        | Some x \<Rightarrow> (HeadFound \<lparr>blob_etag = etag x, blob_path = path, blob_size = int (length x)\<rparr>, b)))"

definition answers_get :: "'b blob_service \<Rightarrow> ('b \<Rightarrow> string \<Rightarrow> string option) \<Rightarrow> bool" where
  "answers_get S content \<longleftrightarrow>
     (\<forall>path b. case content b path of None \<Rightarrow> sdk_get S path b = (GetMissing, b)
        | Some x \<Rightarrow> \<exists>chunks. concat chunks = x \<and>
            sdk_get S path b = (GetFound \<lparr>body_status = 200, body_stream = Some (map Inr chunks),
              body_path = path, body_size = Some (int (length x))\<rparr>, b))"

definition answers_put :: "'b blob_service \<Rightarrow> ('b \<Rightarrow> string \<Rightarrow> string option) \<Rightarrow> bool" where
  "answers_put S content \<longleftrightarrow>
     (\<forall>path bytes b. content b path = None \<longrightarrow>
        (\<exists>b'. sdk_put S path bytes b = (True, b') \<and> content b' = (content b)(path \<mapsto> bytes)))"

lemma collect_stream_chunks:
  "collect_stream expected got (map Inr chunks) =
     (if got + int (length (concat chunks)) = expected then Some (concat chunks) else None)"
  by (induction chunks arbitrary: got) (auto simp: add.assoc)

lemma client_head_found:
  "answers_head S content etag \<Longrightarrow> content b path = Some x
    \<Longrightarrow> client_head S path b =
      (Inr (Some \<lparr>blob_etag = canonical_etag (etag x), blob_path = path, blob_size = int (length x)\<rparr>), b)"
  by (simp add: client_head_def answers_head_def)

lemma client_put_new:
  assumes "answers_head S content etag" and "answers_put S content" and "content b path = None"
  obtains b' where "content b' = (content b)(path \<mapsto> bytes)"
    and "client_put S path bytes b =
      (Inr \<lparr>blob_etag = canonical_etag (etag bytes), blob_path = path, blob_size = int (length bytes)\<rparr>, b')"
proof -
  from assms(2,3) obtain b' where b': "sdk_put S path bytes b = (True, b')"
    "content b' = (content b)(path \<mapsto> bytes)"
    unfolding answers_put_def by blast
  have "content b' path = Some bytes" using b'(2) by simp
  from client_head_found [OF assms(1) this] b' show ?thesis
    by (intro that [of b']) (simp_all add: client_put_def)
qed

lemma client_get_found:
  assumes "answers_head S content etag" and "answers_get S content" and "content b path = Some x"
    and "length x \<le> 1073741824"
  shows "client_get S path (int (length x)) b =
    (Inr (Some (x, \<lparr>blob_etag = canonical_etag (etag x), blob_path = path, blob_size = int (length x)\<rparr>)), b)"
proof -
  from assms(2,3) obtain chunks where chunks: "concat chunks = x"
    "sdk_get S path b = (GetFound \<lparr>body_status = 200, body_stream = Some (map Inr chunks),
       body_path = path, body_size = Some (int (length x))\<rparr>, b)"
    using spec [OF spec [OF assms(2)[unfolded answers_get_def], of path], of b] by auto
  have "body_bytes (int (length x)) \<lparr>body_status = 200, body_stream = Some (map Inr chunks),
      body_path = path, body_size = Some (int (length x))\<rparr> = Some x"
    using collect_stream_chunks [of "int (length x)" 0 chunks] chunks(1) by (simp add: body_bytes_def)
  with chunks(2) client_head_found [OF assms(1,3)] assms(4) show ?thesis
    by (simp add: client_get_def trusted_size_ok_def max_private_blob_bytes_def)
qed

section \<open>A put that succeeds\<close>

definition new_identity :: "artifact_descriptor \<Rightarrow> store \<Rightarrow> bool" where
  "new_identity d db \<longleftrightarrow>
     (\<forall>a \<in> set (st_artifacts db). artifact_content a \<noteq> artifact_content (pending_row d) \<and>
        artifact_key a \<noteq> artifact_key (pending_row d) \<and> ar_key a \<noteq> des_key d)"

definition stored_row :: "int \<Rightarrow> artifact_descriptor \<Rightarrow> string \<Rightarrow> artifact_row" where
  "stored_row t d etag = (pending_row d)\<lparr>ar_status := ArtifactAvailable, ar_etag := Some etag,
     ar_verified := Some t, ar_version := 2, ar_updated := t\<rparr>"

lemma pending_row_ok: "descriptor_ok d \<Longrightarrow> artifact_row_ok (pending_row d)"
  by (auto simp: descriptor_ok_def artifact_row_ok_def pending_row_def artifact_shape_def)

lemma pending_row_descriptor: "descriptor_ok d \<Longrightarrow> row_descriptor (pending_row d) = Inr d"
  by (cases d) (simp add: row_descriptor_def pending_row_def parse_as_def)

lemma stored_row_descriptor: "row_descriptor (stored_row t d e) = row_descriptor (pending_row d)"
  by (simp add: row_descriptor_def stored_row_def)

lemma stored_row_ok:
  "descriptor_ok d \<Longrightarrow> des_created d \<le> t \<Longrightarrow> len_in 1 512 etag
    \<Longrightarrow> artifact_update_ok (pending_row d) (stored_row t d etag)"
  by (auto simp: descriptor_ok_def artifact_row_ok_def pending_row_def artifact_shape_def stored_row_def
      artifact_update_ok_def successor_version_def)

lemma update_first:
  assumes "sel r" and "\<And>a. a \<in> set rs \<Longrightarrow> \<not> sel a" and "legal r (upd r)"
  shows "update_where sel upd legal (r # rs) = Inr ([upd r], upd r # rs)"
proof -
  have "filter sel rs = []" "map (\<lambda>a. if sel a then upd a else a) rs = rs"
    using assms(2) by (auto simp: filter_empty_conv intro!: map_idI)
  with assms show ?thesis by (auto simp: update_where_def list_ex_iff)
qed

lemma store_blob_new:
  assumes "answers_head S content etag" and "answers_put S content" and "content b (des_key d) = None"
    and ok: "descriptor_ok d" "des_bytes d = int (length bytes)"
    and others: "\<And>a. a \<in> set rows \<Longrightarrow> artifact_key a \<noteq> artifact_key (pending_row d)"
    and time: "des_created d \<le> t" "len_in 1 512 (canonical_etag (etag bytes))"
  obtains b' where "content b' = (content b)(des_key d \<mapsto> bytes)"
    and "store_blob h S t (pending_row d) bytes (db\<lparr>st_artifacts := pending_row d # rows\<rparr>, b) =
      (Inr d, (db\<lparr>st_artifacts := stored_row t d (canonical_etag (etag bytes)) # rows\<rparr>, b'))"
proof -
  let ?m = "\<lparr>blob_etag = canonical_etag (etag bytes), blob_path = des_key d, blob_size = int (length bytes)\<rparr>"
  from client_put_new [OF assms(1-3)] obtain b' where b': "content b' = (content b)(des_key d \<mapsto> bytes)"
    "client_put S (des_key d) bytes b = (Inr ?m, b')" by metis
  let ?upd = "\<lambda>a. a\<lparr>ar_status := ArtifactAvailable, ar_etag := Some (blob_etag ?m),
    ar_verified := Some t, ar_version := ar_version a + 1, ar_updated := t\<rparr>"
  have upd: "?upd (pending_row d) = stored_row t d (canonical_etag (etag bytes))"
    by (simp add: stored_row_def pending_row_def)
  have desc: "row_descriptor (stored_row t d e) = Inr d" for e
    using pending_row_descriptor [OF ok(1)] by (simp add: stored_row_descriptor)
  have "update_where (artifact_at (pending_row d) ArtifactPending) ?upd artifact_update_ok (pending_row d # rows) =
      Inr ([?upd (pending_row d)], ?upd (pending_row d) # rows)"
  proof (rule update_first)
    show "artifact_at (pending_row d) ArtifactPending (pending_row d)"
      by (simp add: artifact_at_def pending_row_def)
    show "artifact_update_ok (pending_row d) (?upd (pending_row d))"
      unfolding upd by (rule stored_row_ok [OF ok(1) time])
    show "\<not> artifact_at (pending_row d) ArtifactPending a" if "a \<in> set rows" for a
      using others [OF that] by (auto simp: artifact_at_def artifact_key_def)
  qed
  then have "finalize_write t (pending_row d) d ?m (db\<lparr>st_artifacts := pending_row d # rows\<rparr>, b') =
      (Inr d, (db\<lparr>st_artifacts := stored_row t d (canonical_etag (etag bytes)) # rows\<rparr>, b'))"
    using ok(2) desc upd
    by (simp add: finalize_write_def metadata_matches_def then_a_def query_a_def update_artifacts_def lift_a_def)
  with b' show ?thesis
    by (intro that [of b'] b'(1)) (simp add: store_blob_def then_a_def lift_a_def pending_row_descriptor [OF ok(1)]
        write_blob_def catch_a_def blob_a_def)
qed

text \<open>A valid put of new bytes: its outcome, and what a caller of the case reads then.\<close>

lemma put_artifact_new:
  assumes "answers_head S content etag" and "answers_put S content"
    and "validate_put h bytes d" and "tenant_active db (des_tenant d)"
    and "(des_tenant d, des_case d) \<in> case_key ` set (st_cases db)"
    and "new_identity d db" and "content b (des_key d) = None"
    and "des_created d \<le> t" and "len_in 1 512 (canonical_etag (etag bytes))"
  obtains b' where "content b' = (content b)(des_key d \<mapsto> bytes)"
    and "put_artifact h S t bytes d (db, b) =
      (Inr d, (db\<lparr>st_artifacts := stored_row t d (canonical_etag (etag bytes)) # st_artifacts db\<rparr>, b'))"
proof -
  have ok: "descriptor_ok d" "des_bytes d = int (length bytes)" using assms(3) by (auto simp: validate_put_def)
  have others: "\<And>a. a \<in> set (st_artifacts db) \<Longrightarrow> artifact_key a \<noteq> artifact_key (pending_row d)"
    using assms(6) by (simp add: new_identity_def)
  from store_blob_new [OF assms(1,2,7) ok others assms(8,9)] obtain b' where
    b': "content b' = (content b)(des_key d \<mapsto> bytes)"
      "store_blob h S t (pending_row d) bytes (db\<lparr>st_artifacts := pending_row d # st_artifacts db\<rparr>, b) =
        (Inr d, (db\<lparr>st_artifacts := stored_row t d (canonical_etag (etag bytes)) # st_artifacts db\<rparr>, b'))" by metis
  have "insert_artifact (pending_row d) db =
      Inr ([pending_row d], db\<lparr>st_artifacts := pending_row d # st_artifacts db\<rparr>)"
    using assms(5,6) pending_row_ok [OF ok(1)]
    by (auto simp: insert_artifact_def new_identity_def image_iff) (auto simp: pending_row_def)
  with b' assms(3,4) show ?thesis
    by (intro that [OF b'(1)]) (simp add: put_artifact_def then_a_def query_a_def read_q_def)
qed

lemma read_stored_row:
  assumes "answers_head S content etag" and "answers_get S content" and "validate_put h bytes d"
    and "content b (des_key d) = Some bytes" and "tenant_scope_ok scope" and "scope_tenant scope = des_tenant d"
    and "\<exists>i \<in> set (st_keys db). ir_tenant i = des_tenant d \<and> ir_case i = des_case d \<and>
      ir_caller i = scope_caller scope"
    and "st_artifacts db = stored_row t d (canonical_etag (etag bytes)) # rows"
  shows "read_artifact h S scope (des_id d) (db, b) = (Inr (Some (bytes, d)), (db, b))"
proof -
  let ?e = "canonical_etag (etag bytes)"
  have ok: "descriptor_ok d" "des_bytes d = int (length bytes)" "des_sha256 d = sha256_hex h bytes"
    using assms(3) by (auto simp: validate_put_def)
  have "find_authorized scope (des_id d) ArtifactAvailable db = Some (stored_row t d ?e)"
    using assms(6-8) by (simp add: find_authorized_def stored_row_def pending_row_def list_ex_iff)
  moreover have "row_descriptor (stored_row t d ?e) = Inr d"
    using pending_row_descriptor [OF ok(1)] by (simp add: stored_row_descriptor)
  moreover have "length bytes \<le> 1073741824" using ok by (simp add: descriptor_ok_def)
  ultimately show ?thesis
    using client_get_found [OF assms(1,2,4)] assms(5) ok
    by (simp add: read_artifact_def read_row_def then_a_def lift_a_def parse_as_def query_a_def read_q_def
        blob_a_def metadata_matches_def return_a_def) (simp add: stored_row_def)
qed

section \<open>A deletion that succeeds\<close>

lemma only_artifacts_tables:
  "only_artifacts db db' \<Longrightarrow> st_cases db' = st_cases db \<and> st_tenants db' = st_tenants db \<and>
     st_keys db' = st_keys db \<and> st_jobs db' = st_jobs db"
  by (cases db; cases db') (simp add: only_artifacts_def)

lemma remove_blob_Inr:
  assumes "remove_blob S t claimed d etag s = (Inr x, s')"
  obtains rows where "update_artifacts (artifact_at claimed ArtifactDeleting)
      (\<lambda>a. a\<lparr>ar_status := ArtifactDeleted, ar_deleted := Some t, ar_version := ar_version a + 1,
        ar_updated := t\<rparr>) (fst s) = Inr (rows, fst s')" and "rows \<noteq> []"
proof -
  from assms obtain left mid where
    left: "then_a (blob_a (client_delete S (des_key d) (Some etag))) (\<lambda>deleted.
      if deleted then return_a None else blob_a (client_head S (des_key d))) s = (Inr left, mid)"
    and rest: "(if left \<noteq> None then throw_a ProviderUnavailable
      else then_a (query_a (update_artifacts (artifact_at claimed ArtifactDeleting)
        (\<lambda>a. a\<lparr>ar_status := ArtifactDeleted, ar_deleted := Some t, ar_version := ar_version a + 1,
          ar_updated := t\<rparr>))) (\<lambda>rows.
        if rows = [] then throw_a ProviderUnavailable else return_a True)) mid = (Inr x, s')"
    unfolding remove_blob_def then_a_Inr by blast
  have "fst mid = fst s" using left by (auto simp: then_a_Inr dest!: blob_a_store split: if_splits)
  with rest show ?thesis by (auto simp: then_a_Inr query_a_Inr intro!: that split: if_splits)
qed

lemma delete_artifact_Inr:
  assumes "delete_artifact S t scope artifact (db, b) = (Inr True, (db', b'))" and "artifacts_ok db"
  obtains a r where "a \<in> set (published db)" and "artifact_key a = (scope_tenant scope, artifact)"
    and "artifacts_ok db'" and "only_artifacts db db'" and "r \<in> set (st_artifacts db')"
    and "ar_status r = ArtifactDeleted" and "artifact_key r = artifact_key a"
    and "artifact_content r = artifact_content a"
proof -
  let ?claim = "\<lambda>a :: artifact_row. a\<lparr>ar_status := ArtifactDeleting, ar_version := ar_version a + 1, ar_updated := t\<rparr>"
  let ?drop = "\<lambda>a :: artifact_row. a\<lparr>ar_status := ArtifactDeleted, ar_deleted := Some t,
    ar_version := ar_version a + 1, ar_updated := t\<rparr>"
  have ids: "artifact_key (?claim a) = artifact_key a \<and> artifact_content (?claim a) = artifact_content a"
    "artifact_key (?drop a) = artifact_key a \<and> artifact_content (?drop a) = artifact_content a" for a
    by (simp_all add: artifact_key_def artifact_content_def)
  from assms(1) obtain a where a: "find_authorized scope artifact ArtifactAvailable db = Some a"
    by (cases "find_authorized scope artifact ArtifactAvailable db")
      (auto simp: delete_artifact_def then_a_def query_a_def read_q_def lift_a_def parse_as_def return_a_def
        split: if_splits)
  with assms(1) obtain etag d where "then_a (query_a (update_artifacts (artifact_at a ArtifactAvailable) ?claim))
      (\<lambda>rows. case rows of [] \<Rightarrow> return_a False
       | claimed # _ \<Rightarrow> catch_a (remove_blob S t claimed d etag) (restore_artifact t claimed)) (db, b) =
      (Inr True, (db', b'))"
    by (cases "ar_etag a"; cases "row_descriptor a")
      (auto simp: delete_artifact_def then_a_def [of "query_a (read_q _)"] then_a_def [of "lift_a _"] query_a_def [of "read_q _"]
        read_q_def lift_a_def parse_as_def return_a_def split: if_splits)
  then obtain rows mid where claim: "update_artifacts (artifact_at a ArtifactAvailable) ?claim db = Inr (rows, mid)"
    and rest: "(case rows of [] \<Rightarrow> return_a False
       | claimed # _ \<Rightarrow> catch_a (remove_blob S t claimed d etag) (restore_artifact t claimed)) (mid, b) =
      (Inr True, (db', b'))"
    by (auto simp: then_a_Inr query_a_Inr)
  from rest obtain claimed more where rows: "rows = claimed # more" by (cases rows) auto
  with rest have "remove_blob S t claimed d etag (mid, b) = (Inr True, (db', b'))"
    by (auto simp: catch_a_def restore_artifact_def then_a_Inr split: sum.splits prod.splits)
  then obtain dropped where drop: "update_artifacts (artifact_at claimed ArtifactDeleting) ?drop mid = Inr (dropped, db')"
    "dropped \<noteq> []" by (rule remove_blob_Inr) simp
  note mid = update_artifacts_ok [OF claim assms(2) ids(1)]
  note end_ok = update_artifacts_ok [OF drop(1) mid(1) ids(2)]
  have avail: "a \<in> set (published db)" "artifact_key a = (scope_tenant scope, artifact)"
    using a by (auto simp: find_authorized_def find_Some_iff published_def artifact_key_def)
  have "rows = map ?claim (filter (artifact_at a ArtifactAvailable) (st_artifacts db))"
    using claim by (simp only: update_artifacts_Inr)
  with rows have "claimed \<in> ?claim ` set (filter (artifact_at a ArtifactAvailable) (st_artifacts db))"
    by (metis list.set_intros(1) set_map)
  then obtain x where x: "x \<in> set (st_artifacts db)" "artifact_at a ArtifactAvailable x" "claimed = ?claim x"
    by auto
  from x(2) have "artifact_key x = artifact_key a" by (simp add: artifact_at_def artifact_key_def)
  then have [simp]: "x = a" using artifact_row_unique [OF assms(2) x(1)] avail(1) by (simp add: published_def)
  have claimed: "claimed \<in> set (st_artifacts mid)" using x claim by (auto simp: update_artifacts_Inr)
  from drop obtain y where y: "y \<in> set (st_artifacts mid)" "artifact_at claimed ArtifactDeleting y"
    "?drop y \<in> set (st_artifacts db')"
    by (force simp: update_artifacts_Inr filter_empty_conv)
  from y(2) have "artifact_key y = artifact_key claimed" by (simp add: artifact_at_def artifact_key_def)
  then have "y = claimed" using artifact_row_unique [OF mid(1) y(1) claimed] by simp
  with x(3) ids have "artifact_key (?drop y) = artifact_key a \<and> artifact_content (?drop y) = artifact_content a"
    by (simp add: artifact_key_def artifact_content_def)
  with avail end_ok only_artifacts_trans [OF mid(2) end_ok(2)] y(3) show ?thesis by (intro that [of a "?drop y"]) simp_all
qed


section \<open>A sample\<close>

definition memory_blobs :: "(string \<Rightarrow> string option) blob_service" where
  "memory_blobs =
     \<lparr>sdk_put = (\<lambda>path bytes b. case b path of None \<Rightarrow> (True, b(path \<mapsto> bytes)) | Some _ \<Rightarrow> (False, b)),
      sdk_head = (\<lambda>path b. case b path of None \<Rightarrow> (HeadMissing, b)
        | Some x \<Rightarrow> (HeadFound \<lparr>blob_etag = [CHR 0x22, CHR ''e'', CHR 0x22], blob_path = path,
            blob_size = int (length x)\<rparr>, b)),
      sdk_get = (\<lambda>path b. case b path of None \<Rightarrow> (GetMissing, b)
        | Some x \<Rightarrow> (GetFound \<lparr>body_status = 200, body_stream = Some (map Inr [x]), body_path = path,
            body_size = Some (int (length x))\<rparr>, b)),
      sdk_del = (\<lambda>path _ b. case b path of None \<Rightarrow> (DelMissing, b) | Some _ \<Rightarrow> (DelDone, b(path := None)))\<rparr>"

definition sample_descriptor :: artifact_descriptor where
  "sample_descriptor =
     \<lparr>des_id = ''a'', des_bytes = 3, des_case = ''c'', des_created = 0, des_kind = BundleArtifact,
      des_key = object_key_for ''t'' ''c'' BundleArtifact (replicate 64 (CHR ''0'')), des_retention = 9000,
      des_sha256 = replicate 64 (CHR ''0''), des_tenant = ''t''\<rparr>"

definition bundle_store :: store where
  "bundle_store = reserved_store\<lparr>st_artifacts := [stored_row 5 sample_descriptor ''e'']\<rparr>"

definition bundle_blobs :: "string \<Rightarrow> string option" where
  "bundle_blobs = Map.empty(des_key sample_descriptor \<mapsto> ''abc'')"

lemma memory_blobs_answer:
  "answers_head memory_blobs (\<lambda>b. b) (\<lambda>_. [CHR 0x22, CHR ''e'', CHR 0x22])"
  "answers_get memory_blobs (\<lambda>b. b)" "answers_put memory_blobs (\<lambda>b. b)"
  by (auto simp: answers_head_def answers_get_def answers_put_def memory_blobs_def split: option.splits
      intro: exI [of _ "[x]" for x])

lemma sample_etag: "canonical_etag [CHR 0x22, CHR ''e'', CHR 0x22] = ''e''"
  by code_simp

lemma sample_put_valid: "validate_put plain_host ''abc'' sample_descriptor"
  by code_simp

lemma sample_identity: "new_identity sample_descriptor reserved_store"
  by (simp add: new_identity_def reserved_store_def sample_store_def)

lemma sample_put:
  "put_artifact plain_host memory_blobs 5 ''abc'' sample_descriptor (reserved_store, Map.empty) =
     (Inr sample_descriptor, (bundle_store, bundle_blobs))"
proof (rule put_artifact_new [OF memory_blobs_answer(1,3) sample_put_valid _ _ sample_identity, where b = Map.empty and t = 5])
  show "tenant_active reserved_store (des_tenant sample_descriptor)"
    by (simp add: tenant_active_def reserved_store_def sample_store_def sample_descriptor_def)
  show "(des_tenant sample_descriptor, des_case sample_descriptor) \<in> case_key ` set (st_cases reserved_store)"
    by (simp add: reserved_store_def sample_descriptor_def case_key_def new_case_row_def durable_sample_def)
qed (simp_all add: sample_etag sample_descriptor_def bundle_store_def bundle_blobs_def len_in_def
    reserved_store_def sample_store_def)

lemma sample_artifacts_ok: "artifacts_ok reserved_store"
  by (simp add: artifacts_ok_def reserved_store_def sample_store_def)

lemma bundle_store_ok: "artifacts_ok bundle_store"
  using put_artifact_settled [OF sample_put] sample_artifacts_ok by (simp add: put_settled_def)

lemma sample_scope_reads:
  "tenant_scope_ok sample_scope" "scope_tenant sample_scope = des_tenant sample_descriptor"
  "\<exists>i \<in> set (st_keys reserved_store). ir_tenant i = des_tenant sample_descriptor \<and>
     ir_case i = des_case sample_descriptor \<and> ir_caller i = scope_caller sample_scope"
  by (simp_all add: sample_scope_def tenant_scope_ok_def opaque_id_def identifier_ok_def len_in_def alnum_char_def
      lower_char_def code_unit_def sample_descriptor_def reserved_store_def new_key_row_def durable_sample_def)

lemma sample_read:
  "read_artifact plain_host memory_blobs sample_scope ''a'' (bundle_store, bundle_blobs) =
     (Inr (Some (''abc'', sample_descriptor)), (bundle_store, bundle_blobs))"
  using read_stored_row [OF memory_blobs_answer(1,2) sample_put_valid, of bundle_blobs sample_scope bundle_store 5]
    sample_scope_reads
  by (simp add: bundle_store_def bundle_blobs_def sample_etag reserved_store_def sample_store_def)
    (simp add: sample_descriptor_def)

lemma sample_delete:
  "\<exists>s. delete_artifact memory_blobs 6 sample_scope ''a'' (bundle_store, bundle_blobs) = (Inr True, s)"
proof -
  let ?a = "stored_row 5 sample_descriptor ''e''"
  let ?claim = "\<lambda>a :: artifact_row. a\<lparr>ar_status := ArtifactDeleting, ar_version := ar_version a + 1, ar_updated := 6\<rparr>"
  let ?drop = "\<lambda>a :: artifact_row. a\<lparr>ar_status := ArtifactDeleted, ar_deleted := Some 6,
    ar_version := ar_version a + 1, ar_updated := 6\<rparr>"
  have d: "descriptor_ok sample_descriptor" using sample_put_valid by (simp add: validate_put_def)
  have row: "artifact_row_ok (pending_row sample_descriptor)" using pending_row_ok [OF d] .
  have claim: "update_artifacts (artifact_at ?a ArtifactAvailable) ?claim bundle_store =
      Inr ([?claim ?a], bundle_store\<lparr>st_artifacts := [?claim ?a]\<rparr>)"
    using row by (simp add: update_artifacts_def update_where_def bundle_store_def artifact_at_def artifact_update_ok_def
        successor_version_def stored_row_def artifact_row_ok_def artifact_shape_def len_in_def pending_row_def
        sample_descriptor_def)
  have drop: "update_artifacts (artifact_at (?claim ?a) ArtifactDeleting) ?drop (bundle_store\<lparr>st_artifacts := [?claim ?a]\<rparr>) =
      Inr ([?drop (?claim ?a)], bundle_store\<lparr>st_artifacts := [?drop (?claim ?a)]\<rparr>)"
    using row by (simp add: update_artifacts_def update_where_def bundle_store_def artifact_at_def artifact_update_ok_def
        successor_version_def stored_row_def artifact_row_ok_def artifact_shape_def len_in_def pending_row_def
        sample_descriptor_def)
  have find: "find_authorized sample_scope ''a'' ArtifactAvailable bundle_store = Some ?a"
    using sample_scope_reads
    by (simp add: find_authorized_def bundle_store_def reserved_store_def stored_row_def pending_row_def
        list_ex_iff sample_scope_def sample_descriptor_def)
  have "client_delete memory_blobs (des_key sample_descriptor) (Some ''e'') bundle_blobs = (Inr True, Map.empty)"
    by (simp add: client_delete_def memory_blobs_def bundle_blobs_def)
  then have "remove_blob memory_blobs 6 (?claim ?a) sample_descriptor ''e''
      (bundle_store\<lparr>st_artifacts := [?claim ?a]\<rparr>, bundle_blobs) =
      (Inr True, (bundle_store\<lparr>st_artifacts := [?drop (?claim ?a)]\<rparr>, Map.empty))"
    using drop by (simp add: remove_blob_def then_a_def blob_a_def return_a_def query_a_def)
  moreover have "row_descriptor ?a = Inr sample_descriptor" "ar_etag ?a = Some ''e''"
    using pending_row_descriptor [OF d] by (simp add: stored_row_descriptor, simp add: stored_row_def)
  ultimately show ?thesis
    using find claim sample_scope_reads(1)
    by (simp add: delete_artifact_def then_a_def lift_a_def parse_as_def query_a_def read_q_def catch_a_def)
qed

section \<open>Properties\<close>

text \<open>
  C18. Whatever the blob service does, a put that throws publishes nothing, and a put that
  returns publishes one artifact, with the identity of the bytes, and touches no other table.
\<close>

theorem put_is_all_or_nothing:
  assumes "artifacts_ok db" and "put_artifact h S t bytes d (db, b) = (res, (db', b'))"
  shows "artifacts_ok db' \<and> db' = db\<lparr>st_artifacts := st_artifacts db'\<rparr> \<and>
    (case res of
       Inl _ \<Rightarrow> published db' = published db
     | Inr d' \<Rightarrow> \<exists>a. row_descriptor a = Inr d' \<and>
         artifact_content a = (des_tenant d, des_case d, des_kind d, sha256_hex h bytes) \<and>
         set (published db') = insert a (set (published db)))"
proof -
  have settled: "put_settled (pending_row d) db res db'"
    using put_artifact_settled [OF assms(2)] assms(1) by simp
  have "artifact_content (pending_row d) = (des_tenant d, des_case d, des_kind d, sha256_hex h bytes)"
    if "res = Inr d'" for d'
    using assms(2) that by (auto simp: put_artifact_def validate_put_def artifact_content_def pending_row_def
        split: if_splits)
  with settled show ?thesis by (auto simp: put_settled_def only_artifacts_def split: sum.splits)
qed

lemma put_is_all_or_nothing_witness:
  "set (published bundle_store) = insert (stored_row 5 sample_descriptor ''e'') (set (published reserved_store)) \<and>
   bundle_store = reserved_store\<lparr>st_artifacts := st_artifacts bundle_store\<rparr>"
proof -
  have "\<exists>a. set (published bundle_store) = insert a (set (published reserved_store))"
    and same: "bundle_store = reserved_store\<lparr>st_artifacts := st_artifacts bundle_store\<rparr>"
    using put_is_all_or_nothing [OF sample_artifacts_ok sample_put] by auto
  moreover have "published bundle_store = [stored_row 5 sample_descriptor ''e'']" "published reserved_store = []"
    by (simp_all add: published_def bundle_store_def stored_row_def reserved_store_def sample_store_def)
  ultimately show ?thesis by simp
qed

text \<open>
  C19. Whatever the blob service does, bytes that a read returns have the length and the hash of
  the descriptor of an available artifact of the caller's tenant, for whose case the caller holds
  an idempotency key.
\<close>

theorem read_is_authentic:
  assumes "read_artifact h S scope artifact (db, b) = (Inr (Some (bytes, d)), s')"
  shows "int (length bytes) = des_bytes d \<and> sha256_hex h bytes = des_sha256 d \<and> descriptor_ok d \<and>
    des_id d = artifact \<and> des_tenant d = scope_tenant scope \<and> fst s' = db \<and>
    (\<exists>a \<in> set (published db). row_descriptor a = Inr d) \<and>
    (\<exists>i \<in> set (st_keys db). ir_tenant i = des_tenant d \<and> ir_case i = des_case d \<and>
       ir_caller i = scope_caller scope)"
proof -
  from assms obtain a where a: "find_authorized scope artifact ArtifactAvailable db = Some a"
    and row: "read_row h S a (db, b) = (Inr (Some (bytes, d)), s')"
    unfolding read_artifact_def
    by (cases "find_authorized scope artifact ArtifactAvailable db")
      (auto simp: then_a_def query_a_def read_q_def lift_a_def parse_as_def return_a_def split: if_splits)
  obtain d' stored mid where desc: "Inr d' = row_descriptor a"
    and get: "blob_a (client_get S (des_key d') (des_bytes d')) (db, b) = (Inr stored, mid)"
    and last: "(case stored of None \<Rightarrow> throw_a IntegrityMismatch
        | Some (bytes, m) \<Rightarrow>
            if \<not> metadata_matches d' (ar_etag a) (Some m) \<or> int (length bytes) \<noteq> des_bytes d' \<or>
               sha256_hex h bytes \<noteq> des_sha256 d'
            then throw_a IntegrityMismatch else return_a (Some (bytes, d'))) mid = (Inr (Some (bytes, d)), s')"
    using row unfolding read_row_def then_a_Inr program_a by blast
  from last have [simp]: "d' = d" "s' = mid" and len: "int (length bytes) = des_bytes d"
    and sha: "sha256_hex h bytes = des_sha256 d"
    by (auto split: option.splits prod.splits if_splits)
  from a have mem: "a \<in> set (published db)" "ar_tenant a = scope_tenant scope" "ar_id a = artifact"
    and key: "\<exists>i \<in> set (st_keys db). ir_tenant i = ar_tenant a \<and> ir_case i = ar_case a \<and>
      ir_caller i = scope_caller scope"
    by (auto simp: find_authorized_def find_Some_iff list_ex_iff published_def)
  have "descriptor_ok d \<and> des_id d = ar_id a \<and> des_tenant d = ar_tenant a \<and> des_case d = ar_case a"
    using desc [symmetric] by (auto simp: row_descriptor_def Let_def parse_as_def split: if_splits)
  with mem key len sha desc [symmetric] blob_a_store [OF get] show ?thesis by auto
qed

lemma read_is_authentic_witness:
  "sha256_hex plain_host ''abc'' = des_sha256 sample_descriptor \<and> descriptor_ok sample_descriptor \<and>
   (\<exists>a \<in> set (published bundle_store). row_descriptor a = Inr sample_descriptor)"
  using read_is_authentic [OF sample_read] by blast

text \<open>
  Over a blob service that keeps its objects, a valid put of new bytes for an existing case
  of an active tenant succeeds, and every caller of the case then reads exactly these bytes with
  exactly this descriptor.
\<close>

theorem put_reads_back:
  assumes "answers_head S content etag" and "answers_get S content" and "answers_put S content"
    and "validate_put h bytes d" and "tenant_active db (des_tenant d)"
    and "(des_tenant d, des_case d) \<in> case_key ` set (st_cases db)"
    and "new_identity d db" and "content b (des_key d) = None"
    and "des_created d \<le> t" and "len_in 1 512 (canonical_etag (etag bytes))"
    and "tenant_scope_ok scope" and "scope_tenant scope = des_tenant d"
    and "\<exists>i \<in> set (st_keys db). ir_tenant i = des_tenant d \<and> ir_case i = des_case d \<and>
      ir_caller i = scope_caller scope"
  shows "\<exists>db' b'. put_artifact h S t bytes d (db, b) = (Inr d, (db', b')) \<and>
    read_artifact h S scope (des_id d) (db', b') = (Inr (Some (bytes, d)), (db', b'))"
proof -
  from put_artifact_new [OF assms(1,3-10)] obtain b' where
    b': "content b' = (content b)(des_key d \<mapsto> bytes)" and
    put: "put_artifact h S t bytes d (db, b) =
      (Inr d, (db\<lparr>st_artifacts := stored_row t d (canonical_etag (etag bytes)) # st_artifacts db\<rparr>, b'))" .
  have "content b' (des_key d) = Some bytes" using b' by simp
  from read_stored_row [OF assms(1,2,4) this assms(11,12)] assms(13) put show ?thesis by auto
qed

lemma put_reads_back_witness:
  "\<exists>db' b'. put_artifact plain_host memory_blobs 5 ''abc'' sample_descriptor (reserved_store, Map.empty) =
     (Inr sample_descriptor, (db', b')) \<and>
     read_artifact plain_host memory_blobs sample_scope (des_id sample_descriptor) (db', b') =
       (Inr (Some (''abc'', sample_descriptor)), (db', b'))"
proof (rule put_reads_back [OF memory_blobs_answer sample_put_valid _ _ sample_identity _ _ _ sample_scope_reads])
  show "tenant_active reserved_store (des_tenant sample_descriptor)"
    by (simp add: tenant_active_def reserved_store_def sample_store_def sample_descriptor_def)
  show "(des_tenant sample_descriptor, des_case sample_descriptor) \<in> case_key ` set (st_cases reserved_store)"
    by (simp add: reserved_store_def sample_descriptor_def case_key_def new_case_row_def durable_sample_def)
qed (simp_all add: sample_etag sample_descriptor_def len_in_def)



end
