(* ===== verification/TrustedSample.thy ===== *)
theory TrustedSample
  imports DurableRecords
begin

text \<open>
  The trusted sample: the fixture runner of src/src/infrastructure/runner.ts and
  \<open>runTrustedSample\<close> of src/src/application/sample-case.ts, with its fixed evidence, hypotheses
  and transition path. Runs and oracle of the fixture stand in Oracle.thy.
\<close>

section \<open>The fixture runner\<close>

definition fixture_commands :: "(string \<times> (string \<times> run_result) list) list" where
  "fixture_commands =
     [(''fixture://cli-spaces'', [(''control'', cli_spaces_control), (''reproduce'', cli_spaces_reproduce)])]"

definition fixture_run :: "string \<Rightarrow> string \<Rightarrow> thrown + run_result" where
  "fixture_run repository command =
     (case map_of fixture_commands repository of
        None \<Rightarrow> Inl (Foreign [])
      | Some commands \<Rightarrow>
          (case map_of commands command of
             None \<Rightarrow> Inl (Foreign [])
           | Some r \<Rightarrow> parse_as run_result_ok SchemaError r))"

section \<open>The fixed data\<close>

definition fixture_evidence :: "evidence_item list" where
  "fixture_evidence =
     [\<lparr>item_classification = Reported,
        item_content = ''The CLI crashes when a configuration path contains spaces on Node 22.'',
        item_id = ''evidence-report'', item_source = ''sample issue #184''\<rparr>,
      \<lparr>item_classification = Reported,
        item_content = ''The reporter observed an ENOENT error while loading the configuration.'',
        item_id = ''evidence-stack'', item_source = ''sample issue stack trace''\<rparr>,
      \<lparr>item_classification = Observed,
        item_content = ''The CLI forwards the configuration path through a shell command.'',
        item_id = ''evidence-inspection'', item_source = ''fixture source inspection''\<rparr>,
      \<lparr>item_classification = Unknown,
        item_content = ''The reporter'' @ [CHR 0x27] @
          ''s shell and exact working directory were not provided.'',
        item_id = ''evidence-environment'', item_source = ''missing issue metadata''\<rparr>]"

definition fixture_hypotheses :: "hypothesis list" where
  "fixture_hypotheses =
     [\<lparr>hyp_evidence_ids = [''evidence-report'', ''evidence-stack'', ''evidence-inspection''],
        hyp_expected_signal = ''A spaced path exits 1 with ENOENT while the control path exits 0.'',
        hyp_falsification = ''Both the spaced path and control path load successfully.'',
        hyp_id = ''hypothesis-quoting'', hyp_priority = 1,
        hyp_statement = ''The configuration path is not preserved as one argument when it contains spaces.'',
        hyp_status = Supported,
        hyp_history =
          [\<lparr>status_reason = ''Created from reported and inspected evidence.'', status_sequence = 0,
             status_value = Proposed\<rparr>,
           \<lparr>status_reason = ''The control passed and all three candidate runs matched.'', status_sequence = 1,
             status_value = Supported\<rparr>]\<rparr>,
      \<lparr>hyp_evidence_ids = [''evidence-report'', ''evidence-environment''],
        hyp_expected_signal = ''The same spaced path succeeds on an earlier runtime.'',
        hyp_falsification = ''The failure occurs across the pinned supported runtimes.'',
        hyp_id = ''hypothesis-node-version'', hyp_priority = 2,
        hyp_statement = ''The failure is specific to Node 22 path handling.'', hyp_status = Inconclusive,
        hyp_history =
          [\<lparr>status_reason = ''Created from the reporter'' @ [CHR 0x27] @ ''s runtime claim.'',
             status_sequence = 0, status_value = Proposed\<rparr>,
           \<lparr>status_reason = ''The trusted slice does not vary the runtime.'', status_sequence = 1,
             status_value = Inconclusive\<rparr>]\<rparr>]"

definition fixture_moves :: "(case_state \<times> string) list" where
  "fixture_moves =
     [(Ingesting, ''Loaded the trusted sample issue and fixture.''),
      (Inspecting, ''Classified issue and repository evidence.''),
      (Hypothesizing, ''Created falsifiable hypotheses.''),
      (Experimenting, ''Ran the allowlisted control and candidate commands.''),
      (Verifying, ''Evaluated the versioned failure oracle.''),
      (Minimizing, ''Reduced the reproduction to one spaced-path input.''),
      (Packaging, ''Validated the portable Repro Bundle contract.''),
      (Verified, ''Three candidate runs matched and the control did not.'')]"

definition fixture_lock :: "string \<Rightarrow> string \<Rightarrow> bundle_lock" where
  "fixture_lock dependency tree =
     \<lparr>lock_command = ''npm run fixture:repro -- --config '' @ [CHR 0x22] @
        ''fixtures/cli-spaces/my config.json'' @ [CHR 0x22],
      lock_dependency_hash = dependency,
      lock_environment = [(''NETWORK'', ''denied''), (''NODE_ENV'', ''test'')],
      lock_environment_hash = ''fixture-cli-spaces-v1'', lock_oracle_id = oracle_id cli_spaces_oracle,
      lock_oracle_version = oracle_version cli_spaces_oracle, lock_package_manager = ''npm@11'',
      lock_repository = ''fixture://cli-spaces'', lock_tree_hash = tree, lock_tool_version = ''0.2.0'',
      lock_revision = ''fixture-v1'', lock_runner = ''trusted-fixture-v1'', lock_runtime = ''node@24''\<rparr>"

definition fixture_patch :: string where
  "fixture_patch = join newline
     [''diff --git a/repro/cli-spaces.test.ts b/repro/cli-spaces.test.ts'', ''new file mode 100644'',
      ''+expect(runCli('' @ [CHR 0x27] @ ''--config'' @ [CHR 0x27] @ '', '' @ [CHR 0x27] @
        ''fixtures/cli-spaces/my config.json'' @ [CHR 0x27] @ '')).toExitWith(1);'',
      ''+expect(stderr).toContain('' @ [CHR 0x27] @ ''ENOENT'' @ [CHR 0x27] @ '');'', []]"

section \<open>The run\<close>

record sample_options =
  opt_tool_calls :: "int option"
  opt_required_runs :: "int option"
  opt_case_id :: "string option"
  opt_started :: "int option"

definition or_default :: "'a \<Rightarrow> 'a option \<Rightarrow> 'a" where
  "or_default d v = (case v of None \<Rightarrow> d | Some x \<Rightarrow> x)"

definition named_run :: "string \<Rightarrow> string \<Rightarrow> thrown + run_result" where
  "named_run name command =
     and_then (fixture_run ''fixture://cli-spaces'' command) (\<lambda>r. Inr (r\<lparr>run_id := name\<rparr>))"

definition named_candidates :: "string \<Rightarrow> int \<Rightarrow> thrown + run_result list" where
  "named_candidates prefix n =
     collect (\<lambda>i. named_run (prefix @ int_text i) ''reproduce'') [1..n]"

definition spaced_path_proposal :: "run_result \<Rightarrow> run_result list \<Rightarrow> minimization_proposal" where
  "spaced_path_proposal ctl candidates =
     \<lparr>proposal_candidates = candidates, proposal_control = ctl,
      proposal_description = ''Retain only the spaced configuration path input.'',
      proposal_id = ''spaced-path-only'',
      proposal_removed = [''reporter shell assumption'', ''working-directory variation'']\<rparr>"

text \<open>The summary of the accepted evaluation, or of the baseline.\<close>

definition accepted_summary :: "minimization_result \<Rightarrow> verification_summary \<Rightarrow> verification_summary" where
  "accepted_summary m baseline =
     (case find (\<lambda>e. Some (evaluation_id e) = accepted_reduction_id m) (evaluations m) of
        None \<Rightarrow> baseline | Some e \<Rightarrow> evaluation_summary e)"

definition canonical_thrown :: "canonical_error \<Rightarrow> thrown" where
  "canonical_thrown e = Foreign []"

definition fixture_bundle ::
  "js_host \<Rightarrow> ratio_host \<Rightarrow> time_host \<Rightarrow> (int \<Rightarrow> string) \<Rightarrow> string \<Rightarrow> int \<Rightarrow> run_result list
     \<Rightarrow> minimization_result \<Rightarrow> verification_summary \<Rightarrow> thrown + repro_bundle" where
  "fixture_bundle h R T rendered cid at_ms runs m s =
     and_then (to_iso (Foreign []) at_ms) (\<lambda>generated.
     and_then (throw_as canonical_thrown (hash_canonical h
       (VObj [(''fixture'', VStr ''cli-spaces''), (''packageManager'', VStr ''npm@11'')]))) (\<lambda>dependency.
     and_then (throw_as canonical_thrown (hash_canonical h
       (VObj [(''fixture'', VStr ''cli-spaces''), (''revision'', VStr ''fixture-v1'')]))) (\<lambda>tree.
       throw_as bundle_thrown (create_bundle h R (datetime_text T)
         \<lparr>bundle_case_id = cid, bundle_generated_at = rendered generated, bundle_ledger = fixture_hypotheses,
          bundle_lock_data = fixture_lock dependency tree, bundle_minimization = m,
          bundle_oracle = cli_spaces_oracle, bundle_patch = fixture_patch, bundle_run_log = runs,
          bundle_summary = s\<rparr>))))"

definition run_trusted_sample ::
  "js_host \<Rightarrow> ratio_host \<Rightarrow> time_host \<Rightarrow> (int \<Rightarrow> string) \<Rightarrow> sample_options \<Rightarrow> thrown + sample_result" where
  "run_trusted_sample h R T rendered options =
     and_then (parse_as sample_budget_ok SchemaError
       \<lparr>sample_tool_calls = or_default 6 (opt_tool_calls options),
        sample_required_runs = or_default 3 (opt_required_runs options)\<rparr>) (\<lambda>budget.
     let n = sample_required_runs budget;
         started = or_default 1784476800000 (opt_started options) in
     and_then (named_run ''control-1'' ''control'') (\<lambda>ctl.
     and_then (named_candidates ''candidate-'' n) (\<lambda>candidates.
     and_then (throw_as verification_thrown (verify_reproduction h
       \<lparr>input_oracle = cli_spaces_oracle, input_control = ctl, input_candidates = candidates,
        input_required_runs = Some n\<rparr>)) (\<lambda>baseline.
     and_then (named_run ''minimized-control'' ''control'') (\<lambda>mctl.
     and_then (named_candidates ''minimized-candidate-'' n) (\<lambda>mcandidates.
     and_then (throw_as minimization_thrown (minimize_reproduction h
       \<lparr>baseline_candidates = candidates, baseline_control = ctl, min_oracle = cli_spaces_oracle,
        min_proposals = [spaced_path_proposal mctl mcandidates], min_required_runs = Some n\<rparr>)) (\<lambda>m.
     let s = accepted_summary m baseline in
     and_then (throw_as case_thrown (create_case (or_default ''sample-cli-spaces'' (opt_case_id options)) started)) (\<lambda>c0.
     and_then (throw_as case_thrown (run_case c0 (timed_moves (started + 1) fixture_moves))) (\<lambda>c.
     and_then (fixture_bundle h R T rendered (case_id c) (started + 20) (mctl # mcandidates) m s) (\<lambda>b.
     and_then (throw_as bundle_thrown (materialize_bundle h R (datetime_text T) b)) (\<lambda>files.
       parse_as (sample_result_ok h T) SchemaError
         \<lparr>sample_budget_used = budget, sample_bundle = b, sample_case = c, sample_evidence = fixture_evidence,
          sample_files = files, sample_hypotheses = fixture_hypotheses, sample_minimization = m,
          sample_oracle = cli_spaces_oracle, sample_runs = mctl # mcandidates,
          sample_summary = s\<rparr>)))))))))))"

section \<open>The sample never fails\<close>

lemma throw_as_Inr: "throw_as f (Inr x) = Inr x"
  by (simp add: throw_as_def)

definition sample_candidates :: "string \<Rightarrow> int \<Rightarrow> run_result list" where
  "sample_candidates prefix n = map (\<lambda>i. cli_spaces_reproduce\<lparr>run_id := prefix @ int_text i\<rparr>) [1..n]"

definition sample_control :: "string \<Rightarrow> run_result" where
  "sample_control name = cli_spaces_control\<lparr>run_id := name\<rparr>"

lemma fixture_run_known [simp]:
  "fixture_run ''fixture://cli-spaces'' ''control'' = Inr cli_spaces_control"
  "fixture_run ''fixture://cli-spaces'' ''reproduce'' = Inr cli_spaces_reproduce"
  using cli_spaces_runs_ok by (simp_all add: fixture_run_def fixture_commands_def)

lemma named_runs [simp]:
  "named_run name ''control'' = Inr (sample_control name)"
  "named_candidates prefix n = Inr (sample_candidates prefix n)"
  unfolding named_candidates_def sample_candidates_def
  by (simp add: named_run_def sample_control_def) (intro collect_total, simp add: named_run_def)

lemma sample_runs_ok:
  "name \<noteq> [] \<Longrightarrow> run_result_ok (sample_control name)"
  "prefix \<noteq> [] \<Longrightarrow> list_all run_result_ok (sample_candidates prefix n)"
  using cli_spaces_runs_ok
  by (auto simp: sample_control_def sample_candidates_def run_result_ok_def list_all_iff)

lemma renamed_runs [simp]:
  "run_matches h cli_spaces_oracle (cli_spaces_reproduce\<lparr>run_id := x\<rparr>)"
  "\<not> run_matches h cli_spaces_oracle (sample_control name)"
  by (simp_all add: run_matches_def matched_iff_holds [symmetric] cli_spaces_oracle_def cli_spaces_reproduce_def
      sample_control_def cli_spaces_control_def stream_value_def)

definition sample_verification :: "string \<Rightarrow> string \<Rightarrow> int \<Rightarrow> verification_input" where
  "sample_verification name prefix n =
     \<lparr>input_oracle = cli_spaces_oracle, input_control = sample_control name,
      input_candidates = sample_candidates prefix n, input_required_runs = Some n\<rparr>"

lemma sample_matching: "filter (run_matches h cli_spaces_oracle) (sample_candidates prefix n) = sample_candidates prefix n"
  by (simp add: filter_id_conv sample_candidates_def)

lemma sample_pinned: "r \<in> set (sample_candidates prefix n) \<Longrightarrow> run_environment_hash r = run_environment_hash (sample_control name)"
  by (auto simp: sample_candidates_def sample_control_def cli_spaces_reproduce_def cli_spaces_control_def)

lemma sample_verified:
  assumes "1 \<le> n"
  shows "summary_status (expected_summary h (sample_verification name prefix n)) = StatusVerified"
    and "candidate_matches (expected_summary h (sample_verification name prefix n)) = n"
    and "repeatability (expected_summary h (sample_verification name prefix n)) = 1"
    and "summary_oracle_id (expected_summary h (sample_verification name prefix n)) = oracle_id cli_spaces_oracle"
    and "summary_oracle_version (expected_summary h (sample_verification name prefix n)) = oracle_version cli_spaces_oracle"
proof -
  have len: "length (sample_candidates prefix n) = nat n" by (simp add: sample_candidates_def)
  show "summary_status (expected_summary h (sample_verification name prefix n)) = StatusVerified"
    using assms sample_pinned len
    by (auto simp: expected_status sample_verification_def pinned_environment_def required_or_default_def
        sample_candidates_def)
  show "candidate_matches (expected_summary h (sample_verification name prefix n)) = n"
    "repeatability (expected_summary h (sample_verification name prefix n)) = 1"
    "summary_oracle_id (expected_summary h (sample_verification name prefix n)) = oracle_id cli_spaces_oracle"
    "summary_oracle_version (expected_summary h (sample_verification name prefix n)) = oracle_version cli_spaces_oracle"
    using assms len
    by (simp_all add: expected_summary_def Let_def sample_verification_def matching_candidates_def sample_matching)
qed

lemma sample_summary_ok:
  assumes "1 \<le> n" and "n \<le> 5" and "name \<noteq> []" and "prefix \<noteq> []"
  shows "verification_summary_ok (expected_summary h (sample_verification name prefix n))"
    and "verify_reproduction h (sample_verification name prefix n) = Inr (expected_summary h (sample_verification name prefix n))"
proof -
  have "verification_input_ok h (sample_verification name prefix n)" "small_input (sample_verification name prefix n)"
    using assms sample_runs_ok cli_spaces_oracle_ok
    by (auto simp: verification_input_ok_def sample_verification_def required_or_default_def safe_int_def
        max_safe_integer_def small_input_def sample_candidates_def [of prefix n, THEN arg_cong, of length])
  then show "verification_summary_ok (expected_summary h (sample_verification name prefix n))"
    "verify_reproduction h (sample_verification name prefix n) = Inr (expected_summary h (sample_verification name prefix n))"
    using expected_summary_ok verify_reproduction_eq by blast+
qed

abbreviation sample_summary_of :: "js_host \<Rightarrow> string \<Rightarrow> string \<Rightarrow> int \<Rightarrow> verification_summary" where
  "sample_summary_of h name prefix n \<equiv> expected_summary h (sample_verification name prefix n)"

definition minimized_summary :: "js_host \<Rightarrow> int \<Rightarrow> verification_summary" where
  "minimized_summary h n = sample_summary_of h ''minimized-control'' ''minimized-candidate-'' n"

definition sample_evaluation :: "js_host \<Rightarrow> int \<Rightarrow> minimization_evaluation" where
  "sample_evaluation h n =
     \<lparr>evaluation_id = ''spaced-path-only'',
      evaluation_removed = [''reporter shell assumption'', ''working-directory variation''],
      evaluation_summary = minimized_summary h n\<rparr>"

definition sample_minimized :: "js_host \<Rightarrow> int \<Rightarrow> minimization_result" where
  "sample_minimized h n =
     \<lparr>accepted_reduction_id = Some ''spaced-path-only'',
      accepted_removed_inputs = [''reporter shell assumption'', ''working-directory variation''],
      minimization_claim = LocallyMinimized, evaluations = [sample_evaluation h n]\<rparr>"

lemma spaced_path_parts [simp]:
  "proposal_control (spaced_path_proposal c cs) = c" "proposal_candidates (spaced_path_proposal c cs) = cs"
  "proposal_id (spaced_path_proposal c cs) = ''spaced-path-only''"
  "proposal_removed (spaced_path_proposal c cs) = [''reporter shell assumption'', ''working-directory variation'']"
  by (simp_all add: spaced_path_proposal_def)

lemma sample_minimizes:
  assumes "1 \<le> n" and "n \<le> 5"
  shows "minimize_reproduction h
      \<lparr>baseline_candidates = sample_candidates ''candidate-'' n, baseline_control = sample_control ''control-1'',
       min_oracle = cli_spaces_oracle,
       min_proposals = [spaced_path_proposal (sample_control ''minimized-control'')
         (sample_candidates ''minimized-candidate-'' n)], min_required_runs = Some n\<rparr> =
      Inr (sample_minimized h n)" (is "minimize_reproduction h ?i = _")
    and "minimization_result_ok (sample_minimized h n)"
proof -
  have len: "length (sample_candidates prefix n) = nat n" for prefix by (simp add: sample_candidates_def)
  have ok: "minimization_input_ok h ?i" and small: "small_runs ?i"
    using assms sample_runs_ok cli_spaces_oracle_ok len
    by (simp_all add: minimization_input_ok_def minimization_proposal_ok_def spaced_path_proposal_def
        min_required_def safe_int_def max_safe_integer_def small_runs_def)
  have inputs: "proposal_input ?i (sample_control name) (sample_candidates prefix n) = sample_verification name prefix n"
    for name prefix by (simp add: proposal_input_def sample_verification_def min_required_def)
  let ?e = "sample_evaluation h n"
  have eval: "map (proposal_evaluation h ?i) (min_proposals ?i) = [?e]"
    by (simp add: proposal_evaluation_def inputs sample_evaluation_def minimized_summary_def)
  have "summary_status (evaluation_summary ?e) = StatusVerified"
    using sample_verified(1) [OF assms(1)] by (simp add: sample_evaluation_def minimized_summary_def)
  then have acc: "accepted_evaluation h [?e] = Some ?e"
    using accepted_None_iff [of h "[?e]"] accepted_Some [of h "[?e]"] by (cases "accepted_evaluation h [?e]") auto
  have es: "collect (evaluate_proposal h ?i) (min_proposals ?i) = Inr [?e]" "list_all minimization_evaluation_ok [?e]"
    using evaluate_proposals [OF ok small] unfolding eval by blast+
  have form: "sample_minimized h n =
     \<lparr>accepted_reduction_id = map_option evaluation_id (Some ?e),
      accepted_removed_inputs = (case Some ?e of None \<Rightarrow> [] | Some e \<Rightarrow> evaluation_removed e),
      minimization_claim = (if Some ?e = None then BaselineRetained else LocallyMinimized),
      evaluations = [?e]\<rparr>"
    by (simp add: sample_minimized_def sample_evaluation_def)
  show res: "minimization_result_ok (sample_minimized h n)"
    unfolding form by (rule accepted_result_ok [OF es(2) _ acc [symmetric]]) simp
  have "verify_for h ?i (baseline_control ?i) (baseline_candidates ?i) = Inr (sample_summary_of h ''control-1'' ''candidate-'' n)"
    using verify_for_ok(1) [OF ok, of "baseline_control ?i" "baseline_candidates ?i"] ok small inputs
    by (simp add: minimization_input_ok_def small_runs_def)
  then show "minimize_reproduction h ?i = Inr (sample_minimized h n)"
    using ok es(1) acc res sample_verified(1) [OF assms(1)] form
    by (simp add: minimize_reproduction_def Let_def check_def)
qed

definition sample_case_of :: "string \<Rightarrow> int \<Rightarrow> repro_case" where
  "sample_case_of cid started =
     moved_case \<lparr>case_created_at = started, case_history = [], case_id = cid, case_st = Draft,
       case_updated_at = started\<rparr> (started + 1) fixture_moves"

lemma sample_case_runs:
  assumes "cid \<noteq> []" and "valid_instant started" and "valid_instant (started + 20)"
  shows "\<exists>c0. create_case cid started = Inr c0 \<and>
      run_case c0 (timed_moves (started + 1) fixture_moves) = Inr (sample_case_of cid started)"
    and "repro_case_ok (sample_case_of cid started)" and "case_st (sample_case_of cid started) = Verified"
    and "case_id (sample_case_of cid started) = cid"
proof -
  let ?c0 = "\<lparr>case_created_at = started, case_history = [], case_id = cid, case_st = Draft,
       case_updated_at = started\<rparr>"
  have c0: "create_case cid started = Inr ?c0" using assms by (simp add: create_case_Inr)
  have range: "valid_instant (started + 1)" "valid_instant (started + 1 + int (length fixture_moves))"
    using assms(2,3) by (auto simp: valid_instant_def fixture_moves_def)
  have ok: "repro_case_ok ?c0" using assms(1,2) by (simp add: repro_case_ok_def)
  have allowed: "moves_allowed (case_st ?c0) fixture_moves"
    by (simp add: fixture_moves_def)
  note moved = run_timed_moves [OF ok allowed range]
  show "\<exists>c0. create_case cid started = Inr c0 \<and>
      run_case c0 (timed_moves (started + 1) fixture_moves) = Inr (sample_case_of cid started)"
    "repro_case_ok (sample_case_of cid started)" "case_st (sample_case_of cid started) = Verified"
    "case_id (sample_case_of cid started) = cid"
    using c0 moved by (simp_all add: sample_case_of_def moved_case_state, simp add: fixture_moves_def)
qed

definition sample_host_ok :: "js_host \<Rightarrow> ratio_host \<Rightarrow> time_host \<Rightarrow> (int \<Rightarrow> string) \<Rightarrow> bool" where
  "sample_host_ok h R T rendered \<longleftrightarrow>
     (\<forall>t. sha256_string (sha256_hex h t)) \<and> host_numbers h \<and> ratio_ok h R 1 \<and>
     (\<forall>t. valid_instant t \<longrightarrow> datetime_text T (rendered t))"

lemma fixture_data_ok:
  "list_all evidence_item_ok fixture_evidence" "list_all hypothesis_ok fixture_hypotheses"
  "sha256_string d \<Longrightarrow> sha256_string t \<Longrightarrow> bundle_lock_ok (fixture_lock d t)"
  by (simp_all add: fixture_evidence_def evidence_item_ok_def fixture_hypotheses_def hypothesis_ok_def
      status_entry_ok_def safe_int_def max_safe_integer_def bundle_lock_ok_def fixture_lock_def string_record_ok_def
      own_properties_named digit_char_def code_unit_def tool_version_string_def cli_spaces_oracle_def)

definition sample_bundle_input ::
  "(int \<Rightarrow> string) \<Rightarrow> js_host \<Rightarrow> string \<Rightarrow> int \<Rightarrow> int \<Rightarrow> string \<Rightarrow> string \<Rightarrow> bundle_input" where
  "sample_bundle_input rendered h cid started n dependency tree =
     \<lparr>bundle_case_id = cid, bundle_generated_at = rendered (started + 20), bundle_ledger = fixture_hypotheses,
      bundle_lock_data = fixture_lock dependency tree, bundle_minimization = sample_minimized h n,
      bundle_oracle = cli_spaces_oracle, bundle_patch = fixture_patch,
      bundle_run_log = sample_control ''minimized-control'' # sample_candidates ''minimized-candidate-'' n,
      bundle_summary = minimized_summary h n\<rparr>"

lemma fixture_bundle_sealed:
  assumes host: "sample_host_ok h R T rendered" and n: "1 \<le> n" "n \<le> 5" and cid: "cid \<noteq> []"
    and time: "valid_instant (started + 20)"
  obtains b d t where
    "fixture_bundle h R T rendered cid (started + 20)
       (sample_control ''minimized-control'' # sample_candidates ''minimized-candidate-'' n)
       (sample_minimized h n) (minimized_summary h n) = Inr b"
    and "bundle_input.truncate b = sample_bundle_input rendered h cid started n d t"
    and "repro_bundle_ok h (datetime_text T) b"
    and "hash_canonical h (value_of_json (base_json R b)) = Inr (bundle_hash b)"
    and "validate_materialized_bundle h R (bundle_files h R b) = BundleValid"
proof -
  have sha: "\<And>t. sha256_string (sha256_hex h t)" using host by (simp add: sample_host_ok_def)
  obtain d where d: "hash_canonical h (VObj [(''fixture'', VStr ''cli-spaces''), (''packageManager'', VStr ''npm@11'')]) = Inr d"
    "sha256_string d" using sha by (auto simp: hash_canonical_def canonical_json_def)
  obtain t where t: "hash_canonical h (VObj [(''fixture'', VStr ''cli-spaces''), (''revision'', VStr ''fixture-v1'')]) = Inr t"
    "sha256_string t" using sha by (auto simp: hash_canonical_def canonical_json_def)
  let ?i = "sample_bundle_input rendered h cid started n d t"
  have summary: "verification_summary_ok (minimized_summary h n)" "summary_status (minimized_summary h n) = StatusVerified"
    "repeatability (minimized_summary h n) = 1"
    "summary_oracle_id (minimized_summary h n) = oracle_id cli_spaces_oracle"
    "summary_oracle_version (minimized_summary h n) = oracle_version cli_spaces_oracle"
    using sample_summary_ok(1) [OF n] sample_verified [OF n(1)] by (simp_all add: minimized_summary_def)
  have fields: "bundle_fields_ok h (datetime_text T) ?i" "bundle_refined ?i"
    using cid host time fixture_data_ok(2) fixture_data_ok(3) [OF d(2) t(2)] sample_minimizes(2) [OF n] summary
      cli_spaces_oracle_ok sample_runs_ok
    by (simp_all add: bundle_fields_ok_def sample_bundle_input_def sample_host_ok_def bundle_refined_def fixture_lock_def)
  from create_bundle_total [OF sha fields, of R] obtain b where
    b: "create_bundle h R (datetime_text T) ?i = Inr b" "bundle_input.truncate b = ?i"
      "repro_bundle_ok h (datetime_text T) b"
      "hash_canonical h (value_of_json (base_json R b)) = Inr (bundle_hash b)" .
  have "bundle_data_ok h R b"
    using host summary(3) b(2)
    by (auto simp: bundle_data_ok_def sample_host_ok_def sample_bundle_input_def bundle_input.truncate_def
        summary_ratio_ok_def cli_spaces_oracle_def sample_minimized_def sample_evaluation_def)
  with valid_bundle_files [OF b(3)] have valid: "validate_materialized_bundle h R (bundle_files h R b) = BundleValid" .
  have "to_iso (Foreign []) (started + 20) = Inr (started + 20)"
    using time valid_instant_date_range by (simp add: to_iso_def)
  with b(1) d(1) t(1) have "fixture_bundle h R T rendered cid (started + 20)
       (sample_control ''minimized-control'' # sample_candidates ''minimized-candidate-'' n)
       (sample_minimized h n) (minimized_summary h n) = Inr b"
    by (simp add: fixture_bundle_def throw_as_def sample_bundle_input_def)
  with b valid show thesis using that by blast
qed

lemma sample_run_verified:
  assumes "sample_host_ok h R T rendered" and "sample_budget_ok budget" and "cid \<noteq> []"
    and "valid_instant started" and "valid_instant (started + 20)"
  shows "\<exists>r. run_trusted_sample h R T rendered
      \<lparr>opt_tool_calls = Some (sample_tool_calls budget), opt_required_runs = Some (sample_required_runs budget),
       opt_case_id = Some cid, opt_started = Some started\<rparr> = Inr r \<and>
    sample_result_ok h T r \<and> case_st (sample_case r) = Verified \<and> case_id (sample_case r) = cid \<and>
    summary_status (sample_summary r) = StatusVerified \<and>
    candidate_matches (sample_summary r) = sample_required_runs budget \<and>
    bundle_case_id (sample_bundle r) = cid \<and> bundle_summary (sample_bundle r) = sample_summary r \<and>
    hash_canonical h (value_of_json (base_json R (sample_bundle r))) = Inr (bundle_hash (sample_bundle r)) \<and>
    materialize_bundle h R (datetime_text T) (sample_bundle r) = Inr (sample_files r) \<and>
    validate_materialized_bundle h R (sample_files r) = BundleValid"
proof -
  let ?n = "sample_required_runs budget"
  have n: "1 \<le> ?n" "?n \<le> 5" using assms(2) by (auto simp: sample_budget_ok_def)
  from fixture_bundle_sealed [OF assms(1) n assms(3,5)] obtain b d t where
    b: "fixture_bundle h R T rendered cid (started + 20)
       (sample_control ''minimized-control'' # sample_candidates ''minimized-candidate-'' ?n)
       (sample_minimized h ?n) (minimized_summary h ?n) = Inr b"
      "bundle_input.truncate b = sample_bundle_input rendered h cid started ?n d t"
      "repro_bundle_ok h (datetime_text T) b"
      "hash_canonical h (value_of_json (base_json R b)) = Inr (bundle_hash b)"
      "validate_materialized_bundle h R (bundle_files h R b) = BundleValid" .
  have named: "bundle_case_id b = cid" "bundle_summary b = minimized_summary h ?n"
    using b(2) by (auto simp: bundle_input.truncate_def sample_bundle_input_def)
  have eta: "\<lparr>sample_tool_calls = sample_tool_calls budget, sample_required_runs = ?n\<rparr> = budget"
    by (cases budget) simp
  note c = sample_case_runs [OF assms(3-5)]
  have accepted: "accepted_summary (sample_minimized h ?n) s = minimized_summary h ?n" for s
    by (simp add: accepted_summary_def sample_minimized_def sample_evaluation_def)
  note files = materialize_bundle_ok [OF b(3), of R]
  let ?r = "\<lparr>sample_budget_used = budget, sample_bundle = b, sample_case = sample_case_of cid started,
    sample_evidence = fixture_evidence, sample_files = bundle_files h R b, sample_hypotheses = fixture_hypotheses,
    sample_minimization = sample_minimized h ?n, sample_oracle = cli_spaces_oracle,
    sample_runs = sample_control ''minimized-control'' # sample_candidates ''minimized-candidate-'' ?n,
    sample_summary = minimized_summary h ?n\<rparr>"
  have ok: "sample_result_ok h T ?r"
    using assms(2) b(3) c(2) fixture_data_ok(1,2) sample_minimizes(2) [OF n] cli_spaces_oracle_ok sample_runs_ok
      sample_summary_ok(1) [OF n]
    by (simp add: sample_result_ok_def minimized_summary_def)
  from c(1) obtain c0 where "create_case cid started = Inr c0"
    "run_case c0 (timed_moves (started + 1) fixture_moves) = Inr (sample_case_of cid started)" by blast
  moreover have "verify_reproduction h \<lparr>input_oracle = cli_spaces_oracle, input_control = sample_control ''control-1'',
      input_candidates = sample_candidates ''candidate-'' ?n, input_required_runs = Some ?n\<rparr> =
      Inr (sample_summary_of h ''control-1'' ''candidate-'' ?n)"
    using sample_summary_ok(2) [OF n, of "''control-1''" "''candidate-''" h]
    by (simp add: sample_verification_def [symmetric])
  ultimately have "run_trusted_sample h R T rendered
      \<lparr>opt_tool_calls = Some (sample_tool_calls budget), opt_required_runs = Some ?n,
       opt_case_id = Some cid, opt_started = Some started\<rparr> = Inr ?r"
    unfolding run_trusted_sample_def using assms(2) b(1) c(4) files ok accepted
    by (simp add: or_default_def throw_as_Inr sample_minimizes(1) [OF n] eta Let_def)
  with ok b(4,5) c(3,4) named files sample_verified(1,2) [OF n(1)] show ?thesis
    by (intro exI [of _ ?r]) (simp add: minimized_summary_def)
qed


lemma sample_host_concrete:
  "sample_host_ok plain_host one_ratio \<lparr>datetime_text = (\<lambda>_. True), date_parse = (\<lambda>_. 0)\<rparr> (\<lambda>_. ''now'')"
  using plain_host_numbers zero_hash
  by (simp add: sample_host_ok_def ratio_ok_def one_ratio_def number_text_ok_def plain_host_def json_number_def
      json_fraction_def num_char_def digit_char_def code_unit_def)


end
