(* ===== verification/CaseService.thy ===== *)
theory CaseService
  imports TrustedSample
begin

text \<open>
  The in-memory case service: the repository of src/src/infrastructure/reproduction-repository.ts
  and the operations of src/src/application/case-service.ts over it. The executor of the sample,
  the identifiers and the readings of the clock are parameters. The calls of one operation run
  without another's in between.
\<close>

section \<open>The repository\<close>

record stored_reproduction =
  sto_caller :: string
  sto_case :: repro_case
  sto_command_hash :: string
  sto_key :: string
  sto_job :: reproduction_job
  sto_result :: "sample_result option"

text \<open>The JSON text of a pair, which is the key of each index, determines the pair.\<close>

type_synonym scoped_index = "string \<times> string \<Rightarrow> stored_reproduction option"

record memory_repository =
  mem_case :: scoped_index
  mem_key :: scoped_index
  mem_job :: scoped_index

definition write_reproduction :: "stored_reproduction \<Rightarrow> memory_repository \<Rightarrow> memory_repository" where
  "write_reproduction r m =
     m\<lparr>mem_case := (mem_case m)((sto_caller r, case_id (sto_case r)) \<mapsto> r),
       mem_key := (mem_key m)((sto_caller r, sto_key r) \<mapsto> r),
       mem_job := (mem_job m)((sto_caller r, job_id (sto_job r)) \<mapsto> r)\<rparr>"

definition reserve_reproduction ::
  "stored_reproduction \<Rightarrow> memory_repository \<Rightarrow> (bool \<times> stored_reproduction) \<times> memory_repository" where
  "reserve_reproduction r m =
     (case mem_key m (sto_caller r, sto_key r) of
        Some existing \<Rightarrow> ((False, existing), m)
      | None \<Rightarrow> ((True, r), write_reproduction r m))"

section \<open>Commands and results\<close>

record start_command =
  cmd_budget :: sample_budget
  cmd_caller :: string
  cmd_key :: string

definition start_command_ok :: "start_command \<Rightarrow> bool" where
  "start_command_ok c \<longleftrightarrow>
     sample_budget_ok (cmd_budget c) \<and> len_in 1 128 (cmd_caller c) \<and> len_in 1 128 (cmd_key c)"

definition scoped_query_ok :: "string \<Rightarrow> string \<Rightarrow> bool" where
  "scoped_query_ok caller name \<longleftrightarrow> len_in 1 128 caller \<and> len_in 1 128 name"

datatype service_error =
    KeyConflict
  | ReproductionNotFound
  | BundleNotReady
  | SampleFailed
  | ServiceSchema
  | ServiceCase case_error
  | ServiceJob job_error
  | ServiceCanonical

definition as_error :: "('e \<Rightarrow> 'f) \<Rightarrow> 'e + 'a \<Rightarrow> 'f + 'a" where
  "as_error f r = (case r of Inl e \<Rightarrow> Inl (f e) | Inr x \<Rightarrow> Inr x)"

record start_result =
  res_reused :: bool
  res_snapshot :: snapshot

record export_result =
  exp_bundle :: repro_bundle
  exp_case :: string
  exp_files :: "(string \<times> string) list"

definition export_result_ok :: "js_host \<Rightarrow> time_host \<Rightarrow> export_result \<Rightarrow> bool" where
  "export_result_ok h T e \<longleftrightarrow> repro_bundle_ok h (datetime_text T) (exp_bundle e) \<and> exp_case e \<noteq> []"

definition command_value :: "start_command \<Rightarrow> js_value" where
  "command_value c = VObj
     [(''budget'', VObj [(''maxToolCalls'', VNum (int_text (sample_tool_calls (cmd_budget c)))),
        (''requiredRuns'', VNum (int_text (sample_required_runs (cmd_budget c))))]),
      (''sampleId'', VStr ''cli-spaces'')]"

definition to_snapshot :: "js_host \<Rightarrow> time_host \<Rightarrow> stored_reproduction \<Rightarrow> service_error + snapshot" where
  "to_snapshot h T r = parse_as (snapshot_ok h T) ServiceSchema
     \<lparr>snap_case = sto_case r, snap_job = sto_job r, snap_source = None,
      snap_result = map_option SampleOutcome (sto_result r), snap_sample = True\<rparr>"

definition started :: "js_host \<Rightarrow> time_host \<Rightarrow> bool \<Rightarrow> stored_reproduction \<Rightarrow> service_error + start_result" where
  "started h T reused r =
     and_then (to_snapshot h T r) (\<lambda>s. Inr \<lparr>res_reused = reused, res_snapshot = s\<rparr>)"

definition answer_existing ::
  "js_host \<Rightarrow> time_host \<Rightarrow> string \<Rightarrow> stored_reproduction \<Rightarrow> service_error + start_result" where
  "answer_existing h T hash existing =
     (if sto_command_hash existing \<noteq> hash then Inl KeyConflict else started h T True existing)"

section \<open>The operations\<close>

record service_world =
  svc_clock :: "nat \<Rightarrow> int"
  svc_execute :: "sample_options \<Rightarrow> thrown + sample_result"
  svc_case_id :: string
  svc_job_id :: string

type_synonym 'a service_call = "memory_repository \<Rightarrow> (service_error + 'a) \<times> memory_repository"

definition sample_failure_of :: job_failure where
  "sample_failure_of =
     \<lparr>failure_code = ''TRUSTED_EXECUTION_FAILED'',
      failure_message = ''The trusted reproduction failed safely'', failure_retryable = True\<rparr>"

text \<open>The \<open>catch\<close>: the job fails, at the \<open>k\<close>-th reading of the clock.\<close>

definition fail_trusted :: "service_world \<Rightarrow> nat \<Rightarrow> stored_reproduction \<Rightarrow> start_result service_call" where
  "fail_trusted w k running m =
     (case transition_job (sto_job running) Failed (svc_clock w k) (Some sample_failure_of)
         (case_st (sto_case running)) of
        Inl e \<Rightarrow> (Inl (ServiceJob e), m)
      | Inr job \<Rightarrow> (Inl SampleFailed, write_reproduction (running\<lparr>sto_job := job\<rparr>) m))"

definition run_sample ::
  "js_host \<Rightarrow> time_host \<Rightarrow> service_world \<Rightarrow> start_command \<Rightarrow> int \<Rightarrow> stored_reproduction
     \<Rightarrow> start_result service_call" where
  "run_sample h T w c created running m =
     (case svc_execute w \<lparr>opt_tool_calls = Some (sample_tool_calls (cmd_budget c)),
         opt_required_runs = Some (sample_required_runs (cmd_budget c)),
         opt_case_id = Some (svc_case_id w), opt_started = Some created\<rparr> of
        Inl _ \<Rightarrow> fail_trusted w 2 running m
      | Inr result \<Rightarrow>
          (case transition_job (sto_job running) Succeeded (svc_clock w 2) None (case_st (sample_case result)) of
             Inl _ \<Rightarrow> fail_trusted w 3 running m
           | Inr job \<Rightarrow>
               let succeeded = running\<lparr>sto_case := sample_case result, sto_job := job, sto_result := Some result\<rparr>;
                   m' = write_reproduction succeeded m in
               (case started h T False succeeded of
                  Inl _ \<Rightarrow> fail_trusted w 3 running m'
                | Inr r \<Rightarrow> (Inr r, m'))))"

definition start_fresh ::
  "js_host \<Rightarrow> time_host \<Rightarrow> service_world \<Rightarrow> start_command \<Rightarrow> string \<Rightarrow> start_result service_call" where
  "start_fresh h T w c hash m =
     (let created = svc_clock w 0 in
      case and_then (as_error ServiceCase (create_case (svc_case_id w) created)) (\<lambda>case0.
          and_then (as_error ServiceJob (create_job (svc_job_id w) (svc_case_id w) created)) (\<lambda>job0.
            Inr \<lparr>sto_caller = cmd_caller c, sto_case = case0, sto_command_hash = hash, sto_key = cmd_key c,
              sto_job = job0, sto_result = None\<rparr>)) of
        Inl e \<Rightarrow> (Inl e, m)
      | Inr queued \<Rightarrow>
          (case reserve_reproduction queued m of
             ((False, existing), m1) \<Rightarrow> (answer_existing h T hash existing, m1)
           | ((True, _), m1) \<Rightarrow>
               (case transition_job (sto_job queued) Running (svc_clock w 1) None Ingesting of
                  Inl e \<Rightarrow> (Inl (ServiceJob e), m1)
                | Inr job \<Rightarrow>
                    let running = queued\<lparr>sto_job := job\<rparr> in
                    run_sample h T w c created running (write_reproduction running m1))))"

definition start_trusted ::
  "js_host \<Rightarrow> time_host \<Rightarrow> service_world \<Rightarrow> start_command \<Rightarrow> start_result service_call" where
  "start_trusted h T w c m =
     (if \<not> start_command_ok c then (Inl ServiceSchema, m)
      else
        (case hash_canonical h (command_value c) of
           Inl _ \<Rightarrow> (Inl ServiceCanonical, m)
         | Inr hash \<Rightarrow>
             (case mem_key m (cmd_caller c, cmd_key c) of
                Some existing \<Rightarrow> (answer_existing h T hash existing, m)
              | None \<Rightarrow> start_fresh h T w c hash m)))"

definition get_reproduction ::
  "js_host \<Rightarrow> time_host \<Rightarrow> string \<Rightarrow> string \<Rightarrow> memory_repository \<Rightarrow> service_error + snapshot" where
  "get_reproduction h T caller cid m =
     (if \<not> scoped_query_ok caller cid then Inl ServiceSchema
      else
        (case mem_case m (caller, cid) of
           None \<Rightarrow> Inl ReproductionNotFound | Some r \<Rightarrow> to_snapshot h T r))"

definition get_job ::
  "string \<Rightarrow> string \<Rightarrow> memory_repository \<Rightarrow> service_error + reproduction_job" where
  "get_job caller jid m =
     (if \<not> scoped_query_ok caller jid then Inl ServiceSchema
      else
        (case mem_job m (caller, jid) of
           None \<Rightarrow> Inl ReproductionNotFound
         | Some r \<Rightarrow> parse_as reproduction_job_ok ServiceSchema (sto_job r)))"

definition export_bundle ::
  "js_host \<Rightarrow> time_host \<Rightarrow> string \<Rightarrow> string \<Rightarrow> memory_repository \<Rightarrow> service_error + export_result" where
  "export_bundle h T caller cid m =
     and_then (get_reproduction h T caller cid m) (\<lambda>s.
       case snap_result s of
         Some (SampleOutcome r) \<Rightarrow>
           if summary_status (sample_summary r) \<noteq> StatusVerified then Inl BundleNotReady
           else parse_as (export_result_ok h T) ServiceSchema
             \<lparr>exp_bundle = sample_bundle r, exp_case = case_id (snap_case s), exp_files = sample_files r\<rparr>
       | _ \<Rightarrow> Inl BundleNotReady)"

section \<open>A start that succeeds\<close>


definition sample_snapshot :: "string \<Rightarrow> string \<Rightarrow> int \<Rightarrow> int \<Rightarrow> sample_result \<Rightarrow> snapshot" where
  "sample_snapshot cid jid created ended r =
     \<lparr>snap_case = sample_case r,
      snap_job = \<lparr>job_attempt = 1, job_case_id = cid, job_created_at = created, job_failure = None,
        job_id = jid, job_phase = case_st (sample_case r), job_st = Succeeded, job_updated_at = ended\<rparr>,
      snap_source = None, snap_result = Some (SampleOutcome r), snap_sample = True\<rparr>"

lemma len_in_nonempty: "len_in 1 n s \<Longrightarrow> s \<noteq> []"
  by (auto simp: len_in_def)

lemma sample_snapshot_ok:
  assumes "sample_result_ok h T r" and "cid \<noteq> []" and "jid \<noteq> []" and "valid_instant created"
    and "valid_instant ended"
  shows "snapshot_ok h T (sample_snapshot cid jid created ended r)"
    and "reproduction_job_ok (snap_job (sample_snapshot cid jid created ended r))"
  using assms by (simp_all add: snapshot_ok_def sample_snapshot_def reproduction_job_ok_def sample_result_ok_def)

lemma start_trusted_verified:
  assumes exec: "svc_execute w = run_trusted_sample h R T rendered" and host: "sample_host_ok h R T rendered"
    and c: "start_command_ok c" and ids: "len_in 1 128 (svc_case_id w)" "len_in 1 128 (svc_job_id w)"
    and new: "mem_key m (cmd_caller c, cmd_key c) = None"
    and time: "valid_instant (svc_clock w 0)" "valid_instant (svc_clock w 0 + 20)"
      "valid_instant (svc_clock w 1)" "valid_instant (svc_clock w 2)"
  obtains r hash s m' where
    "hash_canonical h (command_value c) = Inr hash"
    and "sample_result_ok h T r" and "case_st (sample_case r) = Verified" and "case_id (sample_case r) = svc_case_id w"
    and "summary_status (sample_summary r) = StatusVerified"
    and "validate_materialized_bundle h R (sample_files r) = BundleValid"
    and "s = sample_snapshot (svc_case_id w) (svc_job_id w) (svc_clock w 0) (svc_clock w 2) r"
    and "start_trusted h T w c m = (Inr \<lparr>res_reused = False, res_snapshot = s\<rparr>, m')"
    and "\<exists>sto. sto_command_hash sto = hash \<and> to_snapshot h T sto = Inr s \<and> sto_job sto = snap_job s \<and>
      mem_case m' (cmd_caller c, svc_case_id w) = Some sto \<and> mem_key m' (cmd_caller c, cmd_key c) = Some sto \<and>
      mem_job m' (cmd_caller c, svc_job_id w) = Some sto"
proof -
  have budget: "sample_budget_ok (cmd_budget c)" using c by (simp add: start_command_ok_def)
  note ne = len_in_nonempty [OF ids(1)] len_in_nonempty [OF ids(2)]
  from sample_run_verified [OF host budget ne(1) time(1,2)] obtain r where
    r: "run_trusted_sample h R T rendered
      \<lparr>opt_tool_calls = Some (sample_tool_calls (cmd_budget c)),
       opt_required_runs = Some (sample_required_runs (cmd_budget c)),
       opt_case_id = Some (svc_case_id w), opt_started = Some (svc_clock w 0)\<rparr> = Inr r"
      "sample_result_ok h T r" "case_st (sample_case r) = Verified" "case_id (sample_case r) = svc_case_id w"
      "summary_status (sample_summary r) = StatusVerified"
      "validate_materialized_bundle h R (sample_files r) = BundleValid" by blast
  obtain hash where hash: "hash_canonical h (command_value c) = Inr hash"
    by (simp add: command_value_def hash_canonical_def canonical_json_def)
  let ?s = "sample_snapshot (svc_case_id w) (svc_job_id w) (svc_clock w 0) (svc_clock w 2) r"
  note s = sample_snapshot_ok [OF r(2) ne time(1,4)]
  let ?sto = "\<lparr>sto_caller = cmd_caller c, sto_case = sample_case r, sto_command_hash = hash,
    sto_key = cmd_key c, sto_job = snap_job ?s, sto_result = Some r\<rparr>"
  have snap: "to_snapshot h T ?sto = Inr ?s"
    using s(1) by (simp add: to_snapshot_def sample_snapshot_def)
  let ?c0 = "\<lparr>case_created_at = svc_clock w 0, case_history = [], case_id = svc_case_id w, case_st = Draft,
    case_updated_at = svc_clock w 0\<rparr>"
  let ?j0 = "\<lparr>job_attempt = 0, job_case_id = svc_case_id w, job_created_at = svc_clock w 0, job_failure = None,
    job_id = svc_job_id w, job_phase = Draft, job_st = Queued, job_updated_at = svc_clock w 0\<rparr>"
  let ?j1 = "?j0\<lparr>job_attempt := 1, job_phase := Ingesting, job_st := Running, job_updated_at := svc_clock w 1\<rparr>"
  have c0: "create_case (svc_case_id w) (svc_clock w 0) = Inr ?c0" using ne time by (simp add: create_case_Inr)
  have j0: "create_job (svc_job_id w) (svc_case_id w) (svc_clock w 0) = Inr ?j0"
    using ne time valid_instant_date_range by (simp add: create_job_def reproduction_job_ok_def to_iso_def)
  have j1: "transition_job ?j0 Running (svc_clock w 1) None Ingesting = Inr ?j1"
    using ne time valid_instant_date_range by (simp add: transition_job_Inr reproduction_job_ok_def)
  have j2: "transition_job ?j1 Succeeded (svc_clock w 2) None (case_st (sample_case r)) = Inr (snap_job ?s)"
    using ne time valid_instant_date_range by (simp add: transition_job_Inr reproduction_job_ok_def sample_snapshot_def)
  let ?m1 = "write_reproduction \<lparr>sto_caller = cmd_caller c, sto_case = ?c0, sto_command_hash = hash,
    sto_key = cmd_key c, sto_job = ?j0, sto_result = None\<rparr> m"
  let ?m2 = "write_reproduction \<lparr>sto_caller = cmd_caller c, sto_case = ?c0, sto_command_hash = hash,
    sto_key = cmd_key c, sto_job = ?j1, sto_result = None\<rparr> ?m1"
  let ?m3 = "write_reproduction ?sto ?m2"
  have run: "run_sample h T w c (svc_clock w 0) \<lparr>sto_caller = cmd_caller c, sto_case = ?c0, sto_command_hash = hash,
      sto_key = cmd_key c, sto_job = ?j1, sto_result = None\<rparr> ?m2 =
      (Inr \<lparr>res_reused = False, res_snapshot = ?s\<rparr>, ?m3)"
    using r(1) j2 snap by (simp add: run_sample_def exec started_def)
  have "start_trusted h T w c m = (Inr \<lparr>res_reused = False, res_snapshot = ?s\<rparr>, ?m3)"
    using c hash new c0 j0 j1 run
    by (simp add: start_trusted_def start_fresh_def as_error_def reserve_reproduction_def Let_def)
  moreover have "mem_case ?m3 (cmd_caller c, svc_case_id w) = Some ?sto" "mem_key ?m3 (cmd_caller c, cmd_key c) = Some ?sto"
    "mem_job ?m3 (cmd_caller c, svc_job_id w) = Some ?sto"
    using r(4) by (simp_all add: write_reproduction_def sample_snapshot_def)
  ultimately show thesis using r(2-6) hash snap by (intro that [of hash r ?s ?m3]) auto
qed



section \<open>Starts under a used key\<close>

lemma started_flag: "started h T b r = Inr x \<Longrightarrow> started h T b' r = Inr (x\<lparr>res_reused := b'\<rparr>)"
  by (auto simp: started_def and_then_Inr_iff)

lemma run_sample_Inr:
  assumes "run_sample h T w c created running m = (Inr r, m')"
  obtains sto where "mem_key m' (sto_caller running, sto_key running) = Some sto"
    and "sto_command_hash sto = sto_command_hash running" and "started h T False sto = Inr r"
proof -
  from assms obtain result job where
    "started h T False (running\<lparr>sto_case := sample_case result, sto_job := job, sto_result := Some result\<rparr>) = Inr r"
    "m' = write_reproduction (running\<lparr>sto_case := sample_case result, sto_job := job, sto_result := Some result\<rparr>) m"
    by (auto simp: run_sample_def fail_trusted_def Let_def split: sum.splits)
  then show thesis by (intro that) (simp_all add: write_reproduction_def)
qed

text \<open>A new start reaches the sample with a created case and a running job.\<close>

lemma start_fresh_runs:
  assumes "start_fresh h T w c hash m = (res, m')" and "mem_key m (cmd_caller c, cmd_key c) = None"
    and "res \<in> range Inr \<union> {Inl SampleFailed}"
  obtains case0 job0 job m2 where "create_case (svc_case_id w) (svc_clock w 0) = Inr case0"
    and "transition_job job0 Running (svc_clock w 1) None Ingesting = Inr job"
    and "run_sample h T w c (svc_clock w 0) \<lparr>sto_caller = cmd_caller c, sto_case = case0,
      sto_command_hash = hash, sto_key = cmd_key c, sto_job = job, sto_result = None\<rparr> m2 = (res, m')"
  using assms
  by (auto simp: start_fresh_def Let_def and_then_def as_error_def reserve_reproduction_def split: sum.splits)

lemma start_fresh_Inr:
  assumes "start_fresh h T w c hash m = (Inr r, m')" and "mem_key m (cmd_caller c, cmd_key c) = None"
  obtains sto where "mem_key m' (cmd_caller c, cmd_key c) = Some sto" and "sto_command_hash sto = hash"
    and "started h T False sto = Inr r"
proof -
  obtain case0 job m2 where
    "run_sample h T w c (svc_clock w 0) \<lparr>sto_caller = cmd_caller c, sto_case = case0,
      sto_command_hash = hash, sto_key = cmd_key c, sto_job = job, sto_result = None\<rparr> m2 = (Inr r, m')"
    by (rule start_fresh_runs [OF assms]) auto
  from run_sample_Inr [OF this] that show thesis by auto
qed

text \<open>
  A start that returned is idempotent: under the same key and command it returns the same
  snapshot, as reused, whatever clock, identifiers and executor it finds; a command of another hash
  conflicts. Neither changes the repository.
\<close>

theorem in_memory_start_happens_once:
  assumes "start_trusted h T w c m = (Inr r, m')"
  shows "start_trusted h T w' c m' = (Inr (r\<lparr>res_reused := True\<rparr>), m') \<and>
    (cmd_caller d = cmd_caller c \<and> cmd_key d = cmd_key c \<and> start_command_ok d \<and>
       hash_canonical h (command_value d) \<noteq> hash_canonical h (command_value c) \<longrightarrow>
     start_trusted h T w' d m' = (Inl KeyConflict, m'))"
proof -
  from assms have c: "start_command_ok c" by (auto simp: start_trusted_def split: if_splits)
  with assms obtain hash where hash: "hash_canonical h (command_value c) = Inr hash"
    by (auto simp: start_trusted_def split: sum.splits)
  obtain sto b where sto: "mem_key m' (cmd_caller c, cmd_key c) = Some sto" "sto_command_hash sto = hash"
    "started h T b sto = Inr r"
  proof (cases "mem_key m (cmd_caller c, cmd_key c)")
    case None
    with assms c hash have "start_fresh h T w c hash m = (Inr r, m')" by (simp add: start_trusted_def)
    from start_fresh_Inr [OF this None] that show thesis by metis
  next
    case (Some existing)
    with assms c hash that show thesis by (auto simp: start_trusted_def answer_existing_def split: if_splits)
  qed
  obtain hash' where hash': "hash_canonical h (command_value d) = Inr hash'"
    by (simp add: command_value_def hash_canonical_def canonical_json_def)
  show ?thesis using c hash sto hash' started_flag [OF sto(3), of True]
    by (simp add: start_trusted_def answer_existing_def)
qed

lemma run_sample_failed:
  assumes "run_sample h T w c created running m = (Inl SampleFailed, m')"
  obtains k job where "transition_job (sto_job running) Failed (svc_clock w k) (Some sample_failure_of)
      (case_st (sto_case running)) = Inr job"
    and "mem_key m' (sto_caller running, sto_key running) = Some (running\<lparr>sto_job := job\<rparr>)"
proof -
  from assms obtain k m2 where "fail_trusted w k running m2 = (Inl SampleFailed, m')"
    by (auto simp: run_sample_def Let_def split: sum.splits)
  then obtain job where "transition_job (sto_job running) Failed (svc_clock w k) (Some sample_failure_of)
      (case_st (sto_case running)) = Inr job" "m' = write_reproduction (running\<lparr>sto_job := job\<rparr>) m2"
    by (auto simp: fail_trusted_def split: sum.splits)
  then show thesis by (intro that) (simp_all add: write_reproduction_def)
qed

lemma failed_sample_kept:
  assumes "start_trusted h T w c m = (Inl SampleFailed, m')"
  shows "\<exists>s. job_st (snap_job s) = Failed \<and> job_failure (snap_job s) = Some sample_failure_of \<and>
    failure_retryable sample_failure_of \<and> snap_result s = None \<and> case_st (snap_case s) = Draft \<and>
    (\<forall>w'. start_trusted h T w' c m' = (Inr \<lparr>res_reused = True, res_snapshot = s\<rparr>, m'))"
proof -
  from assms have c: "start_command_ok c" by (auto simp: start_trusted_def split: if_splits)
  with assms obtain hash where hash: "hash_canonical h (command_value c) = Inr hash"
    by (auto simp: start_trusted_def split: sum.splits)
  have new: "mem_key m (cmd_caller c, cmd_key c) = None"
    using assms c hash
    by (cases "mem_key m (cmd_caller c, cmd_key c)")
      (auto simp: start_trusted_def answer_existing_def started_def to_snapshot_def parse_as_def and_then_def
        split: if_splits)
  with assms c hash have fresh: "start_fresh h T w c hash m = (Inl SampleFailed, m')" by (simp add: start_trusted_def)
  obtain case0 job m2 where
    case0: "create_case (svc_case_id w) (svc_clock w 0) = Inr case0"
    and "run_sample h T w c (svc_clock w 0) \<lparr>sto_caller = cmd_caller c, sto_case = case0,
      sto_command_hash = hash, sto_key = cmd_key c, sto_job = job, sto_result = None\<rparr> m2 = (Inl SampleFailed, m')"
    by (rule start_fresh_runs [OF fresh new]) auto
  from run_sample_failed [OF this(2)] obtain k failed where
    failed: "transition_job job Failed (svc_clock w k) (Some sample_failure_of) (case_st case0) = Inr failed"
    and key: "mem_key m' (cmd_caller c, cmd_key c) = Some \<lparr>sto_caller = cmd_caller c, sto_case = case0,
      sto_command_hash = hash, sto_key = cmd_key c, sto_job = failed, sto_result = None\<rparr>" by auto
  let ?s = "\<lparr>snap_case = case0, snap_job = failed, snap_source = None, snap_result = None, snap_sample = True\<rparr>"
  have "repro_case_ok case0" "case_st case0 = Draft"
    using case0 by (auto simp: create_case_Inr repro_case_ok_def)
  moreover have "reproduction_job_ok failed" "job_st failed = Failed" "job_failure failed = Some sample_failure_of"
    using failed by (auto simp: transition_job_Inr)
  ultimately have "snapshot_ok h T ?s" by (simp add: snapshot_ok_def)
  then have "start_trusted h T w' c m' = (Inr \<lparr>res_reused = True, res_snapshot = ?s\<rparr>, m')" for w'
    using c hash key by (simp add: start_trusted_def answer_existing_def started_def to_snapshot_def)
  with \<open>case_st case0 = Draft\<close> \<open>job_st failed = Failed\<close> \<open>job_failure failed = Some sample_failure_of\<close>
  show ?thesis by (intro exI [of _ ?s]) (simp add: sample_failure_of_def)
qed

text \<open>
  When the sample throws or its result is refused, the start throws, and its job stands as
  FAILED with a failure that says retryable, without a result and with the case in DRAFT; every
  later start under the same key returns this and never runs the sample again.
\<close>

theorem failed_sample_stays_failed:
  assumes "start_trusted h T w c m = (Inl SampleFailed, m')"
  shows "\<exists>s. job_st (snap_job s) = Failed \<and> job_failure (snap_job s) = Some sample_failure_of \<and>
    failure_retryable sample_failure_of \<and> snap_result s = None \<and> case_st (snap_case s) = Draft \<and>
    (\<forall>w'. start_trusted h T w' c m' = (Inr \<lparr>res_reused = True, res_snapshot = s\<rparr>, m'))"
  using assms by (rule failed_sample_kept)

definition failing_service :: service_world where
  "failing_service = \<lparr>svc_clock = int, svc_execute = (\<lambda>_. Inl (Foreign [])), svc_case_id = ''case-1'',
     svc_job_id = ''job-1''\<rparr>"

definition sample_command :: start_command where
  "sample_command = \<lparr>cmd_budget = \<lparr>sample_tool_calls = 6, sample_required_runs = 3\<rparr>, cmd_caller = ''u'',
     cmd_key = ''k''\<rparr>"

definition no_reproductions :: memory_repository where
  "no_reproductions = \<lparr>mem_case = Map.empty, mem_key = Map.empty, mem_job = Map.empty\<rparr>"

lemma sample_command_hash: "\<exists>hash. hash_canonical h (command_value sample_command) = Inr hash"
  by (simp add: command_value_def hash_canonical_def canonical_json_def)

lemma failing_start: "\<exists>m'. start_trusted plain_host sample_times failing_service sample_command no_reproductions =
    (Inl SampleFailed, m')"
  using sample_command_hash [of plain_host]
  by (auto simp: start_trusted_def failing_service_def sample_command_def no_reproductions_def start_command_ok_def
      sample_budget_ok_def len_in_def start_fresh_def create_case_def create_job_def to_iso_def date_range_def
      repro_case_ok_def valid_instant_def reproduction_job_ok_def as_error_def reserve_reproduction_def
      transition_job_def can_transition_job_def run_sample_def fail_trusted_def sample_failure_of_def
      job_failure_ok_def Let_def)

lemma failed_sample_stays_failed_witness:
  "\<exists>s m'. start_trusted plain_host sample_times failing_service sample_command no_reproductions =
      (Inl SampleFailed, m') \<and> job_st (snap_job s) = Failed \<and>
     start_trusted plain_host sample_times failing_service sample_command m' =
      (Inr \<lparr>res_reused = True, res_snapshot = s\<rparr>, m')"
proof -
  from failing_start obtain m' where m': "start_trusted plain_host sample_times failing_service sample_command no_reproductions =
      (Inl SampleFailed, m')" by blast
  from failed_sample_stays_failed [OF this] m' show ?thesis by blast
qed

lemma in_memory_start_happens_once_witness:
  "\<exists>r m1. start_trusted plain_host sample_times failing_service sample_command m1 = (Inr r, m1) \<and> res_reused r"
proof -
  from failing_start obtain m' where "start_trusted plain_host sample_times failing_service sample_command no_reproductions =
      (Inl SampleFailed, m')" by blast
  then have "\<exists>r. start_trusted plain_host sample_times failing_service sample_command m' = (Inr r, m')"
    using failed_sample_kept by blast
  then obtain r where "start_trusted plain_host sample_times failing_service sample_command m' = (Inr r, m')" by blast
  from in_memory_start_happens_once [OF this, of failing_service] show ?thesis
    by (intro exI [of _ "r\<lparr>res_reused := True\<rparr>"] exI [of _ m']) simp
qed

end
