(* ===== verification/DurableWorkers.thy ===== *)
theory DurableWorkers
  imports ArtifactLaws CaseService Runner
begin

text \<open>
  The workers that the queue consumer drives: \<open>RepositoryDurableWorker\<close> of
  src/src/application/repository-durable-worker.ts, which runs the isolated runner, and
  \<open>TrustedFixtureDurableWorker\<close> of src/src/application/durable-trusted-case-service.ts. Both put the
  bundle of their result into the artifact store before they return the finished record.
\<close>

section \<open>Bundles as artifacts\<close>

definition derived_id :: "js_host \<Rightarrow> string \<Rightarrow> string list \<Rightarrow> string" where
  "derived_id h prefix parts = prefix @ ''_'' @ take 48 (sha256_hex h (utf8_encode (join [CHR 0x00] parts)))"

definition bundle_value :: "ratio_host \<Rightarrow> repro_bundle \<Rightarrow> js_value" where
  "bundle_value R b =
     (case value_of_json (base_json R b) of
        VObj members \<Rightarrow> VObj ((''bundleHash'', VStr (bundle_hash b)) # members)
      | v \<Rightarrow> v)"

definition payload_bytes :: "js_host \<Rightarrow> ratio_host \<Rightarrow> repro_bundle \<Rightarrow> (string \<times> string) list \<Rightarrow> canonical_error + string" where
  "payload_bytes h R b files =
     and_then (canonical_json h (VObj
       [(''bundle'', bundle_value R b), (''files'', VObj (map (\<lambda>(k, t). (k, VStr t)) files)),
        (''schemaVersion'', VStr ''1.0'')])) (\<lambda>t. Inr (utf8_encode t))"

text \<open>An instant that \<open>toISOString\<close> refuses is an error.\<close>

definition bundle_descriptor ::
  "js_host \<Rightarrow> int \<Rightarrow> string \<Rightarrow> string \<Rightarrow> int \<Rightarrow> string \<Rightarrow> unit + artifact_descriptor" where
  "bundle_descriptor h days bytes cid created tenant =
     (let digest = sha256_hex h bytes in
      and_then (to_iso () (created + days * 86400000)) (\<lambda>until. Inr
        \<lparr>des_id = derived_id h ''artifact'' [tenant, cid, digest], des_bytes = int (length bytes), des_case = cid,
         des_created = created, des_kind = BundleArtifact,
         des_key = join ''/'' [''tenants'', tenant, ''cases'', cid, ''bundle'', digest],
         des_retention = until, des_sha256 = digest, des_tenant = tenant\<rparr>))"

definition retention_days_ok :: "int \<Rightarrow> bool" where
  "retention_days_ok days \<longleftrightarrow> 1 \<le> days \<and> days \<le> 365"

section \<open>The worker of a repository\<close>

datatype worker_fault = PersistenceFailed | InvalidRepositoryProof | ExecutionFault string | OtherFault

text \<open>The \<open>code\<close> that the queue consumer sees.\<close>

fun fault_code :: "worker_fault \<Rightarrow> worker_error" where
  "fault_code PersistenceFailed = Some ''ARTIFACT_PERSISTENCE_FAILED''"
| "fault_code InvalidRepositoryProof = Some ''INVALID_REPOSITORY_PROOF''"
| "fault_code (ExecutionFault code) = Some code"
| "fault_code OtherFault = None"

definition repository_bundle_bytes :: "js_host \<Rightarrow> ratio_host \<Rightarrow> proof_result \<Rightarrow> worker_fault + string" where
  "repository_bundle_bytes h R result =
     (case result_bundle result of
        None \<Rightarrow> Inl InvalidRepositoryProof
      | Some b \<Rightarrow> as_error (\<lambda>_. OtherFault) (payload_bytes h R b (result_files result)))"

definition repository_bundle_descriptor ::
  "js_host \<Rightarrow> int \<Rightarrow> string \<Rightarrow> string \<Rightarrow> int \<Rightarrow> string \<Rightarrow> worker_fault + artifact_descriptor" where
  "repository_bundle_descriptor h days bytes cid created tenant =
     and_then (as_error (\<lambda>_. OtherFault) (bundle_descriptor h days bytes cid created tenant))
       (parse_as descriptor_ok OtherFault)"

definition claim_matches :: "job_lease \<Rightarrow> queue_message \<Rightarrow> durable_record \<Rightarrow> bool" where
  "claim_matches lease m r \<longleftrightarrow>
     \<not> snap_sample (rec_snapshot r) \<and> job_st (snap_job (rec_snapshot r)) = Running \<and>
     job_attempt (snap_job (rec_snapshot r)) = lease_attempt lease \<and> rec_job_id r = lease_job lease \<and>
     rec_tenant r = lease_tenant lease \<and> rec_case_id r = msg_case_id m \<and> rec_job_id r = msg_job_id m \<and>
     rec_tenant r = msg_tenant m"

text \<open>
  The proof of the dependency \<open>execute\<close>; its error is the code of a \<open>RepositoryExecutionError\<close>, or
  none.
\<close>

definition proof_for ::
  "js_host \<Rightarrow> time_host \<Rightarrow> string option + proof_result \<Rightarrow> durable_record \<Rightarrow> repository_source
     \<Rightarrow> worker_fault + proof_result" where
  "proof_for h T executed r source =
     (case executed of
        Inl (Some code) \<Rightarrow> Inl (ExecutionFault code)
      | Inl None \<Rightarrow> Inl InvalidRepositoryProof
      | Inr raw \<Rightarrow>
          and_then (parse_as (proof_result_ok h T) InvalidRepositoryProof raw) (\<lambda>result.
            if case_id (result_case result) \<noteq> rec_case_id r \<or>
               prov_commit (result_provenance result) \<noteq> source_commit source \<or>
               prov_repository_id (result_provenance result) \<noteq> source_repository_id source
            then Inl InvalidRepositoryProof else Inr result))"

type_synonym ('b, 'a) worker_op = "store \<times> 'b \<Rightarrow> (worker_fault + 'a) \<times> (store \<times> 'b)"

definition persist_bundle ::
  "js_host \<Rightarrow> ratio_host \<Rightarrow> 'b blob_service \<Rightarrow> int \<Rightarrow> int \<Rightarrow> proof_result \<Rightarrow> durable_record
     \<Rightarrow> ('b, unit) worker_op" where
  "persist_bundle h R S days t result r s =
     (if result_bundle result = None then (Inr (), s)
      else
        (case and_then (repository_bundle_bytes h R result) (\<lambda>bytes.
            and_then (repository_bundle_descriptor h days bytes (rec_case_id r) (rec_created_at r) (rec_tenant r))
              (\<lambda>d. Inr (bytes, d))) of
           Inl e \<Rightarrow> (Inl e, s)
         | Inr (bytes, d) \<Rightarrow>
             (case put_artifact h S t bytes d s of
                (Inr stored, s') \<Rightarrow>
                  (if descriptor_ok stored \<and> stored = d then (Inr (), s') else (Inl PersistenceFailed, s'))
              | (Inl _, s') \<Rightarrow> (Inl PersistenceFailed, s'))))"

definition finish_record :: "durable_record \<Rightarrow> repro_case \<Rightarrow> case_result \<Rightarrow> int \<Rightarrow> worker_fault + durable_record" where
  "finish_record r c result at_ms =
     (case transition_job (snap_job (rec_snapshot r)) Succeeded at_ms None (case_st c) of
        Inl _ \<Rightarrow> Inl OtherFault
      | Inr job \<Rightarrow>
          Inr (r\<lparr>rec_snapshot := (rec_snapshot r)\<lparr>snap_case := c, snap_job := job, snap_result := Some result\<rparr>,
            rec_updated_at := at_ms\<rparr>))"

definition repository_execute ::
  "js_host \<Rightarrow> time_host \<Rightarrow> ratio_host \<Rightarrow> 'b blob_service \<Rightarrow> int
     \<Rightarrow> (job_lease \<Rightarrow> queue_message \<Rightarrow> durable_record \<Rightarrow> string option + proof_result) \<Rightarrow> int \<Rightarrow> int
     \<Rightarrow> job_lease \<Rightarrow> queue_message \<Rightarrow> durable_record \<Rightarrow> ('b, durable_record) worker_op" where
  "repository_execute h T R S days exec put_ms now_ms lease m r s =
     (case snap_source (rec_snapshot r) of
        None \<Rightarrow> (Inl InvalidRepositoryProof, s)
      | Some source \<Rightarrow>
          if \<not> claim_matches lease m r then (Inl InvalidRepositoryProof, s)
          else
            (case proof_for h T (exec lease m r) r source of
               Inl e \<Rightarrow> (Inl e, s)
             | Inr result \<Rightarrow>
                 (case persist_bundle h R S days put_ms result r s of
                    (Inl e, s') \<Rightarrow> (Inl e, s')
                  | (Inr _, s') \<Rightarrow>
                      (finish_record r (result_case result) (RepositoryOutcome result)
                        (max now_ms (max (case_updated_at (result_case result))
                          (job_updated_at (snap_job (rec_snapshot r))))), s'))))"

section \<open>The run behind it\<close>

fun execution_code_text :: "execution_code \<Rightarrow> string" where
  "execution_code_text ExecBudgetExhausted = ''BUDGET_EXHAUSTED''"
| "execution_code_text ExecCancelled = ''CANCELLED''"
| "execution_code_text ExecFailed = ''EXECUTION_FAILED''"
| "execution_code_text ExecInterrupted = ''PROVIDER_INTERRUPTED''"
| "execution_code_text ExecUnsupportedSource = ''UNSUPPORTED_SOURCE''"

fun execution_error_code :: "thrown \<Rightarrow> string option" where
  "execution_error_code (ExecutionError code stage) = Some (execution_code_text code)"
| "execution_error_code _ = None"

definition attempt_input :: "job_lease \<Rightarrow> durable_record \<Rightarrow> execution_request \<Rightarrow> runner_input" where
  "attempt_input lease r q =
     \<lparr>runner_attempt = rec_job_id r @ ''.attempt-'' @ int_text (lease_attempt lease),
      runner_budget = (case rec_budget r of
          None \<Rightarrow> \<lparr>max_tool_calls = 6, proof_required_runs = 3\<rparr>
        | Some b \<Rightarrow> \<lparr>max_tool_calls = sample_tool_calls b, proof_required_runs = sample_required_runs b\<rparr>),
      runner_case = snap_case (rec_snapshot r), runner_issue = request_issue q, runner_oracle = request_oracle q,
      runner_principal = \<lparr>principal_caller = rec_caller r, principal_id = rec_caller r,
        principal_tenant = rec_tenant r\<rparr>,
      runner_profile = request_profile q, runner_secrets = [], runner_source = request_source q\<rparr>"

text \<open>The signal that the cancellation poll raises is the runner's own.\<close>

definition run_claimed :: "runner \<Rightarrow> job_lease \<Rightarrow> durable_record \<Rightarrow> string option + proof_result" where
  "run_claimed runner lease r =
     (case rec_request r of
        None \<Rightarrow> Inl None
      | Some q \<Rightarrow>
          if \<not> execution_request_ok (runner_host runner) q then Inl None
          else as_error execution_error_code (fst (execute_repository runner (attempt_input lease r q) [])))"

section \<open>The worker of the trusted sample\<close>

fun artifact_error_code :: "artifact_error \<Rightarrow> worker_error" where
  "artifact_error_code IntegrityMismatch = Some ''ARTIFACT_INTEGRITY_MISMATCH''"
| "artifact_error_code WritePending = Some ''ARTIFACT_PENDING''"
| "artifact_error_code ProviderUnavailable = Some ''ARTIFACT_PROVIDER_UNAVAILABLE''"
| "artifact_error_code TenantUnavailable = Some ''ARTIFACT_TENANT_UNAVAILABLE''"
| "artifact_error_code _ = None"

definition trusted_options :: "durable_record \<Rightarrow> sample_options" where
  "trusted_options r =
     \<lparr>opt_tool_calls = map_option sample_tool_calls (rec_budget r),
      opt_required_runs = map_option sample_required_runs (rec_budget r),
      opt_case_id = Some (rec_case_id r), opt_started = Some (rec_created_at r)\<rparr>"

definition trusted_execute ::
  "js_host \<Rightarrow> ratio_host \<Rightarrow> 'b blob_service \<Rightarrow> int \<Rightarrow> (sample_options \<Rightarrow> thrown + sample_result) \<Rightarrow> int \<Rightarrow> int
     \<Rightarrow> durable_record \<Rightarrow> store \<times> 'b \<Rightarrow> (worker_error + durable_record) \<times> (store \<times> 'b)" where
  "trusted_execute h R S days exec put_ms now_ms r s =
     (case exec (trusted_options r) of
        Inl _ \<Rightarrow> (Inl None, s)
      | Inr result \<Rightarrow>
          (case and_then (as_error (\<lambda>_. ()) (payload_bytes h R (sample_bundle result) (sample_files result))) (\<lambda>bytes.
              and_then (bundle_descriptor h days bytes (rec_case_id r) (rec_created_at r) (rec_tenant r))
                (\<lambda>d. Inr (bytes, d))) of
             Inl _ \<Rightarrow> (Inl None, s)
           | Inr (bytes, d) \<Rightarrow>
               (case put_artifact h S put_ms bytes d s of
                  (Inl e, s') \<Rightarrow> (Inl (artifact_error_code e), s')
                | (Inr _, s') \<Rightarrow>
                    (as_error fault_code (finish_record r (sample_case result) (SampleOutcome result)
                      (max now_ms (max (job_updated_at (snap_job (rec_snapshot r)))
                        (case_updated_at (sample_case result))))), s'))))"

section \<open>A finished repository job\<close>

lemma finish_record_Inr:
  "finish_record r c result t = Inr completed \<Longrightarrow>
     \<exists>job. reproduction_job_ok job \<and> job_st job = Succeeded \<and> job_phase job = case_st c \<and>
       job_attempt job = job_attempt (snap_job (rec_snapshot r)) \<and> job_failure job = None \<and>
       completed = r\<lparr>rec_snapshot := (rec_snapshot r)\<lparr>snap_case := c, snap_job := job, snap_result := Some result\<rparr>,
         rec_updated_at := t\<rparr>"
  by (auto simp: finish_record_def transition_job_Inr split: sum.splits)

lemma persist_bundle_Inr:
  assumes "persist_bundle h R S days t result r s = (Inr u, s')" and "artifacts_ok (fst s)"
  shows "artifacts_ok (fst s')" and "only_artifacts (fst s) (fst s')"
    and "result_bundle result \<noteq> None \<Longrightarrow> \<exists>bytes a d. repository_bundle_bytes h R result = Inr bytes \<and>
      repository_bundle_descriptor h days bytes (rec_case_id r) (rec_created_at r) (rec_tenant r) = Inr d \<and>
      a \<in> set (published (fst s')) \<and> row_descriptor a = Inr d"
proof -
  have "artifacts_ok (fst s') \<and> only_artifacts (fst s) (fst s') \<and>
    (result_bundle result \<noteq> None \<longrightarrow> (\<exists>bytes a d. repository_bundle_bytes h R result = Inr bytes \<and>
      repository_bundle_descriptor h days bytes (rec_case_id r) (rec_created_at r) (rec_tenant r) = Inr d \<and>
      a \<in> set (published (fst s')) \<and> row_descriptor a = Inr d))"
  proof (cases "result_bundle result")
    case None
    with assms show ?thesis by (simp add: persist_bundle_def)
  next
    case (Some b)
    with assms(1) obtain bytes d stored where
      bytes: "repository_bundle_bytes h R result = Inr bytes"
        "repository_bundle_descriptor h days bytes (rec_case_id r) (rec_created_at r) (rec_tenant r) = Inr d"
      and put: "put_artifact h S t bytes d s = (Inr stored, s')" "stored = d"
      by (auto simp: persist_bundle_def and_then_def split: sum.splits prod.splits if_splits)
    from put_artifact_settled [OF put(1) assms(2)] put(2) bytes show ?thesis
      by (auto simp: put_settled_def)
  qed
  then show "artifacts_ok (fst s')" and "only_artifacts (fst s) (fst s')"
    and "result_bundle result \<noteq> None \<Longrightarrow> \<exists>bytes a d. repository_bundle_bytes h R result = Inr bytes \<and>
      repository_bundle_descriptor h days bytes (rec_case_id r) (rec_created_at r) (rec_tenant r) = Inr d \<and>
      a \<in> set (published (fst s')) \<and> row_descriptor a = Inr d" by blast+
qed

lemma proof_for_Inr:
  "proof_for h T executed r source = Inr result \<Longrightarrow>
     executed = Inr result \<and> proof_result_ok h T result \<and> case_id (result_case result) = rec_case_id r \<and>
     prov_commit (result_provenance result) = source_commit source \<and>
     prov_repository_id (result_provenance result) = source_repository_id source"
  by (auto simp: proof_for_def and_then_Inr_iff parse_as_def split: sum.splits option.splits if_splits)

lemma repository_execute_Inr:
  assumes "repository_execute h T R S days exec put_ms now_ms lease m r s = (Inr completed, s')"
  obtains source result where "snap_source (rec_snapshot r) = Some source" and "claim_matches lease m r"
    and "proof_for h T (exec lease m r) r source = Inr result"
    and "persist_bundle h R S days put_ms result r s = (Inr (), s')"
    and "finish_record r (result_case result) (RepositoryOutcome result)
      (max now_ms (max (case_updated_at (result_case result)) (job_updated_at (snap_job (rec_snapshot r))))) = Inr completed"
  using assms
  by (auto simp: repository_execute_def split: option.splits sum.splits prod.splits if_splits)

lemma published_bundle:
  assumes "a \<in> set (published db)" and "row_descriptor a = Inr d" and "des_kind d = BundleArtifact"
  shows "has_bundle db (des_tenant d) (des_case d)"
  using assms by (auto simp: has_bundle_def list_ex_iff published_def row_descriptor_def parse_as_def Let_def
      split: if_splits intro!: bexI [of _ a])

end
