(* ===== verification/DurableServices.thy ===== *)
theory DurableServices
  imports DurableWorkers
begin

text \<open>
  The durable case services: \<open>DurableRepositoryCaseService\<close> of
  src/src/application/durable-repository-case-service.ts and \<open>DurableTrustedCaseService\<close> of
  src/src/application/durable-trusted-case-service.ts. They compose the source resolution, the
  durable start, the outbox publisher, the queue consumer, the job repository and the artifact
  store. An operation that throws keeps what its parts have committed: a start whose publication
  fails leaves its reservation behind, and the next start with its key finds it.
\<close>

datatype durable_error =
    DurConflict
  | DurNotFound
  | DurBundleNotReady
  | DurExecutionFailed
  | DurSchema
  | DurRange
  | DurStore store_error
  | DurArtifact artifact_error
  | DurThrown thrown
  | DurCase case_error
  | DurJob job_error
  | DurConsume consume_error

type_synonym 'a service_op = "store \<Rightarrow> (durable_error + 'a) \<times> store"

definition stored :: "'a query \<Rightarrow> 'a service_op" where
  "stored m db = (case m db of Inl e \<Rightarrow> (Inl (DurStore e), db) | Inr (x, db') \<Rightarrow> (Inr x, db'))"

definition then_s :: "'a service_op \<Rightarrow> ('a \<Rightarrow> 'b service_op) \<Rightarrow> 'b service_op" where
  "then_s m f db = (case m db of (Inl e, db') \<Rightarrow> (Inl e, db') | (Inr x, db') \<Rightarrow> f x db')"

definition return_s :: "'a \<Rightarrow> 'a service_op" where
  "return_s x db = (Inr x, db)"

definition throw_s :: "durable_error \<Rightarrow> 'a service_op" where
  "throw_s e db = (Inl e, db)"

definition lift_s :: "durable_error + 'a \<Rightarrow> 'a service_op" where
  "lift_s r db = (r, db)"

section \<open>Reading\<close>

definition principal_scope :: "principal \<Rightarrow> tenant_scope" where
  "principal_scope p =
     \<lparr>scope_caller = principal_caller p, scope_principal = principal_id p, scope_tenant = principal_tenant p\<rparr>"

definition caller_scope :: "string \<Rightarrow> string \<Rightarrow> tenant_scope" where
  "caller_scope tenant caller = \<lparr>scope_caller = caller, scope_principal = caller, scope_tenant = tenant\<rparr>"

definition get_repository_reproduction ::
  "js_host \<Rightarrow> time_host \<Rightarrow> principal \<Rightarrow> string \<Rightarrow> snapshot service_op" where
  "get_repository_reproduction h T p cid =
     then_s (stored (find_by_case_id h T (principal_scope p) cid)) (\<lambda>found. case found of
         None \<Rightarrow> throw_s DurNotFound
       | Some r \<Rightarrow>
           if snap_source (rec_snapshot r) = None then throw_s DurNotFound
           else lift_s (parse_as (snapshot_ok h T) DurSchema (rec_snapshot r)))"

definition get_trusted_reproduction ::
  "js_host \<Rightarrow> time_host \<Rightarrow> string \<Rightarrow> string \<Rightarrow> string \<Rightarrow> snapshot service_op" where
  "get_trusted_reproduction h T tenant caller cid =
     (if \<not> scoped_query_ok caller cid then throw_s DurSchema
      else
        then_s (stored (find_by_case_id h T (caller_scope tenant caller) cid)) (\<lambda>found. case found of
            None \<Rightarrow> throw_s DurNotFound
          | Some r \<Rightarrow> lift_s (parse_as (snapshot_ok h T) DurSchema (rec_snapshot r))))"

definition get_trusted_job ::
  "js_host \<Rightarrow> time_host \<Rightarrow> string \<Rightarrow> string \<Rightarrow> string \<Rightarrow> reproduction_job service_op" where
  "get_trusted_job h T tenant caller jid =
     (if \<not> scoped_query_ok caller jid then throw_s DurSchema
      else
        then_s (stored (find_by_job_id h T (caller_scope tenant caller) jid)) (\<lambda>found. case found of
            None \<Rightarrow> throw_s DurNotFound
          | Some r \<Rightarrow> lift_s (parse_as reproduction_job_ok DurSchema (snap_job (rec_snapshot r)))))"

definition cancel_repository_reproduction ::
  "js_host \<Rightarrow> time_host \<Rightarrow> int \<Rightarrow> principal \<Rightarrow> string \<Rightarrow> cancellation_result service_op" where
  "cancel_repository_reproduction h T now_ms p jid =
     then_s (lift_s (to_iso DurRange now_ms)) (\<lambda>at_ms.
     then_s (stored (request_cancellation h T (principal_scope p) jid at_ms)) (\<lambda>found. case found of
         None \<Rightarrow> throw_s DurNotFound | Some c \<Rightarrow> return_s c))"

section \<open>Exporting\<close>

definition exported ::
  "js_host \<Rightarrow> time_host \<Rightarrow> repro_bundle \<Rightarrow> string \<Rightarrow> (string \<times> string) list \<Rightarrow> durable_error + export_result" where
  "exported h T b cid files =
     parse_as (export_result_ok h T) DurSchema \<lparr>exp_bundle = b, exp_case = cid, exp_files = files\<rparr>"

definition export_repository_bundle ::
  "js_host \<Rightarrow> time_host \<Rightarrow> ratio_host \<Rightarrow> 'b blob_service \<Rightarrow> int \<Rightarrow> principal \<Rightarrow> string \<Rightarrow> store \<times> 'b
     \<Rightarrow> (durable_error + export_result) \<times> (store \<times> 'b)" where
  "export_repository_bundle h T R S days p cid s =
     (case get_repository_reproduction h T p cid (fst s) of
        (Inl e, _) \<Rightarrow> (Inl e, s)
      | (Inr snap, _) \<Rightarrow>
          (case snap_result snap of
             Some (RepositoryOutcome result) \<Rightarrow>
               (case result_bundle result of
                  None \<Rightarrow> (Inl DurBundleNotReady, s)
                | Some b \<Rightarrow>
                    if summary_status (result_summary result) \<noteq> StatusVerified then (Inl DurBundleNotReady, s)
                    else
                      (case and_then (repository_bundle_bytes h R result) (\<lambda>bytes.
                          and_then (repository_bundle_descriptor h days bytes (case_id (snap_case snap))
                            (case_created_at (snap_case snap)) (principal_tenant p)) (\<lambda>d. Inr (bytes, d))) of
                         Inl _ \<Rightarrow> (Inl DurSchema, s)
                       | Inr (bytes, d) \<Rightarrow>
                           (case read_artifact h S (principal_scope p) (des_id d) s of
                              (Inl e, s') \<Rightarrow> (Inl (DurArtifact e), s')
                            | (Inr None, s') \<Rightarrow> (Inl DurBundleNotReady, s')
                            | (Inr (Some (kept, kept_d)), s') \<Rightarrow>
                                if kept \<noteq> bytes \<or> kept_d \<noteq> d then (Inl DurBundleNotReady, s')
                                else (exported h T b (case_id (snap_case snap)) (result_files result), s'))))
           | _ \<Rightarrow> (Inl DurBundleNotReady, s)))"

text \<open>The trusted service compares the texts of the bytes, which the decoder reads leniently.\<close>

definition export_trusted_bundle ::
  "js_host \<Rightarrow> time_host \<Rightarrow> ratio_host \<Rightarrow> 'b blob_service \<Rightarrow> (string \<Rightarrow> string) \<Rightarrow> int \<Rightarrow> string \<Rightarrow> string
     \<Rightarrow> string \<Rightarrow> store \<times> 'b \<Rightarrow> (durable_error + export_result) \<times> (store \<times> 'b)" where
  "export_trusted_bundle h T R S decoder days tenant caller cid s =
     (case get_trusted_reproduction h T tenant caller cid (fst s) of
        (Inl e, _) \<Rightarrow> (Inl e, s)
      | (Inr snap, _) \<Rightarrow>
          (case snap_result snap of
             Some (SampleOutcome result) \<Rightarrow>
               if summary_status (sample_summary result) \<noteq> StatusVerified then (Inl DurBundleNotReady, s)
               else
                 (case and_then (as_error (\<lambda>_. ()) (payload_bytes h R (sample_bundle result) (sample_files result)))
                     (\<lambda>bytes. and_then (bundle_descriptor h days bytes (case_id (snap_case snap))
                       (case_created_at (snap_case snap)) tenant) (\<lambda>d. Inr (bytes, d))) of
                    Inl _ \<Rightarrow> (Inl DurRange, s)
                  | Inr (bytes, d) \<Rightarrow>
                      (case read_artifact h S (caller_scope tenant caller) (des_id d) s of
                         (Inl e, s') \<Rightarrow> (Inl (DurArtifact e), s')
                       | (Inr None, s') \<Rightarrow> (Inl DurBundleNotReady, s')
                       | (Inr (Some (kept, _)), s') \<Rightarrow>
                           if decoder kept \<noteq> decoder bytes then (Inl DurBundleNotReady, s')
                           else (exported h T (sample_bundle result) (case_id (snap_case snap)) (sample_files result), s')))
           | _ \<Rightarrow> (Inl DurBundleNotReady, s)))"

section \<open>Publishing and consuming\<close>

text \<open>
  What one start meets: the publisher and the consumer with their worlds. The artifacts that the
  consumer's worker writes reach the tables as steps of the others of that world.
\<close>

record durable_env =
  env_publisher :: publisher
  env_publisher_world :: publisher_world
  env_before :: "string \<Rightarrow> string \<Rightarrow> bool"
  env_locked :: "outbox_row \<Rightarrow> bool"
  env_publish_at :: int
  env_consumer_world :: consumer_world
  env_lease_seconds :: int
  env_owner :: string

definition message_for :: "durable_record \<Rightarrow> queue_message" where
  "message_for r =
     \<lparr>msg_case_id = rec_case_id r, msg_event_id = ''outbox_'' @ rec_case_id r, msg_job_id = rec_job_id r,
      msg_kind = ReproductionRequested, msg_tenant = rec_tenant r\<rparr>"

definition terminal_record :: "durable_record \<Rightarrow> bool" where
  "terminal_record r \<longleftrightarrow> List.member [JobCancelled, Failed, Succeeded] (job_st (snap_job (rec_snapshot r)))"

definition reread :: "js_host \<Rightarrow> time_host \<Rightarrow> durable_record \<Rightarrow> durable_record service_op" where
  "reread h T r =
     then_s (stored (find_by_idempotency_key h T (caller_scope (rec_tenant r) (rec_caller r))
         (rec_idempotency_key r))) (\<lambda>found. case found of
         None \<Rightarrow> throw_s DurNotFound | Some r' \<Rightarrow> return_s r')"

definition run_consumer :: "js_host \<Rightarrow> time_host \<Rightarrow> durable_env \<Rightarrow> queue_message \<Rightarrow> consume_result service_op" where
  "run_consumer h T env m db =
     (case consume h T (env_consumer_world env) (env_lease_seconds env) m (env_owner env) db of
        (Inl e, db') \<Rightarrow> (Inl (DurConsume e), db')
      | (Inr res, db') \<Rightarrow> (Inr res, db'))"

definition publish_and_maybe_consume ::
  "js_host \<Rightarrow> time_host \<Rightarrow> durable_env \<Rightarrow> bool \<Rightarrow> durable_record \<Rightarrow> bool \<Rightarrow> durable_record service_op" where
  "publish_and_maybe_consume h T env inline r require_delivery =
     then_s (stored (publish_batch (env_publisher env) (env_publisher_world env) (env_before env)
         (env_locked env) (env_publish_at env))) (\<lambda>published.
       if 0 < pub_dead published \<or> 0 < pub_retried published \<or> require_delivery \<and> pub_delivered published < 1
       then throw_s DurExecutionFailed
       else if \<not> inline then reread h T r
       else
         then_s (run_consumer h T env (message_for r)) (\<lambda>res.
           if con_outcome res \<noteq> OutCompleted \<and> con_outcome res \<noteq> OutIgnored then throw_s DurExecutionFailed
           else reread h T r))"

section \<open>Starting\<close>

definition answer_start ::
  "js_host \<Rightarrow> time_host \<Rightarrow> bool \<Rightarrow> durable_record \<Rightarrow> start_result service_op" where
  "answer_start h T reused r =
     lift_s (and_then (parse_as (snapshot_ok h T) DurSchema (rec_snapshot r)) (\<lambda>s.
       Inr \<lparr>res_reused = reused, res_snapshot = s\<rparr>))"

definition continue_start ::
  "js_host \<Rightarrow> time_host \<Rightarrow> durable_env \<Rightarrow> bool \<Rightarrow> durable_record \<Rightarrow> bool \<Rightarrow> bool \<Rightarrow> start_result service_op" where
  "continue_start h T env inline r require_delivery reused =
     then_s (if terminal_record r then return_s r else publish_and_maybe_consume h T env inline r require_delivery)
       (answer_start h T reused)"

definition reserve_start ::
  "js_host \<Rightarrow> time_host \<Rightarrow> quota_limits \<Rightarrow> start_input \<Rightarrow> (bool \<times> durable_record) service_op" where
  "reserve_start h T limits i db =
     (case reserve_durable_start h T limits i db of
        (Inl IdempotencyConflict, db') \<Rightarrow> (Inl DurConflict, db')
      | (Inl _, db') \<Rightarrow> (Inl DurExecutionFailed, db')
      | (Inr x, db') \<Rightarrow> (Inr x, db'))"

text \<open>The audit event, message and quota of a new record.\<close>

definition start_input_for ::
  "js_host \<Rightarrow> string \<Rightarrow> (string \<times> audit_value) list \<Rightarrow> durable_record \<Rightarrow> durable_error + start_input" where
  "start_input_for h actor metadata r =
     and_then (to_iso DurExecutionFailed (rec_created_at r + 15 * 60000)) (\<lambda>expires. Inr
       \<lparr>start_audit = \<lparr>audit_action = ''case.created'', audit_actor = actor,
          audit_event_id = derived_id h ''audit'' [rec_tenant r, rec_case_id r], audit_metadata = metadata,
          audit_occurred_at = rec_created_at r, audit_outcome = AuditSuccess, audit_target_id = rec_case_id r,
          audit_target_type = TargetCase, audit_tenant = rec_tenant r\<rparr>,
        start_message = message_for r,
        start_quota = \<lparr>quota_amount = 1, quota_case_id = rec_case_id r, quota_expires_at = expires,
          quota_job_id = rec_job_id r, quota_id = derived_id h ''quota'' [rec_tenant r, rec_case_id r],
          quota_resource = ActiveJobs, quota_tenant = rec_tenant r\<rparr>,
        start_record = r\<rparr>)"

definition new_record ::
  "string \<Rightarrow> string \<Rightarrow> string \<Rightarrow> string \<Rightarrow> sample_budget \<Rightarrow> execution_request option \<Rightarrow> string \<Rightarrow> string \<Rightarrow> int
     \<Rightarrow> durable_error + durable_record" where
  "new_record tenant caller key hash budget request cid jid created =
     and_then (to_iso DurRange created) (\<lambda>at_ms.
     and_then (as_error DurCase (create_case cid created)) (\<lambda>case0.
     and_then (as_error DurJob (create_job jid cid created)) (\<lambda>job0. Inr
       \<lparr>rec_caller = caller, rec_case_id = cid, rec_command_hash = hash, rec_created_at = at_ms,
        rec_idempotency_key = key, rec_job_id = jid, rec_budget = Some budget, rec_request = request,
        rec_snapshot = \<lparr>snap_case = case0, snap_job = job0, snap_source = map_option request_source request,
          snap_result = None, snap_sample = (request = None)\<rparr>,
        rec_tenant = tenant, rec_updated_at = at_ms, rec_version = 1\<rparr>)))"

definition start_new ::
  "js_host \<Rightarrow> time_host \<Rightarrow> quota_limits \<Rightarrow> durable_env \<Rightarrow> bool \<Rightarrow> string \<Rightarrow> (string \<times> audit_value) list \<Rightarrow> string
     \<Rightarrow> durable_error + durable_record \<Rightarrow> start_result service_op" where
  "start_new h T limits env inline actor metadata hash created =
     then_s (lift_s created) (\<lambda>r.
     then_s (lift_s (start_input_for h actor metadata r)) (\<lambda>i.
     then_s (reserve_start h T limits i) (\<lambda>(fresh, reserved).
       if rec_command_hash reserved \<noteq> hash then throw_s DurConflict
       else continue_start h T env inline reserved fresh (\<not> fresh))))"

definition start_by_key ::
  "js_host \<Rightarrow> time_host \<Rightarrow> durable_env \<Rightarrow> bool \<Rightarrow> tenant_scope \<Rightarrow> string \<Rightarrow> string \<Rightarrow> start_result service_op
     \<Rightarrow> start_result service_op" where
  "start_by_key h T env inline scope key hash fresh =
     then_s (stored (find_by_idempotency_key h T scope key)) (\<lambda>found. case found of
         Some existing \<Rightarrow>
           if rec_command_hash existing \<noteq> hash then throw_s DurConflict
           else continue_start h T env inline existing False True
       | None \<Rightarrow> fresh)"

text \<open>The start of a repository.\<close>

record repository_start =
  rst_budget :: sample_budget
  rst_key :: string
  rst_request :: source_request
  rst_issue :: "issue_evidence option"
  rst_oracle :: failure_oracle
  rst_profile :: node_profile

definition repository_start_ok :: "js_host \<Rightarrow> repository_start \<Rightarrow> bool" where
  "repository_start_ok h i \<longleftrightarrow>
     1 \<le> sample_tool_calls (rst_budget i) \<and> sample_tool_calls (rst_budget i) \<le> 12 \<and>
     3 \<le> sample_required_runs (rst_budget i) \<and> sample_required_runs (rst_budget i) \<le> 5 \<and>
     len_in 1 128 (rst_key i) \<and> source_request_ok (rst_request i) \<and>
     pred_option issue_evidence_ok (rst_issue i) \<and> failure_oracle_ok h (rst_oracle i) \<and>
     node_profile_ok (rst_profile i)"

definition optional_member :: "string \<Rightarrow> ('a \<Rightarrow> js_value) \<Rightarrow> 'a option \<Rightarrow> (string \<times> js_value) list" where
  "optional_member name f v = (case v of None \<Rightarrow> [] | Some x \<Rightarrow> [(name, f x)])"

definition request_value :: "execution_request \<Rightarrow> js_value" where
  "request_value q = VObj
     (optional_member ''issueEvidence'' (\<lambda>e. VObj ((''number'', VNum (int_text (issue_number e))) #
        optional_member ''title'' VStr (issue_title e))) (request_issue q) @
      [(''oracle'', value_of_json (oracle_json (request_oracle q))),
       (''profile'', VObj
         ([(''controlScript'', VStr (control_script (request_profile q))), (''ecosystem'', VStr ''node''),
           (''lockfile'', VStr ''package-lock.json''),
           (''nodeVersion'', VStr (node_version_text (node_ver (request_profile q)))),
           (''packageManager'', VStr ''npm''),
           (''reproductionScript'', VStr (reproduction_script (request_profile q)))] @
          optional_member ''testNamePattern'' VStr (test_name_pattern (request_profile q)) @
          optional_member ''workspace'' VStr (profile_workspace (request_profile q)))),
       (''source'', VObj
         [(''commitSha'', VStr (source_commit (request_source q))),
          (''fullName'', VStr (source_full_name (request_source q))),
          (''private'', VBool (source_private (request_source q))), (''provider'', VStr ''github''),
          (''repositoryId'', VStr (source_repository_id (request_source q)))])])"

definition repository_command_hash :: "js_host \<Rightarrow> sample_budget \<Rightarrow> execution_request \<Rightarrow> canonical_error + string" where
  "repository_command_hash h budget q = hash_canonical h (VObj
     [(''budget'', VObj [(''maxToolCalls'', VNum (int_text (sample_tool_calls budget))),
        (''requiredRuns'', VNum (int_text (sample_required_runs budget)))]),
      (''repositoryRequest'', request_value q)])"

record start_context =
  ctx_resolve :: "source_request \<Rightarrow> thrown + resolved_revision"
  ctx_admission :: "repository_source \<Rightarrow> thrown option"
  ctx_limits :: quota_limits
  ctx_env :: durable_env
  ctx_inline :: bool
  ctx_now :: int
  ctx_case_id :: string
  ctx_job_id :: string

definition start_repository_reproduction ::
  "js_host \<Rightarrow> time_host \<Rightarrow> start_context \<Rightarrow> principal \<Rightarrow> repository_start \<Rightarrow> start_result service_op" where
  "start_repository_reproduction h T ctx p i =
     (if \<not> repository_start_ok h i then throw_s DurSchema
      else
        then_s (lift_s (as_error DurThrown (resolve_immutable_source (ctx_resolve ctx) (rst_request i)))) (\<lambda>source.
        then_s (lift_s (parse_as (execution_request_ok h) DurSchema
          \<lparr>request_issue = rst_issue i, request_oracle = rst_oracle i, request_profile = rst_profile i,
           request_source = source\<rparr>)) (\<lambda>q.
        then_s (lift_s (as_error (\<lambda>_. DurSchema) (repository_command_hash h (rst_budget i) q))) (\<lambda>hash.
          start_by_key h T (ctx_env ctx) (ctx_inline ctx) (principal_scope p) (rst_key i) hash
            (case ctx_admission ctx source of
               Some e \<Rightarrow> throw_s (DurThrown e)
             | None \<Rightarrow>
                 start_new h T (ctx_limits ctx) (ctx_env ctx) (ctx_inline ctx) (principal_id p)
                   [(''provider'', AuditText ''github''),
                    (''repositoryId'', AuditText (source_repository_id source))] hash
                   (new_record (principal_tenant p) (principal_caller p) (rst_key i) hash (rst_budget i) (Some q)
                     (ctx_case_id ctx) (ctx_job_id ctx) (ctx_now ctx)))))))"

text \<open>The start of the trusted sample for the tenant of the service.\<close>

definition start_trusted_reproduction ::
  "js_host \<Rightarrow> time_host \<Rightarrow> quota_limits \<Rightarrow> durable_env \<Rightarrow> string \<Rightarrow> int \<Rightarrow> string \<Rightarrow> string \<Rightarrow> start_command
     \<Rightarrow> start_result service_op" where
  "start_trusted_reproduction h T limits env tenant now_ms cid jid c =
     (if \<not> start_command_ok c then throw_s DurSchema
      else
        then_s (lift_s (as_error (\<lambda>_. DurSchema) (hash_canonical h (command_value c)))) (\<lambda>hash.
          start_by_key h T env True (caller_scope tenant (cmd_caller c)) (cmd_key c) hash
            (start_new h T limits env True (cmd_caller c) [(''sampleKind'', AuditText ''trusted-sample'')] hash
              (new_record tenant (cmd_caller c) (cmd_key c) hash (cmd_budget c) None cid jid now_ms))))"

end
