(* ===== verification/WorkerLaws.thy ===== *)
theory WorkerLaws
  imports DurableServices
begin

text \<open>
  What the durable workers and services promise together: verified work is stored, what was stored
  is what the service exports, and a caller reads well-formed records of its own tenant only.
\<close>

section \<open>The size of a canonical text\<close>

fun value_bound :: "js_value \<Rightarrow> nat"
  and items_bound :: "js_value list \<Rightarrow> nat"
  and entries_bound :: "(string \<times> js_value) list \<Rightarrow> nat" where
  "value_bound VUndefined = 0"
| "value_bound VOther = 0"
| "value_bound VNull = 4"
| "value_bound (VBool b) = 5"
| "value_bound (VNum t) = length t"
| "value_bound (VStr s) = 6 * length s + 2"
| "value_bound (VArr vs) = items_bound vs + 2"
| "value_bound (VObj kvs) = entries_bound kvs + 2"
| "items_bound [] = 0"
| "items_bound (v # vs) = value_bound v + 1 + items_bound vs"
| "entries_bound [] = 0"
| "entries_bound ((k, v) # kvs) = 6 * length k + 4 + value_bound v + entries_bound kvs"

lemma json_quote_bound: "length (json_quote s) \<le> 6 * length s + 2"
proof -
  have "length (quote_char c) \<le> 6" for c by (simp add: quote_char_def)
  then have "length (concat (map quote_char s)) \<le> 6 * length s"
    by (induction s) (auto simp: add_mono intro: order_trans [OF add_mono])
  then show ?thesis by (simp add: json_quote_def)
qed

lemma length_join_bound: "length (join [c] ss) \<le> (\<Sum>s\<leftarrow>ss. length s + 1)"
  by (induction ss rule: induct_list012) (simp_all add: join_Cons)

lemma sum_set_le_sum_list: "sum f (set xs) \<le> (\<Sum>x\<leftarrow>xs. f x :: nat)"
  by (induction xs) (auto simp: sum.insert_if)

lemma own_properties_sum:
  "(\<Sum>kv\<leftarrow>own_properties kvs. f kv :: nat) \<le> (\<Sum>kv\<leftarrow>kvs. f kv)"
proof -
  have "distinct (own_properties kvs)"
    using own_properties_keys_distinct [of kvs] by (simp add: distinct_map)
  then have "(\<Sum>kv\<leftarrow>own_properties kvs. f kv) = sum f (set (own_properties kvs))"
    by (rule sum_list_distinct_conv_sum_set)
  also have "\<dots> \<le> sum f (set kvs)" by (rule sum_mono2) (auto dest: subsetD [OF set_own_properties])
  also have "\<dots> \<le> (\<Sum>kv\<leftarrow>kvs. f kv)" by (rule sum_set_le_sum_list)
  finally show ?thesis .
qed

lemma sort_by_sum: "(\<Sum>x\<leftarrow>sort_by le xs. f x :: nat) = (\<Sum>x\<leftarrow>xs. f x)"
proof -
  have "mset (map f (sort_by le xs)) = mset (map f xs)" by simp
  then show ?thesis by (metis sum_mset_sum_list)
qed

lemma element_texts_sum: "(\<Sum>s\<leftarrow>element_texts vs. length s + 1) = (\<Sum>v\<leftarrow>vs. length (json_text v) + 1)"
  by (induction vs) simp_all

lemma member_texts_sum:
  "(\<Sum>s\<leftarrow>member_texts kvs. length s + 1) = (\<Sum>(k, v)\<leftarrow>kvs. length (json_quote k) + length (json_text v) + 2)"
  by (induction kvs) auto

lemma normalized_bound:
  "normalize_json h v = Inr w \<Longrightarrow> length (json_text w) \<le> value_bound v"
  "normalize_items h vs = Inr ws \<Longrightarrow> (\<Sum>w\<leftarrow>ws. length (json_text w) + 1) \<le> items_bound vs"
  "normalize_entries h kvs = Inr es \<Longrightarrow>
     (\<Sum>(k, w)\<leftarrow>es. length (json_quote k) + length (json_text w) + 2) \<le> entries_bound kvs"
proof (induction h v and h vs and h kvs arbitrary: w and ws and es
    rule: normalize_json_normalize_items_normalize_entries.induct)
  case (7 h vs)
  then obtain ws where ws: "normalize_items h vs = Inr ws" and w: "w = JArr ws" by (auto simp: and_then_Inr_iff)
  have "length (join '','' (element_texts ws)) \<le> items_bound vs"
    using length_join_bound [of "CHR '',''" "element_texts ws"] 7(1) [OF ws]
    unfolding element_texts_sum by (rule order_trans)
  then show ?case by (simp add: w)
next
  case (8 h kvs)
  then obtain es where es: "normalize_entries h kvs = Inr es"
    and w: "w = JObj (own_properties (sort_by (key_before h) es))" by (auto simp: and_then_Inr_iff)
  let ?f = "\<lambda>(k, w). length (json_quote k) + length (json_text w) + 2"
  have "(\<Sum>kv\<leftarrow>sort_by (key_before h) es. ?f kv) = (\<Sum>kv\<leftarrow>es. ?f kv)"
    by (rule sort_by_sum)
  with own_properties_sum [of ?f "sort_by (key_before h) es"] 8(1) [OF es]
  have "(\<Sum>kv\<leftarrow>own_properties (sort_by (key_before h) es). ?f kv) \<le> entries_bound kvs" by linarith
  with length_join_bound [of "CHR '',''" "member_texts (own_properties (sort_by (key_before h) es))"]
  have "length (join '','' (member_texts (own_properties (sort_by (key_before h) es)))) \<le> entries_bound kvs"
    unfolding member_texts_sum by (rule order_trans)
  then show ?case by (simp add: w)
next
  case (12 h k v kvs)
  then show ?case using json_quote_bound [of k]
    by (auto simp: and_then_Inr_iff split: if_splits)
qed (auto simp: and_then_Inr_iff intro: order_trans [OF json_quote_bound])

lemma utf8_bound: "length (utf8_encode s) \<le> 2 * length s"
  by (induction s) (auto simp: utf8_encode_def utf8_unit_def)

lemma payload_bytes_bound:
  assumes "payload_bytes h R b files = Inr bytes"
  shows "length bytes \<le> 2 * value_bound (VObj
       [(''bundle'', bundle_value R b), (''files'', VObj (map (\<lambda>(k, t). (k, VStr t)) files)),
        (''schemaVersion'', VStr ''1.0'')])"
proof -
  let ?v = "VObj [(''bundle'', bundle_value R b), (''files'', VObj (map (\<lambda>(k, t). (k, VStr t)) files)),
        (''schemaVersion'', VStr ''1.0'')]"
  from assms obtain w where w: "normalize_json h ?v = Inr w" and bytes: "bytes = utf8_encode (json_text w)"
    unfolding payload_bytes_def canonical_json_def and_then_Inr_iff by blast
  have "length bytes \<le> 2 * length (json_text w)" unfolding bytes by (rule utf8_bound)
  also have "\<dots> \<le> 2 * value_bound ?v" using normalized_bound(1) [OF w] by (rule mult_le_mono2)
  finally show ?thesis .
qed

section \<open>A verified claim\<close>

definition stored_bundle :: repro_bundle where
  "stored_bundle = (Bundle.sample_bundle cli_spaces_oracle)\<lparr>bundle_case_id := ''c''\<rparr>"

definition verified_proof :: proof_result where
  "verified_proof =
     \<lparr>result_budget = \<lparr>max_tool_calls = 12, proof_required_runs = 3\<rparr>, result_bundle = Some stored_bundle,
      result_case = \<lparr>case_created_at = 0, case_history = [], case_id = ''c'', case_st = Verified,
        case_updated_at = 1500\<rparr>,
      result_evidence = map (\<lambda>i. \<lparr>item_classification = Observed, item_content = ''x'', item_id = i,
        item_source = ''run''\<rparr>) [''evidence-1'', ''evidence-2'', ''evidence-3''],
      result_files = [(''README.md'', ''Run it.'')], result_hypotheses = [sample_hypothesis],
      result_minimization = Some (bundle_minimization stored_bundle), result_oracle = cli_spaces_oracle,
      result_cleanup = Clean, result_dependency = sample_metadata, result_environment = sample_environment,
      result_provenance = sample_provenance, result_runs = [cli_spaces_control, cli_spaces_reproduce],
      result_summary = bundle_summary stored_bundle\<rparr>"

definition source_record :: durable_record where
  "source_record = claimed_record\<lparr>
     rec_request := Some \<lparr>request_issue = None, request_oracle = cli_spaces_oracle, request_profile = sample_profile,
       request_source = sample_source\<rparr>,
     rec_snapshot := (rec_snapshot claimed_record)\<lparr>snap_source := Some sample_source, snap_sample := False\<rparr>\<rparr>"

lemma stored_bundle_ok: "repro_bundle_ok plain_host utc_time stored_bundle"
proof -
  let ?b = "Bundle.sample_bundle cli_spaces_oracle"
  have "repro_bundle_ok plain_host utc_time ?b" using sample_bundle_ok sample_oracles_ok by blast
  then show ?thesis
    by (simp add: repro_bundle_ok_def stored_bundle_def bundle_fields_ok_def bundle_refined_def)
qed

lemma verified_proof_ok: "proof_result_ok plain_host sample_times verified_proof"
proof -
  have "bundle_fields_ok plain_host utc_time (sample_input cli_spaces_oracle)"
    using sample_fields_ok sample_oracles_ok by blast
  then have "hypothesis_ok sample_hypothesis" and "minimization_result_ok (bundle_minimization stored_bundle)"
    and "verification_summary_ok (bundle_summary stored_bundle)"
    by (simp_all add: bundle_fields_ok_def sample_input_def stored_bundle_def Bundle.sample_bundle_def
        bundle_input.extend_def)
  moreover have "source_provenance_ok sample_provenance"
    by (simp add: source_provenance_ok_def sample_provenance_def sample_strings_ok valid_instant_def
        safe_int_def max_safe_integer_def max_entries_def len_in_def)
  ultimately show ?thesis
    using stored_bundle_ok sample_metadata_ok sample_versions_ok cli_spaces_oracle_ok [of plain_host] cli_spaces_runs_ok
    by (simp add: proof_result_ok_def verified_proof_def proof_budget_ok_def sample_times_def repro_case_ok_def
        valid_instant_def evidence_item_ok_def proof_refined_def Let_def sample_hypothesis_def stored_bundle_def
        Bundle.sample_bundle_def sample_input_def bundle_input.extend_def)
qed

definition stored_descriptor :: "string \<Rightarrow> artifact_descriptor" where
  "stored_descriptor bytes =
     \<lparr>des_id = ''artifact_'' @ replicate 48 (CHR ''0''), des_bytes = int (length bytes), des_case = ''c'',
      des_created = 0, des_kind = BundleArtifact,
      des_key = object_key_for ''t'' ''c'' BundleArtifact (replicate 64 (CHR ''0'')),
      des_retention = 2592000000, des_sha256 = replicate 64 (CHR ''0''), des_tenant = ''t''\<rparr>"

lemma stored_bytes:
  obtains bytes where "repository_bundle_bytes plain_host one_ratio verified_proof = Inr bytes"
    and "length bytes \<le> 1000000"
proof -
  let ?files = "result_files verified_proof"
  obtain w where w: "normalize_json plain_host (bundle_value one_ratio stored_bundle) = Inr w"
    using normalize_value_of_json [of plain_host "base_json one_ratio stored_bundle"]
    by (auto simp: bundle_value_def base_json_def and_then_Inr_iff)
  then have "bundle_value one_ratio stored_bundle \<noteq> VUndefined" by auto
  with w obtain bytes where bytes: "payload_bytes plain_host one_ratio stored_bundle ?files = Inr bytes"
    by (simp add: payload_bytes_def canonical_json_def and_then_def verified_proof_def)
  from payload_bytes_bound [OF bytes] have "length bytes \<le> 1000000"
    by (simp add: verified_proof_def bundle_value_def stored_bundle_def Bundle.sample_bundle_def sample_input_def
        bundle_input.extend_def base_json_def hypothesis_json_def sample_hypothesis_def lock_members_def
        sample_lock_data_def minimization_json_def oracle_json_def run_json_def summary_json_def
        cli_spaces_oracle_def cli_spaces_reproduce_def one_ratio_def json_of_int_def status_entry_json_def
        nullable_string_json_def claim_json_def repro_bundle.defs int_text_def nat_text.simps)
  with bytes that show ?thesis by (simp add: repository_bundle_bytes_def verified_proof_def as_error_def)
qed

lemma stored_descriptor_ok:
  assumes "length bytes \<le> 1000000"
  shows "descriptor_ok (stored_descriptor bytes)"
    and "repository_bundle_descriptor plain_host 30 bytes ''c'' 0 ''t'' = Inr (stored_descriptor bytes)"
proof -
  show ok: "descriptor_ok (stored_descriptor bytes)"
    using assms by (simp add: descriptor_ok_def stored_descriptor_def object_key_for_def join_Cons opaque_id_def
        identifier_ok_def len_in_def valid_instant_def date_range_def zero_hash alnum_char_def lower_char_def
        upper_char_def digit_char_def code_unit_def)
  have "sha256_hex plain_host t = replicate 64 (CHR ''0'')" for t by (simp add: plain_host_def)
  then have "bundle_descriptor plain_host 30 bytes ''c'' 0 ''t'' = Inr (stored_descriptor bytes)"
    by (simp add: bundle_descriptor_def stored_descriptor_def derived_id_def object_key_for_def to_iso_def Let_def
        date_range_def and_then_def)
  with ok show "repository_bundle_descriptor plain_host 30 bytes ''c'' 0 ''t'' = Inr (stored_descriptor bytes)"
    by (simp add: repository_bundle_descriptor_def parse_as_def as_error_def)
qed

definition worked_store :: "string \<Rightarrow> store" where
  "worked_store bytes = reserved_store\<lparr>st_artifacts := [stored_row 1500 (stored_descriptor bytes) ''e'']\<rparr>"

definition worked_record :: durable_record where
  "worked_record = source_record\<lparr>rec_snapshot := (rec_snapshot source_record)\<lparr>snap_case := result_case verified_proof,
      snap_job := (snap_job (rec_snapshot source_record))\<lparr>job_phase := Verified, job_st := Succeeded,
        job_updated_at := 2000\<rparr>,
      snap_result := Some (RepositoryOutcome verified_proof)\<rparr>, rec_updated_at := 2000\<rparr>"

lemma work_sample:
  obtains bytes b where "length bytes \<le> 1000000"
    and "repository_bundle_bytes plain_host one_ratio verified_proof = Inr bytes"
    and "repository_execute plain_host sample_times one_ratio memory_blobs 30 (\<lambda>_ _ _. Inr verified_proof) 1500 2000
      sample_lease sample_message source_record (reserved_store, Map.empty) =
      (Inr worked_record, (worked_store bytes, b))"
    and "b = Map.empty(des_key (stored_descriptor bytes) \<mapsto> bytes)"
proof -
  obtain bytes where bytes: "repository_bundle_bytes plain_host one_ratio verified_proof = Inr bytes"
    and len: "length bytes \<le> 1000000" by (rule stored_bytes)
  let ?d = "stored_descriptor bytes"
  have valid: "validate_put plain_host bytes ?d"
    using stored_descriptor_ok(1) [OF len] by (simp add: validate_put_def stored_descriptor_def plain_host_def)
  have claimed: "rec_case_id source_record = ''c''" "rec_tenant source_record = ''t''" "rec_created_at source_record = 0"
    by (simp_all add: source_record_def claimed_record_def durable_sample_def)
  obtain b where b: "b = Map.empty(des_key ?d \<mapsto> bytes)"
    and put: "put_artifact plain_host memory_blobs 1500 bytes ?d (reserved_store, Map.empty) =
      (Inr ?d, (worked_store bytes, b))"
  proof (rule put_artifact_new [OF memory_blobs_answer(1,3) valid, where db = reserved_store and b = Map.empty and t = 1500])
    show "tenant_active reserved_store (des_tenant ?d)"
      by (simp add: tenant_active_def reserved_store_def sample_store_def stored_descriptor_def)
    show "(des_tenant ?d, des_case ?d) \<in> case_key ` set (st_cases reserved_store)"
      by (simp add: reserved_store_def stored_descriptor_def case_key_def new_case_row_def durable_sample_def)
    show "new_identity ?d reserved_store" by (simp add: new_identity_def reserved_store_def sample_store_def)
  qed (simp_all add: sample_etag stored_descriptor_def worked_store_def len_in_def reserved_store_def sample_store_def)
  have "proof_for plain_host sample_times (Inr verified_proof) source_record sample_source = Inr verified_proof"
    using verified_proof_ok claimed(1)
    by (simp add: proof_for_def parse_as_def verified_proof_def sample_provenance_def sample_source_def)
  moreover have "persist_bundle plain_host one_ratio memory_blobs 30 1500 verified_proof source_record
      (reserved_store, Map.empty) = (Inr (), (worked_store bytes, b))"
    using put stored_descriptor_ok [OF len] bytes claimed
    by (simp add: persist_bundle_def and_then_def) (simp add: verified_proof_def)
  moreover have "claim_matches sample_lease sample_message source_record"
    by (simp add: claim_matches_def source_record_def claimed_record_def durable_sample_def sample_lease_def
        sample_message_def)
  moreover have "finish_record source_record (result_case verified_proof) (RepositoryOutcome verified_proof) 2000 =
      Inr worked_record"
    by (simp add: finish_record_def transition_job_def can_transition_job_def source_record_def claimed_record_def
        durable_sample_def verified_proof_def worked_record_def to_iso_def date_range_def parse_as_def
        reproduction_job_ok_def valid_instant_def)
  moreover have "snap_source (rec_snapshot source_record) = Some sample_source" by (simp add: source_record_def)
  moreover have "case_updated_at (result_case verified_proof) = 1500"
    "job_updated_at (snap_job (rec_snapshot source_record)) = 1000"
    by (simp_all add: verified_proof_def source_record_def claimed_record_def)
  ultimately have "repository_execute plain_host sample_times one_ratio memory_blobs 30 (\<lambda>_ _ _. Inr verified_proof)
      1500 2000 sample_lease sample_message source_record (reserved_store, Map.empty) =
      (Inr worked_record, (worked_store bytes, b))"
    by (simp add: repository_execute_def)
  with that bytes len b show ?thesis by blast
qed

section \<open>What the workers promise\<close>

text \<open>
  C12. A repository worker that returns has kept the claim: the record is that of the message with
  its job SUCCEEDED at the claimed attempt, the result is the executor's proof of the requested
  source, and of the tables only the artifacts changed. When the proof is VERIFIED, the canonical
  text of its bundle and files is an available artifact of the case, so that completing the lease is
  not refused for want of a bundle.
\<close>

theorem verified_work_is_stored:
  assumes "artifacts_ok db"
    and "repository_execute h T R S days exec put_ms now_ms lease m r (db, b) = (Inr completed, (db', b'))"
  shows "\<exists>result. exec lease m r = Inr result \<and> proof_result_ok h T result \<and>
    snap_result (rec_snapshot completed) = Some (RepositoryOutcome result) \<and>
    case_id (snap_case (rec_snapshot completed)) = msg_case_id m \<and>
    job_st (snap_job (rec_snapshot completed)) = Succeeded \<and>
    job_attempt (snap_job (rec_snapshot completed)) = lease_attempt lease \<and>
    db' = db\<lparr>st_artifacts := st_artifacts db'\<rparr> \<and> artifacts_ok db' \<and>
    (claims_verified completed \<longrightarrow> has_bundle db' (rec_tenant completed) (rec_case_id completed) \<and>
       (\<exists>bytes a. repository_bundle_bytes h R result = Inr bytes \<and> a \<in> set (published db') \<and>
          ar_tenant a = msg_tenant m \<and> ar_case a = msg_case_id m \<and> ar_sha256 a = sha256_hex h bytes))"
proof -
  from repository_execute_Inr [OF assms(2)] obtain source result where
    claim: "claim_matches lease m r" and proof_ok: "proof_for h T (exec lease m r) r source = Inr result"
    and persist: "persist_bundle h R S days put_ms result r (db, b) = (Inr (), (db', b'))"
    and fin: "finish_record r (result_case result) (RepositoryOutcome result)
      (max now_ms (max (case_updated_at (result_case result)) (job_updated_at (snap_job (rec_snapshot r))))) = Inr completed" .
  note p = proof_for_Inr [OF proof_ok]
  note kept = persist_bundle_Inr [OF persist, unfolded fst_conv, OF assms(1)]
  from finish_record_Inr [OF fin] obtain job where
    job: "job_st job = Succeeded" "job_phase job = case_st (result_case result)"
      "job_attempt job = job_attempt (snap_job (rec_snapshot r))"
    and completed: "snap_case (rec_snapshot completed) = result_case result" "snap_job (rec_snapshot completed) = job"
      "snap_result (rec_snapshot completed) = Some (RepositoryOutcome result)" "rec_tenant completed = rec_tenant r"
      "rec_case_id completed = rec_case_id r" by auto
  have stored: "has_bundle db' (rec_tenant completed) (rec_case_id completed) \<and>
      (\<exists>bytes a. repository_bundle_bytes h R result = Inr bytes \<and> a \<in> set (published db') \<and>
        ar_tenant a = msg_tenant m \<and> ar_case a = msg_case_id m \<and> ar_sha256 a = sha256_hex h bytes)"
    if verified: "claims_verified completed"
  proof -
    have "case_st (result_case result) = Verified" using verified job completed by (auto simp: claims_verified_def)
    then have "summary_status (result_summary result) = StatusVerified"
      using p by (cases "summary_status (result_summary result)") (auto simp: proof_result_ok_def proof_refined_def)
    then have "result_bundle result \<noteq> None" using p by (simp add: proof_result_ok_def proof_refined_def Let_def)
    from kept(3) [OF this] obtain bytes a d where
      d: "repository_bundle_bytes h R result = Inr bytes"
        "repository_bundle_descriptor h days bytes (rec_case_id r) (rec_created_at r) (rec_tenant r) = Inr d"
      and a: "a \<in> set (published db')" "row_descriptor a = Inr d" by blast
    have d_fields: "des_kind d = BundleArtifact" "des_tenant d = rec_tenant r" "des_case d = rec_case_id r"
      "des_sha256 d = sha256_hex h bytes"
      using d(2) by (auto simp: repository_bundle_descriptor_def bundle_descriptor_def as_error_def parse_as_def
          and_then_def Let_def split: sum.splits if_splits)
    have "des_tenant d = ar_tenant a \<and> des_case d = ar_case a \<and> des_sha256 d = ar_sha256 a"
      using a(2) by (auto simp: row_descriptor_def parse_as_def Let_def split: if_splits)
    with published_bundle [OF a d_fields(1)] d_fields d(1) a(1) completed claim show ?thesis
      by (auto simp: claim_matches_def)
  qed
  from claim p completed job kept(1,2) stored show ?thesis
    by (intro exI [of _ result]) (simp add: claim_matches_def only_artifacts_def)
qed

theorem verified_work_is_stored_witness:
  "\<exists>bytes b. fst (repository_execute plain_host sample_times one_ratio memory_blobs 30 (\<lambda>_ _ _. Inr verified_proof)
     1500 2000 sample_lease sample_message source_record (reserved_store, Map.empty)) = Inr worked_record \<and>
   has_bundle (worked_store bytes) ''t'' ''c'' \<and> artifacts_ok (worked_store bytes)"
proof -
  obtain bytes b where work: "repository_execute plain_host sample_times one_ratio memory_blobs 30
      (\<lambda>_ _ _. Inr verified_proof) 1500 2000 sample_lease sample_message source_record (reserved_store, Map.empty) =
      (Inr worked_record, (worked_store bytes, b))" by (rule work_sample)
  moreover have "claims_verified worked_record" and "rec_tenant worked_record = ''t''" and "rec_case_id worked_record = ''c''"
    by (simp_all add: claims_verified_def worked_record_def verified_proof_def source_record_def claimed_record_def
        durable_sample_def)
  ultimately show ?thesis using verified_work_is_stored [OF sample_artifacts_ok work] by auto
qed

text \<open>A record that a query finds is valid and is the scope's own.\<close>

lemma row_record_valid:
  "row_to_record h T (i, c, j) = Inr r \<Longrightarrow> durable_record_ok h T False r \<and> rec_tenant r = ir_tenant i \<and>
     rec_caller r = ir_caller i \<and> rec_case_id r = cr_id c \<and> rec_job_id r = ir_job i \<and>
     rec_idempotency_key r = ir_key i"
  by (auto simp: row_to_record_def and_then_Inr_iff parse_as_def row_record_def Let_def split: if_splits)

lemma find_durable_Some:
  assumes "find_durable h T cond db = Inr (Some r, db')"
  shows "db' = db \<and> (\<exists>i c j. i \<in> set (st_keys db) \<and> cond (i, c, j) \<and> cr_id c = ir_case i \<and> jr_id j = ir_job i \<and>
    row_to_record h T (i, c, j) = Inr r)"
proof -
  from assms obtain row rows where rows: "durable_rows cond db = row # rows" and
    r: "row_to_record h T row = Inr r" "db' = db"
    by (auto simp: find_durable_def and_then_Inr_iff split: list.splits)
  have "row \<in> set (durable_rows cond db)" using rows by simp
  with r show ?thesis by (auto simp: durable_rows_def)
qed

lemma found_by_case:
  assumes "find_by_case_id h T scope cid db = Inr (Some r, db')"
  obtains i where "db' = db" and "durable_record_ok h T False r" and "rec_case_id r = cid" and "tenant_scope_ok scope"
    and "i \<in> set (st_keys db)" and "ir_tenant i = scope_tenant scope" and "ir_caller i = scope_caller scope"
    and "ir_case i = cid" and "rec_tenant r = scope_tenant scope" and "rec_caller r = scope_caller scope"
proof -
  from assms have scope: "tenant_scope_ok scope" and
    found: "find_durable h T (\<lambda>(i, c, j). scope_of scope (i, c, j) \<and> cr_id c = cid) db = Inr (Some r, db')"
    by (auto simp: find_by_case_id_def then_q_def lift_q_def and_then_Inr_iff parse_as_def split: if_splits)
  from find_durable_Some [OF found] obtain i c j where "db' = db" and "i \<in> set (st_keys db)"
    and "scope_of scope (i, c, j)" and "cr_id c = cid" "cr_id c = ir_case i" and row: "row_to_record h T (i, c, j) = Inr r"
    by auto
  with row_record_valid [OF row] scope that show ?thesis by (simp add: scope_of_def)
qed


text \<open>
  C21. What the repository service returns for a case is a well-formed snapshot of that case, of a
  repository, held under a key of the principal's own tenant and caller; reading changes no table.
\<close>

theorem repository_reads_are_typed:
  assumes "get_repository_reproduction h T p cid db = (Inr snap, db')"
  shows "snapshot_ok h T snap \<and> case_id (snap_case snap) = cid \<and> job_case_id (snap_job snap) = cid \<and>
    snap_source snap \<noteq> None \<and> \<not> snap_sample snap \<and> db' = db \<and>
    (\<exists>i \<in> set (st_keys db). ir_tenant i = principal_tenant p \<and> ir_caller i = principal_caller p \<and> ir_case i = cid)"
proof -
  from assms obtain r where found: "find_by_case_id h T (principal_scope p) cid db = Inr (Some r, db')"
    and snap: "snap = rec_snapshot r" "snap_source snap \<noteq> None" "snapshot_ok h T snap"
    by (auto simp: get_repository_reproduction_def then_s_def stored_def throw_s_def lift_s_def parse_as_def
        split: sum.splits prod.splits option.splits if_splits)
  from found_by_case [OF found] obtain i where "db' = db" "durable_record_ok h T False r" "rec_case_id r = cid"
    "i \<in> set (st_keys db)" "ir_tenant i = principal_tenant p" "ir_caller i = principal_caller p" "ir_case i = cid"
    by (auto simp: principal_scope_def)
  with snap show ?thesis by (auto simp: durable_record_ok_def Let_def snapshot_ok_def)
qed

lemma get_repository_found:
  assumes "find_by_case_id h T (principal_scope p) cid db = Inr (Some r, db)"
    and "snap_source (rec_snapshot r) \<noteq> None"
  shows "get_repository_reproduction h T p cid db = (Inr (rec_snapshot r), db)"
proof -
  have "durable_record_ok h T False r" using assms(1) by (rule found_by_case)
  then have "snapshot_ok h T (rec_snapshot r)" by (simp add: durable_record_ok_def Let_def)
  with assms show ?thesis
    by (auto simp: get_repository_reproduction_def then_s_def stored_def as_error_def lift_s_def parse_as_def)
qed

text \<open>
  C13. After a worker has finished a verified proof over a blob service that keeps what it is given,
  the export of the case, from any store that holds the record and the artifacts, returns exactly
  the bundle and the files of that proof.
\<close>

theorem verified_bundle_is_exported:
  assumes service: "answers_head S content etag" "answers_get S content" "answers_put S content"
    and tables: "tenant_active db (rec_tenant r)" "(rec_tenant r, rec_case_id r) \<in> case_key ` set (st_cases db)"
    and work: "repository_execute h T R S days exec put_ms now_ms lease m r (db, b) = (Inr completed, (db1, b1))"
    and proof_res: "exec lease m r = Inr result" "result_bundle result = Some bundle"
    and bytes: "repository_bundle_bytes h R result = Inr bytes"
    and descriptor: "repository_bundle_descriptor h days bytes (rec_case_id r) (rec_created_at r) (rec_tenant r) = Inr d"
    and fresh: "new_identity d db" "content b (des_key d) = None" "rec_created_at r \<le> put_ms"
      "len_in 1 512 (canonical_etag (etag bytes))"
    and created: "case_created_at (result_case result) = rec_created_at r"
    and found: "find_by_case_id h T (principal_scope p) (rec_case_id r) db2 = Inr (Some kept, db2)"
    and kept: "rec_snapshot kept = rec_snapshot completed" "rec_tenant kept = rec_tenant r"
      "st_artifacts db2 = st_artifacts db1"
  shows "fst (export_repository_bundle h T R S days p (rec_case_id r) (db2, b1)) =
    Inr \<lparr>exp_bundle = bundle, exp_case = rec_case_id r, exp_files = result_files result\<rparr>"
proof -
  from repository_execute_Inr [OF work] obtain source result' where
    source: "snap_source (rec_snapshot r) = Some source" and
    parts: "proof_for h T (exec lease m r) r source = Inr result'"
      "persist_bundle h R S days put_ms result' r (db, b) = (Inr (), (db1, b1))"
      "finish_record r (result_case result') (RepositoryOutcome result')
        (max now_ms (max (case_updated_at (result_case result')) (job_updated_at (snap_job (rec_snapshot r))))) = Inr completed" .
  have same: "result' = result" using proof_for_Inr [OF parts(1)] proof_res(1) by simp
  note proved = parts(1) [unfolded same] and persist = parts(2) [unfolded same] and fin = parts(3) [unfolded same]
  note ok = proof_for_Inr [OF proved]
  have d_fields: "descriptor_ok d" "des_tenant d = rec_tenant r" "des_case d = rec_case_id r" "des_created d = rec_created_at r"
    "des_bytes d = int (length bytes)" "des_sha256 d = sha256_hex h bytes"
    using descriptor by (auto simp: repository_bundle_descriptor_def bundle_descriptor_def as_error_def parse_as_def
        and_then_Inr_iff Let_def split: sum.splits if_splits)
  then have valid: "validate_put h bytes d" by (simp add: validate_put_def)
  obtain b' where b': "content b' = (content b)(des_key d \<mapsto> bytes)" and put: "put_artifact h S put_ms bytes d (db, b) =
      (Inr d, (db\<lparr>st_artifacts := stored_row put_ms d (canonical_etag (etag bytes)) # st_artifacts db\<rparr>, b'))"
    using put_artifact_new [OF service(1,3) valid _ _ fresh(1,2) _ fresh(4), of put_ms] tables fresh(3) d_fields by auto
  with persist proof_res bytes descriptor have after: "b1 = b'"
    "st_artifacts db2 = stored_row put_ms d (canonical_etag (etag bytes)) # st_artifacts db"
    by (auto simp: persist_bundle_def kept(3) d_fields(1))
  have snap: "snap_case (rec_snapshot kept) = result_case result" "snap_result (rec_snapshot kept) = Some (RepositoryOutcome result)"
    "snap_source (rec_snapshot kept) = Some source"
    using finish_record_Inr [OF fin] source by (auto simp: kept(1))
  from found_by_case [OF found] obtain i where key: "i \<in> set (st_keys db2)" "ir_tenant i = scope_tenant (principal_scope p)"
    "ir_caller i = scope_caller (principal_scope p)" "ir_case i = rec_case_id r"
    and scope: "tenant_scope_ok (principal_scope p)" "rec_tenant r = scope_tenant (principal_scope p)"
    by (auto simp: kept(2))
  have "read_artifact h S (principal_scope p) (des_id d) (db2, b1) = (Inr (Some (bytes, d)), (db2, b1))"
  proof (rule read_stored_row [OF service(1,2) valid _ scope(1) _ _ after(2)])
    show "\<exists>i \<in> set (st_keys db2). ir_tenant i = des_tenant d \<and> ir_case i = des_case d \<and>
        ir_caller i = scope_caller (principal_scope p)" using key scope(2) d_fields by auto
  qed (use b' after(1) scope(2) d_fields in simp_all)
  moreover have "summary_status (result_summary result) = StatusVerified" and "repro_bundle_ok h (datetime_text T) bundle"
    using ok proof_res(2) by (simp_all add: proof_result_ok_def proof_refined_def Let_def)
  moreover have "rec_case_id r \<noteq> []"
  proof -
    have "durable_record_ok h T False kept" and "rec_case_id kept = rec_case_id r" using found_by_case [OF found] by auto
    then show ?thesis by (auto simp: durable_record_ok_def Let_def snapshot_ok_def repro_case_ok_def)
  qed
  ultimately show ?thesis
    using get_repository_found [OF found] snap proof_res bytes descriptor ok created scope(2)
    by (simp add: export_repository_bundle_def exported_def export_result_ok_def parse_as_def principal_scope_def)
qed


text \<open>
  C20. A start whose key names a finished case runs nothing: with the same request it answers with
  the stored snapshot as reused, with another it is refused as a conflict; the store, the outbox
  included, stays as it is, whatever the publisher and the consumer would do.
\<close>

theorem finished_start_is_answered_again:
  assumes valid: "repository_start_ok h i" "resolve_immutable_source (ctx_resolve ctx) (rst_request i) = Inr source"
    and q: "q = \<lparr>request_issue = rst_issue i, request_oracle = rst_oracle i, request_profile = rst_profile i,
      request_source = source\<rparr>" "execution_request_ok h q"
    and hash: "repository_command_hash h (rst_budget i) q = Inr hash"
    and found: "find_by_idempotency_key h T (principal_scope p) (rst_key i) db = Inr (Some r, db)"
    and finished: "terminal_record r"
  shows "start_repository_reproduction h T ctx p i db =
    (if rec_command_hash r = hash then Inr \<lparr>res_reused = True, res_snapshot = rec_snapshot r\<rparr> else Inl DurConflict, db)"
proof -
  from found have "find_durable h T (\<lambda>(k, c, j). scope_of (principal_scope p) (k, c, j) \<and> ir_key k = rst_key i) db =
      Inr (Some r, db)"
    by (auto simp: find_by_idempotency_key_def then_q_def lift_q_def and_then_Inr_iff parse_as_def split: if_splits)
  from find_durable_Some [OF this] have "durable_record_ok h T False r" using row_record_valid by blast
  then have "snapshot_ok h T (rec_snapshot r)" by (simp add: durable_record_ok_def Let_def)
  with assms show ?thesis
    by (simp add: start_repository_reproduction_def start_by_key_def continue_start_def answer_start_def then_s_def
        stored_def return_s_def throw_s_def lift_s_def as_error_def parse_as_def)
qed

definition export_store :: "string \<Rightarrow> store" where
  "export_store bytes = (worked_store bytes)\<lparr>st_cases := [new_case_row worked_record],
     st_jobs := [new_job_row worked_record], st_keys := [new_key_row worked_record]\<rparr>"

definition sample_principal :: principal where
  "sample_principal = \<lparr>principal_caller = ''u'', principal_id = ''u'', principal_tenant = ''t''\<rparr>"

lemma worked_rows:
  "durable_rows cond (export_store bytes) = filter cond
     [(new_key_row worked_record, new_case_row worked_record, new_job_row worked_record)]"
  by (simp add: durable_rows_def export_store_def new_key_row_def new_case_row_def new_job_row_def Let_def
      worked_record_def source_record_def claimed_record_def durable_sample_def)

lemma worked_row_record:
  "row_to_record plain_host sample_times
     (new_key_row worked_record, new_case_row worked_record, new_job_row worked_record) =
   Inr (worked_record\<lparr>rec_version := 1\<rparr>)"
proof -
  let ?r = "worked_record\<lparr>rec_version := 1\<rparr>"
  have request: "execution_request_ok plain_host \<lparr>request_issue = None, request_oracle = cli_spaces_oracle,
      request_profile = sample_profile, request_source = sample_source\<rparr>"
    using sample_source_ok sample_profile_ok cli_spaces_oracle_ok [of plain_host] by (simp add: execution_request_ok_def)
  have snap: "snapshot_ok plain_host sample_times (rec_snapshot worked_record)"
    using verified_proof_ok sample_source_ok
    by (simp add: snapshot_ok_def worked_record_def source_record_def claimed_record_def durable_sample_def
        reproduction_job_ok_def valid_instant_def date_range_def)
      (simp add: proof_result_ok_def)
  have ok: "durable_record_ok plain_host sample_times False ?r"
    using snap request
    by (simp add: durable_record_ok_def Let_def)
      (simp add: worked_record_def source_record_def claimed_record_def durable_sample_def tenant_scope_ok_def text_checks
        date_range_def zero_hash same_source_def sample_budget_ok_def safe_int_def max_safe_integer_def verified_proof_def)
  then show ?thesis
    using snap request
    by (simp add: row_to_record_def new_key_row_def new_case_row_def new_job_row_def Let_def row_job_def
        run_query stored_failure_def stored_timestamp_def row_record_def record_domain_def record_descriptor_def
        worked_record_def source_record_def claimed_record_def durable_sample_def)
qed

lemma find_worked:
  shows "find_by_case_id plain_host sample_times (principal_scope sample_principal) ''c'' (export_store bytes) =
     Inr (Some (worked_record\<lparr>rec_version := 1\<rparr>), export_store bytes)"
    and "find_by_idempotency_key plain_host sample_times (principal_scope sample_principal) ''k'' (export_store bytes) =
     Inr (Some (worked_record\<lparr>rec_version := 1\<rparr>), export_store bytes)"
proof -
  have scope: "tenant_scope_ok (principal_scope sample_principal)"
    by (simp add: tenant_scope_ok_def principal_scope_def sample_principal_def text_checks)
  have own: "scope_of (principal_scope sample_principal)
      (new_key_row worked_record, new_case_row worked_record, new_job_row worked_record)"
    "cr_id (new_case_row worked_record) = ''c''" "ir_key (new_key_row worked_record) = ''k''"
    by (simp_all add: scope_of_def principal_scope_def sample_principal_def new_key_row_def new_case_row_def
        worked_record_def source_record_def claimed_record_def durable_sample_def)
  show "find_by_case_id plain_host sample_times (principal_scope sample_principal) ''c'' (export_store bytes) =
     Inr (Some (worked_record\<lparr>rec_version := 1\<rparr>), export_store bytes)"
    using scope own worked_row_record
    by (simp add: find_by_case_id_def then_q_def lift_q_def parse_as_def find_durable_def worked_rows)
  show "find_by_idempotency_key plain_host sample_times (principal_scope sample_principal) ''k'' (export_store bytes) =
     Inr (Some (worked_record\<lparr>rec_version := 1\<rparr>), export_store bytes)"
    using scope own worked_row_record
    by (simp add: find_by_idempotency_key_def then_q_def lift_q_def parse_as_def find_durable_def worked_rows)
qed

theorem repository_reads_are_typed_witness:
  "get_repository_reproduction plain_host sample_times sample_principal ''c'' (export_store ''abc'') =
     (Inr (rec_snapshot worked_record), export_store ''abc'') \<and>
   snapshot_ok plain_host sample_times (rec_snapshot worked_record)"
proof -
  have read: "get_repository_reproduction plain_host sample_times sample_principal ''c'' (export_store ''abc'') =
     (Inr (rec_snapshot worked_record), export_store ''abc'')"
    using get_repository_found [OF find_worked(1)] by (simp add: worked_record_def source_record_def)
  with repository_reads_are_typed [OF read] show ?thesis by blast
qed

theorem verified_bundle_is_exported_witness:
  "\<exists>bytes b. fst (export_repository_bundle plain_host sample_times one_ratio memory_blobs 30 sample_principal ''c''
     (export_store bytes, b)) =
     Inr \<lparr>exp_bundle = stored_bundle, exp_case = ''c'', exp_files = [(''README.md'', ''Run it.'')]\<rparr>"
proof -
  obtain bytes b where len: "length bytes \<le> 1000000"
    and bytes: "repository_bundle_bytes plain_host one_ratio verified_proof = Inr bytes"
    and work: "repository_execute plain_host sample_times one_ratio memory_blobs 30 (\<lambda>_ _ _. Inr verified_proof)
      1500 2000 sample_lease sample_message source_record (reserved_store, Map.empty) =
      (Inr worked_record, (worked_store bytes, b))" by (rule work_sample)
  have claimed: "rec_case_id source_record = ''c''" "rec_tenant source_record = ''t''" "rec_created_at source_record = 0"
    by (simp_all add: source_record_def claimed_record_def durable_sample_def)
  have proved: "result_bundle verified_proof = Some stored_bundle" "result_files verified_proof = [(''README.md'', ''Run it.'')]"
    "case_created_at (result_case verified_proof) = 0" by (simp_all add: verified_proof_def)
  have "fst (export_repository_bundle plain_host sample_times one_ratio memory_blobs 30 sample_principal
      (rec_case_id source_record) (export_store bytes, b)) =
      Inr \<lparr>exp_bundle = stored_bundle, exp_case = rec_case_id source_record, exp_files = result_files verified_proof\<rparr>"
  proof (rule verified_bundle_is_exported [OF memory_blobs_answer _ _ work _ proved(1) bytes])
    show "repository_bundle_descriptor plain_host 30 bytes (rec_case_id source_record) (rec_created_at source_record)
        (rec_tenant source_record) = Inr (stored_descriptor bytes)"
      using stored_descriptor_ok(2) [OF len] claimed by simp
    show "find_by_case_id plain_host sample_times (principal_scope sample_principal) (rec_case_id source_record)
        (export_store bytes) = Inr (Some (worked_record\<lparr>rec_version := 1\<rparr>), export_store bytes)"
      using find_worked(1) claimed(1) by simp
  qed (simp_all add: proved claimed tenant_active_def reserved_store_def sample_store_def case_key_def new_case_row_def
      durable_sample_def new_identity_def sample_etag len_in_def export_store_def worked_record_def)
  with claimed(1) proved(2) show ?thesis by auto
qed

definition sample_repository_start :: repository_start where
  "sample_repository_start =
     \<lparr>rst_budget = \<lparr>sample_tool_calls = 6, sample_required_runs = 3\<rparr>, rst_key = ''k'',
      rst_request = \<lparr>requested_commit = source_commit sample_source, requested_repository_id = ''1''\<rparr>, rst_issue = None,
      rst_oracle = cli_spaces_oracle, rst_profile = sample_profile\<rparr>"

definition sample_context :: "quota_limits \<Rightarrow> durable_env \<Rightarrow> start_context" where
  "sample_context limits env =
     \<lparr>ctx_resolve = (\<lambda>_. Inr \<lparr>resolved_commit = source_commit sample_source, resolved_full_name = ''o/r'',
        resolved_private = False, resolved_repository_id = ''1''\<rparr>), ctx_admission = (\<lambda>_. None),
      ctx_limits = limits, ctx_env = env, ctx_inline = True, ctx_now = 5000, ctx_case_id = ''c2'',
      ctx_job_id = ''j2''\<rparr>"

definition sample_start_json :: json where
  "sample_start_json = JObj
     [(''budget'', JObj [(''maxToolCalls'', JNum (int_text 6)), (''requiredRuns'', JNum (int_text 3))]),
       (''repositoryRequest'', JObj [(''oracle'', oracle_json cli_spaces_oracle),
         (''profile'', JObj [(''controlScript'', JStr ''control''), (''ecosystem'', JStr ''node''),
           (''lockfile'', JStr ''package-lock.json''), (''nodeVersion'', JStr ''22''), (''packageManager'', JStr ''npm''),
           (''reproductionScript'', JStr ''reproduce'')]),
         (''source'', JObj [(''commitSha'', JStr (source_commit sample_source)), (''fullName'', JStr ''o/r''),
           (''private'', JBool False), (''provider'', JStr ''github''), (''repositoryId'', JStr ''1'')])])]"

theorem finished_start_is_answered_again_witness:
  "\<forall>limits env. start_repository_reproduction plain_host sample_times (sample_context limits env) sample_principal
     sample_repository_start (export_store ''abc'') =
     (Inr \<lparr>res_reused = True, res_snapshot = rec_snapshot worked_record\<rparr>, export_store ''abc'')"
proof (intro allI)
  fix limits :: quota_limits and env :: durable_env
  let ?q = "\<lparr>request_issue = rst_issue sample_repository_start, request_oracle = rst_oracle sample_repository_start,
    request_profile = rst_profile sample_repository_start, request_source = sample_source\<rparr>"
  let ?r = "worked_record\<lparr>rec_version := 1\<rparr>"
  have request: "execution_request_ok plain_host ?q"
    using sample_source_ok sample_profile_ok cli_spaces_oracle_ok [of plain_host]
    by (simp add: execution_request_ok_def sample_repository_start_def)
  have command: "source_request_ok (rst_request sample_repository_start)"
    using sample_source_ok by (simp add: source_request_ok_def sample_repository_start_def repository_source_ok_def sample_source_def)
  have start: "repository_start_ok plain_host sample_repository_start"
    using sample_profile_ok cli_spaces_oracle_ok [of plain_host] command
    by (simp add: repository_start_ok_def sample_repository_start_def len_in_def)
  have resolved: "resolve_immutable_source (ctx_resolve (sample_context limits env)) (rst_request sample_repository_start) =
      Inr sample_source"
    using command sample_source_ok
    by (simp add: resolve_immutable_source_def parse_as_def sample_context_def sample_repository_start_def sample_source_def)
  have hash: "repository_command_hash plain_host (rst_budget sample_repository_start) ?q = Inr (rec_command_hash ?r)"
  proof -
    have "VObj [(''budget'', VObj [(''maxToolCalls'', VNum (int_text 6)), (''requiredRuns'', VNum (int_text 3))]),
        (''repositoryRequest'', request_value ?q)] = value_of_json sample_start_json"
      by (simp add: sample_start_json_def request_value_def optional_member_def sample_repository_start_def
          sample_profile_def sample_source_def)
    moreover obtain t where "hash_canonical plain_host (value_of_json sample_start_json) =
      Inr (sha256_hex plain_host t)" using hash_value_of_json by blast
    moreover have "sha256_hex plain_host t = rec_command_hash ?r"
      by (simp add: plain_host_def worked_record_def source_record_def claimed_record_def durable_sample_def)
    ultimately show ?thesis by (simp add: repository_command_hash_def sample_repository_start_def)
  qed
  have found: "find_by_idempotency_key plain_host sample_times (principal_scope sample_principal) (rst_key sample_repository_start)
      (export_store ''abc'') = Inr (Some ?r, export_store ''abc'')"
    using find_worked(2) by (simp add: sample_repository_start_def)
  have "terminal_record ?r" by (simp add: terminal_record_def worked_record_def)
  from finished_start_is_answered_again [OF start resolved refl request hash found this]
  show "start_repository_reproduction plain_host sample_times (sample_context limits env) sample_principal
     sample_repository_start (export_store ''abc'') =
     (Inr \<lparr>res_reused = True, res_snapshot = rec_snapshot worked_record\<rparr>, export_store ''abc'')" by simp
qed

end
