(* ===== verification/Access.thy ===== *)
theory Access
  imports Runner Tables "HOL-Library.List_Lexorder" "HOL-Library.Char_ord"
begin

text \<open>
  Access over HTTP: the verifier of access tokens, src/src/auth/access-token-verifier.ts, the
  authorization of a principal, src/src/application/authorization.ts with the directory of
  postgres-principal-directory.ts, the challenge of src/src/auth/challenge.ts and the authorizer
  that composes them, src/src/auth/repository-api-authorizer.ts. The functions of the jose library
  and the answers of the authorization server are parameters.
\<close>

section \<open>Scopes\<close>

datatype oauth_scope = AccountDelete | BundlesRead | CasesRead | CasesWrite | RepositoriesRead

fun scope_text :: "oauth_scope \<Rightarrow> string" where
  "scope_text AccountDelete = ''reproforge:account:delete''"
| "scope_text BundlesRead = ''reproforge:bundles:read''"
| "scope_text CasesRead = ''reproforge:cases:read''"
| "scope_text CasesWrite = ''reproforge:cases:write''"
| "scope_text RepositoriesRead = ''reproforge:repositories:read''"

lemma scope_text_eq_iff [simp]: "scope_text a = scope_text b \<longleftrightarrow> a = b"
  by (cases a; cases b) simp_all

text \<open>Scopes are sorted as their texts are.\<close>

instantiation oauth_scope :: linorder
begin

definition less_eq_oauth_scope :: "oauth_scope \<Rightarrow> oauth_scope \<Rightarrow> bool" where
  "less_eq_oauth_scope a b \<longleftrightarrow> scope_text a \<le> scope_text b"

definition less_oauth_scope :: "oauth_scope \<Rightarrow> oauth_scope \<Rightarrow> bool" where
  "less_oauth_scope a b \<longleftrightarrow> scope_text a < scope_text b"

instance
  by standard (auto simp: less_eq_oauth_scope_def less_oauth_scope_def order_less_le)

end

definition oauth_scopes :: "oauth_scope list" where
  "oauth_scopes = [AccountDelete, BundlesRead, CasesRead, CasesWrite, RepositoriesRead]"

definition scope_named :: "string \<Rightarrow> oauth_scope option" where
  "scope_named t = find (\<lambda>s. scope_text s = t) oauth_scopes"

lemma scope_named_iff: "scope_named t = Some s \<longleftrightarrow> t = scope_text s"
  by (cases s) (auto simp: scope_named_def oauth_scopes_def split: if_splits)

text \<open>The words between the blanks of a text.\<close>

function text_words :: "string \<Rightarrow> string list" where
  "text_words s =
     (let rest = dropWhile space_char s in
      if rest = [] then []
      else takeWhile (\<lambda>c. \<not> space_char c) rest # text_words (dropWhile (\<lambda>c. \<not> space_char c) rest))"
  by auto
termination
proof (relation "measure length")
  fix s rest :: string
  assume "rest = dropWhile space_char s" and "rest \<noteq> []"
  then have "\<not> space_char (hd rest)" using hd_dropWhile by blast
  then have "length (dropWhile (\<lambda>c. \<not> space_char c) rest) < length rest"
    using \<open>rest \<noteq> []\<close> by (cases rest) (auto simp: le_imp_less_Suc length_dropWhile_le)
  with \<open>rest = dropWhile space_char s\<close> show "(dropWhile (\<lambda>c. \<not> space_char c) rest, s) \<in> measure length"
    using length_dropWhile_le [of space_char s] by simp
qed simp

declare text_words.simps [simp del]

section \<open>The configuration and the trust material\<close>

record oauth_config =
  oc_server :: string
  oc_discovery :: string
  oc_metadata :: string
  oc_resource :: string
  oc_scopes :: "oauth_scope list"
  oc_tenant_claim :: string

datatype token_fault = MissingToken | InvalidToken | VerificationUnavailable | ForeignTokenFault

text \<open>The answer of a fetch: it throws, its status is no success, or its body, if it is JSON.\<close>

datatype fetch_reply = FetchThrows | FetchRefused | FetchBody "json option"

record jwk =
  jwk_kid :: string
  jwk_kty :: string
  jwk_alg :: "string option"
  jwk_use :: "string option"
  jwk_data :: json

record jose =
  jose_header :: "string \<Rightarrow> json option"
  jose_import :: "jwk \<Rightarrow> string option"
  jose_verify :: "string \<Rightarrow> string \<Rightarrow> string \<Rightarrow> string \<Rightarrow> int \<Rightarrow> json option"

record token_world =
  tw_jose :: jose
  tw_fetch :: "nat \<Rightarrow> string \<Rightarrow> fetch_reply"
  tw_clock :: "nat \<Rightarrow> int"

record verifier =
  ver_cache :: "(int \<times> jwk list) option"
  ver_fetches :: nat
  ver_reads :: nat

type_synonym 'a verifier_op = "verifier \<Rightarrow> (token_fault + 'a) \<times> verifier"

definition then_v :: "'a verifier_op \<Rightarrow> ('a \<Rightarrow> 'b verifier_op) \<Rightarrow> 'b verifier_op" where
  "then_v m f v = (case m v of (Inl e, v') \<Rightarrow> (Inl e, v') | (Inr x, v') \<Rightarrow> f x v')"

definition lift_v :: "token_fault + 'a \<Rightarrow> 'a verifier_op" where
  "lift_v r v = (r, v)"

definition or_fault :: "token_fault \<Rightarrow> 'a option \<Rightarrow> token_fault + 'a" where
  "or_fault e x = (case x of None \<Rightarrow> Inl e | Some y \<Rightarrow> Inr y)"

definition read_clock :: "token_world \<Rightarrow> int verifier_op" where
  "read_clock w v = (Inr (tw_clock w (ver_reads v)), v\<lparr>ver_reads := ver_reads v + 1\<rparr>)"

text \<open>\<open>fetcher\<close> and \<open>readJson\<close>.\<close>

definition fetch_json :: "token_world \<Rightarrow> string \<Rightarrow> json verifier_op" where
  "fetch_json w url v =
     (case tw_fetch w (ver_fetches v) url of
        FetchThrows \<Rightarrow> Inl ForeignTokenFault
      | FetchRefused \<Rightarrow> Inl VerificationUnavailable
      | FetchBody None \<Rightarrow> Inl ForeignTokenFault
      | FetchBody (Some j) \<Rightarrow> Inr j, v\<lparr>ver_fetches := ver_fetches v + 1\<rparr>)"

section \<open>Discovery\<close>

definition url_origin :: "url \<Rightarrow> string" where
  "url_origin u =
     (if List.member [''https:'', ''http:'', ''wss:'', ''ws:'', ''ftp:''] (url_protocol u)
      then url_protocol u @ ''//'' @ url_hostname u @ (if url_port u = [] then [] else '':'' @ url_port u)
      else ''null'')"

text \<open>The URL schema trims its input.\<close>

definition json_url :: "js_host \<Rightarrow> json \<Rightarrow> string option" where
  "json_url h j =
     Option.bind (json_string j) (\<lambda>s. if parse_url h (js_trim s) = None then None else Some (js_trim s))"

definition json_strings :: "json \<Rightarrow> string list option" where
  "json_strings j = (case j of JArr vs \<Rightarrow> those (map json_string vs) | _ \<Rightarrow> None)"

record discovery =
  dis_authorization :: string
  dis_challenges :: "string list"
  dis_issuer :: string
  dis_jwks :: string
  dis_responses :: "string list"
  dis_token :: string
  dis_token_auth :: "string list"

definition read_discovery :: "js_host \<Rightarrow> json \<Rightarrow> discovery option" where
  "read_discovery h j =
     Option.bind (required ''authorization_endpoint'' (json_url h) j) (\<lambda>authorization.
     Option.bind (required ''code_challenge_methods_supported'' json_strings j) (\<lambda>challenges.
     Option.bind (required ''issuer'' (json_url h) j) (\<lambda>issuer.
     Option.bind (required ''jwks_uri'' (json_url h) j) (\<lambda>jwks.
     Option.bind (required ''response_types_supported'' json_strings j) (\<lambda>responses.
     Option.bind (required ''token_endpoint'' (json_url h) j) (\<lambda>token.
     Option.bind (required ''token_endpoint_auth_methods_supported'' json_strings j) (\<lambda>methods.
       Some \<lparr>dis_authorization = authorization, dis_challenges = challenges, dis_issuer = issuer, dis_jwks = jwks,
         dis_responses = responses, dis_token = token, dis_token_auth = methods\<rparr>)))))))"

definition same_https_origin :: "js_host \<Rightarrow> string \<Rightarrow> string \<Rightarrow> bool" where
  "same_https_origin h value origin \<longleftrightarrow>
     (case parse_url h value of
        None \<Rightarrow> False | Some u \<Rightarrow> url_protocol u = ''https:'' \<and> url_origin u = origin)"

definition validate_discovery :: "js_host \<Rightarrow> oauth_config \<Rightarrow> json \<Rightarrow> token_fault + discovery" where
  "validate_discovery h c j =
     and_then (or_fault VerificationUnavailable (read_discovery h j)) (\<lambda>d.
     if dis_issuer d \<noteq> oc_server c then Inl VerificationUnavailable
     else
       and_then (or_fault ForeignTokenFault (map_option url_origin (parse_url h (oc_server c)))) (\<lambda>origin.
       if \<not> list_all (\<lambda>u. same_https_origin h u origin) [dis_authorization d, dis_token d, dis_jwks d]
       then Inl VerificationUnavailable
       else if \<not> List.member (dis_responses d) ''code'' \<or> \<not> List.member (dis_challenges d) ''S256'' \<or>
         \<not> list_ex (List.member [''none'', ''private_key_jwt'']) (dis_token_auth d)
       then Inl VerificationUnavailable
       else Inr d))"

definition optional_string :: "string \<Rightarrow> json \<Rightarrow> string option option" where
  "optional_string k j =
     (case json_member k j of None \<Rightarrow> Some None | Some v \<Rightarrow> map_option Some (json_string v))"

definition nonempty_string :: "json \<Rightarrow> string option" where
  "nonempty_string j = Option.bind (json_string j) (\<lambda>s. if s = [] then None else Some s)"

definition read_jwk :: "json \<Rightarrow> jwk option" where
  "read_jwk j =
     Option.bind (optional_string ''alg'' j) (\<lambda>alg.
     Option.bind (required ''kid'' nonempty_string j) (\<lambda>kid.
     Option.bind (required ''kty'' nonempty_string j) (\<lambda>kty.
     Option.bind (optional_string ''use'' j) (\<lambda>use.
       Some \<lparr>jwk_kid = kid, jwk_kty = kty, jwk_alg = alg, jwk_use = use, jwk_data = j\<rparr>))))"

definition read_jwks :: "json \<Rightarrow> jwk list option" where
  "read_jwks j =
     (if \<not> strict_object [''keys''] j then None
      else required ''keys'' (\<lambda>v. case v of JArr vs \<Rightarrow> those (map read_jwk vs) | _ \<Rightarrow> None) j)"

definition fetch_trust :: "js_host \<Rightarrow> token_world \<Rightarrow> oauth_config \<Rightarrow> (int \<times> jwk list) verifier_op" where
  "fetch_trust h w c =
     then_v (fetch_json w (oc_discovery c)) (\<lambda>j.
     then_v (lift_v (validate_discovery h c j)) (\<lambda>d.
     then_v (fetch_json w (dis_jwks d)) (\<lambda>keys.
     then_v (lift_v (or_fault VerificationUnavailable (read_jwks keys))) (\<lambda>jwks.
       if jwks = [] then lift_v (Inl VerificationUnavailable)
       else then_v (read_clock w) (\<lambda>t v. (Inr (t, jwks), v\<lparr>ver_cache := Some (t, jwks)\<rparr>))))))"

definition cache_ttl_ms :: int where
  "cache_ttl_ms = 300000"

definition trust_material :: "js_host \<Rightarrow> token_world \<Rightarrow> oauth_config \<Rightarrow> (int \<times> jwk list) verifier_op" where
  "trust_material h w c v =
     (case ver_cache v of
        None \<Rightarrow> fetch_trust h w c v
      | Some cached \<Rightarrow>
          then_v (read_clock w) (\<lambda>t v'.
            if cache_ttl_ms \<le> t - fst cached then fetch_trust h w c v' else (Inr cached, v')) v)"

section \<open>Verifying a token\<close>

definition token_letter :: "char \<Rightarrow> bool" where
  "token_letter c \<longleftrightarrow> alnum_char c \<or> List.member ''_-.'' c"

definition parse_bearer :: "string option \<Rightarrow> token_fault + string" where
  "parse_bearer authorization =
     (case authorization of
        None \<Rightarrow> Inl MissingToken
      | Some header \<Rightarrow>
          if header = [] then Inl MissingToken
          else
            let s = js_trim header; token = drop 7 s in
            if lowercase (take 7 s) = ''bearer '' \<and> token \<noteq> [] \<and> list_all token_letter token
            then Inr token else Inl InvalidToken)"

definition usable_key :: "string \<Rightarrow> jwk \<Rightarrow> bool" where
  "usable_key kid k \<longleftrightarrow>
     jwk_kid k = kid \<and> (jwk_alg k = None \<or> jwk_alg k = Some [] \<or> jwk_alg k = Some ''RS256'') \<and>
     (jwk_use k = None \<or> jwk_use k = Some [] \<or> jwk_use k = Some ''sig'')"

definition token_kid :: "jose \<Rightarrow> string \<Rightarrow> token_fault + string" where
  "token_kid J token =
     and_then (or_fault ForeignTokenFault (jose_header J token)) (\<lambda>header.
     if json_member ''alg'' header \<noteq> Some (JStr ''RS256'') then Inl InvalidToken
     else or_fault InvalidToken (required ''kid'' nonempty_string header))"

definition signing_key :: "js_host \<Rightarrow> token_world \<Rightarrow> oauth_config \<Rightarrow> string \<Rightarrow> string verifier_op" where
  "signing_key h w c token =
     then_v (lift_v (token_kid (tw_jose w) token)) (\<lambda>kid.
     then_v (trust_material h w c) (\<lambda>material.
     then_v (case find (usable_key kid) (snd material) of
         Some k \<Rightarrow> lift_v (Inr k)
       | None \<Rightarrow> then_v (fetch_trust h w c) (\<lambda>again.
           lift_v (or_fault InvalidToken (find (usable_key kid) (snd again))))) (\<lambda>k.
       lift_v (or_fault ForeignTokenFault (jose_import (tw_jose w) k)))))"

record verified_token =
  tok_expires :: string
  tok_issuer :: string
  tok_scopes :: "oauth_scope list"
  tok_subject :: string
  tok_tenant :: string

definition trimmed_claim :: "string \<Rightarrow> json \<Rightarrow> string" where
  "trimmed_claim k payload = (case json_member k payload of Some (JStr s) \<Rightarrow> js_trim s | _ \<Rightarrow> [])"

definition granted_scopes :: "string \<Rightarrow> oauth_scope list" where
  "granted_scopes raw = sort (List.map_filter scope_named (remdups (text_words raw)))"

definition verified_identity :: "oauth_config \<Rightarrow> json \<Rightarrow> token_fault + verified_token" where
  "verified_identity c payload =
     (let subject = trimmed_claim ''sub'' payload; tenant = trimmed_claim (oc_tenant_claim c) payload in
      case (json_member ''exp'' payload, json_member ''scope'' payload) of
        (Some (JNum expires), Some (JStr raw)) \<Rightarrow>
          if subject = [] \<or> tenant = [] \<or> granted_scopes raw = [] then Inl InvalidToken
          else Inr \<lparr>tok_expires = expires, tok_issuer = oc_server c, tok_scopes = granted_scopes raw,
            tok_subject = subject, tok_tenant = tenant\<rparr>
      | _ \<Rightarrow> Inl InvalidToken)"

definition known_fault :: "token_fault + 'a \<Rightarrow> token_fault + 'a" where
  "known_fault r = (case r of Inl ForeignTokenFault \<Rightarrow> Inl InvalidToken | _ \<Rightarrow> r)"

definition verify_token :: "js_host \<Rightarrow> token_world \<Rightarrow> oauth_config \<Rightarrow> string option \<Rightarrow> verified_token verifier_op" where
  "verify_token h w c authorization v =
     (case then_v (lift_v (parse_bearer authorization)) (\<lambda>token.
         then_v (signing_key h w c token) (\<lambda>key.
         then_v (read_clock w) (\<lambda>t.
         then_v (lift_v (or_fault ForeignTokenFault
           (jose_verify (tw_jose w) token key (oc_server c) (oc_resource c) t))) (\<lambda>payload.
           lift_v (verified_identity c payload))))) v of
        (r, v') \<Rightarrow> (known_fault r, v'))"

section \<open>The directory of principals\<close>

record principal_row =
  pr_id :: string
  pr_tenant :: string
  pr_issuer :: string
  pr_subject :: string

record principal_record =
  mapped_principal :: string
  mapped_status :: tenant_status
  mapped_tenant :: string

definition lookup_ok :: "js_host \<Rightarrow> string \<Rightarrow> string \<Rightarrow> bool" where
  "lookup_ok h issuer subject \<longleftrightarrow>
     parse_url h (js_trim issuer) \<noteq> None \<and> length (js_trim issuer) \<le> 512 \<and> len_in 1 512 subject"

text \<open>The join of the principals with their tenants.\<close>

definition mapped_principals ::
  "principal_row list \<Rightarrow> (string \<times> tenant_status) list \<Rightarrow> string \<Rightarrow> string \<Rightarrow> principal_record list" where
  "mapped_principals principals tenants issuer subject =
     [\<lparr>mapped_principal = pr_id p, mapped_status = snd t, mapped_tenant = pr_tenant p\<rparr>.
        p \<leftarrow> principals, t \<leftarrow> tenants, fst t = pr_tenant p \<and> pr_issuer p = issuer \<and> pr_subject p = subject]"

definition resolve_principal ::
  "js_host \<Rightarrow> principal_row list \<Rightarrow> (string \<times> tenant_status) list \<Rightarrow> string \<Rightarrow> string
     \<Rightarrow> unit + principal_record option" where
  "resolve_principal h principals tenants issuer subject =
     (if \<not> lookup_ok h issuer subject then Inl ()
      else
        (case mapped_principals principals tenants (js_trim issuer) subject of
           [r] \<Rightarrow> Inr (if opaque_id (mapped_principal r) \<and> opaque_id (mapped_tenant r) then Some r else None)
         | _ \<Rightarrow> Inr None))"

section \<open>Authorization\<close>

datatype access_fault =
    TokenFault token_fault
  | InvalidPrincipal
  | InsufficientScope "oauth_scope list"
  | ForeignAccessFault

definition canonical_scopes :: "oauth_scope list \<Rightarrow> access_fault + oauth_scope list" where
  "canonical_scopes scopes = (if scopes = [] then Inl ForeignAccessFault else Inr (sort (remdups scopes)))"

text \<open>The directory is a parameter; \<open>Inl ()\<close> is a lookup that throws.\<close>

definition authorized_principal ::
  "(string \<Rightarrow> string \<Rightarrow> unit + principal_record option) \<Rightarrow> oauth_scope list \<Rightarrow> verified_token
     \<Rightarrow> access_fault + principal" where
  "authorized_principal directory scopes token =
     and_then (canonical_scopes scopes) (\<lambda>needed.
       case directory (tok_issuer token) (tok_subject token) of
         Inl _ \<Rightarrow> Inl ForeignAccessFault
       | Inr None \<Rightarrow> Inl InvalidPrincipal
       | Inr (Some r) \<Rightarrow>
           if mapped_status r \<noteq> TenantActive \<or> mapped_tenant r \<noteq> tok_tenant token then Inl InvalidPrincipal
           else
             let missing = filter (\<lambda>s. \<not> List.member (tok_scopes token) s) needed in
             if missing \<noteq> [] then Inl (InsufficientScope missing)
             else Inr \<lparr>principal_caller = mapped_principal r, principal_id = mapped_principal r,
               principal_tenant = mapped_tenant r\<rparr>)"

section \<open>The challenge\<close>

text \<open>Each maximal run of characters of a kind becomes one text.\<close>

function replace_runs :: "(char \<Rightarrow> bool) \<Rightarrow> string \<Rightarrow> string \<Rightarrow> string" where
  "replace_runs P new [] = []"
| "replace_runs P new (c # s) =
     (if P c then new @ replace_runs P new (dropWhile P s) else c # replace_runs P new s)"
  by pat_completeness auto
termination
  by (relation "measure (\<lambda>(P, new, s). length s)") (auto simp: le_imp_less_Suc length_dropWhile_le)

text \<open>What follows \<open>Authorization: Bearer\<close> and a credential at the start of a text.\<close>

definition after_credential :: "string \<Rightarrow> string option" where
  "after_credential s =
     (if lowercase (take 14 s) \<noteq> ''authorization:'' then None
      else
        let scheme = dropWhile space_char (drop 14 s); rest = drop 6 scheme;
            credential = dropWhile space_char rest; part = (\<lambda>c. \<not> space_char c \<and> c \<noteq> CHR 0x22) in
        if lowercase (take 6 scheme) \<noteq> ''bearer'' \<or> credential = rest \<or> takeWhile part credential = [] then None
        else Some (dropWhile part credential))"

lemma after_credential_shorter: "after_credential s = Some rest \<Longrightarrow> length rest < length s"
proof -
  assume a: "after_credential s = Some rest"
  then have "lowercase (take 14 s) = ''authorization:''" by (simp add: after_credential_def split: if_splits)
  then have "length (lowercase (take 14 s)) = 14" by simp
  then have long: "14 \<le> length s" by (simp add: lowercase_def)
  have aux: "length (dropWhile P (dropWhile Q (drop n (dropWhile Q t)))) \<le> length t" for P Q n and t :: string
    using length_dropWhile_le [of P "dropWhile Q (drop n (dropWhile Q t))"]
      length_dropWhile_le [of Q "drop n (dropWhile Q t)"] length_dropWhile_le [of Q t] by simp
  have "length rest \<le> length s - 14"
    using a aux [of "\<lambda>c. \<not> space_char c \<and> c \<noteq> CHR 0x22" space_char 6 "drop 14 s"]
    by (auto simp: after_credential_def Let_def split: if_splits)
  then show ?thesis using long by simp
qed

function hide_credentials :: "string \<Rightarrow> string" where
  "hide_credentials s =
     (case after_credential s of
        Some rest \<Rightarrow> ''Authorization: [REDACTED]'' @ hide_credentials rest
      | None \<Rightarrow> (case s of [] \<Rightarrow> [] | c # t \<Rightarrow> c # hide_credentials t))"
  by auto
termination
  by (relation "measure length") (auto simp: after_credential_shorter)

declare hide_credentials.simps [simp del]

definition sanitize_description :: "string \<Rightarrow> string" where
  "sanitize_description value =
     take 180 (js_trim (replace_runs space_char '' ''
       (filter (\<lambda>c. \<not> (code_unit c < 32 \<or> code_unit c = 127))
         (filter (\<lambda>c. c \<noteq> CHR 0x22 \<and> c \<noteq> CHR 0x5C)
           (hide_credentials (replace_runs (\<lambda>c. code_unit c \<in> {9, 10, 13}) '' '' value))))))"

datatype challenge_error = InvalidTokenChallenge | InsufficientScopeChallenge

fun challenge_error_text :: "challenge_error \<Rightarrow> string" where
  "challenge_error_text InvalidTokenChallenge = ''invalid_token''"
| "challenge_error_text InsufficientScopeChallenge = ''insufficient_scope''"

definition quoted_parameter :: "string \<Rightarrow> string \<Rightarrow> string" where
  "quoted_parameter name value = name @ ''='' @ [CHR 0x22] @ value @ [CHR 0x22]"

definition bearer_challenge ::
  "oauth_config \<Rightarrow> challenge_error \<Rightarrow> oauth_scope list \<Rightarrow> string \<Rightarrow> string option" where
  "bearer_challenge c e scopes description =
     (let known = sort (filter (List.member (oc_scopes c)) (remdups scopes));
          text = sanitize_description description in
      if known = [] \<or> text = [] then None
      else Some (join '', ''
        [''Bearer '' @ quoted_parameter ''resource_metadata'' (oc_metadata c),
         quoted_parameter ''scope'' (join '' '' (map scope_text known)),
         quoted_parameter ''error'' (challenge_error_text e),
         quoted_parameter ''error_description'' text]))"

section \<open>The authorizer of the repository API\<close>

datatype denial_code = AuthorizationUnavailable | AuthenticationRequired | ScopeRequired

record denial =
  denial_code :: denial_code
  denial_message :: string
  denial_status :: int
  denial_challenge :: "string option"

text \<open>\<open>None\<close>: the construction of the challenge throws out of the authorizer.\<close>

definition unavailable :: denial where
  "unavailable = \<lparr>denial_code = AuthorizationUnavailable,
     denial_message = ''ReproForge authorization is temporarily unavailable'', denial_status = 503,
     denial_challenge = None\<rparr>"

definition permission_message :: string where
  "permission_message = ''Additional ReproForge permission is required''"

definition link_message :: string where
  "link_message = ''Link your ReproForge account to continue''"

definition denied :: "oauth_config \<Rightarrow> access_fault \<Rightarrow> oauth_scope list \<Rightarrow> denial option" where
  "denied c e scopes =
     (case e of
        ForeignAccessFault \<Rightarrow> Some unavailable
      | TokenFault VerificationUnavailable \<Rightarrow> Some unavailable
      | TokenFault ForeignTokenFault \<Rightarrow> Some unavailable
      | InsufficientScope missing \<Rightarrow>
          map_option (\<lambda>t. \<lparr>denial_code = ScopeRequired, denial_message = permission_message,
              denial_status = 403, denial_challenge = Some t\<rparr>)
            (bearer_challenge c InsufficientScopeChallenge missing permission_message)
      | _ \<Rightarrow>
          map_option (\<lambda>t. \<lparr>denial_code = AuthenticationRequired, denial_message = link_message,
              denial_status = 401, denial_challenge = Some t\<rparr>)
            (bearer_challenge c InvalidTokenChallenge scopes link_message))"

definition authorize_request ::
  "js_host \<Rightarrow> token_world \<Rightarrow> oauth_config \<Rightarrow> (string \<Rightarrow> string \<Rightarrow> unit + principal_record option)
     \<Rightarrow> string option \<Rightarrow> oauth_scope list \<Rightarrow> verifier \<Rightarrow> (denial option + principal) \<times> verifier" where
  "authorize_request h w c directory authorization scopes v =
     (case verify_token h w c authorization v of
        (Inl e, v') \<Rightarrow> (Inl (denied c (TokenFault e) scopes), v')
      | (Inr token, v') \<Rightarrow>
          (case authorized_principal directory scopes token of
             Inl e \<Rightarrow> (Inl (denied c e scopes), v')
           | Inr p \<Rightarrow> (Inr p, v')))"

section \<open>What an admitted request has shown\<close>

lemma then_v_Inr: "then_v m f v = (Inr x, v') \<longleftrightarrow> (\<exists>y mid. m v = (Inr y, mid) \<and> f y mid = (Inr x, v'))"
  by (auto simp: then_v_def split: prod.splits sum.splits)

lemma or_fault_Inr [simp]: "or_fault e x = Inr y \<longleftrightarrow> x = Some y"
  by (auto simp: or_fault_def split: option.splits)

lemma lift_v_Inr [simp]: "lift_v r v = (Inr x, v') \<longleftrightarrow> r = Inr x \<and> v' = v"
  by (auto simp: lift_v_def)

lemma fetch_json_Inr:
  "fetch_json w url v = (Inr j, v') \<Longrightarrow>
     tw_fetch w (ver_fetches v) url = FetchBody (Some j) \<and> ver_cache v' = ver_cache v"
  by (auto simp: fetch_json_def split: fetch_reply.splits option.splits)

text \<open>The keys that the authorization server's own discovery document names.\<close>

definition trusted_keys :: "js_host \<Rightarrow> token_world \<Rightarrow> oauth_config \<Rightarrow> jwk list \<Rightarrow> bool" where
  "trusted_keys h w c jwks \<longleftrightarrow>
     (\<exists>i n j keys d origin. tw_fetch w i (oc_discovery c) = FetchBody (Some j) \<and> validate_discovery h c j = Inr d \<and>
        dis_issuer d = oc_server c \<and> map_option url_origin (parse_url h (oc_server c)) = Some origin \<and>
        same_https_origin h (dis_jwks d) origin \<and>
        tw_fetch w n (dis_jwks d) = FetchBody (Some keys) \<and> read_jwks keys = Some jwks)"

definition cache_trusted :: "js_host \<Rightarrow> token_world \<Rightarrow> oauth_config \<Rightarrow> verifier \<Rightarrow> bool" where
  "cache_trusted h w c v \<longleftrightarrow> (\<forall>t jwks. ver_cache v = Some (t, jwks) \<longrightarrow> trusted_keys h w c jwks)"

lemma validate_discovery_Inr:
  "validate_discovery h c j = Inr d \<Longrightarrow> dis_issuer d = oc_server c \<and>
     (\<exists>origin. map_option url_origin (parse_url h (oc_server c)) = Some origin \<and> same_https_origin h (dis_jwks d) origin)"
  by (auto simp: validate_discovery_def and_then_Inr_iff split: if_splits)

lemma fetch_trust_Inr:
  assumes "fetch_trust h w c v = (Inr m, v')"
  shows "trusted_keys h w c (snd m)" and "ver_cache v' = Some m"
proof -
  from assms obtain j v1 d keys v2 jwks t v3 where
    f: "fetch_json w (oc_discovery c) v = (Inr j, v1)" "validate_discovery h c j = Inr d"
      "fetch_json w (dis_jwks d) v1 = (Inr keys, v2)" "read_jwks keys = Some jwks"
    and m: "m = (t, jwks)" "ver_cache v' = Some (t, jwks)"
    by (auto simp: fetch_trust_def then_v_Inr read_clock_def split: if_splits)
  from fetch_json_Inr [OF f(1)] have first: "tw_fetch w (ver_fetches v) (oc_discovery c) = FetchBody (Some j)" ..
  from fetch_json_Inr [OF f(3)] have second: "tw_fetch w (ver_fetches v1) (dis_jwks d) = FetchBody (Some keys)" ..
  from validate_discovery_Inr [OF f(2)] obtain origin where origin: "dis_issuer d = oc_server c"
    "map_option url_origin (parse_url h (oc_server c)) = Some origin" "same_https_origin h (dis_jwks d) origin" by blast
  show "trusted_keys h w c (snd m)"
    unfolding trusted_keys_def m(1) snd_conv
    by (rule exI [of _ "ver_fetches v"], rule exI [of _ "ver_fetches v1"], rule exI [of _ j], rule exI [of _ keys],
        rule exI [of _ d], rule exI [of _ origin]) (intro conjI first second origin f(2,4))
  show "ver_cache v' = Some m" using m by simp
qed

lemma trust_material_Inr:
  assumes "trust_material h w c v = (Inr m, v')" and "cache_trusted h w c v"
  shows "trusted_keys h w c (snd m) \<and> ver_cache v' = Some m"
proof (cases "ver_cache v")
  case None
  with assms(1) have "fetch_trust h w c v = (Inr m, v')" by (simp add: trust_material_def)
  then show ?thesis using fetch_trust_Inr by blast
next
  case (Some cached)
  let ?v = "v\<lparr>ver_reads := ver_reads v + 1\<rparr>"
  have "trusted_keys h w c (snd cached)" using assms(2) Some by (cases cached) (simp add: cache_trusted_def)
  moreover have "fetch_trust h w c ?v = (Inr m, v') \<or> m = cached \<and> v' = ?v"
    using assms(1) Some by (auto simp: trust_material_def then_v_Inr read_clock_def split: if_splits)
  ultimately show ?thesis using fetch_trust_Inr [of h w c ?v m v'] Some by auto
qed

lemma signing_key_Inr:
  assumes "signing_key h w c token v = (Inr key, v')" and "cache_trusted h w c v"
  obtains kid k jwks where "token_kid (tw_jose w) token = Inr kid" and "trusted_keys h w c jwks" and "k \<in> set jwks"
    and "usable_key kid k" and "jose_import (tw_jose w) k = Some key" and "\<exists>t. ver_cache v' = Some (t, jwks)"
proof -
  from assms(1) obtain kid m v1 k where kid: "token_kid (tw_jose w) token = Inr kid"
    and m: "trust_material h w c v = (Inr m, v1)"
    and k: "(case find (usable_key kid) (snd m) of
         Some k \<Rightarrow> lift_v (Inr k)
       | None \<Rightarrow> then_v (fetch_trust h w c) (\<lambda>again.
           lift_v (or_fault InvalidToken (find (usable_key kid) (snd again))))) v1 = (Inr k, v')"
    and key: "jose_import (tw_jose w) k = Some key"
    by (auto simp: signing_key_def then_v_Inr)
  note old = trust_material_Inr [OF m assms(2)]
  show ?thesis
  proof (cases "find (usable_key kid) (snd m)")
    case (Some k')
    with k have "k' = k" and "v' = v1" by auto
    moreover have "k' \<in> set (snd m)" and "usable_key kid k'" using Some by (auto simp: find_Some_iff)
    ultimately show ?thesis using old kid key by (intro that [of kid "snd m" k]) (auto intro: exI [of _ "fst m"])
  next
    case None
    with k obtain again where again: "fetch_trust h w c v1 = (Inr again, v')"
      and found: "find (usable_key kid) (snd again) = Some k" by (auto simp: then_v_Inr)
    have "k \<in> set (snd again)" and "usable_key kid k" using found by (auto simp: find_Some_iff)
    then show ?thesis using fetch_trust_Inr [OF again] kid key
      by (intro that [of kid "snd again" k]) (auto intro: exI [of _ "fst again"])
  qed
qed

lemma verify_token_Inr:
  assumes "verify_token h w c authorization v = (Inr token, v')" and "cache_trusted h w c v"
  obtains bearer kid k jwks key t payload where "parse_bearer authorization = Inr bearer"
    and "token_kid (tw_jose w) bearer = Inr kid" and "trusted_keys h w c jwks" and "k \<in> set jwks" and "usable_key kid k"
    and "jose_import (tw_jose w) k = Some key"
    and "jose_verify (tw_jose w) bearer key (oc_server c) (oc_resource c) t = Some payload"
    and "verified_identity c payload = Inr token" and "cache_trusted h w c v'"
proof -
  from assms(1) obtain bearer key v1 payload where bearer: "parse_bearer authorization = Inr bearer"
    and key: "signing_key h w c bearer v = (Inr key, v1)"
    and payload: "jose_verify (tw_jose w) bearer key (oc_server c) (oc_resource c) (tw_clock w (ver_reads v1)) = Some payload"
    and token: "verified_identity c payload = Inr token" and v': "v' = v1\<lparr>ver_reads := ver_reads v1 + 1\<rparr>"
    by (auto simp: verify_token_def known_fault_def then_v_Inr read_clock_def split: prod.splits sum.splits token_fault.splits)
  from key assms(2) obtain kid k jwks where "token_kid (tw_jose w) bearer = Inr kid" "trusted_keys h w c jwks" "k \<in> set jwks"
    "usable_key kid k" "jose_import (tw_jose w) k = Some key" "\<exists>t. ver_cache v1 = Some (t, jwks)"
    by (rule signing_key_Inr)
  with bearer payload token v' that show ?thesis by (auto simp: cache_trusted_def)
qed

lemma verified_identity_Inr:
  "verified_identity c payload = Inr token \<Longrightarrow>
     tok_issuer token = oc_server c \<and> tok_subject token = trimmed_claim ''sub'' payload \<and>
     tok_tenant token = trimmed_claim (oc_tenant_claim c) payload \<and>
     (\<exists>raw. json_member ''scope'' payload = Some (JStr raw) \<and> tok_scopes token = granted_scopes raw)"
  by (auto simp: verified_identity_def Let_def split: option.splits json.splits if_splits)

lemma set_map_filter: "set (List.map_filter f xs) = {y. \<exists>x \<in> set xs. f x = Some y}"
  by (induction xs) (auto simp: List.map_filter_simps split: option.splits)

lemma set_granted_scopes: "s \<in> set (granted_scopes raw) \<longleftrightarrow> scope_text s \<in> set (text_words raw)"
  by (auto simp: granted_scopes_def set_map_filter scope_named_iff)

lemma authorized_principal_Inr:
  "authorized_principal directory scopes token = Inr p \<Longrightarrow>
     scopes \<noteq> [] \<and> set scopes \<subseteq> set (tok_scopes token) \<and>
     (\<exists>r. directory (tok_issuer token) (tok_subject token) = Inr (Some r) \<and> mapped_status r = TenantActive \<and>
       mapped_tenant r = tok_tenant token \<and>
       p = \<lparr>principal_caller = mapped_principal r, principal_id = mapped_principal r, principal_tenant = mapped_tenant r\<rparr>)"
proof -
  assume a: "authorized_principal directory scopes token = Inr p"
  then have scopes: "scopes \<noteq> []" by (cases scopes) (simp_all add: authorized_principal_def canonical_scopes_def)
  show ?thesis
  proof (cases "directory (tok_issuer token) (tok_subject token)")
    case (Inl u)
    with a scopes show ?thesis by (simp add: authorized_principal_def canonical_scopes_def)
  next
    case (Inr found)
    then obtain r where r: "directory (tok_issuer token) (tok_subject token) = Inr (Some r)"
      using a scopes by (cases found) (simp_all add: authorized_principal_def canonical_scopes_def)
    with a scopes have "mapped_status r = TenantActive" "mapped_tenant r = tok_tenant token"
      and missing: "filter (\<lambda>s. \<not> List.member (tok_scopes token) s) (sort (remdups scopes)) = []"
      and "p = \<lparr>principal_caller = mapped_principal r, principal_id = mapped_principal r, principal_tenant = mapped_tenant r\<rparr>"
      by (simp_all add: authorized_principal_def canonical_scopes_def Let_def split: if_splits)
    moreover have "set scopes \<subseteq> set (tok_scopes token)" using missing by (auto simp: filter_empty_conv)
    ultimately show ?thesis using r scopes by auto
  qed
qed

text \<open>
  C22. A request that the authorizer admits carries a token that the signature check accepted for
  this server and resource, under a usable key of the key set that the server's own discovery names
  on the same HTTPS origin; every required scope is a word of the token's scope claim; and the
  principal is the directory's, of an active tenant that is the tenant of the token.
\<close>

theorem admitted_request_is_entitled:
  assumes "authorize_request h w c directory authorization scopes v = (Inr p, v')" and "cache_trusted h w c v"
  shows "cache_trusted h w c v' \<and> (\<exists>bearer kid jwks k key t payload raw.
    parse_bearer authorization = Inr bearer \<and> token_kid (tw_jose w) bearer = Inr kid \<and>
    trusted_keys h w c jwks \<and> k \<in> set jwks \<and> usable_key kid k \<and> jose_import (tw_jose w) k = Some key \<and>
    jose_verify (tw_jose w) bearer key (oc_server c) (oc_resource c) t = Some payload \<and>
    json_member ''scope'' payload = Some (JStr raw) \<and>
    scopes \<noteq> [] \<and> (\<forall>s \<in> set scopes. scope_text s \<in> set (text_words raw)) \<and>
    (\<exists>r. directory (oc_server c) (trimmed_claim ''sub'' payload) = Inr (Some r) \<and> mapped_status r = TenantActive \<and>
       mapped_tenant r = trimmed_claim (oc_tenant_claim c) payload \<and>
       p = \<lparr>principal_caller = mapped_principal r, principal_id = mapped_principal r,
         principal_tenant = mapped_tenant r\<rparr>))"
proof -
  from assms(1) obtain token where token: "verify_token h w c authorization v = (Inr token, v')"
    and p: "authorized_principal directory scopes token = Inr p"
    by (auto simp: authorize_request_def split: prod.splits sum.splits)
  from token assms(2) obtain bearer kid k jwks key t payload where
    v: "parse_bearer authorization = Inr bearer" "token_kid (tw_jose w) bearer = Inr kid" "trusted_keys h w c jwks"
      "k \<in> set jwks" "usable_key kid k" "jose_import (tw_jose w) k = Some key"
      "jose_verify (tw_jose w) bearer key (oc_server c) (oc_resource c) t = Some payload"
    and identity: "verified_identity c payload = Inr token" and cache: "cache_trusted h w c v'"
    by (rule verify_token_Inr)
  from verified_identity_Inr [OF identity] obtain raw where
    raw: "json_member ''scope'' payload = Some (JStr raw)" "tok_scopes token = granted_scopes raw"
    and claims: "tok_issuer token = oc_server c" "tok_subject token = trimmed_claim ''sub'' payload"
      "tok_tenant token = trimmed_claim (oc_tenant_claim c) payload" by blast
  have "\<forall>s \<in> set scopes. scope_text s \<in> set (text_words raw)"
    using authorized_principal_Inr [OF p] raw(2) set_granted_scopes by auto
  with v raw(1) cache authorized_principal_Inr [OF p] claims show ?thesis by metis
qed

section \<open>An instance\<close>

definition access_host :: js_host where
  "access_host = plain_host\<lparr>parse_url := (\<lambda>s.
     if take 11 s = ''https://a.b''
     then Some \<lparr>url_protocol = ''https:'', url_hostname = ''a.b'', url_port = [], url_username = [], url_password = [],
       url_pathname = drop 11 s, url_search = [], url_hash = []\<rparr>
     else None)\<rparr>"

definition access_config :: oauth_config where
  "access_config = \<lparr>oc_server = ''https://a.b/'', oc_discovery = ''https://a.b/d'', oc_metadata = ''m'',
     oc_resource = ''r'', oc_scopes = oauth_scopes, oc_tenant_claim = ''t''\<rparr>"

definition access_discovery :: json where
  "access_discovery = JObj [(''authorization_endpoint'', JStr ''https://a.b/a''),
     (''code_challenge_methods_supported'', JArr [JStr ''S256'']), (''issuer'', JStr ''https://a.b/''),
     (''jwks_uri'', JStr ''https://a.b/k''), (''response_types_supported'', JArr [JStr ''code'']),
     (''token_endpoint'', JStr ''https://a.b/t''),
     (''token_endpoint_auth_methods_supported'', JArr [JStr ''none''])]"

definition access_key :: json where
  "access_key = JObj [(''kid'', JStr ''k''), (''kty'', JStr ''RSA'')]"

definition access_payload :: json where
  "access_payload = JObj [(''sub'', JStr ''s''), (''t'', JStr ''t1''), (''exp'', JNum ''9''),
     (''scope'', JStr ''reproforge:cases:read'')]"

definition access_world :: token_world where
  "access_world = \<lparr>
     tw_jose = \<lparr>jose_header = (\<lambda>_. Some (JObj [(''alg'', JStr ''RS256''), (''kid'', JStr ''k'')])),
       jose_import = (\<lambda>k. Some (jwk_kid k)),
       jose_verify = (\<lambda>_ key _ _ _. if key = ''k'' then Some access_payload else None)\<rparr>,
     tw_fetch = (\<lambda>_ url. FetchBody (Some
       (if url = ''https://a.b/d'' then access_discovery else JObj [(''keys'', JArr [access_key])]))),
     tw_clock = int\<rparr>"

definition access_directory :: "string \<Rightarrow> string \<Rightarrow> unit + principal_record option" where
  "access_directory issuer subject =
     resolve_principal access_host [\<lparr>pr_id = ''p1'', pr_tenant = ''t1'', pr_issuer = ''https://a.b/'', pr_subject = ''s''\<rparr>]
       [(''t1'', TenantActive)] issuer subject"

definition no_trust :: verifier where
  "no_trust = \<lparr>ver_cache = None, ver_fetches = 0, ver_reads = 0\<rparr>"

lemma access_discovery_valid:
  "validate_discovery access_host access_config access_discovery =
     Inr \<lparr>dis_authorization = ''https://a.b/a'', dis_challenges = [''S256''], dis_issuer = ''https://a.b/'',
       dis_jwks = ''https://a.b/k'', dis_responses = [''code''], dis_token = ''https://a.b/t'', dis_token_auth = [''none'']\<rparr>"
  by code_simp

lemma access_identity:
  "verified_identity access_config access_payload =
     Inr \<lparr>tok_expires = ''9'', tok_issuer = ''https://a.b/'', tok_scopes = [CasesRead], tok_subject = ''s'', tok_tenant = ''t1''\<rparr>"
  by code_simp

lemma access_bearer: "parse_bearer (Some ''Bearer x'') = Inr ''x''"
  by code_simp

lemma access_record:
  "access_directory ''https://a.b/'' ''s'' =
     Inr (Some \<lparr>mapped_principal = ''p1'', mapped_status = TenantActive, mapped_tenant = ''t1''\<rparr>)"
  by code_simp

lemma access_admitted:
  "authorize_request access_host access_world access_config access_directory (Some ''Bearer x'') [CasesRead] no_trust =
     (Inr \<lparr>principal_caller = ''p1'', principal_id = ''p1'', principal_tenant = ''t1''\<rparr>,
      \<lparr>ver_cache = Some (0, [\<lparr>jwk_kid = ''k'', jwk_kty = ''RSA'', jwk_alg = None, jwk_use = None, jwk_data = access_key\<rparr>]),
        ver_fetches = 2, ver_reads = 2\<rparr>)"
  by code_simp

lemma admitted_request_is_entitled_witness:
  "\<exists>jwks k payload raw. trusted_keys access_host access_world access_config jwks \<and> k \<in> set jwks \<and>
     jose_verify (tw_jose access_world) ''x'' (jwk_kid k) ''https://a.b/'' ''r'' 0 = Some payload \<and>
     json_member ''scope'' payload = Some (JStr raw) \<and> ''reproforge:cases:read'' \<in> set (text_words raw)"
proof -
  have trusted: "cache_trusted access_host access_world access_config no_trust"
    by (simp add: cache_trusted_def no_trust_def)
  obtain jwks k key t payload raw where
    "trusted_keys access_host access_world access_config jwks" "k \<in> set jwks"
    "jose_import (tw_jose access_world) k = Some key"
    "jose_verify (tw_jose access_world) ''x'' key (oc_server access_config) (oc_resource access_config) t = Some payload"
    "json_member ''scope'' payload = Some (JStr raw)" "''reproforge:cases:read'' \<in> set (text_words raw)"
    using admitted_request_is_entitled [OF access_admitted trusted] by (auto simp: access_bearer)
  then show ?thesis
    by (intro exI [of _ jwks] exI [of _ k] exI [of _ payload] exI [of _ raw]) (simp add: access_world_def access_config_def)
qed

section \<open>What a caller without an authorization server is told\<close>

text \<open>
  A server that cannot be reached is reported as a token to be renewed, where a server that
  answers with a failure is reported as unavailable.
\<close>

lemma unreachable_server_asks_to_link:
  assumes "parse_bearer authorization = Inr bearer" and "token_kid (tw_jose w) bearer = Inr kid" and "ver_cache v = None"
    and "tw_fetch w (ver_fetches v) (oc_discovery c) = FetchThrows"
    and "bearer_challenge c InvalidTokenChallenge scopes link_message = Some t"
  shows "fst (authorize_request h w c directory authorization scopes v) =
    Inl (Some \<lparr>denial_code = AuthenticationRequired, denial_message = link_message, denial_status = 401,
      denial_challenge = Some t\<rparr>)"
  using assms by (simp add: authorize_request_def verify_token_def signing_key_def then_v_def lift_v_def
      trust_material_def fetch_trust_def fetch_json_def known_fault_def denied_def)

lemma refusing_server_is_unavailable:
  assumes "parse_bearer authorization = Inr bearer" and "token_kid (tw_jose w) bearer = Inr kid" and "ver_cache v = None"
    and "tw_fetch w (ver_fetches v) (oc_discovery c) = FetchRefused"
  shows "fst (authorize_request h w c directory authorization scopes v) = Inl (Some unavailable)"
  using assms by (simp add: authorize_request_def verify_token_def signing_key_def then_v_def lift_v_def
      trust_material_def fetch_trust_def fetch_json_def known_fault_def denied_def)

section \<open>The description in a challenge\<close>

lemma set_js_trim: "set (js_trim s) \<subseteq> set s"
  by (auto simp: js_trim_def dest!: set_dropWhileD)

lemma set_replace_runs: "c \<in> set (replace_runs P new s) \<Longrightarrow> c \<in> set new \<or> c \<in> set s \<and> \<not> P c"
  by (induction P new s rule: replace_runs.induct) (auto split: if_splits dest: set_dropWhileD)

text \<open>A description closes no quoted string, escapes nothing and starts no header line.\<close>

lemma sanitized_description_is_quotable:
  assumes "c \<in> set (sanitize_description value)"
  shows "c \<noteq> CHR 0x22 \<and> c \<noteq> CHR 0x5C \<and> 32 \<le> code_unit c \<and> code_unit c \<noteq> 127"
proof -
  from assms have "c \<in> set (replace_runs space_char '' '' (filter (\<lambda>c. \<not> (code_unit c < 32 \<or> code_unit c = 127))
      (filter (\<lambda>c. c \<noteq> CHR 0x22 \<and> c \<noteq> CHR 0x5C)
        (hide_credentials (replace_runs (\<lambda>c. code_unit c \<in> {9, 10, 13}) '' '' value)))))"
    unfolding sanitize_description_def using set_js_trim by (blast dest: in_set_takeD)
  from set_replace_runs [OF this] have "c = CHR 0x20 \<or> (c \<noteq> CHR 0x22 \<and> c \<noteq> CHR 0x5C \<and> \<not> (code_unit c < 32 \<or> code_unit c = 127))"
    by auto
  then show ?thesis by (auto simp: code_unit_def)
qed

lemma sanitized_description_is_short: "length (sanitize_description value) \<le> 180"
  by (simp add: sanitize_description_def)

end
