(* ===== verification/Spec2Isabelle.thy ===== *)
theory Spec2Isabelle
  imports CaseLifecycle JobLifecycle JsonLaws Minimization Evidence Dependency Planning Lifecycle
    Redaction Bounded Supervisor Acquisition Bundle RepositoryProof Runner WorkerLaws Access
begin

text \<open>
  A model of the core of ReproForge, the service that turns the report of a failure into a
  verified reproduction. Paths are relative to src/src.

  \<^bold>\<open>The parts and how they interact.\<close> A tenant starts a reproduction: one transaction reserves
  the case, its job and its idempotency key, reserves quota, writes an audit event and posts a
  message to the outbox. A publisher moves messages to the queue. A consumer claims the lease of
  the job, runs the worker and ends the lease; a recovery pass takes up the jobs whose lease ran
  out, and a cancellation reaches a job through its row. The worker runs the isolated repository
  runner: it acquires the source, prepares the dependencies, snapshots the sandbox, runs one
  control and several candidates under a supervisor, and assembles a proof. The proof puts the
  runs before the failure oracle, takes the case to its final state and seals a bundle, which
  the artifact store keeps. An \<open>error + 'a\<close> is a call that throws or returns, a query a
  transaction on the tables, a program a sequence of calls with their trace.

  \<^bold>\<open>Domain\<close> (domain/). \<open>CaseLifecycle\<close> and \<open>JobLifecycle\<close> are the state machines of case.ts and
  job.ts, both interpretations of the locale of \<open>Transitions\<close>: paths are legal, bounded and
  end in terminal states. \<open>Oracle\<close> is the oracle interpreter of oracle.ts with run.ts,
  \<open>Verification\<close> the verdict, decided on every branch; \<open>Minimization\<close> the choice of the accepted
  reduction; \<open>Evidence\<close> items and hypotheses. \<open>Json\<close>, \<open>JsonLaws\<close>, \<open>Pretty\<close>, \<open>Decode\<close> and
  \<open>Documents\<close> are the JSON texts the program writes and reads, with the round trips; \<open>Redaction\<close>
  removes secrets; \<open>Bundle\<close> creates, materializes and validates a bundle.

  \<^bold>\<open>Execution\<close> (execution/). \<open>Contracts\<close> holds the schemas of contracts.ts, \<open>Sandbox\<close> the calls to
  the sandbox provider as a trace over a world of answers. \<open>SourceProvenance\<close>, \<open>Acquisition\<close>,
  \<open>Dependency\<close>, \<open>Planning\<close>, \<open>Bounded\<close>, \<open>Supervisor\<close>, \<open>Lifecycle\<close>, \<open>RepositoryProof\<close> and \<open>Runner\<close>
  model the file of their name. The lemmas say which calls are made under which network policy,
  that every sandbox is stopped and every snapshot deleted however an attempt ends, that limits
  are exact, and that a verdict is earned by the runs the proof contains.

  \<^bold>\<open>Durable state\<close> (application/, infrastructure/postgres/). \<open>DurableRecords\<close> holds the schemas
  of ports/production.ts, \<open>Tables\<close> the rows with their constraints and triggers, the queries and
  the serializable transaction, \<open>JobStore\<close> the repository of reproductions, \<open>Outbox\<close> and \<open>Quota\<close>
  the outbox with its publisher and the quota ledger, \<open>Workflow\<close> start and cancellation,
  \<open>Consumer\<close> the queue consumer. \<open>Leases\<close>, \<open>Fencing\<close>, \<open>Observers\<close> and \<open>Delivery\<close> prove what
  they promise: \<open>Leases\<close> reduces every operation to one move of one job row, \<open>Fencing\<close> draws the
  invariant of the store, the refinement to the lease machine, fencing and recovery from it,
  \<open>Observers\<close> is the contract by which any other table follows the same operations.

  \<^bold>\<open>Artifacts, workers and services\<close> (infrastructure/artifacts/, application/). \<open>ArtifactStore\<close> is
  the content-addressed store over the blob client, with the blob service as four operations on a
  state of its own; \<open>ArtifactLaws\<close> proves puts, reads and deletes against the artifact rows.
  \<open>TrustedSample\<close> is the fixture runner and the run of the sample, \<open>CaseService\<close> the in-memory
  repository and service over it. \<open>DurableWorkers\<close> are the two workers of the queue consumer,
  \<open>DurableServices\<close> the two durable services: start, read, cancel and export over publisher,
  consumer, job repository and artifact store. \<open>WorkerLaws\<close> proves what crosses them: verified work
  is stored, what is stored is what is exported, a finished start runs nothing again, and a caller
  reads well-formed records of its own.

  \<^bold>\<open>Access\<close> (auth/, application/authorization.ts). \<open>Access\<close> is the way from the authorization header
  of a request to a principal: the verifier of tokens with its cached keys, the directory of
  principals, the required scopes, the challenge and the denials. The jose library and the answers
  of the authorization server are parameters, the clock and the fetches a sequence that the
  verifier's state counts. The lemmas trace an admitted request back to what was shown for it.

  \<^bold>\<open>Bounds and fuel.\<close> The JSON parser has fuel of twice the length of its text plus one, and the
  scans of \<open>Redaction\<close> the length of theirs: every step consumes a character, and more fuel
  never changes an answer. A serializable transaction is tried three times, as in the code.
  Retries of the sandbox lifecycle and the waiting of the supervisor are bounded by their
  arguments. All other recursion is structural or has a measure.

  \<^bold>\<open>Reading the model.\<close> A host record stands for what JavaScript, Node, zod, Postgres or a service
  does: regular expressions given by users, collation, SHA-256, UTF-8, dates, provider
  answers. A timestamp is the instant it denotes, in milliseconds; a canonical one lies in the
  range of a Date. Numbers whose schema makes them integers are \<open>int\<close>, with the bound of a safe
  integer where the code checks it. A jsonb column holds the value itself; retention columns keep
  their defaults, and the check of the size of an audit event's metadata is left out. A
  transaction is atomic; \<open>CURRENT_TIMESTAMP\<close> is \<open>st_now\<close>. Where other processes may commit
  between two calls, the model has a world that says what they did; it may do anything that
  the operations allow.

  \<^bold>\<open>Not modelled.\<close> The HTTP, MCP and user interface layers and the configuration (parsing of
  requests, rendering, wiring); the clients of GitHub, Auth0, OpenAI, Vercel and Neon, which are
  calls to services, and the sessions of the web site; metrics and logging; operations dashboards and health probes, which only
  read; scripts, tests and evaluations. The manifest lists every part with its reason.
\<close>

end
